(* ===== verification/Prelude.thy ===== *)
theory Prelude
  imports Main "HOL-Library.Sublist"
begin

text \<open>
  Shared vocabulary of the development.

  \<^item> Computations with state and exceptions: a kernel method that mutates an object and may
    throw is a function \<open>'s \<Rightarrow> ('e + 'a) \<times> 's\<close>. The state is returned on both
    outcomes, because what was written before a JavaScript \<open>throw\<close> stays written. A SQLite
    transaction (\<open>atomically\<close>) restores the state on a throw instead.
  \<^item> \<open>preserves\<close>, the frame and invariant calculus of such computations, with the
    introduction rules collected in \<open>pres\<close>.
  \<^item> SQL tables as lists of rows in rowid order, keyed by a primary key, and JavaScript Maps
    and Sets as association lists and lists in insertion order.
\<close>

named_theorems pres \<open>introduction rules: a computation preserves a predicate on states\<close>
named_theorems act \<open>unfolding rules of the state and exception combinators\<close>

section \<open>Computations with state and exceptions\<close>

type_synonym ('s, 'e, 'a) act = "'s \<Rightarrow> ('e + 'a) \<times> 's"

definition ret :: "'a \<Rightarrow> ('s, 'e, 'a) act" where
  "ret x = (\<lambda>s. (Inr x, s))"

definition raise :: "'e \<Rightarrow> ('s, 'e, 'a) act" where
  "raise e = (\<lambda>s. (Inl e, s))"

definition andThen :: "('s, 'e, 'a) act \<Rightarrow> ('a \<Rightarrow> ('s, 'e, 'b) act) \<Rightarrow> ('s, 'e, 'b) act" where
  "andThen m f = (\<lambda>s. case m s of (Inl e, s') \<Rightarrow> (Inl e, s') | (Inr x, s') \<Rightarrow> f x s')"

definition thenDo :: "('s, 'e, 'a) act \<Rightarrow> ('s, 'e, 'b) act \<Rightarrow> ('s, 'e, 'b) act" where
  "thenDo m n = andThen m (\<lambda>_. n)"

definition reads :: "('s \<Rightarrow> 'a) \<Rightarrow> ('s, 'e, 'a) act" where
  "reads f = (\<lambda>s. (Inr (f s), s))"

definition modify :: "('s \<Rightarrow> 's) \<Rightarrow> ('s, 'e, unit) act" where
  "modify f = (\<lambda>s. (Inr (), f s))"

text \<open>\<open>if (!ok) throw e\<close>\<close>

definition guardE :: "bool \<Rightarrow> 'e \<Rightarrow> ('s, 'e, unit) act" where
  "guardE ok e = (if ok then ret () else raise e)"

text \<open>\<open>if (b) { m }\<close> for a statement \<open>m\<close>\<close>

definition whenDo :: "bool \<Rightarrow> ('s, 'e, unit) act \<Rightarrow> ('s, 'e, unit) act" where
  "whenDo b m = (if b then m else ret ())"

text \<open>\<open>try { m } catch (e) { h(e) }\<close>; the writes of \<open>m\<close> before the throw stay\<close>

definition catchE :: "('s, 'e, 'a) act \<Rightarrow> ('e \<Rightarrow> ('s, 'e, 'a) act) \<Rightarrow> ('s, 'e, 'a) act" where
  "catchE m h = (\<lambda>s. case m s of (Inl e, s') \<Rightarrow> h e s' | (Inr x, s') \<Rightarrow> (Inr x, s'))"

text \<open>A SQLite transaction: a throw rolls every write of the body back.\<close>

definition atomically :: "('s, 'e, 'a) act \<Rightarrow> ('s, 'e, 'a) act" where
  "atomically m = (\<lambda>s. case m s of (Inl e, s') \<Rightarrow> (Inl e, s) | (Inr x, s') \<Rightarrow> (Inr x, s'))"

text \<open>\<open>for (const x of xs) body(x)\<close>; a throw leaves the loop\<close>

fun forEach :: "'x list \<Rightarrow> ('x \<Rightarrow> ('s, 'e, unit) act) \<Rightarrow> ('s, 'e, unit) act" where
  "forEach [] f = ret ()"
| "forEach (x # xs) f = thenDo (f x) (forEach xs f)"

lemmas act_defs = ret_def raise_def andThen_def thenDo_def reads_def modify_def guardE_def
  whenDo_def catchE_def atomically_def

lemma ret_run [simp]: "ret x s = (Inr x, s)"
  by (simp add: ret_def)

lemma raise_run [simp]: "raise e s = (Inl e, s)"
  by (simp add: raise_def)

lemma reads_run [simp]: "reads f s = (Inr (f s), s)"
  by (simp add: reads_def)

lemma modify_run [simp]: "modify f s = (Inr (), f s)"
  by (simp add: modify_def)

lemma guardE_run [simp]: "guardE b e s = (if b then Inr () else Inl e, s)"
  by (simp add: guardE_def)

lemma whenDo_run [simp]: "whenDo b m s = (if b then m s else (Inr (), s))"
  by (simp add: whenDo_def)

lemma andThen_simps [simp]:
  "m s = (Inl e, s') \<Longrightarrow> andThen m f s = (Inl e, s')"
  "m s = (Inr x, s') \<Longrightarrow> andThen m f s = f x s'"
  by (simp_all add: andThen_def)

lemma thenDo_simps [simp]:
  "m s = (Inl e, s') \<Longrightarrow> thenDo m n s = (Inl e, s')"
  "m s = (Inr x, s') \<Longrightarrow> thenDo m n s = n s'"
  by (simp_all add: thenDo_def)

lemma catchE_simps [simp]:
  "m s = (Inl e, s') \<Longrightarrow> catchE m h s = h e s'"
  "m s = (Inr x, s') \<Longrightarrow> catchE m h s = (Inr x, s')"
  by (simp_all add: catchE_def)

lemma atomically_simps [simp]:
  "m s = (Inl e, s') \<Longrightarrow> atomically m s = (Inl e, s)"
  "m s = (Inr x, s') \<Longrightarrow> atomically m s = (Inr x, s')"
  by (simp_all add: atomically_def)

text \<open>Inversion: a computation that returned passed through every step of its chain.\<close>

lemma andThen_Inr [act]:
  "andThen m f s = (Inr y, t) \<longleftrightarrow> (\<exists>x s'. m s = (Inr x, s') \<and> f x s' = (Inr y, t))"
  by (auto simp: andThen_def split: prod.splits sum.splits)

lemma thenDo_Inr [act]:
  "thenDo m n s = (Inr y, t) \<longleftrightarrow> (\<exists>x s'. m s = (Inr x, s') \<and> n s' = (Inr y, t))"
  by (simp add: thenDo_def andThen_Inr)

lemma andThen_Inl [act]:
  "andThen m f s = (Inl e, t) \<longleftrightarrow>
     m s = (Inl e, t) \<or> (\<exists>x s'. m s = (Inr x, s') \<and> f x s' = (Inl e, t))"
  by (auto simp: andThen_def split: prod.splits sum.splits)

lemma thenDo_Inl [act]:
  "thenDo m n s = (Inl e, t) \<longleftrightarrow>
     m s = (Inl e, t) \<or> (\<exists>x s'. m s = (Inr x, s') \<and> n s' = (Inl e, t))"
  by (simp add: thenDo_def andThen_Inl)

lemma atomically_Inr [act]: "atomically m s = (Inr x, t) \<longleftrightarrow> m s = (Inr x, t)"
  by (auto simp: atomically_def split: prod.splits sum.splits)

lemma atomically_Inl [act]:
  "atomically m s = (Inl e, t) \<longleftrightarrow> t = s \<and> (\<exists>s'. m s = (Inl e, s'))"
  by (auto simp: atomically_def split: prod.splits sum.splits)

lemma catchE_Inr [act]:
  "catchE m h s = (Inr x, t) \<longleftrightarrow>
     m s = (Inr x, t) \<or> (\<exists>e s'. m s = (Inl e, s') \<and> h e s' = (Inr x, t))"
  by (auto simp: catchE_def split: prod.splits sum.splits)

lemma catchE_Inl [act]:
  "catchE m h s = (Inl e, t) \<longleftrightarrow> (\<exists>e' s'. m s = (Inl e', s') \<and> h e' s' = (Inl e, t))"
  by (auto simp: catchE_def split: prod.splits sum.splits)

section \<open>Preservation\<close>

text \<open>
  \<open>preserves I m\<close>: whether \<open>m\<close> returns or throws, it keeps \<open>I\<close>. With \<open>I\<close> of the form
  \<open>\<lambda>s. f s = c\<close> it says that \<open>m\<close> does not touch \<open>f\<close>.
\<close>

definition preserves :: "('s \<Rightarrow> bool) \<Rightarrow> ('s, 'e, 'a) act \<Rightarrow> bool" where
  "preserves I m \<longleftrightarrow> (\<forall>s. I s \<longrightarrow> I (snd (m s)))"

lemma preservesI: "(\<And>s. I s \<Longrightarrow> I (snd (m s))) \<Longrightarrow> preserves I m"
  by (simp add: preserves_def)

lemma preservesD: "preserves I m \<Longrightarrow> I s \<Longrightarrow> m s = (r, s') \<Longrightarrow> I s'"
  by (force simp: preserves_def)

lemma preserves_snd: "preserves I m \<Longrightarrow> I s \<Longrightarrow> I (snd (m s))"
  by (simp add: preserves_def)

lemma pres_ret [pres]: "preserves I (ret x)"
  and pres_raise [pres]: "preserves I (raise e)"
  and pres_reads [pres]: "preserves I (reads f)"
  and pres_guardE [pres]: "preserves I (guardE b e)"
  by (simp_all add: preserves_def)

lemma pres_modify [pres]: "(\<And>s. I s \<Longrightarrow> I (f s)) \<Longrightarrow> preserves I (modify f)"
  by (simp add: preserves_def)

lemma pres_andThen [pres]:
  "preserves I m \<Longrightarrow> (\<And>x. preserves I (f x)) \<Longrightarrow> preserves I (andThen m f)"
  by (rule preservesI) (auto simp: andThen_def dest: preservesD preserves_snd
      split: prod.splits sum.splits)

lemma pres_thenDo [pres]: "preserves I m \<Longrightarrow> preserves I n \<Longrightarrow> preserves I (thenDo m n)"
  unfolding thenDo_def by (rule pres_andThen)

lemma pres_whenDo [pres]: "(b \<Longrightarrow> preserves I m) \<Longrightarrow> preserves I (whenDo b m)"
  by (simp add: preserves_def)

lemma pres_catchE [pres]:
  "preserves I m \<Longrightarrow> (\<And>e. preserves I (h e)) \<Longrightarrow> preserves I (catchE m h)"
  by (rule preservesI) (auto simp: catchE_def dest: preservesD preserves_snd
      split: prod.splits sum.splits)

lemma pres_atomically [pres]: "preserves I m \<Longrightarrow> preserves I (atomically m)"
  by (rule preservesI) (auto simp: atomically_def dest: preservesD
      split: prod.splits sum.splits)

lemma pres_forEach [pres]: "(\<And>x. x \<in> set xs \<Longrightarrow> preserves I (f x)) \<Longrightarrow> preserves I (forEach xs f)"
  by (induction xs) (auto intro!: pres_ret pres_thenDo)

lemma pres_if [pres]:
  "(b \<Longrightarrow> preserves I m) \<Longrightarrow> (\<not> b \<Longrightarrow> preserves I n) \<Longrightarrow> preserves I (if b then m else n)"
  by simp

lemma pres_option [pres]:
  "(x = None \<Longrightarrow> preserves I m) \<Longrightarrow> (\<And>y. x = Some y \<Longrightarrow> preserves I (f y)) \<Longrightarrow>
   preserves I (case x of None \<Rightarrow> m | Some y \<Rightarrow> f y)"
  by (cases x) simp_all

section \<open>Tables, maps and sets in row order\<close>

text \<open>\<open>SELECT * FROM t WHERE key = ?\<close> on a table with that primary key.\<close>

definition rowOf :: "('r \<Rightarrow> 'k) \<Rightarrow> 'k \<Rightarrow> 'r list \<Rightarrow> 'r option" where
  "rowOf key k rows = find (\<lambda>r. key r = k) rows"

text \<open>\<open>UPDATE t SET .. WHERE key = ?\<close>\<close>

definition updRow :: "('r \<Rightarrow> 'k) \<Rightarrow> 'k \<Rightarrow> ('r \<Rightarrow> 'r) \<Rightarrow> 'r list \<Rightarrow> 'r list" where
  "updRow key k f rows = map (\<lambda>r. if key r = k then f r else r) rows"

text \<open>\<open>DELETE FROM t WHERE p\<close>\<close>

definition delRows :: "('r \<Rightarrow> bool) \<Rightarrow> 'r list \<Rightarrow> 'r list" where
  "delRows p rows = filter (\<lambda>r. \<not> p r) rows"

text \<open>\<open>INSERT OR REPLACE\<close>: the old row goes, the new one takes the next rowid.\<close>

definition replaceRow :: "('r \<Rightarrow> 'k) \<Rightarrow> 'r \<Rightarrow> 'r list \<Rightarrow> 'r list" where
  "replaceRow key r rows = delRows (\<lambda>r'. key r' = key r) rows @ [r]"

lemma rowOf_key: "rowOf key k rows = Some r \<Longrightarrow> key r = k"
  by (auto simp: rowOf_def find_Some_iff)

lemma rowOf_mem: "rowOf key k rows = Some r \<Longrightarrow> r \<in> set rows"
  by (auto simp: rowOf_def find_Some_iff)

lemma rowOf_None_iff: "rowOf key k rows = None \<longleftrightarrow> k \<notin> key ` set rows"
  by (auto simp: rowOf_def find_None_iff)

lemma rowOf_Nil [simp]: "rowOf key k [] = None"
  by (simp add: rowOf_def)

lemma rowOf_Cons [simp]: "rowOf key k (r # rs) = (if key r = k then Some r else rowOf key k rs)"
  by (simp add: rowOf_def)

lemma rowOf_append: "rowOf key k (xs @ ys) =
    (case rowOf key k xs of Some r \<Rightarrow> Some r | None \<Rightarrow> rowOf key k ys)"
  by (induction xs) (auto simp: rowOf_def)

lemma rowOf_distinct:
  "distinct (map key rows) \<Longrightarrow> r \<in> set rows \<Longrightarrow> rowOf key (key r) rows = Some r"
  by (induction rows) (auto simp: rowOf_def image_iff)

lemma map_key_updRow:
  "(\<And>r. key (f r) = key r) \<Longrightarrow> map key (updRow key k f rows) = map key rows"
  by (simp add: updRow_def)

lemma rowOf_updRow:
  assumes "\<And>r. key (f r) = key r"
  shows "rowOf key j (updRow key k f rows) =
    (if j = k then map_option f (rowOf key j rows) else rowOf key j rows)"
  using assms by (induction rows) (auto simp: updRow_def rowOf_def)

lemma set_updRow: "r' \<in> set (updRow key k f rows) \<longleftrightarrow>
    (\<exists>r \<in> set rows. r' = (if key r = k then f r else r))"
  unfolding updRow_def by (subst set_map) blast

lemma set_delRows [simp]: "set (delRows p rows) = {r \<in> set rows. \<not> p r}"
  by (simp add: delRows_def)

lemma rowOf_replaceRow:
  "rowOf key j (replaceRow key r rows) = (if j = key r then Some r else rowOf key j rows)"
  by (induction rows) (auto simp: replaceRow_def delRows_def rowOf_def rowOf_append)

text \<open>JavaScript \<open>Map.get\<close>, \<open>Map.set\<close> and \<open>Map.delete\<close>: insertion order, a reset key keeps its place.\<close>

type_synonym ('k, 'v) jsmap = "('k \<times> 'v) list"

definition mapGet :: "('k, 'v) jsmap \<Rightarrow> 'k \<Rightarrow> 'v option" where
  "mapGet m k = map_of m k"

definition mapSet :: "'k \<Rightarrow> 'v \<Rightarrow> ('k, 'v) jsmap \<Rightarrow> ('k, 'v) jsmap" where
  "mapSet k v m = (if k \<in> fst ` set m then map (\<lambda>e. if fst e = k then (k, v) else e) m
                   else m @ [(k, v)])"

definition mapDel :: "'k \<Rightarrow> ('k, 'v) jsmap \<Rightarrow> ('k, 'v) jsmap" where
  "mapDel k m = filter (\<lambda>e. fst e \<noteq> k) m"

lemma mapGet_Nil [simp]: "mapGet [] k = None"
  by (simp add: mapGet_def)

lemma map_of_map_repl:
  "map_of (map (\<lambda>e. if fst e = k then (k, v) else e) m) j =
     (if j = k \<and> k \<in> fst ` set m then Some v else map_of m j)"
proof (induction m)
  case (Cons e m)
  then show ?case by (cases e) (auto split: if_splits)
qed simp

lemma map_of_None_fst: "k \<notin> fst ` set m \<Longrightarrow> map_of m k = None"
  by (simp add: map_of_eq_None_iff)

lemma mapGet_mapSet [simp]: "mapGet (mapSet k v m) j = (if j = k then Some v else mapGet m j)"
proof (cases "k \<in> fst ` set m")
  case True
  then show ?thesis by (simp add: mapGet_def mapSet_def map_of_map_repl)
next
  case False
  then have "map_of m k = None" by (rule map_of_None_fst)
  with False show ?thesis
    by (simp add: mapGet_def mapSet_def map_add_def split: option.splits)
qed

lemma mapGet_mapDel [simp]: "mapGet (mapDel k m) j = (if j = k then None else mapGet m j)"
  by (induction m) (auto simp: mapGet_def mapDel_def)

lemma mapGet_Some_mem: "mapGet m k = Some v \<Longrightarrow> (k, v) \<in> set m"
  by (simp add: mapGet_def map_of_SomeD)

lemma map_fst_repl: "map fst (map (\<lambda>e. if fst e = k then (k, v) else e) m) = map fst m"
  by (induction m) auto

lemma distinct_mapSet [simp]: "distinct (map fst m) \<Longrightarrow> distinct (map fst (mapSet k v m))"
  unfolding mapSet_def by (simp only: map_fst_repl split: if_split) auto

lemma distinct_mapDel [simp]: "distinct (map fst m) \<Longrightarrow> distinct (map fst (mapDel k m))"
  by (induction m) (auto simp: mapDel_def)

text \<open>JavaScript \<open>Set.add\<close> and \<open>[...new Set(xs)]\<close>: first occurrences, in order.\<close>

definition setAdd :: "'a \<Rightarrow> 'a list \<Rightarrow> 'a list" where
  "setAdd x xs = (if x \<in> set xs then xs else xs @ [x])"

definition uniqueList :: "'a list \<Rightarrow> 'a list" where
  "uniqueList xs = rev (remdups (rev xs))"

lemma set_setAdd [simp]: "set (setAdd x xs) = insert x (set xs)"
  by (auto simp: setAdd_def)

lemma set_uniqueList [simp]: "set (uniqueList xs) = set xs"
  by (simp add: uniqueList_def)

lemma distinct_uniqueList [simp]: "distinct (uniqueList xs)"
  by (simp add: uniqueList_def)

lemma uniqueList_distinct: "distinct xs \<Longrightarrow> uniqueList xs = xs"
  by (simp add: uniqueList_def distinct_remdups_id)

text \<open>\<open>s.startsWith(p)\<close> and \<open>s.slice(n)\<close>.\<close>

abbreviation startsWith :: "string \<Rightarrow> string \<Rightarrow> bool" where
  "startsWith s p \<equiv> prefix p s"

text \<open>A truthy string field: \<open>undefined\<close> and \<open>''\<close> are falsy, so \<open>x || null\<close> drops both.\<close>

definition truthy :: "string option \<Rightarrow> string option" where
  "truthy x = (case x of Some (c # cs) \<Rightarrow> Some (c # cs) | _ \<Rightarrow> None)"

text \<open>SQL \<open>COALESCE(new, old)\<close>\<close>

definition coalesce :: "'a option \<Rightarrow> 'a option \<Rightarrow> 'a option" where
  "coalesce new old = (case new of Some v \<Rightarrow> Some v | None \<Rightarrow> old)"

lemma coalesce_simps [simp]: "coalesce (Some v) o' = Some v" "coalesce None o' = o'"
  by (simp_all add: coalesce_def)

end
