(* ===== verification/KernelTypes.thy ===== *)
theory KernelTypes
  imports Prelude
begin

text \<open>
  The data model of \<open>src/src/types.ts\<close>: runs, operations, their results and recovery
  evidence, snapshots, capabilities, artifacts, journal events, and the errors the kernel
  throws. Optional fields are \<open>option\<close>s (\<open>None\<close> is \<open>undefined\<close> or SQL \<open>NULL\<close>), numbers
  are \<open>int\<close>. A time stamp written by the kernel is the instant in milliseconds it denotes
  (\<open>toISOString\<close> and \<open>Date.parse\<close> are inverse on those, and ISO strings of one format
  order as their instants); a time stamp a caller may supply is an \<open>iso\<close>, which may be
  unparsable.
\<close>

section \<open>Time stamps\<close>

type_synonym millis = int

datatype iso = Iso millis | BadIso string

text \<open>\<open>new Date(s).getTime()\<close>; \<open>None\<close> is \<open>NaN\<close>, which every comparison refuses.\<close>

fun getTime :: "iso \<Rightarrow> millis option" where
  "getTime (Iso t) = Some t"
| "getTime (BadIso _) = None"

definition isoLe :: "iso \<Rightarrow> millis \<Rightarrow> bool" where
  "isoLe i now = (case getTime i of Some t \<Rightarrow> t \<le> now | None \<Rightarrow> False)"

section \<open>JSON values\<close>

text \<open>
  Values a payload can hold. \<open>JUndef\<close> is \<open>undefined\<close>, \<open>JNaN\<close> a non-finite number and
  \<open>JOther\<close> any other non-JSON value (a function, a symbol); only the first six constructors
  can be stored. Objects list their own properties in insertion order.
\<close>

datatype json =
    JNull
  | JBool bool
  | JNum int
  | JStr string
  | JArr "json list"
  | JObj "(string \<times> json) list"
  | JUndef
  | JNaN
  | JOther

fun jfield :: "json \<Rightarrow> string \<Rightarrow> json" where
  "jfield (JObj fs) k = (case map_of fs k of Some v \<Rightarrow> v | None \<Rightarrow> JUndef)"
| "jfield _ k = JUndef"

fun jstring :: "json \<Rightarrow> string option" where
  "jstring (JStr s) = Some s"
| "jstring _ = None"

definition optJ :: "('a \<Rightarrow> json) \<Rightarrow> 'a option \<Rightarrow> json" where
  "optJ f x = (case x of None \<Rightarrow> JUndef | Some y \<Rightarrow> f y)"

section \<open>Tasks and runs\<close>

record Task =
  task_id :: string
  task_domainId :: string
  task_name :: string
  task_createdAt :: millis
  task_meta :: "json option"

datatype KernelRunStatus =
    RQueued | RStarting | RRunning | RStopping | RSucceeded | RFailed | RCancelled | RIndeterminate

definition terminalRun :: "KernelRunStatus \<Rightarrow> bool" where
  "terminalRun st \<longleftrightarrow> st = RSucceeded \<or> st = RFailed \<or> st = RCancelled \<or> st = RIndeterminate"

datatype TerminationReason =
    TCompleted | TUserCancelled | TTimedOut | TResourcePreempted | TCrashDetected | TExitUnobserved
  | TMemoryExceeded | TCpuExceeded | TPidsExceeded | TOutputExceeded | TObservationFailed

datatype Enforcement = EnfObserve | EnfSoft | EnfHard

record ResourceBudget =
  maxMemoryBytes :: "int option"
  maxPids :: "int option"
  maxCpuTimeMs :: "int option"
  maxOutputBytes :: "int option"
  enforcement :: Enforcement

record DomainBudget =
  maxTotalMemoryBytes :: "int option"
  maxConcurrentOps :: "int option"
  maxTotalOutputBytes :: "int option"

datatype DriverFact = FBool bool | FStr string | FStrs "string list"

record RequestConfigSnapshot =
  rcs_schemaVersion :: string
  rcs_capabilityId :: "string option"
  rcs_capabilityPolicyVersion :: "string option"
  rcs_driverName :: string
  rcs_driverVersion :: string
  rcs_driverCapabilities :: "(string \<times> DriverFact) list"
  rcs_retentionVersion :: string
  rcs_redactionVersion :: string
  rcs_config :: json
  rcs_digest :: string
  rcs_createdAt :: iso

record Run =
  run_id :: string
  run_taskId :: string
  run_domainId :: string
  run_owner :: string
  run_status :: KernelRunStatus
  run_terminationReason :: "TerminationReason option"
  run_startedAt :: millis
  run_endedAt :: "millis option"
  run_configSnapshotWhiteList :: "(string \<times> json) list"
  run_configSnapshot :: "RequestConfigSnapshot option"

section \<open>Processes and recovery evidence\<close>

record ProcessIdentity =
  pid :: int
  pgid :: "int option"
  startTimeMonotonic :: "int option"
  spawnTime :: iso
  osStartTime :: "iso option"
  commandFingerprint :: "string option"
  bootId :: "string option"
  cgroupPath :: "string option"

datatype StartTimeSource = STProcfs | STPsLstart | STNone

datatype DescendantEnumeration = DEFull | DECgroup | DESubreaper | DENone

record RecoveryDriverCaps =
  rdc_processGroupKill :: bool
  rdc_accurateStartTime :: bool
  rdc_startTimeSource :: "StartTimeSource option"
  rdc_descendantEnumeration :: DescendantEnumeration
  rdc_gatedSpawn :: "bool option"

datatype EvidenceSource = ESpawn | ENaturalExit | EStop | ERecovery

datatype TreeStatus = TreeEmpty | TreeResidual | TreeUnknown

datatype StopScope = ScDirectChild | ScProcessGroup | ScContainmentCgroup | ScSubreaperTree | ScTrackedTree | ScUnknown

record TreeEvidence =
  te_status :: TreeStatus
  te_scope :: "StopScope option"
  te_residualPids :: "int list option"
  te_source :: EvidenceSource
  te_observedAt :: millis

datatype PipeState = PIgnored | POpen | PClosed | PDrained | PUnknown

record PipesEvidence =
  pe_stdin :: PipeState
  pe_stdout :: PipeState
  pe_stderr :: PipeState
  pe_source :: EvidenceSource
  pe_observedAt :: millis

datatype ContainmentKind = CKCgroup | CKProcessGroup | CKTrackedTree | CKNone | CKUnknown

datatype ContainmentStatus = CSHeld | CSEmpty | CSResidual | CSUnknown

record ContainmentEvidence =
  ce_kind :: ContainmentKind
  ce_path :: "string option"
  ce_status :: ContainmentStatus
  ce_source :: EvidenceSource
  ce_observedAt :: millis

record RecoveryEvidence =
  re_driverName :: string
  re_driverCapabilities :: RecoveryDriverCaps
  re_identity :: "ProcessIdentity option"
  re_tree :: "TreeEvidence option"
  re_pipes :: "PipesEvidence option"
  re_containment :: "ContainmentEvidence option"

section \<open>Snapshots and artifacts\<close>

datatype SnapshotCoverage = WorktreeNonIgnored | FullTree

record SnapshotRef =
  snap_id :: string
  snap_domainId :: string
  snap_opId :: string
  snap_driver :: string
  snap_roots :: "string list"
  snap_coverage :: SnapshotCoverage
  snap_treeFingerprint :: string
  snap_commitHash :: "string option"
  snap_journalSeq :: "int option"
  snap_createdAt :: millis
  snap_treeSizeBytes :: "int option"
  snap_ignoredManifestDigest :: "string option"

record IgnoredChanges =
  ic_added :: "string list"
  ic_removed :: "string list"
  ic_modified :: "string list"
  ic_metadataOnly :: "string list"
  ic_truncated :: bool

datatype ArtifactSensitivity = ArtPublic | ArtInternal | ArtSecret
datatype ArtifactEncryptionState = EncUnknown | EncPlaintext | EncEncrypted
datatype ArtifactDeletionState = DelPresent | DelDeleted | DelUnknown

record ArtifactRecord =
  art_id :: string
  art_domainId :: string
  art_ownerOperationId :: "string option"
  art_creatingInstructionId :: "string option"
  art_path :: string
  art_sha256 :: "string option"
  art_sizeBytes :: "int option"
  art_createdAt :: millis
  art_expiresAt :: "iso option"
  art_sensitivity :: ArtifactSensitivity
  art_encryptionState :: ArtifactEncryptionState
  art_deletionState :: ArtifactDeletionState
  art_dev :: string
  art_ino :: string
  art_birthtimeNs :: string
  art_deletedAt :: "millis option"
  art_deletionReason :: "string option"

section \<open>Operation results\<close>

datatype ProcStatus = PSucceeded | PFailed | PCancelled
datatype IdentityVerificationResult = IsOriginalProcess | NotOriginalProcess | CannotDetermine
datatype TreeSettlement = TSEmpty | TSReaped | TSUnverified
datatype EvidenceObserved = Observed | Unobserved

datatype AdjudicationVerdict = ConfirmedStopped | AbandonWithResiduals
datatype AdjudicationDecision = DSucceeded | DFailed | DRolledBack | DPartial

record AdjudicationRecord =
  adj_operationId :: string
  adj_verdict :: AdjudicationVerdict
  adj_decision :: "AdjudicationDecision option"
  adj_actor :: string
  adj_note :: "string option"
  adj_evidence :: "string option"
  adj_residualPids :: "int list option"
  adj_decidedAt :: millis

record BaseResult =
  res_durationMs :: int
  res_completedAt :: millis
  res_replayed :: bool
  res_runId :: "string option"
  res_capabilityId :: "string option"

record ProcessOperationResult = BaseResult +
  pr_status :: ProcStatus
  pr_exitCode :: "int option"
  pr_signal :: "string option"
  pr_stdout :: string
  pr_stderr :: string
  pr_confinementDriver :: "string option"
  pr_confined :: "bool option"
  pr_isTruncated :: bool
  pr_stdoutTruncated :: "bool option"
  pr_stderrTruncated :: "bool option"
  pr_stdoutRef :: "string option"
  pr_stderrRef :: "string option"
  pr_stdoutBytes :: "int option"
  pr_stderrBytes :: "int option"
  pr_stdoutHash :: "string option"
  pr_stderrHash :: "string option"
  pr_outputRef :: "string option"
  pr_outputHash :: "string option"
  pr_terminationReason :: "TerminationReason option"
  pr_spawnFailure :: "string option"
  pr_peakMemoryBytes :: "int option"
  pr_cpuTimeMs :: "int option"
  pr_resourceSamplingError :: "string option"
  pr_residualProcessesReaped :: "bool option"
  pr_treeSettlement :: "TreeSettlement option"
  pr_streamCallbackError :: "string option"
  pr_spillError :: "string option"
  pr_stdoutSpillError :: "string option"
  pr_stderrSpillError :: "string option"
  pr_residualPids :: "int list option"
  pr_unreapedPids :: "int list option"
  pr_identityVerification :: IdentityVerificationResult
  pr_evidence :: "EvidenceObserved option"
  pr_readEvidenceRef :: "string option"

record FilesystemOperationResult = BaseResult +
  fr_succeeded :: bool
  fr_targetPath :: string
  fr_outputRef :: "string option"
  fr_errorMessage :: "string option"

record GenericOperationResult = BaseResult +
  gr_status :: ProcStatus
  gr_outputRef :: "string option"
  gr_errorMessage :: "string option"

record IndeterminateResult = BaseResult +
  ir_terminationReason :: "TerminationReason option"
  ir_resourceSamplingError :: "string option"
  ir_reason :: string
  ir_recoveryGuidance :: string
  ir_adjudication :: "AdjudicationRecord option"

record SnapshotOperationResult = BaseResult +
  sr_succeeded :: bool
  sr_snapshot :: "SnapshotRef option"
  sr_errorMessage :: "string option"

datatype RollbackStatus = RbRestored | RbPartial | RbFailed
datatype RollbackCoverage = CovComplete | CovNonIgnored | CovDeclaredRoots | CovNone
datatype OutOfScopeEffects = EffNonePossible | EffPossible
datatype IgnoredFiles = IgRestored | IgUnchangedVerified | IgNotCaptured | IgUnverified

record RollbackOperationResult = BaseResult +
  rr_status :: RollbackStatus
  rr_snapshotId :: string
  rr_unrestoredPaths :: "string list option"
  rr_coverage :: RollbackCoverage
  rr_outOfScopeEffects :: OutOfScopeEffects
  rr_ignoredFiles :: IgnoredFiles
  rr_ignoredChanges :: "IgnoredChanges option"
  rr_coverageBasis :: "string list"
  rr_errorMessage :: "string option"

datatype OperationResult =
    ResProcess ProcessOperationResult
  | ResFilesystem FilesystemOperationResult
  | ResGeneric GenericOperationResult
  | ResIndeterminate IndeterminateResult
  | ResSnapshot SnapshotOperationResult
  | ResRollback RollbackOperationResult

text \<open>\<open>result.status === 'indeterminate'\<close>: only \<open>IndeterminateResult\<close> has that status.\<close>

fun isIndeterminate :: "OperationResult \<Rightarrow> bool" where
  "isIndeterminate (ResIndeterminate _) = True"
| "isIndeterminate _ = False"

fun resultBase :: "OperationResult \<Rightarrow> BaseResult" where
  "resultBase (ResProcess r) = BaseResult.truncate r"
| "resultBase (ResFilesystem r) = BaseResult.truncate r"
| "resultBase (ResGeneric r) = BaseResult.truncate r"
| "resultBase (ResIndeterminate r) = BaseResult.truncate r"
| "resultBase (ResSnapshot r) = BaseResult.truncate r"
| "resultBase (ResRollback r) = BaseResult.truncate r"

text \<open>Assignment of the two base fields a finalizer fills in, on whichever result it holds.\<close>

fun withRunAndCapability :: "string option \<Rightarrow> string option \<Rightarrow> OperationResult \<Rightarrow> OperationResult" where
  "withRunAndCapability r c (ResProcess x) = ResProcess (x\<lparr>res_runId := r, res_capabilityId := c\<rparr>)"
| "withRunAndCapability r c (ResFilesystem x) = ResFilesystem (x\<lparr>res_runId := r, res_capabilityId := c\<rparr>)"
| "withRunAndCapability r c (ResGeneric x) = ResGeneric (x\<lparr>res_runId := r, res_capabilityId := c\<rparr>)"
| "withRunAndCapability r c (ResIndeterminate x) = ResIndeterminate (x\<lparr>res_runId := r, res_capabilityId := c\<rparr>)"
| "withRunAndCapability r c (ResSnapshot x) = ResSnapshot (x\<lparr>res_runId := r, res_capabilityId := c\<rparr>)"
| "withRunAndCapability r c (ResRollback x) = ResRollback (x\<lparr>res_runId := r, res_capabilityId := c\<rparr>)"

lemma isIndeterminate_withRun [simp]:
  "isIndeterminate (withRunAndCapability r c x) = isIndeterminate x"
  by (cases x) simp_all

fun resultOutputRef :: "OperationResult \<Rightarrow> string option" where
  "resultOutputRef (ResProcess r) = pr_outputRef r"
| "resultOutputRef (ResFilesystem r) = fr_outputRef r"
| "resultOutputRef (ResGeneric r) = gr_outputRef r"
| "resultOutputRef _ = None"

fun resultTerminationReason :: "OperationResult \<Rightarrow> TerminationReason option" where
  "resultTerminationReason (ResProcess r) = pr_terminationReason r"
| "resultTerminationReason (ResIndeterminate r) = ir_terminationReason r"
| "resultTerminationReason _ = None"

section \<open>Operations, leases, owners, events\<close>

datatype OperationKind = KProcess | KFilesystem | KGate | KCustom | KService | KSnapshot | KRollback

datatype OperationStatus = OPending | OIntentRegistered | OActive | OStopping | ODone

record Operation =
  op_id :: string
  op_runId :: string
  op_domainId :: string
  op_kind :: OperationKind
  op_name :: string
  op_inputFingerprint :: string
  op_requiredResources :: "string list"
  op_mutationRoots :: "string list option"
  op_capabilityId :: "string option"
  op_timeoutMs :: "int option"
  op_resourceBudget :: "ResourceBudget option"
  op_spawnGated :: "bool option"
  op_recoveryEvidence :: "RecoveryEvidence option"
  op_configSnapshot :: "RequestConfigSnapshot option"
  op_outputRef :: "string option"
  op_status :: OperationStatus
  op_result :: "OperationResult option"
  op_processIdentity :: "ProcessIdentity option"

record ResourceLease =
  lease_resourceId :: string
  lease_operationId :: string
  lease_domainId :: string
  lease_acquiredAt :: millis
  lease_budget :: "ResourceBudget option"

record OwnerRecord =
  own_domainId :: string
  own_ownerId :: string
  own_epoch :: int
  own_heartbeatAt :: millis
  own_expiresAt :: millis
  own_hostname :: string

datatype EventSensitivity = SensPublic | SensInternal | SensSensitive | SensSecret

text \<open>A row of \<open>journal_events\<close>, and, without its sequence number, the event to be recorded.\<close>

record JournalEvent =
  ev_seq :: int
  ev_domainId :: string
  ev_runId :: "string option"
  ev_operationId :: "string option"
  ev_type :: string
  ev_payload :: json
  ev_timestamp :: millis
  ev_schemaVersion :: "string option"
  ev_requestId :: "string option"
  ev_programId :: "string option"
  ev_instructionId :: "string option"
  ev_opId :: "string option"
  ev_event :: "string option"
  ev_sensitivity :: "EventSensitivity option"
  ev_createdAt :: "millis option"

section \<open>Capabilities\<close>

record CapabilityScope =
  scope_write :: "string list"
  scope_exclusive :: "string list"
  scope_opcodes :: "string list"
  scope_workspaces :: "string list"
  scope_paths :: "string list"
  scope_secrets :: "string list"

record CapabilityScopeInput =
  in_write :: "string list option"
  in_exclusive :: "string list option"
  in_opcodes :: "string list option"
  in_workspaces :: "string list option"
  in_paths :: "string list option"
  in_secrets :: "string list option"

record CapabilityLimits =
  cpuMs :: int
  memoryBytes :: int
  outputBytes :: int
  concurrentOps :: int
  processes :: int

text \<open>\<open>Partial<CapabilityLimits>\<close>\<close>

record PartialLimits =
  pl_cpuMs :: "int option"
  pl_memoryBytes :: "int option"
  pl_outputBytes :: "int option"
  pl_concurrentOps :: "int option"
  pl_processes :: "int option"

record Capability =
  cap_id :: string
  cap_domainId :: string
  cap_scope :: CapabilityScope
  cap_issuedBy :: string
  cap_policyVersion :: string
  cap_reason :: string
  cap_limits :: CapabilityLimits
  cap_expiresAt :: iso
  cap_parentId :: "string option"
  cap_epoch :: int
  cap_createdAt :: millis
  cap_revokedAt :: "millis option"

datatype CapabilityViolation =
    CvExpired | CvRevoked | CvEpochMismatch | CvOutOfScopeResource | CvOutOfScopePath
  | CvOutOfScopeOpcode | CvOutOfScopeWorkspace | CvOutOfScopeSecret | CvBudgetExceeded
  | CvConcurrencyExceeded | CvPolicyMismatch | CvDomainMismatch | CvAttenuationWidened

section \<open>Errors\<close>

text \<open>
  One constructor per error class; a plain \<open>Error\<close> is a constructor naming the throw, with
  the values its message interpolates. \<open>LoopsForever\<close> is no error of the code: it is the
  value of a loop over stored rows that would never end (a cyclic chain of capabilities).
\<close>

datatype NotActiveReason = NaNotFound | NaAlreadyCompleted | NaDomainClosed

datatype KError =
    EpochFencedError string int int
  | DomainLockedError string int millis
  | ResourceConflictError string string string int
  | DuplicateOperationError string "OperationStatus option" string
  | DuplicateActiveError string string
  | OperationIdConflictError string string string string string
  | RecoveryRequiredError string OperationStatus string
  | OperationNotActiveError string NotActiveReason
  | CapabilityViolationError CapabilityViolation
  | UnsupportedCapabilityError string string string
  | TypeError string
  | RangeError string
  | SqlConstraintError string
  | RunNotRegistered string
  | RunFinalized string KernelRunStatus
  | RunNotFound string
  | RunTransitionRefused string KernelRunStatus KernelRunStatus
  | RunAgentsUnfinished string
  | RunOperationsUnfinished string "string list"
  | OperationNotFound string
  | OperationAlreadyFinalized string
  | OperationExists string
  | IntentNotRecorded string
  | ResultAlreadyRecorded string
  | ReplayIncompatible string
  | ConfigSnapshotInvalid string
  | NotAdjudicable string
  | ResidualScanFailed string string
  | ResidualsAlive string "int list"
  | IncompleteIsolationEvidence string
  | DomainClosedWhileWaiting string
  | ConfinementUnavailable string
  | DriverFailure string
  | LoopsForever

end
