(* ===== verification/Paths.thy ===== *)
theory Paths
  imports KernelTypes
begin

text \<open>
  Paths and their containment: \<open>src/src/capability/path-utils.ts\<close>, and the pattern
  normalisation of \<open>src/src/capability/check.ts\<close>. Paths are POSIX paths; an absolute
  normalised path is the list of its segments. The file system is a parameter \<open>fsys\<close>: the
  working directory, \<open>fs.realpathSync\<close> (\<open>None\<close> when it throws) and \<open>fs.existsSync\<close>.
  Containment is a preorder (\<open>containment\<close>), and, on a file system obeying \<open>fsLaws\<close>,
  resolution and normalisation are idempotent.
\<close>

section \<open>\<open>path.resolve\<close>\<close>

fun splitSlash :: "string \<Rightarrow> string list" where
  "splitSlash [] = [[]]"
| "splitSlash (c # s) = (if c = CHR ''/'' then [] # splitSlash s
     else (case splitSlash s of [] \<Rightarrow> [[c]] | w # ws \<Rightarrow> (c # w) # ws))"

fun normSegs :: "string list \<Rightarrow> string list \<Rightarrow> string list" where
  "normSegs acc [] = rev acc"
| "normSegs acc (s # ss) =
     (if s = [] \<or> s = ''.'' then normSegs acc ss
      else if s = ''..'' then normSegs (tl acc) ss
      else normSegs (s # acc) ss)"

record fsys =
  fs_cwd :: string
  fs_realpath :: "string list \<Rightarrow> string list option"
  fs_exists :: "string list \<Rightarrow> bool"

definition resolvePath :: "string \<Rightarrow> string \<Rightarrow> string list" where
  "resolvePath cwd p = normSegs [] (splitSlash (if prefix ''/'' p then p else cwd @ ''/'' @ p))"

definition joinPath :: "string list \<Rightarrow> string" where
  "joinPath segs = (if segs = [] then ''/'' else concat (map (\<lambda>s. CHR ''/'' # s) segs))"

section \<open>Real paths and containment\<close>

text \<open>The loop to the nearest existing ancestor, with the segments left over.\<close>

function walkUp :: "fsys \<Rightarrow> string list \<Rightarrow> string list \<Rightarrow> string list \<times> string list" where
  "walkUp fs cur parts = (if fs_exists fs cur \<or> cur = [] then (cur, parts)
     else walkUp fs (butlast cur) (last cur # parts))"
  by pat_completeness auto
termination by (relation "measure (\<lambda>(_, cur, _). length cur)") auto

declare walkUp.simps [simp del]

definition realSegs :: "fsys \<Rightarrow> string list \<Rightarrow> string list" where
  "realSegs fs resolved = (case fs_realpath fs resolved of
     Some q \<Rightarrow> q
   | None \<Rightarrow> (case walkUp fs resolved [] of (cur, parts) \<Rightarrow>
       (case fs_realpath fs cur of Some q \<Rightarrow> q | None \<Rightarrow> cur) @ parts))"

definition resolveRealPath :: "fsys \<Rightarrow> string \<Rightarrow> string" where
  "resolveRealPath fs p = joinPath (realSegs fs (resolvePath (fs_cwd fs) p))"

definition isPathContained :: "fsys \<Rightarrow> string \<Rightarrow> string \<Rightarrow> bool" where
  "isPathContained fs parentPath childPath =
     (let realParent = resolveRealPath fs parentPath; realChild = resolveRealPath fs childPath
      in realParent = realChild \<or> realParent = ''/''
         \<or> prefix (if suffix ''/'' realParent then realParent else realParent @ ''/'') realChild)"

definition isWild :: "char \<Rightarrow> bool" where
  "isWild c \<longleftrightarrow> c \<in> set ''*?[''"

definition normalizePathPattern :: "fsys \<Rightarrow> string \<Rightarrow> string" where
  "normalizePathPattern fs v =
     (let pre = takeWhile (\<lambda>c. \<not> isWild c) v; suf = dropWhile (\<lambda>c. \<not> isWild c) v
      in if suf = [] then resolveRealPath fs v
         else resolveRealPath fs (if pre = [] then ''.'' else pre) @ suf)"

section \<open>Containment is a preorder\<close>

text \<open>What the scope checks rely on: whatever lies in a path lies in the paths that contain it.\<close>

locale containment =
  fixes contains :: "'p \<Rightarrow> 'p \<Rightarrow> bool"
  assumes contains_refl: "contains p p"
    and contains_trans: "contains p q \<Longrightarrow> contains q r \<Longrightarrow> contains p r"
begin

lemma covered_by_parent:
  "\<forall>c \<in> set cs. \<exists>p \<in> set ps. contains p c \<Longrightarrow> \<exists>c \<in> set cs. contains c r \<Longrightarrow> \<exists>p \<in> set ps. contains p r"
  using contains_trans by blast

lemma covers_itself: "c \<in> set cs \<Longrightarrow> \<exists>p \<in> set cs. contains p c"
  using contains_refl by blast

end

lemma resolveRealPath_abs: "\<exists>s. resolveRealPath fs p = CHR ''/'' # s"
  unfolding resolveRealPath_def joinPath_def
  by (cases "realSegs fs (resolvePath (fs_cwd fs) p)") auto

lemma isPathContained_trans:
  assumes "isPathContained fs p q" and "isPathContained fs q r"
  shows "isPathContained fs p r"
proof -
  let ?P = "resolveRealPath fs p" and ?Q = "resolveRealPath fs q" and ?R = "resolveRealPath fs r"
  let ?sep = "\<lambda>x. if suffix ''/'' x then x else x @ ''/''"
  obtain pt qt where abs: "?P = CHR ''/'' # pt" "?Q = CHR ''/'' # qt"
    using resolveRealPath_abs by metis
  consider "?P = ?Q" | "?P = ''/''" | "prefix (?sep ?P) ?Q" "?P \<noteq> ''/''"
    using assms(1) unfolding isPathContained_def Let_def by blast
  then show ?thesis
  proof cases
    case 3
    have "?Q \<noteq> ''/''"
      using 3 abs by (cases pt) (auto split: if_splits)
    then consider "?Q = ?R" | "prefix (?sep ?Q) ?R"
      using assms(2) unfolding isPathContained_def Let_def by blast
    then have "prefix ?Q ?R"
      by cases (auto split: if_splits dest: append_prefixD)
    with 3(1) have "prefix (?sep ?P) ?R" using prefix_order.trans by blast
    then show ?thesis unfolding isPathContained_def Let_def by blast
  qed (use assms(2) in \<open>simp_all add: isPathContained_def Let_def\<close>)
qed

interpretation paths: containment "isPathContained fs" for fs
  by unfold_locales (simp add: isPathContained_def, rule isPathContained_trans)


section \<open>Idempotence on a lawful file system\<close>

text \<open>A segment of a normalised path, and a path without pattern characters.\<close>

definition goodSeg :: "string \<Rightarrow> bool" where
  "goodSeg s \<longleftrightarrow> s \<noteq> [] \<and> s \<noteq> ''.'' \<and> s \<noteq> ''..'' \<and> CHR ''/'' \<notin> set s"

definition plainSeg :: "string \<Rightarrow> bool" where
  "plainSeg s \<longleftrightarrow> list_all (\<lambda>c. \<not> isWild c) s"

text \<open>
  What POSIX promises of a file system that does not change between the calls: \<open>realpath\<close>
  returns a normalised path that is its own real path, resolves a path through the real path of
  any prefix, and succeeds exactly on the existing paths. The last law leaves out directories
  whose names contain pattern characters.
\<close>

definition fsLaws :: "fsys \<Rightarrow> bool" where
  "fsLaws fs \<longleftrightarrow>
     (\<forall>p q. fs_realpath fs p = Some q \<longrightarrow> fs_realpath fs q = Some q \<and> list_all goodSeg q \<and> list_all plainSeg q)
     \<and> (\<forall>p q rest. fs_realpath fs p = Some q \<longrightarrow> fs_realpath fs (p @ rest) = fs_realpath fs (q @ rest))
     \<and> (\<forall>p. fs_exists fs p \<longleftrightarrow> fs_realpath fs p \<noteq> None)
     \<and> plainSeg (fs_cwd fs)"

lemma fsLaws_out:
  assumes "fsLaws fs"
  shows "fs_realpath fs p = Some q \<Longrightarrow> list_all goodSeg q" and "fs_realpath fs p = Some q \<Longrightarrow> list_all plainSeg q"
    and "plainSeg (fs_cwd fs)"
    and "fs_realpath fs p = Some q \<Longrightarrow> fs_realpath fs q = Some q"
    and "fs_realpath fs p = Some q \<Longrightarrow> fs_realpath fs (p @ rest) = fs_realpath fs (q @ rest)"
    and "fs_exists fs p \<longleftrightarrow> fs_realpath fs p \<noteq> None"
  using assms unfolding fsLaws_def by blast+

lemma not_wild [simp]: "\<not> isWild CHR ''/''" "\<not> isWild CHR ''.''"
  by (simp_all add: isWild_def)

lemma splitSlash_good: "list_all (\<lambda>s. CHR ''/'' \<notin> set s) (splitSlash p)"
  by (induction p rule: splitSlash.induct) (auto split: list.splits)

lemma splitSlash_plain: "plainSeg p \<Longrightarrow> list_all plainSeg (splitSlash p)"
  by (induction p rule: splitSlash.induct) (auto simp: plainSeg_def split: list.splits)

lemma normSegs_good:
  "list_all (\<lambda>s. CHR ''/'' \<notin> set s) ss \<Longrightarrow> list_all goodSeg acc \<Longrightarrow> list_all goodSeg (normSegs acc ss)"
proof (induction acc ss rule: normSegs.induct)
  case (2 acc s ss)
  have "list_all goodSeg (tl acc)" using 2(5) by (cases acc) auto
  moreover have "CHR ''/'' \<notin> set s \<Longrightarrow> s \<noteq> [] \<Longrightarrow> s \<noteq> ''.'' \<Longrightarrow> s \<noteq> ''..'' \<Longrightarrow> goodSeg s"
    by (simp add: goodSeg_def)
  ultimately show ?case using 2 by auto
qed (simp add: list_all_iff)

lemma normSegs_plain: "list_all plainSeg ss \<Longrightarrow> list_all plainSeg acc \<Longrightarrow> list_all plainSeg (normSegs acc ss)"
proof (induction acc ss rule: normSegs.induct)
  case (2 acc s ss)
  have "list_all plainSeg (tl acc)" using 2(5) by (cases acc) auto
  with 2 show ?case by auto
qed (simp add: list_all_iff)

lemma resolvePath_good: "list_all goodSeg (resolvePath cwd p)"
  unfolding resolvePath_def by (rule normSegs_good) (simp_all add: splitSlash_good)

lemma resolvePath_plain: "plainSeg cwd \<Longrightarrow> plainSeg p \<Longrightarrow> list_all plainSeg (resolvePath cwd p)"
  unfolding resolvePath_def
  by (rule normSegs_plain) (auto intro!: splitSlash_plain simp: plainSeg_def)

text \<open>\<open>path.resolve\<close> of a joined normalised path gives its segments back.\<close>

lemma splitSlash_append: "CHR ''/'' \<notin> set s \<Longrightarrow> splitSlash (s @ CHR ''/'' # r) = s # splitSlash r"
  by (induction s) auto

lemma splitSlash_seg: "CHR ''/'' \<notin> set s \<Longrightarrow> splitSlash s = [s]"
  by (induction s) auto

lemma splitSlash_join: "list_all goodSeg segs \<Longrightarrow> segs \<noteq> [] \<Longrightarrow> splitSlash (tl (joinPath segs)) = segs"
proof (induction segs)
  case (Cons s segs)
  show ?case
  proof (cases segs)
    case Nil
    with Cons show ?thesis by (simp add: joinPath_def goodSeg_def splitSlash_seg)
  next
    case (Cons s' ss)
    then have "tl (joinPath (s # segs)) = s @ CHR ''/'' # tl (joinPath segs)"
      by (simp add: joinPath_def)
    with Cons.IH Cons.prems Cons show ?thesis by (simp add: goodSeg_def splitSlash_append)
  qed
qed simp

lemma normSegs_id: "list_all goodSeg ss \<Longrightarrow> normSegs acc ss = rev acc @ ss"
  by (induction acc ss rule: normSegs.induct) (auto simp: goodSeg_def)

lemma resolve_join: "list_all goodSeg segs \<Longrightarrow> resolvePath cwd (joinPath segs) = segs"
proof (cases segs)
  case (Cons s ss)
  assume g: "list_all goodSeg segs"
  have "joinPath segs = CHR ''/'' # tl (joinPath segs)" by (simp add: joinPath_def Cons)
  then have "splitSlash (joinPath segs) = [] # splitSlash (tl (joinPath segs))"
    by (metis splitSlash.simps(2))
  with splitSlash_join [OF g] Cons have "splitSlash (joinPath segs) = [] # segs" by simp
  moreover have "prefix ''/'' (joinPath segs)" by (simp add: joinPath_def Cons)
  ultimately show ?thesis by (simp add: resolvePath_def normSegs_id [OF g])
qed (simp add: resolvePath_def joinPath_def)

lemma walkUp_result:
  "walkUp fs cur parts = (c, ps) \<Longrightarrow> \<exists>rest. cur = c @ rest \<and> ps = rest @ parts
     \<and> (fs_exists fs c \<or> c = []) \<and> (\<forall>k. 0 < k \<and> k \<le> length rest \<longrightarrow> \<not> fs_exists fs (c @ take k rest))"
proof (induction fs cur parts arbitrary: c ps rule: walkUp.induct)
  case (1 fs cur parts)
  show ?case
  proof (cases "fs_exists fs cur \<or> cur = []")
    case True
    with "1.prems" show ?thesis by (simp add: walkUp.simps [of fs cur])
  next
    case False
    with "1.prems" have "walkUp fs (butlast cur) (last cur # parts) = (c, ps)"
      by (simp add: walkUp.simps [of fs cur])
    from "1.IH" [OF False this] obtain rest where rest: "butlast cur = c @ rest" "ps = rest @ last cur # parts"
      "fs_exists fs c \<or> c = []" "\<forall>k. 0 < k \<and> k \<le> length rest \<longrightarrow> \<not> fs_exists fs (c @ take k rest)" by blast
    have cur: "cur = c @ rest @ [last cur]" using False rest(1) by (metis append.assoc append_butlast_last_id)
    have "\<not> fs_exists fs (c @ take k (rest @ [last cur]))" if "0 < k" "k \<le> length (rest @ [last cur])" for k
    proof (cases "k \<le> length rest")
      case True
      then show ?thesis using rest(4) that by simp
    next
      case False
      then have "take k (rest @ [last cur]) = rest @ [last cur]" using that by simp
      then show ?thesis using \<open>\<not> (fs_exists fs cur \<or> cur = [])\<close> cur by metis
    qed
    with cur rest show ?thesis by (intro exI [of _ "rest @ [last cur]"]) simp
  qed
qed

lemma walkUp_stops:
  "fs_exists fs c \<or> c = [] \<Longrightarrow> (\<And>k. 0 < k \<Longrightarrow> k \<le> length rest \<Longrightarrow> \<not> fs_exists fs (c @ take k rest)) \<Longrightarrow>
   walkUp fs (c @ rest) parts = (c, rest @ parts)"
proof (induction rest arbitrary: parts rule: rev_induct)
  case (snoc x rest)
  have "\<not> fs_exists fs (c @ rest @ [x])" using snoc.prems(2) [of "length (rest @ [x])"] by simp
  then have "walkUp fs (c @ rest @ [x]) parts = walkUp fs (c @ rest) (x # parts)"
    by (subst walkUp.simps) (simp add: butlast_append)
  also have "\<dots> = (c, rest @ x # parts)"
  proof (rule snoc.IH [OF snoc.prems(1)])
    fix k assume "0 < k" "k \<le> length rest"
    then show "\<not> fs_exists fs (c @ take k rest)" using snoc.prems(2) [of k] by simp
  qed
  finally show ?case by simp
qed (simp add: walkUp.simps)

text \<open>The three shapes of a real path: the path exists, its nearest ancestor does, or none does.\<close>

lemma realSegs_cases [consumes 1, case_names whole part none]:
  assumes "fsLaws fs"
  obtains (whole) q where "fs_realpath fs p = Some q" "realSegs fs p = q"
  | (part) c q rest where "p = c @ rest" "fs_realpath fs c = Some q" "realSegs fs p = q @ rest"
      "\<And>k. 0 < k \<Longrightarrow> k \<le> length rest \<Longrightarrow> fs_realpath fs (c @ take k rest) = None" "fs_realpath fs p = None"
  | (none) "fs_realpath fs p = None" "realSegs fs p = p" "walkUp fs p [] = ([], p)" "fs_realpath fs [] = None"
proof (cases "fs_realpath fs p")
  case (Some q)
  then show ?thesis using whole by (simp add: realSegs_def)
next
  case None
  have ex: "fs_exists fs x \<longleftrightarrow> fs_realpath fs x \<noteq> None" for x
    by (rule fsLaws_out(6) [OF assms])
  obtain c ps where w: "walkUp fs p [] = (c, ps)" by fastforce
  from walkUp_result [OF this] obtain rest where r: "p = c @ rest" "ps = rest" "fs_exists fs c \<or> c = []"
    "\<forall>k. 0 < k \<and> k \<le> length rest \<longrightarrow> \<not> fs_exists fs (c @ take k rest)" by auto
  show ?thesis
  proof (cases "fs_realpath fs c")
    case None': None
    with r(3) ex have "c = []" by auto
    with None None' w r none show ?thesis by (simp add: realSegs_def)
  next
    case (Some q)
    with None w r ex part show ?thesis by (simp add: realSegs_def)
  qed
qed

lemma realSegs_idem:
  assumes laws: "fsLaws fs"
  shows "realSegs fs (realSegs fs p) = realSegs fs p"
  using laws
proof (cases rule: realSegs_cases [of fs p])
  case (whole q)
  then show ?thesis using fsLaws_out(4) [OF laws] by (simp add: realSegs_def)
next
  case (part c q rest)
  have comp: "fs_realpath fs (c @ x) = fs_realpath fs (q @ x)" for x
    by (rule fsLaws_out(5) [OF laws part(2)])
  have ex: "fs_exists fs x \<longleftrightarrow> fs_realpath fs x \<noteq> None" for x
    by (rule fsLaws_out(6) [OF laws])
  have qq: "fs_realpath fs q = Some q" by (rule fsLaws_out(4) [OF laws part(2)])
  have "walkUp fs (q @ rest) [] = (q, rest @ [])"
    by (rule walkUp_stops) (use qq part(4) in \<open>simp_all add: ex flip: comp\<close>)
  moreover have "fs_realpath fs (q @ rest) = None" using part by (simp flip: comp)
  ultimately show ?thesis using qq part(3) by (simp add: realSegs_def)
qed simp

lemma realSegs_all:
  assumes "fsLaws fs" and "list_all P p" and "\<And>x q. fs_realpath fs x = Some q \<Longrightarrow> list_all P q"
  shows "list_all P (realSegs fs p)"
  by (cases rule: realSegs_cases [OF assms(1), of p]) (use assms(2,3) in auto)

lemma resolveRealPath_idem:
  assumes laws: "fsLaws fs"
  shows "resolveRealPath fs (resolveRealPath fs p) = resolveRealPath fs p"
proof -
  have "list_all goodSeg (realSegs fs (resolvePath (fs_cwd fs) p))"
    by (rule realSegs_all [OF laws resolvePath_good fsLaws_out(1) [OF laws]])
  then show ?thesis
    unfolding resolveRealPath_def by (simp add: resolve_join realSegs_idem [OF laws])
qed

lemma joinPath_plain: "list_all plainSeg segs \<Longrightarrow> plainSeg (joinPath segs)"
  by (auto simp: joinPath_def plainSeg_def list_all_iff)

lemma resolveRealPath_plain:
  assumes laws: "fsLaws fs" and "plainSeg p"
  shows "plainSeg (resolveRealPath fs p)"
  unfolding resolveRealPath_def
  by (intro joinPath_plain realSegs_all [OF laws] resolvePath_plain fsLaws_out(2,3) [OF laws] assms(2))

lemma wild_split: "plainSeg p \<Longrightarrow> takeWhile (\<lambda>c. \<not> isWild c) p = p \<and> dropWhile (\<lambda>c. \<not> isWild c) p = []"
  by (auto simp: plainSeg_def list_all_iff)

lemma plain_then_wild:
  assumes "plainSeg p" and "w \<noteq> []" and "isWild (hd w)"
  shows "takeWhile (\<lambda>c. \<not> isWild c) (p @ w) = p" and "dropWhile (\<lambda>c. \<not> isWild c) (p @ w) = w"
  using assms by (induction p) (auto simp: plainSeg_def neq_Nil_conv)

lemma normalize_pattern:
  assumes "plainSeg p" and "p \<noteq> []" and "w \<noteq> []" and "isWild (hd w)"
  shows "normalizePathPattern fs (p @ w) = resolveRealPath fs p @ w"
  using assms(2,3) unfolding normalizePathPattern_def Let_def
  by (simp only: plain_then_wild [OF assms(1,3,4)] if_False)

text \<open>Normalising a pattern twice is normalising it once.\<close>

lemma normalizePathPattern_idem:
  assumes laws: "fsLaws fs"
  shows "normalizePathPattern fs (normalizePathPattern fs v) = normalizePathPattern fs v"
proof -
  let ?pre = "takeWhile (\<lambda>c. \<not> isWild c) v" and ?suf = "dropWhile (\<lambda>c. \<not> isWild c) v"
  have pre: "plainSeg ?pre" by (auto simp: plainSeg_def list_all_iff dest: set_takeWhileD)
  show ?thesis
  proof (cases "?suf = []")
    case True
    then have "?pre = v" by (metis append_Nil2 takeWhile_dropWhile_id)
    with pre have "plainSeg (resolveRealPath fs v)" using resolveRealPath_plain [OF laws] by metis
    then have "normalizePathPattern fs (resolveRealPath fs v) = resolveRealPath fs v"
      by (simp add: normalizePathPattern_def wild_split resolveRealPath_idem [OF laws])
    with True show ?thesis by (simp add: normalizePathPattern_def)
  next
    case False
    define r where "r = resolveRealPath fs (if ?pre = [] then ''.'' else ?pre)"
    have "plainSeg r" unfolding r_def by (rule resolveRealPath_plain [OF laws]) (use pre in \<open>simp add: plainSeg_def\<close>)
    moreover have "r \<noteq> []" using resolveRealPath_abs [of fs] unfolding r_def by (metis list.distinct(1))
    moreover have "isWild (hd ?suf)" using False by (metis hd_dropWhile)
    ultimately have "normalizePathPattern fs (r @ ?suf) = resolveRealPath fs r @ ?suf"
      using False by (intro normalize_pattern)
    moreover have "resolveRealPath fs r = r" unfolding r_def by (rule resolveRealPath_idem [OF laws])
    moreover have "normalizePathPattern fs v = r @ ?suf"
      using False unfolding normalizePathPattern_def Let_def r_def by (simp only: if_False)
    ultimately show ?thesis by simp
  qed
qed

end
