(* ===== verification/Store.thy ===== *)
theory Store
  imports Envelope
begin

text \<open>
  The transactional store of an execution domain, \<open>SqliteStore\<close> in
  \<open>src/src/store/sqlite.ts\<close>, over the tables of \<open>src/src/store/schema.ts\<close>, and the recovery
  evidence records of \<open>src/src/recovery/evidence.ts\<close>. The state \<open>store\<close> is the database
  (one list of rows per table, in rowid order) and the epoch the connection writes under.
  Every method is a computation on that state; \<open>atomically\<close> is \<open>transaction\<close> (a nested
  transaction joins the outer one, which its own rollback on a throw agrees with). \<open>now\<close> is
  the clock reading of the call, \<open>H\<close> the SHA-256 of a JSON value. The crash points of
  \<open>src/src/fault/crashpoint.ts\<close> are inert outside fault-injection runs and left out.
\<close>

section \<open>State\<close>

record store =
  db_owners :: "OwnerRecord list"
  db_tasks :: "Task list"
  db_runs :: "Run list"
  db_operations :: "Operation list"
  db_leases :: "ResourceLease list"
  db_journal :: "JournalEvent list"
  db_seq :: int
  db_snapshots :: "SnapshotRef list"
  db_capabilities :: "Capability list"
  db_artifacts :: "ArtifactRecord list"
  st_currentEpoch :: "int option"

definition emptyStore :: store where
  "emptyStore = \<lparr>db_owners = [], db_tasks = [], db_runs = [], db_operations = [], db_leases = [],
     db_journal = [], db_seq = 0, db_snapshots = [], db_capabilities = [], db_artifacts = [],
     st_currentEpoch = None\<rparr>"

type_synonym 'a storeM = "(store, KError, 'a) act"

definition liftSum :: "KError + 'a \<Rightarrow> ('s, KError, 'a) act" where
  "liftSum r = (\<lambda>s. (r, s))"

lemma liftSum_run [simp]: "liftSum r s = (r, s)"
  by (simp add: liftSum_def)

lemma pres_liftSum [pres]: "preserves I (liftSum r)"
  by (simp add: preserves_def)

section \<open>Strings of the persisted enumerations\<close>

fun runStatusStr :: "KernelRunStatus \<Rightarrow> string" where
  "runStatusStr RQueued = ''queued''"
| "runStatusStr RStarting = ''starting''"
| "runStatusStr RRunning = ''running''"
| "runStatusStr RStopping = ''stopping''"
| "runStatusStr RSucceeded = ''succeeded''"
| "runStatusStr RFailed = ''failed''"
| "runStatusStr RCancelled = ''cancelled''"
| "runStatusStr RIndeterminate = ''indeterminate''"

fun opStatusStr :: "OperationStatus \<Rightarrow> string" where
  "opStatusStr OPending = ''pending''"
| "opStatusStr OIntentRegistered = ''intent_registered''"
| "opStatusStr OActive = ''active''"
| "opStatusStr OStopping = ''stopping''"
| "opStatusStr ODone = ''done''"

fun kindStr :: "OperationKind \<Rightarrow> string" where
  "kindStr KProcess = ''process''"
| "kindStr KFilesystem = ''filesystem''"
| "kindStr KGate = ''gate''"
| "kindStr KCustom = ''custom''"
| "kindStr KService = ''service''"
| "kindStr KSnapshot = ''snapshot''"
| "kindStr KRollback = ''rollback''"

fun reasonStr :: "TerminationReason \<Rightarrow> string" where
  "reasonStr TCompleted = ''completed''"
| "reasonStr TUserCancelled = ''user_cancelled''"
| "reasonStr TTimedOut = ''timed_out''"
| "reasonStr TResourcePreempted = ''resource_preempted''"
| "reasonStr TCrashDetected = ''crash_detected''"
| "reasonStr TExitUnobserved = ''exit_unobserved''"
| "reasonStr TMemoryExceeded = ''memory_exceeded''"
| "reasonStr TCpuExceeded = ''cpu_exceeded''"
| "reasonStr TPidsExceeded = ''pids_exceeded''"
| "reasonStr TOutputExceeded = ''output_exceeded''"
| "reasonStr TObservationFailed = ''observation_failed''"

fun procStatusStr :: "ProcStatus \<Rightarrow> string" where
  "procStatusStr PSucceeded = ''succeeded''"
| "procStatusStr PFailed = ''failed''"
| "procStatusStr PCancelled = ''cancelled''"

fun rollbackStatusStr :: "RollbackStatus \<Rightarrow> string" where
  "rollbackStatusStr RbRestored = ''restored''"
| "rollbackStatusStr RbPartial = ''partial''"
| "rollbackStatusStr RbFailed = ''failed''"

fun resultStatusStr :: "OperationResult \<Rightarrow> string" where
  "resultStatusStr (ResProcess r) = procStatusStr (pr_status r)"
| "resultStatusStr (ResFilesystem r) = (if fr_succeeded r then ''succeeded'' else ''failed'')"
| "resultStatusStr (ResGeneric r) = procStatusStr (gr_status r)"
| "resultStatusStr (ResIndeterminate r) = ''indeterminate''"
| "resultStatusStr (ResSnapshot r) = (if sr_succeeded r then ''succeeded'' else ''failed'')"
| "resultStatusStr (ResRollback r) = rollbackStatusStr (rr_status r)"

text \<open>
  The result as a journal payload, by the fields the kernel reads back from the journal
  (\<open>kind\<close>, \<open>status\<close>, \<open>confined\<close>, \<open>outputRef\<close>); captured output never reaches the journal,
  since \<open>stdout\<close> and \<open>stderr\<close> are redacted keys.
\<close>

fun resultKindStr :: "OperationResult \<Rightarrow> string" where
  "resultKindStr (ResProcess _) = ''process''"
| "resultKindStr (ResFilesystem _) = ''filesystem''"
| "resultKindStr (ResGeneric _) = ''generic''"
| "resultKindStr (ResIndeterminate _) = ''indeterminate''"
| "resultKindStr (ResSnapshot _) = ''snapshot''"
| "resultKindStr (ResRollback _) = ''rollback''"

fun resultConfined :: "OperationResult \<Rightarrow> bool option" where
  "resultConfined (ResProcess r) = pr_confined r"
| "resultConfined _ = None"

definition resultJson :: "OperationResult \<Rightarrow> json" where
  "resultJson r = JObj
     [(''kind'', JStr (resultKindStr r)),
      (''status'', JStr (resultStatusStr r)),
      (''confined'', optJ JBool (resultConfined r)),
      (''outputRef'', optJ JStr (resultOutputRef r)),
      (''terminationReason'', optJ (\<lambda>t. JStr (reasonStr t)) (resultTerminationReason r)),
      (''runId'', optJ JStr (res_runId (resultBase r))),
      (''capabilityId'', optJ JStr (res_capabilityId (resultBase r))),
      (''durationMs'', JNum (res_durationMs (resultBase r))),
      (''completedAt'', JNum (res_completedAt (resultBase r)))]"

definition strsJ :: "string list \<Rightarrow> json" where
  "strsJ xs = JArr (map JStr xs)"

fun enforcementStr :: "Enforcement \<Rightarrow> string" where
  "enforcementStr EnfObserve = ''observe''"
| "enforcementStr EnfSoft = ''soft''"
| "enforcementStr EnfHard = ''hard''"

definition budgetJson :: "ResourceBudget \<Rightarrow> json" where
  "budgetJson b = JObj
     [(''maxMemoryBytes'', optJ JNum (maxMemoryBytes b)), (''maxPids'', optJ JNum (maxPids b)),
      (''maxCpuTimeMs'', optJ JNum (maxCpuTimeMs b)), (''maxOutputBytes'', optJ JNum (maxOutputBytes b)),
      (''enforcement'', JStr (enforcementStr (enforcement b)))]"

definition identityJson :: "ProcessIdentity \<Rightarrow> json" where
  "identityJson i = JObj
     [(''pid'', JNum (pid i)), (''pgid'', optJ JNum (pgid i)),
      (''startTimeMonotonic'', optJ JNum (startTimeMonotonic i)), (''spawnTime'', isoJson (spawnTime i)),
      (''osStartTime'', optJ isoJson (osStartTime i)),
      (''commandFingerprint'', optJ JStr (commandFingerprint i)),
      (''bootId'', optJ JStr (bootId i)), (''cgroupPath'', optJ JStr (cgroupPath i))]"

section \<open>Recovery evidence\<close>

fun containmentKind :: "DescendantEnumeration \<Rightarrow> ContainmentKind" where
  "containmentKind DECgroup = CKCgroup"
| "containmentKind DESubreaper = CKTrackedTree"
| "containmentKind DEFull = CKProcessGroup"
| "containmentKind DENone = CKUnknown"

definition createRecoveryEvidence :: "millis \<Rightarrow> string \<Rightarrow> RecoveryDriverCaps \<Rightarrow> RecoveryEvidence" where
  "createRecoveryEvidence now driverName caps =
     \<lparr>re_driverName = driverName, re_driverCapabilities = caps, re_identity = None,
      re_tree = Some \<lparr>te_status = TreeUnknown, te_scope = None, te_residualPids = None,
                      te_source = ESpawn, te_observedAt = now\<rparr>,
      re_pipes = Some \<lparr>pe_stdin = PUnknown, pe_stdout = PUnknown, pe_stderr = PUnknown,
                       pe_source = ESpawn, pe_observedAt = now\<rparr>,
      re_containment = Some \<lparr>ce_kind = containmentKind (rdc_descendantEnumeration caps), ce_path = None,
                             ce_status = CSUnknown, ce_source = ESpawn, ce_observedAt = now\<rparr>\<rparr>"

definition withRecoveryIdentity ::
    "millis \<Rightarrow> RecoveryEvidence option \<Rightarrow> ProcessIdentity \<Rightarrow> RecoveryEvidence option" where
  "withRecoveryIdentity now evidence identity = (case evidence of None \<Rightarrow> None
     | Some e \<Rightarrow> Some (e\<lparr>re_identity := Some identity,
         re_containment := (case truthy (cgroupPath identity) of
             Some p \<Rightarrow> Some \<lparr>ce_kind = CKCgroup, ce_path = Some p, ce_status = CSHeld,
                             ce_source = ESpawn, ce_observedAt = now\<rparr>
           | None \<Rightarrow> re_containment e),
         re_pipes := (case re_pipes e of
             Some p \<Rightarrow> Some (p\<lparr>pe_stdin := POpen, pe_stdout := POpen, pe_stderr := POpen, pe_observedAt := now\<rparr>)
           | None \<Rightarrow> None)\<rparr>))"

section \<open>Ownership and epoch fencing\<close>

definition fence :: "unit storeM" where
  "fence = modify (\<lambda>s. s\<lparr>st_currentEpoch := Some (-1)\<rparr>)"

definition getOwner :: "string \<Rightarrow> store \<Rightarrow> OwnerRecord option" where
  "getOwner domainId s = rowOf own_domainId domainId (db_owners s)"

definition verifyEpochFencing :: "string \<Rightarrow> unit storeM" where
  "verifyEpochFencing domainId = (\<lambda>s.
     (case st_currentEpoch s of None \<Rightarrow> (Inr (), s)
      | Some e \<Rightarrow> (case getOwner domainId s of None \<Rightarrow> (Inr (), s)
          | Some owner \<Rightarrow> if own_epoch owner \<noteq> e then (Inl (EpochFencedError domainId e (own_epoch owner)), s)
              else (Inr (), s))))"

text \<open>\<open>Number(ownerId.split('-')[1]) || 0\<close> for the owner ids the kernel writes, \<open>owner-<pid>-<ms>\<close>.\<close>

definition digitsValue :: "string \<Rightarrow> int" where
  "digitsValue s = (if list_all isDigit s
     then foldl (\<lambda>n c. 10 * n + (int (of_char c) - 48)) 0 s else 0)"

definition ownerPid :: "string \<Rightarrow> int" where
  "ownerPid ownerId = digitsValue (takeWhile (\<lambda>c. c \<noteq> CHR ''-'') (drop 1 (dropWhile (\<lambda>c. c \<noteq> CHR ''-'') ownerId)))"

text \<open>\<open>alive pid\<close>: \<open>process.kill(pid, 0)\<close> succeeds or fails with \<open>EPERM\<close>.\<close>

definition oldOwnerAlive :: "(int \<Rightarrow> bool) \<Rightarrow> millis \<Rightarrow> string \<Rightarrow> OwnerRecord \<Rightarrow> bool" where
  "oldOwnerAlive alive now hostname existing =
     (let oldPid = ownerPid (own_ownerId existing); isExpired = own_expiresAt existing \<le> now
      in if own_hostname existing = hostname \<and> oldPid > 0 then alive oldPid
         else if own_hostname existing \<noteq> hostname \<or> oldPid = 0 then \<not> isExpired
         else False)"

definition acquireOwnerLease ::
    "(int \<Rightarrow> bool) \<Rightarrow> millis \<Rightarrow> string \<Rightarrow> string \<Rightarrow> string \<Rightarrow> int \<Rightarrow> bool \<Rightarrow> OwnerRecord storeM" where
  "acquireOwnerLease alive now domainId ownerId hostname ttlMs force = atomically (\<lambda>s.
     let mine = \<lparr>own_domainId = domainId, own_ownerId = ownerId, own_epoch = 1, own_heartbeatAt = now,
                 own_expiresAt = now + ttlMs, own_hostname = hostname\<rparr>
     in case getOwner domainId s of
         None \<Rightarrow> (Inr mine, s\<lparr>db_owners := db_owners s @ [mine], st_currentEpoch := Some 1\<rparr>)
       | Some existing \<Rightarrow>
           if own_ownerId existing = ownerId
           then (let r = mine\<lparr>own_epoch := own_epoch existing\<rparr>
                 in (Inr r, s\<lparr>db_owners := updRow own_domainId domainId (\<lambda>_. r) (db_owners s),
                              st_currentEpoch := Some (own_epoch existing)\<rparr>))
           else if force \<or> own_expiresAt existing \<le> now \<or> \<not> oldOwnerAlive alive now hostname existing
           then (let r = mine\<lparr>own_epoch := own_epoch existing + 1\<rparr>
                 in (Inr r, s\<lparr>db_owners := updRow own_domainId domainId (\<lambda>_. r) (db_owners s),
                              st_currentEpoch := Some (own_epoch existing + 1)\<rparr>))
           else (Inl (DomainLockedError domainId (ownerPid (own_ownerId existing)) (own_heartbeatAt existing)), s))"

definition releaseOwnerLease :: "string \<Rightarrow> string \<Rightarrow> unit storeM" where
  "releaseOwnerLease domainId ownerId = modify (\<lambda>s. s\<lparr>db_owners :=
     map (\<lambda>o'. if own_domainId o' = domainId \<and> own_ownerId o' = ownerId then o'\<lparr>own_expiresAt := 0\<rparr> else o')
       (db_owners s)\<rparr>)"

section \<open>The journal\<close>

definition getOperation :: "string \<Rightarrow> store \<Rightarrow> Operation option" where
  "getOperation opId s = rowOf op_id opId (db_operations s)"

definition getRun :: "string \<Rightarrow> store \<Rightarrow> Run option" where
  "getRun runId s = rowOf run_id runId (db_runs s)"

definition hasEvent :: "string \<Rightarrow> string \<Rightarrow> store \<Rightarrow> bool" where
  "hasEvent opId type s = list_ex (\<lambda>e. ev_operationId e = Some opId \<and> ev_type e = type) (db_journal s)"

abbreviation intentRecorded :: "string \<Rightarrow> store \<Rightarrow> bool" where
  "intentRecorded opId s \<equiv> hasEvent opId ''OPERATION_INTENT_REGISTERED'' s"

abbreviation resultRecorded :: "string \<Rightarrow> store \<Rightarrow> bool" where
  "resultRecorded opId s \<equiv> hasEvent opId ''OPERATION_RESULT_RECORDED'' s"

definition requiresIntent :: "string \<Rightarrow> bool" where
  "requiresIntent eventName =
     (eventName = ''OPERATION_RESULT_RECORDED'' \<or> eventName = ''OPERATION_STATUS_TRANSITION''
      \<or> eventName = ''CAPABILITY_USED''
      \<or> list_ex (startsWith eventName)
          [''SERVICE_'', ''SNAPSHOT_'', ''WORKSPACE_'', ''ARTIFACT_'', ''PROCESS_'', ''PROC_''])"

text \<open>\<open>a ?? b\<close> on optional strings; an event to record has sequence number 0.\<close>

definition evOpId :: "JournalEvent \<Rightarrow> string option" where
  "evOpId e = coalesce (ev_operationId e) (ev_opId e)"

definition evName :: "JournalEvent \<Rightarrow> string" where
  "evName e = (case ev_event e of Some n \<Rightarrow> n | None \<Rightarrow> ev_type e)"

definition preIntentCancelled :: "JournalEvent \<Rightarrow> bool" where
  "preIntentCancelled e \<longleftrightarrow> evName e = ''OPERATION_RESULT_RECORDED'' \<and> isRecord (ev_payload e)
     \<and> jfield (ev_payload e) ''preIntentCancelled'' = JBool True"

definition envelopeOf :: "JournalEvent \<Rightarrow> EventEnvelopeInput" where
  "envelopeOf e = \<lparr>ein_schemaVersion = ev_schemaVersion e, ein_domainId = ev_domainId e,
     ein_requestId = ev_requestId e, ein_programId = ev_programId e,
     ein_instructionId = ev_instructionId e, ein_opId = coalesce (ev_opId e) (ev_operationId e),
     ein_event = evName e, ein_payload = ev_payload e, ein_sensitivity = ev_sensitivity e,
     ein_createdAt = Some (case ev_createdAt e of Some t \<Rightarrow> t | None \<Rightarrow> ev_timestamp e)\<rparr>"

text \<open>The row an envelope is stored as.\<close>

definition journalRow :: "int \<Rightarrow> JournalEvent \<Rightarrow> EventEnvelope \<Rightarrow> JournalEvent" where
  "journalRow n e v = \<lparr>ev_seq = n, ev_domainId = ev_domainId e, ev_runId = truthy (ev_runId e),
     ev_operationId = truthy (ev_operationId e), ev_type = env_event v, ev_payload = env_payload v,
     ev_timestamp = env_createdAt v, ev_schemaVersion = Some (env_schemaVersion v),
     ev_requestId = truthy (env_requestId v), ev_programId = truthy (env_programId v),
     ev_instructionId = truthy (env_instructionId v), ev_opId = truthy (env_opId v),
     ev_event = Some (env_event v), ev_sensitivity = Some (env_sensitivity v),
     ev_createdAt = Some (env_createdAt v)\<rparr>"

definition recordEventAndTransitionState :: "JournalEvent \<Rightarrow> int storeM" where
  "recordEventAndTransitionState e =
     thenDo (verifyEpochFencing (ev_domainId e)) (\<lambda>s.
       let operationId = truthy (evOpId e); name = evName e; pic = preIntentCancelled e
       in if (case operationId of None \<Rightarrow> False
              | Some opId \<Rightarrow> requiresIntent name \<and> name \<noteq> ''OPERATION_INTENT_REGISTERED''
                  \<and> name \<noteq> ''RESOURCES_RELEASED'' \<and> name \<noteq> ''OPERATION_REPLAYED'' \<and> \<not> pic
                  \<and> \<not> intentRecorded opId s)
          then (Inl (IntentNotRecorded (the operationId)), s)
          else if (case operationId of None \<Rightarrow> False
              | Some opId \<Rightarrow> name = ''OPERATION_RESULT_RECORDED'' \<and> \<not> pic \<and> resultRecorded opId s)
          then (Inl (ResultAlreadyRecorded (the operationId)), s)
          else (case createEventEnvelope (ev_timestamp e) (envelopeOf e) of
              Inl err \<Rightarrow> (Inl err, s)
            | Inr v \<Rightarrow> (let n = db_seq s + 1
                in (Inr n, s\<lparr>db_journal := db_journal s @ [journalRow n e v], db_seq := n\<rparr>))))"

definition mkEvent :: "string \<Rightarrow> string option \<Rightarrow> string option \<Rightarrow> string \<Rightarrow> json \<Rightarrow> millis \<Rightarrow> JournalEvent" where
  "mkEvent domainId runId operationId type payload ts =
     \<lparr>ev_seq = 0, ev_domainId = domainId, ev_runId = runId, ev_operationId = operationId, ev_type = type,
      ev_payload = payload, ev_timestamp = ts, ev_schemaVersion = None, ev_requestId = None,
      ev_programId = None, ev_instructionId = None, ev_opId = None, ev_event = None,
      ev_sensitivity = None, ev_createdAt = None\<rparr>"

definition recordEvent :: "JournalEvent \<Rightarrow> unit storeM" where
  "recordEvent e = andThen (recordEventAndTransitionState e) (\<lambda>_. ret ())"

definition recordEventEnvelope :: "millis \<Rightarrow> EventEnvelopeInput \<Rightarrow> int storeM" where
  "recordEventEnvelope now i = andThen (liftSum (createEventEnvelope now i)) (\<lambda>v.
     recordEventAndTransitionState
       \<lparr>ev_seq = 0, ev_domainId = env_domainId v, ev_runId = None, ev_operationId = env_opId v,
        ev_type = env_event v, ev_payload = env_payload v, ev_timestamp = env_createdAt v,
        ev_schemaVersion = Some (env_schemaVersion v), ev_requestId = env_requestId v,
        ev_programId = env_programId v, ev_instructionId = env_instructionId v,
        ev_opId = env_opId v, ev_event = Some (env_event v),
        ev_sensitivity = Some (env_sensitivity v), ev_createdAt = Some (env_createdAt v)\<rparr>)"

text \<open>What a read of a row returns: the defaults are left out.\<close>

definition mapJournalEvent :: "JournalEvent \<Rightarrow> JournalEvent" where
  "mapJournalEvent r = r\<lparr>
     ev_schemaVersion := (if ev_schemaVersion r = Some ''xio/event/1.0'' then None else truthy (ev_schemaVersion r)),
     ev_opId := (if ev_opId r = ev_operationId r then None else ev_opId r),
     ev_event := (if ev_event r = Some (ev_type r) then None else truthy (ev_event r)),
     ev_sensitivity := (if ev_sensitivity r = Some SensInternal then None else ev_sensitivity r),
     ev_createdAt := (if ev_createdAt r = Some (ev_timestamp r) then None else ev_createdAt r)\<rparr>"

definition getJournalEvents :: "string \<Rightarrow> int \<Rightarrow> int option \<Rightarrow> string list option \<Rightarrow> store \<Rightarrow> JournalEvent list" where
  "getJournalEvents domainId fromSeq toSeq types s =
     map mapJournalEvent (filter (\<lambda>e. ev_domainId e = domainId \<and> fromSeq \<le> ev_seq e
        \<and> (case toSeq of None \<Rightarrow> True | Some t \<Rightarrow> ev_seq e \<le> t)
        \<and> (case types of None \<Rightarrow> True | Some ts \<Rightarrow> ev_type e \<in> set ts)) (db_journal s))"

definition getJournalEvent :: "string \<Rightarrow> int \<Rightarrow> store \<Rightarrow> JournalEvent option" where
  "getJournalEvent domainId seq s =
     map_option mapJournalEvent (find (\<lambda>e. ev_domainId e = domainId \<and> ev_seq e = seq) (db_journal s))"

definition getEventsByRun :: "string \<Rightarrow> store \<Rightarrow> JournalEvent list" where
  "getEventsByRun runId s = map mapJournalEvent (filter (\<lambda>e. ev_runId e = Some runId) (db_journal s))"

section \<open>Tasks and runs\<close>

definition saveTask :: "Task \<Rightarrow> unit storeM" where
  "saveTask t = thenDo (verifyEpochFencing (task_domainId t)) (modify (\<lambda>s.
     if rowOf task_id (task_id t) (db_tasks s) = None then s\<lparr>db_tasks := db_tasks s @ [t]\<rparr>
     else s\<lparr>db_tasks := updRow task_id (task_id t)
       (\<lambda>r. r\<lparr>task_name := task_name t, task_meta := task_meta t\<rparr>) (db_tasks s)\<rparr>))"

definition getTask :: "string \<Rightarrow> store \<Rightarrow> Task option" where
  "getTask taskId s = rowOf task_id taskId (db_tasks s)"

definition getAllTasks :: "string option \<Rightarrow> store \<Rightarrow> Task list" where
  "getAllTasks domainId s = sort_key task_createdAt
     (filter (\<lambda>t. case truthy domainId of None \<Rightarrow> True | Some d \<Rightarrow> task_domainId t = d) (db_tasks s))"

definition assertConfigOpt :: "(json \<Rightarrow> string) \<Rightarrow> RequestConfigSnapshot option \<Rightarrow> KError + unit" where
  "assertConfigOpt H c = (case c of None \<Rightarrow> Inr () | Some x \<Rightarrow> assertRequestConfigSnapshot H x)"

definition saveRun :: "(json \<Rightarrow> string) \<Rightarrow> Run \<Rightarrow> unit storeM" where
  "saveRun H run = thenDo (verifyEpochFencing (run_domainId run)) (\<lambda>s.
     let existing = getRun (run_id run) s;
         white = sanitizeConfigSnapshot (Some (run_configSnapshotWhiteList run))
     in (case existing of
         Some ex \<Rightarrow>
           if terminalRun (run_status ex) \<and> run_status ex \<noteq> run_status run
           then (Inl (RunTransitionRefused (run_id run) (run_status ex) (run_status run)), s)
           else thenDo (liftSum (assertConfigOpt H (run_configSnapshot run))) (modify (\<lambda>s.
             s\<lparr>db_runs := updRow run_id (run_id run) (\<lambda>r. r\<lparr>run_status := run_status run,
                 run_terminationReason := run_terminationReason run, run_endedAt := run_endedAt run,
                 run_configSnapshotWhiteList := white,
                 run_configSnapshot := coalesce (run_configSnapshot r) (run_configSnapshot run)\<rparr>)
               (db_runs s)\<rparr>)) s
       | None \<Rightarrow> thenDo (liftSum (assertConfigOpt H (run_configSnapshot run)))
           (thenDo (guardE (rowOf task_id (run_taskId run) (db_tasks s) \<noteq> None)
               (SqlConstraintError ''FOREIGN KEY runs.task_id''))
             (modify (\<lambda>s. s\<lparr>db_runs := db_runs s @ [run\<lparr>run_configSnapshotWhiteList := white\<rparr>]\<rparr>))) s))"

definition bindRunConfigSnapshot :: "(json \<Rightarrow> string) \<Rightarrow> string \<Rightarrow> RequestConfigSnapshot \<Rightarrow> unit storeM" where
  "bindRunConfigSnapshot H runId c = thenDo (liftSum (assertRequestConfigSnapshot H c)) (atomically (\<lambda>s.
     (case getRun runId s of None \<Rightarrow> (Inl (RunNotFound runId), s)
      | Some run \<Rightarrow> (case run_configSnapshot run of
          Some b \<Rightarrow> (assertRequestConfigSnapshot H b, s)
        | None \<Rightarrow> thenDo (verifyEpochFencing (run_domainId run)) (modify (\<lambda>s.
            s\<lparr>db_runs := updRow run_id runId (\<lambda>r. r\<lparr>run_configSnapshot := coalesce (run_configSnapshot r) (Some c)\<rparr>)
               (db_runs s)\<rparr>)) s))))"

definition setRunStatus :: "string \<Rightarrow> KernelRunStatus \<Rightarrow> TerminationReason option \<Rightarrow> millis option \<Rightarrow> unit storeM" where
  "setRunStatus runId status reason endedAt = modify (\<lambda>s. s\<lparr>db_runs := updRow run_id runId
     (\<lambda>r. r\<lparr>run_status := status, run_terminationReason := coalesce reason (run_terminationReason r),
            run_endedAt := coalesce endedAt (run_endedAt r)\<rparr>) (db_runs s)\<rparr>)"

definition updateRunStatus ::
    "millis \<Rightarrow> string \<Rightarrow> KernelRunStatus \<Rightarrow> TerminationReason option \<Rightarrow> millis option \<Rightarrow> unit storeM" where
  "updateRunStatus now runId status reason endedAt = atomically (\<lambda>s.
     (case getRun runId s of
        None \<Rightarrow> setRunStatus runId status reason endedAt s
      | Some run \<Rightarrow> thenDo (verifyEpochFencing (run_domainId run))
          (if terminalRun (run_status run)
           then guardE (run_status run = status) (RunTransitionRefused runId (run_status run) status)
           else thenDo (setRunStatus runId status reason endedAt)
             (recordEvent (mkEvent (run_domainId run) (Some runId) None ''RUN_STATUS_TRANSITION''
                (JObj [(''status'', JStr (runStatusStr status)),
                       (''terminationReason'', optJ (\<lambda>t. JStr (reasonStr t)) reason),
                       (''endedAt'', optJ JNum endedAt)]) now))) s))"

definition getOperationsByRun :: "string \<Rightarrow> store \<Rightarrow> Operation list" where
  "getOperationsByRun runId s = filter (\<lambda>o'. op_runId o' = runId) (db_operations s)"

text \<open>The last recorded status per agent of a run; \<open>Inl\<close> where \<open>payload.state\<close> has no properties to read.\<close>

fun agentStates :: "string \<Rightarrow> JournalEvent list \<Rightarrow> (json, json) jsmap \<Rightarrow> KError + (json, json) jsmap" where
  "agentStates runId [] m = Inr m"
| "agentStates runId (e # es) m =
     (if ev_type e = ''AGENT_STATE'' \<and> ev_runId e = Some runId
      then (let st = jfield (ev_payload e) ''state''
            in if st = JUndef \<or> st = JNull then Inl (TypeError ''agent state'')
               else agentStates runId es (mapSet (jfield st ''id'') (jfield st ''status'') m))
      else agentStates runId es m)"

definition reportRunSucceeded :: "millis \<Rightarrow> string \<Rightarrow> unit storeM" where
  "reportRunSucceeded now runId = atomically (\<lambda>s.
     (case getRun runId s of None \<Rightarrow> (Inl (RunNotFound runId), s)
      | Some run \<Rightarrow> thenDo (verifyEpochFencing (run_domainId run))
          (if run_status run = RSucceeded then ret ()
           else if terminalRun (run_status run)
             then raise (RunTransitionRefused runId (run_status run) RSucceeded)
           else (let ops = getOperationsByRun runId s
             in andThen (liftSum (agentStates runId (getJournalEvents (run_domainId run) 0 None None s) []))
               (\<lambda>agents. thenDo (guardE (\<forall>(a, st) \<in> set agents. st = JStr ''completed'' \<or> st = JStr ''failed'')
                    (RunAgentsUnfinished runId))
                 (thenDo (guardE (\<forall>o' \<in> set ops. op_status o' = ODone)
                    (RunOperationsUnfinished runId (map op_id (filter (\<lambda>o'. op_status o' \<noteq> ODone) ops))))
                  (case filter (\<lambda>o'. case op_result o' of Some r \<Rightarrow> isIndeterminate r | None \<Rightarrow> False) ops of
                     o' # _ \<Rightarrow> updateRunStatus now runId RIndeterminate
                                 (Option.bind (op_result o') resultTerminationReason) (Some now)
                   | [] \<Rightarrow> updateRunStatus now runId RSucceeded (Some TCompleted) (Some now)))))) s))"

definition reportRunFailed :: "millis \<Rightarrow> string \<Rightarrow> TerminationReason \<Rightarrow> unit storeM" where
  "reportRunFailed now runId reason = atomically (\<lambda>s.
     (case getRun runId s of None \<Rightarrow> (Inl (RunNotFound runId), s)
      | Some run \<Rightarrow> thenDo (verifyEpochFencing (run_domainId run))
          (if run_status run = RFailed then ret ()
           else if terminalRun (run_status run) then raise (RunTransitionRefused runId (run_status run) RFailed)
           else updateRunStatus now runId RFailed (Some reason) (Some now)) s))"

definition reportRunCancelled :: "millis \<Rightarrow> string \<Rightarrow> TerminationReason \<Rightarrow> unit storeM" where
  "reportRunCancelled now runId reason = atomically (\<lambda>s.
     (case getRun runId s of None \<Rightarrow> (Inl (RunNotFound runId), s)
      | Some run \<Rightarrow> thenDo (verifyEpochFencing (run_domainId run))
          (if terminalRun (run_status run) then raise (RunTransitionRefused runId (run_status run) RCancelled)
           else updateRunStatus now runId RCancelled (Some reason) (Some now)) s))"

definition getActiveRuns :: "string \<Rightarrow> store \<Rightarrow> Run list" where
  "getActiveRuns domainId s = filter (\<lambda>r. run_domainId r = domainId \<and> run_status r = RRunning) (db_runs s)"

definition getAllRuns :: "string option \<Rightarrow> store \<Rightarrow> Run list" where
  "getAllRuns domainId s = sort_key run_startedAt
     (filter (\<lambda>r. case truthy domainId of None \<Rightarrow> True | Some d \<Rightarrow> run_domainId r = d) (db_runs s))"

section \<open>Operations and leases\<close>

definition assertRunOpen :: "string \<Rightarrow> unit storeM" where
  "assertRunOpen runId = (\<lambda>s. case getRun runId s of
      None \<Rightarrow> (Inl (RunNotRegistered runId), s)
    | Some run \<Rightarrow> if terminalRun (run_status run) then (Inl (RunFinalized runId (run_status run)), s)
        else (Inr (), s))"

definition insertOperation :: "Operation \<Rightarrow> unit storeM" where
  "insertOperation row = (\<lambda>s. if getOperation (op_id row) s \<noteq> None
     then (Inl (SqlConstraintError ''PRIMARY KEY operations.id''), s)
     else (Inr (), s\<lparr>db_operations := db_operations s @ [row]\<rparr>))"

definition insertLease :: "ResourceLease \<Rightarrow> unit storeM" where
  "insertLease l = (\<lambda>s. if list_ex (\<lambda>l'. lease_resourceId l' = lease_resourceId l
          \<and> lease_operationId l' = lease_operationId l) (db_leases s)
     then (Inl (SqlConstraintError ''PRIMARY KEY resource_leases''), s)
     else (Inr (), s\<lparr>db_leases := db_leases s @ [l]\<rparr>))"

definition configBindingJson :: "RequestConfigSnapshot \<Rightarrow> json" where
  "configBindingJson c = JObj
     [(''schemaVersion'', JStr (rcs_schemaVersion c)), (''capabilityId'', optJ JStr (rcs_capabilityId c)),
      (''capabilityPolicyVersion'', optJ JStr (rcs_capabilityPolicyVersion c)),
      (''driverName'', JStr (rcs_driverName c)), (''driverVersion'', JStr (rcs_driverVersion c)),
      (''retentionVersion'', JStr (rcs_retentionVersion c)),
      (''redactionVersion'', JStr (rcs_redactionVersion c)), (''digest'', JStr (rcs_digest c))]"

text \<open>\<open>timeoutMs || null\<close>: a zero timeout is stored as none.\<close>

definition nonZero :: "int option \<Rightarrow> int option" where
  "nonZero x = (if x = Some 0 then None else x)"

definition registerOperationIntent :: "(json \<Rightarrow> string) \<Rightarrow> millis \<Rightarrow> Operation \<Rightarrow> string \<Rightarrow> unit storeM" where
  "registerOperationIntent H now op domainId =
     thenDo (liftSum (assertConfigOpt H (op_configSnapshot op)))
    (thenDo (assertRunOpen (op_runId op))
    (atomically
      (thenDo (verifyEpochFencing domainId)
      (thenDo (insertOperation (op\<lparr>op_domainId := domainId, op_status := OIntentRegistered,
          op_capabilityId := truthy (op_capabilityId op), op_timeoutMs := nonZero (op_timeoutMs op),
          op_outputRef := truthy (op_outputRef op)\<rparr>))
      (thenDo (forEach (op_requiredResources op) (\<lambda>res. insertLease
          \<lparr>lease_resourceId = res, lease_operationId = op_id op, lease_domainId = domainId,
           lease_acquiredAt = now, lease_budget = op_resourceBudget op\<rparr>))
        (recordEvent (mkEvent domainId (Some (op_runId op)) (Some (op_id op)) ''OPERATION_INTENT_REGISTERED''
           (JObj [(''kind'', JStr (kindStr (op_kind op))), (''name'', JStr (op_name op)),
                  (''requiredResources'', strsJ (op_requiredResources op)),
                  (''inputFingerprint'', JStr (op_inputFingerprint op)),
                  (''resourceBudget'', optJ budgetJson (op_resourceBudget op)),
                  (''spawnGated'', optJ JBool (op_spawnGated op)),
                  (''configBinding'', optJ configBindingJson (op_configSnapshot op))]) now)))))))"

definition recordPreIntentCancelledOperation ::
    "(json \<Rightarrow> string) \<Rightarrow> Operation \<Rightarrow> string \<Rightarrow> OperationResult \<Rightarrow> unit storeM" where
  "recordPreIntentCancelledOperation H op domainId result =
     thenDo (liftSum (assertConfigOpt H (op_configSnapshot op)))
    (thenDo (assertRunOpen (op_runId op))
    (atomically
      (thenDo (verifyEpochFencing domainId)
      (thenDo (\<lambda>s. if getOperation (op_id op) s \<noteq> None then (Inl (OperationExists (op_id op)), s) else (Inr (), s))
      (thenDo (insertOperation (op\<lparr>op_domainId := domainId, op_status := ODone,
          op_capabilityId := truthy (op_capabilityId op), op_timeoutMs := nonZero (op_timeoutMs op),
          op_outputRef := truthy (op_outputRef op), op_result := Some result,
          op_spawnGated := None, op_recoveryEvidence := None\<rparr>))
        (recordEvent (mkEvent domainId (Some (op_runId op)) (Some (op_id op)) ''OPERATION_RESULT_RECORDED''
           (JObj [(''result'', resultJson result), (''releaseResources'', JBool False),
                  (''preIntentCancelled'', JBool True)]) (res_completedAt (resultBase result)))))))))"

definition modifyOperation :: "string \<Rightarrow> (Operation \<Rightarrow> Operation) \<Rightarrow> unit storeM" where
  "modifyOperation opId f = modify (\<lambda>s. s\<lparr>db_operations := updRow op_id opId f (db_operations s)\<rparr>)"

definition updateOperationStatus ::
    "millis \<Rightarrow> string \<Rightarrow> OperationStatus \<Rightarrow> ProcessIdentity option \<Rightarrow> string option \<Rightarrow> unit storeM" where
  "updateOperationStatus now opId status identity outputRef = atomically (\<lambda>s.
     let op = getOperation opId s;
         write = modifyOperation opId (\<lambda>r. r\<lparr>op_status := status,
             op_processIdentity := coalesce identity (op_processIdentity r),
             op_outputRef := coalesce (truthy outputRef) (op_outputRef r),
             op_recoveryEvidence := coalesce
               (case identity of None \<Rightarrow> None
                | Some i \<Rightarrow> withRecoveryIdentity now (Option.bind op op_recoveryEvidence) i)
               (op_recoveryEvidence r)\<rparr>)
     in (case op of None \<Rightarrow> write s
         | Some o' \<Rightarrow> thenDo (verifyEpochFencing (op_domainId o')) (thenDo write
             (recordEvent (mkEvent (op_domainId o') (Some (op_runId o')) (Some opId)
                ''OPERATION_STATUS_TRANSITION''
                (JObj [(''status'', JStr (opStatusStr status)),
                       (''processIdentity'', optJ identityJson identity),
                       (''outputRef'', optJ JStr outputRef)]) now))) s))"

record EvidencePatch =
  pt_identity :: "ProcessIdentity option"
  pt_tree :: "TreeEvidence option"
  pt_pipes :: "PipesEvidence option"
  pt_containment :: "ContainmentEvidence option"

definition updateRecoveryEvidence :: "string \<Rightarrow> EvidencePatch \<Rightarrow> unit storeM" where
  "updateRecoveryEvidence opId p = atomically (\<lambda>s.
     (case getOperation opId s of None \<Rightarrow> (Inl (OperationNotFound opId), s)
      | Some o' \<Rightarrow> thenDo (verifyEpochFencing (op_domainId o'))
          (case op_recoveryEvidence o' of None \<Rightarrow> ret ()
           | Some e \<Rightarrow> modifyOperation opId (\<lambda>r. r\<lparr>op_recoveryEvidence := Some (e\<lparr>
                 re_identity := coalesce (pt_identity p) (re_identity e),
                 re_tree := coalesce (pt_tree p) (re_tree e),
                 re_pipes := coalesce (pt_pipes p) (re_pipes e),
                 re_containment := coalesce (pt_containment p) (re_containment e)\<rparr>)\<rparr>)) s))"

definition updateOperationResult :: "string \<Rightarrow> OperationResult \<Rightarrow> unit storeM" where
  "updateOperationResult opId result = atomically (\<lambda>s.
     (case getOperation opId s of None \<Rightarrow> (Inl (OperationNotFound opId), s)
      | Some o' \<Rightarrow> thenDo (verifyEpochFencing (op_domainId o'))
          (modifyOperation opId (\<lambda>r. r\<lparr>op_result := Some result\<rparr>)) s))"

definition deleteLeases :: "string \<Rightarrow> unit storeM" where
  "deleteLeases opId = modify (\<lambda>s. s\<lparr>db_leases := delRows (\<lambda>l. lease_operationId l = opId) (db_leases s)\<rparr>)"

definition recordOperationResult :: "string \<Rightarrow> OperationResult \<Rightarrow> bool \<Rightarrow> unit storeM" where
  "recordOperationResult opId result releaseResources = atomically (\<lambda>s.
     (case getOperation opId s of None \<Rightarrow> (Inl (OperationNotFound opId), s)
      | Some o' \<Rightarrow> thenDo (verifyEpochFencing (op_domainId o'))
         (thenDo (guardE (op_status o' \<noteq> ODone) (OperationAlreadyFinalized opId))
         (thenDo (guardE (intentRecorded opId s) (IntentNotRecorded opId))
         (thenDo (guardE (\<not> resultRecorded opId s) (ResultAlreadyRecorded opId))
         (thenDo (modifyOperation opId (\<lambda>r. r\<lparr>op_status := ODone, op_result := Some result,
              op_outputRef := coalesce (truthy (resultOutputRef result)) (op_outputRef r),
              op_capabilityId := coalesce (truthy (res_capabilityId (resultBase result))) (op_capabilityId r)\<rparr>))
         (thenDo (whenDo (releaseResources \<and> \<not> isIndeterminate result) (deleteLeases opId))
          (recordEvent (mkEvent (op_domainId o') (Some (op_runId o')) (Some opId) ''OPERATION_RESULT_RECORDED''
             (JObj [(''result'', resultJson result), (''releaseResources'', JBool releaseResources)])
             (res_completedAt (resultBase result))))))))) s))"

datatype ReplayMode = RmJoined | RmRecorded | RmIndeterminate

fun replayModeStr :: "ReplayMode \<Rightarrow> string" where
  "replayModeStr RmJoined = ''joined''"
| "replayModeStr RmRecorded = ''recorded''"
| "replayModeStr RmIndeterminate = ''indeterminate''"

definition recordReplay :: "millis \<Rightarrow> string \<Rightarrow> string \<Rightarrow> ReplayMode \<Rightarrow> string \<Rightarrow> unit storeM" where
  "recordReplay now domainId opId mode callingRunId =
     thenDo (verifyEpochFencing domainId) (\<lambda>s. let op = getOperation opId s in
       recordEvent (mkEvent domainId (Some callingRunId) (Some opId) ''OPERATION_REPLAYED''
         (JObj [(''mode'', JStr (replayModeStr mode)), (''opId'', JStr opId),
                (''callingRunId'', JStr callingRunId),
                (''originalRunId'', optJ (\<lambda>o'. JStr (op_runId o')) op),
                (''originalStatus'', optJ (\<lambda>o'. JStr (opStatusStr (op_status o'))) op)]) now) s)"

definition unfinished :: "Operation \<Rightarrow> bool" where
  "unfinished o' \<longleftrightarrow> op_status o' = OIntentRegistered \<or> op_status o' = OActive \<or> op_status o' = OStopping"

definition getUnfinishedOperations :: "string \<Rightarrow> store \<Rightarrow> Operation list" where
  "getUnfinishedOperations domainId s = filter (\<lambda>o'. op_domainId o' = domainId \<and> unfinished o') (db_operations s)"

definition getAllOperations :: "string \<Rightarrow> store \<Rightarrow> Operation list" where
  "getAllOperations domainId s = filter (\<lambda>o'. op_domainId o' = domainId) (db_operations s)"

definition getPersistedResourceLeases :: "string \<Rightarrow> store \<Rightarrow> ResourceLease list" where
  "getPersistedResourceLeases domainId s = filter (\<lambda>l. lease_domainId l = domainId) (db_leases s)"

definition releaseResourceLease :: "string \<Rightarrow> string option \<Rightarrow> unit storeM" where
  "releaseResourceLease operationId resourceId = (case truthy resourceId of
      Some res \<Rightarrow> modify (\<lambda>s. s\<lparr>db_leases := delRows (\<lambda>l. lease_operationId l = operationId
                     \<and> lease_resourceId l = res) (db_leases s)\<rparr>)
    | None \<Rightarrow> deleteLeases operationId)"

section \<open>Artifacts\<close>

definition sameArtifact :: "string \<Rightarrow> string \<times> string \<times> string \<Rightarrow> ArtifactRecord \<Rightarrow> bool" where
  "sameArtifact domainId ident a \<longleftrightarrow> art_domainId a = domainId
     \<and> (art_dev a, art_ino a, art_birthtimeNs a) = ident"

definition recordArtifact :: "ArtifactRecord \<Rightarrow> unit storeM" where
  "recordArtifact r = atomically (thenDo (verifyEpochFencing (art_domainId r)) (\<lambda>s.
     if rowOf art_id (art_id r) (db_artifacts s) \<noteq> None
        \<or> list_ex (\<lambda>a. sameArtifact (art_domainId r) (art_dev r, art_ino r, art_birthtimeNs r) a
                     \<and> art_path a = art_path r) (db_artifacts s)
     then (Inl (SqlConstraintError ''artifacts''), s)
     else (Inr (), s\<lparr>db_artifacts := db_artifacts s @ [r]\<rparr>)))"

definition finalizeArtifact :: "string \<Rightarrow> string \<times> string \<times> string \<Rightarrow> string \<Rightarrow> int \<Rightarrow> unit storeM" where
  "finalizeArtifact domainId ident sha bytes = atomically (thenDo (verifyEpochFencing domainId)
     (modify (\<lambda>s. s\<lparr>db_artifacts := map (\<lambda>a. if sameArtifact domainId ident a
         then a\<lparr>art_sha256 := Some sha, art_sizeBytes := Some bytes\<rparr> else a) (db_artifacts s)\<rparr>)))"

definition markArtifactDeleted :: "millis \<Rightarrow> string \<Rightarrow> string \<times> string \<times> string \<Rightarrow> string \<Rightarrow> unit storeM" where
  "markArtifactDeleted now domainId ident reason = atomically (thenDo (verifyEpochFencing domainId)
     (modify (\<lambda>s. s\<lparr>db_artifacts := map (\<lambda>a. if sameArtifact domainId ident a
         then a\<lparr>art_deletionState := DelDeleted, art_deletedAt := Some now, art_deletionReason := Some reason\<rparr>
         else a) (db_artifacts s)\<rparr>)))"

definition listArtifacts :: "string \<Rightarrow> ArtifactDeletionState list \<Rightarrow> store \<Rightarrow> ArtifactRecord list" where
  "listArtifacts domainId states s = sort_key art_createdAt (sortBy art_id
     (filter (\<lambda>a. art_domainId a = domainId \<and> (states = [] \<or> art_deletionState a \<in> set states)) (db_artifacts s)))"

section \<open>Snapshots and capabilities\<close>

definition recordSnapshot :: "SnapshotRef \<Rightarrow> unit storeM" where
  "recordSnapshot r = thenDo (verifyEpochFencing (snap_domainId r))
     (modify (\<lambda>s. s\<lparr>db_snapshots := replaceRow snap_id r (db_snapshots s)\<rparr>))"

definition getSnapshot :: "string \<Rightarrow> store \<Rightarrow> SnapshotRef option" where
  "getSnapshot snapshotId s = rowOf snap_id snapshotId (db_snapshots s)"

text \<open>\<open>ORDER BY journal_seq DESC LIMIT 1\<close>; \<open>NULL <= ?\<close> is not true.\<close>

fun latestBy :: "('a \<Rightarrow> int) \<Rightarrow> 'a list \<Rightarrow> 'a option" where
  "latestBy key [] = None"
| "latestBy key (x # xs) = (case latestBy key xs of None \<Rightarrow> Some x
     | Some y \<Rightarrow> if key x \<ge> key y then Some x else Some y)"

definition findSnapshotAtOrBefore :: "string \<Rightarrow> int \<Rightarrow> store \<Rightarrow> SnapshotRef option" where
  "findSnapshotAtOrBefore domainId seq s = latestBy (\<lambda>r. the (snap_journalSeq r))
     (filter (\<lambda>r. snap_domainId r = domainId
        \<and> (case snap_journalSeq r of None \<Rightarrow> False | Some n \<Rightarrow> n \<le> seq)) (db_snapshots s))"

definition listSnapshots :: "string \<Rightarrow> store \<Rightarrow> SnapshotRef list" where
  "listSnapshots domainId s = sort_key snap_createdAt (filter (\<lambda>r. snap_domainId r = domainId) (db_snapshots s))"

definition deleteSnapshot :: "string \<Rightarrow> unit storeM" where
  "deleteSnapshot snapshotId = modify (\<lambda>s. s\<lparr>db_snapshots := delRows (\<lambda>r. snap_id r = snapshotId) (db_snapshots s)\<rparr>)"

definition recordCapability :: "Capability \<Rightarrow> unit storeM" where
  "recordCapability c = thenDo (verifyEpochFencing (cap_domainId c))
     (modify (\<lambda>s. s\<lparr>db_capabilities := replaceRow cap_id c (db_capabilities s)\<rparr>))"

definition mapCapabilityRow :: "Capability \<Rightarrow> Capability" where
  "mapCapabilityRow r = r\<lparr>cap_parentId := truthy (cap_parentId r),
     cap_policyVersion := (if cap_policyVersion r = [] then ''legacy/0'' else cap_policyVersion r),
     cap_reason := (if cap_reason r = [] then ''legacy-capability'' else cap_reason r)\<rparr>"

definition getCapability :: "string \<Rightarrow> store \<Rightarrow> Capability option" where
  "getCapability capId s = map_option mapCapabilityRow (rowOf cap_id capId (db_capabilities s))"

definition listCapabilities :: "string \<Rightarrow> store \<Rightarrow> Capability list" where
  "listCapabilities domainId s =
     map mapCapabilityRow (sort_key cap_createdAt (filter (\<lambda>c. cap_domainId c = domainId) (db_capabilities s)))"

definition storeRevokeCapability :: "string \<Rightarrow> string \<Rightarrow> millis \<Rightarrow> unit storeM" where
  "storeRevokeCapability capId domainId revokedAt = thenDo (verifyEpochFencing domainId)
     (modify (\<lambda>s. s\<lparr>db_capabilities := map (\<lambda>c. if cap_id c = capId \<and> cap_domainId c = domainId
         then c\<lparr>cap_revokedAt := Some revokedAt\<rparr> else c) (db_capabilities s)\<rparr>))"

end
