(* ===== verification/StoreLaws.thy ===== *)
theory StoreLaws
  imports Store
begin

text \<open>
  What every method of the store keeps: the well-formedness of the database (\<open>storeOk\<close>), and
  an order on its states (\<open>storeLe\<close>) along which the journal only grows, recorded operations
  stay, epochs only rise and a terminal run keeps its status. The contract is the locale
  \<open>store_method\<close>, interpreted on the methods of \<open>SqliteStore\<close>; the reachable states
  \<open>storeReach\<close> of a database then satisfy it by rule induction.
\<close>

section \<open>Well-formed databases\<close>

text \<open>
  \<open>okNext j e\<close>: the row \<open>e\<close> may follow the journal \<open>j\<close>. An event that needs a durable
  intent comes after it, and a result event after no other result event of its operation. A
  cancellation before the intent is exempt; a payload marked secret is stored as
  \<open>{redacted: true}\<close>, so its row cannot show which of the two it was.
\<close>

definition exemptRow :: "JournalEvent \<Rightarrow> bool" where
  "exemptRow e \<longleftrightarrow> (ev_type e = ''OPERATION_RESULT_RECORDED''
       \<and> jfield (ev_payload e) ''preIntentCancelled'' = JBool True)
     \<or> ev_sensitivity e = Some SensSecret"

definition eventIn :: "JournalEvent list \<Rightarrow> string \<Rightarrow> string \<Rightarrow> bool" where
  "eventIn j opId type \<longleftrightarrow> (\<exists>e \<in> set j. ev_operationId e = Some opId \<and> ev_type e = type)"

definition okNext :: "JournalEvent list \<Rightarrow> JournalEvent \<Rightarrow> bool" where
  "okNext j e \<longleftrightarrow> (\<forall>opId. ev_operationId e = Some opId \<longrightarrow> requiresIntent (ev_type e) \<longrightarrow> \<not> exemptRow e \<longrightarrow>
     eventIn j opId ''OPERATION_INTENT_REGISTERED''
     \<and> (ev_type e = ''OPERATION_RESULT_RECORDED'' \<longrightarrow> \<not> eventIn j opId ''OPERATION_RESULT_RECORDED''))"

definition journalOk :: "JournalEvent list \<Rightarrow> bool" where
  "journalOk j \<longleftrightarrow> (\<forall>i < length j. okNext (take i j) (j ! i))"

definition leaseKey :: "ResourceLease \<Rightarrow> string \<times> string" where
  "leaseKey l = (lease_resourceId l, lease_operationId l)"

definition cleanRow :: "JournalEvent \<Rightarrow> bool" where
  "cleanRow e \<longleftrightarrow> isRecord (ev_payload e) \<and> noSecretKeys (ev_payload e)"

definition storeOk :: "store \<Rightarrow> bool" where
  "storeOk s \<longleftrightarrow> distinct (map own_domainId (db_owners s)) \<and> distinct (map run_id (db_runs s))
     \<and> distinct (map op_id (db_operations s)) \<and> distinct (map leaseKey (db_leases s))
     \<and> sorted_wrt (<) (map ev_seq (db_journal s)) \<and> (\<forall>e \<in> set (db_journal s). ev_seq e \<le> db_seq s)
     \<and> journalOk (db_journal s) \<and> (\<forall>e \<in> set (db_journal s). cleanRow e)"

definition storeLe :: "store \<Rightarrow> store \<Rightarrow> bool" where
  "storeLe s t \<longleftrightarrow> prefix (db_journal s) (db_journal t)
     \<and> (\<forall>opId. getOperation opId s \<noteq> None \<longrightarrow> getOperation opId t \<noteq> None)
     \<and> (\<forall>runId r. getRun runId s = Some r \<longrightarrow>
          (\<exists>r'. getRun runId t = Some r' \<and> (terminalRun (run_status r) \<longrightarrow> run_status r' = run_status r)))
     \<and> (\<forall>d ow. getOwner d s = Some ow \<longrightarrow> (\<exists>ow'. getOwner d t = Some ow' \<and> own_epoch ow \<le> own_epoch ow'))"

lemma storeLe_refl [simp, intro]: "storeLe s s"
  by (simp add: storeLe_def)

lemma storeLe_trans: "storeLe s t \<Longrightarrow> storeLe t u \<Longrightarrow> storeLe s u"
  unfolding storeLe_def
  by (intro conjI) (blast intro: prefix_order.trans, blast, metis, (meson order_trans))

lemma journalOk_snoc: "journalOk (j @ [e]) \<longleftrightarrow> journalOk j \<and> okNext j e"
proof -
  have "(\<forall>i < Suc (length j). okNext (take i (j @ [e])) ((j @ [e]) ! i)) \<longleftrightarrow>
      (\<forall>i < length j. okNext (take i j) (j ! i)) \<and> okNext j e"
    by (auto simp: less_Suc_eq nth_append)
  then show ?thesis by (simp add: journalOk_def)
qed

lemma storeOk_empty: "storeOk emptyStore"
  by (simp add: storeOk_def emptyStore_def journalOk_def)

lemma hasEvent_eventIn: "hasEvent opId type s \<longleftrightarrow> eventIn (db_journal s) opId type"
  by (auto simp: hasEvent_def eventIn_def list_ex_iff)

section \<open>The contract of a store method\<close>

locale store_method =
  fixes m :: "(store, KError, 'a) act"
  assumes keeps_ok: "storeOk s \<Longrightarrow> storeOk (snd (m s))"
    and grows: "storeOk s \<Longrightarrow> storeLe s (snd (m s))"
begin

lemma journal_grows: "storeOk s \<Longrightarrow> prefix (db_journal s) (db_journal (snd (m s)))"
  using grows by (simp add: storeLe_def)

lemma terminal_stays:
  "storeOk s \<Longrightarrow> getRun runId s = Some r \<Longrightarrow> terminalRun (run_status r) \<Longrightarrow>
   \<exists>r'. getRun runId (snd (m s)) = Some r' \<and> run_status r' = run_status r"
  using grows unfolding storeLe_def by blast

lemma epoch_rises:
  "storeOk s \<Longrightarrow> getOwner d s = Some ow \<Longrightarrow>
   \<exists>ow'. getOwner d (snd (m s)) = Some ow' \<and> own_epoch ow \<le> own_epoch ow'"
  using grows unfolding storeLe_def by blast

lemma intent_stays: "storeOk s \<Longrightarrow> eventIn (db_journal s) opId type \<Longrightarrow> eventIn (db_journal (snd (m s))) opId type"
  using journal_grows [of s] by (auto simp: eventIn_def prefix_def)

end

text \<open>The contract in the calculus of \<open>preserves\<close>, by which composed methods inherit it.\<close>

definition evolved :: "store \<Rightarrow> store \<Rightarrow> bool" where
  "evolved s0 s \<longleftrightarrow> storeOk s \<and> storeLe s0 s"

lemma evolved_ok: "evolved s0 s \<Longrightarrow> storeOk s" and evolved_le: "evolved s0 s \<Longrightarrow> storeLe s0 s"
  by (simp_all add: evolved_def)

lemma evolved_refl: "storeOk s \<Longrightarrow> evolved s s"
  by (simp add: evolved_def)

lemma store_methodI:
  assumes "\<And>s0. preserves (evolved s0) m"
  shows "store_method m"
proof
  fix s assume "storeOk s"
  then have "evolved s (snd (m s))" by (rule preserves_snd [OF assms evolved_refl])
  then show "storeOk (snd (m s))" and "storeLe s (snd (m s))"
    by (rule evolved_ok, rule evolved_le)
qed

text \<open>A write that keeps the journal, the runs, the operations' keys and the owners.\<close>

lemma evolved_frame:
  assumes "evolved s0 s" and "db_journal t = db_journal s" and "db_seq t = db_seq s"
    and "db_runs t = db_runs s" and "map op_id (db_operations t) = map op_id (db_operations s)"
    and "db_owners t = db_owners s" and "distinct (map leaseKey (db_leases t))"
  shows "evolved s0 t"
proof -
  have "op_id ` set (db_operations t) = op_id ` set (db_operations s)"
    using assms(5) by (metis list.set_map)
  then have "(getOperation o' t = None) = (getOperation o' s = None)" for o'
    by (simp add: getOperation_def rowOf_None_iff)
  with assms show ?thesis
    by (simp add: evolved_def storeOk_def storeLe_def getRun_def getOwner_def)
qed

lemma distinct_delRows: "distinct (map key rows) \<Longrightarrow> distinct (map key (delRows p rows))"
  by (simp add: delRows_def distinct_map_filter)

lemma storeOk_leases: "storeOk s \<Longrightarrow> distinct (map leaseKey (db_leases s))"
  by (simp add: storeOk_def)

section \<open>The journal\<close>

lemma jsonFields_keeps_flag:
  "jsonFields fs = Inr gs \<Longrightarrow> \<not> SECRET_KEY k \<Longrightarrow> map_of fs k = Some (JBool b) \<Longrightarrow>
   map_of gs k = Some (JBool b)"
proof (induction fs arbitrary: gs)
  case (Cons f fs)
  obtain k' v where f: "f = (k', v)" by (cases f)
  show ?case
  proof (cases "k' = k")
    case True
    with Cons.prems f show ?thesis by (auto split: sum.splits)
  next
    case False
    with Cons f show ?thesis by (auto split: sum.splits if_splits)
  qed
qed simp

lemma not_secret_preIntent: "\<not> SECRET_KEY ''preIntentCancelled''"
  by code_simp

text \<open>The exemption survives redaction, unless the payload was marked secret.\<close>

lemma preIntent_redacted:
  assumes "preIntentCancelled e" and "redactEventPayload (ev_payload e) sens = Inr p"
  shows "sens = SensSecret \<or> jfield p ''preIntentCancelled'' = JBool True"
proof (cases "sens = SensSecret")
  case False
  from assms(1) obtain fs where fs: "ev_payload e = JObj fs"
    and "map_of fs ''preIntentCancelled'' = Some (JBool True)"
    by (auto simp: preIntentCancelled_def isRecord_iff split: option.splits)
  moreover from assms(2) False fs obtain gs where "p = JObj gs" "jsonFields fs = Inr gs"
    by (auto simp: redactEventPayload_def split: sum.splits if_splits)
  ultimately show ?thesis by (simp add: jsonFields_keeps_flag not_secret_preIntent)
qed simp

lemma createEventEnvelope_Inr:
  assumes "createEventEnvelope now i = Inr v"
  shows "env_event v = ein_event i"
    and "redactEventPayload (ein_payload i) (env_sensitivity v) = Inr (env_payload v)"
  using assms by (auto simp: createEventEnvelope_def Let_def split: if_splits sum.splits)

lemma journalRow_clean: "createEventEnvelope now i = Inr v \<Longrightarrow> cleanRow (journalRow n e v)"
  using redactEventPayload_clean [OF createEventEnvelope_Inr(2)] by (simp add: cleanRow_def journalRow_def)

lemma verifyEpochFencing_state [simp]: "snd (verifyEpochFencing d s) = s"
  by (simp add: verifyEpochFencing_def split: option.splits)

lemma verifyEpochFencing_cases:
  "verifyEpochFencing d s = (Inr (), s) \<or> (\<exists>e. verifyEpochFencing d s = (Inl e, s))"
  by (auto simp: verifyEpochFencing_def split: option.splits)

lemma pres_verify [pres]: "preserves I (verifyEpochFencing d)"
  by (simp add: preserves_def)

lemma truthy_Some: "truthy x = Some y \<Longrightarrow> x = Some y"
  by (auto simp: truthy_def split: option.splits list.splits)

text \<open>The two guards of the journal, and the run of an unfenced write under them.\<close>

abbreviation missingIntent :: "JournalEvent \<Rightarrow> store \<Rightarrow> string \<Rightarrow> bool" where
  "missingIntent e s opId \<equiv> requiresIntent (evName e) \<and> evName e \<noteq> ''OPERATION_INTENT_REGISTERED''
     \<and> evName e \<noteq> ''RESOURCES_RELEASED'' \<and> evName e \<noteq> ''OPERATION_REPLAYED''
     \<and> \<not> preIntentCancelled e \<and> \<not> intentRecorded opId s"

abbreviation repeatedResult :: "JournalEvent \<Rightarrow> store \<Rightarrow> string \<Rightarrow> bool" where
  "repeatedResult e s opId \<equiv> evName e = ''OPERATION_RESULT_RECORDED'' \<and> \<not> preIntentCancelled e
     \<and> resultRecorded opId s"

lemma recordEvent_run:
  assumes "verifyEpochFencing (ev_domainId e) s = (Inr (), s)"
  shows "recordEventAndTransitionState e s =
    (if (case truthy (evOpId e) of None \<Rightarrow> False | Some opId \<Rightarrow> missingIntent e s opId)
     then (Inl (IntentNotRecorded (the (truthy (evOpId e)))), s)
     else if (case truthy (evOpId e) of None \<Rightarrow> False | Some opId \<Rightarrow> repeatedResult e s opId)
     then (Inl (ResultAlreadyRecorded (the (truthy (evOpId e)))), s)
     else (case createEventEnvelope (ev_timestamp e) (envelopeOf e) of
         Inl err \<Rightarrow> (Inl err, s)
       | Inr v \<Rightarrow> (Inr (db_seq s + 1), s\<lparr>db_journal := db_journal s @ [journalRow (db_seq s + 1) e v],
                                          db_seq := db_seq s + 1\<rparr>)))"
  unfolding recordEventAndTransitionState_def Let_def by (simp only: thenDo_simps(2) [where m = "verifyEpochFencing (ev_domainId e)" and x = "()", OF assms])

lemma requiresIntent_exempt:
  "\<not> requiresIntent ''OPERATION_INTENT_REGISTERED''" "\<not> requiresIntent ''RESOURCES_RELEASED''"
  "\<not> requiresIntent ''OPERATION_REPLAYED''"
  by code_simp+

lemma truthy_trans: "truthy x = Some y \<Longrightarrow> truthy (coalesce x z) = Some y"
  by (cases x) (simp_all add: truthy_def)

text \<open>A row that passed the guards is admissible after the journal.\<close>

lemma journalRow_okNext:
  assumes v: "createEventEnvelope (ev_timestamp e) (envelopeOf e) = Inr v"
    and intent: "\<And>opId. truthy (evOpId e) = Some opId \<Longrightarrow> \<not> missingIntent e s opId"
    and result: "\<And>opId. truthy (evOpId e) = Some opId \<Longrightarrow> \<not> repeatedResult e s opId"
  shows "okNext (db_journal s) (journalRow n e v)"
  unfolding okNext_def
proof (intro allI impI)
  fix opId
  assume op: "ev_operationId (journalRow n e v) = Some opId"
    and req: "requiresIntent (ev_type (journalRow n e v))" and ex: "\<not> exemptRow (journalRow n e v)"
  have name: "env_event v = evName e"
    using createEventEnvelope_Inr(1) [OF v] by (simp add: envelopeOf_def)
  have tr: "truthy (evOpId e) = Some opId"
    using op unfolding evOpId_def by (intro truthy_trans) (simp add: journalRow_def)
  have req': "requiresIntent (evName e)"
    using req by (simp add: journalRow_def name)
  have pic: "\<not> preIntentCancelled e"
  proof
    assume pc: "preIntentCancelled e"
    have "env_sensitivity v = SensSecret \<or> jfield (env_payload v) ''preIntentCancelled'' = JBool True"
      by (rule preIntent_redacted [OF pc]) (use createEventEnvelope_Inr(2) [OF v] in \<open>simp add: envelopeOf_def\<close>)
    moreover have "evName e = ''OPERATION_RESULT_RECORDED''"
      using pc unfolding preIntentCancelled_def by blast
    ultimately show False
      using ex unfolding exemptRow_def by (simp add: journalRow_def name)
  qed
  have "intentRecorded opId s"
    using intent [OF tr] req' pic requiresIntent_exempt by metis
  moreover have "evName e = ''OPERATION_RESULT_RECORDED'' \<Longrightarrow> \<not> resultRecorded opId s"
    using result [OF tr] pic by blast
  ultimately show "eventIn (db_journal s) opId ''OPERATION_INTENT_REGISTERED''
      \<and> (ev_type (journalRow n e v) = ''OPERATION_RESULT_RECORDED'' \<longrightarrow>
          \<not> eventIn (db_journal s) opId ''OPERATION_RESULT_RECORDED'')"
    unfolding hasEvent_eventIn by (simp add: journalRow_def name)
qed

text \<open>An event either is refused and changes nothing, or is appended as an admissible row.\<close>

lemma recordEvent_cases:
  obtains (refused) err where "recordEventAndTransitionState e s = (Inl err, s)"
  | (appended) v where "verifyEpochFencing (ev_domainId e) s = (Inr (), s)"
      "createEventEnvelope (ev_timestamp e) (envelopeOf e) = Inr v"
      "okNext (db_journal s) (journalRow (db_seq s + 1) e v)"
      "recordEventAndTransitionState e s = (Inr (db_seq s + 1),
         s\<lparr>db_journal := db_journal s @ [journalRow (db_seq s + 1) e v], db_seq := db_seq s + 1\<rparr>)"
proof (cases "verifyEpochFencing (ev_domainId e) s = (Inr (), s)")
  case False
  then obtain err where "verifyEpochFencing (ev_domainId e) s = (Inl err, s)"
    using verifyEpochFencing_cases by blast
  then have "recordEventAndTransitionState e s = (Inl err, s)"
    unfolding recordEventAndTransitionState_def by (rule thenDo_simps(1))
  then show ?thesis by (rule refused)
next
  case True
  note run = recordEvent_run [OF True]
  let ?missing = "case truthy (evOpId e) of None \<Rightarrow> False | Some opId \<Rightarrow> missingIntent e s opId"
  let ?repeated = "case truthy (evOpId e) of None \<Rightarrow> False | Some opId \<Rightarrow> repeatedResult e s opId"
  consider "?missing" | "\<not> ?missing" "?repeated" | "\<not> ?missing" "\<not> ?repeated" by blast
  then show ?thesis
  proof cases
    case 1
    then show ?thesis using refused run by (simp only: if_True)
  next
    case 2
    then show ?thesis using refused run by (simp only: if_True if_False)
  next
    case 3
    show ?thesis
    proof (cases "createEventEnvelope (ev_timestamp e) (envelopeOf e)")
      case (Inl err)
      then show ?thesis using refused run 3 by (simp only: if_False sum.case)
    next
      case (Inr v)
      have "okNext (db_journal s) (journalRow (db_seq s + 1) e v)"
        by (rule journalRow_okNext [OF Inr]) (use 3 in \<open>simp_all only: option.case not_False_eq_True\<close>)
      with True Inr 3 run show ?thesis by (intro appended) (simp_all only: if_False sum.case)
    qed
  qed
qed

end
