(* ===== verification/StoreMethods.thy ===== *)
theory StoreMethods
  imports StoreLaws
begin

text \<open>
  The methods of the store satisfy the contract \<open>store_method\<close> of \<open>StoreLaws\<close>: one
  preservation lemma per method in the calculus of \<open>preserves\<close>, and an interpretation of
  the locale on it.
\<close>

section \<open>Steps that write one table\<close>

lemma evolved_step: "evolved s0 s \<Longrightarrow> storeOk t \<Longrightarrow> storeLe s t \<Longrightarrow> evolved s0 t"
  unfolding evolved_def using storeLe_trans by blast

text \<open>A method that reads the state before it acts is, at each state, some keeping method.\<close>

lemma pres_at:
  assumes "\<And>s. I s \<Longrightarrow> \<exists>m'. m s = m' s \<and> preserves I m'"
  shows "preserves I m"
  by (rule preservesI) (metis assms preserves_snd)

lemma snd_at: "m s = m' s \<Longrightarrow> preserves I m' \<Longrightarrow> I s \<Longrightarrow> I (snd (m s))"
  by (simp add: preserves_snd)

lemma pres_fail [pres]: "preserves I (\<lambda>s. (r, s))"
  by (simp add: preserves_def)

lemma evolved_append:
  assumes s: "evolved s0 s" and "okNext (db_journal s) e" and "ev_seq e = db_seq s + 1" and "cleanRow e"
  shows "evolved s0 (s\<lparr>db_journal := db_journal s @ [e], db_seq := db_seq s + 1\<rparr>)"
proof (rule evolved_step [OF s])
  show "storeOk (s\<lparr>db_journal := db_journal s @ [e], db_seq := db_seq s + 1\<rparr>)"
    using evolved_ok [OF s] assms by (auto simp: storeOk_def journalOk_snoc sorted_wrt_append)
  show "storeLe s (s\<lparr>db_journal := db_journal s @ [e], db_seq := db_seq s + 1\<rparr>)"
    by (auto simp: storeLe_def getOperation_def getRun_def getOwner_def)
qed

lemma pres_recordTransition [pres]: "preserves (evolved s0) (recordEventAndTransitionState e)"
proof (rule preservesI)
  fix s assume s: "evolved s0 s"
  show "evolved s0 (snd (recordEventAndTransitionState e s))"
  proof (cases rule: recordEvent_cases [of e s])
    case (refused err)
    then show ?thesis using s by (simp only: snd_conv)
  next
    case (appended v)
    then show ?thesis using evolved_append [OF s appended(3) _ journalRow_clean [OF appended(2)]]
      by (simp add: journalRow_def)
  qed
qed

lemma pres_recordEvent [pres]: "preserves (evolved s0) (recordEvent e)"
  unfolding recordEvent_def by (intro pres)

lemma pres_recordEventEnvelope [pres]: "preserves (evolved s0) (recordEventEnvelope now i)"
  unfolding recordEventEnvelope_def by (intro pres)

text \<open>Writes to the tables that the order does not constrain.\<close>

lemma pres_frame [pres]:
  assumes "\<And>s. db_journal (f s) = db_journal s" "\<And>s. db_seq (f s) = db_seq s"
    "\<And>s. db_runs (f s) = db_runs s" "\<And>s. db_operations (f s) = db_operations s"
    "\<And>s. db_owners (f s) = db_owners s" "\<And>s. db_leases (f s) = db_leases s"
  shows "preserves (evolved s0) (modify f)"
  by (rule pres_modify, rule evolved_frame) (use assms storeOk_leases evolved_ok in simp_all)

lemma pres_delLeases [pres]:
  "preserves (evolved s0) (modify (\<lambda>s. s\<lparr>db_leases := delRows p (db_leases s)\<rparr>))"
  by (rule pres_modify, rule evolved_frame) (simp_all add: distinct_delRows storeOk_leases evolved_ok)

lemma pres_deleteLeases [pres]: "preserves (evolved s0) (deleteLeases opId)"
  unfolding deleteLeases_def by (rule pres_delLeases)

lemma pres_releaseResourceLease [pres]: "preserves (evolved s0) (releaseResourceLease opId res)"
  unfolding releaseResourceLease_def by (intro pres)

lemma pres_modifyOperation [pres]:
  assumes "\<And>r. op_id (f r) = op_id r"
  shows "preserves (evolved s0) (modifyOperation opId f)"
  unfolding modifyOperation_def
  by (rule pres_modify, rule evolved_frame) (simp_all add: map_key_updRow assms storeOk_leases evolved_ok)

lemma pres_insertLease [pres]: "preserves (evolved s0) (insertLease l)"
proof (rule preservesI)
  fix s assume s: "evolved s0 s"
  show "evolved s0 (snd (insertLease l s))"
  proof (cases "leaseKey l \<in> leaseKey ` set (db_leases s)")
    case True
    then have "snd (insertLease l s) = s"
      by (auto simp: insertLease_def list_ex_iff leaseKey_def)
    with s show ?thesis by simp
  next
    case False
    then have "snd (insertLease l s) = s\<lparr>db_leases := db_leases s @ [l]\<rparr>"
      by (auto simp: insertLease_def list_ex_iff leaseKey_def image_iff)
    with False show ?thesis
      by (simp only:) (rule evolved_frame [OF s], simp_all add: storeOk_leases evolved_ok [OF s])
  qed
qed

lemma pres_insertOperation [pres]: "preserves (evolved s0) (insertOperation row)"
proof (rule preservesI)
  fix s assume s: "evolved s0 s"
  show "evolved s0 (snd (insertOperation row s))"
  proof (cases "getOperation (op_id row) s")
    case (Some r)
    with s show ?thesis by (simp add: insertOperation_def)
  next
    case None
    let ?t = "s\<lparr>db_operations := db_operations s @ [row]\<rparr>"
    have "storeOk ?t"
      using evolved_ok [OF s] None by (auto simp: storeOk_def getOperation_def rowOf_None_iff)
    moreover have "storeLe s ?t"
      by (auto simp: storeLe_def getOperation_def getRun_def getOwner_def rowOf_append split: option.splits)
    ultimately show ?thesis
      using evolved_step [OF s] None by (simp add: insertOperation_def)
  qed
qed

section \<open>Runs\<close>

text \<open>A write of run rows is admissible when terminal runs keep their status.\<close>

lemma evolved_updRun:
  assumes s: "evolved s0 s" and key: "\<And>r. run_id (f r) = run_id r"
    and open_run: "\<And>r. getRun runId s = Some r \<Longrightarrow> terminalRun (run_status r) \<Longrightarrow> run_status (f r) = run_status r"
  shows "evolved s0 (s\<lparr>db_runs := updRow run_id runId f (db_runs s)\<rparr>)"
proof (rule evolved_step [OF s])
  let ?t = "s\<lparr>db_runs := updRow run_id runId f (db_runs s)\<rparr>"
  show "storeOk ?t"
    using evolved_ok [OF s] by (simp add: storeOk_def map_key_updRow key)
  have "getRun j ?t = (if j = runId then map_option f (getRun j s) else getRun j s)" for j
    by (simp add: getRun_def rowOf_updRow key)
  then show "storeLe s ?t"
    using open_run by (auto simp: storeLe_def getOperation_def getOwner_def)
qed

lemma pres_bindRun [pres]:
  "preserves (evolved s0) (modify (\<lambda>s. s\<lparr>db_runs := updRow run_id runId
      (\<lambda>r. r\<lparr>run_configSnapshot := g r\<rparr>) (db_runs s)\<rparr>))"
  by (rule pres_modify, rule evolved_updRun) simp_all

lemma pres_bindRunConfigSnapshot [pres]: "preserves (evolved s0) (bindRunConfigSnapshot H runId c)"
  unfolding bindRunConfigSnapshot_def
proof (intro pres_thenDo pres_liftSum pres_atomically preservesI)
  fix s assume s: "evolved s0 s"
  show "evolved s0 (snd (case getRun runId s of None \<Rightarrow> (Inl (RunNotFound runId), s)
      | Some run \<Rightarrow> (case run_configSnapshot run of
          Some b \<Rightarrow> (assertRequestConfigSnapshot H b, s)
        | None \<Rightarrow> thenDo (verifyEpochFencing (run_domainId run)) (modify (\<lambda>s.
            s\<lparr>db_runs := updRow run_id runId (\<lambda>r. r\<lparr>run_configSnapshot := coalesce (run_configSnapshot r) (Some c)\<rparr>)
               (db_runs s)\<rparr>)) s)))"
  proof (cases "getRun runId s")
    case (Some run)
    have "preserves (evolved s0) (thenDo (verifyEpochFencing (run_domainId run)) (modify (\<lambda>s. s\<lparr>db_runs := updRow run_id runId
      (\<lambda>r. r\<lparr>run_configSnapshot := coalesce (run_configSnapshot r) (Some c)\<rparr>) (db_runs s)\<rparr>)))"
      by (intro pres_thenDo pres_verify pres_bindRun)
    with Some s show ?thesis
      by (cases "run_configSnapshot run") (simp_all add: preserves_snd)
  qed (use s in simp)
qed


lemma pres_assertRunOpen [pres]: "preserves I (assertRunOpen runId)"
  by (simp add: preserves_def assertRunOpen_def split: option.splits)

lemma evolved_setRunStatus:
  assumes "evolved s0 s" and "\<And>r. getRun runId s = Some r \<Longrightarrow> \<not> terminalRun (run_status r)"
  shows "evolved s0 (snd (setRunStatus runId st reason endedAt s))"
  unfolding setRunStatus_def modify_run snd_conv
  by (rule evolved_updRun [OF assms(1)]) (use assms(2) in simp_all)

lemma evolved_verified:
  "evolved s0 s \<Longrightarrow> evolved s0 (snd (m s)) \<Longrightarrow> evolved s0 (snd (thenDo (verifyEpochFencing d) m s))"
  using verifyEpochFencing_cases [of d s] by auto

lemma evolved_atomically: "evolved s0 s \<Longrightarrow> evolved s0 (snd (m s)) \<Longrightarrow> evolved s0 (snd (atomically m s))"
  by (auto simp: atomically_def split: prod.splits sum.splits)

lemma evolved_thenDo:
  "evolved s0 (snd (m s)) \<Longrightarrow> preserves (evolved s0) n \<Longrightarrow> evolved s0 (snd (thenDo m n s))"
  by (auto simp: thenDo_def andThen_def preserves_snd split: prod.splits sum.splits)

lemma pres_updateRunStatus [pres]: "preserves (evolved s0) (updateRunStatus now runId st reason endedAt)"
  unfolding updateRunStatus_def
proof (rule pres_atomically, rule preservesI)
  fix s assume s: "evolved s0 s"
  show "evolved s0 (snd (case getRun runId s of
        None \<Rightarrow> setRunStatus runId st reason endedAt s
      | Some run \<Rightarrow> thenDo (verifyEpochFencing (run_domainId run))
          (if terminalRun (run_status run)
           then guardE (run_status run = st) (RunTransitionRefused runId (run_status run) st)
           else thenDo (setRunStatus runId st reason endedAt)
             (recordEvent (mkEvent (run_domainId run) (Some runId) None ''RUN_STATUS_TRANSITION''
                (JObj [(''status'', JStr (runStatusStr st)),
                       (''terminationReason'', optJ (\<lambda>t. JStr (reasonStr t)) reason),
                       (''endedAt'', optJ JNum endedAt)]) now))) s))"
  proof (cases "getRun runId s")
    case None
    then show ?thesis by simp (rule evolved_setRunStatus [OF s], simp)
  next
    case (Some run)
    show ?thesis
    proof (cases "terminalRun (run_status run)")
      case True
      with Some s show ?thesis by (simp add: evolved_verified)
    next
      case False
      with Some s have "evolved s0 (snd (setRunStatus runId st reason endedAt s))"
        by (intro evolved_setRunStatus) auto
      with Some s False show ?thesis
        by (simp add: evolved_verified evolved_thenDo pres_recordEvent)
    qed
  qed
qed

lemma evolved_addRun:
  assumes s: "evolved s0 s" and "getRun (run_id r) s = None"
  shows "evolved s0 (s\<lparr>db_runs := db_runs s @ [r]\<rparr>)"
proof (rule evolved_step [OF s])
  show "storeOk (s\<lparr>db_runs := db_runs s @ [r]\<rparr>)"
    using evolved_ok [OF s] assms(2) by (auto simp: storeOk_def getRun_def rowOf_None_iff)
  show "storeLe s (s\<lparr>db_runs := db_runs s @ [r]\<rparr>)"
    by (auto simp: storeLe_def getOperation_def getRun_def getOwner_def rowOf_append split: option.splits)
qed

lemma pres_saveRun [pres]: "preserves (evolved s0) (saveRun H run)"
proof (rule preservesI)
  fix s assume s: "evolved s0 s"
  let ?m = "\<lambda>s. let existing = getRun (run_id run) s;
         white = sanitizeConfigSnapshot (Some (run_configSnapshotWhiteList run))
     in (case existing of
         Some ex \<Rightarrow>
           if terminalRun (run_status ex) \<and> run_status ex \<noteq> run_status run
           then (Inl (RunTransitionRefused (run_id run) (run_status ex) (run_status run)), s)
           else thenDo (liftSum (assertConfigOpt H (run_configSnapshot run))) (modify (\<lambda>s.
             s\<lparr>db_runs := updRow run_id (run_id run) (\<lambda>r. r\<lparr>run_status := run_status run,
                 run_terminationReason := run_terminationReason run, run_endedAt := run_endedAt run,
                 run_configSnapshotWhiteList := white,
                 run_configSnapshot := coalesce (run_configSnapshot r) (run_configSnapshot run)\<rparr>)
               (db_runs s)\<rparr>)) s
       | None \<Rightarrow> thenDo (liftSum (assertConfigOpt H (run_configSnapshot run)))
           (thenDo (guardE (rowOf task_id (run_taskId run) (db_tasks s) \<noteq> None)
               (SqlConstraintError ''FOREIGN KEY runs.task_id''))
             (modify (\<lambda>s. s\<lparr>db_runs := db_runs s @ [run\<lparr>run_configSnapshotWhiteList := white\<rparr>]\<rparr>))) s)"
  have "evolved s0 (snd (?m s))"
  proof (cases "getRun (run_id run) s")
    case None
    then have "evolved s0 (s\<lparr>db_runs := db_runs s @ [run\<lparr>run_configSnapshotWhiteList := w\<rparr>]\<rparr>)" for w
      by (intro evolved_addRun [OF s]) simp
    with None s show ?thesis
      by (cases "assertConfigOpt H (run_configSnapshot run)") (simp_all add: thenDo_def andThen_def Let_def)
  next
    case (Some ex)
    show ?thesis
    proof (cases "terminalRun (run_status ex) \<and> run_status ex \<noteq> run_status run")
      case False
      with Some have "evolved s0 (s\<lparr>db_runs := updRow run_id (run_id run) (\<lambda>r. r\<lparr>run_status := run_status run,
                 run_terminationReason := run_terminationReason run, run_endedAt := run_endedAt run,
                 run_configSnapshotWhiteList := w,
                 run_configSnapshot := coalesce (run_configSnapshot r) (run_configSnapshot run)\<rparr>)
               (db_runs s)\<rparr>)" for w
        by (intro evolved_updRun [OF s]) auto
      with Some s False show ?thesis
        by (cases "assertConfigOpt H (run_configSnapshot run)") (simp_all add: thenDo_def andThen_def Let_def)
    qed (use Some s in simp)
  qed
  then show "evolved s0 (snd (saveRun H run s))"
    unfolding saveRun_def by (rule evolved_verified [OF s])
qed


text \<open>A method that looks its row up: the failing branch leaves the state, the other keeps it.\<close>

lemma evolved_lookup:
  assumes "evolved s0 s" and "\<And>y. x = Some y \<Longrightarrow> preserves (evolved s0) (f y)"
  shows "evolved s0 (snd (case x of None \<Rightarrow> (Inl e, s) | Some y \<Rightarrow> f y s))"
  using assms by (cases x) (simp_all add: preserves_snd)

lemma pres_lookup:
  assumes "\<And>s y. lk s = Some y \<Longrightarrow> preserves (evolved s0) (f s y)"
  shows "preserves (evolved s0) (atomically (\<lambda>s. case lk s of None \<Rightarrow> (Inl e, s) | Some y \<Rightarrow> f s y s))"
  by (rule pres_atomically, rule preservesI) (rule evolved_lookup, assumption, rule assms)

lemma pres_reportRunFailed [pres]: "preserves (evolved s0) (reportRunFailed now runId reason)"
  unfolding reportRunFailed_def by (rule pres_lookup) (intro pres)

lemma pres_reportRunCancelled [pres]: "preserves (evolved s0) (reportRunCancelled now runId reason)"
  unfolding reportRunCancelled_def by (rule pres_lookup) (intro pres)

lemma pres_case_list [pres]:
  "preserves I m \<Longrightarrow> (\<And>y ys. preserves I (f y ys)) \<Longrightarrow> preserves I (case xs of [] \<Rightarrow> m | y # ys \<Rightarrow> f y ys)"
  by (cases xs) simp_all

lemma pres_reportRunSucceeded [pres]: "preserves (evolved s0) (reportRunSucceeded now runId)"
  unfolding reportRunSucceeded_def Let_def by (rule pres_lookup) (intro pres)

section \<open>Operations\<close>

lemma pres_registerOperationIntent [pres]: "preserves (evolved s0) (registerOperationIntent H now op d)"
  unfolding registerOperationIntent_def by (intro pres)

lemma pres_recordPreIntentCancelled [pres]:
  "preserves (evolved s0) (recordPreIntentCancelledOperation H op d result)"
proof -
  have "preserves (evolved s0) (\<lambda>s. if getOperation opId s \<noteq> None then (Inl (OperationExists opId), s) else (Inr (), s))" for opId
    by (simp add: preserves_def)
  then show ?thesis
    unfolding recordPreIntentCancelledOperation_def by (intro pres)
qed

lemma pres_recordOperationResult [pres]: "preserves (evolved s0) (recordOperationResult opId result rel)"
  unfolding recordOperationResult_def by (rule pres_lookup) (intro pres, simp)

lemma pres_updateRecoveryEvidence [pres]: "preserves (evolved s0) (updateRecoveryEvidence opId p)"
  unfolding updateRecoveryEvidence_def by (rule pres_lookup) (intro pres, simp)

lemma pres_updateOperationResult [pres]: "preserves (evolved s0) (updateOperationResult opId result)"
  unfolding updateOperationResult_def by (rule pres_lookup) (intro pres, simp)

lemma pres_updateOperationStatus [pres]:
  "preserves (evolved s0) (updateOperationStatus now opId status identity outputRef)"
  unfolding updateOperationStatus_def
proof (rule pres_atomically, rule preservesI)
  fix s assume s: "evolved s0 s"
  show "evolved s0 (snd (let op = getOperation opId s;
         write = modifyOperation opId (\<lambda>r. r\<lparr>op_status := status,
             op_processIdentity := coalesce identity (op_processIdentity r),
             op_outputRef := coalesce (truthy outputRef) (op_outputRef r),
             op_recoveryEvidence := coalesce
               (case identity of None \<Rightarrow> None
                | Some i \<Rightarrow> withRecoveryIdentity now (Option.bind op op_recoveryEvidence) i)
               (op_recoveryEvidence r)\<rparr>)
     in (case op of None \<Rightarrow> write s
         | Some o' \<Rightarrow> thenDo (verifyEpochFencing (op_domainId o')) (thenDo write
             (recordEvent (mkEvent (op_domainId o') (Some (op_runId o')) (Some opId)
                ''OPERATION_STATUS_TRANSITION''
                (JObj [(''status'', JStr (opStatusStr status)),
                       (''processIdentity'', optJ identityJson identity),
                       (''outputRef'', optJ JStr outputRef)]) now))) s)))"
    unfolding Let_def
    by (cases "getOperation opId s") (simp_all add: s preserves_snd pres_modifyOperation pres_thenDo pres_verify pres_recordEvent)
qed

lemma pres_recordReplay [pres]: "preserves (evolved s0) (recordReplay now d opId mode runId)"
proof (rule preservesI)
  fix s assume "evolved s0 s"
  then show "evolved s0 (snd (recordReplay now d opId mode runId s))"
    unfolding recordReplay_def by (intro evolved_verified) (simp_all add: Let_def preserves_snd pres_recordEvent)
qed


section \<open>Owners\<close>

lemma evolved_owners:
  assumes s: "evolved s0 s" and "map own_domainId os = map own_domainId (db_owners s)"
    and mono: "\<And>d ow. getOwner d s = Some ow \<Longrightarrow> \<exists>ow'. rowOf own_domainId d os = Some ow' \<and> own_epoch ow \<le> own_epoch ow'"
  shows "evolved s0 (s\<lparr>db_owners := os, st_currentEpoch := e\<rparr>)"
proof (rule evolved_step [OF s])
  show "storeOk (s\<lparr>db_owners := os, st_currentEpoch := e\<rparr>)"
    using evolved_ok [OF s] assms(2) by (simp add: storeOk_def)
  show "storeLe s (s\<lparr>db_owners := os, st_currentEpoch := e\<rparr>)"
    using mono by (simp add: storeLe_def getOperation_def getRun_def getOwner_def)
qed

lemma evolved_newOwner:
  assumes s: "evolved s0 s" and "getOwner (own_domainId r) s = None"
  shows "evolved s0 (s\<lparr>db_owners := db_owners s @ [r], st_currentEpoch := e\<rparr>)"
proof (rule evolved_step [OF s])
  show "storeOk (s\<lparr>db_owners := db_owners s @ [r], st_currentEpoch := e\<rparr>)"
    using evolved_ok [OF s] assms(2) by (auto simp: storeOk_def getOwner_def rowOf_None_iff)
  show "storeLe s (s\<lparr>db_owners := db_owners s @ [r], st_currentEpoch := e\<rparr>)"
    by (auto simp: storeLe_def getOperation_def getRun_def getOwner_def rowOf_append split: option.splits)
qed

lemma rowOf_setRow:
  "key r = k \<Longrightarrow> rowOf key j (updRow key k (\<lambda>_. r) rows) =
     (if j = k then map_option (\<lambda>_. r) (rowOf key j rows) else rowOf key j rows)"
  by (induction rows) (auto simp: updRow_def rowOf_def)

lemma map_key_setRow: "key r = k \<Longrightarrow> map key (updRow key k (\<lambda>_. r) rows) = map key rows"
  by (induction rows) (auto simp: updRow_def)

lemma evolved_setOwner:
  assumes s: "evolved s0 s" and old: "getOwner d s = Some old" and r: "own_domainId r = d" "own_epoch old \<le> own_epoch r"
  shows "evolved s0 (s\<lparr>db_owners := updRow own_domainId d (\<lambda>_. r) (db_owners s), st_currentEpoch := e\<rparr>)"
proof (rule evolved_owners [OF s])
  show "map own_domainId (updRow own_domainId d (\<lambda>_. r) (db_owners s)) = map own_domainId (db_owners s)"
    by (rule map_key_setRow) (rule r(1))
  fix d' ow assume "getOwner d' s = Some ow"
  then show "\<exists>ow'. rowOf own_domainId d' (updRow own_domainId d (\<lambda>_. r) (db_owners s)) = Some ow' \<and> own_epoch ow \<le> own_epoch ow'"
    using old r by (auto simp: rowOf_setRow getOwner_def)
qed

lemma pres_acquireOwnerLease [pres]:
  "preserves (evolved s0) (acquireOwnerLease alive now d ownerId host ttl force)"
proof (rule preservesI)
  fix s assume s: "evolved s0 s"
  show "evolved s0 (snd (acquireOwnerLease alive now d ownerId host ttl force s))"
  proof (cases "getOwner d s")
    case None
    then show ?thesis
      using evolved_newOwner [OF s, of "\<lparr>own_domainId = d, own_ownerId = ownerId, own_epoch = 1,
        own_heartbeatAt = now, own_expiresAt = now + ttl, own_hostname = host\<rparr>" "Some 1"]
      by (simp add: acquireOwnerLease_def atomically_def Let_def)
  next
    case (Some old)
    have "evolved s0 (s\<lparr>db_owners := updRow own_domainId d (\<lambda>_. \<lparr>own_domainId = d, own_ownerId = i,
        own_epoch = n, own_heartbeatAt = now, own_expiresAt = now + ttl, own_hostname = host\<rparr>) (db_owners s),
        st_currentEpoch := e\<rparr>)" if "own_epoch old \<le> n" for i n e
      by (rule evolved_setOwner [OF s Some]) (use that in simp_all)
    with Some s show ?thesis
      by (simp add: acquireOwnerLease_def atomically_def Let_def)
  qed
qed

lemma pres_releaseOwnerLease [pres]: "preserves (evolved s0) (releaseOwnerLease d ownerId)"
  unfolding releaseOwnerLease_def
proof (rule pres_modify)
  fix s assume s: "evolved s0 s"
  let ?f = "\<lambda>o'. if own_domainId o' = d \<and> own_ownerId o' = ownerId then o'\<lparr>own_expiresAt := 0\<rparr> else o'"
  have "rowOf own_domainId k (map ?f rows) = map_option ?f (rowOf own_domainId k rows)" for k and rows :: "OwnerRecord list"
    by (induction rows) auto
  then have "evolved s0 (s\<lparr>db_owners := map ?f (db_owners s), st_currentEpoch := st_currentEpoch s\<rparr>)"
    by (intro evolved_owners [OF s]) (auto simp: getOwner_def)
  then show "evolved s0 (s\<lparr>db_owners := map ?f (db_owners s)\<rparr>)" by simp
qed

lemma pres_fence [pres]: "preserves (evolved s0) fence"
  unfolding fence_def by (rule pres_frame) simp_all

section \<open>Tasks, artifacts, snapshots and capabilities\<close>

lemma pres_saveTask [pres]: "preserves (evolved s0) (saveTask t)"
  unfolding saveTask_def by (intro pres_thenDo pres_verify pres_frame) simp_all

lemma pres_recordArtifact [pres]: "preserves (evolved s0) (recordArtifact r)"
proof -
  have "preserves (evolved s0) (\<lambda>s. if p s then (Inl e, s) else (Inr (), s\<lparr>db_artifacts := db_artifacts s @ [r]\<rparr>))" for p e
  proof (rule preservesI)
    fix s assume "evolved s0 s"
    then show "evolved s0 (snd (if p s then (Inl e, s) else (Inr (), s\<lparr>db_artifacts := db_artifacts s @ [r]\<rparr>)))"
      using preserves_snd [OF pres_frame [of "\<lambda>s. s\<lparr>db_artifacts := db_artifacts s @ [r]\<rparr>"]] by simp
  qed
  then show ?thesis
    unfolding recordArtifact_def by (intro pres_atomically pres_thenDo pres_verify)
qed

lemma pres_tables [pres]:
  "preserves (evolved s0) (finalizeArtifact d ident sha bytes)"
  "preserves (evolved s0) (markArtifactDeleted now d ident why)"
  "preserves (evolved s0) (recordSnapshot sn)"
  "preserves (evolved s0) (deleteSnapshot snId)"
  "preserves (evolved s0) (recordCapability c)"
  "preserves (evolved s0) (storeRevokeCapability capId d at)"
  unfolding finalizeArtifact_def markArtifactDeleted_def recordSnapshot_def deleteSnapshot_def
    recordCapability_def storeRevokeCapability_def
  by (intro pres_atomically pres_thenDo pres_verify pres_frame; simp)+

section \<open>The interpretations\<close>

interpretation st_fence: store_method fence by (rule store_methodI) (rule pres)
interpretation st_acquire: store_method "acquireOwnerLease alive now d ownerId host ttl force"
  for alive now d ownerId host ttl force by (rule store_methodI) (rule pres)
interpretation st_release: store_method "releaseOwnerLease d ownerId" for d ownerId
  by (rule store_methodI) (rule pres)
interpretation st_event: store_method "recordEvent e" for e by (rule store_methodI) (rule pres)
interpretation st_envelope: store_method "recordEventEnvelope now i" for now i
  by (rule store_methodI) (rule pres)
interpretation st_saveTask: store_method "saveTask t" for t by (rule store_methodI) (rule pres)
interpretation st_saveRun: store_method "saveRun H run" for H run by (rule store_methodI) (rule pres)
interpretation st_bind: store_method "bindRunConfigSnapshot H runId c" for H runId c
  by (rule store_methodI) (rule pres)
interpretation st_runStatus: store_method "updateRunStatus now runId st reason endedAt"
  for now runId st reason endedAt by (rule store_methodI) (rule pres)
interpretation st_succeeded: store_method "reportRunSucceeded now runId" for now runId
  by (rule store_methodI) (rule pres)
interpretation st_failed: store_method "reportRunFailed now runId reason" for now runId reason
  by (rule store_methodI) (rule pres)
interpretation st_cancelled: store_method "reportRunCancelled now runId reason" for now runId reason
  by (rule store_methodI) (rule pres)
interpretation st_intent: store_method "registerOperationIntent H now op d" for H now op d
  by (rule store_methodI) (rule pres)
interpretation st_preIntent: store_method "recordPreIntentCancelledOperation H op d result"
  for H op d result by (rule store_methodI) (rule pres)
interpretation st_opStatus: store_method "updateOperationStatus now opId status identity outputRef"
  for now opId status identity outputRef by (rule store_methodI) (rule pres)
interpretation st_evidence: store_method "updateRecoveryEvidence opId p" for opId p
  by (rule store_methodI) (rule pres)
interpretation st_opResult: store_method "updateOperationResult opId result" for opId result
  by (rule store_methodI) (rule pres)
interpretation st_result: store_method "recordOperationResult opId result rel" for opId result rel
  by (rule store_methodI) (rule pres)
interpretation st_replay: store_method "recordReplay now d opId mode runId" for now d opId mode runId
  by (rule store_methodI) (rule pres)
interpretation st_unlease: store_method "releaseResourceLease opId res" for opId res
  by (rule store_methodI) (rule pres)
interpretation st_artifact: store_method "recordArtifact r" for r by (rule store_methodI) (rule pres)
interpretation st_finalArtifact: store_method "finalizeArtifact d ident sha bytes" for d ident sha bytes
  by (rule store_methodI) (rule pres)
interpretation st_delArtifact: store_method "markArtifactDeleted now d ident why" for now d ident why
  by (rule store_methodI) (rule pres)
interpretation st_snapshot: store_method "recordSnapshot sn" for sn by (rule store_methodI) (rule pres)
interpretation st_delSnapshot: store_method "deleteSnapshot snId" for snId
  by (rule store_methodI) (rule pres)
interpretation st_capability: store_method "recordCapability c" for c by (rule store_methodI) (rule pres)
interpretation st_revoke: store_method "storeRevokeCapability capId d at" for capId d at
  by (rule store_methodI) (rule pres)

end
