(* ===== verification/Demo.thy ===== *)
theory Demo
  imports StoreMethods
begin

text \<open>
  A concrete history of one domain \<open>d\<close>: an owner acquires it, a task and a run are saved, an
  operation \<open>op1\<close> over the resource \<open>/w\<close> is registered and its result recorded. The
  witnesses of the properties are evaluated on its states.
\<close>

definition demoHash :: "json \<Rightarrow> string" where
  "demoHash j = replicate 64 (CHR ''a'')"

definition demoTask :: Task where
  "demoTask = \<lparr>task_id = ''t'', task_domainId = ''d'', task_name = ''n'', task_createdAt = 1, task_meta = None\<rparr>"

definition demoRun :: Run where
  "demoRun = \<lparr>run_id = ''r'', run_taskId = ''t'', run_domainId = ''d'', run_owner = ''o'', run_status = RRunning,
     run_terminationReason = None, run_startedAt = 1, run_endedAt = None,
     run_configSnapshotWhiteList = [], run_configSnapshot = None\<rparr>"

definition demoOp :: Operation where
  "demoOp = \<lparr>op_id = ''op1'', op_runId = ''r'', op_domainId = ''d'', op_kind = KProcess, op_name = ''n'',
     op_inputFingerprint = ''f'', op_requiredResources = [''/w''], op_mutationRoots = None,
     op_capabilityId = None, op_timeoutMs = None, op_resourceBudget = None, op_spawnGated = None,
     op_recoveryEvidence = None, op_configSnapshot = None, op_outputRef = None, op_status = OPending,
     op_result = None, op_processIdentity = None\<rparr>"

definition demoResult :: OperationResult where
  "demoResult = ResGeneric \<lparr>res_durationMs = 1, res_completedAt = 9, res_replayed = False, res_runId = Some ''r'',
     res_capabilityId = None, gr_status = PSucceeded, gr_outputRef = None, gr_errorMessage = None\<rparr>"

definition demoLost :: OperationResult where
  "demoLost = ResIndeterminate \<lparr>res_durationMs = 1, res_completedAt = 9, res_replayed = False, res_runId = Some ''r'',
     res_capabilityId = None, ir_terminationReason = Some TExitUnobserved, ir_resourceSamplingError = None,
     ir_reason = ''lost'', ir_recoveryGuidance = ''adjudicate'', ir_adjudication = None\<rparr>"

definition demoOwner :: OwnerRecord where
  "demoOwner = \<lparr>own_domainId = ''d'', own_ownerId = ''owner-7-1'', own_epoch = 1,
      own_heartbeatAt = 10, own_expiresAt = 110, own_hostname = ''h''\<rparr>"

definition demoEvent :: "int \<Rightarrow> string \<Rightarrow> json \<Rightarrow> JournalEvent" where
  "demoEvent n type p = \<lparr>ev_seq = n, ev_domainId = ''d'', ev_runId = Some ''r'', ev_operationId = Some ''op1'',
     ev_type = type, ev_payload = p, ev_timestamp = 5, ev_schemaVersion = Some ''xio/event/1.0'',
     ev_requestId = None, ev_programId = None, ev_instructionId = None, ev_opId = Some ''op1'',
     ev_event = Some type, ev_sensitivity = Some SensInternal, ev_createdAt = Some 5\<rparr>"

definition demoIntent :: JournalEvent where
  "demoIntent = demoEvent 1 ''OPERATION_INTENT_REGISTERED''
     (JObj [(''kind'', JStr ''process''), (''name'', JStr ''n''), (''requiredResources'', JArr [JStr ''/w'']),
            (''inputFingerprint'', JStr ''f'')])"

definition demoLease :: ResourceLease where
  "demoLease = \<lparr>lease_resourceId = ''/w'', lease_operationId = ''op1'', lease_domainId = ''d'',
     lease_acquiredAt = 5, lease_budget = None\<rparr>"

text \<open>The database before the operation, and with the operation in flight.\<close>

definition demo3 :: store where
  "demo3 = \<lparr>db_owners = [demoOwner], db_tasks = [demoTask], db_runs = [demoRun], db_operations = [],
     db_leases = [], db_journal = [], db_seq = 0, db_snapshots = [], db_capabilities = [], db_artifacts = [],
     st_currentEpoch = Some 1\<rparr>"

definition demo4 :: store where
  "demo4 = demo3\<lparr>db_operations := [demoOp\<lparr>op_status := OIntentRegistered\<rparr>], db_leases := [demoLease],
     db_journal := [demoIntent], db_seq := 1\<rparr>"

definition demoResultEvent :: JournalEvent where
  "demoResultEvent = (demoEvent 2 ''OPERATION_RESULT_RECORDED''
     (JObj [(''result'', JObj [(''kind'', JStr ''generic''), (''status'', JStr ''succeeded''), (''runId'', JStr ''r''),
              (''durationMs'', JNum 1), (''completedAt'', JNum 9)]),
            (''releaseResources'', JBool True)]))\<lparr>ev_timestamp := 9, ev_createdAt := Some 9\<rparr>"

definition demo5 :: store where
  "demo5 = demo4\<lparr>db_operations := [demoOp\<lparr>op_status := ODone, op_result := Some demoResult\<rparr>],
     db_leases := [], db_journal := [demoIntent, demoResultEvent], db_seq := 2\<rparr>"

text \<open>The same database seen by a second owner that took the expired lease over, and the old
  owner's connection after the takeover.\<close>

definition demoTaken :: store where
  "demoTaken = demo4\<lparr>db_owners := [\<lparr>own_domainId = ''d'', own_ownerId = ''owner-8-2'', own_epoch = 2,
      own_heartbeatAt = 500, own_expiresAt = 600, own_hostname = ''h''\<rparr>], st_currentEpoch := Some 2\<rparr>"

definition demoOld :: store where "demoOld = demoTaken\<lparr>st_currentEpoch := Some 1\<rparr>"

lemma demo_acquire: "acquireOwnerLease (\<lambda>_. False) 10 ''d'' ''owner-7-1'' ''h'' 100 False emptyStore
    = (Inr demoOwner, emptyStore\<lparr>db_owners := [demoOwner], st_currentEpoch := Some 1\<rparr>)"
  by code_simp

lemma demo_task: "saveTask demoTask (emptyStore\<lparr>db_owners := [demoOwner], st_currentEpoch := Some 1\<rparr>)
    = (Inr (), demo3\<lparr>db_runs := []\<rparr>)"
  by code_simp

lemma demo_run: "saveRun demoHash demoRun (demo3\<lparr>db_runs := []\<rparr>) = (Inr (), demo3)"
  by code_simp

lemma demo_intent: "registerOperationIntent demoHash 5 demoOp ''d'' demo3 = (Inr (), demo4)"
  by code_simp

lemma demo_taken: "snd (acquireOwnerLease (\<lambda>_. False) 500 ''d'' ''owner-8-2'' ''h'' 100 False demo4) = demoTaken"
  by code_simp

lemma demo_result: "recordOperationResult ''op1'' demoResult True demo4 = (Inr (), demo5)"
  by code_simp

end
