(* ===== verification/StoreProps.thy ===== *)
theory StoreProps
  imports Demo
begin

text \<open>
  The step relation of a store and its reachable states, a small concrete history on which the
  properties are witnessed, and the properties of \<open>SqliteStore\<close>.
\<close>

section \<open>Reachable states\<close>

text \<open>One step is one call of a method, with any arguments, returning or throwing.\<close>

inductive storeStep :: "store \<Rightarrow> store \<Rightarrow> bool" where
  "storeStep s (snd (fence s))"
| "storeStep s (snd (acquireOwnerLease alive now d ownerId host ttl force s))"
| "storeStep s (snd (releaseOwnerLease d ownerId s))"
| "storeStep s (snd (recordEvent e s))"
| "storeStep s (snd (recordEventEnvelope now i s))"
| "storeStep s (snd (saveTask t s))"
| "storeStep s (snd (saveRun H run s))"
| "storeStep s (snd (bindRunConfigSnapshot H runId c s))"
| "storeStep s (snd (updateRunStatus now runId st reason endedAt s))"
| "storeStep s (snd (reportRunSucceeded now runId s))"
| "storeStep s (snd (reportRunFailed now runId rsn s))"
| "storeStep s (snd (reportRunCancelled now runId rsn s))"
| "storeStep s (snd (registerOperationIntent H now op d s))"
| "storeStep s (snd (recordPreIntentCancelledOperation H op d result s))"
| "storeStep s (snd (updateOperationStatus now opId status identity outputRef s))"
| "storeStep s (snd (updateRecoveryEvidence opId p s))"
| "storeStep s (snd (updateOperationResult opId result s))"
| "storeStep s (snd (recordOperationResult opId result rel s))"
| "storeStep s (snd (recordReplay now d opId mode runId s))"
| "storeStep s (snd (releaseResourceLease opId res s))"
| "storeStep s (snd (recordArtifact a s))"
| "storeStep s (snd (finalizeArtifact d ident sha bytes s))"
| "storeStep s (snd (markArtifactDeleted now d ident why s))"
| "storeStep s (snd (recordSnapshot sn s))"
| "storeStep s (snd (deleteSnapshot snId s))"
| "storeStep s (snd (recordCapability c s))"
| "storeStep s (snd (storeRevokeCapability capId d at s))"
| connect: "storeStep s (s\<lparr>st_currentEpoch := e\<rparr>)"

text \<open>
  \<open>connect\<close> is another process's connection on the same database: the rows are shared, the
  epoch it writes under is its own.
\<close>

inductive storeReach :: "store \<Rightarrow> bool" where
  reach_empty: "storeReach emptyStore"
| reach_step: "storeReach s \<Longrightarrow> storeStep s t \<Longrightarrow> storeReach t"

lemma evolved_connect: "evolved s0 s \<Longrightarrow> evolved s0 (s\<lparr>st_currentEpoch := e\<rparr>)"
  by (rule evolved_frame) (simp_all add: storeOk_leases evolved_ok)

lemma evolved_storeStep: "storeStep s t \<Longrightarrow> evolved s0 s \<Longrightarrow> evolved s0 t"
  by (induction rule: storeStep.induct) (erule preserves_snd [rotated], rule pres | erule evolved_connect)+

lemma evolved_steps: "storeStep\<^sup>*\<^sup>* s t \<Longrightarrow> evolved s0 s \<Longrightarrow> evolved s0 t"
  by (induction rule: rtranclp_induct) (auto intro: evolved_storeStep)

lemma reach_ok: "storeReach s \<Longrightarrow> storeOk s"
  by (induction rule: storeReach.induct)
    (rule storeOk_empty, erule evolved_ok [OF evolved_storeStep [OF _ evolved_refl]])

lemma reach_steps_le: "storeReach s \<Longrightarrow> storeStep\<^sup>*\<^sup>* s t \<Longrightarrow> storeOk t \<and> storeLe s t"
  using evolved_steps [of s t s] reach_ok [of s] evolved_refl evolved_ok evolved_le by blast


definition demoFailed :: store where
  "demoFailed = snd (reportRunFailed 6 ''r'' TCompleted demo3)"

lemma demo_reach: "storeReach demo3" "storeReach demo4" "storeReach demoTaken" "storeReach demoOld"
  "storeReach demo5" "storeReach demoFailed"
proof -
  have "storeReach (emptyStore\<lparr>db_owners := [demoOwner], st_currentEpoch := Some 1\<rparr>)"
    using reach_step [OF reach_empty storeStep.intros(2)] demo_acquire by (metis snd_conv)
  then have "storeReach (demo3\<lparr>db_runs := []\<rparr>)"
    using reach_step [OF _ storeStep.intros(6)] demo_task by (metis snd_conv)
  then show d3: "storeReach demo3"
    using reach_step [OF _ storeStep.intros(7)] demo_run by (metis snd_conv)
  then show d4: "storeReach demo4"
    using reach_step [OF _ storeStep.intros(13)] demo_intent by (metis snd_conv)
  then show "storeReach demo5"
    using reach_step [OF _ storeStep.intros(18)] demo_result by (metis snd_conv)
  show "storeReach demoFailed"
    unfolding demoFailed_def by (rule reach_step [OF d3 storeStep.intros(11)])
  from d4 show d5: "storeReach demoTaken"
    using reach_step [OF _ storeStep.intros(2)] demo_taken by metis
  then show "storeReach demoOld"
    unfolding demoOld_def by (rule reach_step [OF _ storeStep.connect])
qed

section \<open>The journal\<close>

lemma okNext_at: "storeReach s \<Longrightarrow> i < length (db_journal s) \<Longrightarrow> okNext (take i (db_journal s)) (db_journal s ! i)"
  using reach_ok [of s] by (simp add: storeOk_def journalOk_def)

lemma eventIn_take: "eventIn (take i j) opId type \<longleftrightarrow>
    (\<exists>k < i. k < length j \<and> ev_operationId (j ! k) = Some opId \<and> ev_type (j ! k) = type)"
  unfolding eventIn_def by (simp only: Bex_def in_set_conv_nth) (auto; blast)



text \<open>C2: The journal is append-only, and its sequence numbers strictly increase: whatever the
  clients of a reachable database do next, on whichever connection, its journal stays a prefix.\<close>

theorem journal_append_only:
  assumes "storeReach s" and "storeStep\<^sup>*\<^sup>* s t"
  shows "prefix (db_journal s) (db_journal t) \<and> sorted_wrt (<) (map ev_seq (db_journal t))
    \<and> (\<forall>e \<in> set (db_journal t). ev_seq e \<le> db_seq t)"
  using reach_steps_le [OF assms] by (simp add: storeOk_def storeLe_def)

theorem journal_append_only_witness: "prefix (db_journal demo4) (db_journal demo5)"
proof -
  have "storeStep demo4 demo5"
    using storeStep.intros(18) [of demo4 "''op1''" demoResult True] by (simp add: demo_result)
  then show ?thesis
    using journal_append_only [OF demo_reach(2) r_into_rtranclp] by blast
qed

text \<open>C3: A run that is succeeded, failed, cancelled or indeterminate keeps that status for ever.\<close>

theorem terminal_run_final:
  assumes "storeReach s" and "storeStep\<^sup>*\<^sup>* s t" and "getRun runId s = Some r" and "terminalRun (run_status r)"
  shows "\<exists>r'. getRun runId t = Some r' \<and> run_status r' = run_status r"
  using reach_steps_le [OF assms(1,2)] assms(3,4) unfolding storeLe_def by blast

theorem terminal_run_final_witness:
  "\<exists>r'. getRun ''r'' (snd (updateRunStatus 7 ''r'' RRunning None None demoFailed)) = Some r' \<and> run_status r' = RFailed"
proof -
  have "getRun ''r'' demoFailed = Some (demoRun\<lparr>run_status := RFailed, run_terminationReason := Some TCompleted,
      run_endedAt := Some 6\<rparr>)"
    by code_simp
  moreover have "storeStep\<^sup>*\<^sup>* demoFailed (snd (updateRunStatus 7 ''r'' RRunning None None demoFailed))"
    by (rule r_into_rtranclp) (rule storeStep.intros(9))
  ultimately show ?thesis
    using terminal_run_final [OF demo_reach(6)] by (fastforce simp: terminalRun_def)
qed

section \<open>Epoch fencing\<close>

text \<open>A connection is fenced out of a domain when the owner row carries another epoch.\<close>

definition fencedOut :: "string \<Rightarrow> store \<Rightarrow> bool" where
  "fencedOut d s \<longleftrightarrow> (case (st_currentEpoch s, getOwner d s) of
     (Some e, Some ow) \<Rightarrow> own_epoch ow \<noteq> e | _ \<Rightarrow> False)"

lemma fencedOut_verify:
  "fencedOut d s \<Longrightarrow> \<exists>a b. verifyEpochFencing d s = (Inl (EpochFencedError d a b), s)"
  by (auto simp: fencedOut_def verifyEpochFencing_def split: option.splits)

lemma fenced_thenDo: "fencedOut d s \<Longrightarrow> \<exists>e. thenDo (verifyEpochFencing d) m s = (Inl e, s)"
  using fencedOut_verify [of d s] by fastforce

text \<open>A method that is refused: it throws and the database is as before.\<close>

definition refuses :: "(store, KError, 'a) act \<Rightarrow> store \<Rightarrow> bool" where
  "refuses m s \<longleftrightarrow> isl (fst (m s)) \<and> snd (m s) = s"

lemma refuses_iff: "refuses m s \<longleftrightarrow> (\<exists>e. m s = (Inl e, s))"
  by (cases "m s") (auto simp: refuses_def isl_def)

lemma refuses_verify: "fencedOut d s \<Longrightarrow> refuses (thenDo (verifyEpochFencing d) m) s"
  by (simp add: refuses_iff fenced_thenDo)

lemma refuses_thenDo: "refuses m s \<Longrightarrow> refuses (thenDo m n) s"
  and refuses_andThen: "refuses m s \<Longrightarrow> refuses (andThen m f) s"
  by (auto simp: refuses_iff)

lemma refuses_later: "(\<And>x. m s = (Inr x, s) \<Longrightarrow> refuses n s) \<Longrightarrow> snd (m s) = s \<Longrightarrow> refuses (thenDo m n) s"
  by (cases "m s"; cases "fst (m s)") (auto simp: refuses_iff)

lemma refuses_atomically: "refuses m s \<Longrightarrow> refuses (atomically m) s"
  by (auto simp: refuses_iff)

lemma assertRunOpen_state [simp]: "snd (assertRunOpen runId s) = s"
  by (simp add: assertRunOpen_def split: option.splits)

lemmas refusing = refuses_thenDo refuses_andThen refuses_atomically refuses_verify




text \<open>C5: Taking a domain over from another owner requires force, an expired lease or a dead owner,
  raises the epoch by exactly one, and fences the superseded owner's connection out while the new
  one may write.\<close>

theorem takeover_fences_old_owner:
  assumes old: "getOwner d s = Some old" and me: "own_ownerId old \<noteq> me"
    and run: "acquireOwnerLease alive now d me host ttl force s = (Inr r, t)"
  shows "(force \<or> own_expiresAt old \<le> now \<or> \<not> oldOwnerAlive alive now host old)
    \<and> own_epoch r = own_epoch old + 1 \<and> getOwner d t = Some r \<and> \<not> fencedOut d t
    \<and> fencedOut d (t\<lparr>st_currentEpoch := Some (own_epoch old)\<rparr>)"
proof -
  let ?r = "\<lparr>own_domainId = d, own_ownerId = me, own_epoch = own_epoch old + 1, own_heartbeatAt = now,
     own_expiresAt = now + ttl, own_hostname = host\<rparr>"
  let ?t = "s\<lparr>db_owners := updRow own_domainId d (\<lambda>_. ?r) (db_owners s), st_currentEpoch := Some (own_epoch old + 1)\<rparr>"
  have cond: "(force \<or> own_expiresAt old \<le> now \<or> \<not> oldOwnerAlive alive now host old) \<and> r = ?r \<and> t = ?t"
    using run old me by (auto simp: acquireOwnerLease_def atomically_def Let_def split: if_splits)
  have own: "getOwner d ?t = Some ?r"
    using old unfolding getOwner_def by (simp add: rowOf_setRow)
  then have own': "getOwner d (?t\<lparr>st_currentEpoch := Some (own_epoch old)\<rparr>) = Some ?r"
    by (simp add: getOwner_def)
  show ?thesis
    using cond own own' by (simp add: fencedOut_def)
qed

theorem takeover_fences_old_owner_witness: "fencedOut ''d'' demoOld"
proof -
  have o1: "getOwner ''d'' demo4 = Some demoOwner" "own_ownerId demoOwner \<noteq> ''owner-8-2''"
    and ep: "own_epoch demoOwner = 1"
    by code_simp+
  obtain r where "acquireOwnerLease (\<lambda>_. False) 500 ''d'' ''owner-8-2'' ''h'' 100 False demo4 = (Inr r, demoTaken)"
  proof -
    have "\<not> isl (fst (acquireOwnerLease (\<lambda>_. False) 500 ''d'' ''owner-8-2'' ''h'' 100 False demo4))"
      by code_simp
    with demo_taken that show ?thesis
      by (metis old.sum.exhaust isl_def prod.collapse)
  qed
  from takeover_fences_old_owner [OF o1 this] show ?thesis
    by (simp add: ep demoOld_def)
qed

text \<open>A live lease is never taken: an acquisition is refused, and changes nothing, exactly when
  another owner holds an unexpired lease, is alive, and force is not asked for.\<close>

lemma live_lease_refused:
  "refuses (acquireOwnerLease alive now d me host ttl force) s \<longleftrightarrow>
     (case getOwner d s of None \<Rightarrow> False
      | Some old \<Rightarrow> own_ownerId old \<noteq> me \<and> \<not> force \<and> now < own_expiresAt old \<and> oldOwnerAlive alive now host old)"
  by (simp add: refuses_def acquireOwnerLease_def atomically_def Let_def not_le split: option.split)

section \<open>Intents and results\<close>

lemma recordEvent_Inr:
  assumes "recordEvent e s = (Inr x, t)"
  shows "\<exists>row. t = s\<lparr>db_journal := db_journal s @ [row], db_seq := db_seq s + 1\<rparr> \<and> ev_seq row = db_seq s + 1
    \<and> ev_type row = evName e \<and> ev_operationId row = truthy (ev_operationId e) \<and> ev_domainId row = ev_domainId e
    \<and> ev_runId row = truthy (ev_runId e)"
proof (cases rule: recordEvent_cases [of e s])
  case (refused err)
  then have "recordEvent e s = (Inl err, s)" by (simp add: recordEvent_def)
  with assms show ?thesis by simp
next
  case (appended v)
  have "recordEvent e s = (Inr (), s\<lparr>db_journal := db_journal s @ [journalRow (db_seq s + 1) e v], db_seq := db_seq s + 1\<rparr>)"
    unfolding recordEvent_def by (subst andThen_simps(2) [where m = "recordEventAndTransitionState e", OF appended(4)]) simp
  with assms createEventEnvelope_Inr(1) [OF appended(2)] show ?thesis
    by (auto simp: journalRow_def envelopeOf_def)
qed

lemma insertLeases_Inr:
  "forEach xs (\<lambda>x. insertLease (f x)) s = (Inr u, t) \<Longrightarrow> t = s\<lparr>db_leases := db_leases s @ map f xs\<rparr>"
proof (induction xs arbitrary: s)
  case (Cons x xs)
  from Cons.prems obtain s' where s': "insertLease (f x) s = (Inr (), s')"
    and rest: "forEach xs (\<lambda>x. insertLease (f x)) s' = (Inr u, t)"
    by (auto simp: thenDo_Inr)
  from s' have "s' = s\<lparr>db_leases := db_leases s @ [f x]\<rparr>"
    by (auto simp: insertLease_def split: if_splits)
  with Cons.IH [OF rest] show ?case by simp
qed simp

lemma evName_mkEvent [simp]: "evName (mkEvent d r o' ty p ts) = ty"
  by (simp add: evName_def mkEvent_def)

lemma mkEvent_fields [simp]:
  "ev_domainId (mkEvent d r o' ty p ts) = d" "ev_runId (mkEvent d r o' ty p ts) = r"
  "ev_operationId (mkEvent d r o' ty p ts) = o'"
  by (simp_all add: mkEvent_def)

lemma verify_Inr: "verifyEpochFencing d s = (Inr x, t) \<longleftrightarrow> t = s \<and> \<not> fencedOut d s"
  by (auto simp: fencedOut_def verifyEpochFencing_def split: option.splits)

lemma assertRunOpen_Inr: "assertRunOpen runId s = (Inr x, t) \<longleftrightarrow>
    t = s \<and> (\<exists>r. getRun runId s = Some r \<and> \<not> terminalRun (run_status r))"
  by (auto simp: assertRunOpen_def split: option.splits)

lemma liftSum_Inr: "liftSum c s = (Inr x, t) \<longleftrightarrow> c = Inr x \<and> t = s"
  by (auto simp: liftSum_def)

lemma insertOperation_Inr: "insertOperation row s = (Inr x, t) \<longleftrightarrow>
    getOperation (op_id row) s = None \<and> t = s\<lparr>db_operations := db_operations s @ [row]\<rparr>"
  by (auto simp: insertOperation_def)

text \<open>What a registration does before its event is appended.\<close>

definition leasesOf :: "millis \<Rightarrow> string \<Rightarrow> Operation \<Rightarrow> ResourceLease list" where
  "leasesOf now d op' = map (\<lambda>res. \<lparr>lease_resourceId = res, lease_operationId = op_id op', lease_domainId = d,
     lease_acquiredAt = now, lease_budget = op_resourceBudget op'\<rparr>) (op_requiredResources op')"

lemma intent_chain:
  assumes "thenDo (liftSum c) (thenDo (assertRunOpen rid) (atomically (thenDo (verifyEpochFencing d)
     (thenDo (insertOperation row) (thenDo (forEach xs (\<lambda>x. insertLease (f x))) (recordEvent ev)))))) s = (Inr u, t)"
  shows "\<exists>r e. getRun rid s = Some r \<and> \<not> terminalRun (run_status r)
    \<and> \<not> fencedOut d s \<and> getOperation (op_id row) s = None
    \<and> ev_type e = evName ev \<and> ev_operationId e = truthy (ev_operationId ev) \<and> ev_seq e = db_seq s + 1
    \<and> t = s\<lparr>db_operations := db_operations s @ [row], db_leases := db_leases s @ map f xs,
            db_journal := db_journal s @ [e], db_seq := db_seq s + 1\<rparr>"
proof -
  from assms obtain r s2 where pre: "getRun rid s = Some r" "\<not> terminalRun (run_status r)"
    "\<not> fencedOut d s" "getOperation (op_id row) s = None"
    and leases: "forEach xs (\<lambda>x. insertLease (f x)) (s\<lparr>db_operations := db_operations s @ [row]\<rparr>) = (Inr (), s2)"
    and ev: "recordEvent ev s2 = (Inr u, t)"
    by (auto simp: thenDo_Inr atomically_Inr liftSum_Inr assertRunOpen_Inr verify_Inr insertOperation_Inr)
  from insertLeases_Inr [OF leases] recordEvent_Inr [OF ev]
  obtain e where "t = s\<lparr>db_operations := db_operations s @ [row], db_leases := db_leases s @ map f xs,
        db_journal := db_journal s @ [e], db_seq := db_seq s + 1\<rparr>"
    "ev_type e = evName ev" "ev_operationId e = truthy (ev_operationId ev)" "ev_seq e = db_seq s + 1"
    by auto
  with pre show ?thesis by blast
qed

lemma atomically_fails: "atomically m s = (Inl e, t) \<Longrightarrow> t = s"
  by (simp add: atomically_Inl)

lemma registerIntent_Inl:
  assumes "registerOperationIntent H now op' d s = (Inl e, t)"
  shows "t = s"
  using assms assertRunOpen_state [of "op_runId op'" s] unfolding registerOperationIntent_def
  by (auto simp only: thenDo_Inl liftSum_def fst_conv snd_conv prod.inject dest: atomically_fails; metis snd_conv)

text \<open>Registering an intent is atomic. If it throws, the database is unchanged; if it returns,
  the writer held the current epoch, the run was open and the operation new, and the operation
  (as \<open>intent_registered\<close>), one lease per required resource and exactly one intent event were
  added, and nothing else.\<close>

theorem intent_registration:
  "case registerOperationIntent H now op' d s of
     (Inl e, t) \<Rightarrow> t = s
   | (Inr u, t) \<Rightarrow> \<exists>r row e. getRun (op_runId op') s = Some r \<and> \<not> terminalRun (run_status r)
       \<and> \<not> fencedOut d s \<and> getOperation (op_id op') s = None
       \<and> op_id row = op_id op' \<and> op_status row = OIntentRegistered \<and> op_domainId row = d
       \<and> ev_type e = ''OPERATION_INTENT_REGISTERED'' \<and> ev_operationId e = truthy (Some (op_id op'))
       \<and> t = s\<lparr>db_operations := db_operations s @ [row], db_leases := db_leases s @ leasesOf now d op',
               db_journal := db_journal s @ [e], db_seq := db_seq s + 1\<rparr>"
proof (cases "registerOperationIntent H now op' d s")
  case (Pair r t)
  show ?thesis
  proof (cases r)
    case (Inl e)
    with Pair show ?thesis using registerIntent_Inl by simp
  next
    case (Inr u)
    note run = Pair [unfolded Inr]
    from intent_chain [OF run [unfolded registerOperationIntent_def]] obtain r' e where
      c: "getRun (op_runId op') s = Some r'" "\<not> terminalRun (run_status r')"
      "\<not> fencedOut d s" "getOperation (op_id op') s = None"
      "ev_type e = ''OPERATION_INTENT_REGISTERED''" "ev_operationId e = truthy (Some (op_id op'))"
      and t: "t = s\<lparr>db_operations := db_operations s @ [op'\<lparr>op_domainId := d, op_status := OIntentRegistered,
          op_capabilityId := truthy (op_capabilityId op'), op_timeoutMs := nonZero (op_timeoutMs op'),
          op_outputRef := truthy (op_outputRef op')\<rparr>], db_leases := db_leases s @ leasesOf now d op',
          db_journal := db_journal s @ [e], db_seq := db_seq s + 1\<rparr>"
      unfolding leasesOf_def evName_mkEvent mkEvent_fields by (elim exE conjE) simp
    from c t run Inr show ?thesis
      by (simp only: prod.case sum.case Pair) (intro exI conjI, simp_all)
  qed
qed


lemma whenDo_Inr: "whenDo b m s = (Inr x, t) \<longleftrightarrow> (if b then m s = (Inr x, t) else t = s)"
  by auto

lemma guardE_Inr: "guardE b e s = (Inr x, t) \<longleftrightarrow> b \<and> t = s"
  by auto

text \<open>The leases after a result: a settled operation gives up its own, and only those.\<close>

definition leasesAfter :: "string \<Rightarrow> OperationResult \<Rightarrow> bool \<Rightarrow> ResourceLease list \<Rightarrow> ResourceLease list" where
  "leasesAfter opId result rel ls =
     (if rel \<and> \<not> isIndeterminate result then filter (\<lambda>l. lease_operationId l \<noteq> opId) ls else ls)"

lemma result_chain:
  assumes "thenDo (verifyEpochFencing d) (thenDo (guardE a e1) (thenDo (guardE b e2) (thenDo (guardE c e3)
     (thenDo (modifyOperation opId f) (thenDo (whenDo rel (deleteLeases opId)) (recordEvent ev)))))) s = (Inr u, t)"
  shows "\<not> fencedOut d s \<and> a \<and> b \<and> c \<and> (\<exists>e. ev_type e = evName ev \<and> ev_operationId e = truthy (ev_operationId ev)
    \<and> t = s\<lparr>db_operations := updRow op_id opId f (db_operations s),
            db_leases := (if rel then filter (\<lambda>l. lease_operationId l \<noteq> opId) (db_leases s) else db_leases s),
            db_journal := db_journal s @ [e], db_seq := db_seq s + 1\<rparr>)"
proof -
  from assms obtain s2 where pre: "\<not> fencedOut d s" "a" "b" "c"
    and s2: "whenDo rel (deleteLeases opId) (s\<lparr>db_operations := updRow op_id opId f (db_operations s)\<rparr>) = (Inr (), s2)"
    and ev: "recordEvent ev s2 = (Inr u, t)"
    unfolding modifyOperation_def by (auto simp: thenDo_Inr verify_Inr guardE_Inr simp del: guardE_run whenDo_run)
  from s2 have "s2 = s\<lparr>db_operations := updRow op_id opId f (db_operations s),
      db_leases := (if rel then filter (\<lambda>l. lease_operationId l \<noteq> opId) (db_leases s) else db_leases s)\<rparr>"
    by (auto simp: deleteLeases_def delRows_def split: if_splits)
  with recordEvent_Inr [OF ev] pre show ?thesis by auto
qed

text \<open>The row of the finished operation.\<close>

definition finishRow :: "OperationResult \<Rightarrow> Operation \<Rightarrow> Operation" where
  "finishRow result r = r\<lparr>op_status := ODone, op_result := Some result,
     op_outputRef := coalesce (truthy (resultOutputRef result)) (op_outputRef r),
     op_capabilityId := coalesce (truthy (res_capabilityId (resultBase result))) (op_capabilityId r)\<rparr>"

lemma finishRow_simps [simp]: "op_id (finishRow result r) = op_id r" "op_status (finishRow result r) = ODone"
  "op_result (finishRow result r) = Some result" "op_domainId (finishRow result r) = op_domainId r"
  "op_runId (finishRow result r) = op_runId r"
  by (simp_all add: finishRow_def)

lemma recordResult_eq: "recordOperationResult opId result rel = atomically (\<lambda>s.
     (case getOperation opId s of None \<Rightarrow> (Inl (OperationNotFound opId), s)
      | Some o' \<Rightarrow> thenDo (verifyEpochFencing (op_domainId o'))
         (thenDo (guardE (op_status o' \<noteq> ODone) (OperationAlreadyFinalized opId))
         (thenDo (guardE (intentRecorded opId s) (IntentNotRecorded opId))
         (thenDo (guardE (\<not> resultRecorded opId s) (ResultAlreadyRecorded opId))
         (thenDo (modifyOperation opId (finishRow result))
         (thenDo (whenDo (rel \<and> \<not> isIndeterminate result) (deleteLeases opId))
          (recordEvent (mkEvent (op_domainId o') (Some (op_runId o')) (Some opId) ''OPERATION_RESULT_RECORDED''
             (JObj [(''result'', resultJson result), (''releaseResources'', JBool rel)])
             (res_completedAt (resultBase result))))))))) s))"
  unfolding recordOperationResult_def finishRow_def [abs_def] by (rule refl)

lemma recordResult_Inl: "recordOperationResult opId result rel s = (Inl e, t) \<Longrightarrow> t = s"
  unfolding recordResult_eq by (rule atomically_fails)

lemma recordResult_Inr:
  assumes "recordOperationResult opId result rel s = (Inr u, t)"
  shows "\<exists>op' e. getOperation opId s = Some op' \<and> op_status op' \<noteq> ODone \<and> \<not> fencedOut (op_domainId op') s
    \<and> intentRecorded opId s \<and> \<not> resultRecorded opId s
    \<and> ev_type e = ''OPERATION_RESULT_RECORDED'' \<and> ev_operationId e = truthy (Some opId)
    \<and> t = s\<lparr>db_operations := updRow op_id opId (finishRow result) (db_operations s),
            db_leases := leasesAfter opId result rel (db_leases s),
            db_journal := db_journal s @ [e], db_seq := db_seq s + 1\<rparr>"
proof -
  note run = assms [unfolded recordResult_eq atomically_Inr]
  from run obtain op' where op: "getOperation opId s = Some op'" by (cases "getOperation opId s") auto
  from result_chain [OF run [unfolded op option.case]] op show ?thesis
    unfolding leasesAfter_def evName_mkEvent mkEvent_fields by blast
qed

text \<open>C6: Recording a result. Either it throws and the database is unchanged, or the operation
  existed, was not done, had a durable intent and no result; then it is done and holds that
  result, exactly one result event is appended, and its leases are given up exactly when the
  caller asked for it and the result is not indeterminate. No other operation and no other lease
  changes.\<close>

theorem result_recording:
  "case recordOperationResult opId result rel s of
     (Inl e, t) \<Rightarrow> t = s
   | (Inr u, t) \<Rightarrow> \<exists>op' e. getOperation opId s = Some op' \<and> op_status op' \<noteq> ODone \<and> \<not> fencedOut (op_domainId op') s
       \<and> intentRecorded opId s \<and> \<not> resultRecorded opId s
       \<and> ev_type e = ''OPERATION_RESULT_RECORDED'' \<and> ev_operationId e = truthy (Some opId)
       \<and> t = s\<lparr>db_operations := updRow op_id opId (finishRow result) (db_operations s),
               db_leases := leasesAfter opId result rel (db_leases s),
               db_journal := db_journal s @ [e], db_seq := db_seq s + 1\<rparr>"
  using recordResult_Inl [of opId result rel s] recordResult_Inr [of opId result rel s]
  by (cases "recordOperationResult opId result rel s"; cases "fst (recordOperationResult opId result rel s)") simp_all

text \<open>A result is recorded at most once: recording a second one throws and changes nothing.\<close>

theorem second_result_refused:
  assumes "recordOperationResult opId r1 rel1 s = (Inr u, t)"
  shows "refuses (recordOperationResult opId r2 rel2) t"
proof -
  from recordResult_Inr [OF assms] obtain op' where "getOperation opId s = Some op'"
    and "db_operations t = updRow op_id opId (finishRow r1) (db_operations s)" by auto
  then have "getOperation opId t = Some (finishRow r1 op')"
    by (simp add: getOperation_def rowOf_updRow)
  then show ?thesis
    using verifyEpochFencing_cases [of "op_domainId op'" t]
    by (auto simp: refuses_def recordResult_eq atomically_def)
qed

theorem second_result_refused_witness: "refuses (recordOperationResult ''op1'' demoLost True) demo5"
  by (rule second_result_refused [OF demo_result])


section \<open>Redaction and bindings\<close>

text \<open>C7: No secret reaches the journal: in every reachable database the payload of every event is
  an object without a key, at any depth, that names a prompt, secret, token, password,
  credential, environment, content, body or captured output.\<close>

theorem journal_redacted:
  assumes "storeReach s" and "e \<in> set (db_journal s)"
  shows "isRecord (ev_payload e) \<and> noSecretKeys (ev_payload e)"
  using reach_ok [OF assms(1)] assms(2) by (simp add: storeOk_def cleanRow_def)

theorem journal_redacted_witness: "noSecretKeys (ev_payload demoResultEvent)"
  using journal_redacted [OF demo_reach(5), of demoResultEvent] by (simp add: demo5_def)

text \<open>C8: A request binding passes its own integrity check, for every configuration a caller hands
  in, when the driver and version names are not empty and the digest function returns 64 lower-case
  hexadecimal digits (as SHA-256 in hex does).\<close>

theorem binding_roundtrip:
  assumes "\<And>j. hex64 (H j)" and "rci_driverName i \<noteq> []" and "rci_driverVersion i \<noteq> Some []"
    and "rci_retentionVersion i \<noteq> Some []" and "rci_redactionVersion i \<noteq> Some []"
    and "isRecord (rci_config i) \<or> rci_config i = JUndef"
  shows "assertRequestConfigSnapshot H (createRequestConfigSnapshot H now i) = Inr ()"
proof -
  let ?c = "createRequestConfigSnapshot H now i"
  have "rcs_config ?c = JObj (sortBy fst (scrubFields (case rci_config i of JObj fs \<Rightarrow> fs | _ \<Rightarrow> [])))"
    using assms(6) by (cases "rci_config i") (simp_all add: createRequestConfigSnapshot_def Let_def)
  then have "isRecord (rcs_config ?c)" "isJsonValue (rcs_config ?c)"
    by (simp_all add: isJsonValue_sortBy scrub_json(3))
  moreover have "rcs_digest ?c = H (withoutDigest ?c)"
    by (simp add: createRequestConfigSnapshot_def withoutDigest_def Let_def)
  moreover have "rcs_driverVersion ?c \<noteq> []" "rcs_retentionVersion ?c \<noteq> []" "rcs_redactionVersion ?c \<noteq> []"
    using assms(3-5) by (auto simp: createRequestConfigSnapshot_def Let_def split: option.splits)
  moreover have "rcs_driverName ?c \<noteq> []" "getTime (rcs_createdAt ?c) \<noteq> None" "rcs_schemaVersion ?c = ''xio/config/1''"
    using assms(2) by (simp_all add: createRequestConfigSnapshot_def Let_def)
  ultimately show ?thesis
    using assms(1) by (simp add: assertRequestConfigSnapshot_def)
qed

theorem binding_roundtrip_witness:
  "assertRequestConfigSnapshot demoHash (createRequestConfigSnapshot demoHash 5
     \<lparr>rci_driverName = ''cgroup'', rci_driverCapabilities = [(''gated'', FBool True)], rci_capabilityId = None,
      rci_capabilityPolicyVersion = None, rci_driverVersion = None,
      rci_config = JObj [(''model'', JStr ''m''), (''apiKey'', JStr ''k'')], rci_retentionVersion = None,
      rci_redactionVersion = None\<rparr>) = Inr ()"
  by (rule binding_roundtrip) (simp_all, code_simp)

section \<open>Success of a run, snapshots\<close>

lemma updateRunStatus_Inr:
  assumes "updateRunStatus now runId st reason at s = (Inr u, t)" and "getRun runId s = Some r"
    and "\<not> terminalRun (run_status r)"
  shows "\<exists>r'. getRun runId t = Some r' \<and> run_status r' = st \<and> db_operations t = db_operations s"
proof -
  from assms obtain s' ev where s': "setRunStatus runId st reason at s = (Inr (), s')"
    and ev: "recordEvent ev s' = (Inr u, t)"
    unfolding updateRunStatus_def by (auto simp: atomically_Inr thenDo_Inr verify_Inr)
  from s' have "getRun runId s' = map_option (\<lambda>r. r\<lparr>run_status := st, run_terminationReason := coalesce reason (run_terminationReason r),
            run_endedAt := coalesce at (run_endedAt r)\<rparr>) (getRun runId s)" "db_operations s' = db_operations s"
    by (auto simp: setRunStatus_def getRun_def rowOf_updRow)
  with recordEvent_Inr [OF ev] assms(2) show ?thesis by (auto simp: getRun_def)
qed

abbreviation lostOp :: "Operation \<Rightarrow> bool" where
  "lostOp o' \<equiv> (case op_result o' of Some r \<Rightarrow> isIndeterminate r | None \<Rightarrow> False)"

lemma reportRunSucceeded_Inr:
  assumes run: "reportRunSucceeded now runId s = (Inr u, t)"
  shows "\<exists>r r'. getRun runId s = Some r \<and> getRun runId t = Some r' \<and>
     (if run_status r = RSucceeded then t = s
      else \<not> terminalRun (run_status r) \<and> list_all (\<lambda>o'. op_status o' = ODone) (getOperationsByRun runId s)
        \<and> run_status r' = (if list_ex lostOp (getOperationsByRun runId s) then RIndeterminate else RSucceeded))"
proof -
  from run obtain r where r: "getRun runId s = Some r"
    unfolding reportRunSucceeded_def atomically_Inr by (cases "getRun runId s") auto
  show ?thesis
  proof (cases "run_status r = RSucceeded")
    case True
    with run r have "t = s"
      unfolding reportRunSucceeded_def atomically_Inr by (auto simp: thenDo_Inr verify_Inr)
    with r True show ?thesis by simp
  next
    case False
    let ?ops = "getOperationsByRun runId s"
    let ?fin = "case filter lostOp ?ops of
                     o' # _ \<Rightarrow> updateRunStatus now runId RIndeterminate
                                 (Option.bind (op_result o') resultTerminationReason) (Some now)
                   | [] \<Rightarrow> updateRunStatus now runId RSucceeded (Some TCompleted) (Some now)"
    from run r False have nt: "\<not> terminalRun (run_status r)"
      unfolding reportRunSucceeded_def atomically_Inr by (auto simp: thenDo_Inr verify_Inr)
    with run r False have "(\<forall>o' \<in> set ?ops. op_status o' = ODone) \<and> ?fin s = (Inr u, t)"
      unfolding reportRunSucceeded_def atomically_Inr
      by (auto simp: thenDo_Inr verify_Inr andThen_Inr liftSum_Inr guardE_Inr Let_def simp del: guardE_run)
    moreover have "(\<exists>r'. getRun runId t = Some r' \<and> run_status r' = (if list_ex lostOp ?ops then RIndeterminate else RSucceeded))"
      if "?fin s = (Inr u, t)"
    proof (cases "filter lostOp ?ops")
      case Nil
      then have "\<not> list_ex lostOp ?ops" by (auto simp: filter_empty_conv list_ex_iff)
      with that Nil updateRunStatus_Inr [OF _ r nt] show ?thesis by fastforce
    next
      case (Cons o' os)
      then have "o' \<in> set (filter lostOp ?ops)" by simp
      then have "list_ex lostOp ?ops" by (auto simp: list_ex_iff)
      with that Cons updateRunStatus_Inr [OF _ r nt] show ?thesis by fastforce
    qed
    ultimately show ?thesis using r False nt by (auto simp: list_all_iff)
  qed
qed

lemma reportRunSucceeded_Inl: "reportRunSucceeded now runId s = (Inl e, t) \<Longrightarrow> t = s"
  unfolding reportRunSucceeded_def by (rule atomically_fails)

text \<open>A run is reported successful only over settled operations. If the report returns, the run
  either was successful already and nothing changed, or was open with every operation done; it is
  then \<open>succeeded\<close>, except that one operation without a known outcome makes it
  \<open>indeterminate\<close>. If it throws, nothing changed.\<close>

theorem run_success_is_earned:
  "case reportRunSucceeded now runId s of
     (Inl e, t) \<Rightarrow> t = s
   | (Inr u, t) \<Rightarrow> \<exists>r r'. getRun runId s = Some r \<and> getRun runId t = Some r' \<and>
       (if run_status r = RSucceeded then t = s
        else \<not> terminalRun (run_status r) \<and> list_all (\<lambda>o'. op_status o' = ODone) (getOperationsByRun runId s)
          \<and> run_status r' = (if list_ex (\<lambda>o'. case op_result o' of Some res \<Rightarrow> isIndeterminate res | None \<Rightarrow> False)
                (getOperationsByRun runId s) then RIndeterminate else RSucceeded))"
  using reportRunSucceeded_Inl [of now runId s] reportRunSucceeded_Inr [of now runId s]
  by (cases "reportRunSucceeded now runId s"; cases "fst (reportRunSucceeded now runId s)") simp_all

end
