(* ===== verification/Capability.thy ===== *)
theory Capability
  imports Paths StoreProps
begin

text \<open>
  Capability scopes, their narrowing and the admission check of
  \<open>src/src/capability/check.ts\<close>, and the limits of \<open>src/src/domain.ts\<close>. The file system is
  the parameter \<open>fs\<close>, the clock reading is \<open>now\<close>. A rejection is journalled and thrown; the
  text of its message is left out of the payload.
\<close>

section \<open>Scopes\<close>

definition ISA_V1_OPCODES :: "string list" where
  "ISA_V1_OPCODES = [''fs.read'', ''fs.write'', ''fs.patch'', ''fs.move'', ''fs.delete'', ''fs.stat'',
     ''workspace.snapshot'', ''workspace.diff'', ''workspace.commit'', ''workspace.rollback'',
     ''proc.spawn'', ''proc.wait'', ''proc.signal'', ''proc.inspect'', ''observe.files'',
     ''observe.resources'', ''control.status'', ''control.health'', ''control.cancel'',
     ''control.resolve'', ''control.resume'', ''artifact.put'', ''artifact.get'', ''artifact.stream'']"

definition orElse :: "'a option \<Rightarrow> 'a \<Rightarrow> 'a" where
  "orElse x d = (case x of Some v \<Rightarrow> v | None \<Rightarrow> d)"

lemma orElse_simps [simp]: "orElse (Some v) d = v" "orElse None d = d"
  by (simp_all add: orElse_def)

definition normalizeScope :: "fsys \<Rightarrow> CapabilityScopeInput \<Rightarrow> CapabilityScope" where
  "normalizeScope fs i =
     (let legacyWrites = orElse (in_write i) []; requestedPaths = orElse (in_paths i) legacyWrites
      in \<lparr>scope_write = uniqueList (map (normalizePathPattern fs) legacyWrites),
          scope_exclusive = uniqueList (orElse (in_exclusive i) []),
          scope_opcodes = uniqueList (orElse (in_opcodes i) ISA_V1_OPCODES),
          scope_workspaces = uniqueList (orElse (in_workspaces i) []),
          scope_paths = uniqueList (map (normalizePathPattern fs) requestedPaths),
          scope_secrets = uniqueList (orElse (in_secrets i) [])\<rparr>)"

text \<open>A stored scope passed where an input is expected.\<close>

definition asInput :: "CapabilityScope \<Rightarrow> CapabilityScopeInput" where
  "asInput c = \<lparr>in_write = Some (scope_write c), in_exclusive = Some (scope_exclusive c),
     in_opcodes = Some (scope_opcodes c), in_workspaces = Some (scope_workspaces c),
     in_paths = Some (scope_paths c), in_secrets = Some (scope_secrets c)\<rparr>"

definition subsetOf :: "string list \<Rightarrow> string list \<Rightarrow> bool" where
  "subsetOf xs ys = list_all (\<lambda>x. x \<in> set ys) xs"

definition pathsWithin :: "fsys \<Rightarrow> string list \<Rightarrow> string list \<Rightarrow> bool" where
  "pathsWithin fs ps qs = list_all (\<lambda>q. list_ex (\<lambda>p. isPathContained fs p q) ps) qs"

definition validateScopeNarrowing ::
    "fsys \<Rightarrow> CapabilityScope \<Rightarrow> CapabilityScopeInput \<Rightarrow> CapabilityViolation + CapabilityScope" where
  "validateScopeNarrowing fs parentScope n =
     (let normParent = normalizeScope fs (asInput parentScope);
          requestedPaths = (case in_paths n of Some p \<Rightarrow> Some p | None \<Rightarrow> in_write n);
          newPaths = (case requestedPaths of None \<Rightarrow> scope_paths normParent
                      | Some ps \<Rightarrow> uniqueList (map (normalizePathPattern fs) ps));
          narrowed = (\<lambda>requested field. case requested of None \<Rightarrow> field normParent | Some xs \<Rightarrow> uniqueList xs);
          newExclusive = narrowed (in_exclusive n) scope_exclusive;
          newOpcodes = narrowed (in_opcodes n) scope_opcodes;
          newWorkspaces = narrowed (in_workspaces n) scope_workspaces;
          newSecrets = narrowed (in_secrets n) scope_secrets
      in if \<not> pathsWithin fs (scope_paths normParent) newPaths then Inl CvAttenuationWidened
         else if \<not> subsetOf newExclusive (scope_exclusive normParent) then Inl CvAttenuationWidened
         else if \<not> subsetOf newOpcodes (scope_opcodes normParent) then Inl CvAttenuationWidened
         else if scope_workspaces normParent \<noteq> [] \<and>
             (\<not> subsetOf newWorkspaces (scope_workspaces normParent) \<or> in_workspaces n = Some [])
           then Inl CvAttenuationWidened
         else if \<not> subsetOf newSecrets (scope_secrets normParent) then Inl CvAttenuationWidened
         else Inr \<lparr>scope_write = (case requestedPaths of None \<Rightarrow> scope_write normParent | Some _ \<Rightarrow> newPaths),
                   scope_exclusive = newExclusive, scope_opcodes = newOpcodes,
                   scope_workspaces = newWorkspaces, scope_paths = newPaths, scope_secrets = newSecrets\<rparr>)"

section \<open>Limits\<close>

definition DEFAULT_CAPABILITY_LIMITS :: CapabilityLimits where
  "DEFAULT_CAPABILITY_LIMITS = \<lparr>cpuMs = 315360000000, memoryBytes = 1099511627776,
     outputBytes = 107374182400, concurrentOps = 4096, processes = 65536\<rparr>"

definition mergeLimits :: "CapabilityLimits \<Rightarrow> PartialLimits option \<Rightarrow> CapabilityLimits" where
  "mergeLimits base p = (case p of None \<Rightarrow> base
     | Some l \<Rightarrow> \<lparr>cpuMs = orElse (pl_cpuMs l) (cpuMs base),
         memoryBytes = orElse (pl_memoryBytes l) (memoryBytes base),
         outputBytes = orElse (pl_outputBytes l) (outputBytes base),
         concurrentOps = orElse (pl_concurrentOps l) (concurrentOps base),
         processes = orElse (pl_processes l) (processes base)\<rparr>)"

definition limitValues :: "CapabilityLimits \<Rightarrow> int list" where
  "limitValues l = [cpuMs l, memoryBytes l, outputBytes l, concurrentOps l, processes l]"

text \<open>\<open>Number.isSafeInteger(v) && v >= 0\<close>\<close>

definition safeNonNeg :: "int \<Rightarrow> bool" where
  "safeNonNeg v \<longleftrightarrow> 0 \<le> v \<and> v \<le> 9007199254740991"

definition normalizeCapabilityLimits :: "PartialLimits option \<Rightarrow> KError + CapabilityLimits" where
  "normalizeCapabilityLimits p =
     (let merged = mergeLimits DEFAULT_CAPABILITY_LIMITS p
      in if list_all safeNonNeg (limitValues merged) then Inr merged
         else Inl (TypeError ''Capability limit must be a non-negative safe integer''))"

definition allLimits :: "CapabilityLimits \<Rightarrow> PartialLimits" where
  "allLimits l = \<lparr>pl_cpuMs = Some (cpuMs l), pl_memoryBytes = Some (memoryBytes l),
     pl_outputBytes = Some (outputBytes l), pl_concurrentOps = Some (concurrentOps l),
     pl_processes = Some (processes l)\<rparr>"

definition narrowCapabilityLimits ::
    "CapabilityLimits \<Rightarrow> PartialLimits option \<Rightarrow> KError + CapabilityLimits" where
  "narrowCapabilityLimits parent requested =
     (case normalizeCapabilityLimits (Some (allLimits (mergeLimits parent requested))) of
        Inl e \<Rightarrow> Inl e
      | Inr child \<Rightarrow> if list_all2 (\<le>) (limitValues child) (limitValues parent) then Inr child
          else Inl (CapabilityViolationError CvAttenuationWidened))"

section \<open>Admission\<close>

record AdmissionOptions =
  ao_domainId :: string
  ao_currentEpoch :: int
  ao_capabilityId :: string
  ao_requiredResources :: "string list option"
  ao_mutationRoots :: "string list option"
  ao_opcode :: "string option"
  ao_workspace :: "string option"
  ao_secretRefs :: "string list option"
  ao_requestedLimits :: "PartialLimits option"
  ao_currentConcurrentOps :: "int option"
  ao_currentProcesses :: "int option"
  ao_policyVersion :: "string option"
  ao_runId :: "string option"
  ao_opId :: "string option"

record AdmissionResult =
  ar_capability :: Capability
  ar_effectiveResources :: "string list"
  ar_effectiveMutationRoots :: "string list"
  ar_effectiveLimits :: CapabilityLimits

text \<open>
  The walk up the chain of parents: \<open>Some None\<close> when every ancestor is good, \<open>Some (Some v)\<close> for
  the first one that is not, and \<open>None\<close> when the loop has not ended within \<open>n\<close> ancestors.
\<close>

primrec ancestorFault ::
    "nat \<Rightarrow> millis \<Rightarrow> int \<Rightarrow> store \<Rightarrow> string option \<Rightarrow> CapabilityViolation option option" where
  "ancestorFault 0 now ep s aid = (case truthy aid of None \<Rightarrow> Some None | Some _ \<Rightarrow> None)"
| "ancestorFault (Suc n) now ep s aid = (case truthy aid of None \<Rightarrow> Some None
     | Some a \<Rightarrow> (case getCapability a s of None \<Rightarrow> Some (Some CvRevoked)
         | Some anc \<Rightarrow>
             if cap_revokedAt anc \<noteq> None then Some (Some CvRevoked)
             else if cap_epoch anc \<noteq> ep then Some (Some CvEpochMismatch)
             else if isoLe (cap_expiresAt anc) now then Some (Some CvExpired)
             else ancestorFault n now ep s (cap_parentId anc)))"

text \<open>A chain that resolves more capabilities than the table has rows repeats a row, and never ends.\<close>

definition ancestorFuel :: "store \<Rightarrow> nat" where
  "ancestorFuel s = Suc (length (db_capabilities s))"

definition scopeFault :: "CapabilityScope \<Rightarrow> AdmissionOptions \<Rightarrow> CapabilityViolation option" where
  "scopeFault scope o' =
     (if (case ao_opcode o' of None \<Rightarrow> False | Some c \<Rightarrow> c \<notin> set (scope_opcodes scope)) then Some CvOutOfScopeOpcode
      else if (case ao_workspace o' of None \<Rightarrow> False
          | Some w \<Rightarrow> scope_workspaces scope \<noteq> [] \<and> w \<notin> set (scope_workspaces scope)) then Some CvOutOfScopeWorkspace
      else if (case ao_secretRefs o' of None \<Rightarrow> False | Some ss \<Rightarrow> \<not> subsetOf ss (scope_secrets scope))
        then Some CvOutOfScopeSecret
      else None)"

definition exceeds :: "int option \<Rightarrow> int \<Rightarrow> bool" where
  "exceeds requested limit = (case requested of None \<Rightarrow> False | Some r \<Rightarrow> r > limit)"

definition reached :: "int option \<Rightarrow> int \<Rightarrow> bool" where
  "reached current limit = (case current of None \<Rightarrow> False | Some c \<Rightarrow> c \<ge> limit)"

definition limitFault :: "CapabilityLimits \<Rightarrow> AdmissionOptions \<Rightarrow> CapabilityViolation option" where
  "limitFault l o' =
     (if (case ao_requestedLimits o' of None \<Rightarrow> False
          | Some r \<Rightarrow> exceeds (pl_cpuMs r) (cpuMs l) \<or> exceeds (pl_memoryBytes r) (memoryBytes l)
             \<or> exceeds (pl_outputBytes r) (outputBytes l) \<or> exceeds (pl_concurrentOps r) (concurrentOps l)
             \<or> exceeds (pl_processes r) (processes l)) then Some CvBudgetExceeded
      else if reached (ao_currentConcurrentOps o') (concurrentOps l) then Some CvConcurrencyExceeded
      else if ao_opcode o' = Some ''proc.spawn'' \<and> reached (ao_currentProcesses o') (processes l)
        then Some CvConcurrencyExceeded
      else None)"

definition admitResources :: "CapabilityScope \<Rightarrow> string list option \<Rightarrow> CapabilityViolation + string list" where
  "admitResources scope requested = (case requested of
      Some (r # rs) \<Rightarrow> if subsetOf (r # rs) (scope_exclusive scope) then Inr (r # rs) else Inl CvOutOfScopeResource
    | _ \<Rightarrow> Inr (scope_exclusive scope))"

definition admitRoots :: "fsys \<Rightarrow> CapabilityScope \<Rightarrow> string list option \<Rightarrow> CapabilityViolation + string list" where
  "admitRoots fs scope requested = (case requested of
      Some (r # rs) \<Rightarrow> (let resolved = map (normalizePathPattern fs) (r # rs)
         in if pathsWithin fs (scope_paths scope) resolved then Inr resolved else Inl CvOutOfScopePath)
    | _ \<Rightarrow> Inr (scope_paths scope))"

text \<open>The decision; \<open>None\<close> is the loop that never ends.\<close>

definition decideAdmission ::
    "fsys \<Rightarrow> millis \<Rightarrow> store \<Rightarrow> AdmissionOptions \<Rightarrow> (CapabilityViolation + AdmissionResult) option" where
  "decideAdmission fs now s o' = (case getCapability (ao_capabilityId o') s of
      None \<Rightarrow> Some (Inl CvRevoked)
    | Some cap \<Rightarrow>
        if cap_domainId cap \<noteq> ao_domainId o' then Some (Inl CvDomainMismatch)
        else if cap_epoch cap \<noteq> ao_currentEpoch o' then Some (Inl CvEpochMismatch)
        else if isoLe (cap_expiresAt cap) now then Some (Inl CvExpired)
        else if cap_revokedAt cap \<noteq> None then Some (Inl CvRevoked)
        else if (case ao_policyVersion o' of None \<Rightarrow> False | Some v \<Rightarrow> cap_policyVersion cap \<noteq> v)
          then Some (Inl CvPolicyMismatch)
        else (case ancestorFault (ancestorFuel s) now (ao_currentEpoch o') s (cap_parentId cap) of
            None \<Rightarrow> None
          | Some (Some v) \<Rightarrow> Some (Inl v)
          | Some None \<Rightarrow> (let scope = normalizeScope fs (asInput (cap_scope cap)) in Some
              (case scopeFault scope o' of Some v \<Rightarrow> Inl v
               | None \<Rightarrow> (case limitFault (cap_limits cap) o' of Some v \<Rightarrow> Inl v
                 | None \<Rightarrow> (case admitResources scope (ao_requiredResources o') of Inl v \<Rightarrow> Inl v
                   | Inr res \<Rightarrow> (case admitRoots fs scope (ao_mutationRoots o') of Inl v \<Rightarrow> Inl v
                     | Inr roots \<Rightarrow> Inr \<lparr>ar_capability = cap\<lparr>cap_scope := scope\<rparr>,
                         ar_effectiveResources = res, ar_effectiveMutationRoots = roots,
                         ar_effectiveLimits = cap_limits cap\<rparr>)))))))"

fun violationStr :: "CapabilityViolation \<Rightarrow> string" where
  "violationStr CvExpired = ''expired''"
| "violationStr CvRevoked = ''revoked''"
| "violationStr CvEpochMismatch = ''epoch_mismatch''"
| "violationStr CvOutOfScopeResource = ''out_of_scope_resource''"
| "violationStr CvOutOfScopePath = ''out_of_scope_path''"
| "violationStr CvOutOfScopeOpcode = ''out_of_scope_opcode''"
| "violationStr CvOutOfScopeWorkspace = ''out_of_scope_workspace''"
| "violationStr CvOutOfScopeSecret = ''out_of_scope_secret''"
| "violationStr CvBudgetExceeded = ''budget_exceeded''"
| "violationStr CvConcurrencyExceeded = ''concurrency_exceeded''"
| "violationStr CvPolicyMismatch = ''policy_mismatch''"
| "violationStr CvDomainMismatch = ''domain_mismatch''"
| "violationStr CvAttenuationWidened = ''attenuation_widened''"

text \<open>\<open>reject\<close>: the journal entry is attempted, its failure swallowed, the violation thrown.\<close>

definition rejectAdmission :: "millis \<Rightarrow> AdmissionOptions \<Rightarrow> CapabilityViolation \<Rightarrow> 'a storeM" where
  "rejectAdmission now o' v = thenDo
     (catchE (recordEvent (mkEvent (ao_domainId o') (ao_runId o') (ao_opId o') ''CAPABILITY_REJECTED''
        (JObj [(''capabilityId'', JStr (ao_capabilityId o')), (''reason'', JStr (violationStr v)),
               (''requiredResources'', optJ strsJ (ao_requiredResources o')),
               (''mutationRoots'', optJ strsJ (ao_mutationRoots o'))]) now)) (\<lambda>_. ret ()))
     (raise (CapabilityViolationError v))"

definition checkCapabilityAdmission :: "fsys \<Rightarrow> millis \<Rightarrow> AdmissionOptions \<Rightarrow> AdmissionResult storeM" where
  "checkCapabilityAdmission fs now o' = (\<lambda>s. case decideAdmission fs now s o' of
      None \<Rightarrow> (Inl LoopsForever, s)
    | Some (Inl v) \<Rightarrow> rejectAdmission now o' v s
    | Some (Inr r) \<Rightarrow> (Inr r, s))"

end
