(* ===== verification/Domain.thy ===== *)
theory Domain
  imports Capability
begin

text \<open>
  The execution domain, \<open>ExecutionDomain\<close> in \<open>src/src/domain.ts\<close>: the owner of a store, the
  in-memory isolation table, the FIFO queue of waiting requests, adjudication, and the issuing
  of capabilities. A promise of a waiting request is its ticket: \<open>dm_settled\<close> lists the tickets
  in the order they were resolved (\<open>None\<close>) or rejected. \<open>cancelled t\<close> is the answer of the
  \<open>isCancelled\<close> callback of request \<open>t\<close> (false when it has none), \<open>alive\<close> the probe
  \<open>process.kill(pid, 0)\<close>.
\<close>

section \<open>State\<close>

record waiter =
  w_ticket :: nat
  w_op :: string
  w_resources :: "string list"
  w_budget :: "ResourceBudget option"
  w_startTime :: millis
  w_maxWaitMs :: int

record domain =
  dm_store :: store
  dm_domainId :: string
  dm_owner :: OwnerRecord
  dm_budget :: "DomainBudget option"
  dm_locked :: "(string, string) jsmap"
  dm_allocated :: "string list"
  dm_budgets :: "(string, ResourceBudget) jsmap"
  dm_queue :: "waiter list"
  dm_fenced :: bool
  dm_open :: bool
  dm_nextTicket :: nat
  dm_settled :: "(nat \<times> KError option) list"

type_synonym 'a domM = "(domain, KError, 'a) act"

definition inStore :: "'a storeM \<Rightarrow> 'a domM" where
  "inStore m = (\<lambda>d. case m (dm_store d) of (r, s) \<Rightarrow> (r, d\<lparr>dm_store := s\<rparr>))"

definition getEpoch :: "domain \<Rightarrow> int" where
  "getEpoch d = own_epoch (dm_owner d)"

definition assertNotFenced :: "unit domM" where
  "assertNotFenced = (\<lambda>d. if dm_fenced d
     then (Inl (EpochFencedError (dm_domainId d) (own_epoch (dm_owner d))
        (case getOwner (dm_domainId d) (dm_store d) of Some ow \<Rightarrow> own_epoch ow | None \<Rightarrow> -1)), d)
     else (Inr (), d))"

definition isResourceLocked :: "string \<Rightarrow> domain \<Rightarrow> bool" where
  "isResourceLocked res d \<longleftrightarrow> mapGet (dm_locked d) res \<noteq> None"

definition getResourceOwner :: "string \<Rightarrow> domain \<Rightarrow> string option" where
  "getResourceOwner res d = mapGet (dm_locked d) res"

section \<open>Rebuilding the isolation table\<close>

definition nullish :: "json \<Rightarrow> json \<Rightarrow> json" where
  "nullish a b = (if a = JUndef \<or> a = JNull then b else a)"

text \<open>Workspace transactions whose commit is not settled, with the roots they write and read.\<close>

fun pendingTx :: "JournalEvent list \<Rightarrow> (string, json \<times> json) jsmap \<Rightarrow> (string, string list) jsmap \<Rightarrow>
    KError + (string, string list) jsmap" where
  "pendingTx [] roots pending = Inr pending"
| "pendingTx (e # es) roots pending =
     (let p = ev_payload e in case (startsWith (ev_type e) ''TX_'', jfield p ''txId'') of
        (True, JStr tx) \<Rightarrow>
          if ev_type e = ''TX_BEGUN''
          then pendingTx es (mapSet tx (jfield p ''root'', jfield p ''forkRoot'') roots) pending
          else if ev_type e = ''TX_COMMITTING''
          then (let begun = mapGet roots tx;
                    target = nullish (jfield p ''root'') (case begun of Some (r, _) \<Rightarrow> r | None \<Rightarrow> JUndef);
                    source = nullish (jfield p ''sourceRoot'') (case begun of Some (_, f) \<Rightarrow> f | None \<Rightarrow> JUndef)
                in case (target, source) of
                    (JStr t, JStr src) \<Rightarrow> pendingTx es roots (mapSet tx (uniqueList [t, src]) pending)
                  | _ \<Rightarrow> Inl (IncompleteIsolationEvidence tx))
          else if ev_type e = ''TX_COMMITTED'' \<or> ev_type e = ''TX_ABORTED''
          then pendingTx es roots (mapDel tx pending)
          else pendingTx es roots pending
      | _ \<Rightarrow> pendingTx es roots pending)"

definition lockLease :: "ResourceLease \<Rightarrow> domain \<Rightarrow> domain" where
  "lockLease l d = d\<lparr>dm_locked := mapSet (lease_resourceId l) (lease_operationId l) (dm_locked d),
     dm_budgets := (case lease_budget l of Some b \<Rightarrow> mapSet (lease_operationId l) b (dm_budgets d)
                    | None \<Rightarrow> dm_budgets d)\<rparr>"

definition lockAll :: "string \<Rightarrow> string list \<Rightarrow> (string, string) jsmap \<Rightarrow> (string, string) jsmap" where
  "lockAll opId ress m = fold (\<lambda>r. mapSet r opId) ress m"

definition lockUnfinished :: "Operation \<Rightarrow> domain \<Rightarrow> domain" where
  "lockUnfinished o' d = d\<lparr>dm_allocated := setAdd (op_id o') (dm_allocated d),
     dm_locked := lockAll (op_id o') (op_requiredResources o') (dm_locked d),
     dm_budgets := (case op_resourceBudget o' of Some b \<Rightarrow> mapSet (op_id o') b (dm_budgets d)
                    | None \<Rightarrow> dm_budgets d)\<rparr>"

definition lockRoot :: "string \<Rightarrow> string \<Rightarrow> unit domM" where
  "lockRoot owner root = (\<lambda>d. let resource = ''workspace:write:'' @ root
     in case truthy (mapGet (dm_locked d) resource) of
         Some existing \<Rightarrow> if existing \<noteq> owner then (Inl (ResourceConflictError resource existing owner 0), d)
           else (Inr (), d\<lparr>dm_locked := mapSet resource owner (dm_locked d)\<rparr>)
       | None \<Rightarrow> (Inr (), d\<lparr>dm_locked := mapSet resource owner (dm_locked d)\<rparr>))"

definition lockPending :: "string \<times> string list \<Rightarrow> unit domM" where
  "lockPending p = (\<lambda>d. let owner = fst p @ '':apply''
     in case getOperation owner (dm_store d) of
         Some o' \<Rightarrow> (Inl (DuplicateOperationError owner (Some (op_status o')) (op_runId o')), d)
       | None \<Rightarrow> thenDo (forEach (snd p) (lockRoot owner))
           (modify (\<lambda>d. d\<lparr>dm_allocated := setAdd owner (dm_allocated d)\<rparr>)) d)"

definition rebuildIsolationFromStore :: "unit domM" where
  "rebuildIsolationFromStore = (\<lambda>d.
     let cleared = d\<lparr>dm_locked := [], dm_budgets := [], dm_allocated := []\<rparr>;
         leased = fold lockLease (getPersistedResourceLeases (dm_domainId d) (dm_store d)) cleared;
         held = fold lockUnfinished (getUnfinishedOperations (dm_domainId d) (dm_store d)) leased
     in case pendingTx (getJournalEvents (dm_domainId d) 0 None None (dm_store d)) [] [] of
         Inl e \<Rightarrow> (Inl e, held)
       | Inr pending \<Rightarrow> forEach pending lockPending held)"

section \<open>Allocation\<close>

definition getActiveOperationIds :: "domain \<Rightarrow> string list" where
  "getActiveOperationIds d = fold (\<lambda>o' ids. setAdd (op_id o') ids)
     (getUnfinishedOperations (dm_domainId d) (dm_store d)) (dm_allocated d)"

text \<open>The first requested resource another operation holds, with its holder.\<close>

fun lockConflict :: "(string, string) jsmap \<Rightarrow> string \<Rightarrow> string list \<Rightarrow> (string \<times> string) option" where
  "lockConflict locked opId [] = None"
| "lockConflict locked opId (r # rs) = (case truthy (mapGet locked r) of
     Some owner \<Rightarrow> if owner \<noteq> opId then Some (r, owner) else lockConflict locked opId rs
   | None \<Rightarrow> lockConflict locked opId rs)"

text \<open>The holder reported when the cap on concurrent operations refuses \<open>opId\<close>.\<close>

definition concurrencyConflict :: "domain \<Rightarrow> string \<Rightarrow> string option" where
  "concurrencyConflict d opId = (case Option.bind (dm_budget d) maxConcurrentOps of
     None \<Rightarrow> None
   | Some n \<Rightarrow> if n = 0 then None
       else (let active = getActiveOperationIds d
             in if int (length active) \<ge> n \<and> opId \<notin> set active
                then Some (case active of h # _ \<Rightarrow> (if h = [] then ''domain-concurrency-cap'' else h)
                           | [] \<Rightarrow> ''domain-concurrency-cap'')
                else None))"

definition allocateResources ::
    "string \<Rightarrow> string list \<Rightarrow> int \<Rightarrow> ResourceBudget option \<Rightarrow> unit domM" where
  "allocateResources opId resources waited budget = thenDo assertNotFenced (\<lambda>d.
     case lockConflict (dm_locked d) opId resources of
       Some (r, owner) \<Rightarrow> (Inl (ResourceConflictError r owner opId waited), d)
     | None \<Rightarrow> (case concurrencyConflict d opId of
         Some holder \<Rightarrow> (Inl (ResourceConflictError ''domain:max_concurrent_ops'' holder opId waited), d)
       | None \<Rightarrow> (Inr (), d\<lparr>dm_allocated := setAdd opId (dm_allocated d),
             dm_locked := lockAll opId resources (dm_locked d),
             dm_budgets := (case budget of Some b \<Rightarrow> mapSet opId b (dm_budgets d) | None \<Rightarrow> dm_budgets d)\<rparr>)))"

fun queuedAhead :: "waiter list \<Rightarrow> string \<Rightarrow> string list \<Rightarrow> (string \<times> string) option" where
  "queuedAhead q opId [] = None"
| "queuedAhead q opId (r # rs) = (case find (\<lambda>w. w_op w \<noteq> opId \<and> r \<in> set (w_resources w)) q of
     Some w \<Rightarrow> Some (r, w_op w) | None \<Rightarrow> queuedAhead q opId rs)"

definition diagnoseConflict :: "string \<Rightarrow> string list \<Rightarrow> int \<Rightarrow> domain \<Rightarrow> KError" where
  "diagnoseConflict opId resources waited d = (case lockConflict (dm_locked d) opId resources of
     Some (r, owner) \<Rightarrow> ResourceConflictError r owner opId waited
   | None \<Rightarrow> (case queuedAhead (dm_queue d) opId resources of
       Some (r, earlier) \<Rightarrow> ResourceConflictError r earlier opId waited
     | None \<Rightarrow> (case concurrencyConflict d opId of
         Some holder \<Rightarrow> ResourceConflictError ''domain:max_concurrent_ops'' holder opId waited
       | None \<Rightarrow> ResourceConflictError
           (case resources of r # _ \<Rightarrow> (if r = [] then ''domain:resource'' else r) | [] \<Rightarrow> ''domain:resource'')
           ''unknown'' opId waited)))"

fun isResourceConflict :: "KError \<Rightarrow> bool" where
  "isResourceConflict (ResourceConflictError _ _ _ _) = True"
| "isResourceConflict _ = False"

text \<open>
  \<open>allocateResourcesWithWait\<close> up to its promise: \<open>None\<close> when it resolved at once, \<open>Some t\<close> when
  the request waits in the queue as ticket \<open>t\<close>. \<open>gone\<close> is \<open>isCancelled()\<close> at the call.
\<close>

definition enqueueWaiter :: "millis \<Rightarrow> string \<Rightarrow> string list \<Rightarrow> int \<Rightarrow> ResourceBudget option \<Rightarrow> nat option domM" where
  "enqueueWaiter now opId resources maxWaitMs budget = (\<lambda>d. let t = dm_nextTicket d
     in (Inr (Some t), d\<lparr>dm_nextTicket := t + 1, dm_queue := dm_queue d @
           [\<lparr>w_ticket = t, w_op = opId, w_resources = resources, w_budget = budget, w_startTime = now,
             w_maxWaitMs = maxWaitMs\<rparr>]\<rparr>))"

definition allocateResourcesWithWait ::
    "millis \<Rightarrow> bool \<Rightarrow> string \<Rightarrow> string list \<Rightarrow> int \<Rightarrow> ResourceBudget option \<Rightarrow> nat option domM" where
  "allocateResourcesWithWait now gone opId resources maxWaitMs budget = thenDo assertNotFenced (\<lambda>d.
     if gone then (Inr None, d)
     else if list_ex (\<lambda>r. list_ex (\<lambda>w. r \<in> set (w_resources w)) (dm_queue d)) resources
     then (if maxWaitMs \<le> 0 then (Inl (diagnoseConflict opId resources 0 d), d)
           else enqueueWaiter now opId resources maxWaitMs budget d)
     else (case allocateResources opId resources 0 budget d of
         (Inr _, d') \<Rightarrow> (Inr None, d')
       | (Inl e, d') \<Rightarrow> if \<not> isResourceConflict e \<or> maxWaitMs \<le> 0 then (Inl e, d')
           else enqueueWaiter now opId resources maxWaitMs budget d'))"

definition settle :: "nat \<Rightarrow> KError option \<Rightarrow> domain \<Rightarrow> domain" where
  "settle t e d = d\<lparr>dm_settled := dm_settled d @ [(t, e)]\<rparr>"

definition dequeue :: "nat \<Rightarrow> domain \<Rightarrow> domain" where
  "dequeue t d = d\<lparr>dm_queue := filter (\<lambda>w. w_ticket w \<noteq> t) (dm_queue d)\<rparr>"

text \<open>The timer of a queued request; it was cleared when the request was settled.\<close>

definition waitTimeout :: "(nat \<Rightarrow> bool) \<Rightarrow> millis \<Rightarrow> nat \<Rightarrow> unit domM" where
  "waitTimeout cancelled now t = modify (\<lambda>d. case find (\<lambda>w. w_ticket w = t) (dm_queue d) of
     None \<Rightarrow> d
   | Some w \<Rightarrow> (let d' = dequeue t d
       in if cancelled t then settle t None d'
          else settle t (Some (diagnoseConflict (w_op w) (w_resources w) (now - w_startTime w) d')) d'))"

definition cancelWait :: "string \<Rightarrow> bool domM" where
  "cancelWait opId = (\<lambda>d. case find (\<lambda>w. w_op w = opId) (dm_queue d) of
     None \<Rightarrow> (Inr False, d)
   | Some w \<Rightarrow> (Inr True, settle (w_ticket w) None (dequeue (w_ticket w) d)))"

text \<open>
  The scan of the queue: the waiters before position \<open>i\<close> are \<open>kept\<close>, those from it on are
  the list argument; \<open>reserved\<close> are the resources of kept waiters, \<open>blocked\<close> that the cap on
  concurrent operations was hit.
\<close>

fun scanQueue :: "(nat \<Rightarrow> bool) \<Rightarrow> millis \<Rightarrow> string list \<Rightarrow> bool \<Rightarrow> waiter list \<Rightarrow> waiter list \<Rightarrow> domain \<Rightarrow> domain" where
  "scanQueue cancelled now reserved blocked kept [] d = d\<lparr>dm_queue := kept\<rparr>"
| "scanQueue cancelled now reserved blocked kept (w # ws) d =
     (if cancelled (w_ticket w)
      then scanQueue cancelled now reserved blocked kept ws (settle (w_ticket w) None d)
      else if list_ex (\<lambda>r. r \<in> set reserved) (w_resources w) \<or> blocked
      then scanQueue cancelled now (reserved @ w_resources w) blocked (kept @ [w]) ws d
      else (case allocateResources (w_op w) (w_resources w) (now - w_startTime w) (w_budget w) d of
          (Inr _, d') \<Rightarrow> scanQueue cancelled now reserved blocked kept ws (settle (w_ticket w) None d')
        | (Inl (ResourceConflictError r _ _ _), d') \<Rightarrow>
            scanQueue cancelled now (reserved @ w_resources w) (r = ''domain:max_concurrent_ops'') (kept @ [w]) ws d'
        | (Inl e, d') \<Rightarrow> scanQueue cancelled now reserved blocked kept ws (settle (w_ticket w) (Some e) d')))"

definition processWaitQueue :: "(nat \<Rightarrow> bool) \<Rightarrow> millis \<Rightarrow> unit domM" where
  "processWaitQueue cancelled now = modify (\<lambda>d.
     if dm_queue d = [] \<or> dm_fenced d then d else scanQueue cancelled now [] False [] (dm_queue d) d)"

section \<open>Release\<close>

definition releaseOne :: "string \<Rightarrow> string list \<Rightarrow> string \<Rightarrow> string list \<times> domain \<Rightarrow> string list \<times> domain" where
  "releaseOne opId persisted res acc = (case acc of (released, d) \<Rightarrow>
     if mapGet (dm_locked d) res = Some opId \<or> res \<in> set persisted
     then (released @ [res], d\<lparr>dm_locked := mapDel res (dm_locked d),
             dm_store := snd (releaseResourceLease opId (Some res) (dm_store d))\<rparr>)
     else (released, d))"

definition releaseAll :: "string \<Rightarrow> domain \<Rightarrow> string list \<times> domain" where
  "releaseAll opId d =
     (map fst (filter (\<lambda>e. snd e = opId) (dm_locked d)),
      d\<lparr>dm_locked := filter (\<lambda>e. snd e \<noteq> opId) (dm_locked d),
        dm_store := snd (releaseResourceLease opId None (dm_store d))\<rparr>)"

text \<open>The release once the writer is known to hold the domain: leases and locks, the operation's
  slot, the event, and the queue.\<close>

definition releaseBody :: "(nat \<Rightarrow> bool) \<Rightarrow> millis \<Rightarrow> string \<Rightarrow> string list \<Rightarrow> unit domM" where
  "releaseBody cancelled now opId resources = (\<lambda>d.
     let persisted = map lease_resourceId (filter (\<lambda>l. lease_operationId l = opId)
           (getPersistedResourceLeases (dm_domainId d) (dm_store d)))
     in case (if resources \<noteq> [] then fold (releaseOne opId persisted) resources ([], d) else releaseAll opId d) of
       (released, d1) \<Rightarrow>
         (let d2 = (if opId \<in> snd ` set (dm_locked d1) then d1
                    else d1\<lparr>dm_allocated := filter (\<lambda>x. x \<noteq> opId) (dm_allocated d1),
                            dm_budgets := mapDel opId (dm_budgets d1)\<rparr>)
          in thenDo (inStore (recordEvent (mkEvent (dm_domainId d2) None (Some opId) ''RESOURCES_RELEASED''
                 (JObj [(''operationId'', JStr opId), (''resources'', strsJ released),
                        (''releaseReason'', JStr ''kernel_release'')]) now)))
               (processWaitQueue cancelled now) d2))"

definition internalReleaseResources ::
    "(nat \<Rightarrow> bool) \<Rightarrow> millis \<Rightarrow> string \<Rightarrow> string list \<Rightarrow> unit domM" where
  "internalReleaseResources cancelled now opId resources =
     thenDo assertNotFenced (thenDo (\<lambda>d. inStore (verifyEpochFencing (dm_domainId d)) d)
       (releaseBody cancelled now opId resources))"

section \<open>Intents\<close>

definition assertOperationIdAvailable :: "string \<Rightarrow> unit domM" where
  "assertOperationIdAvailable opId = thenDo assertNotFenced (\<lambda>d.
     case getOperation opId (dm_store d) of
       Some o' \<Rightarrow> (Inl (DuplicateOperationError opId (Some (op_status o')) (op_runId o')), d)
     | None \<Rightarrow> if opId \<in> set (dm_allocated d) then (Inl (DuplicateOperationError opId None ''unknown''), d)
         else (Inr (), d))"

definition domainRegisterIntent ::
    "(json \<Rightarrow> string) \<Rightarrow> (nat \<Rightarrow> bool) \<Rightarrow> millis \<Rightarrow> Operation \<Rightarrow> unit domM" where
  "domainRegisterIntent H cancelled now op =
     thenDo (assertOperationIdAvailable (op_id op))
    (thenDo (allocateResources (op_id op) (op_requiredResources op) 0 (op_resourceBudget op))
     (catchE (\<lambda>d. inStore (registerOperationIntent H now op (dm_domainId d)) d)
       (\<lambda>e. thenDo (internalReleaseResources cancelled now (op_id op) (op_requiredResources op)) (raise e))))"

section \<open>Adjudication\<close>

fun verdictStr :: "AdjudicationVerdict \<Rightarrow> string" where
  "verdictStr ConfirmedStopped = ''confirmed_stopped''"
| "verdictStr AbandonWithResiduals = ''abandon_with_residuals''"

fun decisionStr :: "AdjudicationDecision \<Rightarrow> string" where
  "decisionStr DSucceeded = ''succeeded''"
| "decisionStr DFailed = ''failed''"
| "decisionStr DRolledBack = ''rolled_back''"
| "decisionStr DPartial = ''partial''"

text \<open>The part before the residual scan: the operation is done and indeterminate.\<close>

definition adjudicable :: "string \<Rightarrow> (Operation \<times> IndeterminateResult) domM" where
  "adjudicable opId = thenDo assertNotFenced (thenDo (\<lambda>d. inStore (verifyEpochFencing (dm_domainId d)) d) (\<lambda>d.
     case getOperation opId (dm_store d) of None \<Rightarrow> (Inl (OperationNotFound opId), d)
     | Some o' \<Rightarrow> (case (op_status o', op_result o') of
         (ODone, Some (ResIndeterminate r)) \<Rightarrow> (Inr (o', r), d)
       | _ \<Rightarrow> (Inl (NotAdjudicable opId), d))))"

text \<open>
  The residual scan: \<open>probe p\<close> is \<open>probeAlive(p)\<close>; \<open>groupEvidence\<close> the driver's method of that
  name (\<open>None\<close> when the driver lacks it), which throws a message or lists the group's pids.
\<close>

definition residualScan ::
    "(int \<Rightarrow> bool) \<Rightarrow> (int \<Rightarrow> string + int list) option \<Rightarrow> ProcessIdentity option \<Rightarrow> int list \<times> string option" where
  "residualScan probe groupEvidence identity =
     (let p = (case identity of Some i \<Rightarrow> pid i | None \<Rightarrow> 0);
          direct = (if p \<noteq> 0 \<and> probe p then [p] else [])
      in case Option.bind identity pgid of
          None \<Rightarrow> (direct, None)
        | Some g \<Rightarrow> (case groupEvidence of
            Some f \<Rightarrow> (case f g of
                Inl err \<Rightarrow> (direct, Some err)
              | Inr members \<Rightarrow> (fold setAdd members direct, None))
          | None \<Rightarrow> (if probe (- g) \<and> p \<noteq> 0 \<and> p \<notin> set direct then direct @ [p] else direct, None)))"

definition adjudicate ::
    "(nat \<Rightarrow> bool) \<Rightarrow> (int \<Rightarrow> bool) \<Rightarrow> (int \<Rightarrow> string + int list) option \<Rightarrow> millis \<Rightarrow> string \<Rightarrow> AdjudicationVerdict \<Rightarrow>
     string \<Rightarrow> string option \<Rightarrow> AdjudicationDecision option \<Rightarrow> string option \<Rightarrow> AdjudicationRecord domM" where
  "adjudicate cancelled probe groupEvidence now opId verdict actor note decision evidence =
     andThen (adjudicable opId) (\<lambda>(op, r).
       case residualScan probe groupEvidence (op_processIdentity op) of (residuals, scanError) \<Rightarrow>
         thenDo (guardE (\<not> (verdict = ConfirmedStopped \<and> scanError \<noteq> None))
             (ResidualScanFailed opId (case scanError of Some e \<Rightarrow> e | None \<Rightarrow> [])))
        (thenDo (guardE (\<not> (verdict = ConfirmedStopped \<and> residuals \<noteq> [])) (ResidualsAlive opId residuals))
         (let record = \<lparr>adj_operationId = opId, adj_verdict = verdict, adj_decision = decision, adj_actor = actor,
                adj_note = note, adj_evidence = evidence,
                adj_residualPids = (if residuals = [] then None else Some residuals), adj_decidedAt = now\<rparr>
          in thenDo (\<lambda>d. inStore (recordEvent (mkEvent (dm_domainId d) (Some (op_runId op)) (Some opId) ''OPERATION_ADJUDICATED''
                 (JObj [(''operationId'', JStr opId), (''verdict'', JStr (verdictStr verdict)),
                        (''decision'', optJ (\<lambda>x. JStr (decisionStr x)) decision), (''actor'', JStr actor),
                        (''note'', optJ JStr note), (''evidence'', optJ JStr evidence),
                        (''residualPids'', optJ (\<lambda>xs. JArr (map JNum xs)) (adj_residualPids record)),
                        (''decidedAt'', JNum now),
                        (''processIdentity'', optJ identityJson (op_processIdentity op))]) now)) d)
            (thenDo (inStore (updateOperationResult opId (ResIndeterminate (r\<lparr>ir_adjudication := Some record\<rparr>))))
            (thenDo (internalReleaseResources cancelled now opId (op_requiredResources op))
              (ret record))))))"

section \<open>Runs\<close>

definition domainReportCancelled :: "millis \<Rightarrow> string \<Rightarrow> TerminationReason \<Rightarrow> unit domM" where
  "domainReportCancelled now runId reason = thenDo assertNotFenced (inStore (reportRunCancelled now runId reason))"

definition domainReportSucceeded :: "millis \<Rightarrow> string \<Rightarrow> unit domM" where
  "domainReportSucceeded now runId = thenDo assertNotFenced (inStore (reportRunSucceeded now runId))"

definition domainReportFailed :: "millis \<Rightarrow> string \<Rightarrow> TerminationReason \<Rightarrow> unit domM" where
  "domainReportFailed now runId reason = thenDo assertNotFenced (inStore (reportRunFailed now runId reason))"

section \<open>Ownership\<close>

definition ownerTtl :: int where
  "ownerTtl = 60000"

definition renewHeartbeat :: "(int \<Rightarrow> bool) \<Rightarrow> millis \<Rightarrow> string \<Rightarrow> unit domM" where
  "renewHeartbeat alive now hostname = (\<lambda>d. if \<not> dm_open d then (Inr (), d)
     else (case acquireOwnerLease alive now (dm_domainId d) (own_ownerId (dm_owner d)) hostname ownerTtl False (dm_store d) of
         (Inr r, s) \<Rightarrow> (Inr (), d\<lparr>dm_owner := r, dm_store := s\<rparr>)
       | (Inl e, s) \<Rightarrow> (Inl e, d\<lparr>dm_fenced := True, dm_store := snd (fence s)\<rparr>)))"

text \<open>The periodic heartbeat: as \<open>renewHeartbeat\<close>, the failure swallowed.\<close>

definition heartbeatTick :: "(int \<Rightarrow> bool) \<Rightarrow> millis \<Rightarrow> string \<Rightarrow> unit domM" where
  "heartbeatTick alive now hostname = catchE (renewHeartbeat alive now hostname) (\<lambda>_. ret ())"

text \<open>
  The lock file: \<open>None\<close> when it does not exist, \<open>Some None\<close> when it cannot be read as metadata.
  The result is the error \<open>acquire\<close> throws when the lock is held.
\<close>

record LockMeta =
  lm_domainId :: string
  lm_ownerPid :: int
  lm_acquiredAt :: millis

definition lockRefused ::
    "(int \<Rightarrow> bool) \<Rightarrow> millis \<Rightarrow> string \<Rightarrow> LockMeta option option \<Rightarrow> store \<Rightarrow> KError option" where
  "lockRefused alive now domainId lockFile s = (case lockFile of
     Some (Some m) \<Rightarrow>
       (let leaseExpired = (case getOwner domainId s of Some ow \<Rightarrow> own_expiresAt ow < now | None \<Rightarrow> False)
        in if alive (lm_ownerPid m) \<and> \<not> leaseExpired
           then Some (DomainLockedError (lm_domainId m) (lm_ownerPid m) (lm_acquiredAt m)) else None)
   | _ \<Rightarrow> None)"

text \<open>
  \<open>ExecutionDomain.acquire\<close> on the database \<open>s\<close>: the new domain, or the error with the database
  it leaves. A failed rebuild closes the store and removes the lock file; the owner row stays.
\<close>

definition acquireDomain ::
    "(int \<Rightarrow> bool) \<Rightarrow> millis \<Rightarrow> string \<Rightarrow> string \<Rightarrow> string \<Rightarrow> LockMeta option option \<Rightarrow> store \<Rightarrow> KError + domain" where
  "acquireDomain alive now domainId ownerId hostname lockFile s =
     (case lockRefused alive now domainId lockFile s of Some e \<Rightarrow> Inl e
      | None \<Rightarrow> (case acquireOwnerLease alive now domainId ownerId hostname ownerTtl False (s\<lparr>st_currentEpoch := None\<rparr>) of
          (Inl e, _) \<Rightarrow> Inl e
        | (Inr r, s') \<Rightarrow>
            (case rebuildIsolationFromStore \<lparr>dm_store = s', dm_domainId = domainId, dm_owner = r, dm_budget = None,
                dm_locked = [], dm_allocated = [], dm_budgets = [], dm_queue = [], dm_fenced = False,
                dm_open = True, dm_nextTicket = 0, dm_settled = []\<rparr> of
               (Inl e, _) \<Rightarrow> Inl e
             | (Inr _, d) \<Rightarrow> Inr d)))"

definition closeDomain :: "unit domM" where
  "closeDomain = modify (\<lambda>d. d\<lparr>
     dm_settled := dm_settled d @ map (\<lambda>w. (w_ticket w, Some (DomainClosedWhileWaiting (dm_domainId d)))) (dm_queue d),
     dm_queue := [],
     dm_store := snd (releaseOwnerLease (dm_domainId d) (own_ownerId (dm_owner d)) (dm_store d)),
     dm_open := False\<rparr>)"

definition setDomainBudget :: "DomainBudget \<Rightarrow> unit domM" where
  "setDomainBudget b = modify (\<lambda>d. d\<lparr>dm_budget := Some b\<rparr>)"

record DomainStatus =
  ds_domainId :: string
  ds_epoch :: int
  ds_owner :: OwnerRecord
  ds_tasks :: "Task list"
  ds_runs :: "Run list"
  ds_activeRuns :: "Run list"
  ds_operations :: "Operation list"
  ds_unfinishedOperations :: "Operation list"
  ds_leases :: "ResourceLease list"

definition getStatus :: "domain \<Rightarrow> DomainStatus" where
  "getStatus d = (let s = dm_store d; i = dm_domainId d in
     \<lparr>ds_domainId = i, ds_epoch = getEpoch d, ds_owner = dm_owner d, ds_tasks = getAllTasks (Some i) s,
      ds_runs = getAllRuns (Some i) s, ds_activeRuns = getActiveRuns i s, ds_operations = getAllOperations i s,
      ds_unfinishedOperations = getUnfinishedOperations i s, ds_leases = getPersistedResourceLeases i s\<rparr>)"

section \<open>Capabilities\<close>

definition limitsJson :: "CapabilityLimits \<Rightarrow> json" where
  "limitsJson l = JObj [(''cpuMs'', JNum (cpuMs l)), (''memoryBytes'', JNum (memoryBytes l)),
     (''outputBytes'', JNum (outputBytes l)), (''concurrentOps'', JNum (concurrentOps l)),
     (''processes'', JNum (processes l))]"

definition scopeJson :: "CapabilityScope \<Rightarrow> json" where
  "scopeJson c = JObj [(''write'', strsJ (scope_write c)), (''exclusive'', strsJ (scope_exclusive c)),
     (''opcodes'', strsJ (scope_opcodes c)), (''workspaces'', strsJ (scope_workspaces c)),
     (''paths'', strsJ (scope_paths c)), (''secrets'', strsJ (scope_secrets c))]"

text \<open>The request: its v1 form carries issuer, policy version, reason and limits; the 0.x form only a
  scope, an actor and a lifetime. \<open>fresh\<close> is the random part of the identifier.\<close>

record IssueRequest =
  iq_scope :: CapabilityScopeInput
  iq_v1 :: bool
  iq_issuer :: "string option"
  iq_policyVersion :: "string option"
  iq_reason :: "string option"
  iq_limits :: "PartialLimits option"
  iq_ttlMs :: "int option"
  iq_expiresAt :: "iso option"

definition fencedE :: "domain \<Rightarrow> KError" where
  "fencedE d = EpochFencedError (dm_domainId d) (own_epoch (dm_owner d)) (own_epoch (dm_owner d))"

definition issueCapability :: "fsys \<Rightarrow> millis \<Rightarrow> string \<Rightarrow> IssueRequest \<Rightarrow> Capability domM" where
  "issueCapability fs now fresh q = (\<lambda>d.
     if dm_fenced d then (Inl (fencedE d), d)
     else (case truthy (iq_issuer q) of
       None \<Rightarrow> (Inl (TypeError ''Capability issuer is required''), d)
     | Some issuer \<Rightarrow>
        (let expiresAt = (case iq_expiresAt q of Some t \<Rightarrow> t | None \<Rightarrow> Iso (now + orElse (iq_ttlMs q) 60000))
         in if (case getTime expiresAt of None \<Rightarrow> True | Some t \<Rightarrow> t \<le> now)
            then (Inl (TypeError ''Capability expiration must be a future ISO timestamp''), d)
            else (case normalizeCapabilityLimits (if iq_v1 q then iq_limits q else None) of
                Inl e \<Rightarrow> (Inl e, d)
              | Inr limits \<Rightarrow>
                 (let cap = \<lparr>cap_id = (if iq_v1 q then ''cap:'' else ''cap-'') @ fresh, cap_domainId = dm_domainId d,
                        cap_scope = normalizeScope fs (iq_scope q), cap_issuedBy = issuer,
                        cap_policyVersion = (if iq_v1 q then orElse (iq_policyVersion q) ''legacy/0'' else ''legacy/0''),
                        cap_reason = (if iq_v1 q then orElse (iq_reason q) ''legacy-capability'' else ''legacy-capability''),
                        cap_limits = limits, cap_expiresAt = expiresAt, cap_parentId = None,
                        cap_epoch = getEpoch d, cap_createdAt = now, cap_revokedAt = None\<rparr>
                  in thenDo (inStore (recordCapability cap))
                    (thenDo (inStore (recordEvent (mkEvent (dm_domainId d) None None ''CAPABILITY_ISSUED''
                       (JObj [(''capabilityId'', JStr (cap_id cap)), (''actor'', JStr issuer), (''issuer'', JStr issuer),
                              (''policyVersion'', JStr (cap_policyVersion cap)), (''reason'', JStr (cap_reason cap)),
                              (''scope'', scopeJson (cap_scope cap)), (''limits'', limitsJson limits),
                              (''expiresAt'', isoJson expiresAt), (''epoch'', JNum (cap_epoch cap))]) now)))
                     (ret cap)) d)))))"

record AttenuateOptions =
  aq_ttlMs :: "int option"
  aq_policyVersion :: "string option"
  aq_reason :: "string option"
  aq_limits :: "PartialLimits option"

text \<open>\<open>Math.min(requested, parent)\<close>; an unparsable expiry of the parent makes the date invalid.\<close>

definition childExpiry :: "millis \<Rightarrow> iso \<Rightarrow> int option \<Rightarrow> KError + iso" where
  "childExpiry now parentExpiry ttlMs = (case getTime parentExpiry of
     None \<Rightarrow> Inl (RangeError ''Invalid time value'')
   | Some p \<Rightarrow> Inr (Iso (min (case ttlMs of None \<Rightarrow> p | Some t \<Rightarrow> now + t) p)))"

definition attenuate ::
    "fsys \<Rightarrow> millis \<Rightarrow> string \<Rightarrow> string \<Rightarrow> CapabilityScopeInput \<Rightarrow> string \<Rightarrow> AttenuateOptions \<Rightarrow> Capability domM" where
  "attenuate fs now fresh capId narrower actor config = (\<lambda>d.
     let reject = (\<lambda>v. (Inl (CapabilityViolationError v), d)); s = dm_store d in
     if dm_fenced d then (Inl (fencedE d), d)
     else (case getCapability capId s of None \<Rightarrow> reject CvRevoked
     | Some parent \<Rightarrow>
        if cap_epoch parent \<noteq> getEpoch d then reject CvEpochMismatch
        else if cap_revokedAt parent \<noteq> None then reject CvRevoked
        else if isoLe (cap_expiresAt parent) now then reject CvExpired
        else (case ancestorFault (ancestorFuel s) now (getEpoch d) s (cap_parentId parent) of
          None \<Rightarrow> (Inl LoopsForever, d)
        | Some (Some v) \<Rightarrow> reject v
        | Some None \<Rightarrow> (case validateScopeNarrowing fs (cap_scope parent) narrower of
            Inl v \<Rightarrow> reject v
          | Inr childScope \<Rightarrow>
             if (case aq_policyVersion config of None \<Rightarrow> False | Some v \<Rightarrow> v \<noteq> cap_policyVersion parent)
             then reject CvPolicyMismatch
             else (case narrowCapabilityLimits (cap_limits parent) (aq_limits config) of
                Inl e \<Rightarrow> (Inl e, d)
              | Inr childLimits \<Rightarrow> (case childExpiry now (cap_expiresAt parent) (aq_ttlMs config) of
                  Inl e \<Rightarrow> (Inl e, d)
                | Inr expiresAt \<Rightarrow>
                   (let child = \<lparr>cap_id = (if startsWith (cap_id parent) ''cap:'' then ''cap:'' else ''cap-'') @ fresh,
                          cap_domainId = dm_domainId d, cap_scope = childScope, cap_issuedBy = actor,
                          cap_policyVersion = cap_policyVersion parent,
                          cap_reason = orElse (aq_reason config) ''attenuation'', cap_limits = childLimits,
                          cap_expiresAt = expiresAt, cap_parentId = Some (cap_id parent), cap_epoch = getEpoch d,
                          cap_createdAt = now, cap_revokedAt = None\<rparr>
                    in thenDo (inStore (recordCapability child))
                      (thenDo (inStore (recordEvent (mkEvent (dm_domainId d) None None ''CAPABILITY_ATTENUATED''
                         (JObj [(''capabilityId'', JStr (cap_id child)), (''parentId'', JStr (cap_id parent)),
                                (''actor'', JStr actor), (''issuer'', JStr actor),
                                (''policyVersion'', JStr (cap_policyVersion child)), (''reason'', JStr (cap_reason child)),
                                (''scope'', scopeJson childScope), (''limits'', limitsJson childLimits),
                                (''expiresAt'', isoJson expiresAt), (''epoch'', JNum (cap_epoch child))]) now)))
                       (ret child)) d)))))))"

definition revokeCapability :: "millis \<Rightarrow> string \<Rightarrow> string \<Rightarrow> unit domM" where
  "revokeCapability now capId actor = (\<lambda>d.
     if dm_fenced d then (Inl (fencedE d), d)
     else (case getCapability capId (dm_store d) of None \<Rightarrow> (Inr (), d)
       | Some _ \<Rightarrow> thenDo (inStore (storeRevokeCapability capId (dm_domainId d) now))
           (inStore (recordEvent (mkEvent (dm_domainId d) None None ''CAPABILITY_REVOKED''
              (JObj [(''capabilityId'', JStr capId), (''actor'', JStr actor), (''revokedAt'', JNum now)]) now))) d))"

text \<open>The options of the caller, completed with the domain's own facts.\<close>

definition domainCheckAdmission :: "fsys \<Rightarrow> millis \<Rightarrow> AdmissionOptions \<Rightarrow> AdmissionResult domM" where
  "domainCheckAdmission fs now o' = (\<lambda>d.
     let active = filter (\<lambda>x. op_capabilityId x = Some (ao_capabilityId o') \<and> Some (op_id x) \<noteq> ao_opId o'
                            \<and> op_status x \<noteq> ODone) (getAllOperations (dm_domainId d) (dm_store d))
     in inStore (checkCapabilityAdmission fs now (o'\<lparr>ao_domainId := dm_domainId d, ao_currentEpoch := getEpoch d,
          ao_currentConcurrentOps := Some (int (length active)),
          ao_currentProcesses := Some (int (length (filter (\<lambda>x. op_kind x = KProcess \<or> op_kind x = KService) active)))\<rparr>)) d)"

end
