(* ===== verification/DomainLaws.thy ===== *)
theory DomainLaws
  imports Domain
begin

text \<open>
  The isolation barrier of a domain. \<open>isolated d\<close>: every persisted lease of the domain is held,
  in the isolation table, by the operation it names. The contract \<open>isolating\<close> (a method keeps the
  barrier) is a locale, interpreted on the methods of the domain and on the store methods the
  kernel calls on it; \<open>domStep\<close> and \<open>domReach\<close> close them into a transition system.
\<close>

section \<open>The lease table under the store's methods\<close>

text \<open>Every store method but the registration of an intent only removes leases.\<close>

definition leasesWithin :: "ResourceLease set \<Rightarrow> store \<Rightarrow> bool" where
  "leasesWithin L s \<longleftrightarrow> set (db_leases s) \<subseteq> L"

lemma within_keep:
  assumes "\<And>s. db_leases (f s) = db_leases s"
  shows "preserves (leasesWithin L) (modify f)"
  by (rule pres_modify) (simp add: leasesWithin_def assms)

lemma within_frame: "db_leases t = db_leases s \<Longrightarrow> leasesWithin L s \<Longrightarrow> leasesWithin L t"
  by (simp add: leasesWithin_def)

lemma within_verify: "preserves (leasesWithin L) (verifyEpochFencing d)"
  by (rule pres_verify)

lemma within_recordTransition: "preserves (leasesWithin L) (recordEventAndTransitionState e)"
proof (rule preservesI)
  fix s assume "leasesWithin L s"
  then show "leasesWithin L (snd (recordEventAndTransitionState e s))"
    by (cases rule: recordEvent_cases [of e s]) (simp_all add: leasesWithin_def)
qed

lemma within_recordEvent: "preserves (leasesWithin L) (recordEvent e)"
  unfolding recordEvent_def by (intro pres_andThen within_recordTransition pres_ret)

lemma within_deleteLeases: "preserves (leasesWithin L) (deleteLeases opId)"
  unfolding deleteLeases_def by (rule pres_modify) (auto simp: leasesWithin_def)

lemma within_modifyOperation: "preserves (leasesWithin L) (modifyOperation opId f)"
  unfolding modifyOperation_def by (rule within_keep) simp

lemma within_setRunStatus: "preserves (leasesWithin L) (setRunStatus runId st reason endedAt)"
  unfolding setRunStatus_def by (rule within_keep) simp

lemma pres_lookup_any:
  assumes "\<And>s y. lk s = Some y \<Longrightarrow> preserves I (f s y)"
  shows "preserves I (atomically (\<lambda>s. case lk s of None \<Rightarrow> (Inl e, s) | Some y \<Rightarrow> f s y s))"
proof (rule pres_atomically, rule preservesI)
  fix s assume "I s"
  then show "I (snd (case lk s of None \<Rightarrow> (Inl e, s) | Some y \<Rightarrow> f s y s))"
    using assms by (cases "lk s") (simp_all add: preserves_snd)
qed

lemmas within = within_verify within_recordEvent within_recordTransition within_deleteLeases within_modifyOperation
  within_setRunStatus pres_ret pres_raise pres_reads pres_guardE pres_liftSum pres_assertRunOpen pres_andThen
  pres_thenDo pres_whenDo pres_catchE pres_atomically pres_if pres_option pres_case_list

lemma within_updateRunStatus: "preserves (leasesWithin L) (updateRunStatus now runId st reason endedAt)"
  unfolding updateRunStatus_def
proof (rule pres_atomically, rule preservesI)
  fix s assume s: "leasesWithin L s"
  show "leasesWithin L (snd (case getRun runId s of
        None \<Rightarrow> setRunStatus runId st reason endedAt s
      | Some run \<Rightarrow> thenDo (verifyEpochFencing (run_domainId run))
          (if terminalRun (run_status run)
           then guardE (run_status run = st) (RunTransitionRefused runId (run_status run) st)
           else thenDo (setRunStatus runId st reason endedAt)
             (recordEvent (mkEvent (run_domainId run) (Some runId) None ''RUN_STATUS_TRANSITION''
                (JObj [(''status'', JStr (runStatusStr st)),
                       (''terminationReason'', optJ (\<lambda>t. JStr (reasonStr t)) reason),
                       (''endedAt'', optJ JNum endedAt)]) now))) s))"
    by (cases "getRun runId s") (simp_all add: s preserves_snd pres_if pres_thenDo pres_guardE within_setRunStatus
        within_verify within_recordEvent split del: if_split)
qed

lemma within_reports:
  "preserves (leasesWithin L) (reportRunSucceeded now runId)"
  "preserves (leasesWithin L) (reportRunFailed now runId reason)"
  "preserves (leasesWithin L) (reportRunCancelled now runId reason)"
  unfolding reportRunSucceeded_def reportRunFailed_def reportRunCancelled_def Let_def
  by (rule pres_lookup_any, intro within within_updateRunStatus)+

lemma within_results:
  "preserves (leasesWithin L) (recordOperationResult opId result rel)"
  "preserves (leasesWithin L) (updateRecoveryEvidence opId p)"
  "preserves (leasesWithin L) (updateOperationResult opId result)"
  unfolding recordOperationResult_def updateRecoveryEvidence_def updateOperationResult_def
  by (rule pres_lookup_any, intro within)+

lemma within_updateOperationStatus: "preserves (leasesWithin L) (updateOperationStatus now opId st identity ref)"
  unfolding updateOperationStatus_def
proof (rule pres_atomically, rule preservesI)
  fix s assume s: "leasesWithin L s"
  have "preserves (leasesWithin L) (thenDo (verifyEpochFencing d) (thenDo (modifyOperation opId f) (recordEvent e)))" for d f e
    by (intro within)
  with s show "leasesWithin L (snd (let op = getOperation opId s;
         write = modifyOperation opId (\<lambda>r. r\<lparr>op_status := st,
             op_processIdentity := coalesce identity (op_processIdentity r),
             op_outputRef := coalesce (truthy ref) (op_outputRef r),
             op_recoveryEvidence := coalesce
               (case identity of None \<Rightarrow> None
                | Some i \<Rightarrow> withRecoveryIdentity now (Option.bind op op_recoveryEvidence) i)
               (op_recoveryEvidence r)\<rparr>)
     in (case op of None \<Rightarrow> write s
         | Some o' \<Rightarrow> thenDo (verifyEpochFencing (op_domainId o')) (thenDo write
             (recordEvent (mkEvent (op_domainId o') (Some (op_runId o')) (Some opId)
                ''OPERATION_STATUS_TRANSITION''
                (JObj [(''status'', JStr (opStatusStr st)),
                       (''processIdentity'', optJ identityJson identity),
                       (''outputRef'', optJ JStr ref)]) now))) s)))"
    unfolding Let_def by (cases "getOperation opId s") (simp_all add: preserves_snd within_modifyOperation)
qed

lemma within_recordReplay: "preserves (leasesWithin L) (recordReplay now d opId mode runId)"
proof (rule preservesI)
  fix s assume "leasesWithin L s"
  then show "leasesWithin L (snd (recordReplay now d opId mode runId s))"
    using preserves_snd [OF within_recordEvent] verifyEpochFencing_cases [of d s]
    by (auto simp: recordReplay_def Let_def)
qed

lemma within_rows:
  "preserves (leasesWithin L) fence"
  "preserves (leasesWithin L) (releaseOwnerLease d ownerId)"
  "preserves (leasesWithin L) (recordSnapshot sn)"
  "preserves (leasesWithin L) (recordCapability c)"
  "preserves (leasesWithin L) (storeRevokeCapability capId d at)"
  "preserves (leasesWithin L) (saveTask t)"
  unfolding fence_def releaseOwnerLease_def recordSnapshot_def recordCapability_def storeRevokeCapability_def saveTask_def
  by (intro within within_keep; simp)+

lemma within_acquireOwnerLease: "preserves (leasesWithin L) (acquireOwnerLease alive now d o' host ttl force)"
proof (rule preservesI)
  fix s assume "leasesWithin L s"
  then show "leasesWithin L (snd (acquireOwnerLease alive now d o' host ttl force s))"
    by (cases "getOwner d s") (simp_all add: acquireOwnerLease_def atomically_def Let_def leasesWithin_def)
qed

lemma within_saveRun: "preserves (leasesWithin L) (saveRun H run)"
proof (rule preservesI)
  fix s assume "leasesWithin L s"
  moreover have "db_leases (snd (saveRun H run s)) = db_leases s"
    using verifyEpochFencing_cases [of "run_domainId run" s]
    by (auto simp: saveRun_def Let_def thenDo_def andThen_def liftSum_def split: option.split sum.split)
  ultimately show "leasesWithin L (snd (saveRun H run s))" by (simp add: within_frame)
qed


section \<open>The isolation barrier\<close>

definition isolated :: "domain \<Rightarrow> bool" where
  "isolated d \<longleftrightarrow> (\<forall>l \<in> set (db_leases (dm_store d)). lease_domainId l = dm_domainId d \<longrightarrow>
     mapGet (dm_locked d) (lease_resourceId l) = Some (lease_operationId l) \<and> lease_operationId l \<noteq> [])"

text \<open>The barrier reads the lease table, the isolation table and the domain's name only.\<close>

lemma isolated_frame:
  "isolated d \<Longrightarrow> set (db_leases (dm_store d')) \<subseteq> set (db_leases (dm_store d)) \<Longrightarrow>
   dm_locked d' = dm_locked d \<Longrightarrow> dm_domainId d' = dm_domainId d \<Longrightarrow> isolated d'"
  by (auto simp: isolated_def)

lemma iso_inStore:
  assumes "\<And>L. preserves (leasesWithin L) m"
  shows "preserves isolated (inStore m)"
proof (rule preservesI)
  fix d assume d: "isolated d"
  obtain r s where m: "m (dm_store d) = (r, s)" by fastforce
  have "leasesWithin (set (db_leases (dm_store d))) s"
    using preservesD [OF assms _ m] by (simp add: leasesWithin_def)
  then show "isolated (snd (inStore m d))"
    by (simp add: inStore_def m leasesWithin_def isolated_frame [OF d])
qed

lemma iso_inStore_at: "(\<And>d L. preserves (leasesWithin L) (m d)) \<Longrightarrow> preserves isolated (\<lambda>d. inStore (m d) d)"
  using preserves_snd [OF iso_inStore] by (intro preservesI) blast

lemma iso_assertNotFenced: "preserves isolated assertNotFenced"
  by (simp add: preserves_def assertNotFenced_def)

lemma mapGet_lockAll: "mapGet (lockAll opId rs m) r = (if r \<in> set rs then Some opId else mapGet m r)"
  by (induction rs arbitrary: m) (auto simp: lockAll_def)

lemma truthy_Cons [simp]: "truthy (Some v) = (if v = [] then None else Some v)" "truthy None = None"
  by (cases v) (simp_all add: truthy_def)

lemma truthy_Some_iff: "truthy x = Some y \<longleftrightarrow> x = Some y \<and> y \<noteq> []"
  by (cases x) auto

lemma lockConflict_None:
  "lockConflict locked opId rs = None \<Longrightarrow> r \<in> set rs \<Longrightarrow> mapGet locked r = Some owner \<Longrightarrow> owner \<noteq> [] \<Longrightarrow> owner = opId"
  by (induction rs) (auto split: option.splits if_splits)

lemma lockConflict_Some:
  "lockConflict locked opId rs = Some (r, owner) \<Longrightarrow>
   r \<in> set rs \<and> mapGet locked r = Some owner \<and> owner \<noteq> opId \<and> owner \<noteq> []"
  by (induction rs) (auto simp: truthy_Some_iff split: option.splits if_splits)

text \<open>The three outcomes of an allocation.\<close>

lemma allocate_cases:
  obtains (refused) e where "allocateResources opId rs waited budget d = (Inl e, d)"
  | (granted) "lockConflict (dm_locked d) opId rs = None" "concurrencyConflict d opId = None" "\<not> dm_fenced d"
      "allocateResources opId rs waited budget d = (Inr (), d\<lparr>dm_allocated := setAdd opId (dm_allocated d),
         dm_locked := lockAll opId rs (dm_locked d),
         dm_budgets := (case budget of Some b \<Rightarrow> mapSet opId b (dm_budgets d) | None \<Rightarrow> dm_budgets d)\<rparr>)"
proof (cases "dm_fenced d")
  case True
  then have "\<exists>e. assertNotFenced d = (Inl e, d)" by (simp add: assertNotFenced_def)
  then show ?thesis using refused by (auto simp: allocateResources_def)
next
  case False
  then have nf: "assertNotFenced d = (Inr (), d)" by (simp add: assertNotFenced_def)
  show ?thesis
  proof (cases "lockConflict (dm_locked d) opId rs")
    case (Some p)
    then show ?thesis using refused nf by (cases p) (simp add: allocateResources_def)
  next
    case None
    show ?thesis
    proof (cases "concurrencyConflict d opId")
      case (Some h)
      then show ?thesis using refused nf None by (simp add: allocateResources_def)
    next
      case None': None
      show ?thesis by (rule granted [OF None None' False]) (simp add: allocateResources_def nf None None')
    qed
  qed
qed

lemma iso_lockAll:
  assumes "isolated d" and "lockConflict (dm_locked d) opId rs = None"
    and "dm_store d' = dm_store d" "dm_domainId d' = dm_domainId d" "dm_locked d' = lockAll opId rs (dm_locked d)"
  shows "isolated d'"
  using assms lockConflict_None [OF assms(2)] by (fastforce simp: isolated_def mapGet_lockAll)

lemma iso_allocate: "preserves isolated (allocateResources opId rs waited budget)"
proof (rule preservesI)
  fix d assume d: "isolated d"
  show "isolated (snd (allocateResources opId rs waited budget d))"
  proof (cases rule: allocate_cases [of opId rs waited budget d])
    case (refused e)
    with d show ?thesis by simp
  next
    case granted
    then show ?thesis using iso_lockAll [OF d granted(1)] by simp
  qed
qed

section \<open>The queue\<close>

lemma iso_queue [simp]:
  "isolated (d\<lparr>dm_queue := q\<rparr>) = isolated d" "isolated (settle t e d) = isolated d"
  "isolated (dequeue t d) = isolated d" "isolated (d\<lparr>dm_nextTicket := n\<rparr>) = isolated d"
  by (simp_all add: isolated_def settle_def dequeue_def)

lemma iso_wait: "preserves isolated (allocateResourcesWithWait now gone opId rs maxWait budget)"
proof (rule preservesI)
  fix d assume d: "isolated d"
  have "isolated (snd (allocateResources opId rs 0 budget d))"
    using preserves_snd [OF iso_allocate d] .
  with d show "isolated (snd (allocateResourcesWithWait now gone opId rs maxWait budget d))"
    by (auto simp: allocateResourcesWithWait_def thenDo_def andThen_def assertNotFenced_def enqueueWaiter_def Let_def
        split: sum.splits prod.splits)
qed

lemma iso_waitTimeout: "preserves isolated (waitTimeout cancelled now t)"
  unfolding waitTimeout_def Let_def by (rule pres_modify) (simp split: option.split)

lemma iso_cancelWait: "preserves isolated (cancelWait opId)"
  by (simp add: preserves_def cancelWait_def split: option.split)

lemma iso_scanQueue: "isolated d \<Longrightarrow> isolated (scanQueue cancelled now reserved blocked kept ws d)"
proof (induction cancelled now reserved blocked kept ws d rule: scanQueue.induct)
  case (2 cancelled now reserved blocked kept w ws d)
  have "isolated (snd (allocateResources (w_op w) (w_resources w) (now - w_startTime w) (w_budget w) d))"
    by (rule preserves_snd [OF iso_allocate "2.prems"])
  with 2 show ?case
    by (cases "allocateResources (w_op w) (w_resources w) (now - w_startTime w) (w_budget w) d")
      (auto split: sum.split KError.split)
qed simp

lemma iso_processWaitQueue: "preserves isolated (processWaitQueue cancelled now)"
  unfolding processWaitQueue_def by (rule pres_modify) (simp add: iso_scanQueue)


section \<open>Release\<close>

text \<open>While resources of \<open>opId\<close> are released one by one, those it still had leases on are locked by it
  or by nobody.\<close>

definition releasing :: "string \<Rightarrow> string list \<Rightarrow> domain \<Rightarrow> bool" where
  "releasing opId persisted d \<longleftrightarrow> isolated d \<and>
     (\<forall>r \<in> set persisted. mapGet (dm_locked d) r = Some opId \<or> mapGet (dm_locked d) r = None)"

lemma releaseLease_rows: "db_leases (snd (releaseResourceLease opId (Some res) s)) =
    (if res = [] then filter (\<lambda>l. lease_operationId l \<noteq> opId) (db_leases s)
     else filter (\<lambda>l. \<not> (lease_operationId l = opId \<and> lease_resourceId l = res)) (db_leases s))"
  by (simp add: releaseResourceLease_def deleteLeases_def delRows_def)

lemma releaseOne_step:
  assumes "releasing opId persisted (snd acc)"
  shows "releasing opId persisted (snd (releaseOne opId persisted res acc))
    \<and> dm_domainId (snd (releaseOne opId persisted res acc)) = dm_domainId (snd acc)"
proof (cases "mapGet (dm_locked (snd acc)) res = Some opId \<or> res \<in> set persisted")
  case False
  then show ?thesis using assms by (cases acc) (simp add: releaseOne_def)
next
  case True
  obtain rel d where acc: "acc = (rel, d)" by (cases acc)
  let ?d = "d\<lparr>dm_locked := mapDel res (dm_locked d), dm_store := snd (releaseResourceLease opId (Some res) (dm_store d))\<rparr>"
  have own: "mapGet (dm_locked d) res = Some opId \<or> mapGet (dm_locked d) res = None"
    using True assms by (auto simp: acc releasing_def)
  have iso: "isolated d" using assms by (simp add: acc releasing_def)
  have "isolated ?d"
    unfolding isolated_def
  proof (intro ballI impI)
    fix l assume l: "l \<in> set (db_leases (dm_store ?d))" "lease_domainId l = dm_domainId ?d"
    then have old: "l \<in> set (db_leases (dm_store d))" and del: "\<not> (lease_operationId l = opId \<and> lease_resourceId l = res)"
      by (auto simp: releaseLease_rows split: if_splits)
    from old l(2) iso have h: "mapGet (dm_locked d) (lease_resourceId l) = Some (lease_operationId l)"
      "lease_operationId l \<noteq> []" by (auto simp: isolated_def)
    with own del have "lease_resourceId l \<noteq> res" by auto
    with h show "mapGet (dm_locked ?d) (lease_resourceId l) = Some (lease_operationId l) \<and> lease_operationId l \<noteq> []"
      by simp
  qed
  with assms True show ?thesis by (auto simp: acc releaseOne_def releasing_def)
qed

lemma releaseMany_step:
  "releasing opId persisted (snd acc) \<Longrightarrow>
   releasing opId persisted (snd (fold (releaseOne opId persisted) rs acc))"
  by (induction rs arbitrary: acc) (simp_all add: releaseOne_step)

lemma mapGet_filter_keep: "mapGet m r = Some v \<Longrightarrow> v \<noteq> x \<Longrightarrow> mapGet (filter (\<lambda>e. snd e \<noteq> x) m) r = Some v"
  by (induction m) (auto simp: mapGet_def split: if_splits)

lemma iso_releaseAll: "isolated d \<Longrightarrow> isolated (snd (releaseAll opId d))"
  unfolding isolated_def releaseAll_def
  by (auto simp: releaseResourceLease_def deleteLeases_def intro: mapGet_filter_keep)

lemma iso_releaseBody: "preserves isolated (releaseBody cancelled now opId rs)"
proof (rule preservesI)
  fix d assume d: "isolated d"
  let ?pers = "map lease_resourceId (filter (\<lambda>l. lease_operationId l = opId)
             (getPersistedResourceLeases (dm_domainId d) (dm_store d)))"
  obtain released d1 where d1: "(if rs \<noteq> [] then fold (releaseOne opId ?pers) rs ([], d) else releaseAll opId d) = (released, d1)"
    by fastforce
  have "releasing opId ?pers d"
    using d by (auto simp: releasing_def getPersistedResourceLeases_def isolated_def)
  then have "isolated (snd (fold (releaseOne opId ?pers) rs ([], d)))"
    using releaseMany_step [of opId ?pers "([], d)" rs] by (simp add: releasing_def)
  then have iso1: "isolated d1"
    using d1 iso_releaseAll [OF d, of opId] by (metis snd_conv)
  have "isolated (if opId \<in> snd ` set (dm_locked d1) then d1
      else d1\<lparr>dm_allocated := filter (\<lambda>x. x \<noteq> opId) (dm_allocated d1), dm_budgets := mapDel opId (dm_budgets d1)\<rparr>)"
    using iso1 by (simp add: isolated_def)
  then show "isolated (snd (releaseBody cancelled now opId rs d))"
    by (simp only: releaseBody_def d1 prod.case Let_def)
      (rule preserves_snd [OF pres_thenDo [OF iso_inStore [OF within_recordEvent] iso_processWaitQueue]])
qed

lemma iso_verify: "preserves isolated (\<lambda>d. inStore (verifyEpochFencing (dm_domainId d)) d)"
  by (rule iso_inStore_at) (rule within_verify)

lemma iso_release: "preserves isolated (internalReleaseResources cancelled now opId rs)"
  unfolding internalReleaseResources_def by (intro pres_thenDo iso_assertNotFenced iso_verify iso_releaseBody)

section \<open>Intents, adjudication, ownership and capabilities\<close>

text \<open>An intent whose resources are locked by its operation keeps the barrier.\<close>

lemma iso_storeIntent:
  assumes d: "isolated d" and locked: "\<forall>r \<in> set (op_requiredResources op'). mapGet (dm_locked d) r = Some (op_id op')"
    and "op_id op' \<noteq> []"
  shows "isolated (snd (inStore (registerOperationIntent H now op' (dm_domainId d)) d))"
proof (cases "registerOperationIntent H now op' (dm_domainId d) (dm_store d)")
  case (Pair r t)
  show ?thesis
  proof (cases r)
    case (Inl e)
    then have "t = dm_store d" using registerIntent_Inl Pair by metis
    with Pair d show ?thesis by (simp add: inStore_def)
  next
    case (Inr u)
    from intent_chain [OF Pair [unfolded Inr registerOperationIntent_def]]
    have "db_leases t = db_leases (dm_store d) @ leasesOf now (dm_domainId d) op'"
      unfolding leasesOf_def by (elim exE conjE) simp
    with d locked assms(3) Pair show ?thesis by (auto simp: inStore_def isolated_def leasesOf_def)
  qed
qed

lemma iso_registerIntent:
  assumes "op_id op' \<noteq> []"
  shows "preserves isolated (domainRegisterIntent H cancelled now op')"
proof (rule preservesI)
  fix d assume d: "isolated d"
  have avail: "snd (assertOperationIdAvailable opId d) = d" for opId
    by (simp add: assertOperationIdAvailable_def thenDo_def andThen_def assertNotFenced_def split: option.split)
  show "isolated (snd (domainRegisterIntent H cancelled now op' d))"
  proof (cases "fst (assertOperationIdAvailable (op_id op') d)")
    case (Inl e)
    then have "assertOperationIdAvailable (op_id op') d = (Inl e, d)" using avail by (metis prod.collapse)
    with d show ?thesis by (simp add: domainRegisterIntent_def)
  next
    case (Inr u)
    then have a: "assertOperationIdAvailable (op_id op') d = (Inr (), d)" using avail by (metis prod.collapse unit.exhaust)
    show ?thesis
    proof (cases rule: allocate_cases [of "op_id op'" "op_requiredResources op'" 0 "op_resourceBudget op'" d])
      case (refused e)
      with a d show ?thesis by (simp add: domainRegisterIntent_def)
    next
      case granted
      let ?d = "snd (allocateResources (op_id op') (op_requiredResources op') 0 (op_resourceBudget op') d)"
      have iso: "isolated ?d" by (rule preserves_snd [OF iso_allocate d])
      have "\<forall>r \<in> set (op_requiredResources op'). mapGet (dm_locked ?d) r = Some (op_id op')"
        by (simp add: granted(4) mapGet_lockAll)
      then have reg: "isolated (snd (inStore (registerOperationIntent H now op' (dm_domainId ?d)) ?d))"
        using iso_storeIntent [OF iso] assms by blast
      have "allocateResources (op_id op') (op_requiredResources op') 0 (op_resourceBudget op') d = (Inr (), ?d)"
        by (simp add: granted(4))
      with a have "snd (domainRegisterIntent H cancelled now op' d) =
         snd (catchE (\<lambda>d. inStore (registerOperationIntent H now op' (dm_domainId d)) d)
           (\<lambda>e. thenDo (internalReleaseResources cancelled now (op_id op') (op_requiredResources op')) (raise e)) ?d)"
        by (simp add: domainRegisterIntent_def)
      also have "isolated \<dots>"
        using reg preserves_snd [OF pres_thenDo [OF iso_release pres_raise]]
        by (auto simp: catchE_def split: prod.split sum.split)
      finally show ?thesis .
    qed
  qed
qed

lemma iso_adjudicable: "preserves isolated (adjudicable opId)"
proof -
  have "preserves isolated (\<lambda>d. case getOperation opId (dm_store d) of None \<Rightarrow> (Inl (OperationNotFound opId), d)
     | Some o' \<Rightarrow> (case (op_status o', op_result o') of
         (ODone, Some (ResIndeterminate r)) \<Rightarrow> (Inr (o', r), d)
       | _ \<Rightarrow> (Inl (NotAdjudicable opId), d)))"
    by (simp add: preserves_def split: option.split OperationStatus.split OperationResult.split)
  then show ?thesis
    unfolding adjudicable_def by (intro pres_thenDo iso_assertNotFenced iso_verify)
qed

lemma iso_event: "preserves isolated (\<lambda>d. inStore (recordEvent (mkEvent (dm_domainId d) r o' ty p now)) d)"
  by (rule iso_inStore_at) (rule within_recordEvent)

lemma pres_case_prod: "(\<And>a b. preserves I (f a b)) \<Longrightarrow> preserves I (case p of (a, b) \<Rightarrow> f a b)"
  by (cases p) simp

lemma iso_adjudicate: "preserves isolated (adjudicate cancelled probe ge now opId verdict actor note decision ev)"
  unfolding adjudicate_def Let_def
  by (intro pres_andThen iso_adjudicable pres_case_prod pres_thenDo pres_guardE iso_event
      iso_inStore [OF within_results(3)] iso_release pres_ret)


lemma iso_acquireLease:
  assumes d: "isolated d" and run: "acquireOwnerLease alive now i o' h ttl f (dm_store d) = (r, s)"
  shows "isolated (d\<lparr>dm_store := s\<rparr>)"
proof (rule isolated_frame [OF d])
  have "leasesWithin (set (db_leases (dm_store d))) s"
    by (rule preservesD [OF within_acquireOwnerLease _ run]) (simp add: leasesWithin_def)
  then show "set (db_leases (dm_store (d\<lparr>dm_store := s\<rparr>))) \<subseteq> set (db_leases (dm_store d))"
    by (simp add: leasesWithin_def)
qed simp_all

lemma iso_owner [simp]: "isolated (d\<lparr>dm_owner := r\<rparr>) = isolated d" "isolated (d\<lparr>dm_fenced := b\<rparr>) = isolated d"
  "isolated (d\<lparr>dm_open := b\<rparr>) = isolated d" "isolated (d\<lparr>dm_settled := xs\<rparr>) = isolated d"
  "isolated (d\<lparr>dm_budget := bu\<rparr>) = isolated d"
  by (simp_all add: isolated_def)

lemma iso_renewHeartbeat: "preserves isolated (renewHeartbeat alive now host)"
proof (rule preservesI)
  fix d assume d: "isolated d"
  obtain r s where a: "acquireOwnerLease alive now (dm_domainId d) (own_ownerId (dm_owner d)) host ownerTtl False (dm_store d) = (r, s)"
    by fastforce
  from iso_acquireLease [OF d a] have iso: "isolated (d\<lparr>dm_store := s\<rparr>)" .
  then have "isolated (d\<lparr>dm_store := snd (fence s)\<rparr>)"
    by (rule isolated_frame) (simp_all add: fence_def)
  then have "isolated (d\<lparr>dm_fenced := True, dm_store := snd (fence s)\<rparr>)"
    by (simp add: isolated_def)
  moreover have "isolated (d\<lparr>dm_owner := w, dm_store := s\<rparr>)" for w
    using iso by (simp add: isolated_def)
  ultimately show "isolated (snd (renewHeartbeat alive now host d))"
    using d by (cases r) (simp_all add: renewHeartbeat_def a)
qed

lemma iso_heartbeatTick: "preserves isolated (heartbeatTick alive now host)"
  unfolding heartbeatTick_def by (intro pres_catchE iso_renewHeartbeat pres_ret)

lemma iso_closeDomain: "preserves isolated closeDomain"
  unfolding closeDomain_def
  by (rule pres_modify) (auto simp: isolated_def releaseOwnerLease_def)

lemma iso_setDomainBudget: "preserves isolated (setDomainBudget b)"
  unfolding setDomainBudget_def by (rule pres_modify) simp

lemma iso_capability_write:
  "preserves isolated (thenDo (inStore (recordCapability c)) (thenDo (inStore (recordEvent e)) (ret c)))"
  by (intro pres_thenDo iso_inStore within_rows within_recordEvent pres_ret)

lemma iso_issueCapability: "preserves isolated (issueCapability fs now fresh q)"
  using preserves_snd [OF iso_capability_write]
  by (auto simp: preserves_def issueCapability_def Let_def split: option.split sum.split)

lemma iso_attenuate: "preserves isolated (attenuate fs now fresh capId n actor cfg)"
  using preserves_snd [OF iso_capability_write]
  by (auto simp: preserves_def attenuate_def Let_def split: option.split sum.split)

lemma iso_revokeCapability: "preserves isolated (revokeCapability now capId actor)"
proof -
  have "preserves isolated (thenDo (inStore (storeRevokeCapability capId i now)) (inStore (recordEvent e)))" for i e
    by (intro pres_thenDo iso_inStore within_rows within_recordEvent)
  then show ?thesis
    by (auto simp: preserves_def revokeCapability_def split: option.split)
qed

lemma within_rejectAdmission: "preserves (leasesWithin L) (rejectAdmission now o' v)"
  unfolding rejectAdmission_def by (intro within)

lemma within_checkCapabilityAdmission: "preserves (leasesWithin L) (checkCapabilityAdmission fs now o')"
  using preserves_snd [OF within_rejectAdmission]
  by (auto simp: preserves_def checkCapabilityAdmission_def split: option.split sum.split)

lemma iso_domainCheckAdmission: "preserves isolated (domainCheckAdmission fs now o')"
  unfolding domainCheckAdmission_def Let_def
  by (rule iso_inStore_at) (rule within_checkCapabilityAdmission)

lemma iso_domainReports:
  "preserves isolated (domainReportCancelled now runId reason)"
  "preserves isolated (domainReportSucceeded now runId)"
  "preserves isolated (domainReportFailed now runId reason)"
  unfolding domainReportCancelled_def domainReportSucceeded_def domainReportFailed_def
  by (intro pres_thenDo iso_assertNotFenced iso_inStore within_reports)+

section \<open>The contract and its interpretations\<close>

text \<open>A method of the domain keeps the barrier.\<close>

locale isolating =
  fixes m :: "(domain, KError, 'a) act"
  assumes keeps: "preserves isolated m"
begin

lemma barrier_after: "isolated d \<Longrightarrow> isolated (snd (m d))"
  by (rule preserves_snd [OF keeps])

lemma one_holder:
  assumes "isolated d" and "l \<in> set (db_leases (dm_store (snd (m d))))" and "l' \<in> set (db_leases (dm_store (snd (m d))))"
    and "lease_domainId l = dm_domainId (snd (m d))" and "lease_domainId l' = dm_domainId (snd (m d))"
    and "lease_resourceId l = lease_resourceId l'"
  shows "lease_operationId l = lease_operationId l'"
  using barrier_after [OF assms(1)] assms(2-) unfolding isolated_def by (metis option.inject)

end

interpretation dm_allocate: isolating "allocateResources opId rs waited budget" for opId rs waited budget
  by (rule isolating.intro) (rule iso_allocate)
interpretation dm_wait: isolating "allocateResourcesWithWait now gone opId rs maxWait budget"
  for now gone opId rs maxWait budget by (rule isolating.intro) (rule iso_wait)
interpretation dm_timeout: isolating "waitTimeout cancelled now t" for cancelled now t
  by (rule isolating.intro) (rule iso_waitTimeout)
interpretation dm_cancelWait: isolating "cancelWait opId" for opId
  by (rule isolating.intro) (rule iso_cancelWait)
interpretation dm_scan: isolating "processWaitQueue cancelled now" for cancelled now
  by (rule isolating.intro) (rule iso_processWaitQueue)
interpretation dm_release: isolating "internalReleaseResources cancelled now opId rs"
  for cancelled now opId rs
  by (rule isolating.intro) (rule iso_release)
interpretation dm_adjudicate: isolating
  "adjudicate cancelled probe ge now opId verdict actor nte decision evd"
  for cancelled probe ge now opId verdict actor nte decision evd
  by (rule isolating.intro) (rule iso_adjudicate)
interpretation dm_heartbeat: isolating "renewHeartbeat alive now host" for alive now host
  by (rule isolating.intro) (rule iso_renewHeartbeat)
interpretation dm_tick: isolating "heartbeatTick alive now host" for alive now host
  by (rule isolating.intro) (rule iso_heartbeatTick)
interpretation dm_close: isolating closeDomain
  by (rule isolating.intro) (rule iso_closeDomain)
interpretation dm_setBudget: isolating "setDomainBudget b" for b
  by (rule isolating.intro) (rule iso_setDomainBudget)
interpretation dm_issue: isolating "issueCapability fs now fresh q" for fs now fresh q
  by (rule isolating.intro) (rule iso_issueCapability)
interpretation dm_attenuate: isolating "attenuate fs now fresh capId n actor cfg" for fs now fresh capId n actor cfg
  by (rule isolating.intro) (rule iso_attenuate)
interpretation dm_revoke: isolating "revokeCapability now capId actor" for now capId actor
  by (rule isolating.intro) (rule iso_revokeCapability)
interpretation dm_admission: isolating "domainCheckAdmission fs now o'" for fs now o'
  by (rule isolating.intro) (rule iso_domainCheckAdmission)
interpretation dm_result: isolating "inStore (recordOperationResult opId result rel)" for opId result rel
  by (rule isolating.intro) (rule iso_inStore, rule within_results)
interpretation dm_opStatus: isolating "inStore (updateOperationStatus now opId st identity ref)"
  for now opId st identity ref by (rule isolating.intro) (rule iso_inStore, rule within_updateOperationStatus)
interpretation dm_event: isolating "inStore (recordEvent e)" for e
  by (rule isolating.intro) (rule iso_inStore, rule within_recordEvent)
interpretation dm_runStatus: isolating "inStore (updateRunStatus now runId st reason at)" for now runId st reason at
  by (rule isolating.intro) (rule iso_inStore, rule within_updateRunStatus)
interpretation dm_saveRun: isolating "inStore (saveRun H run)" for H run
  by (rule isolating.intro) (rule iso_inStore, rule within_saveRun)

section \<open>The transition system of a domain\<close>

text \<open>
  One step is one call on the domain or, by the kernel, on its store. The registration of an
  intent names an operation and, where the kernel calls it on the store, has the operation's
  resources locked for it.
\<close>

inductive domStep :: "domain \<Rightarrow> domain \<Rightarrow> bool" where
  "domStep d (snd (allocateResources opId rs waited budget d))"
| "domStep d (snd (allocateResourcesWithWait now gone opId rs maxWait budget d))"
| "domStep d (snd (waitTimeout cancelled now t d))"
| "domStep d (snd (cancelWait opId d))"
| "domStep d (snd (internalReleaseResources cancelled now opId rs d))"
| "op_id op' \<noteq> [] \<Longrightarrow> domStep d (snd (domainRegisterIntent H cancelled now op' d))"
| "op_id op' \<noteq> [] \<Longrightarrow> \<forall>r \<in> set (op_requiredResources op'). mapGet (dm_locked d) r = Some (op_id op') \<Longrightarrow>
     domStep d (snd (inStore (registerOperationIntent H now op' (dm_domainId d)) d))"
| "domStep d (snd (adjudicate cancelled probe ge now opId verdict actor note decision ev d))"
| "domStep d (snd (domainReportCancelled now runId reason d))"
| "domStep d (snd (domainReportSucceeded now runId d))"
| "domStep d (snd (domainReportFailed now runId reason d))"
| "domStep d (snd (heartbeatTick alive now host d))"
| "domStep d (snd (renewHeartbeat alive now host d))"
| "domStep d (snd (closeDomain d))"
| "domStep d (snd (setDomainBudget b d))"
| "domStep d (snd (issueCapability fs now fresh q d))"
| "domStep d (snd (attenuate fs now fresh capId n actor cfg d))"
| "domStep d (snd (revokeCapability now capId actor d))"
| "domStep d (snd (domainCheckAdmission fs now o' d))"
| "domStep d (snd (inStore (recordOperationResult opId result rel) d))"
| "domStep d (snd (inStore (updateOperationStatus now opId st identity ref) d))"
| "domStep d (snd (inStore (updateRecoveryEvidence opId p) d))"
| "domStep d (snd (inStore (recordEvent e) d))"
| "domStep d (snd (inStore (recordReplay now i opId mode runId) d))"
| "domStep d (snd (inStore (updateRunStatus now runId st rsn at) d))"
| "domStep d (snd (inStore (saveRun H run) d))"
| "domStep d (snd (inStore (saveTask tk) d))"
| "domStep d (snd (inStore (recordSnapshot sn) d))"

lemmas isolating_rules = iso_allocate iso_wait iso_waitTimeout iso_cancelWait iso_release iso_adjudicate
  iso_domainReports iso_heartbeatTick iso_renewHeartbeat iso_closeDomain iso_setDomainBudget iso_issueCapability
  iso_attenuate iso_revokeCapability iso_domainCheckAdmission iso_registerIntent
  iso_inStore [OF within_results(1)] iso_inStore [OF within_results(2)]
  iso_inStore [OF within_updateOperationStatus] iso_inStore [OF within_recordEvent]
  iso_inStore [OF within_recordReplay] iso_inStore [OF within_updateRunStatus] iso_inStore [OF within_saveRun]
  iso_inStore [OF within_rows(3)] iso_inStore [OF within_rows(6)]

lemma domStep_isolated: "domStep d d' \<Longrightarrow> isolated d \<Longrightarrow> isolated d'"
  by (induction rule: domStep.induct)
    (erule preserves_snd [rotated], rule isolating_rules, assumption? | erule iso_storeIntent, assumption, assumption)+

lemma domSteps_isolated: "domStep\<^sup>*\<^sup>* d d' \<Longrightarrow> isolated d \<Longrightarrow> isolated d'"
  by (induction rule: rtranclp_induct) (auto intro: domStep_isolated)

end
