(* ===== verification/CapabilityProps.thy ===== *)
theory CapabilityProps
  imports Capability
begin

text \<open>
  Properties of capabilities: narrowing never widens, whatever is admitted is within scope and
  limits, a broken ancestor breaks every descendant, and the walk up the chain of parents ends.
\<close>

section \<open>Narrowing\<close>

lemma set_normalized [simp]:
  "set (scope_paths (normalizeScope fs (asInput c))) = normalizePathPattern fs ` set (scope_paths c)"
  "set (scope_exclusive (normalizeScope fs (asInput c))) = set (scope_exclusive c)"
  "set (scope_opcodes (normalizeScope fs (asInput c))) = set (scope_opcodes c)"
  "set (scope_workspaces (normalizeScope fs (asInput c))) = set (scope_workspaces c)"
  "set (scope_secrets (normalizeScope fs (asInput c))) = set (scope_secrets c)"
  by (simp_all add: normalizeScope_def asInput_def Let_def)

lemma workspaces_normalized [simp]:
  "scope_workspaces (normalizeScope fs (asInput c)) = [] \<longleftrightarrow> scope_workspaces c = []"
  using set_normalized(4) [of fs c] by (metis set_empty)

lemma subsetOf_set: "subsetOf xs ys \<longleftrightarrow> set xs \<subseteq> set ys"
  by (auto simp: subsetOf_def list_all_iff)

lemma pathsWithin_iff: "pathsWithin fs ps qs \<longleftrightarrow> (\<forall>q \<in> set qs. \<exists>p \<in> set ps. isPathContained fs p q)"
  by (simp add: pathsWithin_def list_all_iff list_ex_iff)

lemma uniqueList_Nil [simp]: "uniqueList xs = [] \<longleftrightarrow> xs = []"
  using set_uniqueList [of xs] by (metis set_empty)

lemma if_Inl_Inr: "(if b then Inl e else x) = Inr y \<longleftrightarrow> \<not> b \<and> x = Inr y"
  by simp

text \<open>What a successful narrowing checked, and that its paths are normal.\<close>

lemma narrowing_sound:
  assumes "validateScopeNarrowing fs P n = Inr C" and laws: "fsLaws fs"
  shows "pathsWithin fs (scope_paths (normalizeScope fs (asInput P))) (scope_paths C)"
    and "set (scope_exclusive C) \<subseteq> set (scope_exclusive P)" and "set (scope_opcodes C) \<subseteq> set (scope_opcodes P)"
    and "set (scope_secrets C) \<subseteq> set (scope_secrets P)"
    and "scope_workspaces P \<noteq> [] \<Longrightarrow> scope_workspaces C \<noteq> [] \<and> set (scope_workspaces C) \<subseteq> set (scope_workspaces P)"
    and "\<forall>p \<in> set (scope_paths C). normalizePathPattern fs p = p"
proof -
  define newPaths where "newPaths = (case (case in_paths n of Some p \<Rightarrow> Some p | None \<Rightarrow> in_write n) of
      None \<Rightarrow> scope_paths (normalizeScope fs (asInput P)) | Some ps \<Rightarrow> uniqueList (map (normalizePathPattern fs) ps))"
  from assms(1) have facts: "pathsWithin fs (scope_paths (normalizeScope fs (asInput P))) newPaths"
    "scope_paths C = newPaths" "subsetOf (scope_exclusive C) (scope_exclusive (normalizeScope fs (asInput P)))"
    "subsetOf (scope_opcodes C) (scope_opcodes (normalizeScope fs (asInput P)))"
    "subsetOf (scope_secrets C) (scope_secrets (normalizeScope fs (asInput P)))"
    and ws: "scope_workspaces (normalizeScope fs (asInput P)) \<noteq> [] \<Longrightarrow>
        subsetOf (scope_workspaces C) (scope_workspaces (normalizeScope fs (asInput P))) \<and> in_workspaces n \<noteq> Some []"
    and wsC: "scope_workspaces C = (case in_workspaces n of
        None \<Rightarrow> scope_workspaces (normalizeScope fs (asInput P)) | Some xs \<Rightarrow> uniqueList xs)"
    unfolding validateScopeNarrowing_def Let_def if_Inl_Inr newPaths_def [symmetric] sum.inject by auto
  then show "pathsWithin fs (scope_paths (normalizeScope fs (asInput P))) (scope_paths C)"
    "set (scope_exclusive C) \<subseteq> set (scope_exclusive P)" "set (scope_opcodes C) \<subseteq> set (scope_opcodes P)"
    "set (scope_secrets C) \<subseteq> set (scope_secrets P)"
    by (simp_all add: subsetOf_set)
  show "scope_workspaces P \<noteq> [] \<Longrightarrow> scope_workspaces C \<noteq> [] \<and> set (scope_workspaces C) \<subseteq> set (scope_workspaces P)"
    using ws wsC by (auto simp: subsetOf_set split: option.splits)
  show "\<forall>p \<in> set (scope_paths C). normalizePathPattern fs p = p"
    using normalizePathPattern_idem [OF laws] unfolding facts(2) newPaths_def by (auto split: option.splits)
qed

lemma admitResources_within: "admitResources scope req = Inr rs \<Longrightarrow> subsetOf rs (scope_exclusive scope)"
  by (auto simp: admitResources_def subsetOf_set split: option.splits list.splits if_splits)

lemma admitRoots_within: "admitRoots fs scope req = Inr ms \<Longrightarrow> pathsWithin fs (scope_paths scope) ms"
  using paths.covers_itself [of _ "scope_paths scope" fs]
  by (auto simp: admitRoots_def Let_def pathsWithin_iff split: option.splits list.splits if_splits)



text \<open>A file system with directories \<open>/w\<close> and \<open>/w/sub\<close>, and a link \<open>/l\<close> to \<open>/w\<close>.\<close>

definition demoDirs :: "string list \<Rightarrow> string list option" where
  "demoDirs p = (if p = [] \<or> p = [''w''] \<or> p = [''w'', ''sub''] then Some p else None)"

definition demoReal :: "string list \<Rightarrow> string list option" where
  "demoReal p = (case p of [] \<Rightarrow> Some [] | x # r \<Rightarrow> if x = ''l'' then demoDirs (''w'' # r) else demoDirs p)"

definition demoFs :: fsys where
  "demoFs = \<lparr>fs_cwd = ''/w'', fs_realpath = demoReal, fs_exists = (\<lambda>p. demoReal p \<noteq> None)\<rparr>"

lemma demoDirs_Some: "demoDirs p = Some q \<Longrightarrow> q = p \<and> (p = [] \<or> p = [''w''] \<or> p = [''w'', ''sub''])"
  by (simp add: demoDirs_def split: if_splits)

lemma demoReal_Some: "demoReal p = Some q \<Longrightarrow>
    demoReal q = Some q \<and> (q = [] \<or> q = [''w''] \<or> q = [''w'', ''sub''])
    \<and> (p = q \<or> (\<exists>r. p = ''l'' # r \<and> q = ''w'' # r))"
  by (auto simp: demoReal_def demoDirs_def split: list.splits if_splits)

lemma demoFs_laws: "fsLaws demoFs"
  unfolding fsLaws_def demoFs_def fsys.simps
proof (intro conjI allI impI)
  fix p q assume pq: "demoReal p = Some q"
  from demoReal_Some [OF this] show "demoReal q = Some q" by blast
  from demoReal_Some [OF pq] consider "q = []" | "q = [''w'']" | "q = [''w'', ''sub'']" by blast
  then show "list_all goodSeg q" "list_all plainSeg q"
    by (cases; simp add: goodSeg_def plainSeg_def isWild_def)+
  show "demoReal (p @ rest) = demoReal (q @ rest)" for rest
    using demoReal_Some [OF pq] by (auto simp: demoReal_def)
next
  show "plainSeg ''/w''" by (simp add: plainSeg_def isWild_def)
qed simp

definition demoScope :: CapabilityScope where
  "demoScope = \<lparr>scope_write = [], scope_exclusive = [''db''], scope_opcodes = [''fs.read'', ''fs.write''],
     scope_workspaces = [], scope_paths = [''/w''], scope_secrets = []\<rparr>"

definition demoNarrow :: CapabilityScopeInput where
  "demoNarrow = \<lparr>in_write = None, in_exclusive = Some [], in_opcodes = Some [''fs.write''], in_workspaces = None,
     in_paths = Some [''/l/sub''], in_secrets = None\<rparr>"

definition demoChild :: CapabilityScope where
  "demoChild = \<lparr>scope_write = [''/w/sub''], scope_exclusive = [], scope_opcodes = [''fs.write''],
     scope_workspaces = [], scope_paths = [''/w/sub''], scope_secrets = []\<rparr>"

definition demoAsk :: AdmissionOptions where
  "demoAsk = \<lparr>ao_domainId = ''d'', ao_currentEpoch = 1, ao_capabilityId = ''cap:1'', ao_requiredResources = None,
     ao_mutationRoots = Some [''/l/sub/new.txt''], ao_opcode = Some ''fs.write'', ao_workspace = None,
     ao_secretRefs = None, ao_requestedLimits = None, ao_currentConcurrentOps = Some 0,
     ao_currentProcesses = Some 0, ao_policyVersion = None, ao_runId = None, ao_opId = None\<rparr>"

lemma demo_narrows: "validateScopeNarrowing demoFs demoScope demoNarrow = Inr demoChild"
  by code_simp


lemma exceeds_mono: "l \<le> l' \<Longrightarrow> exceeds r l' \<Longrightarrow> exceeds r l"
  and reached_mono: "l \<le> l' \<Longrightarrow> reached c l' \<Longrightarrow> reached c l"
  by (auto simp: exceeds_def reached_def split: option.splits)

lemma limitFault_None: "limitFault l o' = None \<longleftrightarrow>
    (\<forall>r. ao_requestedLimits o' = Some r \<longrightarrow> \<not> exceeds (pl_cpuMs r) (cpuMs l) \<and> \<not> exceeds (pl_memoryBytes r) (memoryBytes l)
       \<and> \<not> exceeds (pl_outputBytes r) (outputBytes l) \<and> \<not> exceeds (pl_concurrentOps r) (concurrentOps l)
       \<and> \<not> exceeds (pl_processes r) (processes l))
    \<and> \<not> reached (ao_currentConcurrentOps o') (concurrentOps l)
    \<and> (ao_opcode o' = Some ''proc.spawn'' \<longrightarrow> \<not> reached (ao_currentProcesses o') (processes l))"
  by (cases "ao_requestedLimits o'") (auto simp: limitFault_def)

lemma limitFault_mono:
  assumes "list_all2 (\<le>) (limitValues l) (limitValues l')" and "limitFault l o' = None"
  shows "limitFault l' o' = None"
  using assms exceeds_mono reached_mono unfolding limitFault_None limitValues_def by (simp) blast

text \<open>Narrowed limits are bounded by the parent's in every component, are safe non-negative
  integers, and whatever load the child's limits admit the parent's admit.\<close>

theorem narrowed_limits_bounded:
  assumes "narrowCapabilityLimits parent requested = Inr child"
  shows "list_all2 (\<le>) (limitValues child) (limitValues parent) \<and> list_all safeNonNeg (limitValues child)
    \<and> (limitFault child o' = None \<longrightarrow> limitFault parent o' = None)"
proof -
  have ok: "list_all2 (\<le>) (limitValues child) (limitValues parent)" "list_all safeNonNeg (limitValues child)"
    using assms unfolding narrowCapabilityLimits_def normalizeCapabilityLimits_def Let_def
    by (simp_all only: split: if_splits) (auto split: if_splits)
  then show ?thesis using limitFault_mono by blast
qed

theorem narrowed_limits_bounded_witness:
  "list_all safeNonNeg [10, 1099511627776, 107374182400, 2, 65536]"
proof -
  have "narrowCapabilityLimits DEFAULT_CAPABILITY_LIMITS (Some \<lparr>pl_cpuMs = Some 10, pl_memoryBytes = None,
      pl_outputBytes = None, pl_concurrentOps = Some 2, pl_processes = None\<rparr>) =
    Inr \<lparr>cpuMs = 10, memoryBytes = 1099511627776, outputBytes = 107374182400, concurrentOps = 2, processes = 65536\<rparr>"
    by code_simp
  from narrowed_limits_bounded [OF this] show ?thesis by (simp add: limitValues_def)
qed

section \<open>Admission\<close>

text \<open>The ancestors of a capability: its parent, the parent's parent, and so on.\<close>

inductive ancestorOf :: "store \<Rightarrow> string option \<Rightarrow> Capability \<Rightarrow> bool" for s where
  parent: "truthy up = Some a \<Longrightarrow> getCapability a s = Some c \<Longrightarrow> ancestorOf s up c"
| grand: "truthy up = Some a \<Longrightarrow> getCapability a s = Some c \<Longrightarrow> ancestorOf s (cap_parentId c) c' \<Longrightarrow>
     ancestorOf s up c'"

text \<open>A capability that no longer grants anything in an epoch.\<close>

definition dead :: "millis \<Rightarrow> int \<Rightarrow> Capability \<Rightarrow> bool" where
  "dead now ep c \<longleftrightarrow> cap_revokedAt c \<noteq> None \<or> cap_epoch c \<noteq> ep \<or> isoLe (cap_expiresAt c) now"

lemma ancestorFault_dead:
  "ancestorOf s up c \<Longrightarrow> dead now ep c \<Longrightarrow> ancestorFault n now ep s up \<noteq> Some None"
proof (induction arbitrary: n rule: ancestorOf.induct)
  case (parent up a c)
  then show ?case by (cases n) (auto simp: dead_def)
next
  case (grand up a c c')
  then show ?case by (cases n) auto
qed

lemma decideAdmission_Inr:
  assumes "decideAdmission fs now s o' = Some (Inr r)"
  shows "\<exists>cap. getCapability (ao_capabilityId o') s = Some cap \<and> cap_domainId cap = ao_domainId o'
    \<and> \<not> dead now (ao_currentEpoch o') cap
    \<and> ancestorFault (ancestorFuel s) now (ao_currentEpoch o') s (cap_parentId cap) = Some None
    \<and> (let scope = normalizeScope fs (asInput (cap_scope cap)) in
         scopeFault scope o' = None \<and> limitFault (cap_limits cap) o' = None
       \<and> admitResources scope (ao_requiredResources o') = Inr (ar_effectiveResources r)
       \<and> admitRoots fs scope (ao_mutationRoots o') = Inr (ar_effectiveMutationRoots r)
       \<and> ar_effectiveLimits r = cap_limits cap)"
proof -
  from assms obtain cap where cap: "getCapability (ao_capabilityId o') s = Some cap"
    by (auto simp: decideAdmission_def split: option.splits)
  show ?thesis
    using assms unfolding decideAdmission_def cap Let_def dead_def
    by (auto split: if_splits option.splits sum.splits)
qed

text \<open>C24: Revocation cascades. When a capability or any of its ancestors has been revoked, has
  expired or belongs to another epoch, no admission under it succeeds, whatever is asked for.\<close>

theorem broken_ancestor_rejects:
  assumes "getCapability (ao_capabilityId o') s = Some cap"
    and "dead now (ao_currentEpoch o') cap \<or> (\<exists>c. ancestorOf s (cap_parentId cap) c \<and> dead now (ao_currentEpoch o') c)"
  shows "isl (fst (checkCapabilityAdmission fs now o' s))"
proof -
  have "decideAdmission fs now s o' \<noteq> Some (Inr r)" for r
    using decideAdmission_Inr [of fs now s o' r] assms ancestorFault_dead by fastforce
  moreover have "isl (fst (rejectAdmission now o' v s))" for v :: CapabilityViolation
    unfolding rejectAdmission_def thenDo_def andThen_def by (auto split: prod.splits sum.splits)
  ultimately show ?thesis
    by (auto simp: checkCapabilityAdmission_def split: option.splits sum.splits)
qed


text \<open>A store with a root capability, revoked, and its child.\<close>

definition demoCap :: Capability where
  "demoCap = \<lparr>cap_id = ''cap:0'', cap_domainId = ''d'', cap_scope = demoScope, cap_issuedBy = ''i'',
     cap_policyVersion = ''p/1'', cap_reason = ''r'', cap_limits = DEFAULT_CAPABILITY_LIMITS, cap_expiresAt = Iso 1000,
     cap_parentId = None, cap_epoch = 1, cap_createdAt = 1, cap_revokedAt = Some 5\<rparr>"

definition demoChildCap :: Capability where
  "demoChildCap = demoCap\<lparr>cap_id := ''cap:1'', cap_scope := demoChild, cap_parentId := Some ''cap:0'', cap_revokedAt := None\<rparr>"

definition demoCaps :: store where
  "demoCaps = demo3\<lparr>db_capabilities := [demoCap, demoChildCap]\<rparr>"

lemma demoCaps_get: "getCapability ''cap:0'' demoCaps = Some demoCap" "getCapability ''cap:1'' demoCaps = Some demoChildCap"
  by code_simp+

theorem broken_ancestor_rejects_witness: "isl (fst (checkCapabilityAdmission demoFs 10 demoAsk demoCaps))"
proof (rule broken_ancestor_rejects)
  show "getCapability (ao_capabilityId demoAsk) demoCaps = Some demoChildCap"
    using demoCaps_get(2) by (simp add: demoAsk_def)
  have "ancestorOf demoCaps (cap_parentId demoChildCap) demoCap"
    by (rule ancestorOf.parent [OF _ demoCaps_get(1)]) code_simp
  moreover have "dead 10 (ao_currentEpoch demoAsk) demoCap" by (simp add: dead_def demoCap_def)
  ultimately show "dead 10 (ao_currentEpoch demoAsk) demoChildCap
      \<or> (\<exists>c. ancestorOf demoCaps (cap_parentId demoChildCap) c \<and> dead 10 (ao_currentEpoch demoAsk) c)"
    by blast
qed

lemma rejectAdmission_effect:
  "\<exists>t. rejectAdmission now o' v s = (Inl (CapabilityViolationError v), t)
     \<and> t = s\<lparr>db_journal := db_journal t, db_seq := db_seq t\<rparr>"
proof (cases rule: recordEvent_cases [of "mkEvent (ao_domainId o') (ao_runId o') (ao_opId o') ''CAPABILITY_REJECTED''
        (JObj [(''capabilityId'', JStr (ao_capabilityId o')), (''reason'', JStr (violationStr v)),
               (''requiredResources'', optJ strsJ (ao_requiredResources o')),
               (''mutationRoots'', optJ strsJ (ao_mutationRoots o'))]) now" s])
  case (refused err)
  then show ?thesis by (simp add: rejectAdmission_def recordEvent_def thenDo_def andThen_def catchE_def)
next
  case (appended v')
  show ?thesis
    unfolding rejectAdmission_def recordEvent_def thenDo_def andThen_def catchE_def appended(4) by simp
qed


text \<open>The walk up the chain of parents ends when some rank falls along it, as it does when a parent
  is recorded before its children.\<close>

definition acyclicCaps :: "store \<Rightarrow> bool" where
  "acyclicCaps s \<longleftrightarrow> (\<exists>f :: string \<Rightarrow> nat. \<forall>a c b.
     getCapability a s = Some c \<and> truthy (cap_parentId c) = Some b \<longrightarrow> f b < f a)"

lemma getCapability_key: "getCapability a s = Some c \<Longrightarrow> a \<in> cap_id ` set (db_capabilities s)"
  by (auto simp: getCapability_def dest: rowOf_mem rowOf_key)

lemma ancestorFault_long:
  assumes rank: "\<forall>a c b. getCapability a s = Some c \<and> truthy (cap_parentId c) = Some b \<longrightarrow> f b < (f a :: nat)"
  shows "ancestorFault n now ep s up = None \<Longrightarrow> \<exists>a ids. truthy up = Some a \<and> length ids = n \<and> distinct ids
    \<and> set ids \<subseteq> cap_id ` set (db_capabilities s) \<and> (\<forall>i \<in> set ids. f i \<le> f a)"
proof (induction n arbitrary: up)
  case 0
  then show ?case by (auto split: option.splits)
next
  case (Suc n)
  from Suc.prems obtain a anc where a: "truthy up = Some a" "getCapability a s = Some anc"
    and rest: "ancestorFault n now ep s (cap_parentId anc) = None"
    by (auto split: option.splits if_splits)
  from Suc.IH [OF rest] obtain b ids where ids: "truthy (cap_parentId anc) = Some b" "length ids = n" "distinct ids"
    "set ids \<subseteq> cap_id ` set (db_capabilities s)" "\<forall>i \<in> set ids. f i \<le> f b" by blast
  have "f b < f a" using rank a(2) ids(1) by blast
  then have "\<forall>i \<in> set (a # ids). f i \<le> f a" "a \<notin> set ids" using ids(5) by force+
  with a ids getCapability_key [OF a(2)] show ?case by (intro exI [of _ a] exI [of _ "a # ids"]) simp
qed

lemma decideAdmission_None:
  "decideAdmission fs now s o' = None \<Longrightarrow> \<exists>up. ancestorFault (ancestorFuel s) now (ao_currentEpoch o') s up = None"
  unfolding decideAdmission_def Let_def by (auto split: option.splits if_splits)

text \<open>C26: Admission terminates: over capabilities whose chains of parents have no cycle the walk up
  the ancestors ends, so the check always returns or throws a violation.\<close>

theorem admission_terminates:
  assumes "acyclicCaps s"
  shows "fst (checkCapabilityAdmission fs now o' s) \<noteq> Inl LoopsForever"
proof -
  from assms obtain f :: "string \<Rightarrow> nat" where
    rank: "\<forall>a c b. getCapability a s = Some c \<and> truthy (cap_parentId c) = Some b \<longrightarrow> f b < f a"
    unfolding acyclicCaps_def by blast
  have "ancestorFault (ancestorFuel s) now ep s up \<noteq> None" for ep up
  proof
    assume "ancestorFault (ancestorFuel s) now ep s up = None"
    from ancestorFault_long [OF rank this] obtain ids where ids: "length ids = Suc (length (db_capabilities s))" "distinct ids"
      "set ids \<subseteq> cap_id ` set (db_capabilities s)"
      unfolding ancestorFuel_def by blast
    have "card (set ids) \<le> card (cap_id ` set (db_capabilities s))"
      by (rule card_mono) (use ids(3) in auto)
    also have "\<dots> \<le> length (db_capabilities s)"
      by (meson card_image_le card_length finite_set order_trans)
    finally show False using ids(1,2) by (simp add: distinct_card)
  qed
  then have "decideAdmission fs now s o' \<noteq> None"
    using decideAdmission_None by metis
  moreover have "fst (rejectAdmission now o' v s :: (KError + AdmissionResult) \<times> store) \<noteq> Inl LoopsForever" for v
  proof -
    obtain t where "rejectAdmission now o' v s = (Inl (CapabilityViolationError v) :: KError + AdmissionResult, t)"
      using rejectAdmission_effect by blast
    then show ?thesis by simp
  qed
  ultimately show ?thesis
    unfolding checkCapabilityAdmission_def by (auto split: option.splits sum.splits)
qed

theorem admission_terminates_witness:
  "fst (checkCapabilityAdmission demoFs 10 demoAsk demoCaps) \<noteq> Inl LoopsForever"
proof (rule admission_terminates)
  have "getCapability a demoCaps = (if a = ''cap:0'' then Some demoCap else if a = ''cap:1'' then Some demoChildCap else None)" for a
    using demoCaps_get by (auto simp: getCapability_def demoCaps_def demoCap_def demoChildCap_def)
  then show "acyclicCaps demoCaps"
    unfolding acyclicCaps_def
    by (intro exI [of _ "\<lambda>a. if a = ''cap:1'' then 1 else 0"])
      (auto simp: demoCap_def demoChildCap_def truthy_def split: if_splits)
qed

end
