(* ===== verification/DomainProps.thy ===== *)
theory DomainProps
  imports DomainLaws CapabilityProps
begin

text \<open>
  Properties of the execution domain: the isolation barrier and its rebuilding, allocation,
  the fairness of the waiting queue, registration of intents, adjudication, and capabilities.
\<close>

section \<open>The isolation barrier\<close>


text \<open>A domain over the store with a run and no operation.\<close>

definition demoDomain :: domain where
  "demoDomain = \<lparr>dm_store = demo3, dm_domainId = ''d'', dm_owner = demoOwner, dm_budget = None, dm_locked = [],
     dm_allocated = [], dm_budgets = [], dm_queue = [], dm_fenced = False, dm_open = True, dm_nextTicket = 0,
     dm_settled = []\<rparr>"

text \<open>The same domain with \<open>op1\<close> in flight.\<close>

definition demoBusy :: domain where
  "demoBusy = demoDomain\<lparr>dm_store := demo4, dm_locked := [(''/w'', ''op1'')], dm_allocated := [''op1'']\<rparr>"

lemma demo_busy: "domainRegisterIntent demoHash (\<lambda>_. False) 5 demoOp demoDomain = (Inr (), demoBusy)"
proof -
  have "assertOperationIdAvailable ''op1'' demoDomain = (Inr (), demoDomain)" by code_simp
  moreover have "allocateResources ''op1'' [''/w''] 0 None demoDomain
      = (Inr (), demoDomain\<lparr>dm_locked := [(''/w'', ''op1'')], dm_allocated := [''op1'']\<rparr>)" by code_simp
  ultimately show ?thesis
    unfolding domainRegisterIntent_def
    by (simp add: demoOp_def [THEN arg_cong, of op_id, simplified] demoOp_def [THEN arg_cong, of op_requiredResources, simplified]
        demoOp_def [THEN arg_cong, of op_resourceBudget, simplified] inStore_def demoDomain_def demo_intent demoBusy_def)
qed


section \<open>Rebuilding the barrier\<close>

definition covers :: "(string, string) jsmap \<Rightarrow> (string, string) jsmap \<Rightarrow> bool" where
  "covers m m' \<longleftrightarrow> (\<forall>r v. mapGet m r = Some v \<longrightarrow> (\<exists>v'. mapGet m' r = Some v' \<and> (v \<noteq> [] \<longrightarrow> v' = v)))"

lemma covers_refl [simp]: "covers m m" and covers_trans: "covers m m' \<Longrightarrow> covers m' m'' \<Longrightarrow> covers m m''"
  unfolding covers_def by blast metis

lemma covers_locked: "covers m m' \<Longrightarrow> mapGet m r \<noteq> None \<Longrightarrow> mapGet m' r \<noteq> None"
  unfolding covers_def by blast

lemma covers_value: "covers m m' \<Longrightarrow> mapGet m r = Some v \<Longrightarrow> v \<noteq> [] \<Longrightarrow> mapGet m' r = Some v"
  unfolding covers_def by blast

lemma lockRoot_keeps:
  "lockRoot owner root d = (r, d') \<Longrightarrow> covers (dm_locked d) (dm_locked d') \<and> dm_store d' = dm_store d
     \<and> dm_domainId d' = dm_domainId d \<and> set (dm_allocated d) \<subseteq> set (dm_allocated d')"
  by (auto simp: lockRoot_def Let_def covers_def truthy_def split: option.splits if_splits list.splits)


text \<open>What the locking of pending transactions leaves alone.\<close>

definition extends :: "domain \<Rightarrow> domain \<Rightarrow> bool" where
  "extends d d' \<longleftrightarrow> covers (dm_locked d) (dm_locked d') \<and> dm_store d' = dm_store d
     \<and> dm_domainId d' = dm_domainId d \<and> set (dm_allocated d) \<subseteq> set (dm_allocated d')"

lemma extends_refl [simp]: "extends d d" and extends_trans: "extends d d' \<Longrightarrow> extends d' d'' \<Longrightarrow> extends d d''"
  unfolding extends_def by (simp, metis covers_trans order_trans)

lemma pres_extends_forEach: "(\<And>x. preserves (extends d0) (f x)) \<Longrightarrow> preserves (extends d0) (forEach xs f)"
  by (rule pres_forEach)

lemma extends_lockPending: "preserves (extends d0) (lockPending p)"
proof (rule preservesI)
  fix d assume d: "extends d0 d"
  have root: "preserves (extends d0) (lockRoot owner root)" for owner root
  proof (rule preservesI)
    fix d assume "extends d0 d"
    moreover obtain r d' where "lockRoot owner root d = (r, d')" by fastforce
    ultimately show "extends d0 (snd (lockRoot owner root d))"
      using lockRoot_keeps [of owner root d r d'] extends_trans [of d0 d d'] by (simp add: extends_def)
  qed
  have "preserves (extends d0) (thenDo (forEach (snd p) (lockRoot owner))
      (modify (\<lambda>d. d\<lparr>dm_allocated := setAdd owner (dm_allocated d)\<rparr>)))" for owner
    by (intro pres_thenDo pres_forEach root pres_modify) (auto simp: extends_def)
  then show "extends d0 (snd (lockPending p d))"
    using d by (auto simp: lockPending_def Let_def preserves_snd split: option.split)
qed

text \<open>The two folds: everything persisted is locked, and, when the claims agree, by its claimant.\<close>

definition lockedFor :: "(string \<Rightarrow> string option) \<Rightarrow> domain \<Rightarrow> bool" where
  "lockedFor f d \<longleftrightarrow> (\<forall>r v. mapGet (dm_locked d) r = Some v \<longrightarrow> f r = Some v)"

lemma fold_lockLease:
  "dm_store (fold lockLease ls d) = dm_store d \<and> dm_domainId (fold lockLease ls d) = dm_domainId d
   \<and> dm_allocated (fold lockLease ls d) = dm_allocated d
   \<and> (\<forall>r. mapGet (dm_locked (fold lockLease ls d)) r = None \<longleftrightarrow>
        mapGet (dm_locked d) r = None \<and> r \<notin> lease_resourceId ` set ls)
   \<and> ((\<forall>l \<in> set ls. f (lease_resourceId l) = Some (lease_operationId l)) \<longrightarrow> lockedFor f d \<longrightarrow> lockedFor f (fold lockLease ls d))"
proof (induction ls arbitrary: d)
  case (Cons l ls)
  have "lockedFor f d \<Longrightarrow> f (lease_resourceId l) = Some (lease_operationId l) \<Longrightarrow> lockedFor f (lockLease l d)"
    by (simp add: lockedFor_def lockLease_def)
  with Cons.IH [of "lockLease l d"] show ?case by (auto simp: lockLease_def)
qed simp

lemma fold_lockUnfinished:
  "dm_store (fold lockUnfinished os d) = dm_store d \<and> dm_domainId (fold lockUnfinished os d) = dm_domainId d
   \<and> set (dm_allocated (fold lockUnfinished os d)) = op_id ` set os \<union> set (dm_allocated d)
   \<and> (\<forall>r. mapGet (dm_locked (fold lockUnfinished os d)) r = None \<longleftrightarrow>
        mapGet (dm_locked d) r = None \<and> (\<forall>o' \<in> set os. r \<notin> set (op_requiredResources o')))
   \<and> ((\<forall>o' \<in> set os. \<forall>r \<in> set (op_requiredResources o'). f r = Some (op_id o')) \<longrightarrow> lockedFor f d \<longrightarrow>
        lockedFor f (fold lockUnfinished os d))"
proof (induction os arbitrary: d)
  case (Cons o' os)
  have "lockedFor f d \<Longrightarrow> \<forall>r \<in> set (op_requiredResources o'). f r = Some (op_id o') \<Longrightarrow> lockedFor f (lockUnfinished o' d)"
    by (auto simp: lockedFor_def lockUnfinished_def mapGet_lockAll split: if_splits)
  with Cons.IH [of "lockUnfinished o' d"] show ?case by (auto simp: lockUnfinished_def mapGet_lockAll)
qed simp

text \<open>The database makes no two claims on one resource: a lease, or an unfinished operation's
  requirement, of the domain.\<close>

definition exclusiveClaims :: "string \<Rightarrow> store \<Rightarrow> (string \<Rightarrow> string option) \<Rightarrow> bool" where
  "exclusiveClaims i s f \<longleftrightarrow>
     (\<forall>l \<in> set (getPersistedResourceLeases i s). f (lease_resourceId l) = Some (lease_operationId l) \<and> lease_operationId l \<noteq> [])
   \<and> (\<forall>o' \<in> set (getUnfinishedOperations i s). \<forall>r \<in> set (op_requiredResources o'). f r = Some (op_id o'))"

lemma rebuild_parts:
  assumes "rebuildIsolationFromStore d = (Inr u, d')"
  shows "\<exists>held. extends held d' \<and> held = fold lockUnfinished (getUnfinishedOperations (dm_domainId d) (dm_store d))
      (fold lockLease (getPersistedResourceLeases (dm_domainId d) (dm_store d))
         (d\<lparr>dm_locked := [], dm_budgets := [], dm_allocated := []\<rparr>))"
proof -
  let ?held = "fold lockUnfinished (getUnfinishedOperations (dm_domainId d) (dm_store d))
      (fold lockLease (getPersistedResourceLeases (dm_domainId d) (dm_store d))
         (d\<lparr>dm_locked := [], dm_budgets := [], dm_allocated := []\<rparr>))"
  from assms obtain pending where "forEach pending lockPending ?held = (Inr u, d')"
    by (auto simp: rebuildIsolationFromStore_def Let_def split: sum.splits)
  then have "extends ?held d'"
    by (rule preservesD [OF pres_forEach [OF extends_lockPending] extends_refl])
  then show ?thesis by blast
qed

text \<open>C10: Recovery before execution. After a rebuild that returns, every resource with a persisted
  lease and every resource an unfinished operation requires is locked, and the unfinished
  operations count against the cap on concurrency; when the database makes no two claims on one
  resource, the isolation barrier holds.\<close>

theorem rebuild_restores_barrier:
  assumes run: "rebuildIsolationFromStore d = (Inr u, d')"
  shows "dm_store d' = dm_store d
    \<and> (\<forall>l \<in> set (getPersistedResourceLeases (dm_domainId d) (dm_store d)). isResourceLocked (lease_resourceId l) d')
    \<and> (\<forall>o' \<in> set (getUnfinishedOperations (dm_domainId d) (dm_store d)). op_id o' \<in> set (dm_allocated d')
        \<and> (\<forall>r \<in> set (op_requiredResources o'). isResourceLocked r d'))
    \<and> ((\<exists>f. exclusiveClaims (dm_domainId d) (dm_store d) f) \<longrightarrow> isolated d')"
proof -
  define ls where "ls = getPersistedResourceLeases (dm_domainId d) (dm_store d)"
  define os where "os = getUnfinishedOperations (dm_domainId d) (dm_store d)"
  define leased where "leased = fold lockLease ls (d\<lparr>dm_locked := [], dm_budgets := [], dm_allocated := []\<rparr>)"
  define held where "held = fold lockUnfinished os leased"
  have ext: "extends held d'"
    using rebuild_parts [OF run] unfolding held_def leased_def ls_def os_def by simp
  have l: "dm_store leased = dm_store d" "dm_domainId leased = dm_domainId d"
    "\<And>r. mapGet (dm_locked leased) r = None \<longleftrightarrow> r \<notin> lease_resourceId ` set ls"
    using fold_lockLease [of ls "d\<lparr>dm_locked := [], dm_budgets := [], dm_allocated := []\<rparr>"]
    by (simp_all add: leased_def)
  have h: "dm_store held = dm_store d" "dm_domainId held = dm_domainId d"
    "set (dm_allocated held) = op_id ` set os \<union> set (dm_allocated leased)"
    "\<And>r. mapGet (dm_locked held) r = None \<longleftrightarrow>
       r \<notin> lease_resourceId ` set ls \<and> (\<forall>o' \<in> set os. r \<notin> set (op_requiredResources o'))"
    using fold_lockUnfinished [of os leased] by (simp_all add: held_def [symmetric] l)
  have store: "dm_store d' = dm_store d" "dm_domainId d' = dm_domainId d"
    using ext h(1,2) unfolding extends_def by simp_all
  have locked: "mapGet (dm_locked held) r \<noteq> None"
    if "r \<in> lease_resourceId ` set ls \<or> (\<exists>o' \<in> set os. r \<in> set (op_requiredResources o'))" for r
    using that by (simp add: h(4))
  have kept: "mapGet (dm_locked held) r \<noteq> None \<Longrightarrow> isResourceLocked r d'" for r
    using ext covers_locked unfolding extends_def isResourceLocked_def by blast
  have alloc: "op_id ` set os \<subseteq> set (dm_allocated d')"
    using ext h(3) unfolding extends_def by simp
  have barrier: "isolated d'" if ex: "exclusiveClaims (dm_domainId d) (dm_store d) f" for f
  proof -
    have claims: "\<forall>l \<in> set ls. f (lease_resourceId l) = Some (lease_operationId l) \<and> lease_operationId l \<noteq> []"
      "\<forall>o' \<in> set os. \<forall>r \<in> set (op_requiredResources o'). f r = Some (op_id o')"
      using ex unfolding exclusiveClaims_def ls_def os_def by blast+
    have "lockedFor f leased"
      using fold_lockLease [of ls "d\<lparr>dm_locked := [], dm_budgets := [], dm_allocated := []\<rparr>" f, folded leased_def] claims(1)
      by (simp add: lockedFor_def)
    then have held: "lockedFor f held"
      using fold_lockUnfinished [of os leased f] claims(2) by (simp add: held_def)
    have "mapGet (dm_locked d') (lease_resourceId x) = Some (lease_operationId x) \<and> lease_operationId x \<noteq> []"
      if x: "x \<in> set ls" for x
    proof -
      obtain v where v: "mapGet (dm_locked held) (lease_resourceId x) = Some v"
        using locked [of "lease_resourceId x"] x by (simp add: image_iff) blast
      with held claims(1) x have "v = lease_operationId x" "v \<noteq> []" unfolding lockedFor_def by force+
      with v ext covers_value show ?thesis unfolding extends_def by metis
    qed
    then show ?thesis by (simp add: isolated_def store ls_def getPersistedResourceLeases_def)
  qed
  have "\<forall>l \<in> set ls. isResourceLocked (lease_resourceId l) d'"
    by (intro ballI kept locked disjI1 imageI)
  moreover have "\<forall>o' \<in> set os. op_id o' \<in> set (dm_allocated d') \<and> (\<forall>r \<in> set (op_requiredResources o'). isResourceLocked r d')"
  proof (intro ballI conjI)
    fix o' assume o': "o' \<in> set os"
    then show "op_id o' \<in> set (dm_allocated d')" using alloc by (meson imageI subsetD)
    fix r assume "r \<in> set (op_requiredResources o')"
    with o' show "isResourceLocked r d'" by (intro kept locked disjI2 bexI)
  qed
  moreover have "(\<exists>f. exclusiveClaims (dm_domainId d) (dm_store d) f) \<longrightarrow> isolated d'"
    by (intro impI) (elim exE barrier)
  ultimately show ?thesis by (simp only: store ls_def os_def simp_thms)
qed

theorem rebuild_restores_barrier_witness:
  "isResourceLocked ''/w'' (snd (rebuildIsolationFromStore (demoDomain\<lparr>dm_store := demo4\<rparr>)))"
proof -
  have "fst (rebuildIsolationFromStore (demoDomain\<lparr>dm_store := demo4\<rparr>)) = Inr ()" by code_simp
  then have "rebuildIsolationFromStore (demoDomain\<lparr>dm_store := demo4\<rparr>)
      = (Inr (), snd (rebuildIsolationFromStore (demoDomain\<lparr>dm_store := demo4\<rparr>)))" by (metis prod.collapse)
  moreover have "demoLease \<in> set (getPersistedResourceLeases ''d'' demo4)" by code_simp
  ultimately show ?thesis
    using rebuild_restores_barrier [of "demoDomain\<lparr>dm_store := demo4\<rparr>"] by (fastforce simp: demoDomain_def demoLease_def)
qed

end
