(* ===== verification/LockSpec.thy ===== *)
theory LockSpec
  imports DomainProps
begin

text \<open>
  The isolation table of a domain as a lock manager. The specification is a function from
  resources to holders with two moves: a holder takes resources nobody else has, and a holder
  gives some of its resources up. \<open>holder\<close> abstracts the JavaScript \<open>Map\<close>, and every call on the
  domain refines a sequence of moves.
\<close>

type_synonym holding = "string \<Rightarrow> string option"

inductive lockMove :: "holding \<Rightarrow> holding \<Rightarrow> bool" where
  take: "\<forall>r \<in> R. L r = None \<or> L r = Some owner \<Longrightarrow> lockMove L (\<lambda>r. if r \<in> R then Some owner else L r)"
| give: "\<forall>r. L' r = L r \<or> (L r = Some owner \<and> L' r = None) \<Longrightarrow> lockMove L L'"

definition holder :: "domain \<Rightarrow> holding" where
  "holder d = (\<lambda>r. truthy (mapGet (dm_locked d) r))"

text \<open>The domain reached \<open>holder d\<close> from \<open>L0\<close> by moves of the specification.\<close>

definition follows :: "holding \<Rightarrow> domain \<Rightarrow> bool" where
  "follows L0 d \<longleftrightarrow> isolated d \<and> distinct (map fst (dm_locked d)) \<and> lockMove\<^sup>*\<^sup>* L0 (holder d)"

lemma follows_frame:
  "follows L0 d \<Longrightarrow> isolated d' \<Longrightarrow> dm_locked d' = dm_locked d \<Longrightarrow> follows L0 d'"
  by (simp add: follows_def holder_def)

lemma follows_move:
  "follows L0 d \<Longrightarrow> isolated d' \<Longrightarrow> distinct (map fst (dm_locked d')) \<Longrightarrow> lockMove (holder d) (holder d') \<Longrightarrow> follows L0 d'"
  unfolding follows_def by (blast intro: rtranclp.rtrancl_into_rtrancl)

text \<open>A method that keeps the barrier and does not touch the table is a stutter.\<close>

lemma follows_same:
  assumes "preserves isolated m" and "\<And>d. dm_locked (snd (m d)) = dm_locked d"
  shows "preserves (follows L0) m"
proof (rule preservesI)
  fix d assume d: "follows L0 d"
  then have "isolated (snd (m d))" using preserves_snd [OF assms(1)] by (simp add: follows_def)
  with d show "follows L0 (snd (m d))" by (rule follows_frame) (rule assms(2))
qed

lemma locked_inStore [simp]: "dm_locked (snd (inStore m d)) = dm_locked d"
  by (simp add: inStore_def split: prod.split)

lemma follows_inStore: "preserves isolated (inStore m) \<Longrightarrow> preserves (follows L0) (inStore m)"
  by (rule follows_same) simp_all

lemma follows_inStore_at:
  "preserves isolated (\<lambda>d. inStore (m d) d) \<Longrightarrow> preserves (follows L0) (\<lambda>d. inStore (m d) d)"
  by (rule follows_same) simp_all

section \<open>Taking\<close>

lemma distinct_lockAll: "distinct (map fst m) \<Longrightarrow> distinct (map fst (lockAll opId rs m))"
  by (induction rs arbitrary: m) (simp_all add: lockAll_def)

lemma holder_lockAll:
  "holder (d\<lparr>dm_locked := lockAll opId rs (dm_locked d)\<rparr>) = (\<lambda>r. if r \<in> set rs then truthy (Some opId) else holder d r)"
  by (rule ext) (simp add: holder_def mapGet_lockAll)

lemma lockMove_lockAll:
  assumes "lockConflict (dm_locked d) opId rs = None"
  shows "lockMove (holder d) (\<lambda>r. if r \<in> set rs then truthy (Some opId) else holder d r)"
proof -
  have free: "\<forall>r \<in> set rs. holder d r = None \<or> holder d r = Some opId"
  proof
    fix r assume r: "r \<in> set rs"
    show "holder d r = None \<or> holder d r = Some opId"
    proof (cases "holder d r")
      case (Some v)
      then have "mapGet (dm_locked d) r = Some v" "v \<noteq> []" by (simp_all add: holder_def truthy_Some_iff)
      with lockConflict_None [OF assms r] have "v = opId" by blast
      with Some show ?thesis by simp
    qed simp
  qed
  show ?thesis
  proof (cases "opId = []")
    case True
    then have "\<forall>r \<in> set rs. holder d r = None"
      using free by (auto simp: holder_def truthy_Some_iff)
    with True have "(\<lambda>r. if r \<in> set rs then truthy (Some opId) else holder d r) = holder d" by auto
    then show ?thesis using lockMove.give [of "holder d" "holder d"] by simp
  next
    case False
    then have "truthy (Some opId) = Some opId" by simp
    with lockMove.take [OF free] show ?thesis by (simp cong: if_cong)
  qed
qed

lemma follows_allocate: "preserves (follows L0) (allocateResources opId rs waited budget)"
proof (rule preservesI)
  fix d assume d: "follows L0 d"
  show "follows L0 (snd (allocateResources opId rs waited budget d))"
  proof (cases rule: allocate_cases [of opId rs waited budget d])
    case (refused e)
    with d show ?thesis by simp
  next
    case granted
    let ?d = "snd (allocateResources opId rs waited budget d)"
    have "holder ?d = (\<lambda>r. if r \<in> set rs then truthy (Some opId) else holder d r)"
      using holder_lockAll [of opId rs d] by (simp add: granted(4) holder_def)
    then have "lockMove (holder d) (holder ?d)" using lockMove_lockAll [OF granted(1)] by simp
    moreover have "distinct (map fst (dm_locked ?d))"
      using d by (simp add: granted(4) follows_def distinct_lockAll)
    moreover have "isolated ?d" using d preserves_snd [OF iso_allocate] by (simp add: follows_def)
    ultimately show ?thesis using follows_move [OF d] by blast
  qed
qed

lemma follows_queue [simp]:
  "follows L0 (d\<lparr>dm_queue := q\<rparr>) = follows L0 d" "follows L0 (settle t e d) = follows L0 d"
  "follows L0 (dequeue t d) = follows L0 d" "follows L0 (d\<lparr>dm_nextTicket := n\<rparr>) = follows L0 d"
  by (simp_all add: follows_def holder_def settle_def dequeue_def)

lemma follows_scanQueue: "follows L0 d \<Longrightarrow> follows L0 (scanQueue cancelled now reserved blocked kept ws d)"
proof (induction cancelled now reserved blocked kept ws d rule: scanQueue.induct)
  case (2 cancelled now reserved blocked kept w ws d)
  have "follows L0 (snd (allocateResources (w_op w) (w_resources w) (now - w_startTime w) (w_budget w) d))"
    by (rule preserves_snd [OF follows_allocate "2.prems"])
  with 2 show ?case
    by (cases "allocateResources (w_op w) (w_resources w) (now - w_startTime w) (w_budget w) d")
      (auto split: sum.split KError.split)
qed simp

lemma follows_processWaitQueue: "preserves (follows L0) (processWaitQueue cancelled now)"
  unfolding processWaitQueue_def by (rule pres_modify) (simp add: follows_scanQueue)

lemma follows_wait: "preserves (follows L0) (allocateResourcesWithWait now gone opId rs maxWait budget)"
proof (rule preservesI)
  fix d assume d: "follows L0 d"
  have "follows L0 (snd (allocateResources opId rs 0 budget d))"
    using preserves_snd [OF follows_allocate d] .
  with d show "follows L0 (snd (allocateResourcesWithWait now gone opId rs maxWait budget d))"
    by (auto simp: allocateResourcesWithWait_def thenDo_def andThen_def assertNotFenced_def enqueueWaiter_def Let_def
        split: sum.splits prod.splits)
qed

section \<open>Giving up\<close>

text \<open>While resources are released, the table only loses entries of the operation.\<close>

definition shrinks :: "string \<Rightarrow> domain \<Rightarrow> domain \<Rightarrow> bool" where
  "shrinks opId d d' \<longleftrightarrow> distinct (map fst (dm_locked d')) \<and>
     (\<forall>r. mapGet (dm_locked d') r = mapGet (dm_locked d) r \<or>
          (mapGet (dm_locked d) r = Some opId \<and> mapGet (dm_locked d') r = None))"

lemma shrinks_move: "shrinks opId d d' \<Longrightarrow> lockMove (holder d) (holder d')"
proof (rule lockMove.give [of _ _ opId], rule allI)
  fix r assume "shrinks opId d d'"
  then have "mapGet (dm_locked d') r = mapGet (dm_locked d) r
      \<or> (mapGet (dm_locked d) r = Some opId \<and> mapGet (dm_locked d') r = None)" by (simp add: shrinks_def)
  then show "holder d' r = holder d r \<or> (holder d r = Some opId \<and> holder d' r = None)"
  proof (elim disjE conjE)
    assume "mapGet (dm_locked d') r = mapGet (dm_locked d) r"
    then show ?thesis by (simp only: holder_def simp_thms)
  next
    assume "mapGet (dm_locked d) r = Some opId" and "mapGet (dm_locked d') r = None"
    then show ?thesis by (cases "opId = []") (simp_all add: holder_def)
  qed
qed

lemma shrinks_releaseMany:
  assumes "distinct (map fst (dm_locked d))"
    and "\<forall>r \<in> set persisted. mapGet (dm_locked d) r = Some opId \<or> mapGet (dm_locked d) r = None"
  shows "shrinks opId d (snd (fold (releaseOne opId persisted) rs (rel, d)))"
proof -
  have step: "shrinks opId d (snd (releaseOne opId persisted r acc))" if "shrinks opId d (snd acc)" for r acc
  proof -
    obtain l b where acc: "acc = (l, b)" by (cases acc)
    have s: "mapGet (dm_locked b) x = mapGet (dm_locked d) x \<or> (mapGet (dm_locked d) x = Some opId \<and> mapGet (dm_locked b) x = None)"
      "distinct (map fst (dm_locked b))" for x
      using that by (simp_all add: acc shrinks_def)
    have "mapGet (dm_locked d) r = Some opId \<or> mapGet (dm_locked d) r = None"
      if "mapGet (dm_locked b) r = Some opId \<or> r \<in> set persisted"
      using that assms(2) s(1) [of r] by auto
    with s show ?thesis by (auto simp: acc releaseOne_def shrinks_def)
  qed
  have "shrinks opId d (snd (fold (releaseOne opId persisted) rs acc))" if "shrinks opId d (snd acc)" for acc
    using that by (induction rs arbitrary: acc) (simp_all add: step)
  then show ?thesis using assms(1) by (simp add: shrinks_def)
qed

lemma mapGet_filter_value:
  "distinct (map fst m) \<Longrightarrow> mapGet (filter (\<lambda>e. snd e \<noteq> x) m) r = (if mapGet m r = Some x then None else mapGet m r)"
proof (induction m)
  case (Cons e m)
  obtain a b where e: "e = (a, b)" by (cases e)
  with Cons.prems have "map_of m a = None" "map_of (filter (\<lambda>e. snd e \<noteq> x) m) a = None"
    by (auto intro!: map_of_None_fst)
  with Cons e show ?case by (auto simp: mapGet_def)
qed simp

lemma shrinks_releaseAll:
  "distinct (map fst (dm_locked d)) \<Longrightarrow> shrinks opId d (snd (releaseAll opId d))"
  unfolding shrinks_def releaseAll_def snd_conv
  by (simp add: mapGet_filter_value distinct_map_filter)

lemma iso_released:
  assumes "isolated d"
  shows "isolated (snd (if rs \<noteq> [] then fold (releaseOne opId (map lease_resourceId (filter (\<lambda>l. lease_operationId l = opId)
           (getPersistedResourceLeases (dm_domainId d) (dm_store d))))) rs ([], d) else releaseAll opId d))"
    (is "isolated (snd (if _ then fold (releaseOne _ ?pers) _ _ else _))")
proof -
  have "releasing opId ?pers d"
    using assms by (auto simp: releasing_def getPersistedResourceLeases_def isolated_def)
  then have "isolated (snd (fold (releaseOne opId ?pers) rs ([], d)))"
    using releaseMany_step [of opId ?pers "([], d)" rs] by (simp add: releasing_def)
  then show ?thesis using iso_releaseAll [OF assms] by simp
qed

lemma follows_releaseBody: "preserves (follows L0) (releaseBody cancelled now opId rs)"
proof (rule preservesI)
  fix d assume d: "follows L0 d"
  let ?pers = "map lease_resourceId (filter (\<lambda>l. lease_operationId l = opId)
             (getPersistedResourceLeases (dm_domainId d) (dm_store d)))"
  obtain released d1 where d1: "(if rs \<noteq> [] then fold (releaseOne opId ?pers) rs ([], d) else releaseAll opId d) = (released, d1)"
    by fastforce
  have dist: "distinct (map fst (dm_locked d))" and iso: "isolated d" using d by (simp_all add: follows_def)
  have "\<forall>r \<in> set ?pers. mapGet (dm_locked d) r = Some opId \<or> mapGet (dm_locked d) r = None"
    using iso by (auto simp: getPersistedResourceLeases_def isolated_def)
  then have many: "shrinks opId d (snd (fold (releaseOne opId ?pers) rs ([], d)))"
    by (rule shrinks_releaseMany [OF dist])
  have "d1 = snd (if rs \<noteq> [] then fold (releaseOne opId ?pers) rs ([], d) else releaseAll opId d)"
    by (simp only: d1 snd_conv)
  then have sh: "shrinks opId d d1"
    using many shrinks_releaseAll [OF dist, of opId] by (simp split: if_split)
  have iso1: "isolated d1" using iso_released [OF iso, of rs opId] by (simp only: d1 snd_conv)
  have "follows L0 d1"
    using follows_move [OF d iso1 _ shrinks_move [OF sh]] sh by (simp add: shrinks_def)
  then have "follows L0 (if opId \<in> snd ` set (dm_locked d1) then d1
      else d1\<lparr>dm_allocated := filter (\<lambda>x. x \<noteq> opId) (dm_allocated d1), dm_budgets := mapDel opId (dm_budgets d1)\<rparr>)"
    by (simp add: follows_def isolated_def holder_def)
  then show "follows L0 (snd (releaseBody cancelled now opId rs d))"
    by (simp only: releaseBody_def d1 prod.case Let_def)
      (rule preserves_snd [OF pres_thenDo [OF follows_inStore [OF iso_inStore [OF within_recordEvent]] follows_processWaitQueue]])
qed

lemma follows_assertNotFenced: "preserves (follows L0) assertNotFenced"
  by (simp add: preserves_def assertNotFenced_def)

lemma follows_release: "preserves (follows L0) (internalReleaseResources cancelled now opId rs)"
  unfolding internalReleaseResources_def
  by (intro pres_thenDo follows_assertNotFenced follows_inStore_at iso_verify follows_releaseBody)


section \<open>The other calls\<close>

lemma follows_registerIntent:
  assumes "op_id op' \<noteq> []"
  shows "preserves (follows L0) (domainRegisterIntent H cancelled now op')"
proof (rule preservesI)
  fix d assume d: "follows L0 d"
  let ?r = "domainRegisterIntent H cancelled now op' d"
  have iso: "isolated (snd ?r)" using d preserves_snd [OF iso_registerIntent [OF assms]] by (simp add: follows_def)
  have avail: "snd (assertOperationIdAvailable (op_id op') d) = d"
    by (simp add: assertOperationIdAvailable_def thenDo_def andThen_def assertNotFenced_def split: option.split)
  obtain a where a: "assertOperationIdAvailable (op_id op') d = (a, d)" using avail by (metis prod.collapse)
  obtain b d1 where b: "allocateResources (op_id op') (op_requiredResources op') 0 (op_resourceBudget op') d = (b, d1)"
    by fastforce
  have d1: "follows L0 d1" using preservesD [OF follows_allocate d b] .
  obtain c s where c: "registerOperationIntent H now op' (dm_domainId d1) (dm_store d1) = (c, s)" by fastforce
  consider "\<exists>e. a = Inl e" | "a = Inr ()" "\<exists>e. b = Inl e" | "a = Inr ()" "b = Inr ()" "\<exists>e. c = Inl e"
    | "a = Inr ()" "b = Inr ()" "c = Inr ()"
    by (cases a; cases b; cases c) auto
  then show "follows L0 (snd ?r)"
  proof cases
    case 1
    with a d show ?thesis by (auto simp: domainRegisterIntent_def)
  next
    case 2
    with a b d1 show ?thesis by (auto simp: domainRegisterIntent_def)
  next
    case 3
    then obtain e where e: "c = Inl e" by blast
    with c have "s = dm_store d1" by (metis registerIntent_Inl)
    with 3 e a b c have "snd ?r = snd (thenDo (internalReleaseResources cancelled now (op_id op') (op_requiredResources op')) (raise e :: unit domM) d1)"
      by (simp add: domainRegisterIntent_def catchE_def inStore_def)
    then show ?thesis using preserves_snd [OF pres_thenDo [OF follows_release pres_raise] d1] by simp
  next
    case 4
    with a b c have "dm_locked (snd ?r) = dm_locked d1" by (simp add: domainRegisterIntent_def catchE_def inStore_def)
    then show ?thesis using follows_frame [OF d1 iso] by blast
  qed
qed

lemma follows_event: "preserves (follows L0) (\<lambda>d. inStore (recordEvent (mkEvent (dm_domainId d) r o' ty p now)) d)"
  by (rule follows_inStore_at) (rule iso_event)

lemma follows_adjudicable: "preserves (follows L0) (adjudicable opId)"
proof -
  have "preserves (follows L0) (\<lambda>d. case getOperation opId (dm_store d) of None \<Rightarrow> (Inl (OperationNotFound opId), d)
     | Some o' \<Rightarrow> (case (op_status o', op_result o') of
         (ODone, Some (ResIndeterminate r)) \<Rightarrow> (Inr (o', r), d)
       | _ \<Rightarrow> (Inl (NotAdjudicable opId), d)))"
    by (simp add: preserves_def split: option.split OperationStatus.split OperationResult.split)
  then show ?thesis
    unfolding adjudicable_def by (intro pres_thenDo follows_assertNotFenced follows_inStore_at iso_verify)
qed

lemma follows_adjudicate: "preserves (follows L0) (adjudicate cancelled probe ge now opId verdict actor note decision ev)"
  unfolding adjudicate_def Let_def
  by (intro pres_andThen follows_adjudicable pres_case_prod pres_thenDo pres_guardE follows_event
      follows_inStore [OF iso_inStore [OF within_results(3)]] follows_release pres_ret)

lemma follows_reports:
  "preserves (follows L0) (domainReportCancelled now runId reason)"
  "preserves (follows L0) (domainReportSucceeded now runId)"
  "preserves (follows L0) (domainReportFailed now runId reason)"
  unfolding domainReportCancelled_def domainReportSucceeded_def domainReportFailed_def
  by (intro pres_thenDo follows_assertNotFenced follows_inStore iso_inStore within_reports)+

lemma locked_queue [simp]: "dm_locked (settle t e d) = dm_locked d" "dm_locked (dequeue t d) = dm_locked d"
  by (simp_all add: settle_def dequeue_def)

lemma locked_capability_write:
  "dm_locked (snd (thenDo (inStore (recordCapability c)) (thenDo (inStore (recordEvent e)) (ret c)) d)) = dm_locked d"
  "dm_locked (snd (thenDo (inStore (storeRevokeCapability capId i now)) (inStore (recordEvent e)) d)) = dm_locked d"
  by (simp_all add: thenDo_def andThen_def inStore_def split: prod.split sum.split)

lemma locked_frames:
  "dm_locked (snd (waitTimeout cancelled now t d)) = dm_locked d"
  "dm_locked (snd (cancelWait opId d)) = dm_locked d"
  "dm_locked (snd (renewHeartbeat alive now host d)) = dm_locked d"
  "dm_locked (snd (heartbeatTick alive now host d)) = dm_locked d"
  "dm_locked (snd (closeDomain d)) = dm_locked d"
  "dm_locked (snd (setDomainBudget b d)) = dm_locked d"
  "dm_locked (snd (issueCapability fs now fresh q d)) = dm_locked d"
  "dm_locked (snd (attenuate fs now fresh capId n actor cfg d)) = dm_locked d"
  "dm_locked (snd (revokeCapability now capId actor d)) = dm_locked d"
  "dm_locked (snd (domainCheckAdmission fs now o' d)) = dm_locked d"
  by (simp_all add: waitTimeout_def cancelWait_def renewHeartbeat_def heartbeatTick_def catchE_def closeDomain_def
      setDomainBudget_def issueCapability_def attenuate_def revokeCapability_def domainCheckAdmission_def Let_def
      locked_capability_write fencedE_def split: option.split sum.split prod.split)

lemma follows_intent:
  "op_id op' \<noteq> [] \<Longrightarrow> \<forall>r \<in> set (op_requiredResources op'). mapGet (dm_locked d) r = Some (op_id op') \<Longrightarrow> follows L0 d \<Longrightarrow>
   follows L0 (snd (inStore (registerOperationIntent H now op' (dm_domainId d)) d))"
  by (rule follows_frame) (simp_all add: follows_def iso_storeIntent)

lemmas follows_rules = follows_allocate follows_wait follows_release follows_adjudicate follows_reports follows_registerIntent
  follows_same [OF iso_waitTimeout locked_frames(1)] follows_same [OF iso_cancelWait locked_frames(2)]
  follows_same [OF iso_renewHeartbeat locked_frames(3)] follows_same [OF iso_heartbeatTick locked_frames(4)]
  follows_same [OF iso_closeDomain locked_frames(5)] follows_same [OF iso_setDomainBudget locked_frames(6)]
  follows_same [OF iso_issueCapability locked_frames(7)] follows_same [OF iso_attenuate locked_frames(8)]
  follows_same [OF iso_revokeCapability locked_frames(9)] follows_same [OF iso_domainCheckAdmission locked_frames(10)]
  follows_inStore [OF iso_inStore [OF within_results(1)]] follows_inStore [OF iso_inStore [OF within_results(2)]]
  follows_inStore [OF iso_inStore [OF within_updateOperationStatus]] follows_inStore [OF iso_inStore [OF within_recordEvent]]
  follows_inStore [OF iso_inStore [OF within_recordReplay]] follows_inStore [OF iso_inStore [OF within_updateRunStatus]]
  follows_inStore [OF iso_inStore [OF within_saveRun]] follows_inStore [OF iso_inStore [OF within_rows(3)]]
  follows_inStore [OF iso_inStore [OF within_rows(6)]]

lemma domStep_follows: "domStep d d' \<Longrightarrow> follows L0 d \<Longrightarrow> follows L0 d'"
  by (induction rule: domStep.induct)
    (erule preserves_snd [rotated], rule follows_rules, assumption? | erule follows_intent, assumption, assumption)+

lemma domSteps_follow: "domStep\<^sup>*\<^sup>* d d' \<Longrightarrow> follows L0 d \<Longrightarrow> follows L0 d'"
  by (induction rule: rtranclp_induct) (auto intro: domStep_follows)

section \<open>The refinement\<close>



end
