(* ===== verification/Coverage.thy ===== *)
theory Coverage
  imports KernelTypes
begin

text \<open>
  What a rollback may claim to have covered, \<open>deriveRollbackCoverage\<close> in
  \<open>src/src/supervisor/rollback.ts\<close>: facts in, conclusion and its basis out.
\<close>

datatype EffectsFact = EfConfined | EfUnconfined | EfUnverified

datatype IgnoredManifestState = ImUnchanged | ImChanged | ImInconclusive | ImUnreadable | ImAbsent

record RollbackCoverageFacts =
  cf_status :: RollbackStatus
  cf_effects :: EffectsFact
  cf_snapshotCoverage :: SnapshotCoverage
  cf_ignoredManifest :: IgnoredManifestState

record CoverageClaim =
  cc_coverage :: RollbackCoverage
  cc_outOfScopeEffects :: OutOfScopeEffects
  cc_ignoredFiles :: IgnoredFiles
  cc_basis :: "string list"

fun EFFECTS_BASIS :: "EffectsFact \<Rightarrow> string" where
  "EFFECTS_BASIS EfConfined = ''all_ops_confined''"
| "EFFECTS_BASIS EfUnconfined = ''unconfined_op_since_snapshot''"
| "EFFECTS_BASIS EfUnverified = ''effects_unverified''"

fun MANIFEST_BASIS :: "IgnoredManifestState \<Rightarrow> string" where
  "MANIFEST_BASIS ImUnchanged = ''ignored_manifest_unchanged''"
| "MANIFEST_BASIS ImChanged = ''ignored_manifest_changed''"
| "MANIFEST_BASIS ImInconclusive = ''ignored_manifest_ctime_only''"
| "MANIFEST_BASIS ImUnreadable = ''ignored_manifest_unreadable''"
| "MANIFEST_BASIS ImAbsent = ''ignored_not_captured''"

definition deriveRollbackCoverage :: "RollbackCoverageFacts \<Rightarrow> CoverageClaim" where
  "deriveRollbackCoverage f =
     (let fullTree = (cf_snapshotCoverage f = FullTree);
          ignored = (if fullTree then (if cf_status f = RbFailed then IgUnverified else IgRestored)
                     else if cf_ignoredManifest f = ImUnchanged then IgUnchangedVerified else IgNotCaptured);
          ignoredBasis = (if fullTree then ''snapshot_full_tree'' else MANIFEST_BASIS (cf_ignoredManifest f));
          basis = [EFFECTS_BASIS (cf_effects f), ignoredBasis]
      in case cf_status f of
           RbFailed \<Rightarrow> \<lparr>cc_coverage = CovNone, cc_outOfScopeEffects = EffPossible, cc_ignoredFiles = ignored,
              cc_basis = [''fingerprint_mismatch'']\<rparr>
         | RbPartial \<Rightarrow> \<lparr>cc_coverage = CovDeclaredRoots, cc_outOfScopeEffects = EffPossible, cc_ignoredFiles = ignored,
              cc_basis = [''unrestored_paths'', ignoredBasis]\<rparr>
         | RbRestored \<Rightarrow>
             if cf_effects f \<noteq> EfConfined
             then \<lparr>cc_coverage = CovDeclaredRoots, cc_outOfScopeEffects = EffPossible, cc_ignoredFiles = ignored, cc_basis = basis\<rparr>
             else \<lparr>cc_coverage = (if ignored = IgNotCaptured then CovNonIgnored else CovComplete),
                    cc_outOfScopeEffects = EffNonePossible, cc_ignoredFiles = ignored, cc_basis = basis\<rparr>)"

text \<open>What \<open>complete\<close> means. A rollback claims complete coverage exactly when the tree was
  verified as restored, every operation since the snapshot was confined to the rollback's roots,
  and the ignored files were captured by the snapshot or proved unchanged; it excludes effects out
  of its scope exactly when it was restored with every operation confined.\<close>

theorem coverage_complete_iff:
  "(cc_coverage (deriveRollbackCoverage f) = CovComplete \<longleftrightarrow>
      cf_status f = RbRestored \<and> cf_effects f = EfConfined
      \<and> (cf_snapshotCoverage f = FullTree \<or> cf_ignoredManifest f = ImUnchanged))
   \<and> (cc_outOfScopeEffects (deriveRollbackCoverage f) = EffNonePossible \<longleftrightarrow>
      cf_status f = RbRestored \<and> cf_effects f = EfConfined)
   \<and> (cc_coverage (deriveRollbackCoverage f) = CovNone \<longleftrightarrow> cf_status f = RbFailed)"
  by (cases "cf_status f") (auto simp: deriveRollbackCoverage_def Let_def intro: SnapshotCoverage.exhaust)

end
