(* ===== verification/Text.thy ===== *)
theory Text
  imports Main
begin

text \<open>
  The JavaScript string operations the kernel's messages and identifiers use: numbers in
  template literals, \<open>lastIndexOf\<close>, \<open>join\<close>, \<open>String.replace\<close> of a prefix.
\<close>

definition digitChar :: "nat \<Rightarrow> char" where
  "digitChar d = char_of (48 + d)"

fun natText :: "nat \<Rightarrow> string" where
  "natText n = (if n < 10 then [digitChar n] else natText (n div 10) @ [digitChar (n mod 10)])"

declare natText.simps [simp del]

definition intText :: "int \<Rightarrow> string" where
  "intText i = (if i < 0 then CHR ''-'' # natText (nat (- i)) else natText (nat i))"

lemma natText_nonempty [simp]: "natText n \<noteq> []"
  by (subst natText.simps) simp

text \<open>\<open>s.lastIndexOf(c)\<close> and the part before it; \<open>None\<close> is \<open>-1\<close>.\<close>

fun beforeLast :: "char \<Rightarrow> string \<Rightarrow> string option" where
  "beforeLast c [] = None"
| "beforeLast c (x # xs) = (case beforeLast c xs of Some p \<Rightarrow> Some (x # p)
     | None \<Rightarrow> if x = c then Some [] else None)"

lemma beforeLast_None: "beforeLast c s = None \<longleftrightarrow> c \<notin> set s"
  by (induction s) (auto split: option.splits)

text \<open>\<open>xs.join(sep)\<close>\<close>

fun joinWith :: "string \<Rightarrow> string list \<Rightarrow> string" where
  "joinWith sep [] = []"
| "joinWith sep [x] = x"
| "joinWith sep (x # y # ys) = x @ sep @ joinWith sep (y # ys)"

text \<open>\<open>s.slice(prefix.length)\<close> when \<open>s\<close> starts with \<open>prefix\<close>.\<close>

definition dropPrefix :: "string \<Rightarrow> string \<Rightarrow> string" where
  "dropPrefix p s = (if take (length p) s = p then drop (length p) s else s)"

end
