(* ===== verification/Recovery.thy ===== *)
theory Recovery
  imports Domain Coverage Text
begin

text \<open>
  The recovery engine, \<open>src/src/recovery/engine.ts\<close>: after a restart every unfinished operation
  is examined and finished, with its resources released where the facts prove that nothing of it
  runs, and kept where they do not. The platform driver and the snapshot driver are parameters:
  \<open>recDriver\<close> holds the answers of their methods, each of which may throw.
\<close>

section \<open>The drivers\<close>

datatype StopProcessStatus = StConfirmedStopped | StNotStopped | StCannotDetermine

record StopProcessResult =
  stp_stopped :: StopProcessStatus
  stp_scope :: StopScope
  stp_residualPids :: "int list option"
  stp_unreapedPids :: "int list option"
  stp_errorDetails :: "string option"

record recDriver =
  rv_verifyIdentity :: "ProcessIdentity \<Rightarrow> KError + IdentityVerificationResult"
  rv_terminate :: "ProcessIdentity \<Rightarrow> KError + StopProcessResult"
  rv_settleTree :: "(ProcessIdentity \<Rightarrow> KError + TreeStatus) option"
  rv_readBootId :: "(KError + string option) option"
  rv_getGroupEvidence :: "(int \<Rightarrow> KError + (int \<times> int option) list) option"
  rv_terminateGroup :: "(int \<Rightarrow> KError + StopProcessResult) option"
  rv_isGroupAlive :: "int \<Rightarrow> bool"
  rv_fingerprint :: "string list \<Rightarrow> SnapshotRef \<Rightarrow> KError + string"

section \<open>Results\<close>

datatype RecoveryAction = CleanedUnspawned | StoppedAliveProcess | MarkedDead | IsolatedIndeterminate

fun actionStr :: "RecoveryAction \<Rightarrow> string" where
  "actionStr CleanedUnspawned = ''cleaned_unspawned''"
| "actionStr StoppedAliveProcess = ''stopped_alive_process''"
| "actionStr MarkedDead = ''marked_dead''"
| "actionStr IsolatedIndeterminate = ''isolated_indeterminate''"

record RecoveredOp =
  rop_opId :: string
  rop_action :: RecoveryAction
  rop_released :: bool

record RecoveredServiceSummary =
  rsv_serviceId :: string
  rsv_instanceOpIds :: "string list"
  rsv_action :: RecoveryAction
  rsv_released :: bool

text \<open>How one operation ends: its result, the action reported, and whether the branch records that
  its service stopped.\<close>

record Settlement =
  stl_result :: OperationResult
  stl_action :: RecoveryAction
  stl_notifyService :: bool

definition isolatedBy :: "string \<Rightarrow> string \<Rightarrow> int \<Rightarrow> millis \<Rightarrow> bool \<Rightarrow> Settlement" where
  "isolatedBy reason guidance duration now notify = \<lparr>
     stl_result = ResIndeterminate \<lparr>res_durationMs = duration, res_completedAt = now, res_replayed = False,
       res_runId = None, res_capabilityId = None, ir_terminationReason = None, ir_resourceSamplingError = None,
       ir_reason = reason, ir_recoveryGuidance = guidance, ir_adjudication = None\<rparr>,
     stl_action = IsolatedIndeterminate, stl_notifyService = notify\<rparr>"

definition processEnd :: "ProcStatus \<Rightarrow> string \<Rightarrow> IdentityVerificationResult \<Rightarrow> int \<Rightarrow> millis \<Rightarrow> ProcessOperationResult" where
  "processEnd status stderr identity duration now = \<lparr>res_durationMs = duration, res_completedAt = now,
     res_replayed = False, res_runId = None, res_capabilityId = None, pr_status = status, pr_exitCode = None,
     pr_signal = None, pr_stdout = [], pr_stderr = stderr, pr_confinementDriver = None, pr_confined = None,
     pr_isTruncated = False, pr_stdoutTruncated = None, pr_stderrTruncated = None, pr_stdoutRef = None,
     pr_stderrRef = None, pr_stdoutBytes = None, pr_stderrBytes = None, pr_stdoutHash = None, pr_stderrHash = None,
     pr_outputRef = None, pr_outputHash = None, pr_terminationReason = None, pr_spawnFailure = None,
     pr_peakMemoryBytes = None, pr_cpuTimeMs = None, pr_resourceSamplingError = None,
     pr_residualProcessesReaped = None, pr_treeSettlement = None, pr_streamCallbackError = None,
     pr_spillError = None, pr_stdoutSpillError = None, pr_stderrSpillError = None, pr_residualPids = None,
     pr_unreapedPids = None, pr_identityVerification = identity, pr_evidence = None, pr_readEvidenceRef = None\<rparr>"

text \<open>\<open>...(pids?.length ? { unreapedPids: pids } : {})\<close>\<close>

definition nonEmptyPids :: "int list option \<Rightarrow> int list option" where
  "nonEmptyPids ps = (case ps of Some (p # q) \<Rightarrow> Some (p # q) | _ \<Rightarrow> None)"

definition serviceIdOf :: "string \<Rightarrow> string" where
  "serviceIdOf opId = (case beforeLast (CHR ''#'') opId of None \<Rightarrow> opId | Some p \<Rightarrow> p)"

definition calcDurationMs :: "millis \<Rightarrow> ProcessIdentity \<Rightarrow> int" where
  "calcDurationMs now i = (case getTime (spawnTime i) of Some t \<Rightarrow> max 0 (now - t) | None \<Rightarrow> 0)"

section \<open>One operation\<close>

text \<open>An interrupted rollback: the tree of the snapshot, or an isolated operation.\<close>

definition rollbackMatches :: "recDriver \<Rightarrow> string list \<Rightarrow> SnapshotRef option \<Rightarrow> bool" where
  "rollbackMatches rv roots snapshot = (case snapshot of None \<Rightarrow> False
     | Some sn \<Rightarrow> roots \<noteq> [] \<and> rv_fingerprint rv roots sn = Inr (snap_treeFingerprint sn))"

definition settleRollback :: "recDriver \<Rightarrow> millis \<Rightarrow> store \<Rightarrow> Operation \<Rightarrow> Settlement" where
  "settleRollback rv now s op =
     (let snapshotId = (case truthy (op_outputRef op) of Some r \<Rightarrow> r | None \<Rightarrow> dropPrefix ''rollback:'' (op_name op));
          snapshot = getSnapshot snapshotId s;
          roots = (case op_mutationRoots op of Some rs \<Rightarrow> rs
                   | None \<Rightarrow> (case snapshot of Some sn \<Rightarrow> snap_roots sn | None \<Rightarrow> []))
      in case snapshot of
          Some sn \<Rightarrow>
            if rollbackMatches rv roots snapshot
            then (let c = deriveRollbackCoverage \<lparr>cf_status = RbRestored, cf_effects = EfUnverified,
                        cf_snapshotCoverage = snap_coverage sn, cf_ignoredManifest = ImAbsent\<rparr>
              in \<lparr>stl_result = ResRollback \<lparr>res_durationMs = 0, res_completedAt = now, res_replayed = False,
                     res_runId = None, res_capabilityId = None, rr_status = RbRestored, rr_snapshotId = snapshotId,
                     rr_unrestoredPaths = None, rr_coverage = cc_coverage c,
                     rr_outOfScopeEffects = cc_outOfScopeEffects c, rr_ignoredFiles = cc_ignoredFiles c,
                     rr_ignoredChanges = None, rr_coverageBasis = cc_basis c, rr_errorMessage = None\<rparr>,
                  stl_action = CleanedUnspawned, stl_notifyService = False\<rparr>)
            else isolatedBy ''Rollback interrupted by crash and tree fingerprint does not match target snapshot''
              ''Workspace tree may be dirty or partially restored. Inspect files and retry rollback.'' 0 now False
        | None \<Rightarrow> isolatedBy ''Rollback interrupted by crash and tree fingerprint does not match target snapshot''
              ''Workspace tree may be dirty or partially restored. Inspect files and retry rollback.'' 0 now False)"

text \<open>The leader is still the original process: stop it.\<close>

definition settleAlive :: "recDriver \<Rightarrow> millis \<Rightarrow> ProcessIdentity \<Rightarrow> KError + Settlement" where
  "settleAlive rv now i = (case rv_terminate rv i of
     Inl e \<Rightarrow> Inl e
   | Inr stop \<Rightarrow> Inr (
       if stp_stopped stop = StConfirmedStopped
       then \<lparr>stl_result = ResProcess ((processEnd PCancelled [] IsOriginalProcess (calcDurationMs now i) now)
               \<lparr>pr_evidence := Some Unobserved, pr_unreapedPids := nonEmptyPids (stp_unreapedPids stop)\<rparr>),
             stl_action = StoppedAliveProcess, stl_notifyService = True\<rparr>
       else isolatedBy ''Alive process failed to stop during recovery''
         ''Residual PID detected. Check system processes manually.'' (calcDurationMs now i) now True))"

text \<open>The leader is gone. What became of its tree: \<open>Inl\<close> an isolation, \<open>Inr (reaped, pids)\<close> that
  nothing is left, after orphans were reaped or without.\<close>

type_synonym treeVerdict = "Settlement + bool \<times> int list option"

definition isolateDead :: "millis \<Rightarrow> ProcessIdentity \<Rightarrow> string \<Rightarrow> string \<Rightarrow> treeVerdict" where
  "isolateDead now i reason guidance = Inl (isolatedBy reason guidance (calcDurationMs now i) now False)"

definition cgroupTree :: "recDriver \<Rightarrow> millis \<Rightarrow> ProcessIdentity \<Rightarrow> string \<Rightarrow> KError + treeVerdict" where
  "cgroupTree rv now i cgroup = (case rv_settleTree rv of
     None \<Rightarrow> Inr (isolateDead now i
       ''Original intent used cgroup containment but the recovery driver cannot observe cgroup tree settlement''
       ''Inspect the persisted containment path and adjudicate the operation before releasing leases.'')
   | Some observe \<Rightarrow> (case observe i of Inl e \<Rightarrow> Inl e
     | Inr TreeEmpty \<Rightarrow> Inr (Inr (False, None))
     | Inr _ \<Rightarrow> (case rv_terminate rv i of Inl e \<Rightarrow> Inl e
        | Inr reaped \<Rightarrow> Inr (
            if stp_stopped reaped \<noteq> StConfirmedStopped
            then isolateDead now i (''Owner is dead but cgroup '' @ cgroup @ '' could not be confirmed empty: ''
                @ (case stp_errorDetails reaped of Some d \<Rightarrow> d | None \<Rightarrow> ''still populated''))
              ''Processes left by the crashed owner are still in its cgroup; inspect them before retrying.''
            else Inr (True, stp_unreapedPids reaped)))))"

text \<open>The recorded group belongs to another boot of the host.\<close>

definition otherBoot :: "recDriver \<Rightarrow> ProcessIdentity \<Rightarrow> KError + (string \<times> string) option" where
  "otherBoot rv i = (case (truthy (bootId i), rv_readBootId rv) of
     (Some b, Some answer) \<Rightarrow> (case answer of Inl e \<Rightarrow> Inl e
       | Inr current \<Rightarrow> Inr (case truthy current of
           Some c \<Rightarrow> if b \<noteq> c then Some (b, c) else None
         | None \<Rightarrow> None))
   | _ \<Rightarrow> Inr None)"

text \<open>A member of the group is older than the operation: the group id was reused.\<close>

definition reusedGroup :: "recDriver \<Rightarrow> ProcessIdentity \<Rightarrow> int \<Rightarrow> KError + bool" where
  "reusedGroup rv i g = (case rv_getGroupEvidence rv of None \<Rightarrow> Inr False
   | Some evidence \<Rightarrow> (case evidence g of Inl e \<Rightarrow> Inl e
     | Inr members \<Rightarrow> Inr (case getTime (case osStartTime i of Some t \<Rightarrow> t | None \<Rightarrow> spawnTime i) of
           None \<Rightarrow> False
         | Some spawned \<Rightarrow> list_ex (\<lambda>(p, start). case start of Some t \<Rightarrow> t < spawned - 1000 | None \<Rightarrow> False) members)))"

definition groupTree :: "recDriver \<Rightarrow> millis \<Rightarrow> ProcessIdentity \<Rightarrow> int \<Rightarrow> KError + treeVerdict" where
  "groupTree rv now i g = (case otherBoot rv i of Inl e \<Rightarrow> Inl e
   | Inr (Some (recorded, current)) \<Rightarrow> Inr (isolateDead now i
       (''Host bootId changed (recorded: '' @ recorded @ '', current: '' @ current @ ''); process group ''
         @ intText g @ '' belongs to a different boot session'')
       ''Host was rebooted after the crash. Do not terminate external process groups; manual inspection required.'')
   | Inr None \<Rightarrow> (case reusedGroup rv i g of Inl e \<Rightarrow> Inl e
     | Inr True \<Rightarrow> Inr (isolateDead now i
         (''Process group '' @ intText g @ '' membership start time is earlier than operation spawn time; suspected PGID reuse'')
         ''External process group occupies the recorded PGID. Do not terminate; verify process ownership manually.'')
     | Inr False \<Rightarrow>
        (case (case rv_terminateGroup rv of Some f \<Rightarrow> f g
               | None \<Rightarrow> Inr \<lparr>stp_stopped = StNotStopped, stp_scope = ScUnknown, stp_residualPids = None,
                            stp_unreapedPids = None, stp_errorDetails = None\<rparr>) of
           Inl e \<Rightarrow> Inl e
         | Inr reaped \<Rightarrow> Inr (if stp_stopped reaped \<noteq> StConfirmedStopped
             then isolateDead now i ''Owner is dead but its process group could not be confirmed stopped''
               ''Residual processes from the crashed owner are still alive; inspect them before retrying.''
             else Inr (True, stp_unreapedPids reaped)))))"

definition originalCgroup :: "Operation \<Rightarrow> bool" where
  "originalCgroup op = (case op_recoveryEvidence op of
     Some e \<Rightarrow> rdc_descendantEnumeration (re_driverCapabilities e) = DECgroup | None \<Rightarrow> False)"

definition deadTree :: "recDriver \<Rightarrow> millis \<Rightarrow> Operation \<Rightarrow> ProcessIdentity \<Rightarrow> KError + treeVerdict" where
  "deadTree rv now op i = (case truthy (cgroupPath i) of
     Some cgroup \<Rightarrow>
       if originalCgroup op then cgroupTree rv now i cgroup
       else if op_recoveryEvidence op = None
       then Inr (isolateDead now i
         ''Containment identity exists without original driver evidence; recovery cannot infer cgroup semantics from the replacement driver''
         ''Inspect the recorded containment path and adjudicate the operation before releasing leases.'')
       else (case pgid i of Some g \<Rightarrow> if rv_isGroupAlive rv g then groupTree rv now i g else Inr (Inr (False, None))
             | None \<Rightarrow> Inr (Inr (False, None)))
   | None \<Rightarrow> (case pgid i of Some g \<Rightarrow> if rv_isGroupAlive rv g then groupTree rv now i g else Inr (Inr (False, None))
             | None \<Rightarrow> Inr (Inr (False, None))))"

definition settleDead :: "recDriver \<Rightarrow> millis \<Rightarrow> Operation \<Rightarrow> ProcessIdentity \<Rightarrow> KError + Settlement" where
  "settleDead rv now op i = (case deadTree rv now op i of
     Inl e \<Rightarrow> Inl e
   | Inr (Inl isolated) \<Rightarrow> Inr isolated
   | Inr (Inr (reapedOrphans, unreaped)) \<Rightarrow> Inr \<lparr>
       stl_result = ResProcess ((processEnd PFailed
           (if reapedOrphans then ''orphaned descendants were confirmed stopped during recovery'' else [])
           NotOriginalProcess (calcDurationMs now i) now)
         \<lparr>pr_evidence := Some Unobserved, pr_terminationReason := Some TExitUnobserved,
          pr_residualProcessesReaped := Some reapedOrphans, pr_unreapedPids := nonEmptyPids unreaped\<rparr>),
       stl_action = MarkedDead, stl_notifyService = True\<rparr>)"


text \<open>
  The branch an operation takes. Missing identity alone does not prove that the command never
  ran: only an intent registered under a spawn gate that was never opened does.
\<close>

definition configFault :: "(json \<Rightarrow> string) \<Rightarrow> Operation \<Rightarrow> string option" where
  "configFault H op = (case op_configSnapshot op of None \<Rightarrow> None
     | Some c \<Rightarrow> (case assertRequestConfigSnapshot H c of Inr _ \<Rightarrow> None
         | Inl (ConfigSnapshotInvalid m) \<Rightarrow> Some m | Inl _ \<Rightarrow> Some []))"

definition neverReleased :: "Operation \<Rightarrow> bool" where
  "neverReleased op \<longleftrightarrow> op_status op = OIntentRegistered \<and> op_spawnGated op = Some True"

definition settleProcess :: "recDriver \<Rightarrow> millis \<Rightarrow> Operation \<Rightarrow> KError + Settlement" where
  "settleProcess rv now op = (case op_processIdentity op of
     None \<Rightarrow> Inr (
       if \<not> neverReleased op
       then isolatedBy ''Process identity was not recorded; durable gated-spawn evidence does not prove non-execution''
         ''Inspect processes and side effects before adjudication. Do not retry with a new operation ID.'' 0 now True
       else \<lparr>stl_result = ResProcess (processEnd PFailed
               ''Command was not released through its execution gate before the crash'' NotOriginalProcess 0 now),
             stl_action = CleanedUnspawned, stl_notifyService = True\<rparr>)
   | Some i \<Rightarrow> (case rv_verifyIdentity rv i of
       Inl e \<Rightarrow> Inl e
     | Inr IsOriginalProcess \<Rightarrow> settleAlive rv now i
     | Inr NotOriginalProcess \<Rightarrow> settleDead rv now op i
     | Inr CannotDetermine \<Rightarrow> Inr (isolatedBy ''Cannot determine process identity after restart''
         ''Manual inspection required. Resource isolation remains active.'' (calcDurationMs now i) now True)))"

definition settleOperation :: "recDriver \<Rightarrow> (json \<Rightarrow> string) \<Rightarrow> millis \<Rightarrow> store \<Rightarrow> Operation \<Rightarrow> KError + Settlement" where
  "settleOperation rv H now s op = (case configFault H op of
     Some m \<Rightarrow> Inr (isolatedBy (''Persisted request config snapshot is invalid: '' @ m)
       ''Inspect the immutable request binding and adjudicate the operation before releasing its lease.'' 0 now False)
   | None \<Rightarrow>
      if op_kind op = KRollback then Inr (settleRollback rv now s op)
      else if op_kind op = KSnapshot
      then Inr \<lparr>stl_result = ResSnapshot \<lparr>res_durationMs = 0, res_completedAt = now, res_replayed = False,
               res_runId = None, res_capabilityId = None, sr_succeeded = False, sr_snapshot = None,
               sr_errorMessage = Some ''Snapshot interrupted by crash before completion''\<rparr>,
             stl_action = CleanedUnspawned, stl_notifyService = False\<rparr>
      else settleProcess rv now op)"

section \<open>Effects\<close>

text \<open>The operations of each service, in row order; a row is never deleted.\<close>

definition serviceInstances :: "Operation list \<Rightarrow> (string, string list) jsmap" where
  "serviceInstances ops = fold (\<lambda>op m. let sid = serviceIdOf (op_id op)
       in mapSet sid ((case mapGet m sid of Some ids \<Rightarrow> ids | None \<Rightarrow> []) @ [op_id op]) m)
     (filter (\<lambda>op. op_kind op = KService) ops) []"

definition unsettledOp :: "Operation \<Rightarrow> bool" where
  "unsettledOp op \<longleftrightarrow> op_status op \<noteq> ODone
     \<or> (case op_result op of Some (ResIndeterminate r) \<Rightarrow> ir_adjudication r = None | _ \<Rightarrow> False)"

definition unsettledInstances :: "(string, string list) jsmap \<Rightarrow> string \<Rightarrow> store \<Rightarrow> string list" where
  "unsettledInstances instances sid s = filter (\<lambda>i. case getOperation i s of Some op \<Rightarrow> unsettledOp op | None \<Rightarrow> False)
     (case mapGet instances sid of Some ids \<Rightarrow> ids | None \<Rightarrow> [])"

definition releaseOpAndService ::
    "(nat \<Rightarrow> bool) \<Rightarrow> millis \<Rightarrow> (string, string list) jsmap \<Rightarrow> Operation \<Rightarrow> unit domM" where
  "releaseOpAndService cancelled now instances op =
     thenDo (internalReleaseResources cancelled now (op_id op) (op_requiredResources op))
       (\<lambda>d. whenDo (op_kind op = KService \<and> unsettledInstances instances (serviceIdOf (op_id op)) (dm_store d) = [])
          (internalReleaseResources cancelled now (''service:'' @ serviceIdOf (op_id op)) (op_requiredResources op)) d)"

definition serviceStopped :: "millis \<Rightarrow> Operation \<Rightarrow> RecoveryAction \<Rightarrow> unit domM" where
  "serviceStopped now op action = whenDo (op_kind op = KService) (\<lambda>d. inStore (recordEvent
     (mkEvent (dm_domainId d) (Some (op_runId op)) (Some (op_id op)) ''SERVICE_STOPPED''
       (JObj [(''serviceId'', JStr (serviceIdOf (op_id op))), (''runId'', JStr (op_runId op)),
              (''instanceOpId'', JStr (op_id op)), (''reason'', JStr ''recovered_after_crash''),
              (''action'', JStr (actionStr action))]) now)) d)"

definition applySettlement ::
    "(nat \<Rightarrow> bool) \<Rightarrow> millis \<Rightarrow> (string, string list) jsmap \<Rightarrow> Operation \<Rightarrow> Settlement \<Rightarrow> RecoveredOp domM" where
  "applySettlement cancelled now instances op st =
     (let released = (stl_action st \<noteq> IsolatedIndeterminate)
      in thenDo (inStore (recordOperationResult (op_id op) (stl_result st) released))
        (thenDo (whenDo released (releaseOpAndService cancelled now instances op))
        (thenDo (whenDo (stl_notifyService st) (serviceStopped now op (stl_action st)))
         (ret \<lparr>rop_opId = op_id op, rop_action = stl_action st, rop_released = released\<rparr>))))"

definition recoverOp ::
    "(nat \<Rightarrow> bool) \<Rightarrow> recDriver \<Rightarrow> (json \<Rightarrow> string) \<Rightarrow> millis \<Rightarrow> (string, string list) jsmap \<Rightarrow> Operation \<Rightarrow> RecoveredOp domM" where
  "recoverOp cancelled rv H now instances op =
     andThen (\<lambda>d. (settleOperation rv H now (dm_store d) op, d)) (applySettlement cancelled now instances op)"

primrec recoverOps ::
    "(nat \<Rightarrow> bool) \<Rightarrow> recDriver \<Rightarrow> (json \<Rightarrow> string) \<Rightarrow> millis \<Rightarrow> (string, string list) jsmap \<Rightarrow> Operation list \<Rightarrow>
     RecoveredOp list domM" where
  "recoverOps cancelled rv H now instances [] = ret []"
| "recoverOps cancelled rv H now instances (op # ops) =
     andThen (recoverOp cancelled rv H now instances op)
       (\<lambda>r. andThen (recoverOps cancelled rv H now instances ops) (\<lambda>rs. ret (r # rs)))"

section \<open>Runs and services\<close>

text \<open>A run left without unfinished operations leaves \<open>running\<close>.\<close>

definition convergeRun :: "millis \<Rightarrow> Run \<Rightarrow> unit domM" where
  "convergeRun now run = (\<lambda>d. let ops = getOperationsByRun (run_id run) (dm_store d)
     in if list_ex (\<lambda>op. op_status op \<noteq> ODone) ops then (Inr (), d)
        else if list_ex (\<lambda>op. case op_result op of Some r \<Rightarrow> isIndeterminate r | None \<Rightarrow> False) ops
        then inStore (updateRunStatus now (run_id run) RIndeterminate None (Some now)) d
        else inStore (updateRunStatus now (run_id run) RFailed (Some TCrashDetected) (Some now)) d)"

record svcEntry =
  se_instances :: "string list"
  se_actions :: "RecoveryAction list"
  se_released :: bool

type_synonym svcMap = "(string, svcEntry) jsmap"

definition addRecovered :: "Operation list \<Rightarrow> RecoveredOp \<Rightarrow> svcMap \<Rightarrow> svcMap" where
  "addRecovered ops r m = (case find (\<lambda>op. op_id op = rop_opId r) ops of None \<Rightarrow> m
     | Some op \<Rightarrow> if op_kind op \<noteq> KService then m
         else (let sid = serviceIdOf (op_id op);
                   e = (case mapGet m sid of Some e \<Rightarrow> e
                        | None \<Rightarrow> \<lparr>se_instances = [], se_actions = [], se_released = True\<rparr>)
               in mapSet sid \<lparr>se_instances = se_instances e @ [rop_opId r],
                    se_actions = setAdd (rop_action r) (se_actions e),
                    se_released = (if rop_released r then se_released e else False)\<rparr> m))"

definition addUnsettled :: "(string, string list) jsmap \<Rightarrow> store \<Rightarrow> string \<Rightarrow> svcMap \<Rightarrow> svcMap" where
  "addUnsettled instances s sid m = (let unsettled = unsettledInstances instances sid s
     in if unsettled = [] then m
        else (let e = (case mapGet m sid of Some e \<Rightarrow> e
                       | None \<Rightarrow> \<lparr>se_instances = [], se_actions = [], se_released = False\<rparr>)
              in mapSet sid \<lparr>se_instances = uniqueList (se_instances e @ unsettled),
                   se_actions = setAdd IsolatedIndeterminate (se_actions e), se_released = False\<rparr> m))"

text \<open>A lease a service held between two instances; kept while one of its instances is unsettled.\<close>

definition backoffService :: "string \<Rightarrow> string option" where
  "backoffService opId = (if startsWith opId ''service:'' then Some (drop (length ''service:'') opId) else None)"

primrec clearBackoff :: "(nat \<Rightarrow> bool) \<Rightarrow> millis \<Rightarrow> ResourceLease list \<Rightarrow> svcMap \<Rightarrow> svcMap domM" where
  "clearBackoff cancelled now [] m = ret m"
| "clearBackoff cancelled now (l # ls) m = (case backoffService (lease_operationId l) of
     None \<Rightarrow> clearBackoff cancelled now ls m
   | Some sid \<Rightarrow>
      (case mapGet m sid of
         Some e \<Rightarrow> if \<not> se_released e then clearBackoff cancelled now ls m
           else thenDo (internalReleaseResources cancelled now (lease_operationId l) [lease_resourceId l])
             (clearBackoff cancelled now ls m)
       | None \<Rightarrow> thenDo (internalReleaseResources cancelled now (lease_operationId l) [lease_resourceId l])
          (thenDo (\<lambda>d. inStore (recordEvent (mkEvent (dm_domainId d) None None ''SERVICE_STOPPED''
             (JObj [(''serviceId'', JStr sid), (''reason'', JStr ''recovered_after_crash''),
                    (''action'', JStr ''cleared_backoff_lease'')]) now)) d)
           (clearBackoff cancelled now ls (mapSet sid
             \<lparr>se_instances = [], se_actions = [StoppedAliveProcess], se_released = True\<rparr> m)))))"

definition summarise :: "string \<times> svcEntry \<Rightarrow> RecoveredServiceSummary" where
  "summarise p = (case p of (sid, e) \<Rightarrow> \<lparr>rsv_serviceId = sid, rsv_instanceOpIds = se_instances e,
     rsv_action = (if IsolatedIndeterminate \<in> set (se_actions e) then IsolatedIndeterminate
                   else if StoppedAliveProcess \<in> set (se_actions e) then StoppedAliveProcess
                   else if MarkedDead \<in> set (se_actions e) then MarkedDead else CleanedUnspawned),
     rsv_released = se_released e\<rparr>)"

section \<open>The recovery\<close>

definition recover ::
    "(nat \<Rightarrow> bool) \<Rightarrow> recDriver \<Rightarrow> (json \<Rightarrow> string) \<Rightarrow> millis \<Rightarrow> (RecoveredOp list \<times> RecoveredServiceSummary list) domM" where
  "recover cancelled rv H now = (\<lambda>d0.
     let unfinished = getUnfinishedOperations (dm_domainId d0) (dm_store d0);
         instances = serviceInstances (getAllOperations (dm_domainId d0) (dm_store d0))
     in andThen (recoverOps cancelled rv H now instances unfinished) (\<lambda>recovered.
        thenDo (\<lambda>d. forEach (getActiveRuns (dm_domainId d) (dm_store d)) (convergeRun now) d)
          (\<lambda>d. let services = fold (addUnsettled instances (dm_store d)) (map fst instances)
                     (fold (addRecovered unfinished) recovered [])
            in andThen (clearBackoff cancelled now (getPersistedResourceLeases (dm_domainId d) (dm_store d)) services)
                 (\<lambda>m. ret (recovered, map summarise m)) d)) d0)"

end
