(* ===== verification/QueueProps.thy ===== *)
theory QueueProps
  imports DomainProps
begin

text \<open>
  The waiting queue of a domain: no waiter is granted past an earlier one that shares a resource
  with it, and a scan leaves no waiter behind that could have been granted.
\<close>

section \<open>What a scan leaves alone\<close>

definition kept_by_scan :: "domain \<Rightarrow> domain \<Rightarrow> bool" where
  "kept_by_scan d d' \<longleftrightarrow> covers (dm_locked d) (dm_locked d') \<and> dm_store d' = dm_store d \<and> dm_domainId d' = dm_domainId d
     \<and> dm_budget d' = dm_budget d \<and> dm_fenced d' = dm_fenced d"

lemma kept_refl [simp]: "kept_by_scan d d" "kept_by_scan d (settle t e d) = kept_by_scan d d"
  "kept_by_scan d (d\<lparr>dm_queue := q\<rparr>)"
  by (simp_all add: kept_by_scan_def settle_def)

lemma kept_settle [simp]: "kept_by_scan (settle t e d) d' = kept_by_scan d d'" "kept_by_scan (d\<lparr>dm_queue := q\<rparr>) d' = kept_by_scan d d'"
  by (simp_all add: kept_by_scan_def settle_def)

lemma kept_trans: "kept_by_scan d d' \<Longrightarrow> kept_by_scan d' d'' \<Longrightarrow> kept_by_scan d d''"
  unfolding kept_by_scan_def using covers_trans [of "dm_locked d" "dm_locked d'" "dm_locked d''"] by simp

lemma kept_allocate: "allocateResources opId rs waited budget d = (r, d') \<Longrightarrow> kept_by_scan d d'"
proof (cases rule: allocate_cases [of opId rs waited budget d])
  case granted
  have "covers (dm_locked d) (lockAll opId rs (dm_locked d))"
    unfolding covers_def mapGet_lockAll using lockConflict_None [OF granted(1)] by auto
  then show "allocateResources opId rs waited budget d = (r, d') \<Longrightarrow> ?thesis"
    by (auto simp: granted(4) kept_by_scan_def)
qed simp

text \<open>One turn of the scan: the waiter is dropped, kept, or granted.\<close>

definition askFor :: "millis \<Rightarrow> waiter \<Rightarrow> domain \<Rightarrow> (KError + unit) \<times> domain" where
  "askFor now w = allocateResources (w_op w) (w_resources w) (now - w_startTime w) (w_budget w)"

lemma scan_step:
  obtains (cancelled) "cancelled (w_ticket w)"
      "scanQueue cancelled now reserved blocked kept (w # ws) d
        = scanQueue cancelled now reserved blocked kept ws (settle (w_ticket w) None d)"
  | (behind) "\<not> cancelled (w_ticket w)" "(\<exists>r \<in> set (w_resources w). r \<in> set reserved) \<or> blocked"
      "scanQueue cancelled now reserved blocked kept (w # ws) d
        = scanQueue cancelled now (reserved @ w_resources w) blocked (kept @ [w]) ws d"
  | (granted) d' where "\<not> cancelled (w_ticket w)" "\<forall>r \<in> set (w_resources w). r \<notin> set reserved" "\<not> blocked"
      "askFor now w d = (Inr (), d')"
      "scanQueue cancelled now reserved blocked kept (w # ws) d
        = scanQueue cancelled now reserved blocked kept ws (settle (w_ticket w) None d')"
  | (refused) r h o' x where "\<not> cancelled (w_ticket w)" "\<forall>r \<in> set (w_resources w). r \<notin> set reserved" "\<not> blocked"
      "askFor now w d = (Inl (ResourceConflictError r h o' x), d)"
      "scanQueue cancelled now reserved blocked kept (w # ws) d
        = scanQueue cancelled now (reserved @ w_resources w) (r = ''domain:max_concurrent_ops'') (kept @ [w]) ws d"
  | (failed) e where "\<not> cancelled (w_ticket w)" "\<forall>r \<in> set (w_resources w). r \<notin> set reserved" "\<not> blocked"
      "askFor now w d = (Inl e, d)" "\<not> isResourceConflict e" "dm_fenced d"
      "scanQueue cancelled now reserved blocked kept (w # ws) d
        = scanQueue cancelled now reserved blocked kept ws (settle (w_ticket w) (Some e) d)"
proof (cases "cancelled (w_ticket w)")
  case True
  then show ?thesis using that(1) by simp
next
  case nc: False
  show ?thesis
  proof (cases "list_ex (\<lambda>r. r \<in> set reserved) (w_resources w) \<or> blocked")
    case True
    then show ?thesis using that(2) nc by (simp add: list_ex_iff)
  next
    case False
    then have free: "\<forall>r \<in> set (w_resources w). r \<notin> set reserved" "\<not> blocked" by (auto simp: list_ex_iff)
    show ?thesis
    proof (cases rule: allocate_cases [of "w_op w" "w_resources w" "now - w_startTime w" "w_budget w" d])
      case (refused e)
      show ?thesis
      proof (cases "isResourceConflict e")
        case True
        then obtain r h o' x where e: "e = ResourceConflictError r h o' x" by (cases e) simp_all
        show ?thesis
          by (rule that(4) [OF nc free, of r h o' x]) (use refused e nc False in \<open>simp_all add: askFor_def\<close>)
      next
        case nrc: False
        have "dm_fenced d"
        proof (rule ccontr)
          assume "\<not> dm_fenced d"
          then have "assertNotFenced d = (Inr (), d)" by (simp add: assertNotFenced_def)
          with refused nrc show False
            by (auto simp: allocateResources_def split: option.splits prod.splits)
        qed
        then show ?thesis
          using that(5) [OF nc free, of e] refused nrc nc False by (cases e) (simp_all add: askFor_def)
      qed
    next
      case granted
      show ?thesis by (rule that(3) [OF nc free]) (use granted(4) nc False in \<open>simp_all add: askFor_def\<close>)
    qed
  qed
qed

lemma scan_keeps: "kept_by_scan d (scanQueue cancelled now reserved blocked kept ws d)"
proof (induction ws arbitrary: reserved blocked kept d)
  case (Cons w ws)
  show ?case
  proof (cases rule: scan_step [of cancelled w now reserved blocked kept ws d])
    case (granted d')
    have "kept_by_scan d d'" by (rule kept_allocate) (use granted(4) in \<open>simp add: askFor_def\<close>)
    then show ?thesis unfolding granted(5) using kept_trans Cons.IH [of "settle (w_ticket w) None d'"] by simp
  next
    case cancelled
    show ?thesis unfolding cancelled(2) using Cons.IH [of "settle (w_ticket w) None d"] by simp
  next
    case (failed e)
    show ?thesis unfolding failed(7) using Cons.IH [of "settle (w_ticket w) (Some e) d"] by simp
  qed (simp_all add: Cons.IH)
qed simp

text \<open>Once the cap on concurrent operations has refused a waiter, nothing more is granted.\<close>

lemma scan_blocked:
  "dm_locked (scanQueue cancelled now reserved True kept ws d) = dm_locked d
   \<and> dm_allocated (scanQueue cancelled now reserved True kept ws d) = dm_allocated d"
proof (induction ws arbitrary: reserved kept d)
  case (Cons w ws)
  then show ?case by (cases rule: scan_step [of cancelled w now reserved True kept ws d]) (simp_all add: settle_def)
qed simp


section \<open>Fairness\<close>

definition precedes :: "waiter list \<Rightarrow> waiter \<Rightarrow> waiter \<Rightarrow> bool" where
  "precedes q v w \<longleftrightarrow> (\<exists>xs ys zs. q = xs @ v # ys @ w # zs)"

lemma precedes_Nil [simp]: "\<not> precedes [] v w"
  by (simp add: precedes_def)

lemma precedes_Cons [simp]: "precedes (u # q) v w \<longleftrightarrow> (v = u \<and> w \<in> set q) \<or> precedes q v w"
proof
  assume "precedes (u # q) v w"
  then obtain xs ys zs where "u # q = xs @ v # ys @ w # zs" unfolding precedes_def by blast
  then show "(v = u \<and> w \<in> set q) \<or> precedes q v w" by (cases xs) (auto simp: precedes_def)
next
  assume "(v = u \<and> w \<in> set q) \<or> precedes q v w"
  then show "precedes (u # q) v w"
  proof
    assume "v = u \<and> w \<in> set q"
    then obtain ys zs where "u # q = [] @ v # ys @ w # zs" by (auto simp: in_set_conv_decomp)
    then show ?thesis unfolding precedes_def by blast
  next
    assume "precedes q v w"
    then obtain xs ys zs where "u # q = (u # xs) @ v # ys @ w # zs" by (auto simp: precedes_def)
    then show ?thesis unfolding precedes_def by blast
  qed
qed

lemma precedes_mem: "precedes q v w \<Longrightarrow> v \<in> set q \<and> w \<in> set q"
  by (auto simp: precedes_def)

text \<open>What \<open>w\<close> asked for is locked for it.\<close>

definition served :: "domain \<Rightarrow> waiter \<Rightarrow> bool" where
  "served d w \<longleftrightarrow> (w_op w \<noteq> [] \<longrightarrow> (\<forall>r \<in> set (w_resources w). getResourceOwner r d = Some (w_op w)))"

lemma served_kept: "served d w \<Longrightarrow> kept_by_scan d d' \<Longrightarrow> served d' w"
  unfolding served_def kept_by_scan_def getResourceOwner_def using covers_value by blast

text \<open>The outcome of a scan of \<open>ws\<close>: \<open>kq\<close> stay, \<open>new\<close> are the promises settled.\<close>

definition fairOutcome :: "(nat \<Rightarrow> bool) \<Rightarrow> string list \<Rightarrow> waiter list \<Rightarrow> waiter list \<Rightarrow> (nat \<times> KError option) list \<Rightarrow> domain \<Rightarrow> bool" where
  "fairOutcome cancelled reserved ws kq new d \<longleftrightarrow>
     subseq kq ws \<and> fst ` set new \<subseteq> w_ticket ` set ws \<and> distinct (map fst new)
   \<and> (\<forall>w \<in> set ws. w_ticket w \<in> fst ` set new \<longleftrightarrow> w \<notin> set kq)
   \<and> (\<forall>w \<in> set ws. (w_ticket w, None) \<in> set new \<and> \<not> cancelled (w_ticket w) \<longrightarrow>
        served d w \<and> set (w_resources w) \<inter> set reserved = {}
      \<and> (\<forall>v \<in> set kq. precedes ws v w \<longrightarrow> set (w_resources v) \<inter> set (w_resources w) = {}))"

lemma fair_keep:
  assumes "fairOutcome cancelled (reserved @ w_resources w) ws kq new d" and "distinct (map w_ticket (w # ws))"
  shows "fairOutcome cancelled reserved (w # ws) (w # kq) new d"
proof -
  have t: "w_ticket w \<notin> w_ticket ` set ws" using assms(2) by simp
  then have n: "w_ticket w \<notin> fst ` set new" "w \<notin> set ws" using assms(1) by (auto simp: fairOutcome_def)
  then have "(w_ticket w, x) \<notin> set new" for x by force
  moreover have "\<forall>u \<in> set ws. w \<noteq> u" using n by blast
  moreover have "v \<in> set ws" "u \<in> set ws" if "precedes ws v u" for v u using precedes_mem [OF that] by simp_all
  ultimately show ?thesis
    using assms(1) n unfolding fairOutcome_def by (auto simp: Int_Un_distrib Int_commute)
qed

lemma fair_settle:
  assumes "fairOutcome cancelled reserved ws kq new d" and "distinct (map w_ticket (w # ws))"
    and "x = None \<Longrightarrow> \<not> cancelled (w_ticket w) \<Longrightarrow> served d w \<and> set (w_resources w) \<inter> set reserved = {}"
  shows "fairOutcome cancelled reserved (w # ws) kq ((w_ticket w, x) # new) d"
proof -
  have t: "w_ticket w \<notin> w_ticket ` set ws" using assms(2) by simp
  then have n: "w \<notin> set ws" "w_ticket w \<notin> fst ` set new" using assms(1) by (auto simp: fairOutcome_def)
  have kq: "set kq \<subseteq> set ws" using assms(1) by (auto simp: fairOutcome_def dest: list_emb_set)
  have "\<not> precedes ws v w" "\<not> precedes ws w v" for v using precedes_mem n(1) by blast+
  moreover have "(w_ticket w, y) \<notin> set new" for y using n(2) by force
  moreover have "w_ticket u \<noteq> w_ticket w" if "u \<in> set ws" for u using t that by (metis image_eqI)
  ultimately show ?thesis
    using assms(1,3) n kq unfolding fairOutcome_def by (auto simp: list_emb_Cons)
qed

lemma scan_fair:
  assumes "distinct (map w_ticket ws)"
  shows "\<exists>kq new. dm_queue (scanQueue cancelled now reserved blocked kept ws d) = kept @ kq
      \<and> dm_settled (scanQueue cancelled now reserved blocked kept ws d) = dm_settled d @ new
      \<and> fairOutcome cancelled reserved ws kq new (scanQueue cancelled now reserved blocked kept ws d)"
  using assms
proof (induction ws arbitrary: reserved blocked kept d)
  case Nil
  have "fairOutcome cancelled reserved [] [] [] d'" for d' by (simp add: fairOutcome_def)
  then show ?case by (intro exI [of _ "[]"]) simp
next
  case (Cons w ws)
  have dist: "distinct (map w_ticket ws)" using Cons.prems by simp
  note IH = Cons.IH [OF dist]
  show ?case
  proof (cases rule: scan_step [of cancelled w now reserved blocked kept ws d])
    case cancelled
    from IH [of reserved blocked kept "settle (w_ticket w) None d"] fair_settle [OF _ Cons.prems, of cancelled reserved _ _ _ None]
    show ?thesis unfolding cancelled(2) using cancelled(1) by (fastforce simp: settle_def)
  next
    case behind
    from IH [of "reserved @ w_resources w" blocked "kept @ [w]" d] fair_keep [OF _ Cons.prems]
    show ?thesis unfolding behind(3) by fastforce
  next
    case (granted d')
    have "served d' w"
    proof (cases rule: allocate_cases [of "w_op w" "w_resources w" "now - w_startTime w" "w_budget w" d])
      case (refused e)
      with granted(4) show ?thesis by (simp add: askFor_def)
    next
      case g: granted
      from granted(4) g(4) have "dm_locked d' = lockAll (w_op w) (w_resources w) (dm_locked d)" by (auto simp: askFor_def)
      then show ?thesis by (simp add: served_def getResourceOwner_def mapGet_lockAll)
    qed
    then have s: "served (scanQueue cancelled now reserved blocked kept ws (settle (w_ticket w) None d')) w"
      by (rule served_kept) (use scan_keeps [of "settle (w_ticket w) None d'"] in simp)
    have "dm_settled d' = dm_settled d"
      using granted(4) by (cases rule: allocate_cases [of "w_op w" "w_resources w" "now - w_startTime w" "w_budget w" d])
        (auto simp: askFor_def)
    with s granted(2) IH [of reserved blocked kept "settle (w_ticket w) None d'"]
      fair_settle [OF _ Cons.prems, of cancelled reserved _ _ _ None]
    show ?thesis unfolding granted(5) by (fastforce simp: settle_def)
  next
    case (refused r h o' x)
    from IH [of "reserved @ w_resources w" _ "kept @ [w]" d] fair_keep [OF _ Cons.prems]
    show ?thesis unfolding refused(5) by fastforce
  next
    case (failed e)
    from IH [of reserved blocked kept "settle (w_ticket w) (Some e) d"] fair_settle [OF _ Cons.prems, of cancelled reserved _ _ _ "Some e"]
    show ?thesis unfolding failed(7) by (fastforce simp: settle_def)
  qed
qed


text \<open>C15: First come, first served. Waking the queue keeps its order, settles every waiter it
  removes exactly once, and grants only requests that hold what they asked for and share no
  resource with an earlier waiter that is still waiting: nobody overtakes on a contended resource.\<close>

theorem fifo_no_overtaking:
  assumes "distinct (map w_ticket (dm_queue d))" and "processWaitQueue cancelled now d = (Inr u, d')"
  shows "\<exists>new. dm_settled d' = dm_settled d @ new \<and> distinct (map fst new) \<and> subseq (dm_queue d') (dm_queue d)
    \<and> (\<forall>w \<in> set (dm_queue d). w_ticket w \<in> fst ` set new \<longleftrightarrow> w \<notin> set (dm_queue d'))
    \<and> (\<forall>w \<in> set (dm_queue d). (w_ticket w, None) \<in> set new \<and> \<not> cancelled (w_ticket w) \<longrightarrow> served d' w
        \<and> (\<forall>v \<in> set (dm_queue d'). precedes (dm_queue d) v w \<longrightarrow> set (w_resources v) \<inter> set (w_resources w) = {}))"
proof (cases "dm_queue d = [] \<or> dm_fenced d")
  case True
  with assms(2) have "d' = d" by (simp add: processWaitQueue_def)
  then show ?thesis by (intro exI [of _ "[]"]) simp
next
  case False
  with assms(2) have "d' = scanQueue cancelled now [] False [] (dm_queue d) d" by (simp add: processWaitQueue_def)
  then show ?thesis
    using scan_fair [OF assms(1), of cancelled now "[]" False "[]" d] by (fastforce simp: fairOutcome_def)
qed

text \<open>Three requests in the queue of the busy domain: the first two contend for what \<open>op1\<close> holds.\<close>

definition demoWaiter :: "nat \<Rightarrow> string \<Rightarrow> string list \<Rightarrow> waiter" where
  "demoWaiter t opId rs = \<lparr>w_ticket = t, w_op = opId, w_resources = rs, w_budget = None, w_startTime = 5, w_maxWaitMs = 100\<rparr>"

definition demoQueue :: domain where
  "demoQueue = demoBusy\<lparr>dm_queue := [demoWaiter 0 ''a'' [''/w'', ''/x''], demoWaiter 1 ''b'' [''/x''], demoWaiter 2 ''c'' [''/y'']]\<rparr>"

lemma demo_scan: "processWaitQueue (\<lambda>_. False) 6 demoQueue = (Inr (), demoQueue\<lparr>
    dm_queue := [demoWaiter 0 ''a'' [''/w'', ''/x''], demoWaiter 1 ''b'' [''/x'']],
    dm_locked := [(''/w'', ''op1''), (''/y'', ''c'')], dm_allocated := [''op1'', ''c''], dm_settled := [(2, None)]\<rparr>)"
  by (simp add: processWaitQueue_def demoQueue_def demoBusy_def demoDomain_def demoWaiter_def allocateResources_def
      thenDo_def andThen_def assertNotFenced_def concurrencyConflict_def settle_def lockAll_def mapSet_def setAdd_def mapGet_def)

theorem fifo_no_overtaking_witness:
  "\<exists>d'. processWaitQueue (\<lambda>_. False) 6 demoQueue = (Inr (), d') \<and> served d' (demoWaiter 2 ''c'' [''/y''])"
proof -
  have "distinct (map w_ticket (dm_queue demoQueue))" by (simp add: demoQueue_def demoWaiter_def)
  from fifo_no_overtaking [OF this demo_scan]
  obtain new where n: "[(2::nat, None)] = new"
    and s: "\<forall>w \<in> set (dm_queue demoQueue). (w_ticket w, None) \<in> set new \<longrightarrow> served (snd (processWaitQueue (\<lambda>_. False) 6 demoQueue)) w"
    unfolding demo_scan by (auto simp: demoQueue_def demoBusy_def demoDomain_def)
  have "demoWaiter 2 ''c'' [''/y''] \<in> set (dm_queue demoQueue)" by (simp add: demoQueue_def)
  with s have "(w_ticket (demoWaiter 2 ''c'' [''/y'']), None) \<in> set new \<longrightarrow>
      served (snd (processWaitQueue (\<lambda>_. False) 6 demoQueue)) (demoWaiter 2 ''c'' [''/y''])" by blast
  moreover have "(w_ticket (demoWaiter 2 ''c'' [''/y'']), None) \<in> set new" by (simp add: n [symmetric] demoWaiter_def)
  ultimately show ?thesis unfolding demo_scan by simp
qed

section \<open>No lost wake-up\<close>

text \<open>\<open>refusedBy r w d\<close>: a new request of \<open>w\<close> would be refused, with \<open>r\<close> the contended resource.\<close>

definition refusedBy :: "string \<Rightarrow> waiter \<Rightarrow> domain \<Rightarrow> bool" where
  "refusedBy r w d \<longleftrightarrow> (case lockConflict (dm_locked d) (w_op w) (w_resources w) of
     Some p \<Rightarrow> fst p = r
   | None \<Rightarrow> concurrencyConflict d (w_op w) \<noteq> None \<and> r = ''domain:max_concurrent_ops'')"

lemma refusedBy_allocate:
  "refusedBy r w d \<Longrightarrow> \<exists>e. allocateResources (w_op w) (w_resources w) waited b d = (Inl e, d)"
  by (cases rule: allocate_cases [of "w_op w" "w_resources w" waited b d]) (simp_all add: refusedBy_def)

lemma askFor_refused: "askFor now w d = (Inl (ResourceConflictError r h o' x), d) \<Longrightarrow> refusedBy r w d"
  by (auto simp: askFor_def allocateResources_def refusedBy_def thenDo_def andThen_def assertNotFenced_def
      split: option.splits if_splits prod.splits)

text \<open>A lock conflict survives anything a scan does; so does a full domain when nothing is granted.\<close>

lemma lockConflict_exists:
  "r \<in> set rs \<Longrightarrow> mapGet m r = Some v \<Longrightarrow> v \<noteq> [] \<Longrightarrow> v \<noteq> opId \<Longrightarrow> lockConflict m opId rs \<noteq> None"
  by (induction rs) (auto split: option.split)

lemma lockConflict_covers: "lockConflict m opId rs \<noteq> None \<Longrightarrow> covers m m' \<Longrightarrow> lockConflict m' opId rs \<noteq> None"
proof -
  assume "lockConflict m opId rs \<noteq> None" and c: "covers m m'"
  then obtain r v where "lockConflict m opId rs = Some (r, v)" by (cases "lockConflict m opId rs") auto
  from lockConflict_Some [OF this] have "r \<in> set rs" "mapGet m r = Some v" "v \<noteq> []" "v \<noteq> opId" by simp_all
  with c covers_value [OF c] show ?thesis by (intro lockConflict_exists) auto
qed

definition stuck :: "waiter \<Rightarrow> domain \<Rightarrow> bool" where
  "stuck w d \<longleftrightarrow> lockConflict (dm_locked d) (w_op w) (w_resources w) \<noteq> None"

lemma stuck_scan: "stuck w d \<Longrightarrow> stuck w (scanQueue cancelled now reserved blocked kept ws d)"
  using scan_keeps [of d] lockConflict_covers unfolding stuck_def kept_by_scan_def by blast

lemma refusedBy_frame:
  assumes "dm_locked d' = dm_locked d" "dm_store d' = dm_store d" "dm_domainId d' = dm_domainId d"
    and "dm_budget d' = dm_budget d" "dm_allocated d' = dm_allocated d"
  shows "refusedBy r w d' = refusedBy r w d"
proof -
  have "concurrencyConflict d' opId = concurrencyConflict d opId" for opId
    unfolding concurrencyConflict_def getActiveOperationIds_def assms ..
  then show ?thesis unfolding refusedBy_def assms by (simp split: option.split)
qed

lemma refusedBy_settle [simp]: "refusedBy r w (settle t e d) = refusedBy r w d"
  by (rule refusedBy_frame) (simp_all add: settle_def)

lemma refused_scan_blocked:
  assumes "refusedBy r w d"
  shows "refusedBy r w (scanQueue cancelled now reserved True kept ws d)"
proof -
  have "refusedBy r w (scanQueue cancelled now reserved True kept ws d) = refusedBy r w d"
    by (rule refusedBy_frame) (use scan_blocked [of cancelled now reserved kept ws d]
        scan_keeps [of d cancelled now reserved True kept ws] in \<open>simp_all only: kept_by_scan_def\<close>)
  with assms show ?thesis by (simp only:)
qed

text \<open>Why a waiter may still be waiting after a scan, given the waiters before it.\<close>

definition excused :: "waiter list \<Rightarrow> waiter \<Rightarrow> domain \<Rightarrow> bool" where
  "excused before w d \<longleftrightarrow> (\<exists>v \<in> set before. set (w_resources v) \<inter> set (w_resources w) \<noteq> {})
     \<or> stuck w d \<or> (\<exists>v \<in> set before \<union> {w}. refusedBy ''domain:max_concurrent_ops'' v d)"

lemma scan_excused:
  assumes "set reserved \<subseteq> \<Union> (set ` w_resources ` set kept)"
    and "blocked \<Longrightarrow> \<exists>v \<in> set kept. refusedBy ''domain:max_concurrent_ops'' v d"
    and "\<forall>xs w ys. kept = xs @ w # ys \<longrightarrow> excused xs w (scanQueue cancelled now reserved blocked kept ws d)"
  shows "\<forall>xs w ys. dm_queue (scanQueue cancelled now reserved blocked kept ws d) = xs @ w # ys \<longrightarrow>
    excused xs w (scanQueue cancelled now reserved blocked kept ws d)"
  using assms
proof (induction ws arbitrary: reserved blocked kept d)
  case Nil
  then show ?case by simp
next
  case (Cons w ws)
  have snoc: "\<forall>xs u ys. kept @ [w] = xs @ u # ys \<longrightarrow> excused xs u D"
    if "\<forall>xs u ys. kept = xs @ u # ys \<longrightarrow> excused xs u D" and "excused kept w D" for D
  proof (intro allI impI)
    fix xs u ys assume "kept @ [w] = xs @ u # ys"
    then show "excused xs u D" using that by (cases ys rule: rev_cases) auto
  qed
  have more: "set (reserved @ w_resources w) \<subseteq> \<Union> (set ` w_resources ` set (kept @ [w]))"
    using Cons.prems(1) by auto
  show ?case
  proof (cases rule: scan_step [of cancelled w now reserved blocked kept ws d])
    case cancelled
    have "blocked \<Longrightarrow> \<exists>v \<in> set kept. refusedBy ''domain:max_concurrent_ops'' v (settle (w_ticket w) None d)"
      using Cons.prems(2) by simp
    then show ?thesis unfolding cancelled(2) using Cons.IH Cons.prems(1,3) [unfolded cancelled(2)] by blast
  next
    case behind
    let ?R = "scanQueue cancelled now (reserved @ w_resources w) blocked (kept @ [w]) ws d"
    have "excused kept w ?R"
    proof (cases blocked)
      case True
      with Cons.prems(2) obtain v where "v \<in> set kept" "refusedBy ''domain:max_concurrent_ops'' v d" by blast
      then have "refusedBy ''domain:max_concurrent_ops'' v (scanQueue cancelled now (reserved @ w_resources w) True (kept @ [w]) ws d)"
        by (intro refused_scan_blocked)
      with True \<open>v \<in> set kept\<close> show ?thesis unfolding excused_def by auto
    next
      case False
      with behind(2) Cons.prems(1) show ?thesis unfolding excused_def by blast
    qed
    from snoc [OF Cons.prems(3) [unfolded behind(3)] this] Cons.prems(2) more
    show ?thesis unfolding behind(3) by (intro Cons.IH) auto
  next
    case (granted d')
    show ?thesis unfolding granted(5)
      by (rule Cons.IH) (use granted(3) Cons.prems(1) Cons.prems(3) [unfolded granted(5)] in blast)+
  next
    case (refused r h o' x)
    note r = askFor_refused [OF refused(4)]
    let ?b = "r = ''domain:max_concurrent_ops''"
    let ?R = "scanQueue cancelled now (reserved @ w_resources w) ?b (kept @ [w]) ws d"
    have "excused kept w ?R"
    proof (cases ?b)
      case True
      have "refusedBy ''domain:max_concurrent_ops'' w d" using r True by simp
      from refused_scan_blocked [OF this] show ?thesis unfolding excused_def eqTrueI [OF True] by blast
    next
      case False
      with r have "stuck w d" by (auto simp: refusedBy_def stuck_def split: option.splits)
      then show ?thesis using stuck_scan unfolding excused_def by blast
    qed
    from snoc [OF Cons.prems(3) [unfolded refused(5)] this] more r
    show ?thesis unfolding refused(5) by (intro Cons.IH) auto
  next
    case (failed e)
    show ?thesis unfolding failed(7)
      by (rule Cons.IH) (use failed(3) Cons.prems(1) Cons.prems(3) [unfolded failed(7)] in blast)+
  qed
qed

text \<open>C14: No lost wake-up. After the queue has been woken, as every release does, the waiter at its
  head cannot be granted: a new request in its place would be refused. Every other waiter that is
  left shares a resource with an earlier one, is refused a lock, or waits behind a full domain.\<close>

theorem no_lost_wakeup:
  assumes "processWaitQueue cancelled now d = (Inr u, d')" and "\<not> dm_fenced d"
  shows "(\<forall>w ws. dm_queue d' = w # ws \<longrightarrow> (\<exists>e. allocateResources (w_op w) (w_resources w) waited b d' = (Inl e, d')))
    \<and> (\<forall>xs w ys. dm_queue d' = xs @ w # ys \<longrightarrow> excused xs w d')"
proof (cases "dm_queue d = []")
  case True
  with assms show ?thesis by (simp add: processWaitQueue_def)
next
  case False
  with assms have "d' = scanQueue cancelled now [] False [] (dm_queue d) d" by (simp add: processWaitQueue_def)
  then have all: "\<forall>xs w ys. dm_queue d' = xs @ w # ys \<longrightarrow> excused xs w d'"
    using scan_excused [of "[]" "[]" False d cancelled now "dm_queue d"] by simp
  have "\<exists>e. allocateResources (w_op w) (w_resources w) waited b d' = (Inl e, d')" if "dm_queue d' = w # ws" for w ws
  proof -
    have "excused [] w d'" using all that by force
    then have "stuck w d' \<or> refusedBy ''domain:max_concurrent_ops'' w d'" by (simp add: excused_def)
    then have "\<exists>r. refusedBy r w d'" by (auto simp: stuck_def refusedBy_def)
    then show ?thesis using refusedBy_allocate by blast
  qed
  with all show ?thesis by blast
qed

theorem no_lost_wakeup_witness:
  "\<exists>e d'. processWaitQueue (\<lambda>_. False) 6 demoQueue = (Inr (), d') \<and> allocateResources ''a'' [''/w'', ''/x''] 0 None d' = (Inl e, d')"
proof -
  have "\<not> dm_fenced demoQueue" by (simp add: demoQueue_def demoBusy_def demoDomain_def)
  from no_lost_wakeup [OF demo_scan this, of 0 None]
  have "\<exists>e. allocateResources (w_op (demoWaiter 0 ''a'' [''/w'', ''/x''])) (w_resources (demoWaiter 0 ''a'' [''/w'', ''/x''])) 0 None
      (snd (processWaitQueue (\<lambda>_. False) 6 demoQueue)) = (Inl e, snd (processWaitQueue (\<lambda>_. False) 6 demoQueue))"
    unfolding demo_scan by simp
  then show ?thesis unfolding demo_scan by (simp add: demoWaiter_def)
qed

end
