(* ===== verification/RecoveryLaws.thy ===== *)
theory RecoveryLaws
  imports Recovery QueueProps
begin

text \<open>
  What the recovery of one operation does to the database. The contract of a release on the store
  (it only appends to the journal and drops leases of its operation) is the locale
  \<open>release_frame\<close>, interpreted on the operation table and on the leases of another operation.
\<close>

section \<open>Releases\<close>

locale release_frame =
  fixes Q :: "store \<Rightarrow> bool" and opId :: string
  assumes journal: "\<And>s j n. Q s \<Longrightarrow> Q (s\<lparr>db_journal := j, db_seq := n\<rparr>)"
    and leases: "\<And>s keep. Q s \<Longrightarrow> (\<And>l. lease_operationId l \<noteq> opId \<Longrightarrow> keep l) \<Longrightarrow>
      Q (s\<lparr>db_leases := filter keep (db_leases s)\<rparr>)"
begin

lemma event: "preserves Q (recordEvent e)"
proof (rule preservesI)
  fix s assume "Q s"
  then show "Q (snd (recordEvent e s))"
    by (cases rule: recordEvent_cases [of e s]) (simp_all add: recordEvent_def andThen_def journal)
qed

lemma lease: "Q s \<Longrightarrow> Q (snd (releaseResourceLease opId res s))"
  by (auto simp: releaseResourceLease_def deleteLeases_def delRows_def intro!: leases split: option.split)

lemma inStore_keeps:
  "preserves Q m \<Longrightarrow> preserves (\<lambda>d. Q (dm_store d) \<and> dm_domainId d = i) (inStore m)"
  by (rule preservesI) (simp add: inStore_def preserves_snd split: prod.split, metis preservesD)

lemma inStore_keeps_at:
  "(\<And>d. preserves Q (m d)) \<Longrightarrow> preserves (\<lambda>d. Q (dm_store d) \<and> dm_domainId d = i) (\<lambda>d. inStore (m d) d)"
  using preserves_snd [OF inStore_keeps] by (intro preservesI) blast

lemma notFenced: "preserves (\<lambda>d. Q (dm_store d) \<and> dm_domainId d = i) assertNotFenced"
  by (simp add: preserves_def assertNotFenced_def)

lemma wake: "preserves (\<lambda>d. Q (dm_store d) \<and> dm_domainId d = i) (processWaitQueue cancelled now)"
  unfolding processWaitQueue_def
proof (rule pres_modify)
  fix d :: domain assume "Q (dm_store d) \<and> dm_domainId d = i"
  then show "Q (dm_store (if dm_queue d = [] \<or> dm_fenced d then d else scanQueue cancelled now [] False [] (dm_queue d) d))
      \<and> dm_domainId (if dm_queue d = [] \<or> dm_fenced d then d else scanQueue cancelled now [] False [] (dm_queue d) d) = i"
    using scan_keeps [of d cancelled now "[]" False "[]" "dm_queue d"] by (simp add: kept_by_scan_def)
qed

lemma releaseMany:
  "Q (dm_store (snd acc)) \<Longrightarrow> dm_domainId (snd acc) = i \<Longrightarrow>
   Q (dm_store (snd (fold (releaseOne opId persisted) rs acc))) \<and> dm_domainId (snd (fold (releaseOne opId persisted) rs acc)) = i"
  by (induction rs arbitrary: acc) (auto simp: releaseOne_def lease split: prod.split)

lemma body: "preserves (\<lambda>d. Q (dm_store d) \<and> dm_domainId d = i) (releaseBody cancelled now opId rs)"
proof (rule preservesI)
  fix d :: domain assume d: "Q (dm_store d) \<and> dm_domainId d = i"
  let ?pers = "map lease_resourceId (filter (\<lambda>l. lease_operationId l = opId)
             (getPersistedResourceLeases (dm_domainId d) (dm_store d)))"
  obtain released d1 where d1: "(if rs \<noteq> [] then fold (releaseOne opId ?pers) rs ([], d) else releaseAll opId d) = (released, d1)"
    by fastforce
  have "d1 = snd (if rs \<noteq> [] then fold (releaseOne opId ?pers) rs ([], d) else releaseAll opId d)"
    by (simp only: d1 snd_conv)
  then have "Q (dm_store d1) \<and> dm_domainId d1 = i"
    using d releaseMany [of "([], d)" i ?pers rs] by (auto simp: releaseAll_def lease split: if_splits)
  then have "Q (dm_store (if opId \<in> snd ` set (dm_locked d1) then d1
      else d1\<lparr>dm_allocated := filter (\<lambda>x. x \<noteq> opId) (dm_allocated d1), dm_budgets := mapDel opId (dm_budgets d1)\<rparr>))
    \<and> dm_domainId (if opId \<in> snd ` set (dm_locked d1) then d1
      else d1\<lparr>dm_allocated := filter (\<lambda>x. x \<noteq> opId) (dm_allocated d1), dm_budgets := mapDel opId (dm_budgets d1)\<rparr>) = i"
    by simp
  then show "Q (dm_store (snd (releaseBody cancelled now opId rs d))) \<and> dm_domainId (snd (releaseBody cancelled now opId rs d)) = i"
    by (simp only: releaseBody_def d1 prod.case Let_def)
      (rule preserves_snd [OF pres_thenDo [OF inStore_keeps [OF event] wake]])
qed

lemma release: "preserves (\<lambda>d. Q (dm_store d) \<and> dm_domainId d = i) (internalReleaseResources cancelled now opId rs)"
  unfolding internalReleaseResources_def
  by (intro pres_thenDo notFenced inStore_keeps_at pres_verify body)

end

text \<open>The tables a release leaves alone.\<close>

definition sameRows :: "store \<Rightarrow> store \<Rightarrow> bool" where
  "sameRows s0 s \<longleftrightarrow> db_operations s = db_operations s0 \<and> db_snapshots s = db_snapshots s0 \<and> db_runs s = db_runs s0"

interpretation rows: release_frame "sameRows s0" opId for s0 opId
  by unfold_locales (simp_all add: sameRows_def)

definition keepsLeases :: "string \<Rightarrow> string \<Rightarrow> ResourceLease set \<Rightarrow> store \<Rightarrow> bool" where
  "keepsLeases opId x L s \<longleftrightarrow> (x = opId \<or> {l \<in> L. lease_operationId l = x} \<subseteq> set (db_leases s))"

interpretation others: release_frame "keepsLeases opId x L" opId for opId x L
  by unfold_locales (auto simp: keepsLeases_def)

section \<open>One operation\<close>

lemma inStore_Inr: "inStore m d = (Inr x, d') \<longleftrightarrow> (\<exists>s. m (dm_store d) = (Inr x, s) \<and> d' = d\<lparr>dm_store := s\<rparr>)"
  by (auto simp: inStore_def split: prod.split)

lemma pres_whenDo_at: "preserves I m \<Longrightarrow> preserves I (\<lambda>d. whenDo (b d) m d)"
  by (simp add: preserves_def)

lemma rows_releaseOpAndService:
  "preserves (\<lambda>d. sameRows s0 (dm_store d) \<and> dm_domainId d = i) (releaseOpAndService cancelled now instances op)"
  unfolding releaseOpAndService_def by (intro pres_thenDo pres_whenDo_at rows.release)

lemma rows_serviceStopped:
  "preserves (\<lambda>d. sameRows s0 (dm_store d) \<and> dm_domainId d = i) (serviceStopped now op action)"
  unfolding serviceStopped_def by (rule pres_whenDo) (rule rows.inStore_keeps_at, rule rows.event)

lemma whenDo_rows:
  assumes "preserves I m" and "whenDo b m d = (r, d')" and "I d"
  shows "I d'"
  using preservesD [OF pres_whenDo [OF assms(1)] assms(3,2)] .

lemma recoverOp_Inr:
  assumes "recoverOp cancelled rv H now instances op d = (Inr r, d')"
  shows "\<exists>st. settleOperation rv H now (dm_store d) op = Inr st
    \<and> r = \<lparr>rop_opId = op_id op, rop_action = stl_action st, rop_released = (stl_action st \<noteq> IsolatedIndeterminate)\<rparr>
    \<and> dm_domainId d' = dm_domainId d
    \<and> db_operations (dm_store d') = updRow op_id (op_id op) (finishRow (stl_result st)) (db_operations (dm_store d))
    \<and> db_snapshots (dm_store d') = db_snapshots (dm_store d) \<and> db_runs (dm_store d') = db_runs (dm_store d)
    \<and> getOperation (op_id op) (dm_store d) \<noteq> None"
proof -
  from assms obtain st where st: "settleOperation rv H now (dm_store d) op = Inr st"
    and run: "applySettlement cancelled now instances op st d = (Inr r, d')"
    by (auto simp: recoverOp_def andThen_Inr)
  let ?rel = "stl_action st \<noteq> IsolatedIndeterminate"
  from run obtain s1 d2 d3 where s1: "recordOperationResult (op_id op) (stl_result st) ?rel (dm_store d) = (Inr (), s1)"
    and d2: "whenDo ?rel (releaseOpAndService cancelled now instances op) (d\<lparr>dm_store := s1\<rparr>) = (Inr (), d2)"
    and d3: "whenDo (stl_notifyService st) (serviceStopped now op (stl_action st)) d2 = (Inr (), d3)"
    and r: "r = \<lparr>rop_opId = op_id op, rop_action = stl_action st, rop_released = ?rel\<rparr>" "d' = d3"
    unfolding applySettlement_def Let_def
    by (auto simp: thenDo_Inr inStore_Inr simp del: whenDo_run)
  let ?I = "\<lambda>d'. sameRows s1 (dm_store d') \<and> dm_domainId d' = dm_domainId d"
  have "?I d2" by (rule whenDo_rows [OF rows_releaseOpAndService d2]) (simp add: sameRows_def)
  then have "?I d3" by (rule whenDo_rows [OF rows_serviceStopped d3])
  moreover have "db_operations s1 = updRow op_id (op_id op) (finishRow (stl_result st)) (db_operations (dm_store d))
      \<and> db_snapshots s1 = db_snapshots (dm_store d) \<and> db_runs s1 = db_runs (dm_store d) \<and> getOperation (op_id op) (dm_store d) \<noteq> None"
    using recordResult_Inr [OF s1] by auto
  ultimately show ?thesis using st r by (auto simp: sameRows_def)
qed

text \<open>The operation table after a pass: the operations of the pass are done, the others unchanged.\<close>

definition finishes :: "string set \<Rightarrow> (Operation \<Rightarrow> Operation) \<Rightarrow> bool" where
  "finishes ids g \<longleftrightarrow> (\<forall>r. op_id (g r) = op_id r \<and> op_domainId (g r) = op_domainId r \<and> op_runId (g r) = op_runId r
     \<and> (if op_id r \<in> ids then op_status (g r) = ODone \<and> op_result (g r) \<noteq> None else g r = r))"

lemma finishes_step:
  assumes "finishes ids g"
  shows "finishes (insert x ids) (\<lambda>r. g (if op_id r = x then finishRow res r else r))"
proof -
  have "g (finishRow res r) = finishRow res r \<or> (op_status (g (finishRow res r)) = ODone \<and> op_result (g (finishRow res r)) \<noteq> None)" for r
    using assms unfolding finishes_def by metis
  then have "op_status (g (finishRow res r)) = ODone \<and> op_result (g (finishRow res r)) \<noteq> None" for r
    by (metis finishRow_simps(2,3) option.distinct(1))
  then show ?thesis using assms unfolding finishes_def by (auto split: if_splits)
qed

lemma recoverOps_Inr:
  assumes "recoverOps cancelled rv H now instances ops d = (Inr rs, d')"
  shows "\<exists>g. finishes (op_id ` set ops) g \<and> db_operations (dm_store d') = map g (db_operations (dm_store d))
    \<and> db_snapshots (dm_store d') = db_snapshots (dm_store d) \<and> db_runs (dm_store d') = db_runs (dm_store d)
    \<and> dm_domainId d' = dm_domainId d \<and> map rop_opId rs = map op_id ops
    \<and> (\<forall>op \<in> set ops. op_id op \<in> op_id ` set (db_operations (dm_store d)))"
  using assms
proof (induction ops arbitrary: d rs)
  case Nil
  have "finishes {} (\<lambda>r. r)" by (simp add: finishes_def)
  with Nil show ?case by (intro exI [of _ "\<lambda>r. r"]) simp
next
  case (Cons op ops)
  from Cons.prems obtain r d1 rs' where r: "recoverOp cancelled rv H now instances op d = (Inr r, d1)"
    and rs: "recoverOps cancelled rv H now instances ops d1 = (Inr rs', d')" "rs = r # rs'"
    by (auto simp: andThen_Inr)
  from recoverOp_Inr [OF r] obtain res where one: "rop_opId r = op_id op" "dm_domainId d1 = dm_domainId d"
    "db_operations (dm_store d1) = updRow op_id (op_id op) (finishRow res) (db_operations (dm_store d))"
    "db_snapshots (dm_store d1) = db_snapshots (dm_store d)" "db_runs (dm_store d1) = db_runs (dm_store d)"
    "getOperation (op_id op) (dm_store d) \<noteq> None" by auto
  from Cons.IH [OF rs(1)] obtain g where g: "finishes (op_id ` set ops) g"
    "db_operations (dm_store d') = map g (db_operations (dm_store d1))" "db_snapshots (dm_store d') = db_snapshots (dm_store d1)"
    "db_runs (dm_store d') = db_runs (dm_store d1)" "dm_domainId d' = dm_domainId d1" "map rop_opId rs' = map op_id ops"
    "\<forall>op \<in> set ops. op_id op \<in> op_id ` set (db_operations (dm_store d1))" by auto
  have "db_operations (dm_store d') = map (\<lambda>r. g (if op_id r = op_id op then finishRow res r else r)) (db_operations (dm_store d))"
    by (simp add: g(2) one(3) updRow_def)
  moreover have "op_id ` set (db_operations (dm_store d1)) = op_id ` set (db_operations (dm_store d))"
    unfolding one(3) using map_key_updRow [of op_id "finishRow res" "op_id op" "db_operations (dm_store d)"]
    by (metis finishRow_simps(1) set_map)
  moreover have "op_id op \<in> op_id ` set (db_operations (dm_store d))"
    using one(6) by (auto simp: getOperation_def rowOf_None_iff)
  ultimately show ?case
    using finishes_step [OF g(1), of "op_id op" res] one g rs(2)
    by (intro exI [of _ "\<lambda>r. g (if op_id r = op_id op then finishRow res r else r)"]) auto
qed

end
