(* ===== verification/RecoveryProps.thy ===== *)
theory RecoveryProps
  imports RecoveryLaws
begin

text \<open>
  Properties of the recovery: it leaves nothing unfinished, releases only what is proved stopped,
  keeps the leases of what it isolates, and lets every run of the domain leave \<open>running\<close>.
\<close>

section \<open>The stages of a recovery\<close>

lemma recover_Inr:
  assumes "recover cancelled rv H now d = (Inr (recovered, services), d')"
  obtains d1 d2 m where
    "recoverOps cancelled rv H now (serviceInstances (getAllOperations (dm_domainId d) (dm_store d)))
       (getUnfinishedOperations (dm_domainId d) (dm_store d)) d = (Inr recovered, d1)"
    "forEach (getActiveRuns (dm_domainId d1) (dm_store d1)) (convergeRun now) d1 = (Inr (), d2)"
    "clearBackoff cancelled now (getPersistedResourceLeases (dm_domainId d2) (dm_store d2))
       (fold (addUnsettled (serviceInstances (getAllOperations (dm_domainId d) (dm_store d))) (dm_store d2))
          (map fst (serviceInstances (getAllOperations (dm_domainId d) (dm_store d))))
          (fold (addRecovered (getUnfinishedOperations (dm_domainId d) (dm_store d))) recovered [])) d2 = (Inr m, d')"
  using assms by (auto simp: recover_def Let_def andThen_Inr thenDo_Inr)

lemma rows_event_at:
  "preserves (\<lambda>d. sameRows s0 (dm_store d) \<and> dm_domainId d = i)
     (\<lambda>d. inStore (recordEvent (mkEvent (dm_domainId d) r o' ty p now)) d)"
  by (rule rows.inStore_keeps_at) (rule rows.event)

lemma rows_clearBackoff:
  "preserves (\<lambda>d. sameRows s0 (dm_store d) \<and> dm_domainId d = i) (clearBackoff cancelled now ls m)"
proof (induction ls arbitrary: m)
  case Nil
  show ?case unfolding clearBackoff.simps by (rule pres_ret)
next
  case (Cons l ls)
  have r: "preserves (\<lambda>d. sameRows s0 (dm_store d) \<and> dm_domainId d = i)
      (internalReleaseResources cancelled now (lease_operationId l) [lease_resourceId l])" by (rule rows.release)
  show ?case
    unfolding clearBackoff.simps by (intro pres_option pres_if pres_thenDo Cons.IH r rows_event_at)
qed

lemma forEach_Cons_Inr: "forEach (x # xs) f d = (Inr u, d') \<longleftrightarrow> (\<exists>d1 v. f x d = (Inr v, d1) \<and> forEach xs f d1 = (Inr u, d'))"
  by (auto simp: thenDo_Inr)

section \<open>Runs\<close>

lemma updateRunStatus_rows:
  assumes "updateRunStatus now runId st reason at s = (Inr u, t)"
  shows "db_operations t = db_operations s \<and> db_snapshots t = db_snapshots s \<and> db_leases t = db_leases s \<and>
    ((db_runs t = db_runs s \<and> (\<exists>r. getRun runId s = Some r \<and> terminalRun (run_status r)))
     \<or> (\<exists>f. db_runs t = updRow run_id runId f (db_runs s)
          \<and> (\<forall>r. run_id (f r) = run_id r \<and> run_domainId (f r) = run_domainId r \<and> run_status (f r) = st)))"
proof -
  let ?f = "\<lambda>r. r\<lparr>run_status := st, run_terminationReason := coalesce reason (run_terminationReason r),
            run_endedAt := coalesce at (run_endedAt r)\<rparr>"
  let ?s = "s\<lparr>db_runs := updRow run_id runId ?f (db_runs s)\<rparr>"
  have set: "setRunStatus runId st reason at s = (Inr (), ?s)" by (simp add: setRunStatus_def)
  have f: "run_id (?f r) = run_id r \<and> run_domainId (?f r) = run_domainId r \<and> run_status (?f r) = st" for r by simp
  show ?thesis
  proof (cases "getRun runId s")
    case None
    with assms set have "t = ?s" by (simp add: updateRunStatus_def atomically_Inr)
    then show ?thesis using f by auto
  next
    case (Some r)
    show ?thesis
    proof (cases "terminalRun (run_status r)")
      case True
      with assms Some have "t = s" by (auto simp: updateRunStatus_def atomically_Inr thenDo_Inr verify_Inr split: if_splits)
      with Some True show ?thesis by blast
    next
      case False
      with assms Some set obtain e where "recordEvent e ?s = (Inr u, t)"
        by (auto simp: updateRunStatus_def atomically_Inr thenDo_Inr verify_Inr)
      from recordEvent_Inr [OF this] have "db_runs t = db_runs ?s" "db_operations t = db_operations s" "db_snapshots t = db_snapshots s"
        "db_leases t = db_leases s"
        by auto
      then show ?thesis using f by auto
    qed
  qed
qed

text \<open>An operation of the run is not done.\<close>

definition waitsFor :: "Operation list \<Rightarrow> string \<Rightarrow> bool" where
  "waitsFor ops runId \<longleftrightarrow> (\<exists>op \<in> set ops. op_runId op = runId \<and> op_status op \<noteq> ODone)"

text \<open>Part way through the loop over the active runs, \<open>ids\<close> to go.\<close>

definition converging :: "store \<Rightarrow> string \<Rightarrow> string set \<Rightarrow> domain \<Rightarrow> bool" where
  "converging s0 i ids d \<longleftrightarrow> db_operations (dm_store d) = db_operations s0 \<and> db_snapshots (dm_store d) = db_snapshots s0
     \<and> dm_domainId d = i \<and> distinct (map run_id (db_runs (dm_store d)))
     \<and> (\<forall>r \<in> set (db_runs (dm_store d)). run_domainId r = i \<longrightarrow> run_status r = RRunning \<longrightarrow>
          run_id r \<in> ids \<or> waitsFor (db_operations s0) (run_id r))"

lemma convergeRun_converging:
  assumes "converging s0 i (insert (run_id run) ids) d" and "convergeRun now run d = (Inr u, d')"
  shows "converging s0 i ids d'"
proof (cases "list_ex (\<lambda>op. op_status op \<noteq> ODone) (getOperationsByRun (run_id run) (dm_store d))")
  case True
  then have "waitsFor (db_operations s0) (run_id run)"
    using assms(1) by (auto simp: waitsFor_def getOperationsByRun_def list_ex_iff converging_def)
  with True assms show ?thesis by (auto simp: convergeRun_def converging_def)
next
  case False
  then obtain st reason s where s: "updateRunStatus now (run_id run) st reason (Some now) (dm_store d) = (Inr u, s)"
    and d': "d' = d\<lparr>dm_store := s\<rparr>" and st: "st \<noteq> RRunning"
    using assms(2) by (auto simp: convergeRun_def Let_def inStore_Inr split: if_splits)
  from updateRunStatus_rows [OF s] show ?thesis
  proof (elim conjE disjE exE)
    fix r assume keep: "db_operations s = db_operations (dm_store d)" "db_snapshots s = db_snapshots (dm_store d)"
      "db_runs s = db_runs (dm_store d)" and r: "getRun (run_id run) (dm_store d) = Some r" "terminalRun (run_status r)"
    have "run_status x \<noteq> RRunning" if "x \<in> set (db_runs (dm_store d))" "run_id x = run_id run" for x
      using rowOf_distinct [of run_id "db_runs (dm_store d)" x] that assms(1) r
      by (auto simp: converging_def getRun_def terminalRun_def)
    with assms(1) keep d' show ?thesis by (auto simp: converging_def)
  next
    fix f assume keep: "db_operations s = db_operations (dm_store d)" "db_snapshots s = db_snapshots (dm_store d)"
      and f: "db_runs s = updRow run_id (run_id run) f (db_runs (dm_store d))"
        "\<forall>r. run_id (f r) = run_id r \<and> run_domainId (f r) = run_domainId r \<and> run_status (f r) = st"
    have "map run_id (db_runs s) = map run_id (db_runs (dm_store d))"
      unfolding f(1) by (rule map_key_updRow) (simp add: f(2))
    with assms(1) keep d' f st show ?thesis by (fastforce simp: converging_def set_updRow)
  qed
qed

lemma convergeRuns:
  assumes "converging s0 i (run_id ` set runs) d" and "forEach runs (convergeRun now) d = (Inr u, d')"
  shows "converging s0 i {} d'"
  using assms
proof (induction runs arbitrary: d)
  case Nil
  then show ?case by simp
next
  case (Cons run runs)
  from Cons.prems(2) obtain d1 v where "convergeRun now run d = (Inr v, d1)" "forEach runs (convergeRun now) d1 = (Inr u, d')"
    unfolding forEach_Cons_Inr by blast
  with Cons.prems(1) convergeRun_converging [of s0 i run "run_id ` set runs" d] Cons.IH show ?case by auto
qed

text \<open>Everything a recovery leaves behind, in one place.\<close>

lemma recover_outcome:
  assumes run: "recover cancelled rv H now d = (Inr (recovered, services), d')"
    and dist: "distinct (map run_id (db_runs (dm_store d)))"
  shows "\<exists>g. finishes (op_id ` set (getUnfinishedOperations (dm_domainId d) (dm_store d))) g
    \<and> db_operations (dm_store d') = map g (db_operations (dm_store d)) \<and> dm_domainId d' = dm_domainId d
    \<and> map rop_opId recovered = map op_id (getUnfinishedOperations (dm_domainId d) (dm_store d))
    \<and> (\<forall>r \<in> set (db_runs (dm_store d')). run_domainId r = dm_domainId d \<longrightarrow> run_status r = RRunning \<longrightarrow>
         waitsFor (db_operations (dm_store d')) (run_id r))"
proof -
  let ?i = "dm_domainId d"
  obtain d1 d2 m where ops: "recoverOps cancelled rv H now (serviceInstances (getAllOperations ?i (dm_store d)))
       (getUnfinishedOperations ?i (dm_store d)) d = (Inr recovered, d1)"
    and runs: "forEach (getActiveRuns (dm_domainId d1) (dm_store d1)) (convergeRun now) d1 = (Inr (), d2)"
    and clear: "\<exists>ls m0. clearBackoff cancelled now ls m0 d2 = (Inr m, d')"
    by (rule recover_Inr [OF run]) blast
  from recoverOps_Inr [OF ops] obtain g where g: "finishes (op_id ` set (getUnfinishedOperations ?i (dm_store d))) g"
    "db_operations (dm_store d1) = map g (db_operations (dm_store d))" "db_runs (dm_store d1) = db_runs (dm_store d)"
    "dm_domainId d1 = ?i" "map rop_opId recovered = map op_id (getUnfinishedOperations ?i (dm_store d))" by blast
  have "converging (dm_store d1) ?i (run_id ` set (getActiveRuns (dm_domainId d1) (dm_store d1))) d1"
    using dist g by (auto simp: converging_def getActiveRuns_def)
  from convergeRuns [OF this runs] have c: "converging (dm_store d1) ?i {} d2" .
  from clear obtain ls m0 where m: "clearBackoff cancelled now ls m0 d2 = (Inr m, d')" by blast
  have "sameRows (dm_store d2) (dm_store d') \<and> dm_domainId d' = ?i"
    by (rule preservesD [OF rows_clearBackoff _ m]) (use c in \<open>simp add: sameRows_def converging_def\<close>)
  with c g show ?thesis
    by (intro exI [of _ g]) (auto simp: sameRows_def converging_def)
qed

text \<open>C13: Recovery settles everything. A recovery that returns leaves no operation of the domain
  unfinished: every operation that was is done and holds a result, in the order reported, and no
  other row changes. No run of the domain stays running unless an operation of it was never begun.\<close>

theorem recovery_settles_everything:
  assumes "recover cancelled rv H now d = (Inr (recovered, services), d')"
    and "distinct (map run_id (db_runs (dm_store d)))"
  shows "getUnfinishedOperations (dm_domainId d) (dm_store d') = []
    \<and> map rop_opId recovered = map op_id (getUnfinishedOperations (dm_domainId d) (dm_store d))
    \<and> (\<exists>g. db_operations (dm_store d') = map g (db_operations (dm_store d)) \<and>
        (\<forall>r. op_id (g r) = op_id r \<and> (if op_id r \<in> set (map rop_opId recovered)
           then op_status (g r) = ODone \<and> op_result (g r) \<noteq> None else g r = r)))
    \<and> (\<forall>r \<in> set (getActiveRuns (dm_domainId d) (dm_store d')). \<exists>op \<in> set (getOperationsByRun (run_id r) (dm_store d')).
        op_status op \<noteq> ODone)"
proof -
  let ?u = "getUnfinishedOperations (dm_domainId d) (dm_store d)"
  from recover_outcome [OF assms] obtain g where g: "finishes (op_id ` set ?u) g"
    "db_operations (dm_store d') = map g (db_operations (dm_store d))"
    "map rop_opId recovered = map op_id ?u"
    "\<forall>r \<in> set (db_runs (dm_store d')). run_domainId r = dm_domainId d \<longrightarrow> run_status r = RRunning \<longrightarrow>
         waitsFor (db_operations (dm_store d')) (run_id r)" by blast
  have "\<not> (op_domainId (g r) = dm_domainId d \<and> unfinished (g r))" if r: "r \<in> set (db_operations (dm_store d))" for r
  proof
    assume u: "op_domainId (g r) = dm_domainId d \<and> unfinished (g r)"
    then have "op_id r \<notin> op_id ` set ?u" using g(1) by (auto simp: finishes_def unfinished_def)
    with g(1) have "g r = r" by (simp add: finishes_def)
    with u r have "r \<in> set ?u" by (simp add: getUnfinishedOperations_def)
    with \<open>op_id r \<notin> op_id ` set ?u\<close> show False by blast
  qed
  then have "getUnfinishedOperations (dm_domainId d) (dm_store d') = []"
    by (auto simp: getUnfinishedOperations_def g(2) filter_empty_conv)
  moreover have "op_id (g r) = op_id r \<and> (if op_id r \<in> set (map rop_opId recovered)
       then op_status (g r) = ODone \<and> op_result (g r) \<noteq> None else g r = r)" for r
    using g(1) unfolding g(3) by (simp add: finishes_def)
  moreover have "\<exists>op \<in> set (getOperationsByRun (run_id r) (dm_store d')). op_status op \<noteq> ODone"
    if "r \<in> set (getActiveRuns (dm_domainId d) (dm_store d'))" for r
    using g(4) that by (auto simp: getActiveRuns_def getOperationsByRun_def waitsFor_def)
  ultimately show ?thesis using g(2,3) by blast
qed


text \<open>A recovery of the busy domain by a driver that knows nothing: \<open>op1\<close> has no recorded process
  and no gate, so it is isolated.\<close>

definition demoRecDriver :: recDriver where
  "demoRecDriver = \<lparr>rv_verifyIdentity = (\<lambda>_. Inr CannotDetermine), rv_terminate = (\<lambda>_. Inl (DriverFailure ''t'')),
     rv_settleTree = None, rv_readBootId = None, rv_getGroupEvidence = None, rv_terminateGroup = None,
     rv_isGroupAlive = (\<lambda>_. False), rv_fingerprint = (\<lambda>_ _. Inl (DriverFailure ''f''))\<rparr>"

lemma demo_recover: "fst (recover (\<lambda>_. False) demoRecDriver demoHash 20 demoBusy)
    = Inr ([\<lparr>rop_opId = ''op1'', rop_action = IsolatedIndeterminate, rop_released = False\<rparr>], [])"
  by code_simp

lemma demo_recover_run: "recover (\<lambda>_. False) demoRecDriver demoHash 20 demoBusy
    = (Inr ([\<lparr>rop_opId = ''op1'', rop_action = IsolatedIndeterminate, rop_released = False\<rparr>], []),
       snd (recover (\<lambda>_. False) demoRecDriver demoHash 20 demoBusy))"
  by (metis demo_recover prod.collapse)

theorem recovery_settles_everything_witness:
  "getUnfinishedOperations ''d'' (dm_store (snd (recover (\<lambda>_. False) demoRecDriver demoHash 20 demoBusy))) = []"
proof -
  have "distinct (map run_id (db_runs (dm_store demoBusy)))" by (simp add: demoBusy_def demo4_def demo3_def demoRun_def)
  from recovery_settles_everything [OF demo_recover_run this]
  have "getUnfinishedOperations (dm_domainId demoBusy) (dm_store (snd (recover (\<lambda>_. False) demoRecDriver demoHash 20 demoBusy))) = []"
    by (rule conjunct1)
  moreover have "dm_domainId demoBusy = ''d''" by (simp add: demoBusy_def demoDomain_def)
  ultimately show ?thesis by (simp only:)
qed

section \<open>Release needs proof\<close>

text \<open>What proves that nothing of an operation runs. \<open>groupGone\<close>: the process group is empty, or it is
  the operation's own group (same boot, no member older than the operation) and was stopped.\<close>

definition confirmed :: "KError + StopProcessResult \<Rightarrow> bool" where
  "confirmed a \<longleftrightarrow> (\<exists>r. a = Inr r \<and> stp_stopped r = StConfirmedStopped)"

definition groupGone :: "recDriver \<Rightarrow> ProcessIdentity \<Rightarrow> bool" where
  "groupGone rv i \<longleftrightarrow> (\<forall>g. pgid i = Some g \<longrightarrow> rv_isGroupAlive rv g \<longrightarrow>
     otherBoot rv i = Inr None \<and> reusedGroup rv i g = Inr False \<and> (\<exists>f. rv_terminateGroup rv = Some f \<and> confirmed (f g)))"

definition cgroupGone :: "recDriver \<Rightarrow> ProcessIdentity \<Rightarrow> bool" where
  "cgroupGone rv i \<longleftrightarrow> (\<exists>f. rv_settleTree rv = Some f \<and> (f i = Inr TreeEmpty \<or> confirmed (rv_terminate rv i)))"

definition provenStopped :: "recDriver \<Rightarrow> store \<Rightarrow> Operation \<Rightarrow> bool" where
  "provenStopped rv s op \<longleftrightarrow> (case op_kind op of
     KSnapshot \<Rightarrow> True
   | KRollback \<Rightarrow> (\<exists>sn roots. sn \<in> set (db_snapshots s) \<and> roots \<noteq> [] \<and> rv_fingerprint rv roots sn = Inr (snap_treeFingerprint sn))
   | _ \<Rightarrow> (case op_processIdentity op of
       None \<Rightarrow> neverReleased op
     | Some i \<Rightarrow> (rv_verifyIdentity rv i = Inr IsOriginalProcess \<and> confirmed (rv_terminate rv i))
         \<or> (rv_verifyIdentity rv i = Inr NotOriginalProcess
            \<and> (if truthy (cgroupPath i) \<noteq> None \<and> originalCgroup op then cgroupGone rv i
               else groupGone rv i \<and> (truthy (cgroupPath i) = None \<or> op_recoveryEvidence op \<noteq> None)))))"

lemma isolatedBy_simps [simp]: "stl_action (isolatedBy a b c e f) = IsolatedIndeterminate"
  "isIndeterminate (stl_result (isolatedBy a b c e f))"
  by (simp_all add: isolatedBy_def)

lemma isolateDead_eq [simp]: "isolateDead now i a b \<noteq> Inr x"
  by (simp add: isolateDead_def)

lemma groupTree_Inr: "groupTree rv now i g = Inr (Inr x) \<Longrightarrow> otherBoot rv i = Inr None \<and> reusedGroup rv i g = Inr False
    \<and> (\<exists>f. rv_terminateGroup rv = Some f \<and> confirmed (f g))"
  by (auto simp: groupTree_def confirmed_def split: sum.splits option.splits bool.splits if_splits)

lemma cgroupTree_Inr: "cgroupTree rv now i c = Inr (Inr x) \<Longrightarrow> cgroupGone rv i"
  by (auto simp: cgroupTree_def cgroupGone_def confirmed_def split: sum.splits option.splits TreeStatus.splits if_splits)

lemma deadTree_Inr:
  assumes "deadTree rv now op i = Inr (Inr x)"
  shows "if truthy (cgroupPath i) \<noteq> None \<and> originalCgroup op then cgroupGone rv i
    else groupGone rv i \<and> (truthy (cgroupPath i) = None \<or> op_recoveryEvidence op \<noteq> None)"
  using assms groupTree_Inr [of rv now i _ x] cgroupTree_Inr [of rv now i _ x]
  by (auto simp: deadTree_def groupGone_def split: option.splits if_splits)

lemma treeVerdict_isolates:
  "deadTree rv now op i = Inr (Inl st) \<Longrightarrow> stl_action st = IsolatedIndeterminate \<and> isIndeterminate (stl_result st)"
  by (auto simp: deadTree_def cgroupTree_def groupTree_def isolateDead_def
      split: option.splits if_splits sum.splits TreeStatus.splits prod.splits bool.splits)

lemma rollbackMatches_Some: "rollbackMatches rv roots (Some sn) \<longleftrightarrow> roots \<noteq> [] \<and> rv_fingerprint rv roots sn = Inr (snap_treeFingerprint sn)"
  by (simp add: rollbackMatches_def)

lemma settleRollback_proven:
  assumes "settleRollback rv now s op = st"
  shows "(stl_action st = IsolatedIndeterminate \<longleftrightarrow> isIndeterminate (stl_result st))
    \<and> (stl_action st \<noteq> IsolatedIndeterminate \<longrightarrow> (\<exists>sn roots. sn \<in> set (db_snapshots s) \<and> roots \<noteq> []
         \<and> rv_fingerprint rv roots sn = Inr (snap_treeFingerprint sn)))"
proof -
  define sid where "sid = (case truthy (op_outputRef op) of Some r \<Rightarrow> r | None \<Rightarrow> dropPrefix ''rollback:'' (op_name op))"
  show ?thesis
  proof (cases "getSnapshot sid s")
    case None
    with assms show ?thesis by (auto simp: settleRollback_def sid_def [symmetric] Let_def)
  next
    case (Some sn)
    then have "sn \<in> set (db_snapshots s)" by (auto simp: getSnapshot_def dest: rowOf_mem)
    with assms Some show ?thesis
      by (auto simp: settleRollback_def sid_def [symmetric] Let_def rollbackMatches_Some split: if_splits)
  qed
qed

lemma settleProcess_proven:
  assumes "settleProcess rv now op = Inr st"
  shows "(stl_action st = IsolatedIndeterminate \<longleftrightarrow> isIndeterminate (stl_result st))
    \<and> (stl_action st \<noteq> IsolatedIndeterminate \<longrightarrow> (case op_processIdentity op of
       None \<Rightarrow> neverReleased op
     | Some i \<Rightarrow> (rv_verifyIdentity rv i = Inr IsOriginalProcess \<and> confirmed (rv_terminate rv i))
         \<or> (rv_verifyIdentity rv i = Inr NotOriginalProcess
            \<and> (if truthy (cgroupPath i) \<noteq> None \<and> originalCgroup op then cgroupGone rv i
               else groupGone rv i \<and> (truthy (cgroupPath i) = None \<or> op_recoveryEvidence op \<noteq> None)))))"
proof (cases "op_processIdentity op")
  case None
  with assms show ?thesis by (auto simp: settleProcess_def split: if_splits)
next
  case (Some i)
  consider "rv_verifyIdentity rv i = Inr IsOriginalProcess" "settleAlive rv now i = Inr st"
    | "rv_verifyIdentity rv i = Inr NotOriginalProcess" "settleDead rv now op i = Inr st"
    | "stl_action st = IsolatedIndeterminate" "isIndeterminate (stl_result st)"
    using assms Some by (auto simp: settleProcess_def split: sum.splits IdentityVerificationResult.splits)
  then show ?thesis
  proof cases
    case 1
    with Some show ?thesis by (auto simp: settleAlive_def confirmed_def split: sum.splits if_splits)
  next
    case 2
    then obtain v where v: "deadTree rv now op i = Inr v" by (auto simp: settleDead_def split: sum.splits)
    show ?thesis
    proof (cases v)
      case (Inl iso)
      with 2 v treeVerdict_isolates [of rv now op i iso] show ?thesis by (simp add: settleDead_def)
    next
      case (Inr x)
      with v deadTree_Inr [of rv now op i x] 2 Some show ?thesis
        by (cases x) (auto simp: settleDead_def simp del: if_split)
    qed
  next
    case 3
    then show ?thesis by simp
  qed
qed

lemma settleOperation_proven:
  assumes "settleOperation rv H now s op = Inr st"
  shows "(stl_action st = IsolatedIndeterminate \<longleftrightarrow> isIndeterminate (stl_result st))
    \<and> (stl_action st \<noteq> IsolatedIndeterminate \<longrightarrow> provenStopped rv s op)"
proof (cases "configFault H op")
  case (Some m)
  with assms show ?thesis by (auto simp: settleOperation_def)
next
  case None
  consider "op_kind op = KRollback" | "op_kind op = KSnapshot" | "op_kind op \<noteq> KRollback" "op_kind op \<noteq> KSnapshot" by blast
  then show ?thesis
  proof cases
    case 1
    with None assms settleRollback_proven [of rv now s op st] show ?thesis
      by (simp add: settleOperation_def provenStopped_def)
  next
    case 2
    with None assms show ?thesis by (auto simp: settleOperation_def provenStopped_def)
  next
    case 3
    with None assms have "settleProcess rv now op = Inr st" by (simp add: settleOperation_def)
    from settleProcess_proven [OF this] 3 show ?thesis
      by (cases "op_kind op") (simp_all add: provenStopped_def)
  qed
qed


lemma provenStopped_snapshots: "db_snapshots s = db_snapshots s' \<Longrightarrow> provenStopped rv s op = provenStopped rv s' op"
  unfolding provenStopped_def by (simp split: OperationKind.split)

text \<open>The report of a pass, entry by entry.\<close>

definition reports :: "recDriver \<Rightarrow> store \<Rightarrow> Operation \<Rightarrow> RecoveredOp \<Rightarrow> bool" where
  "reports rv s op r \<longleftrightarrow> rop_opId r = op_id op \<and> (rop_released r \<longleftrightarrow> rop_action r \<noteq> IsolatedIndeterminate)
     \<and> (rop_released r \<longrightarrow> provenStopped rv s op)"

lemma recoverOps_reports:
  assumes "recoverOps cancelled rv H now instances ops d = (Inr rs, d')" and "db_snapshots (dm_store d) = db_snapshots s"
  shows "list_all2 (reports rv s) ops rs"
  using assms
proof (induction ops arbitrary: d rs)
  case Nil
  then show ?case by simp
next
  case (Cons op ops)
  from Cons.prems obtain r d1 rs' where r: "recoverOp cancelled rv H now instances op d = (Inr r, d1)"
    and rs: "recoverOps cancelled rv H now instances ops d1 = (Inr rs', d')" "rs = r # rs'"
    by (auto simp: andThen_Inr)
  from recoverOp_Inr [OF r] obtain st where st: "settleOperation rv H now (dm_store d) op = Inr st"
    "r = \<lparr>rop_opId = op_id op, rop_action = stl_action st, rop_released = (stl_action st \<noteq> IsolatedIndeterminate)\<rparr>"
    "db_snapshots (dm_store d1) = db_snapshots (dm_store d)" by blast
  from settleOperation_proven [OF st(1)] provenStopped_snapshots [OF Cons.prems(2), of rv op]
  have "reports rv s op r" by (simp add: reports_def st(2))
  with Cons.IH [OF rs(1)] st(3) Cons.prems(2) rs(2) show ?case by simp
qed

section \<open>What is isolated keeps its leases\<close>

definition holdsLeases :: "string \<Rightarrow> ResourceLease set \<Rightarrow> domain \<Rightarrow> bool" where
  "holdsLeases x L d \<longleftrightarrow> {l \<in> L. lease_operationId l = x} \<subseteq> set (db_leases (dm_store d))"

lemma holds_release:
  assumes "opId \<noteq> x"
  shows "preserves (holdsLeases x L) (internalReleaseResources cancelled now opId rs)"
proof (rule preservesI)
  fix d assume "holdsLeases x L d"
  then have "keepsLeases opId x L (dm_store d) \<and> dm_domainId d = dm_domainId d"
    by (simp add: keepsLeases_def holdsLeases_def)
  from preserves_snd [OF others.release this]
  show "holdsLeases x L (snd (internalReleaseResources cancelled now opId rs d))"
    using assms by (simp add: keepsLeases_def holdsLeases_def)
qed

lemma holds_inStore:
  assumes "\<And>s. set (db_leases s) \<subseteq> set (db_leases (snd (m s)))"
  shows "preserves (holdsLeases x L) (inStore m)"
proof (rule preservesI)
  fix d assume "holdsLeases x L d"
  moreover have "dm_store (snd (inStore m d)) = snd (m (dm_store d))" by (simp add: inStore_def split: prod.split)
  ultimately show "holdsLeases x L (snd (inStore m d))"
    using assms [of "dm_store d"] by (auto simp: holdsLeases_def)
qed

lemma leases_recordEvent [simp]: "db_leases (snd (recordEvent e s)) = db_leases s"
  by (cases rule: recordEvent_cases [of e s]) (simp_all add: recordEvent_def andThen_def)

lemma holds_event_at: "preserves (holdsLeases x L) (\<lambda>d. inStore (recordEvent (mkEvent (dm_domainId d) r o' ty p now)) d)"
proof (rule preservesI)
  fix d assume "holdsLeases x L d"
  then show "holdsLeases x L (snd (inStore (recordEvent (mkEvent (dm_domainId d) r o' ty p now)) d))"
    by (rule preserves_snd [OF holds_inStore, rotated]) simp
qed

text \<open>No operation has the name of a service.\<close>

definition opNamed :: "string \<Rightarrow> bool" where
  "opNamed x \<longleftrightarrow> \<not> startsWith x ''service:''"

lemma opNamed_service: "opNamed x \<Longrightarrow> ''service:'' @ sid \<noteq> x"
  by (auto simp: opNamed_def)

lemma opNamed_backoff: "opNamed x \<Longrightarrow> backoffService y = Some sid \<Longrightarrow> y \<noteq> x"
  by (auto simp: opNamed_def backoffService_def split: if_splits)

lemma holds_serviceStopped: "preserves (holdsLeases x L) (serviceStopped now op action)"
  unfolding serviceStopped_def by (intro pres_whenDo holds_event_at)

lemma holds_recoverOp:
  assumes "recoverOp cancelled rv H now instances op d = (Inr r, d')" and "holdsLeases x L d" and "opNamed x"
    and "op_id op = x \<longrightarrow> \<not> rop_released r"
  shows "holdsLeases x L d'"
proof -
  from assms(1) obtain st where run: "applySettlement cancelled now instances op st d = (Inr r, d')"
    by (auto simp: recoverOp_def andThen_Inr)
  let ?rel = "stl_action st \<noteq> IsolatedIndeterminate"
  from run obtain s1 d2 where s1: "recordOperationResult (op_id op) (stl_result st) ?rel (dm_store d) = (Inr (), s1)"
    and d2: "whenDo ?rel (releaseOpAndService cancelled now instances op) (d\<lparr>dm_store := s1\<rparr>) = (Inr (), d2)"
    and d3: "whenDo (stl_notifyService st) (serviceStopped now op (stl_action st)) d2 = (Inr (), d')"
    and r: "rop_released r = ?rel"
    unfolding applySettlement_def Let_def
    by (auto simp: thenDo_Inr inStore_Inr simp del: whenDo_run)
  have "db_leases s1 = leasesAfter (op_id op) (stl_result st) ?rel (db_leases (dm_store d))"
    using recordResult_Inr [OF s1] by auto
  then have h1: "holdsLeases x L (d\<lparr>dm_store := s1\<rparr>)"
    using assms(2,4) r by (auto simp: holdsLeases_def leasesAfter_def)
  have "holdsLeases x L d2"
  proof (cases ?rel)
    case True
    then have "op_id op \<noteq> x" using assms(4) r by blast
    then have "preserves (holdsLeases x L) (releaseOpAndService cancelled now instances op)"
      unfolding releaseOpAndService_def
      by (intro pres_thenDo pres_whenDo_at holds_release opNamed_service [OF assms(3)])
    from whenDo_rows [OF this d2 h1] show ?thesis .
  next
    case False
    with d2 h1 show ?thesis by simp
  qed
  then show ?thesis by (rule whenDo_rows [OF holds_serviceStopped d3])
qed

lemma holds_recoverOps:
  assumes "recoverOps cancelled rv H now instances ops d = (Inr rs, d')" and "holdsLeases x L d" and "opNamed x"
    and "\<forall>(op, r) \<in> set (zip ops rs). op_id op = x \<longrightarrow> \<not> rop_released r"
  shows "holdsLeases x L d'"
  using assms(1,2,4)
proof (induction ops arbitrary: d rs)
  case (Cons op ops)
  from Cons.prems obtain r d1 rs' where r: "recoverOp cancelled rv H now instances op d = (Inr r, d1)"
    and rs: "recoverOps cancelled rv H now instances ops d1 = (Inr rs', d')" "rs = r # rs'"
    by (auto simp: andThen_Inr)
  have "holdsLeases x L d1"
    by (rule holds_recoverOp [OF r Cons.prems(2) assms(3)]) (use Cons.prems(3) rs(2) in simp)
  then show ?case by (rule Cons.IH [OF rs(1)]) (use Cons.prems(3) rs(2) in simp)
qed simp

lemma holds_convergeRuns:
  "forEach runs (convergeRun now) d = (Inr u, d') \<Longrightarrow> holdsLeases x L d \<Longrightarrow> holdsLeases x L d'"
proof (induction runs arbitrary: d)
  case (Cons run runs)
  from Cons.prems(1) obtain d1 v where d1: "convergeRun now run d = (Inr v, d1)" "forEach runs (convergeRun now) d1 = (Inr u, d')"
    unfolding forEach_Cons_Inr by blast
  have "db_leases (dm_store d1) = db_leases (dm_store d)"
    using d1(1) updateRunStatus_rows by (auto simp: convergeRun_def Let_def inStore_Inr split: if_splits)
  with Cons.IH [OF d1(2)] Cons.prems(2) show ?case by (simp add: holdsLeases_def)
qed simp

lemma holds_clearBackoff: "opNamed x \<Longrightarrow> preserves (holdsLeases x L) (clearBackoff cancelled now ls m)"
proof (induction ls arbitrary: m)
  case Nil
  show ?case unfolding clearBackoff.simps by (rule pres_ret)
next
  case (Cons l ls)
  show ?case
    unfolding clearBackoff.simps
    by (intro pres_option pres_if pres_thenDo Cons.IH [OF Cons.prems] holds_event_at
        holds_release opNamed_backoff [OF Cons.prems] pres_ret)
qed




end
