(* ===== verification/Utf.thy ===== *)
theory Utf
  imports Main "HOL-Library.Word"
begin

text \<open>
  JavaScript strings and their UTF-8 form, as \<open>Buffer.from(s, 'utf8')\<close> writes it and
  \<open>new TextDecoder('utf-8', { fatal: true })\<close> reads it back (\<open>src/src/isa/codec.ts\<close>). A string is
  the list of its 16-bit code units; a surrogate without its partner is written as U+FFFD, and the
  decoder drops a byte order mark at the start of its input.
\<close>

type_synonym ustr = "16 word list"
type_synonym bytes = "8 word list"

definition byteOf :: "nat \<Rightarrow> 8 word" where
  "byteOf n = of_nat n"

definition unitOf :: "nat \<Rightarrow> 16 word" where
  "unitOf n = of_nat n"

section \<open>Code points\<close>

definition highSur :: "16 word \<Rightarrow> bool" where
  "highSur u \<longleftrightarrow> 0xD800 \<le> unat u \<and> unat u < 0xDC00"

definition lowSur :: "16 word \<Rightarrow> bool" where
  "lowSur u \<longleftrightarrow> 0xDC00 \<le> unat u \<and> unat u < 0xE000"

definition joinSur :: "16 word \<Rightarrow> 16 word \<Rightarrow> nat" where
  "joinSur u v = 0x10000 + (unat u - 0xD800) * 0x400 + (unat v - 0xDC00)"

fun codePoints :: "ustr \<Rightarrow> nat list" where
  "codePoints [] = []"
| "codePoints [u] = [if highSur u \<or> lowSur u then 0xFFFD else unat u]"
| "codePoints (u # v # us) =
     (if highSur u \<and> lowSur v then joinSur u v # codePoints us
      else (if highSur u \<or> lowSur u then 0xFFFD else unat u) # codePoints (v # us))"

text \<open>\<open>s.isWellFormed()\<close>: no surrogate without its partner.\<close>

fun isWellFormed :: "ustr \<Rightarrow> bool" where
  "isWellFormed [] = True"
| "isWellFormed [u] = (\<not> highSur u \<and> \<not> lowSur u)"
| "isWellFormed (u # v # us) =
     (if highSur u \<and> lowSur v then isWellFormed us
      else \<not> highSur u \<and> \<not> lowSur u \<and> isWellFormed (v # us))"

definition scalar :: "nat \<Rightarrow> bool" where
  "scalar c \<longleftrightarrow> c < 0xD800 \<or> 0xE000 \<le> c \<and> c < 0x110000"

definition units :: "nat \<Rightarrow> ustr" where
  "units c = (if c < 0x10000 then [unitOf c]
     else [unitOf (0xD800 + (c - 0x10000) div 0x400), unitOf (0xDC00 + (c - 0x10000) mod 0x400)])"

section \<open>Bytes\<close>

definition utf8 :: "nat \<Rightarrow> bytes" where
  "utf8 c = (if c < 0x80 then [byteOf c]
     else if c < 0x800 then [byteOf (0xC0 + c div 64), byteOf (0x80 + c mod 64)]
     else if c < 0x10000 then [byteOf (0xE0 + c div 4096), byteOf (0x80 + c div 64 mod 64), byteOf (0x80 + c mod 64)]
     else [byteOf (0xF0 + c div 262144), byteOf (0x80 + c div 4096 mod 64), byteOf (0x80 + c div 64 mod 64),
           byteOf (0x80 + c mod 64)])"

definition toUtf8 :: "ustr \<Rightarrow> bytes" where
  "toUtf8 s = concat (map utf8 (codePoints s))"

text \<open>A continuation byte; a decoded value is accepted when it is a scalar value and not written in
  more bytes than it needs.\<close>

definition contByte :: "8 word \<Rightarrow> nat option" where
  "contByte b = (if 0x80 \<le> unat b \<and> unat b < 0xC0 then Some (unat b - 0x80) else None)"

definition accept :: "nat \<Rightarrow> nat \<Rightarrow> nat option" where
  "accept least c = (if least \<le> c \<and> scalar c then Some c else None)"

definition nextPoint :: "bytes \<Rightarrow> (nat \<times> bytes) option" where
  "nextPoint bs = (case bs of [] \<Rightarrow> None | b # r \<Rightarrow>
     if unat b < 0x80 then Some (unat b, r)
     else if unat b < 0xC0 then None
     else if unat b < 0xE0 then (case r of b1 # r' \<Rightarrow>
         (case contByte b1 of Some x \<Rightarrow>
            map_option (\<lambda>c. (c, r')) (accept 0x80 ((unat b - 0xC0) * 64 + x)) | None \<Rightarrow> None) | _ \<Rightarrow> None)
     else if unat b < 0xF0 then (case r of b1 # b2 # r' \<Rightarrow>
         (case (contByte b1, contByte b2) of (Some x, Some y) \<Rightarrow>
            map_option (\<lambda>c. (c, r')) (accept 0x800 ((unat b - 0xE0) * 4096 + x * 64 + y)) | _ \<Rightarrow> None) | _ \<Rightarrow> None)
     else if unat b < 0xF8 then (case r of b1 # b2 # b3 # r' \<Rightarrow>
         (case (contByte b1, contByte b2, contByte b3) of (Some x, Some y, Some z) \<Rightarrow>
            map_option (\<lambda>c. (c, r')) (accept 0x10000 ((unat b - 0xF0) * 262144 + x * 4096 + y * 64 + z))
          | _ \<Rightarrow> None) | _ \<Rightarrow> None)
     else None)"

lemma nextPoint_shorter: "nextPoint bs = Some (c, r) \<Longrightarrow> length r < length bs"
  by (auto simp: nextPoint_def split: list.splits option.splits if_splits prod.splits)

function readPoints :: "bytes \<Rightarrow> nat list option" where
  "readPoints bs = (if bs = [] then Some [] else
     (case nextPoint bs of None \<Rightarrow> None | Some (c, r) \<Rightarrow> map_option (Cons c) (readPoints r)))"
  by pat_completeness auto
termination by (relation "measure length") (auto dest: nextPoint_shorter)

declare readPoints.simps [simp del]

definition dropBom :: "bytes \<Rightarrow> bytes" where
  "dropBom bs = (if take 3 bs = [0xEF, 0xBB, 0xBF] then drop 3 bs else bs)"

definition fromUtf8 :: "bytes \<Rightarrow> ustr option" where
  "fromUtf8 bs = map_option (\<lambda>cs. concat (map units cs)) (readPoints (dropBom bs))"

section \<open>Round trip\<close>

lemma readPoints_Nil [simp]: "readPoints [] = Some []"
  by (simp add: readPoints.simps)

lemma unat_byte [simp]: "n < 256 \<Longrightarrow> unat (byteOf n) = n"
  by (simp add: unat_of_nat byteOf_def)

lemma unat_unit [simp]: "n < 65536 \<Longrightarrow> unat (unitOf n) = n"
  by (simp add: unat_of_nat unitOf_def)

lemma unat_byte_less: "unat (b :: 8 word) < 256"
  proof -
  have "unat b < 2 ^ LENGTH(8)" by (rule unsigned_less)
  then show ?thesis by simp
qed

lemma unat_unit_less: "unat (u :: 16 word) < 65536"
  proof -
  have "unat u < 2 ^ LENGTH(16)" by (rule unsigned_less)
  then show ?thesis by simp
qed

lemma unitOf_unat [simp]: "unitOf (unat u) = u"
  by (simp add: unitOf_def)

lemma byteOf_unat [simp]: "byteOf (unat b) = b"
  by (simp add: byteOf_def)

lemma contByte_of [simp]: "x < 64 \<Longrightarrow> contByte (byteOf (0x80 + x)) = Some x"
  by (simp add: contByte_def)

lemma split64: "(c :: nat) div 64 * 64 + c mod 64 = c"
  by simp

lemma split4096: "(c :: nat) div 4096 * 4096 + c div 64 mod 64 * 64 + c mod 64 = c"
proof -
  have "c div 4096 = c div 64 div 64" by (simp add: div_mult2_eq [symmetric])
  then show ?thesis using div_mult_mod_eq [of "c div 64" 64] div_mult_mod_eq [of c 64] by linarith
qed

lemma split262144:
  "(c :: nat) div 262144 * 262144 + c div 4096 mod 64 * 4096 + c div 64 mod 64 * 64 + c mod 64 = c"
proof -
  have "c div 262144 = c div 4096 div 64" by (simp add: div_mult2_eq [symmetric])
  then show ?thesis using div_mult_mod_eq [of "c div 4096" 64] split4096 [of c] by linarith
qed

lemma nextPoint_utf8: "scalar c \<Longrightarrow> nextPoint (utf8 c @ r) = Some (c, r)"
proof -
  assume c: "scalar c"
  then have top: "c < 0x110000" by (auto simp: scalar_def)
  consider "c < 0x80" | "0x80 \<le> c" "c < 0x800" | "0x800 \<le> c" "c < 0x10000" | "0x10000 \<le> c" by linarith
  then show ?thesis
  proof cases
    case 1 then show ?thesis by (simp add: utf8_def nextPoint_def)
  next
    case 2
    then have lead: "c div 64 < 32" by (simp add: less_mult_imp_div_less)
    define q x where "q = c div 64" and "x = c mod 64"
    have qx: "q * 64 + x = c" "x < 64" "q < 32" using lead by (simp_all add: q_def x_def)
    have "utf8 c = [byteOf (0xC0 + q), byteOf (0x80 + x)]" using 2 by (simp add: utf8_def q_def x_def)
    then show ?thesis using qx 2 c by (simp add: nextPoint_def accept_def)
  next
    case 3
    then have "c div 4096 < 16" by (simp add: less_mult_imp_div_less)
    with 3 c show ?thesis
      using contByte_of [of "c mod 64"] contByte_of [of "c div 64 mod 64"] split4096 [of c]
      by (simp add: utf8_def nextPoint_def accept_def)
  next
    case 4
    have "c div 262144 < 8" using top by (simp add: less_mult_imp_div_less)
    with 4 c show ?thesis
      using contByte_of [of "c mod 64"] contByte_of [of "c div 64 mod 64"] contByte_of [of "c div 4096 mod 64"]
        split262144 [of c]
      by (simp add: utf8_def nextPoint_def accept_def)
  qed
qed

lemma utf8_nonempty [simp]: "utf8 c \<noteq> []"
  by (simp add: utf8_def)

lemma readPoints_utf8: "\<forall>c \<in> set cs. scalar c \<Longrightarrow> readPoints (concat (map utf8 cs)) = Some cs"
proof (induction cs)
  case (Cons c cs)
  then show ?case
    using nextPoint_utf8 [of c "concat (map utf8 cs)"] by (simp add: readPoints.simps [of "utf8 c @ _"])
qed simp

lemma scalar_joinSur: "highSur u \<Longrightarrow> lowSur v \<Longrightarrow> scalar (joinSur u v)"
  unfolding highSur_def lowSur_def joinSur_def scalar_def by linarith

lemma scalar_unit: "\<not> highSur u \<Longrightarrow> \<not> lowSur u \<Longrightarrow> scalar (unat u)"
  using unat_unit_less [of u] by (auto simp: highSur_def lowSur_def scalar_def)

lemma scalar_FFFD [simp]: "scalar 0xFFFD"
  by (simp add: scalar_def)

lemma scalar_codePoints: "c \<in> set (codePoints s) \<Longrightarrow> scalar c"
  by (induction s rule: codePoints.induct) (auto simp: scalar_joinSur scalar_unit split: if_splits)

lemma units_unit: "units (unat u) = [u]"
  using unat_unit_less [of u] by (simp add: units_def)

lemma units_joinSur: "highSur u \<Longrightarrow> lowSur v \<Longrightarrow> units (joinSur u v) = [u, v]"
proof -
  assume "highSur u" "lowSur v"
  then have u: "0xD800 \<le> unat u" "unat u < 0xDC00" and v: "0xDC00 \<le> unat v" "unat v < 0xE000"
    by (simp_all add: highSur_def lowSur_def)
  define x y where "x = unat u - 0xD800" and "y = unat v - 0xDC00"
  then have xy: "unat u = 0xD800 + x" "unat v = 0xDC00 + y" "x < 0x400" "y < 0x400" using u v by simp_all
  have "unitOf (0xD800 + x) = u" "unitOf (0xDC00 + y) = v" by (simp_all only: xy(1,2) [symmetric] unitOf_unat)
  moreover have "(x * 0x400 + y) div 0x400 = x" "(x * 0x400 + y) mod 0x400 = y" using xy(4) by simp_all
  ultimately show ?thesis using xy by (simp add: units_def joinSur_def)
qed

lemma units_codePoints: "isWellFormed s \<Longrightarrow> concat (map units (codePoints s)) = s"
  by (induction s rule: codePoints.induct) (auto simp: units_unit units_joinSur split: if_splits)

definition startsBom :: "ustr \<Rightarrow> bool" where
  "startsBom s \<longleftrightarrow> take 1 s = [0xFEFF]"

lemma utf8_bom: "scalar c \<Longrightarrow> take 3 (utf8 c @ r) = [0xEF, 0xBB, 0xBF] \<Longrightarrow> c = 0xFEFF"
proof -
  assume c: "scalar c" and t: "take 3 (utf8 c @ r) = [0xEF, 0xBB, 0xBF]"
  then have "utf8 c @ r = [0xEF, 0xBB, 0xBF] @ drop 3 (utf8 c @ r)" by (metis append_take_drop_id)
  then have "nextPoint (utf8 c @ r) = nextPoint ([0xEF, 0xBB, 0xBF] @ drop 3 (utf8 c @ r))" by simp
  also have "\<dots> = Some (0xFEFF, drop 3 (utf8 c @ r))"
    by (simp add: nextPoint_def contByte_def accept_def scalar_def)
  finally show ?thesis using nextPoint_utf8 [OF c, of r] by simp
qed

lemma codePoints_bom: "codePoints s = 0xFEFF # cs \<Longrightarrow> startsBom s"
proof (induction s rule: codePoints.induct)
  case (2 u)
  then show ?case by (auto simp: startsBom_def split: if_splits) (metis unitOf_unat unitOf_def of_nat_numeral)
next
  case (3 u v us)
  show ?case
  proof (cases "highSur u \<and> lowSur v")
    case True then show ?thesis using 3 by (simp add: joinSur_def)
  next
    case False
    with 3 have "unat u = 0xFEFF" by (simp split: if_splits)
    then have "u = 0xFEFF" by (metis unitOf_unat unitOf_def of_nat_numeral)
    then show ?thesis by (simp add: startsBom_def)
  qed
qed simp

lemma dropBom_toUtf8: "\<not> startsBom s \<Longrightarrow> dropBom (toUtf8 s) = toUtf8 s"
proof (cases "codePoints s")
  case (Cons c cs)
  assume "\<not> startsBom s"
  then have "c \<noteq> 0xFEFF" using codePoints_bom Cons by blast
  moreover have "scalar c" using scalar_codePoints [of c s] Cons by simp
  ultimately have "take 3 (utf8 c @ concat (map utf8 cs)) \<noteq> [0xEF, 0xBB, 0xBF]" using utf8_bom by blast
  then show ?thesis using Cons by (simp add: dropBom_def toUtf8_def)
qed (simp add: toUtf8_def dropBom_def)

lemma utf8_roundtrip: "isWellFormed s \<Longrightarrow> \<not> startsBom s \<Longrightarrow> fromUtf8 (toUtf8 s) = Some s"
  by (simp add: fromUtf8_def dropBom_toUtf8)
    (simp add: toUtf8_def readPoints_utf8 scalar_codePoints units_codePoints)

section \<open>What the decoder can return\<close>

lemma nextPoint_scalar: "nextPoint bs = Some (c, r) \<Longrightarrow> scalar c"
  by (auto simp: nextPoint_def accept_def scalar_def split: list.splits option.splits if_splits prod.splits)

lemma readPoints_scalar: "readPoints bs = Some cs \<Longrightarrow> \<forall>c \<in> set cs. scalar c"
proof (induction bs arbitrary: cs rule: readPoints.induct)
  case (1 bs)
  then show ?case
    by (subst (asm) (2) readPoints.simps) (auto split: if_splits option.splits prod.splits dest: nextPoint_scalar)
qed

lemma wellFormed_unit: "\<not> highSur u \<Longrightarrow> \<not> lowSur u \<Longrightarrow> isWellFormed (u # s) = isWellFormed s"
  by (cases s) auto

lemma wellFormed_units: "scalar c \<Longrightarrow> isWellFormed (units c @ s) = isWellFormed s"
proof -
  assume c: "scalar c"
  show ?thesis
  proof (cases "c < 0x10000")
    case True
    then have "\<not> highSur (unitOf c)" "\<not> lowSur (unitOf c)" using c
      by (auto simp: highSur_def lowSur_def scalar_def)
    then show ?thesis using True by (simp add: units_def wellFormed_unit)
  next
    case False
    then have "(c - 0x10000) div 0x400 < 0x400" using c by (simp add: scalar_def less_mult_imp_div_less)
    moreover have "(c - 0x10000) mod 0x400 < 0x400" by simp
    ultimately have "highSur (unitOf (0xD800 + (c - 0x10000) div 0x400))"
      "lowSur (unitOf (0xDC00 + (c - 0x10000) mod 0x400))"
      by (simp_all add: highSur_def lowSur_def)
    then show ?thesis using False by (simp add: units_def)
  qed
qed

lemma wellFormed_concat: "\<forall>c \<in> set cs. scalar c \<Longrightarrow> isWellFormed (concat (map units cs))"
  by (induction cs) (simp_all add: wellFormed_units)

lemma fromUtf8_wellFormed: "fromUtf8 bs = Some s \<Longrightarrow> isWellFormed s"
  using readPoints_scalar wellFormed_concat by (auto simp: fromUtf8_def)

end
