(* ===== verification/Cbor.thy ===== *)
theory Cbor
  imports Prelude Utf "HOL-Library.List_Lexorder"
begin

text \<open>
  The wire codecs of the instruction set, \<open>src/src/isa/codec.ts\<close>: the assertion that a value is
  JSON, canonical key order, and the CBOR writer and reader. Bytes are \<open>8 word\<close>s and strings are
  UTF-16 (\<open>Utf\<close>). A JavaScript number is \<open>VInt\<close> when it is a safe integer other than \<open>-0\<close>, and the
  64 bits of its double otherwise. Objects list their own properties in the order they were added;
  the codec only ever visits them in sorted order. The reader's error aborts the whole read, so its
  state after a throw is not observable.
\<close>

section \<open>Values\<close>

datatype jval =
    VNull
  | VBool bool
  | VInt int
  | VFloat "64 word"
  | VStr ustr
  | VArr "jval list"
  | VObj "(ustr \<times> jval) list"

datatype pathStep = AtIndex nat | AtKey ustr

datatype CborError =
    NonFiniteNumber string "pathStep list"
  | CborNonFinite
  | UnsafeHead
  | DepthExceeded
  | ByteStringFound
  | TagFound
  | UnsupportedSimple nat
  | IndefiniteLength
  | UnsupportedAdditional nat
  | IntegerTooLarge
  | InvalidUtf8
  | KeyNotString
  | DuplicateKey ustr
  | Truncated
  | CollectionTooLarge
  | TrailingBytes
  | NotAnObject string

definition MAX_SAFE :: nat where
  "MAX_SAFE = 2 ^ 53 - 1"

definition MAX_CBOR_COLLECTION_LENGTH :: nat where
  "MAX_CBOR_COLLECTION_LENGTH = 1000000"

definition MAX_CBOR_DEPTH :: nat where
  "MAX_CBOR_DEPTH = 128"

section \<open>Doubles\<close>

text \<open>The fields of a double, and the value it has when it is a safe integer other than \<open>-0\<close>.\<close>

definition expo :: "64 word \<Rightarrow> nat" where
  "expo w = unat w div 2 ^ 52 mod 2 ^ 11"

definition frac :: "64 word \<Rightarrow> nat" where
  "frac w = unat w mod 2 ^ 52"

definition negative :: "64 word \<Rightarrow> bool" where
  "negative w \<longleftrightarrow> 2 ^ 63 \<le> unat w"

definition negZero :: "64 word" where
  "negZero = 2 ^ 63"

definition isFinite :: "64 word \<Rightarrow> bool" where
  "isFinite w \<longleftrightarrow> expo w \<noteq> 2047"

definition safeValue :: "64 word \<Rightarrow> int option" where
  "safeValue w =
     (if w = 0 then Some 0
      else if 1023 \<le> expo w \<and> expo w \<le> 1075 \<and> 2 ^ (1075 - expo w) dvd 2 ^ 52 + frac w
      then Some ((if negative w then - 1 else 1) * int ((2 ^ 52 + frac w) div 2 ^ (1075 - expo w)))
      else None)"

definition fromBits :: "64 word \<Rightarrow> jval" where
  "fromBits w = (case safeValue w of Some i \<Rightarrow> VInt i | None \<Rightarrow> VFloat w)"

text \<open>The double equal to the half or single precision number with this sign, exponent and
  fraction, for \<open>eb\<close> exponent bits and \<open>fb\<close> fraction bits. A subnormal \<open>f * 2 ^ (2 - bias - fb - 1)\<close>
  is normalised: every one of them is a normal double.\<close>

definition topBit :: "nat \<Rightarrow> nat" where
  "topBit f = length (takeWhile (\<lambda>i. 2 ^ Suc i \<le> f) [0..<52])"

definition widen :: "nat \<Rightarrow> nat \<Rightarrow> bool \<Rightarrow> nat \<Rightarrow> nat \<Rightarrow> 64 word" where
  "widen eb fb s e f =
     (let sgn = (if s then 2 ^ 63 else 0); bias = 2 ^ (eb - 1) - 1
      in if e = 0
         then if f = 0 then of_nat sgn
              else of_nat (sgn + (1023 + topBit f + 1 - bias - fb) * 2 ^ 52 + (f - 2 ^ topBit f) * 2 ^ (52 - topBit f))
         else of_nat (sgn + (e + 1023 - bias) * 2 ^ 52 + f * 2 ^ (52 - fb)))"

section \<open>Asserting JSON and canonical order\<close>

text \<open>\<open>assertJsonValue\<close>. A value of type \<open>jval\<close> has no cycles, symbols or prototypes; what is left to
  reject is a number that is not finite.\<close>

fun assertJsonValue :: "string \<Rightarrow> pathStep list \<Rightarrow> jval \<Rightarrow> CborError option"
and assertItems :: "string \<Rightarrow> pathStep list \<Rightarrow> nat \<Rightarrow> jval list \<Rightarrow> CborError option"
and assertFields :: "string \<Rightarrow> pathStep list \<Rightarrow> (ustr \<times> jval) list \<Rightarrow> CborError option" where
  "assertJsonValue n p VNull = None"
| "assertJsonValue n p (VBool b) = None"
| "assertJsonValue n p (VInt i) = None"
| "assertJsonValue n p (VFloat w) = (if isFinite w then None else Some (NonFiniteNumber n p))"
| "assertJsonValue n p (VStr s) = None"
| "assertJsonValue n p (VArr vs) = assertItems n p 0 vs"
| "assertJsonValue n p (VObj fs) = assertFields n p fs"
| "assertItems n p k [] = None"
| "assertItems n p k (v # vs) = (case assertJsonValue n (p @ [AtIndex k]) v of
     Some e \<Rightarrow> Some e | None \<Rightarrow> assertItems n p (Suc k) vs)"
| "assertFields n p [] = None"
| "assertFields n p ((k, v) # fs) = (case assertJsonValue n (p @ [AtKey k]) v of
     Some e \<Rightarrow> Some e | None \<Rightarrow> assertFields n p fs)"

definition sortFields :: "(ustr \<times> 'a) list \<Rightarrow> (ustr \<times> 'a) list" where
  "sortFields fs = sort_key fst fs"

definition protoKey :: ustr where
  "protoKey = map (\<lambda>c. of_nat (of_char c)) ''__proto__''"

text \<open>\<open>canonicalize\<close>. It assigns \<open>output[key]\<close>, and assigning \<open>__proto__\<close> never creates a property.\<close>

fun canonicalize :: "jval \<Rightarrow> jval" where
  "canonicalize (VArr vs) = VArr (map canonicalize vs)"
| "canonicalize (VObj fs) =
     VObj (filter (\<lambda>f. fst f \<noteq> protoKey) (sortFields (map (\<lambda>(k, v). (k, canonicalize v)) fs)))"
| "canonicalize v = v"

section \<open>The writer\<close>

text \<open>Output is appended; the first throw ends it.\<close>

fun thenWrite :: "CborError + bytes \<Rightarrow> CborError + bytes \<Rightarrow> CborError + bytes" where
  "thenWrite (Inl e) q = Inl e"
| "thenWrite (Inr a) (Inl e) = Inl e"
| "thenWrite (Inr a) (Inr b) = Inr (a @ b)"

definition writeAll :: "(CborError + bytes) list \<Rightarrow> CborError + bytes" where
  "writeAll ps = foldr thenWrite ps (Inr [])"

text \<open>\<open>k\<close> bytes of \<open>n\<close>, most significant first.\<close>

fun bigEndian :: "nat \<Rightarrow> nat \<Rightarrow> bytes" where
  "bigEndian 0 n = []"
| "bigEndian (Suc k) n = byteOf (n div 256 ^ k mod 256) # bigEndian k n"

definition writeHead :: "nat \<Rightarrow> nat \<Rightarrow> CborError + bytes" where
  "writeHead major v =
     (if MAX_SAFE < v then Inl UnsafeHead
      else if v < 24 then Inr [byteOf (major * 32 + v)]
      else if v \<le> 0xFF then Inr (byteOf (major * 32 + 24) # bigEndian 1 v)
      else if v \<le> 0xFFFF then Inr (byteOf (major * 32 + 25) # bigEndian 2 v)
      else if v \<le> 0xFFFFFFFF then Inr (byteOf (major * 32 + 26) # bigEndian 4 v)
      else Inr (byteOf (major * 32 + 27) # bigEndian 8 v))"

definition writeText :: "ustr \<Rightarrow> CborError + bytes" where
  "writeText s = thenWrite (writeHead 3 (length (toUtf8 s))) (Inr (toUtf8 s))"

fun writeValue :: "jval \<Rightarrow> CborError + bytes" where
  "writeValue VNull = Inr [0xF6]"
| "writeValue (VBool b) = Inr [if b then 0xF5 else 0xF4]"
| "writeValue (VStr s) = writeText s"
| "writeValue (VInt i) = (if 0 \<le> i then writeHead 0 (nat i) else writeHead 1 (nat (- 1 - i)))"
| "writeValue (VFloat w) =
     (if \<not> isFinite w then Inl CborNonFinite
      else if w = negZero then writeHead 0 0
      else Inr (0xFB # bigEndian 8 (unat w)))"
| "writeValue (VArr vs) = thenWrite (writeHead 4 (length vs)) (writeAll (map writeValue vs))"
| "writeValue (VObj fs) = thenWrite (writeHead 5 (length fs))
     (writeAll (map snd (sortFields (map (\<lambda>(k, v). (k, thenWrite (writeText k) (writeValue v))) fs))))"

definition encodeCbor :: "jval \<Rightarrow> CborError + bytes" where
  "encodeCbor v = (case assertJsonValue ''value'' [] v of Some e \<Rightarrow> Inl e | None \<Rightarrow> writeValue v)"

section \<open>The reader\<close>

text \<open>A reader is a computation on the bytes that are left.\<close>

type_synonym 'a reader = "(bytes, CborError, 'a) act"

definition readByte :: "nat reader" where
  "readByte = (\<lambda>bs. case bs of [] \<Rightarrow> (Inl Truncated, bs) | b # r \<Rightarrow> (Inr (unat b), r))"

primrec readBig :: "nat \<Rightarrow> nat \<Rightarrow> nat reader" where
  "readBig 0 v = ret v"
| "readBig (Suc k) v = andThen readByte (\<lambda>b. readBig k (v * 256 + b))"

definition readAdditional :: "nat \<Rightarrow> nat reader" where
  "readAdditional a =
     (if a < 24 then ret a
      else if a = 31 then raise IndefiniteLength
      else (let width = (if a = 24 then 1 else if a = 25 then 2 else if a = 26 then 4 else if a = 27 then 8 else 0)
            in if width = 0 then raise (UnsupportedAdditional a)
               else andThen (readBig width 0) (\<lambda>v. if MAX_SAFE < v then raise IntegerTooLarge else ret v)))"

definition takeBytes :: "nat \<Rightarrow> bytes reader" where
  "takeBytes n = (\<lambda>bs. if length bs < n then (Inl Truncated, bs) else (Inr (take n bs), drop n bs))"

definition readText :: "nat \<Rightarrow> ustr reader" where
  "readText n = andThen (takeBytes n) (\<lambda>t. case fromUtf8 t of None \<Rightarrow> raise InvalidUtf8 | Some s \<Rightarrow> ret s)"

definition readFloat16 :: "jval reader" where
  "readFloat16 = andThen (readBig 2 0) (\<lambda>n.
     let s = (2 ^ 15 \<le> n); e = n div 2 ^ 10 mod 2 ^ 5; f = n mod 2 ^ 10
     in if e = 31 then raise CborNonFinite else ret (fromBits (widen 5 10 s e f)))"

definition readFloat32 :: "jval reader" where
  "readFloat32 = andThen (takeBytes 4) (\<lambda>t. andThen (\<lambda>bs. (fst (readBig 4 0 t), bs)) (\<lambda>n.
     let s = (2 ^ 31 \<le> n); e = n div 2 ^ 23 mod 2 ^ 8; f = n mod 2 ^ 23
     in if e = 255 then raise CborNonFinite else ret (fromBits (widen 8 23 s e f))))"

definition readFloat64 :: "jval reader" where
  "readFloat64 = andThen (takeBytes 8) (\<lambda>t. andThen (\<lambda>bs. (fst (readBig 8 0 t), bs)) (\<lambda>n.
     if isFinite (of_nat n) then ret (fromBits (of_nat n)) else raise CborNonFinite))"

definition readSimple :: "nat \<Rightarrow> jval reader" where
  "readSimple a =
     (if a = 20 then ret (VBool False) else if a = 21 then ret (VBool True) else if a = 22 then ret VNull
      else if a = 25 then readFloat16 else if a = 26 then readFloat32 else if a = 27 then readFloat64
      else raise (UnsupportedSimple a))"

text \<open>\<open>-1 - length\<close>: for the largest length it is \<open>-2 ^ 53\<close>, which is not a safe integer.\<close>

definition negated :: "nat \<Rightarrow> jval" where
  "negated n = (if n = MAX_SAFE then VFloat 0xC340000000000000 else VInt (- 1 - int n))"

text \<open>\<open>readValue\<close>, \<open>readArray\<close> and \<open>readMap\<close>. The first argument is the room left: the reader is at
  depth \<open>MAX_CBOR_DEPTH + 1\<close> minus the room, so that no room is a depth above the limit.\<close>

function readValue :: "nat \<Rightarrow> jval reader"
and readItems :: "nat \<Rightarrow> nat \<Rightarrow> jval list reader"
and readFields :: "nat \<Rightarrow> nat \<Rightarrow> (ustr \<times> jval) list \<Rightarrow> (ustr \<times> jval) list reader" where
  "readValue 0 = raise DepthExceeded"
| "readValue (Suc room) = andThen readByte (\<lambda>initial.
     let major = initial div 32; additional = initial mod 32
     in if major = 7 then readSimple additional
        else andThen (readAdditional additional) (\<lambda>len.
          if major = 0 then ret (VInt (int len))
          else if major = 1 then ret (negated len)
          else if major = 2 then raise ByteStringFound
          else if major = 3 then andThen (readText len) (\<lambda>s. ret (VStr s))
          else if major = 4 then
            (if MAX_CBOR_COLLECTION_LENGTH < len then raise CollectionTooLarge
             else andThen (readItems room len) (\<lambda>vs. ret (VArr vs)))
          else if major = 5 then
            (if MAX_CBOR_COLLECTION_LENGTH < len then raise CollectionTooLarge
             else andThen (readFields room len []) (\<lambda>fs. ret (VObj fs)))
          else raise TagFound))"
| "readItems room 0 = ret []"
| "readItems room (Suc n) = andThen (readValue room) (\<lambda>v. andThen (readItems room n) (\<lambda>vs. ret (v # vs)))"
| "readFields room 0 acc = ret acc"
| "readFields room (Suc n) acc = andThen (readValue room) (\<lambda>key. case key of
     VStr k \<Rightarrow> if k \<in> fst ` set acc then raise (DuplicateKey k)
       else andThen (readValue room) (\<lambda>v. readFields room n (acc @ [(k, v)]))
   | _ \<Rightarrow> raise KeyNotString)"
  by pat_completeness auto
termination
  by (relation "measures [\<lambda>x. case x of Inl r \<Rightarrow> 2 * r | Inr (Inl (r, n)) \<Rightarrow> 2 * r + 1 | Inr (Inr (r, n, _)) \<Rightarrow> 2 * r + 1,
       \<lambda>x. case x of Inl r \<Rightarrow> 0 | Inr (Inl (r, n)) \<Rightarrow> n | Inr (Inr (r, n, _)) \<Rightarrow> n]") simp_all

definition decodeCbor :: "bytes \<Rightarrow> CborError + jval" where
  "decodeCbor bs = (case readValue (Suc MAX_CBOR_DEPTH) bs of
     (Inl e, _) \<Rightarrow> Inl e
   | (Inr v, []) \<Rightarrow> Inr v
   | (Inr v, _ # _) \<Rightarrow> Inl TrailingBytes)"

section \<open>Programs and results\<close>

definition encodeObject :: "string \<Rightarrow> jval \<Rightarrow> CborError + jval" where
  "encodeObject name v = (case assertJsonValue name [] v of Some e \<Rightarrow> Inl e
     | None \<Rightarrow> (case v of VObj fs \<Rightarrow> Inr v | _ \<Rightarrow> Inl (NotAnObject name)))"

definition encodeProgramCbor :: "jval \<Rightarrow> CborError + bytes" where
  "encodeProgramCbor p = (case encodeObject ''program'' p of Inl e \<Rightarrow> Inl e | Inr v \<Rightarrow> encodeCbor v)"

definition decodeProgramCbor :: "bytes \<Rightarrow> CborError + jval" where
  "decodeProgramCbor bs = (case decodeCbor bs of Inl e \<Rightarrow> Inl e | Inr v \<Rightarrow> encodeObject ''program'' v)"

definition encodeExecutionResultCbor :: "jval \<Rightarrow> CborError + bytes" where
  "encodeExecutionResultCbor p =
     (case encodeObject ''execution result'' p of Inl e \<Rightarrow> Inl e | Inr v \<Rightarrow> encodeCbor v)"

definition decodeExecutionResultCbor :: "bytes \<Rightarrow> CborError + jval" where
  "decodeExecutionResultCbor bs =
     (case decodeCbor bs of Inl e \<Rightarrow> Inl e | Inr v \<Rightarrow> encodeObject ''execution result'' v)"

end
