(* ===== verification/CborProps.thy ===== *)
theory CborProps
  imports Cbor
begin

text \<open>
  Properties of the CBOR codec. \<open>carries r p v\<close> relates a reader and a writer: what was written is
  read back as \<open>v\<close>, whatever follows. The locale \<open>wire\<close> states what a writer and a reader of one
  format owe to each other; the codec of values is its interpretation.
\<close>

declare readValue.simps [simp del] bigEndian.simps [simp del]

section \<open>Writers and readers\<close>

definition carries :: "'a reader \<Rightarrow> CborError + bytes \<Rightarrow> 'a \<Rightarrow> bool" where
  "carries r p v \<longleftrightarrow> (\<exists>bs. p = Inr bs \<and> (\<forall>rest. r (bs @ rest) = (Inr v, rest)))"

lemma carriesI: "p = Inr bs \<Longrightarrow> (\<And>rest. r (bs @ rest) = (Inr v, rest)) \<Longrightarrow> carries r p v"
  by (auto simp: carries_def)

lemma carriesE: "carries r p v \<Longrightarrow> (\<And>bs. p = Inr bs \<Longrightarrow> (\<And>rest. r (bs @ rest) = (Inr v, rest)) \<Longrightarrow> thesis) \<Longrightarrow> thesis"
  by (auto simp: carries_def)

lemma carries_andThen: "carries r p x \<Longrightarrow> carries (f x) q y \<Longrightarrow> carries (andThen r f) (thenWrite p q) y"
proof -
  assume "carries r p x" and "carries (f x) q y"
  then obtain a b where a: "p = Inr a" "\<And>rest. r (a @ rest) = (Inr x, rest)"
    and b: "q = Inr b" "\<And>rest. f x (b @ rest) = (Inr y, rest)"
    by (metis carriesE)
  show ?thesis by (rule carriesI [of _ "a @ b"]) (simp_all add: a b)
qed

lemma carries_map: "carries r p x \<Longrightarrow> carries (andThen r (\<lambda>v. ret (f v))) p (f x)"
  by (auto simp: carries_def)

text \<open>The interface of a format: a document that the writer accepts is read back in its canonical form.\<close>

locale wire =
  fixes wr :: "'a \<Rightarrow> CborError + bytes" and rd :: "'a reader" and ok :: "'a \<Rightarrow> bool" and canon :: "'a \<Rightarrow> 'a"
  assumes reads_back: "ok x \<Longrightarrow> carries rd (wr x) (canon x)"
begin

lemma written: "ok x \<Longrightarrow> \<exists>bs. wr x = Inr bs \<and> rd bs = (Inr (canon x), [])"
  using reads_back [of x] unfolding carries_def by (metis append_Nil2)

lemma prefix_free: "ok x \<Longrightarrow> ok y \<Longrightarrow> wr x = Inr a \<Longrightarrow> wr y = Inr (a @ z) \<Longrightarrow> z = [] \<and> canon x = canon y"
proof -
  assume x: "ok x" "wr x = Inr a" and y: "ok y" "wr y = Inr (a @ z)"
  from reads_back [OF x(1)] x(2) have "rd (a @ z) = (Inr (canon x), z)" by (auto simp: carries_def)
  moreover have "rd ((a @ z) @ rest) = (Inr (canon y), rest)" for rest
    using reads_back [OF y(1)] y(2) by (auto simp: carries_def)
  from this [of "[]"] have "rd (a @ z) = (Inr (canon y), [])" by simp
  ultimately show ?thesis by simp
qed

lemma same_bytes: "ok x \<Longrightarrow> ok y \<Longrightarrow> wr x = wr y \<Longrightarrow> canon x = canon y"
  using written [of x] prefix_free [of x y _ "[]"] by auto

end

section \<open>Numbers in bytes\<close>

lemma length_bigEndian [simp]: "length (bigEndian k n) = k"
  by (induction k) (simp_all add: bigEndian.simps)

lemma readBig_bigEndian:
  "readBig k v (bigEndian k n @ rest) = (Inr (v * 256 ^ k + n mod 256 ^ k), rest)"
proof (induction k arbitrary: v)
  case (Suc k)
  have step: "readByte (bigEndian (Suc k) n @ rest) = (Inr (n div 256 ^ k mod 256), bigEndian k n @ rest)"
    by (simp add: readByte_def bigEndian.simps)
  have "n mod 256 ^ Suc k = 256 ^ k * (n div 256 ^ k mod 256) + n mod 256 ^ k"
    by (simp only: power_Suc2 mod_mult2_eq)
  then show ?case unfolding readBig.simps andThen_def step by (simp add: Suc algebra_simps)
qed (simp add: bigEndian.simps)

lemma readBig_exact: "n < 256 ^ k \<Longrightarrow> readBig k 0 (bigEndian k n @ rest) = (Inr n, rest)"
  by (simp add: readBig_bigEndian)

lemma readAdditional_wide:
  assumes "(a, w) \<in> {(24, 1), (25, 2), (26, 4), (27, 8)}" "n < 256 ^ w" "n \<le> MAX_SAFE"
  shows "readAdditional a (bigEndian w n @ rest) = (Inr n, rest)"
  using assms readBig_exact [OF assms(2), of rest] by (auto simp: readAdditional_def Let_def)

definition headReader :: "nat \<Rightarrow> nat reader" where
  "headReader major = andThen readByte (\<lambda>b. if b div 32 = major then readAdditional (b mod 32) else raise TagFound)"

lemma writeHead_wide:
  "MAX_SAFE \<ge> v \<Longrightarrow> writeHead m v =
     (if v < 24 then Inr [byteOf (m * 32 + v)]
      else Inr (byteOf (m * 32 + (if v < 256 ^ 1 then 24 else if v < 256 ^ 2 then 25 else if v < 256 ^ 4 then 26 else 27))
         # bigEndian (if v < 256 ^ 1 then 1 else if v < 256 ^ 2 then 2 else if v < 256 ^ 4 then 4 else 8) v))"
  by (auto simp: writeHead_def)

lemma head_read:
  assumes "v \<le> MAX_SAFE" "m < 7"
  obtains b t where "writeHead m v = Inr (b # t)" "unat b div 32 = m"
    "\<And>rest. readAdditional (unat b mod 32) (t @ rest) = (Inr v, rest)"
proof -
  define a w where "a = (if v < 256 ^ 1 then 24 else if v < 256 ^ 2 then 25 else if v < 256 ^ 4 then 26 else 27 :: nat)"
    and "w = (if v < 256 ^ 1 then 1 else if v < 256 ^ 2 then 2 else if v < 256 ^ 4 then 4 else 8 :: nat)"
  have aw: "(a, w) \<in> {(24, 1), (25, 2), (26, 4), (27, 8)}" by (simp add: a_def w_def)
  have fits: "v < 256 ^ w" using assms(1) by (simp add: w_def MAX_SAFE_def)
  have "a < 32" using aw by auto
  then have byte: "unat (byteOf (m * 32 + a)) = m * 32 + a" using assms(2) by simp
  show ?thesis
  proof (cases "v < 24")
    case True
    then have "unat (byteOf (m * 32 + v)) = m * 32 + v" using assms(2) by simp
    with True show ?thesis using assms by (intro that [of "byteOf (m * 32 + v)" "[]"])
        (simp_all add: writeHead_wide readAdditional_def)
  next
    case False
    show ?thesis
    proof (rule that [of "byteOf (m * 32 + a)" "bigEndian w v"])
      show "writeHead m v = Inr (byteOf (m * 32 + a) # bigEndian w v)"
        using False assms(1) by (simp only: writeHead_wide a_def w_def if_False)
      show "unat (byteOf (m * 32 + a)) div 32 = m" using byte \<open>a < 32\<close> by simp
      show "readAdditional (unat (byteOf (m * 32 + a)) mod 32) (bigEndian w v @ rest) = (Inr v, rest)" for rest
        using readAdditional_wide [OF aw fits assms(1)] byte \<open>a < 32\<close> by simp
    qed
  qed
qed

section \<open>Which values travel\<close>

fun numOk :: "jval \<Rightarrow> bool" where
  "numOk (VInt i) = (\<bar>i\<bar> \<le> int MAX_SAFE)"
| "numOk (VFloat w) = (isFinite w \<and> safeValue w = None)"
| "numOk v = True"

text \<open>A JSON value within the limits of the reader.\<close>

primrec jsonOk :: "nat \<Rightarrow> jval \<Rightarrow> bool" where
  "jsonOk 0 v = False"
| "jsonOk (Suc room) v = (case v of
     VStr s \<Rightarrow> isWellFormed s
   | VArr vs \<Rightarrow> length vs \<le> MAX_CBOR_COLLECTION_LENGTH \<and> list_all (jsonOk room) vs
   | VObj fs \<Rightarrow> length fs \<le> MAX_CBOR_COLLECTION_LENGTH \<and> distinct (map fst fs)
       \<and> list_all (\<lambda>(k, v). isWellFormed k \<and> jsonOk room v) fs
   | _ \<Rightarrow> numOk v)"

text \<open>A string the reader does not shorten: it starts with no byte order mark.\<close>

definition plain :: "ustr \<Rightarrow> bool" where
  "plain s \<longleftrightarrow> \<not> startsBom s \<and> length (toUtf8 s) \<le> MAX_SAFE"

fun plainText :: "jval \<Rightarrow> bool" where
  "plainText (VStr s) = plain s"
| "plainText (VArr vs) = list_all plainText vs"
| "plainText (VObj fs) = list_all (\<lambda>(k, v). plain k \<and> plainText v) fs"
| "plainText v = True"

text \<open>The value the codec stands for: the keys of every object sorted, \<open>-0\<close> written as \<open>0\<close>.\<close>

fun canonForm :: "jval \<Rightarrow> jval" where
  "canonForm (VArr vs) = VArr (map canonForm vs)"
| "canonForm (VObj fs) = VObj (sortFields (map (\<lambda>(k, v). (k, canonForm v)) fs))"
| "canonForm (VFloat w) = (if w = negZero then VInt 0 else VFloat w)"
| "canonForm v = v"

lemma sortFields_map: "(\<And>x. fst (g x) = fst x) \<Longrightarrow> sortFields (map g fs) = map g (sortFields fs)"
proof -
  assume g: "\<And>x. fst (g x) = fst x"
  have ins: "insort_key fst (g x) (map g ys) = map g (insort_key fst x ys)" for x ys
    by (induction ys) (simp_all add: g)
  show ?thesis by (induction fs) (simp_all add: sortFields_def ins)
qed

lemma sortFields_keep [simp]: "sortFields (map (\<lambda>(k, v). (k, h k v)) fs) = map (\<lambda>(k, v). (k, h k v)) (sortFields fs)"
  by (rule sortFields_map) (simp add: split_def)

lemma set_sortFields [simp]: "set (sortFields fs) = set fs"
  by (simp add: sortFields_def)

lemma length_sortFields [simp]: "length (sortFields fs) = length fs"
  by (simp add: sortFields_def)

lemma distinct_sortFields: "distinct (map fst fs) \<Longrightarrow> distinct (map fst (sortFields fs))"
  by (simp add: sortFields_def distinct_map inj_on_def)

lemma sortFields_idem [simp]: "sortFields (sortFields fs) = sortFields fs"
  by (simp add: sortFields_def sort_key_id_if_sorted)

section \<open>The round trip\<close>

lemma writeText_read:
  assumes "isWellFormed s" "plain s"
  shows "carries (readValue (Suc room)) (writeText s) (VStr s)"
proof -
  have len: "length (toUtf8 s) \<le> MAX_SAFE" using assms by (simp add: plain_def)
  obtain b t where h: "writeHead 3 (length (toUtf8 s)) = Inr (b # t)" "unat b div 32 = 3"
    "\<And>rest. readAdditional (unat b mod 32) (t @ rest) = (Inr (length (toUtf8 s)), rest)"
    by (rule head_read [OF len, of 3]) (simp, rule that)
  show ?thesis
  proof (rule carriesI [of _ "b # t @ toUtf8 s"])
    show "writeText s = Inr (b # t @ toUtf8 s)" by (simp add: writeText_def h)
    show "readValue (Suc room) ((b # t @ toUtf8 s) @ rest) = (Inr (VStr s), rest)" for rest
      using assms h(2,3)
      by (simp add: readValue.simps andThen_def readByte_def Let_def readText_def takeBytes_def utf8_roundtrip plain_def)
  qed
qed

lemma read_head_value:
  assumes "v \<le> MAX_SAFE" "m < 7"
  obtains b t where "writeHead m v = Inr (b # t)"
    "\<And>rest. readValue (Suc room) (b # t @ rest) =
       (let len = v in if m = 0 then (Inr (VInt (int len)), rest)
          else if m = 1 then (Inr (negated len), rest)
          else if m = 2 then (Inl ByteStringFound, rest)
          else if m = 3 then andThen (readText len) (\<lambda>s. ret (VStr s)) rest
          else if m = 4 then
            (if MAX_CBOR_COLLECTION_LENGTH < len then (Inl CollectionTooLarge, rest)
             else andThen (readItems room len) (\<lambda>vs. ret (VArr vs)) rest)
          else if m = 5 then
            (if MAX_CBOR_COLLECTION_LENGTH < len then (Inl CollectionTooLarge, rest)
             else andThen (readFields room len []) (\<lambda>fs. ret (VObj fs)) rest)
          else (Inl TagFound, rest))"
proof -
  obtain b t where h: "writeHead m v = Inr (b # t)" "unat b div 32 = m"
    "\<And>rest. readAdditional (unat b mod 32) (t @ rest) = (Inr v, rest)"
    by (rule head_read [OF assms]) (rule that)
  have first: "readByte (b # r) = (Inr (unat b), r)" for r by (simp add: readByte_def)
  show ?thesis
    by (rule that [OF h(1)], subst readValue.simps, subst andThen_simps(2) [of readByte, OF first])
      (use assms(2) h(2,3) in \<open>simp add: Let_def andThen_def\<close>)
qed

lemma read_float64:
  assumes "isFinite w" "safeValue w = None"
  shows "readValue (Suc room) (0xFB # bigEndian 8 (unat w) @ rest) = (Inr (VFloat w), rest)"
proof -
  have w: "unat w < 256 ^ 8" using unsigned_less [of w] by simp
  have bits: "of_nat (unat w) = w" by simp
  have "readBig 8 0 (bigEndian 8 (unat w)) = (Inr (unat w), [])"
    using readBig_exact [OF w, of "[]"] by simp
  then have "readFloat64 (bigEndian 8 (unat w) @ rest) = (Inr (VFloat w), rest)"
    using assms by (simp add: readFloat64_def andThen_def takeBytes_def fromBits_def del: readBig.simps)
  then show ?thesis
    by (simp add: andThen_def readByte_def readSimple_def Let_def readValue.simps)
qed

lemma write_number:
  assumes "numOk v" "v = VInt i \<or> v = VFloat w"
  shows "carries (readValue (Suc room)) (writeValue v) (canonForm v)"
proof -
  have zero: "carries (readValue (Suc room)) (writeHead 0 n) (VInt (int n))" if "n \<le> MAX_SAFE" for n
    by (rule read_head_value [OF that, of 0 room]) (auto intro: carriesI)
  have minus: "carries (readValue (Suc room)) (writeHead 1 n) (negated n)" if "n \<le> MAX_SAFE" for n
    by (rule read_head_value [OF that, of 1 room]) (auto intro: carriesI)
  from assms(2) show ?thesis
  proof
    assume v: "v = VInt i"
    show ?thesis
    proof (cases "0 \<le> i")
      case True
      then show ?thesis using zero [of "nat i"] assms(1) v by (simp add: nat_le_iff)
    next
      case False
      then have n: "nat (- 1 - i) \<le> MAX_SAFE" "nat (- 1 - i) \<noteq> MAX_SAFE"
        using assms(1) v by (auto simp: nat_le_iff)
      then have "negated (nat (- 1 - i)) = VInt i" using False by (simp add: negated_def)
      then show ?thesis using minus [OF n(1)] False v by simp
    qed
  next
    assume v: "v = VFloat w"
    show ?thesis
    proof (cases "w = negZero")
      case True
      then show ?thesis using zero [of 0] assms(1) v by simp
    next
      case False
      then have "writeValue v = Inr (0xFB # bigEndian 8 (unat w))" "canonForm v = VFloat w"
        using assms(1) v by simp_all
      then show ?thesis using read_float64 [of w room] assms(1) v
        by (auto intro!: carriesI)
    qed
  qed
qed

lemma carries_items:
  "list_all (\<lambda>v. carries (readValue room) (writeValue v) (canonForm v)) vs \<Longrightarrow>
   carries (readItems room (length vs)) (writeAll (map writeValue vs)) (map canonForm vs)"
proof (induction vs)
  case Nil
  then show ?case by (simp add: writeAll_def carries_def)
next
  case (Cons v vs)
  then have tl: "carries (readItems room (length vs)) (writeAll (map writeValue vs)) (map canonForm vs)" by simp
  from Cons.prems have "carries (readValue room) (writeValue v) (canonForm v)" by simp
  from carries_andThen [OF this, where f = "\<lambda>v. andThen (readItems room (length vs)) (\<lambda>vs. ret (v # vs))",
      OF carries_map [OF tl]]
  show ?case by (simp add: writeAll_def)
qed

definition writeField :: "ustr \<times> jval \<Rightarrow> CborError + bytes" where
  "writeField f = thenWrite (writeText (fst f)) (writeValue (snd f))"

lemma thenWrite_assoc: "thenWrite (thenWrite p q) r = thenWrite p (thenWrite q r)"
  by (cases p; cases q; cases r) simp_all

lemma thenWrite_field:
  "thenWrite (writeField f) p = thenWrite (writeText (fst f)) (thenWrite (writeValue (snd f)) p)"
  by (simp add: writeField_def thenWrite_assoc)

lemma writeAll_Cons: "writeAll (p # ps) = thenWrite p (writeAll ps)"
  by (simp add: writeAll_def)

lemma carries_fields:
  assumes "list_all (\<lambda>f. isWellFormed (fst f) \<and> plain (fst f)
      \<and> carries (readValue (Suc room)) (writeValue (snd f)) (canonForm (snd f))) fs"
    and "distinct (map fst (acc @ fs))"
  shows "carries (readFields (Suc room) (length fs) acc) (writeAll (map writeField fs))
     (acc @ map (\<lambda>(k, v). (k, canonForm v)) fs)"
  using assms
proof (induction fs arbitrary: acc)
  case Nil
  then show ?case by (simp add: writeAll_def carries_def)
next
  case (Cons f fs)
  define step where "step = (fst f, canonForm (snd f))"
  have new: "fst f \<notin> fst ` set acc" using Cons.prems(2) by auto
  have "carries (readFields (Suc room) (length fs) (acc @ [step])) (writeAll (map writeField fs))
     ((acc @ [step]) @ map (\<lambda>(k, v). (k, canonForm v)) fs)"
    by (rule Cons.IH) (use Cons.prems in \<open>auto simp: step_def\<close>)
  moreover have "carries (readValue (Suc room)) (writeValue (snd f)) (canonForm (snd f))"
    using Cons.prems by simp
  ultimately have rest: "carries
      (andThen (readValue (Suc room)) (\<lambda>v. readFields (Suc room) (length fs) (acc @ [(fst f, v)])))
      (thenWrite (writeValue (snd f)) (writeAll (map writeField fs)))
      (acc @ map (\<lambda>(k, v). (k, canonForm v)) (f # fs))"
    using carries_andThen by (fastforce simp: step_def split_def)
  have key: "carries (readValue (Suc room)) (writeText (fst f)) (VStr (fst f))"
    by (rule writeText_read) (use Cons.prems in simp_all)
  have "carries (andThen (readValue (Suc room)) (\<lambda>key. case key of
     VStr k \<Rightarrow> if k \<in> fst ` set acc then raise (DuplicateKey k)
       else andThen (readValue (Suc room)) (\<lambda>v. readFields (Suc room) (length fs) (acc @ [(k, v)]))
     | _ \<Rightarrow> raise KeyNotString))
     (thenWrite (writeText (fst f)) (thenWrite (writeValue (snd f)) (writeAll (map writeField fs))))
     (acc @ map (\<lambda>(k, v). (k, canonForm v)) (f # fs))"
    by (rule carries_andThen [OF key]) (use rest new in simp)
  then show ?case by (simp only: length_Cons readFields.simps list.map(2) writeAll_Cons thenWrite_field)
qed

lemma carries_collection:
  assumes "n \<le> MAX_CBOR_COLLECTION_LENGTH" "m = 4 \<or> m = 5"
    and "m = 4 \<Longrightarrow> carries (readItems room n) p vs" and "m = 5 \<Longrightarrow> carries (readFields room n []) p fs"
  shows "carries (readValue (Suc room)) (thenWrite (writeHead m n) p) (if m = 4 then VArr vs else VObj fs)"
proof -
  have n: "n \<le> MAX_SAFE" using assms(1) by (simp add: MAX_CBOR_COLLECTION_LENGTH_def MAX_SAFE_def)
  have m: "m < 7" using assms(2) by auto
  obtain b t where h: "writeHead m n = Inr (b # t)" and r: "\<And>rest. readValue (Suc room) (b # t @ rest) =
      (if m = 4 then andThen (readItems room n) (\<lambda>vs. ret (VArr vs)) rest
       else andThen (readFields room n []) (\<lambda>fs. ret (VObj fs)) rest)"
    by (rule read_head_value [OF n m, of room]) (use assms(1,2) in \<open>auto simp: Let_def\<close>)
  from assms(2) show ?thesis
  proof
    assume "m = 4"
    with assms(3) obtain bs where "p = Inr bs" "\<And>rest. readItems room n (bs @ rest) = (Inr vs, rest)"
      by (metis carriesE)
    then show ?thesis using h r \<open>m = 4\<close> by (intro carriesI [of _ "b # t @ bs"]) simp_all
  next
    assume "m = 5"
    with assms(4) obtain bs where "p = Inr bs" "\<And>rest. readFields room n [] (bs @ rest) = (Inr fs, rest)"
      by (metis carriesE)
    then show ?thesis using h r \<open>m = 5\<close> by (intro carriesI [of _ "b # t @ bs"]) simp_all
  qed
qed

lemma write_read: "jsonOk room v \<Longrightarrow> plainText v \<Longrightarrow> carries (readValue room) (writeValue v) (canonForm v)"
proof (induction v arbitrary: room)
  case (VArr vs)
  then obtain r where r: "room = Suc r" by (cases room) simp_all
  have "list_all (\<lambda>v. carries (readValue r) (writeValue v) (canonForm v)) vs"
    using VArr r by (auto simp: list_all_iff)
  from carries_items [OF this] show ?case
    using carries_collection [of "length vs" 4 r _ "map canonForm vs" undefined] VArr.prems r by simp
next
  case (VObj fs)
  then obtain r where r: "room = Suc r" by (cases room) simp_all
  show ?case
  proof (cases "fs = []")
    case True
    have "carries (readFields r 0 []) (writeAll []) []" by (simp add: writeAll_def carries_def)
    then show ?thesis using True r carries_collection [of 0 5 r "writeAll []" undefined "[]"]
      by (simp add: sortFields_def)
  next
    case False
    then obtain r' where r': "r = Suc r'" using VObj.prems r by (cases r; cases fs) auto
    let ?gs = "sortFields fs"
    have "isWellFormed (fst f) \<and> plain (fst f) \<and> carries (readValue r) (writeValue (snd f)) (canonForm (snd f))"
      if "f \<in> set fs" for f
      using VObj.IH [of f "snd f" r] VObj.prems r that by (cases f) (auto simp: list_all_iff)
    then have "list_all (\<lambda>f. isWellFormed (fst f) \<and> plain (fst f)
      \<and> carries (readValue r) (writeValue (snd f)) (canonForm (snd f))) ?gs"
      by (simp add: list_all_iff)
    then have "list_all (\<lambda>f. isWellFormed (fst f) \<and> plain (fst f)
      \<and> carries (readValue (Suc r')) (writeValue (snd f)) (canonForm (snd f))) ?gs"
      by (simp only: r')
    moreover have "distinct (map fst ([] @ ?gs))" using VObj.prems r by (simp add: distinct_sortFields)
    ultimately have "carries (readFields (Suc r') (length ?gs) []) (writeAll (map writeField ?gs))
       ([] @ map (\<lambda>(k, v). (k, canonForm v)) ?gs)" by (rule carries_fields)
    moreover have "map snd (sortFields (map (\<lambda>(k, v). (k, thenWrite (writeText k) (writeValue v))) fs))
       = map writeField ?gs" by (simp only: sortFields_keep) (simp add: split_def writeField_def)
    then have "writeValue (VObj fs) = thenWrite (writeHead 5 (length fs)) (writeAll (map writeField ?gs))"
      by (simp only: writeValue.simps)
    moreover have "canonForm (VObj fs) = VObj (map (\<lambda>(k, v). (k, canonForm v)) ?gs)" by simp
    ultimately show ?thesis
      using carries_collection [of "length fs" 5 r "writeAll (map writeField ?gs)" undefined] VObj.prems r r' by simp
  qed
next
  case (VStr s)
  then obtain r where r: "room = Suc r" by (cases room) simp_all
  then show ?case using writeText_read [of s r] VStr by simp
next
  case (VInt i)
  then obtain r where r: "room = Suc r" by (cases room) simp_all
  then show ?case using write_number [of "VInt i" i 0 r] VInt by simp
next
  case (VFloat w)
  then obtain r where r: "room = Suc r" by (cases room) simp_all
  then show ?case using write_number [of "VFloat w" 0 w r] VFloat by simp
next
  case VNull
  then obtain r where r: "room = Suc r" by (cases room) simp_all
  then show ?case
    by (auto intro!: carriesI simp: readValue.simps andThen_def readByte_def readSimple_def Let_def)
next
  case (VBool b)
  then obtain r where r: "room = Suc r" by (cases room) simp_all
  then show ?case
    by (auto intro!: carriesI simp: readValue.simps andThen_def readByte_def readSimple_def Let_def)
qed

text \<open>The codec of values is such a format.\<close>

interpretation cbor: wire writeValue "readValue room" "\<lambda>v. jsonOk room v \<and> plainText v" canonForm for room
  by unfold_locales (simp add: write_read)

section \<open>What the reader can return\<close>

lemma expo_of:
  assumes "E < 2 ^ 11" "F < 2 ^ 52"
  shows "expo (of_nat (s * 2 ^ 63 + E * 2 ^ 52 + F)) = E"
proof -
  have nat64: "unat (of_nat N :: 64 word) = N mod 2 ^ 64" for N by (simp add: unat_of_nat)
  have "unat (of_nat (s * 2 ^ 63 + E * 2 ^ 52 + F) :: 64 word) = (s * 2 ^ 63 + E * 2 ^ 52 + F) mod 2 ^ 64"
    by (rule nat64)
  also have "\<dots> div 2 ^ 52 mod 2 ^ 11 = (s * 2 ^ 63 + E * 2 ^ 52 + F) div 2 ^ 52 mod 2 ^ 11"
    by (simp add: mod_mult2_eq [of _ "2 ^ 52" "2 ^ 12", simplified] mod_mod_cancel)
  also have "(s * 2 ^ 63 + E * 2 ^ 52 + F) div 2 ^ 52 = s * 2 ^ 11 + E"
  proof -
    have "s * 2 ^ 63 + E * 2 ^ 52 + F = F + (s * 2 ^ 11 + E) * 2 ^ 52" by (simp add: algebra_simps)
    then show ?thesis using assms(2) by (metis add.commute div_less div_mult_self1 add_0 power_not_zero zero_neq_numeral)
  qed
  also have "(s * 2 ^ 11 + E) mod 2 ^ 11 = E" using assms(1) by simp
  finally show ?thesis by (simp add: expo_def)
qed

lemma topBit_fits: "f < 2 ^ 52 \<Longrightarrow> f < 2 ^ Suc (topBit f) \<and> topBit f < 52"
proof -
  assume f: "f < 2 ^ 52"
  define P where "P = (\<lambda>i. 2 ^ Suc i \<le> f)"
  have "\<not> P 51" using f by (simp add: P_def)
  moreover have "51 \<in> set [0..<52 :: nat]" by simp
  ultimately have "takeWhile P [0..<52] \<noteq> [0..<52]" by (metis takeWhile_eq_all_conv)
  then have "\<not> length [0..<52] \<le> length (takeWhile P [0..<52])" by (metis takeWhile_eq_take take_all)
  then have len: "length (takeWhile P [0..<52]) < length [0..<52]" by simp
  from nth_length_takeWhile [OF len] len have "\<not> P (topBit f) \<and> topBit f < 52"
    by (simp add: topBit_def P_def)
  then show ?thesis by (simp add: P_def)
qed

lemma finite_bits: "E < 2047 \<Longrightarrow> F < 2 ^ 52 \<Longrightarrow> isFinite (of_nat (s * 2 ^ 63 + E * 2 ^ 52 + F))"
proof -
  assume E: "E < 2047" "F < 2 ^ 52"
  then have "E < 2 ^ 11" by simp
  from expo_of [OF this E(2), of s] E(1) show ?thesis by (simp only: isFinite_def)
qed

lemma widen_finite:
  assumes "e + 1 < 2 ^ eb" "f < 2 ^ fb" "fb < 52" "eb \<le> 8" "1 \<le> eb"
  shows "isFinite (widen eb fb s e f)"
proof -
  define S where "S = (if s then 1 else 0 :: nat)"
  have S: "(if s then 2 ^ 63 else 0 :: nat) = S * 2 ^ 63" by (simp add: S_def)
  have f52: "f < 2 ^ 52" using assms(2,3) by (meson less_trans one_less_numeral_iff power_strict_increasing semiring_norm(76))
  have eb: "(2 :: nat) ^ eb \<le> 2 ^ 8" using assms(4) by (intro power_increasing) simp_all
  consider "e = 0" "f = 0" | "e = 0" "0 < f" | "0 < e" by auto
  then show ?thesis
  proof cases
    case 1
    then show ?thesis using finite_bits [of 0 0 S] by (simp add: widen_def S Let_def)
  next
    case 2
    have t: "f < 2 ^ Suc (topBit f)" "topBit f < 52" using topBit_fits [OF f52] by auto
    have "(f - 2 ^ topBit f) * 2 ^ (52 - topBit f) < 2 ^ topBit f * 2 ^ (52 - topBit f)"
      using t by (intro mult_strict_right_mono) auto
    also have "(2 :: nat) ^ topBit f * 2 ^ (52 - topBit f) = 2 ^ 52" using t by (simp flip: power_add)
    finally have "isFinite (of_nat (S * 2 ^ 63 + (1023 + topBit f + 1 - (2 ^ (eb - 1) - 1) - fb) * 2 ^ 52
        + (f - 2 ^ topBit f) * 2 ^ (52 - topBit f)))"
      using t by (intro finite_bits) simp_all
    then show ?thesis using 2 by (simp only: widen_def S Let_def if_True if_False simp_thms neq0_conv split: if_split) simp
  next
    case 3
    have "f * 2 ^ (52 - fb) < 2 ^ fb * 2 ^ (52 - fb)" using assms(2) by simp
    also have "(2 :: nat) ^ fb * 2 ^ (52 - fb) = 2 ^ 52" using assms(3) by (simp flip: power_add)
    finally have "isFinite (of_nat (S * 2 ^ 63 + (e + 1023 - (2 ^ (eb - 1) - 1)) * 2 ^ 52 + f * 2 ^ (52 - fb)))"
      using assms(1) eb by (intro finite_bits) simp_all
    then show ?thesis using 3 by (simp only: widen_def S Let_def) simp
  qed
qed

lemma safeValue_bound: "safeValue w = Some i \<Longrightarrow> \<bar>i\<bar> \<le> int MAX_SAFE"
proof -
  assume "safeValue w = Some i"
  moreover have "frac w < 2 ^ 52" by (simp add: frac_def)
  then have "(2 ^ 52 + frac w) div 2 ^ k \<le> MAX_SAFE" for k
    by (intro le_trans [OF div_le_dividend]) (simp add: MAX_SAFE_def)
  ultimately show ?thesis by (auto simp: safeValue_def split: if_splits)
qed

lemma numOk_fromBits: "isFinite w \<Longrightarrow> numOk (fromBits w)"
  by (auto simp: fromBits_def safeValue_bound split: option.splits)

lemma read_simple_ok:
  assumes "readSimple a bs = (Inr v, r)"
  shows "jsonOk (Suc room) v"
proof -
  have num: "jsonOk (Suc room) (fromBits w)" if "isFinite w" for w
    using numOk_fromBits [OF that] by (auto simp: fromBits_def split: option.splits)
  have f16: "jsonOk (Suc room) v" if "readFloat16 bs = (Inr v, r)"
    using that by (auto simp: readFloat16_def Let_def act simp del: readBig.simps jsonOk.simps
      split: if_splits intro!: num widen_finite)
  have f32: "jsonOk (Suc room) v" if "readFloat32 bs = (Inr v, r)"
    using that by (auto simp: readFloat32_def Let_def act simp del: readBig.simps jsonOk.simps
      split: if_splits intro!: num widen_finite)
  have f64: "jsonOk (Suc room) v" if "readFloat64 bs = (Inr v, r)"
    using that by (auto simp: readFloat64_def Let_def act simp del: readBig.simps jsonOk.simps
      split: if_splits intro!: num)
  show ?thesis using assms f16 f32 f64 unfolding readSimple_def by (auto split: if_splits)
qed

lemma readAdditional_safe: "readAdditional a bs = (Inr n, r) \<Longrightarrow> n \<le> MAX_SAFE"
  by (auto simp: readAdditional_def Let_def act MAX_SAFE_def simp del: readBig.simps split: if_splits)

lemma negated_ok: "n \<le> MAX_SAFE \<Longrightarrow> numOk (negated n)"
proof -
  have "isFinite 0xC340000000000000" "safeValue 0xC340000000000000 = None"
    by (simp_all add: isFinite_def safeValue_def expo_def)
  then show "n \<le> MAX_SAFE \<Longrightarrow> numOk (negated n)" by (simp add: negated_def)
qed

lemma read_ok:
  shows "readValue room bs = (Inr v, r) \<Longrightarrow> jsonOk room v"
    and "readItems room n bs = (Inr vs, r) \<Longrightarrow> length vs = n \<and> list_all (jsonOk room) vs"
    and "readFields room n acc bs = (Inr fs, r) \<Longrightarrow> distinct (map fst acc) \<Longrightarrow>
      list_all (\<lambda>(k, v). isWellFormed k \<and> jsonOk room v) acc \<Longrightarrow>
      length fs = length acc + n \<and> distinct (map fst fs) \<and> list_all (\<lambda>(k, v). isWellFormed k \<and> jsonOk room v) fs"
proof (induction room and room n and room n acc arbitrary: bs v r and bs vs r and bs fs r
    rule: readValue_readItems_readFields.induct)
  case (2 room)
  from "2.prems" obtain b b' where b: "(if b div 32 = 7 then readSimple (b mod 32)
        else andThen (readAdditional (b mod 32)) (\<lambda>len.
          if b div 32 = 0 then ret (VInt (int len))
          else if b div 32 = 1 then ret (negated len)
          else if b div 32 = 2 then raise ByteStringFound
          else if b div 32 = 3 then andThen (readText len) (\<lambda>s. ret (VStr s))
          else if b div 32 = 4 then
            (if MAX_CBOR_COLLECTION_LENGTH < len then raise CollectionTooLarge
             else andThen (readItems room len) (\<lambda>vs. ret (VArr vs)))
          else if b div 32 = 5 then
            (if MAX_CBOR_COLLECTION_LENGTH < len then raise CollectionTooLarge
             else andThen (readFields room len []) (\<lambda>fs. ret (VObj fs)))
          else raise TagFound)) b' = (Inr v, r)"
    unfolding readValue.simps Let_def by (auto simp only: andThen_Inr)
  show ?case
  proof (cases "b div 32 = 7")
    case True
    then show ?thesis using b read_simple_ok by simp
  next
    case False
    then obtain len c where len: "readAdditional (b mod 32) b' = (Inr len, c)"
      using b by (auto simp: andThen_Inr simp del: jsonOk.simps)
    have safe: "len \<le> MAX_SAFE" using readAdditional_safe [OF len] .
    show ?thesis
      using b False len safe negated_ok [OF safe] "2.IH"
      by (auto simp: andThen_def act readText_def numOk.simps negated_def fromUtf8_wellFormed
          split: if_splits sum.splits prod.splits option.splits)
  qed
next
  case (6 room n acc)
  from "6.prems"(1) obtain key c where key: "readValue room bs = (Inr key, c)"
    and rest: "(case key of VStr k \<Rightarrow> if k \<in> fst ` set acc then raise (DuplicateKey k)
       else andThen (readValue room) (\<lambda>v. readFields room n (acc @ [(k, v)])) | _ \<Rightarrow> raise KeyNotString) c = (Inr fs, r)"
    by (auto simp only: readFields.simps andThen_Inr)
  from rest obtain k v c' where k: "key = VStr k" "k \<notin> fst ` set acc" and v: "readValue room c = (Inr v, c')"
    and more: "readFields room n (acc @ [(k, v)]) c' = (Inr fs, r)"
    by (cases key) (auto simp: andThen_Inr split: if_splits)
  have "isWellFormed k" using "6.IH"(1) [OF key] k(1) by (cases room) simp_all
  moreover have "jsonOk room v" using "6.IH"(1) [OF v] .
  ultimately show ?case using "6.IH"(3) [OF k(2) more] "6.prems" k(2) by auto
qed (auto simp: readValue.simps act)

section \<open>Extending the input\<close>

text \<open>A reader that succeeded does the same when more bytes follow.\<close>

definition local :: "'a reader \<Rightarrow> bool" where
  "local m \<longleftrightarrow> (\<forall>bs v r z. m bs = (Inr v, r) \<longrightarrow> m (bs @ z) = (Inr v, r @ z))"

lemma localI: "(\<And>bs v r z. m bs = (Inr v, r) \<Longrightarrow> m (bs @ z) = (Inr v, r @ z)) \<Longrightarrow> local m"
  by (simp add: local_def)

lemma local_andThen: "local m \<Longrightarrow> (\<And>x. local (f x)) \<Longrightarrow> local (andThen m f)"
  unfolding local_def andThen_Inr by blast

lemma local_basic: "local (ret v)" "local (raise e)" "local readByte" "local (takeBytes n)"
  by (auto simp: local_def readByte_def takeBytes_def split: list.splits if_splits)

lemma local_const: "local (\<lambda>bs. (x, bs))"
  by (auto simp: local_def)

lemma local_readBig: "local (readBig k v)"
  by (induction k arbitrary: v) (auto intro: local_andThen local_basic simp del: ret_run)

lemmas local_intros = local_basic local_const local_readBig local_andThen

lemma local_parts: "local (readAdditional a)" "local (readText n)" "local (readSimple a)"
proof -
  show "local (readAdditional a)"
    unfolding readAdditional_def Let_def by (auto intro!: local_intros simp del: ret_run raise_run readBig.simps)
  show "local (readText n)"
    unfolding readText_def
    by (auto intro!: local_intros simp del: ret_run raise_run split: option.split)
  show "local (readSimple a)"
    unfolding readSimple_def readFloat16_def readFloat32_def readFloat64_def Let_def
    by (auto intro!: local_intros simp del: ret_run raise_run readBig.simps)
qed

lemma local_read: "local (readValue room)" "local (readItems room n)" "local (readFields room n acc)"
proof (induction room and room n and room n acc rule: readValue_readItems_readFields.induct)
  case (2 room)
  show ?case unfolding readValue.simps Let_def
  proof (rule local_andThen [OF local_basic(3)])
    fix b
    show "local (if b div 32 = 7 then readSimple (b mod 32)
        else andThen (readAdditional (b mod 32)) (\<lambda>len.
          if b div 32 = 0 then ret (VInt (int len))
          else if b div 32 = 1 then ret (negated len)
          else if b div 32 = 2 then raise ByteStringFound
          else if b div 32 = 3 then andThen (readText len) (\<lambda>s. ret (VStr s))
          else if b div 32 = 4 then
            (if MAX_CBOR_COLLECTION_LENGTH < len then raise CollectionTooLarge
             else andThen (readItems room len) (\<lambda>vs. ret (VArr vs)))
          else if b div 32 = 5 then
            (if MAX_CBOR_COLLECTION_LENGTH < len then raise CollectionTooLarge
             else andThen (readFields room len []) (\<lambda>fs. ret (VObj fs)))
          else raise TagFound))"
    proof (cases "b div 32 = 7")
      case False
      note ih = "2.IH"(1) [OF refl refl False] "2.IH"(2) [OF refl refl False]
      show ?thesis unfolding if_not_P [OF False]
      proof (rule local_andThen [OF local_parts(1)])
        fix len
        show "local (if b div 32 = 0 then ret (VInt (int len))
          else if b div 32 = 1 then ret (negated len)
          else if b div 32 = 2 then raise ByteStringFound
          else if b div 32 = 3 then andThen (readText len) (\<lambda>s. ret (VStr s))
          else if b div 32 = 4 then
            (if MAX_CBOR_COLLECTION_LENGTH < len then raise CollectionTooLarge
             else andThen (readItems room len) (\<lambda>vs. ret (VArr vs)))
          else if b div 32 = 5 then
            (if MAX_CBOR_COLLECTION_LENGTH < len then raise CollectionTooLarge
             else andThen (readFields room len []) (\<lambda>fs. ret (VObj fs)))
          else raise TagFound)"
          using ih by (auto intro!: local_andThen local_basic local_parts simp del: ret_run raise_run)
      qed
    qed (simp add: local_parts)
  qed
next
  case (6 room n acc)
  then show ?case unfolding readFields.simps
    by (intro local_andThen) (auto intro!: local_andThen local_basic split: jval.split simp del: ret_run raise_run)
qed (auto simp only: readValue.simps readItems.simps readFields.simps intro!: local_andThen local_basic)

section \<open>The claims\<close>

lemma assert_ok:
  "jsonOk room v \<Longrightarrow> assertJsonValue n p v = None"
  "list_all (jsonOk room) vs \<Longrightarrow> assertItems n p k vs = None"
  "list_all (\<lambda>(k, v). jsonOk room v) fs \<Longrightarrow> assertFields n p fs = None"
proof (induction n p v and n p k vs and n p fs arbitrary: room and room and room
    rule: assertJsonValue_assertItems_assertFields.induct)
  case (4 n p w)
  then show ?case by (cases room) simp_all
next
  case (6 n p vs)
  then obtain r where "room = Suc r" by (cases room) simp_all
  then show ?case using "6.prems" by (auto intro: "6.IH")
next
  case (7 n p fs)
  then obtain r where "room = Suc r" by (cases room) simp_all
  then show ?case using "7.prems" by (auto simp: list_all_iff intro!: "7.IH" [of r])
next
  case (9 n p k v vs)
  have "assertJsonValue n (p @ [AtIndex k]) v = None" by (rule "9.IH"(1) [of room]) (use "9.prems" in simp)
  with "9.IH"(2) [OF this] "9.prems" show ?case by auto
next
  case (11 n p k v fs)
  have "assertJsonValue n (p @ [AtKey k]) v = None" by (rule "11.IH"(1) [of room]) (use "11.prems" in simp)
  with "11.IH"(2) [OF this] "11.prems" show ?case by auto
qed simp_all

lemma encode_ok: "jsonOk room v \<Longrightarrow> encodeCbor v = writeValue v"
  by (simp add: encodeCbor_def assert_ok(1))

text \<open>C19: Round trip of the wire format. Encoding a JSON value within the limits of the reader
  succeeds, and decoding the bytes returns the same value with the keys of every object in sorted
  order (\<open>-0\<close> becomes \<open>0\<close>). A string must not begin with a byte order mark, which the decoder
  strips.\<close>

theorem cbor_roundtrip:
  assumes "jsonOk (Suc MAX_CBOR_DEPTH) v" and "plainText v"
  shows "\<exists>bs. encodeCbor v = Inr bs \<and> decodeCbor bs = Inr (canonForm v)"
proof -
  have "jsonOk (Suc MAX_CBOR_DEPTH) v \<and> plainText v" using assms by simp
  from cbor.written [OF this] obtain bs where "writeValue v = Inr bs"
    "readValue (Suc MAX_CBOR_DEPTH) bs = (Inr (canonForm v), [])" by blast
  then show ?thesis by (simp add: encode_ok [OF assms(1)] decodeCbor_def)
qed

definition demoVal :: jval where
  "demoVal = VObj [([0x62], VArr [VInt 300, VFloat 0x3FF8000000000000, VBool True]), ([0x61], VStr [0xD83D, 0xDE00])]"

lemma depth3: "(128 :: nat) = Suc (Suc 126)"
  by simp

lemma demoVal_ok: "jsonOk (Suc MAX_CBOR_DEPTH) demoVal" "plainText demoVal"
proof -
  have float: "isFinite 0x3FF8000000000000" "safeValue 0x3FF8000000000000 = None"
    by (simp_all add: isFinite_def safeValue_def expo_def frac_def negative_def)
  have "jsonOk (Suc (Suc (Suc r))) demoVal" for r
    using float by (simp add: demoVal_def MAX_CBOR_COLLECTION_LENGTH_def highSur_def lowSur_def MAX_SAFE_def)
  from this [of 126] show "jsonOk (Suc MAX_CBOR_DEPTH) demoVal" by (simp only: MAX_CBOR_DEPTH_def depth3)
  show "plainText demoVal"
    by (simp add: demoVal_def plain_def startsBom_def toUtf8_def highSur_def lowSur_def joinSur_def utf8_def MAX_SAFE_def)
qed

theorem cbor_roundtrip_witness:
  "\<exists>bs. encodeCbor demoVal = Inr bs \<and> decodeCbor bs = Inr (canonForm demoVal)"
  by (rule cbor_roundtrip [OF demoVal_ok])


lemma canon_bytes: "writeValue (canonForm v) = writeValue v"
proof (induction v)
  case (VArr vs)
  then have "map writeValue (map canonForm vs) = map writeValue vs" by simp
  then show ?case by (simp only: canonForm.simps writeValue.simps length_map)
next
  case (VObj fs)
  let ?g = "\<lambda>(k, v). (k, thenWrite (writeText k) (writeValue v))" and ?c = "\<lambda>(k, v). (k, canonForm v)"
  have same: "map ?g (map ?c (sortFields fs)) = map ?g (sortFields fs)"
    using VObj.IH by auto
  have "writeValue (canonForm (VObj fs)) = thenWrite (writeHead 5 (length fs))
      (writeAll (map snd (sortFields (map ?g (map ?c (sortFields fs))))))"
    by (simp only: canonForm.simps writeValue.simps sortFields_keep length_map length_sortFields)
  also have "sortFields (map ?g (map ?c (sortFields fs))) = sortFields (map ?g fs)"
    unfolding same by (simp only: sortFields_keep sortFields_idem)
  finally show ?case by (simp only: writeValue.simps)
next
  case (VFloat w)
  then show ?case by (simp add: isFinite_def expo_def negZero_def)
qed simp_all


definition demoVal' :: jval where
  "demoVal' = VObj [([0x61], VStr [0xD83D, 0xDE00]), ([0x62], VArr [VInt 300, VFloat 0x3FF8000000000000, VBool True])]"




section \<open>What does not survive\<close>

text \<open>A byte order mark at the start of a string is lost on the way through CBOR.\<close>

lemma bom_is_lost: "fromUtf8 (toUtf8 [0xFEFF, 0x61]) = Some [0x61]"
proof -
  have cp: "codePoints [0xFEFF, 0x61] = [0xFEFF, 0x61]" by (simp add: highSur_def lowSur_def)
  have enc: "toUtf8 [0xFEFF, 0x61] = [0xEF, 0xBB, 0xBF, 0x61]"
    unfolding toUtf8_def cp by (simp add: utf8_def byteOf_def)
  have "readPoints (concat (map utf8 [0x61])) = Some [0x61]"
    by (rule readPoints_utf8) (simp add: scalar_def)
  then have "readPoints [0x61] = Some [0x61]" by (simp add: utf8_def byteOf_def)
  then show ?thesis unfolding fromUtf8_def enc by (simp add: dropBom_def units_def unitOf_def)
qed

text \<open>Canonical JSON drops an own property called \<open>__proto__\<close>: two different values share a
  canonical form.\<close>

lemma canonical_json_drops_proto:
  "canonicalize (VObj [(protoKey, v)]) = canonicalize (VObj [])"
  by (simp add: sortFields_def)

end
