(* ===== verification/Drainer.thy ===== *)
theory Drainer
  imports Utf Text
begin

text \<open>
  Bounded capture of a process's output, \<open>setupStreamDrainer\<close> in
  \<open>src/src/supervisor/drainer.ts\<close>: the first bytes are kept in a list of chunks, the last ones in a
  ring buffer, and the result joins them around a marker. Modelled are the buffers, the counters and
  the text of the result; writing the spill file, its hash and the back-pressure on the stream are
  host effects.
\<close>

section \<open>Character boundaries\<close>

text \<open>The high bits of a byte, as the masks of the code test them.\<close>

definition leadByte :: "8 word \<Rightarrow> bool" where
  "leadByte b \<longleftrightarrow> 0xC0 \<le> unat b"

definition contMark :: "8 word \<Rightarrow> bool" where
  "contMark b \<longleftrightarrow> 0x80 \<le> unat b \<and> unat b < 0xC0"

definition needed :: "8 word \<Rightarrow> nat" where
  "needed b = (if 0xC0 \<le> unat b \<and> unat b < 0xE0 then 2
     else if 0xE0 \<le> unat b \<and> unat b < 0xF0 then 3
     else if 0xF0 \<le> unat b \<and> unat b < 0xF8 then 4 else 1)"

text \<open>The loop of \<open>trimToValidUtf8\<close> from \<open>i\<close> on, at most to the third byte from the end.\<close>

function trimFrom :: "nat \<Rightarrow> bytes \<Rightarrow> bytes" where
  "trimFrom i buf =
     (if i \<le> min 3 (length buf)
      then (let b = buf ! (length buf - i)
            in if leadByte b then (if i < needed b then take (length buf - i) buf else buf)
               else if unat b < 0x80 then buf
               else trimFrom (Suc i) buf)
      else buf)"
  by pat_completeness auto
termination by (relation "measure (\<lambda>(i, _). 4 - i)") auto

declare trimFrom.simps [simp del]

definition trimToValidUtf8 :: "bytes \<Rightarrow> bytes" where
  "trimToValidUtf8 buf = trimFrom 1 buf"

definition trimStartToValidUtf8 :: "bytes \<Rightarrow> bytes" where
  "trimStartToValidUtf8 buf = dropWhile contMark buf"

section \<open>The buffers\<close>

record limits =
  lim_max :: nat
  lim_head :: nat
  lim_tail :: nat

definition overheadOf :: "nat \<Rightarrow> nat" where
  "overheadOf maxBytes = (if 80 \<le> maxBytes then min 64 (maxBytes div 4) else 0)"

text \<open>\<open>Math.floor(effectiveMax * 0.75)\<close>; three quarters of an integer are exact in a double.\<close>

definition limitsOf :: "nat \<Rightarrow> limits" where
  "limitsOf maxBytes =
     (let overhead = overheadOf maxBytes; effectiveMax = maxBytes - overhead;
          headMax = (if 0 < overhead then effectiveMax * 3 div 4 else maxBytes)
      in \<lparr>lim_max = maxBytes, lim_head = headMax,
          lim_tail = (if 0 < overhead then effectiveMax - headMax else 0)\<rparr>)"

record drain =
  dr_headChunks :: "bytes list"
  dr_headBytes :: nat
  dr_bytesSeen :: nat
  dr_isTruncated :: bool
  dr_ring :: bytes
  dr_tailHead :: nat
  dr_tailCount :: nat

definition emptyDrain :: "limits \<Rightarrow> drain" where
  "emptyDrain lim = \<lparr>dr_headChunks = [], dr_headBytes = 0, dr_bytesSeen = 0, dr_isTruncated = False,
     dr_ring = replicate (lim_tail lim) 0, dr_tailHead = 0, dr_tailCount = 0\<rparr>"

definition keepHead :: "limits \<Rightarrow> bytes \<Rightarrow> drain \<Rightarrow> drain" where
  "keepHead lim buf d =
     (if dr_headBytes d < lim_head lim
      then if dr_headBytes d + length buf \<le> lim_head lim
           then d\<lparr>dr_headChunks := dr_headChunks d @ [buf], dr_headBytes := dr_headBytes d + length buf\<rparr>
           else (let remaining = lim_head lim - dr_headBytes d
                 in d\<lparr>dr_headChunks := (if 0 < remaining then dr_headChunks d @ [take remaining buf] else dr_headChunks d),
                      dr_headBytes := dr_headBytes d + remaining, dr_isTruncated := True\<rparr>)
      else d\<lparr>dr_isTruncated := True\<rparr>)"

text \<open>One byte written into the ring.\<close>

definition pushByte :: "nat \<Rightarrow> 8 word \<Rightarrow> bytes \<times> nat \<Rightarrow> bytes \<times> nat" where
  "pushByte n b rh = ((fst rh)[snd rh := b], (snd rh + 1) mod n)"

definition keepTail :: "limits \<Rightarrow> bytes \<Rightarrow> drain \<Rightarrow> drain" where
  "keepTail lim buf d =
     (if 0 < lim_tail lim
      then if lim_tail lim \<le> length buf
           then d\<lparr>dr_ring := drop (length buf - lim_tail lim) buf, dr_tailHead := 0, dr_tailCount := lim_tail lim\<rparr>
           else (let rh = fold (pushByte (lim_tail lim)) buf (dr_ring d, dr_tailHead d)
                 in d\<lparr>dr_ring := fst rh, dr_tailHead := snd rh,
                      dr_tailCount := min (lim_tail lim) (dr_tailCount d + length buf)\<rparr>)
      else d)"

text \<open>The \<open>data\<close> handler.\<close>

definition onData :: "limits \<Rightarrow> bytes \<Rightarrow> drain \<Rightarrow> drain" where
  "onData lim buf d =
     (let d1 = d\<lparr>dr_bytesSeen := dr_bytesSeen d + length buf\<rparr>;
          d2 = keepHead lim buf d1;
          d3 = (if lim_max lim < dr_bytesSeen d2 then d2\<lparr>dr_isTruncated := True\<rparr> else d2)
      in keepTail lim buf d3)"

definition drainAll :: "limits \<Rightarrow> bytes list \<Rightarrow> drain" where
  "drainAll lim chunks = fold (onData lim) chunks (emptyDrain lim)"

section \<open>The result\<close>

definition rawTail :: "limits \<Rightarrow> drain \<Rightarrow> bytes" where
  "rawTail lim d =
     (if 0 < lim_tail lim \<and> 0 < dr_tailCount d
      then if dr_tailCount d < lim_tail lim then take (dr_tailCount d) (dr_ring d)
           else drop (dr_tailHead d) (dr_ring d) @ take (dr_tailHead d) (dr_ring d)
      else [])"

text \<open>The content before it is decoded as text: the parts kept, and the number of bytes the marker
  between them names; \<open>None\<close> when there is no marker.\<close>

definition resultParts :: "limits \<Rightarrow> drain \<Rightarrow> bytes \<times> nat option \<times> bytes" where
  "resultParts lim d =
     (if dr_bytesSeen d \<le> lim_max lim then (concat (dr_headChunks d), None, [])
      else (let rawHead = trimToValidUtf8 (concat (dr_headChunks d));
                cleanTail = trimStartToValidUtf8 (rawTail lim d)
            in (rawHead, Some (dr_bytesSeen d - length rawHead - length cleanTail), cleanTail)))"

definition marker :: "nat \<Rightarrow> string" where
  "marker n = CHR 0x0A # ''[... truncated '' @ natText n @ '' bytes ...]'' @ [CHR 0x0A]"

end
