(* ===== verification/DrainerProps.thy ===== *)
theory DrainerProps
  imports Drainer
begin

text \<open>
  The drainer implements a simple specification, whatever chunks the stream delivers: the head is
  the first \<open>lim_head\<close> bytes, the tail the last \<open>lim_tail\<close> bytes. On text, truncation never splits a
  character and the marker counts exactly the bytes that are missing.
\<close>

section \<open>The ring buffer\<close>

definition window :: "nat \<Rightarrow> bytes \<Rightarrow> bytes" where
  "window n bs = drop (length bs - n) bs"

lemma window_snoc: "n \<le> length bs \<Longrightarrow> 0 < n \<Longrightarrow> window n (bs @ [b]) = tl (window n bs) @ [b]"
proof -
  assume n: "n \<le> length bs" "0 < n"
  then have "length (bs @ [b]) - n = Suc (length bs - n)" by simp
  with n show ?thesis by (simp add: window_def drop_Suc tl_drop)
qed

lemma window_short: "length bs \<le> n \<Longrightarrow> window n bs = bs"
  by (simp add: window_def)

lemma window_append: "n \<le> length ys \<Longrightarrow> window n (xs @ ys) = drop (length ys - n) ys"
  by (simp add: window_def)

text \<open>A ring of size \<open>n\<close> that has been given the bytes \<open>bs\<close>.\<close>

definition ringOk :: "nat \<Rightarrow> bytes \<Rightarrow> bytes \<times> nat \<Rightarrow> bool" where
  "ringOk n bs rh \<longleftrightarrow> length (fst rh) = n \<and> snd rh < n
     \<and> (if length bs < n then snd rh = length bs \<and> take (length bs) (fst rh) = bs
        else drop (snd rh) (fst rh) @ take (snd rh) (fst rh) = window n bs)"

lemma ringOk_push:
  assumes "ringOk n bs rh"
  shows "ringOk n (bs @ [b]) (pushByte n b rh)"
proof -
  obtain r h where rh: "rh = (r, h)" by (cases rh)
  have len: "length r = n" "h < n" using assms by (simp_all add: ringOk_def rh)
  consider "length bs + 1 < n" | "length bs + 1 = n" | "n \<le> length bs" by linarith
  then show ?thesis
  proof cases
    case 1
    then have "h = length bs" "take h r = bs" using assms by (simp_all add: ringOk_def rh)
    then show ?thesis using 1 len by (simp add: ringOk_def rh pushByte_def take_Suc_conv_app_nth)
  next
    case 2
    then have h: "h = length bs" "take h r = bs" using assms by (simp_all add: ringOk_def rh)
    then have "r[h := b] = bs @ [b]" using 2 len
      by (metis Suc_eq_plus1 upd_conv_take_nth_drop drop_all append_Nil2 le_refl length_list_update)
    then show ?thesis using 2 len h by (simp add: ringOk_def rh pushByte_def window_short)
  next
    case 3
    then have w: "drop h r @ take h r = window n bs" using assms by (simp add: ringOk_def rh)
    have step: "window n (bs @ [b]) = tl (drop h r @ take h r) @ [b]"
      using 3 len w by (simp add: window_snoc)
    have dr: "drop h r = r ! h # drop (Suc h) r" using len by (simp add: Cons_nth_drop_Suc)
    show ?thesis
    proof (cases "h + 1 < n")
      case True
      then have "drop (Suc h) (r[h := b]) @ take (Suc h) (r[h := b]) = tl (drop h r @ take h r) @ [b]"
        using len dr by (simp add: take_Suc_conv_app_nth)
      then show ?thesis using 3 True len step by (simp add: ringOk_def rh pushByte_def)
    next
      case False
      then have "Suc h = n" using len by simp
      then have "r[h := b] = take h r @ [b]" "drop (Suc h) r = []" using len
        by (simp_all add: upd_conv_take_nth_drop)
      then show ?thesis using 3 \<open>Suc h = n\<close> len step dr by (simp add: ringOk_def rh pushByte_def)
    qed
  qed
qed

lemma ringOk_fold: "ringOk n bs rh \<Longrightarrow> ringOk n (bs @ cs) (fold (pushByte n) cs rh)"
proof (induction cs arbitrary: bs rh)
  case (Cons c cs)
  from Cons.IH [OF ringOk_push [OF Cons.prems, of c]] show ?case by simp
qed simp

section \<open>What the buffers hold\<close>

definition holds :: "limits \<Rightarrow> bytes \<Rightarrow> drain \<Rightarrow> bool" where
  "holds lim bs d \<longleftrightarrow> concat (dr_headChunks d) = take (lim_head lim) bs \<and> dr_headBytes d = min (lim_head lim) (length bs)
     \<and> dr_bytesSeen d = length bs \<and> (dr_isTruncated d \<longleftrightarrow> lim_head lim < length bs)
     \<and> (0 < lim_tail lim \<longrightarrow> ringOk (lim_tail lim) bs (dr_ring d, dr_tailHead d)
          \<and> dr_tailCount d = min (lim_tail lim) (length bs))"

lemma holds_empty: "holds lim [] (emptyDrain lim)"
  by (simp add: holds_def emptyDrain_def ringOk_def)

lemma keepHead_spec:
  assumes "concat (dr_headChunks d) = take H bs" "dr_headBytes d = min H (length bs)" "H = lim_head lim" "buf \<noteq> []"
  shows "concat (dr_headChunks (keepHead lim buf d)) = take H (bs @ buf)"
    and "dr_headBytes (keepHead lim buf d) = min H (length (bs @ buf))"
    and "dr_isTruncated (keepHead lim buf d) \<longleftrightarrow> dr_isTruncated d \<or> H < length (bs @ buf)"
    and "dr_bytesSeen (keepHead lim buf d) = dr_bytesSeen d" "dr_ring (keepHead lim buf d) = dr_ring d"
    and "dr_tailHead (keepHead lim buf d) = dr_tailHead d" "dr_tailCount (keepHead lim buf d) = dr_tailCount d"
proof -
  obtain x xs where buf: "buf = x # xs" using assms(4) by (cases buf) auto
  consider (fits) "length bs < H" "length bs + length buf \<le> H" | (cutAt) "length bs < H" "H < length bs + length buf" | (full) "H \<le> length bs"
    by linarith
  then have "concat (dr_headChunks (keepHead lim buf d)) = take H (bs @ buf)
    \<and> dr_headBytes (keepHead lim buf d) = min H (length (bs @ buf))
    \<and> (dr_isTruncated (keepHead lim buf d) \<longleftrightarrow> dr_isTruncated d \<or> H < length (bs @ buf))"
    by cases (use assms(1,2,3) buf in \<open>simp_all add: keepHead_def Let_def\<close>)
  then show "concat (dr_headChunks (keepHead lim buf d)) = take H (bs @ buf)"
    "dr_headBytes (keepHead lim buf d) = min H (length (bs @ buf))"
    "dr_isTruncated (keepHead lim buf d) \<longleftrightarrow> dr_isTruncated d \<or> H < length (bs @ buf)" by simp_all
qed (simp_all add: keepHead_def Let_def)

lemma onData_holds:
  assumes "holds lim bs d" "buf \<noteq> []" "lim_head lim \<le> lim_max lim"
  shows "holds lim (bs @ buf) (onData lim buf d)"
proof -
  define d1 where "d1 = d\<lparr>dr_bytesSeen := dr_bytesSeen d + length buf\<rparr>"
  define d2 where "d2 = keepHead lim buf d1"
  define d3 where "d3 = (if lim_max lim < dr_bytesSeen d2 then d2\<lparr>dr_isTruncated := True\<rparr> else d2)"
  have d: "onData lim buf d = keepTail lim buf d3" by (simp add: onData_def d1_def d2_def d3_def Let_def)
  have "concat (dr_headChunks d1) = take (lim_head lim) bs" "dr_headBytes d1 = min (lim_head lim) (length bs)"
    using assms(1) by (simp_all add: holds_def d1_def)
  note h = keepHead_spec [OF this refl assms(2), folded d2_def]
  have head: "concat (dr_headChunks d3) = take (lim_head lim) (bs @ buf)"
    "dr_headBytes d3 = min (lim_head lim) (length (bs @ buf))" "dr_bytesSeen d3 = length (bs @ buf)"
    "dr_isTruncated d3 \<longleftrightarrow> lim_head lim < length (bs @ buf)"
    "dr_ring d3 = dr_ring d" "dr_tailHead d3 = dr_tailHead d" "dr_tailCount d3 = dr_tailCount d"
    using h assms(1,3) by (auto simp: d3_def d1_def holds_def)
  show ?thesis
  proof (cases "0 < lim_tail lim")
    case False
    then show ?thesis using head by (simp add: d keepTail_def holds_def)
  next
    case True
    then have ring: "ringOk (lim_tail lim) bs (dr_ring d, dr_tailHead d)"
      "dr_tailCount d = min (lim_tail lim) (length bs)" using assms(1) by (simp_all add: holds_def)
    show ?thesis
    proof (cases "lim_tail lim \<le> length buf")
      case big: True
      then have "ringOk (lim_tail lim) (bs @ buf) (drop (length buf - lim_tail lim) buf, 0)"
        using True by (simp add: ringOk_def window_append)
      then show ?thesis using True big head by (simp add: d keepTail_def holds_def)
    next
      case small: False
      from ringOk_fold [OF ring(1), of buf] show ?thesis
        using True small head ring(2) by (auto simp: d keepTail_def holds_def Let_def)
    qed
  qed
qed

lemma drainAll_holds:
  assumes "[] \<notin> set chunks" "lim_head lim \<le> lim_max lim"
  shows "holds lim (concat chunks) (drainAll lim chunks)"
proof -
  have "holds lim (bs @ concat chunks) (fold (onData lim) chunks d)" if "holds lim bs d" for bs d
    using that assms(1)
  proof (induction chunks arbitrary: bs d)
    case (Cons c cs)
    have "holds lim (bs @ c) (onData lim c d)" by (rule onData_holds) (use Cons.prems assms(2) in auto)
    from Cons.IH [OF this] Cons.prems show ?case by simp
  qed simp
  from this [OF holds_empty] show ?thesis by (simp add: drainAll_def)
qed

lemma rawTail_holds: "holds lim bs d \<Longrightarrow> rawTail lim d = window (lim_tail lim) bs"
  by (auto simp: holds_def rawTail_def ringOk_def window_def split: if_splits)

lemma limits_bound: "lim_head (limitsOf m) + lim_tail (limitsOf m) \<le> m" "lim_max (limitsOf m) = m"
    "lim_head (limitsOf m) \<le> m"
  by (auto simp: limitsOf_def overheadOf_def Let_def)

text \<open>C30: What is captured does not depend on the chunks. For any output delivered in non-empty
  chunks, the result is a function of the bytes alone: up to \<open>maxBytes\<close> the first \<open>lim_head\<close> bytes
  and nothing else (so output between \<open>lim_head\<close> and \<open>maxBytes\<close> loses its end with no marker), above
  it the head and the last \<open>lim_tail\<close> bytes trimmed to characters; truncation is flagged exactly when
  the output is longer than \<open>lim_head\<close>; and head and tail together never exceed \<open>maxBytes\<close>.\<close>

theorem capture_is_chunking_independent:
  assumes "[] \<notin> set chunks"
  shows "let lim = limitsOf maxBytes; bs = concat chunks; d = drainAll lim chunks
    in dr_bytesSeen d = length bs \<and> (dr_isTruncated d \<longleftrightarrow> lim_head lim < length bs)
       \<and> lim_head lim + lim_tail lim \<le> maxBytes
       \<and> resultParts lim d =
         (if length bs \<le> maxBytes then (take (lim_head lim) bs, None, [])
          else (let a = trimToValidUtf8 (take (lim_head lim) bs);
                    z = trimStartToValidUtf8 (drop (length bs - lim_tail lim) bs)
                in (a, Some (length bs - length a - length z), z)))"
proof -
  have h: "holds (limitsOf maxBytes) (concat chunks) (drainAll (limitsOf maxBytes) chunks)"
    by (rule drainAll_holds [OF assms]) (simp add: limits_bound)
  show ?thesis
    using h limits_bound(1,2) [of maxBytes] rawTail_holds [OF h]
    by (simp add: holds_def resultParts_def Let_def window_def)
qed

theorem capture_is_chunking_independent_witness:
  "resultParts (limitsOf 100) (drainAll (limitsOf 100) [replicate 50 0x61, replicate 10 0x62])
     = (replicate 50 0x61 @ replicate 6 0x62, None, [])"
proof -
  have "[] \<notin> set [replicate 50 (0x61 :: 8 word), replicate 10 0x62]" by simp
  from capture_is_chunking_independent [OF this, of 100]
  have "resultParts (limitsOf 100) (drainAll (limitsOf 100) [replicate 50 0x61, replicate 10 0x62])
     = (take (lim_head (limitsOf 100)) (replicate 50 0x61 @ replicate 10 0x62), None, [])"
    by (simp add: Let_def)
  moreover have "lim_head (limitsOf 100) = 56" by (simp add: limitsOf_def overheadOf_def Let_def)
  ultimately show ?thesis by simp
qed

section \<open>Characters\<close>

definition enc :: "nat list \<Rightarrow> bytes" where
  "enc cs = concat (map utf8 cs)"

lemma enc_simps [simp]: "enc [] = []" "enc (c # cs) = utf8 c @ enc cs"
  by (simp_all add: enc_def)

lemma enc_append: "enc (cs @ ds) = enc cs @ enc ds"
  by (simp add: enc_def)

text \<open>The shape of an encoded character: a first byte that says how many follow, and continuation
  bytes.\<close>

lemma unat_cont: "n < 64 \<Longrightarrow> contMark (byteOf (0x80 + n))"
  by (simp add: contMark_def)

lemma utf8_shape:
  assumes "scalar c"
  obtains b bs where "utf8 c = b # bs" "\<not> contMark b" "list_all contMark bs"
    "bs = [] \<and> unat b < 0x80 \<or> leadByte b \<and> needed b = Suc (length bs)" "length bs \<le> 3"
proof -
  have top: "c < 0x110000" using assms by (auto simp: scalar_def)
  consider "c < 0x80" | "0x80 \<le> c" "c < 0x800" | "0x800 \<le> c" "c < 0x10000" | "0x10000 \<le> c" by linarith
  then show ?thesis
  proof cases
    case 1
    then show ?thesis by (intro that [of "byteOf c" "[]"]) (simp_all add: utf8_def contMark_def)
  next
    case 2
    define q where "q = c div 64"
    have q: "q < 32" using 2 by (simp add: q_def less_mult_imp_div_less)
    then have "unat (byteOf (0xC0 + q)) = 0xC0 + q" by simp
    with 2 q show ?thesis
      by (intro that [of "byteOf (0xC0 + q)" "[byteOf (0x80 + c mod 64)]"])
        (simp_all add: utf8_def q_def [symmetric] unat_cont contMark_def leadByte_def needed_def)
  next
    case 3
    define q where "q = c div 4096"
    have q: "q < 16" using 3 by (simp add: q_def less_mult_imp_div_less)
    then have "unat (byteOf (0xE0 + q)) = 0xE0 + q" by simp
    with 3 q show ?thesis
      by (intro that [of "byteOf (0xE0 + q)" "[byteOf (0x80 + c div 64 mod 64), byteOf (0x80 + c mod 64)]"])
        (simp_all add: utf8_def q_def [symmetric] unat_cont contMark_def leadByte_def needed_def)
  next
    case 4
    define q where "q = c div 262144"
    have q: "q < 8" using top by (simp add: q_def less_mult_imp_div_less)
    then have "unat (byteOf (0xF0 + q)) = 0xF0 + q" by simp
    with 4 q show ?thesis
      by (intro that [of "byteOf (0xF0 + q)" "[byteOf (0x80 + c div 4096 mod 64), byteOf (0x80 + c div 64 mod 64), byteOf (0x80 + c mod 64)]"])
        (simp_all add: utf8_def q_def [symmetric] unat_cont contMark_def leadByte_def needed_def)
  qed
qed

text \<open>Cutting a text at any byte leaves whole characters and the two parts of at most one.\<close>

lemma cut:
  assumes "n \<le> length (enc cs)"
  obtains (whole) k where "k \<le> length cs" "take n (enc cs) = enc (take k cs)" "drop n (enc cs) = enc (drop k cs)"
  | (inside) k p q where "k < length cs" "p \<noteq> []" "q \<noteq> []" "p @ q = utf8 (cs ! k)"
      "take n (enc cs) = enc (take k cs) @ p" "drop n (enc cs) = q @ enc (drop (Suc k) cs)"
proof -
  have "(\<exists>k \<le> length cs. take n (enc cs) = enc (take k cs) \<and> drop n (enc cs) = enc (drop k cs))
    \<or> (\<exists>k p q. k < length cs \<and> p \<noteq> [] \<and> q \<noteq> [] \<and> p @ q = utf8 (cs ! k)
        \<and> take n (enc cs) = enc (take k cs) @ p \<and> drop n (enc cs) = q @ enc (drop (Suc k) cs))"
    using assms
  proof (induction cs arbitrary: n)
    case (Cons c cs)
    consider "n = 0" | "0 < n" "n < length (utf8 c)" | "length (utf8 c) \<le> n" by linarith
    then show ?case
    proof cases
      case 1
      then show ?thesis by (intro disjI1 exI [of _ 0]) simp
    next
      case 2
      then show ?thesis
        by (intro disjI2 exI [of _ 0] exI [of _ "take n (utf8 c)"] exI [of _ "drop n (utf8 c)"]) simp
    next
      case 3
      define m where "m = n - length (utf8 c)"
      have n: "n = length (utf8 c) + m" using 3 by (simp add: m_def)
      have "m \<le> length (enc cs)" using Cons.prems n by simp
      from Cons.IH [OF this] show ?thesis
      proof
        assume "\<exists>k \<le> length cs. take m (enc cs) = enc (take k cs) \<and> drop m (enc cs) = enc (drop k cs)"
        then obtain k where "k \<le> length cs" "take m (enc cs) = enc (take k cs)" "drop m (enc cs) = enc (drop k cs)"
          by blast
        then show ?thesis by (intro disjI1 exI [of _ "Suc k"]) (simp add: n)
      next
        assume "\<exists>k p q. k < length cs \<and> p \<noteq> [] \<and> q \<noteq> [] \<and> p @ q = utf8 (cs ! k)
          \<and> take m (enc cs) = enc (take k cs) @ p \<and> drop m (enc cs) = q @ enc (drop (Suc k) cs)"
        then obtain k p q where "k < length cs" "p \<noteq> []" "q \<noteq> []" "p @ q = utf8 (cs ! k)"
          "take m (enc cs) = enc (take k cs) @ p" "drop m (enc cs) = q @ enc (drop (Suc k) cs)" by blast
        then show ?thesis by (intro disjI2 exI [of _ "Suc k"] exI [of _ p] exI [of _ q]) (simp add: n)
      qed
    qed
  qed simp
  then show ?thesis using that by blast
qed

text \<open>Trimming the end: the loop walks back over continuation bytes to the first byte of the last
  character.\<close>

lemma nth_from_end: "0 < i \<Longrightarrow> i \<le> length z \<Longrightarrow> (y @ z) ! (length (y @ z) - i) = z ! (length z - i)"
proof -
  assume "0 < i" "i \<le> length z"
  then have "length (y @ z) - i = length y + (length z - i)" by simp
  then show ?thesis by (simp only: nth_append_length_plus)
qed

lemma trim_walk:
  assumes "list_all contMark bs" "0 < i" "i \<le> Suc (length bs)" "length bs \<le> 3"
  shows "trimFrom i (y @ b # bs) = trimFrom (Suc (length bs)) (y @ b # bs)"
  using assms(2,3)
proof (induction "Suc (length bs) - i" arbitrary: i)
  case 0
  then show ?case by simp
next
  case (Suc d)
  then have i: "0 < i" "i \<le> length bs" by simp_all
  have "(y @ b # bs) ! (length (y @ b # bs) - i) = bs ! (length bs - i)"
    using nth_from_end [of i bs "y @ [b]"] i by simp
  moreover have "i \<le> length (y @ b # bs)" using i by simp
  moreover have "contMark (bs ! (length bs - i))" using assms(1) i by (simp add: list_all_length)
  ultimately have "trimFrom i (y @ b # bs) = trimFrom (Suc i) (y @ b # bs)"
    using i assms(4) trimFrom.simps [of i "y @ b # bs"] by (simp add: Let_def leadByte_def contMark_def del: length_append)
  then show ?case using Suc.hyps(1) [of "Suc i"] Suc.hyps(2) i by simp
qed

lemma trim_end:
  assumes "list_all contMark bs" "length bs \<le> 3"
    "bs = [] \<and> unat b < 0x80 \<or> leadByte b"
  shows "trimToValidUtf8 (y @ b # bs) =
    (if length bs < 3 \<and> leadByte b \<and> Suc (length bs) < needed b then y else y @ b # bs)"
proof -
  have first: "(y @ b # bs) ! (length (y @ b # bs) - Suc (length bs)) = b" by simp
  have "trimToValidUtf8 (y @ b # bs) = trimFrom (Suc (length bs)) (y @ b # bs)"
    unfolding trimToValidUtf8_def by (rule trim_walk [OF assms(1)]) (use assms(2) in simp_all)
  also have "\<dots> = (if length bs < 3 \<and> leadByte b \<and> Suc (length bs) < needed b then y else y @ b # bs)"
    using assms(2,3) by (subst trimFrom.simps) (auto simp: Let_def leadByte_def)
  finally show ?thesis .
qed

lemma trim_whole: "\<forall>c \<in> set cs. scalar c \<Longrightarrow> trimToValidUtf8 (enc cs) = enc cs"
proof (cases cs rule: rev_cases)
  case (snoc cs' c)
  assume "\<forall>c \<in> set cs. scalar c"
  then have "scalar c" using snoc by simp
  then obtain b bs where u: "utf8 c = b # bs" "list_all contMark bs"
    "bs = [] \<and> unat b < 0x80 \<or> leadByte b \<and> needed b = Suc (length bs)" "length bs \<le> 3"
    by (rule utf8_shape) (rule that)
  have "trimToValidUtf8 (enc cs' @ b # bs) = enc cs' @ b # bs"
    using trim_end [OF u(2,4), of b "enc cs'"] u(3) by (auto simp: leadByte_def)
  then show ?thesis by (simp add: snoc enc_append u(1))
qed (simp add: trimToValidUtf8_def trimFrom.simps)

lemma trim_inside:
  assumes "scalar c" "p \<noteq> []" "q \<noteq> []" "p @ q = utf8 c"
  shows "trimToValidUtf8 (y @ p) = y"
proof -
  obtain b bs where u: "utf8 c = b # bs" "list_all contMark bs"
    "bs = [] \<and> unat b < 0x80 \<or> leadByte b \<and> needed b = Suc (length bs)" "length bs \<le> 3"
    by (rule utf8_shape [OF assms(1)]) (rule that)
  obtain p' where p: "p = b # p'" "p' @ q = bs" using assms(2,4) u(1) by (cases p) auto
  have "list_all contMark p'" "length p' < length bs" "leadByte b" "needed b = Suc (length bs)"
    using u(2,3) p(2) assms(3) by auto
  then show ?thesis using trim_end [of p' b y] u(4) p(1) by simp
qed

lemma trimStart_whole: "\<forall>c \<in> set cs. scalar c \<Longrightarrow> trimStartToValidUtf8 (enc cs) = enc cs"
proof (cases cs)
  case (Cons c cs')
  assume "\<forall>c \<in> set cs. scalar c"
  then have "scalar c" using Cons by simp
  then obtain b bs where "utf8 c = b # bs" "\<not> contMark b" by (rule utf8_shape) (rule that)
  then show ?thesis by (simp add: Cons trimStartToValidUtf8_def)
qed (simp add: trimStartToValidUtf8_def)

lemma trimStart_inside:
  assumes "scalar c" "p \<noteq> []" "p @ q = utf8 c" "\<forall>c \<in> set cs. scalar c"
  shows "trimStartToValidUtf8 (q @ enc cs) = enc cs"
proof -
  obtain b bs where u: "utf8 c = b # bs" "list_all contMark bs" by (rule utf8_shape [OF assms(1)]) (rule that)
  then have "list_all contMark q" using assms(2,3) by (cases p) auto
  then show ?thesis using trimStart_whole [OF assms(4)]
    by (simp add: trimStartToValidUtf8_def list_all_iff dropWhile_append2)
qed

section \<open>Truncated text\<close>

lemma enc_take_drop: "enc cs = enc (take k cs) @ enc (drop k cs)"
  by (metis append_take_drop_id enc_append)

lemma head_chars:
  assumes "\<forall>c \<in> set cs. scalar c" "n \<le> length (enc cs)"
  obtains k where "k \<le> length cs" "trimToValidUtf8 (take n (enc cs)) = enc (take k cs)" "length (enc (take k cs)) \<le> n"
  using assms(2)
proof (cases rule: cut)
  case (whole k)
  have "trimToValidUtf8 (enc (take k cs)) = enc (take k cs)"
    by (rule trim_whole) (use assms(1) in \<open>auto dest: in_set_takeD\<close>)
  moreover have "length (enc (take k cs)) = n" using whole(2) assms(2) by (metis length_take min.absorb2)
  ultimately show ?thesis using that [OF whole(1)] whole(2) by simp
next
  case (inside k p q)
  have "scalar (cs ! k)" using assms(1) inside(1) by simp
  from trim_inside [OF this inside(2,3,4)] have t: "trimToValidUtf8 (take n (enc cs)) = enc (take k cs)"
    by (simp add: inside(5))
  have "length (enc (take k cs) @ p) = n" using inside(5) assms(2) by (metis length_take min.absorb2)
  then show ?thesis using that [of k] inside(1) t by simp
qed

lemma tail_chars:
  assumes "\<forall>c \<in> set cs. scalar c" "n \<le> length (enc cs)"
  obtains k where "k \<le> length cs" "trimStartToValidUtf8 (drop n (enc cs)) = enc (drop k cs)" "n \<le> length (enc (take k cs))"
  using assms(2)
proof (cases rule: cut)
  case (whole k)
  have "trimStartToValidUtf8 (enc (drop k cs)) = enc (drop k cs)"
    by (rule trimStart_whole) (use assms(1) in \<open>auto dest: in_set_dropD\<close>)
  moreover have "length (enc (take k cs)) = n" using whole(2) assms(2) by (metis length_take min.absorb2)
  ultimately show ?thesis using that [OF whole(1)] whole(3) by simp
next
  case (inside k p q)
  have "scalar (cs ! k)" using assms(1) inside(1) by simp
  moreover have "\<forall>c \<in> set (drop (Suc k) cs). scalar c" using assms(1) by (auto dest: in_set_dropD)
  ultimately have t: "trimStartToValidUtf8 (drop n (enc cs)) = enc (drop (Suc k) cs)"
    using trimStart_inside [OF _ inside(2,4)] by (simp add: inside(6))
  have "length (enc (take k cs) @ p) = n" using inside(5) assms(2) by (metis length_take min.absorb2)
  moreover have "enc (take (Suc k) cs) = enc (take k cs) @ p @ q"
    using inside(1,4) by (simp add: take_Suc_conv_app_nth enc_append)
  ultimately have "n \<le> length (enc (take (Suc k) cs))" by (metis append.assoc le_add1 length_append)
  then show ?thesis using that [of "Suc k"] inside(1) t by simp
qed

lemma enc_length_mono: "i \<le> j \<Longrightarrow> length (enc (take i cs)) \<le> length (enc (take j cs))"
proof -
  assume "i \<le> j"
  then have "take j cs = take i cs @ take (j - i) (drop i cs)" by (metis le_add_diff_inverse take_add)
  then show ?thesis by (simp add: enc_append)
qed

lemma utf8_pos: "scalar c \<Longrightarrow> 0 < length (utf8 c)"
  by (erule utf8_shape) simp

lemma enc_length_strict:
  assumes "\<forall>c \<in> set cs. scalar c" "i < j" "j \<le> length cs"
  shows "length (enc (take i cs)) < length (enc (take j cs))"
proof -
  have "scalar (cs ! i)" using assms by simp
  then have "length (enc (take i cs)) < length (enc (take (Suc i) cs))"
    using assms utf8_pos by (simp add: take_Suc_conv_app_nth enc_append)
  also have "\<dots> \<le> length (enc (take j cs))" by (rule enc_length_mono) (use assms(2) in simp)
  finally show ?thesis .
qed

text \<open>C31: Truncating text never splits a character and the marker tells the truth. When a text in UTF-8
  is longer than \<open>maxBytes\<close>, whatever chunks it arrives in, what is kept is a whole number of its first
  characters and a whole number of its last ones, the two do not overlap, and the number in the marker is
  exactly the length of the characters between them.\<close>

theorem truncated_text_is_honest:
  assumes "\<forall>c \<in> set cs. scalar c" "concat chunks = enc cs" "[] \<notin> set chunks" "maxBytes < length (enc cs)"
  shows "\<exists>i j. i \<le> j \<and> j \<le> length cs
    \<and> resultParts (limitsOf maxBytes) (drainAll (limitsOf maxBytes) chunks)
      = (enc (take i cs), Some (length (enc (take (j - i) (drop i cs)))), enc (drop j cs))
    \<and> length (enc (take i cs)) + length (enc (drop j cs)) \<le> maxBytes"
proof -
  define lim where "lim = limitsOf maxBytes"
  define n where "n = length (enc cs)"
  have lim: "lim_head lim + lim_tail lim \<le> maxBytes" "lim_max lim = maxBytes" "lim_head lim \<le> lim_max lim"
    using limits_bound [of maxBytes] by (simp_all add: lim_def)
  have h: "holds lim (enc cs) (drainAll lim chunks)"
    using drainAll_holds [OF assms(3) lim(3)] assms(2) by simp
  have le: "lim_head lim \<le> n" "n - lim_tail lim \<le> n" using lim(1) assms(4) by (simp_all add: n_def)
  obtain i where i: "i \<le> length cs" "trimToValidUtf8 (take (lim_head lim) (enc cs)) = enc (take i cs)"
    "length (enc (take i cs)) \<le> lim_head lim"
    by (rule head_chars [OF assms(1) le(1) [unfolded n_def]])
  obtain j where j: "j \<le> length cs" "trimStartToValidUtf8 (drop (n - lim_tail lim) (enc cs)) = enc (drop j cs)"
    "n - lim_tail lim \<le> length (enc (take j cs))"
    by (rule tail_chars [OF assms(1) le(2) [unfolded n_def], folded n_def])
  have lt: "length (enc (take i cs)) < length (enc (take j cs))"
    using i(3) j(3) lim(1) assms(4) unfolding n_def by linarith
  have ij: "i \<le> j"
  proof (rule ccontr)
    assume "\<not> i \<le> j"
    then show False using enc_length_mono [of j i cs] lt by simp
  qed
  have "take j cs = take i cs @ take (j - i) (drop i cs)" using ij by (metis le_add_diff_inverse take_add)
  then have len: "n = length (enc (take i cs)) + length (enc (take (j - i) (drop i cs))) + length (enc (drop j cs))"
    unfolding n_def by (subst enc_take_drop [of cs j]) (simp add: enc_append)
  have "resultParts lim (drainAll lim chunks)
    = (enc (take i cs), Some (n - length (enc (take i cs)) - length (enc (drop j cs))), enc (drop j cs))"
    using h rawTail_holds [OF h] assms(4) lim(2) i(2) j(2)
    by (simp add: holds_def resultParts_def Let_def window_def n_def)
  moreover have "n - length (enc (take i cs)) - length (enc (drop j cs)) = length (enc (take (j - i) (drop i cs)))"
    using len by simp
  moreover have "length (enc (take i cs)) + length (enc (drop j cs)) \<le> maxBytes"
    using i(3) j(3) lim(1) enc_take_drop [of cs j] unfolding n_def by (simp add: enc_append)
  ultimately show ?thesis using ij j(1) unfolding lim_def by fastforce
qed

theorem truncated_text_is_honest_witness:
  "\<exists>i j. i \<le> j \<and> j \<le> length (replicate 50 (0x4E2D :: nat))
    \<and> resultParts (limitsOf 100) (drainAll (limitsOf 100) [enc (replicate 50 0x4E2D)])
      = (enc (take i (replicate 50 0x4E2D)), Some (length (enc (take (j - i) (drop i (replicate 50 0x4E2D))))),
         enc (drop j (replicate 50 0x4E2D)))
    \<and> length (enc (take i (replicate 50 0x4E2D))) + length (enc (drop j (replicate 50 0x4E2D))) \<le> 100"
proof -
  have len: "length (enc (replicate 50 0x4E2D)) = 150" by (simp add: enc_def utf8_def length_concat sum_list_replicate)
  show ?thesis
    by (rule truncated_text_is_honest [of "replicate 50 0x4E2D" "[enc (replicate 50 0x4E2D)]" 100])
      (use len in \<open>auto simp: scalar_def\<close>)
qed

end
