(* ===== verification/Registry.thy ===== *)
theory Registry
  imports Main
begin

text \<open>
  The instruction registry, \<open>src/src/isa/registry.generated.ts\<close>, one list per family of opcodes,
  in the order of the file.
\<close>

record OpMeta =
  om_version :: string
  om_inputSchema :: string
  om_outputSchema :: string
  om_requiredCapabilities :: "string list"
  om_atomicity :: string
  om_observation :: string
  om_idempotency :: string
  om_rollback :: string
  om_resourceCost :: "string list"
  om_drivers :: "string list"

definition fsRegistry :: "(string \<times> OpMeta) list" where
  "fsRegistry = [
    (''fs.read'', \<lparr>om_version = ''1.0'', om_inputSchema = ''./instruction.schema.json#/$defs/FsReadArgs'',
      om_outputSchema = ''./result.schema.json#/$defs/InstructionValue'',
      om_requiredCapabilities = [''filesystem.read'', ''artifact.put''],
      om_atomicity = ''pure'', om_observation = ''filesystem.content_and_hash'',
      om_idempotency = ''safe'', om_rollback = ''none'',
      om_resourceCost = [''io.read'', ''artifact.write''], om_drivers = [''node.filesystem'', ''artifact.store'']\<rparr>),
    (''fs.write'', \<lparr>om_version = ''1.0'', om_inputSchema = ''./instruction.schema.json#/$defs/FsWriteArgs'',
      om_outputSchema = ''./result.schema.json#/$defs/InstructionValue'',
      om_requiredCapabilities = [''filesystem.write'', ''artifact.get''],
      om_atomicity = ''local_atomic'', om_observation = ''filesystem.hash_after_write'',
      om_idempotency = ''op_id_required'', om_rollback = ''compensatable'',
      om_resourceCost = [''io.write'', ''artifact.read''], om_drivers = [''node.filesystem'', ''artifact.store'']\<rparr>),
    (''fs.patch'', \<lparr>om_version = ''1.0'', om_inputSchema = ''./instruction.schema.json#/$defs/FsPatchArgs'',
      om_outputSchema = ''./result.schema.json#/$defs/InstructionValue'',
      om_requiredCapabilities = [''filesystem.write'', ''artifact.get''],
      om_atomicity = ''local_atomic'', om_observation = ''filesystem.diff_and_hash'',
      om_idempotency = ''op_id_required'', om_rollback = ''compensatable'',
      om_resourceCost = [''io.read'', ''io.write'', ''artifact.read''], om_drivers = [''node.filesystem'', ''artifact.store'']\<rparr>),
    (''fs.move'', \<lparr>om_version = ''1.0'', om_inputSchema = ''./instruction.schema.json#/$defs/FsMoveArgs'',
      om_outputSchema = ''./result.schema.json#/$defs/InstructionValue'',
      om_requiredCapabilities = [''filesystem.write''],
      om_atomicity = ''local_atomic'', om_observation = ''filesystem.path_transition'',
      om_idempotency = ''op_id_required'', om_rollback = ''compensatable'',
      om_resourceCost = [''io.metadata''], om_drivers = [''node.filesystem'']\<rparr>),
    (''fs.delete'', \<lparr>om_version = ''1.0'', om_inputSchema = ''./instruction.schema.json#/$defs/FsDeleteArgs'',
      om_outputSchema = ''./result.schema.json#/$defs/InstructionValue'',
      om_requiredCapabilities = [''filesystem.delete''],
      om_atomicity = ''compensatable'', om_observation = ''filesystem.delete_manifest'',
      om_idempotency = ''op_id_required'', om_rollback = ''compensatable'',
      om_resourceCost = [''io.write'', ''artifact.write''], om_drivers = [''node.filesystem'', ''artifact.store'']\<rparr>),
    (''fs.stat'', \<lparr>om_version = ''1.0'', om_inputSchema = ''./instruction.schema.json#/$defs/FsStatArgs'',
      om_outputSchema = ''./result.schema.json#/$defs/InstructionValue'',
      om_requiredCapabilities = [''filesystem.read''],
      om_atomicity = ''pure'', om_observation = ''filesystem.stat_fingerprint'',
      om_idempotency = ''safe'', om_rollback = ''none'',
      om_resourceCost = [''io.metadata''], om_drivers = [''node.filesystem'']\<rparr>)]"

definition workspaceRegistry :: "(string \<times> OpMeta) list" where
  "workspaceRegistry = [
    (''workspace.snapshot'', \<lparr>om_version = ''1.0'', om_inputSchema = ''./instruction.schema.json#/$defs/WorkspaceSnapshotArgs'',
      om_outputSchema = ''./result.schema.json#/$defs/InstructionValue'',
      om_requiredCapabilities = [''workspace.snapshot'', ''filesystem.read'', ''artifact.put''],
      om_atomicity = ''local_atomic'', om_observation = ''workspace.tree_fingerprint'',
      om_idempotency = ''op_id_required'', om_rollback = ''none'',
      om_resourceCost = [''io.scan'', ''artifact.write''], om_drivers = [''workspace.git-shadow'', ''artifact.store'']\<rparr>),
    (''workspace.diff'', \<lparr>om_version = ''1.0'', om_inputSchema = ''./instruction.schema.json#/$defs/WorkspaceDiffArgs'',
      om_outputSchema = ''./result.schema.json#/$defs/InstructionValue'',
      om_requiredCapabilities = [''workspace.read'', ''filesystem.read''],
      om_atomicity = ''pure'', om_observation = ''workspace.diff_facts'',
      om_idempotency = ''safe'', om_rollback = ''none'',
      om_resourceCost = [''io.scan''], om_drivers = [''workspace.git-shadow'']\<rparr>),
    (''workspace.commit'', \<lparr>om_version = ''1.0'', om_inputSchema = ''./instruction.schema.json#/$defs/WorkspaceCommitArgs'',
      om_outputSchema = ''./result.schema.json#/$defs/InstructionValue'',
      om_requiredCapabilities = [''workspace.commit'', ''filesystem.write''],
      om_atomicity = ''compensatable'', om_observation = ''workspace.conflict_check_and_apply'',
      om_idempotency = ''op_id_required'', om_rollback = ''compensatable'',
      om_resourceCost = [''io.scan'', ''io.write'', ''artifact.write''], om_drivers = [''workspace.git-shadow'', ''node.filesystem'', ''artifact.store'']\<rparr>),
    (''workspace.rollback'', \<lparr>om_version = ''1.0'', om_inputSchema = ''./instruction.schema.json#/$defs/WorkspaceRollbackArgs'',
      om_outputSchema = ''./result.schema.json#/$defs/InstructionValue'',
      om_requiredCapabilities = [''workspace.rollback'', ''filesystem.write''],
      om_atomicity = ''compensatable'', om_observation = ''workspace.rollback_coverage_and_fingerprint'',
      om_idempotency = ''op_id_required'', om_rollback = ''compensatable'',
      om_resourceCost = [''io.scan'', ''io.write''], om_drivers = [''workspace.git-shadow'', ''node.filesystem'']\<rparr>)]"

definition procRegistry :: "(string \<times> OpMeta) list" where
  "procRegistry = [
    (''proc.spawn'', \<lparr>om_version = ''1.0'', om_inputSchema = ''./instruction.schema.json#/$defs/ProcSpawnArgs'',
      om_outputSchema = ''./result.schema.json#/$defs/InstructionValue'',
      om_requiredCapabilities = [''process.spawn''],
      om_atomicity = ''external'', om_observation = ''driver.identity_and_spawn_gate'',
      om_idempotency = ''op_id_required_no_replay'', om_rollback = ''impossible'',
      om_resourceCost = [''cpu'', ''memory'', ''pids'', ''output''], om_drivers = [''node.process'', ''reaper.process'', ''cgroup.process'']\<rparr>),
    (''proc.wait'', \<lparr>om_version = ''1.0'', om_inputSchema = ''./instruction.schema.json#/$defs/ProcWaitArgs'',
      om_outputSchema = ''./result.schema.json#/$defs/InstructionValue'',
      om_requiredCapabilities = [''process.inspect''],
      om_atomicity = ''external'', om_observation = ''driver.tree_settlement_and_exit'',
      om_idempotency = ''safe'', om_rollback = ''none'',
      om_resourceCost = [''cpu'', ''memory'', ''pids'', ''output''], om_drivers = [''node.process'', ''reaper.process'', ''cgroup.process'']\<rparr>),
    (''proc.signal'', \<lparr>om_version = ''1.0'', om_inputSchema = ''./instruction.schema.json#/$defs/ProcSignalArgs'',
      om_outputSchema = ''./result.schema.json#/$defs/InstructionValue'',
      om_requiredCapabilities = [''process.signal''],
      om_atomicity = ''external'', om_observation = ''driver.stop_confirmation'',
      om_idempotency = ''op_id_required_no_replay'', om_rollback = ''impossible'',
      om_resourceCost = [''pids''], om_drivers = [''node.process'', ''reaper.process'', ''cgroup.process'']\<rparr>),
    (''proc.inspect'', \<lparr>om_version = ''1.0'', om_inputSchema = ''./instruction.schema.json#/$defs/ProcInspectArgs'',
      om_outputSchema = ''./result.schema.json#/$defs/InstructionValue'',
      om_requiredCapabilities = [''process.inspect''],
      om_atomicity = ''pure'', om_observation = ''driver.process_facts'',
      om_idempotency = ''safe'', om_rollback = ''none'',
      om_resourceCost = [''cpu'', ''memory'', ''pids''], om_drivers = [''node.process'', ''reaper.process'', ''cgroup.process'']\<rparr>)]"

definition observeRegistry :: "(string \<times> OpMeta) list" where
  "observeRegistry = [
    (''observe.files'', \<lparr>om_version = ''1.0'', om_inputSchema = ''./instruction.schema.json#/$defs/ObserveFilesArgs'',
      om_outputSchema = ''./result.schema.json#/$defs/InstructionValue'',
      om_requiredCapabilities = [''filesystem.observe''],
      om_atomicity = ''sampled'', om_observation = ''filesystem.sample'',
      om_idempotency = ''safe'', om_rollback = ''none'',
      om_resourceCost = [''io.scan''], om_drivers = [''node.filesystem'']\<rparr>),
    (''observe.resources'', \<lparr>om_version = ''1.0'', om_inputSchema = ''./instruction.schema.json#/$defs/ObserveResourcesArgs'',
      om_outputSchema = ''./result.schema.json#/$defs/InstructionValue'',
      om_requiredCapabilities = [''process.observe_resources''],
      om_atomicity = ''sampled'', om_observation = ''driver.resource_sample'',
      om_idempotency = ''safe'', om_rollback = ''none'',
      om_resourceCost = [''cpu'', ''memory'', ''pids'', ''output''], om_drivers = [''node.process'', ''reaper.process'', ''cgroup.process'']\<rparr>)]"

definition controlRegistry :: "(string \<times> OpMeta) list" where
  "controlRegistry = [
    (''control.status'', \<lparr>om_version = ''1.0'', om_inputSchema = ''./instruction.schema.json#/$defs/ControlStatusArgs'',
      om_outputSchema = ''./result.schema.json#/$defs/InstructionValue'',
      om_requiredCapabilities = [''control.read''],
      om_atomicity = ''pure'', om_observation = ''journal.status_projection'',
      om_idempotency = ''safe'', om_rollback = ''none'',
      om_resourceCost = [''journal.read''], om_drivers = [''journal.store'']\<rparr>),
    (''control.health'', \<lparr>om_version = ''1.0'', om_inputSchema = ''./instruction.schema.json#/$defs/ControlHealthArgs'',
      om_outputSchema = ''./result.schema.json#/$defs/InstructionValue'',
      om_requiredCapabilities = [''control.read''],
      om_atomicity = ''pure'', om_observation = ''journal.driver_health'',
      om_idempotency = ''safe'', om_rollback = ''none'',
      om_resourceCost = [''journal.read''], om_drivers = [''journal.store'']\<rparr>),
    (''control.cancel'', \<lparr>om_version = ''1.0'', om_inputSchema = ''./instruction.schema.json#/$defs/ControlCancelArgs'',
      om_outputSchema = ''./result.schema.json#/$defs/InstructionValue'',
      om_requiredCapabilities = [''control.cancel'', ''process.signal''],
      om_atomicity = ''external'', om_observation = ''driver.stop_confirmation'',
      om_idempotency = ''op_id_required_no_replay'', om_rollback = ''impossible'',
      om_resourceCost = [''pids'', ''journal.write''], om_drivers = [''journal.store'', ''node.process'', ''reaper.process'', ''cgroup.process'']\<rparr>),
    (''control.resolve'', \<lparr>om_version = ''1.0'', om_inputSchema = ''./instruction.schema.json#/$defs/ControlResolveArgs'',
      om_outputSchema = ''./result.schema.json#/$defs/InstructionValue'',
      om_requiredCapabilities = [''control.resolve''],
      om_atomicity = ''local_atomic'', om_observation = ''journal.resolution_record'',
      om_idempotency = ''op_id_required'', om_rollback = ''impossible'',
      om_resourceCost = [''journal.write''], om_drivers = [''journal.store'']\<rparr>),
    (''control.resume'', \<lparr>om_version = ''1.0'', om_inputSchema = ''./instruction.schema.json#/$defs/ControlResumeArgs'',
      om_outputSchema = ''./result.schema.json#/$defs/InstructionValue'',
      om_requiredCapabilities = [''control.resume''],
      om_atomicity = ''external'', om_observation = ''journal.resume_and_driver_evidence'',
      om_idempotency = ''op_id_required_no_replay'', om_rollback = ''impossible'',
      om_resourceCost = [''journal.write'', ''cpu'', ''memory'', ''pids''], om_drivers = [''journal.store'', ''node.process'', ''reaper.process'', ''cgroup.process'']\<rparr>)]"

definition artifactRegistry :: "(string \<times> OpMeta) list" where
  "artifactRegistry = [
    (''artifact.put'', \<lparr>om_version = ''1.0'', om_inputSchema = ''./instruction.schema.json#/$defs/ArtifactPutArgs'',
      om_outputSchema = ''./result.schema.json#/$defs/InstructionValue'',
      om_requiredCapabilities = [''artifact.put''],
      om_atomicity = ''local_atomic'', om_observation = ''artifact.hash_after_write'',
      om_idempotency = ''op_id_required'', om_rollback = ''compensatable'',
      om_resourceCost = [''io.write'', ''artifact.write''], om_drivers = [''artifact.store'']\<rparr>),
    (''artifact.get'', \<lparr>om_version = ''1.0'', om_inputSchema = ''./instruction.schema.json#/$defs/ArtifactGetArgs'',
      om_outputSchema = ''./result.schema.json#/$defs/InstructionValue'',
      om_requiredCapabilities = [''artifact.get''],
      om_atomicity = ''pure'', om_observation = ''artifact.hash_and_range'',
      om_idempotency = ''safe'', om_rollback = ''none'',
      om_resourceCost = [''io.read'', ''artifact.read''], om_drivers = [''artifact.store'']\<rparr>),
    (''artifact.stream'', \<lparr>om_version = ''1.0'', om_inputSchema = ''./instruction.schema.json#/$defs/ArtifactStreamArgs'',
      om_outputSchema = ''./result.schema.json#/$defs/InstructionValue'',
      om_requiredCapabilities = [''artifact.get''],
      om_atomicity = ''pure'', om_observation = ''artifact.hash_and_cursor'',
      om_idempotency = ''safe'', om_rollback = ''none'',
      om_resourceCost = [''io.read'', ''artifact.read''], om_drivers = [''artifact.store'']\<rparr>)]"

definition ISA_V1_REGISTRY :: "(string \<times> OpMeta) list" where
  "ISA_V1_REGISTRY = fsRegistry @ workspaceRegistry @ procRegistry @ observeRegistry @ controlRegistry @ artifactRegistry"

end
