(* ===== verification/Validator.thy ===== *)
theory Validator
  imports Cbor Registry Capability Text "HOL-Library.Char_ord"
begin

text \<open>
  The program validator of the instruction set, \<open>src/src/isa/validator.ts\<close>. Its input is a JSON
  value; a check returns the issues it adds, in order, or \<open>None\<close> when the code throws (\<open>String(x)\<close> of
  an object with a \<open>toString\<close> of its own). An issue keeps its code and path; its
  human-readable message is not modelled. The runtime gives the byte length of \<open>JSON.stringify\<close> and the
  text of a number that is not a safe integer. ISA minor numbers are read exactly.
\<close>

record runtime =
  rt_jsonBytes :: "jval \<Rightarrow> nat"
  rt_floatText :: "64 word \<Rightarrow> ustr"

definition lit :: "string \<Rightarrow> ustr" where
  "lit s = map (\<lambda>c. of_nat (of_char c)) s"

type_synonym fields = "(ustr \<times> jval) list"

text \<open>\<open>value.key\<close>; \<open>None\<close> is \<open>undefined\<close>.\<close>

definition getField :: "fields \<Rightarrow> string \<Rightarrow> jval option" where
  "getField fs k = map_of fs (lit k)"

section \<open>Issues\<close>

datatype ValidationIssueCode =
    InvalidType | MissingField | UnknownField | InvalidValue | InvalidJson | UnsupportedIsaMinor
  | UnsupportedOpcode | DuplicateId | DuplicateOutput | DuplicateOpId | UnknownReference | DependencyCycle
  | CapabilityMissing | CapabilityDenied | CapabilityExpired | ResourceExceeded | PayloadTooLarge

record ValidationIssue =
  iss_code :: ValidationIssueCode
  iss_path :: ustr

type_synonym report = "ValidationIssue list option"

abbreviation (input) pass :: report where
  "pass \<equiv> Some []"

definition addIssue :: "ValidationIssueCode \<Rightarrow> ustr \<Rightarrow> report" where
  "addIssue c p = Some [\<lparr>iss_code = c, iss_path = p\<rparr>]"

text \<open>\<open>if (b) addIssue(...)\<close>\<close>

definition issueIf :: "bool \<Rightarrow> ValidationIssueCode \<Rightarrow> ustr \<Rightarrow> report" where
  "issueIf b c p = (if b then addIssue c p else pass)"

definition andCheck :: "report \<Rightarrow> report \<Rightarrow> report" where
  "andCheck r q = (case r of None \<Rightarrow> None | Some xs \<Rightarrow> map_option (append xs) q)"

definition checkAll :: "report list \<Rightarrow> report" where
  "checkAll rs = foldr andCheck rs pass"

definition dot :: "ustr \<Rightarrow> string \<Rightarrow> ustr" where
  "dot p k = p @ lit ''.'' @ lit k"

definition dotKey :: "ustr \<Rightarrow> ustr \<Rightarrow> ustr" where
  "dotKey p k = p @ lit ''.'' @ k"

definition atIndex :: "ustr \<Rightarrow> nat \<Rightarrow> ustr" where
  "atIndex p n = p @ lit ''['' @ lit (natText n) @ lit '']''"

definition indexed :: "'a list \<Rightarrow> (nat \<times> 'a) list" where
  "indexed xs = zip [0..<length xs] xs"

section \<open>Patterns\<close>

definition isLower :: "16 word \<Rightarrow> bool" where
  "isLower u \<longleftrightarrow> 97 \<le> unat u \<and> unat u \<le> 122"

definition isUpper :: "16 word \<Rightarrow> bool" where
  "isUpper u \<longleftrightarrow> 65 \<le> unat u \<and> unat u \<le> 90"

definition isDigit :: "16 word \<Rightarrow> bool" where
  "isDigit u \<longleftrightarrow> 48 \<le> unat u \<and> unat u \<le> 57"

definition isAlnum :: "16 word \<Rightarrow> bool" where
  "isAlnum u \<longleftrightarrow> isLower u \<or> isUpper u \<or> isDigit u"

text \<open>\<open>[A-Za-z0-9._:-]\<close>\<close>

definition isIdChar :: "16 word \<Rightarrow> bool" where
  "isIdChar u \<longleftrightarrow> isAlnum u \<or> u \<in> set (lit ''._:-'')"

definition ID_PATTERN :: "ustr \<Rightarrow> bool" where
  "ID_PATTERN s = (case s of [] \<Rightarrow> False
     | u # us \<Rightarrow> (isLower u \<or> isUpper u) \<and> length us \<le> 127 \<and> list_all isIdChar us)"

text \<open>\<open>prefix[A-Za-z0-9][A-Za-z0-9._:-]{0,239}\<close>\<close>

definition refPattern :: "string \<Rightarrow> ustr \<Rightarrow> bool" where
  "refPattern pre s =
     (take (length pre) s = lit pre
      \<and> (case drop (length pre) s of [] \<Rightarrow> False
         | u # us \<Rightarrow> isAlnum u \<and> length us \<le> 239 \<and> list_all isIdChar us))"

definition OP_ID_PATTERN :: "ustr \<Rightarrow> bool" where
  "OP_ID_PATTERN = refPattern ''op:''"

definition EVENT_CURSOR_PATTERN :: "ustr \<Rightarrow> bool" where
  "EVENT_CURSOR_PATTERN = refPattern ''event:''"

definition REF_PATTERNS :: "string \<Rightarrow> ustr \<Rightarrow> bool" where
  "REF_PATTERNS kind = refPattern (if kind = ''capability'' then ''cap:'' else kind @ '':'')"

definition HASH_PATTERN :: "ustr \<Rightarrow> bool" where
  "HASH_PATTERN s \<longleftrightarrow> length s = 64 \<and>
     list_all (\<lambda>u. isDigit u \<or> 65 \<le> unat u \<and> unat u \<le> 70 \<or> 97 \<le> unat u \<and> unat u \<le> 102) s"

definition SIGNAL_PATTERN :: "ustr \<Rightarrow> bool" where
  "SIGNAL_PATTERN s \<longleftrightarrow> take 3 s = lit ''SIG'' \<and> drop 3 s \<noteq> [] \<and> list_all (\<lambda>u. isUpper u \<or> isDigit u) (drop 3 s)"

definition ENV_PATTERN :: "ustr \<Rightarrow> bool" where
  "ENV_PATTERN s = (case s of [] \<Rightarrow> False
     | u # us \<Rightarrow> (isUpper u \<or> u \<in> set (lit ''_'')) \<and> length us \<le> 127
         \<and> list_all (\<lambda>v. isUpper v \<or> isDigit v \<or> v \<in> set (lit ''_'')) us)"

text \<open>\<open>/^xio\/(\d+)(?:\.(\d+))?$/\<close> and its two groups.\<close>

definition ISA_PATTERN :: "ustr \<Rightarrow> (ustr \<times> ustr option) option" where
  "ISA_PATTERN s = (if take 4 s = lit ''xio/''
     then (let r = drop 4 s; major = takeWhile isDigit r; rest = dropWhile isDigit r
           in if major = [] then None
              else if rest = [] then Some (major, None)
              else if take 1 rest = lit ''.'' \<and> drop 1 rest \<noteq> [] \<and> list_all isDigit (drop 1 rest)
              then Some (major, Some (drop 1 rest)) else None)
     else None)"

definition decimal :: "ustr \<Rightarrow> nat" where
  "decimal ds = foldl (\<lambda>n u. 10 * n + (unat u - 48)) 0 ds"

section \<open>Text of a value\<close>

fun joinUnits :: "ustr list \<Rightarrow> ustr" where
  "joinUnits [] = []"
| "joinUnits [x] = x"
| "joinUnits (x # y # ys) = x @ lit '','' @ joinUnits (y # ys)"

definition allSome :: "'a option list \<Rightarrow> 'a list option" where
  "allSome xs = (if list_all (\<lambda>x. x \<noteq> None) xs then Some (map the xs) else None)"

text \<open>\<open>String(value)\<close>; \<open>None\<close> when it throws. \<open>null\<close> inside an array is empty text.\<close>

fun stringOf :: "runtime \<Rightarrow> jval \<Rightarrow> ustr option" where
  "stringOf rt VNull = Some (lit ''null'')"
| "stringOf rt (VBool b) = Some (lit (if b then ''true'' else ''false''))"
| "stringOf rt (VInt i) = Some (lit (intText i))"
| "stringOf rt (VFloat w) = Some (rt_floatText rt w)"
| "stringOf rt (VStr s) = Some s"
| "stringOf rt (VArr vs) =
     map_option joinUnits (allSome (map (\<lambda>v. if v = VNull then Some [] else stringOf rt v) vs))"
| "stringOf rt (VObj fs) =
     (if lit ''toString'' \<in> set (map fst fs) then None else Some (lit ''[object Object]''))"

text \<open>\<open>if (!words.includes(String(value))) addIssue('invalid_value', ...)\<close>\<close>

definition wordCheck :: "runtime \<Rightarrow> string list \<Rightarrow> jval option \<Rightarrow> ustr \<Rightarrow> report" where
  "wordCheck rt ws v p =
     (case (case v of None \<Rightarrow> Some (lit ''undefined'') | Some x \<Rightarrow> stringOf rt x) of
        None \<Rightarrow> None
      | Some t \<Rightarrow> issueIf (t \<notin> set (map lit ws)) InvalidValue p)"

section \<open>Field checks\<close>

definition checkKeys :: "fields \<Rightarrow> string list \<Rightarrow> ustr \<Rightarrow> report" where
  "checkKeys fs allowed p = checkAll (map (\<lambda>k. issueIf (k \<notin> set (map lit allowed)) UnknownField (dotKey p k)) (map fst fs))"

definition required :: "fields \<Rightarrow> string list \<Rightarrow> ustr \<Rightarrow> report" where
  "required fs keys p = checkAll (map (\<lambda>k. issueIf (getField fs k = None) MissingField (dot p k)) keys)"

definition stringField :: "jval option \<Rightarrow> ustr \<Rightarrow> (ustr \<Rightarrow> bool) option \<Rightarrow> report" where
  "stringField v p pat = (case v of
     Some (VStr s) \<Rightarrow> (case pat of None \<Rightarrow> pass | Some q \<Rightarrow> issueIf (\<not> q s) InvalidValue p)
   | _ \<Rightarrow> addIssue InvalidType p)"

definition integerField :: "jval option \<Rightarrow> ustr \<Rightarrow> int \<Rightarrow> int \<Rightarrow> report" where
  "integerField v p minimum maximum = (case v of
     Some (VInt i) \<Rightarrow> issueIf (i < minimum \<or> maximum < i) InvalidValue p
   | Some (VFloat w) \<Rightarrow> if w = negZero then issueIf (0 < minimum \<or> maximum < 0) InvalidValue p else addIssue InvalidType p
   | _ \<Rightarrow> addIssue InvalidType p)"

definition refField :: "jval option \<Rightarrow> ustr \<Rightarrow> string \<Rightarrow> report" where
  "refField v p kind = stringField v p (Some (REF_PATTERNS kind))"

definition stringArray :: "jval option \<Rightarrow> ustr \<Rightarrow> nat \<Rightarrow> (ustr \<Rightarrow> bool) option \<Rightarrow> report" where
  "stringArray v p maxItems pat = (case v of
     Some (VArr vs) \<Rightarrow> andCheck (issueIf (maxItems < length vs) InvalidValue p)
       (checkAll (map (\<lambda>(n, x). stringField (Some x) (atIndex p n) pat) (indexed vs)))
   | _ \<Rightarrow> addIssue InvalidType p)"

definition validateRange :: "jval option \<Rightarrow> ustr \<Rightarrow> report" where
  "validateRange v p = (case v of
     Some (VObj fs) \<Rightarrow> checkAll [checkKeys fs [''start'', ''end''] p, required fs [''start'', ''end''] p,
       integerField (getField fs ''start'') (dot p ''start'') 0 (int MAX_SAFE),
       integerField (getField fs ''end'') (dot p ''end'') 0 (int MAX_SAFE)]
   | _ \<Rightarrow> addIssue InvalidType p)"

definition validateStringMap :: "jval option \<Rightarrow> ustr \<Rightarrow> nat \<Rightarrow> report" where
  "validateStringMap v p maxProperties = (case v of
     Some (VObj fs) \<Rightarrow> andCheck (issueIf (maxProperties < length fs) InvalidValue p)
       (checkAll (map (\<lambda>(k, x). andCheck (issueIf (\<not> ENV_PATTERN k) InvalidValue (dotKey p k))
          (stringField (Some x) (dotKey p k) None)) fs))
   | _ \<Rightarrow> addIssue InvalidType p)"

definition validateRefMap :: "jval option \<Rightarrow> ustr \<Rightarrow> string \<Rightarrow> nat \<Rightarrow> report" where
  "validateRefMap v p kind maxProperties = (case v of
     Some (VObj fs) \<Rightarrow> andCheck (issueIf (maxProperties < length fs) InvalidValue p)
       (checkAll (map (\<lambda>(k, x). andCheck (issueIf (\<not> ENV_PATTERN k) InvalidValue (dotKey p k))
          (refField (Some x) (dotKey p k) kind)) fs))
   | _ \<Rightarrow> addIssue InvalidType p)"

text \<open>\<open>if (value.key !== undefined) check(value.key, `${path}.key`, ...)\<close>\<close>

definition ifPresent :: "fields \<Rightarrow> ustr \<Rightarrow> (jval option \<Rightarrow> ustr \<Rightarrow> report) \<Rightarrow> string \<Rightarrow> report" where
  "ifPresent fs p check k = (case getField fs k of None \<Rightarrow> pass | Some v \<Rightarrow> check (Some v) (dot p k))"

section \<open>Arguments\<close>

text \<open>\<open>ARG_RULES\<close>: the required and the allowed arguments of each opcode.\<close>

definition ARG_RULES :: "(string \<times> string list \<times> string list) list" where
  "ARG_RULES = [
    (''fs.read'', [''path''], [''workspace'', ''path'', ''range'']),
    (''fs.write'', [''path'', ''content''], [''workspace'', ''path'', ''content'', ''expectedHash'']),
    (''fs.patch'', [''path'', ''patch''], [''workspace'', ''path'', ''patch'', ''expectedHash'']),
    (''fs.move'', [''from'', ''to''], [''workspace'', ''from'', ''to'']),
    (''fs.delete'', [''path''], [''workspace'', ''path'', ''recursive'']),
    (''fs.stat'', [''path''], [''workspace'', ''path'']),
    (''workspace.snapshot'', [''label''], [''workspace'', ''label'', ''roots'']),
    (''workspace.diff'', [''from''], [''workspace'', ''from'', ''to'']),
    (''workspace.commit'', [''transaction''], [''workspace'', ''transaction'']),
    (''workspace.rollback'', [''snapshot''], [''workspace'', ''snapshot'', ''roots'']),
    (''proc.spawn'', [''argv'', ''cwd'', ''stdio''], [''argv'', ''cwd'', ''env'', ''secretEnv'', ''stdio'', ''timeoutMs'']),
    (''proc.wait'', [''process''], [''process'', ''timeoutMs'']),
    (''proc.signal'', [''process'', ''signals''], [''process'', ''signals'', ''graceMs'']),
    (''proc.inspect'', [''process''], [''process'']),
    (''observe.files'', [''paths''], [''workspace'', ''paths'', ''depth'']),
    (''observe.resources'', [''process''], [''process'', ''intervalMs'']),
    (''control.status'', [], [''program'', ''instruction'', ''lease'']),
    (''control.health'', [], []),
    (''control.cancel'', [], [''program'', ''instruction'', ''lease'', ''graceMs'']),
    (''control.resolve'', [''lease'', ''decision'', ''reason''], [''lease'', ''decision'', ''reason'', ''evidence'']),
    (''control.resume'', [''resumeToken''], [''resumeToken'']),
    (''artifact.put'', [''content''], [''content'', ''mediaType'', ''sensitivity'', ''ttlMs'']),
    (''artifact.get'', [''artifact''], [''artifact'', ''range'']),
    (''artifact.stream'', [''artifact''], [''artifact'', ''cursor'', ''maxBytes''])]"

definition argRule :: "string \<Rightarrow> string list \<times> string list" where
  "argRule op = the (map_of ARG_RULES op)"

text \<open>The checks of \<open>validateArgs\<close>, in the order of the code; several fields are checked twice.\<close>

definition refArgs :: "string \<Rightarrow> fields \<Rightarrow> ustr \<Rightarrow> report list" where
  "refArgs op fs p =
     [ifPresent fs p (\<lambda>v q. refField v q ''workspace'') ''workspace'']
     @ map (ifPresent fs p (\<lambda>v q. stringField v q None)) [''path'', ''from'', ''to'']
     @ [if op = ''artifact.put'' then pass else ifPresent fs p (\<lambda>v q. refField v q ''artifact'') ''content'']
     @ map (ifPresent fs p (\<lambda>v q. refField v q ''artifact'')) [''patch'', ''artifact'']
     @ [ifPresent fs p (\<lambda>v q. refField v q ''process'') ''process'',
        ifPresent fs p (\<lambda>v q. refField v q ''snapshot'') ''snapshot'',
        ifPresent fs p (\<lambda>v q. refField v q ''transaction'') ''transaction'',
        ifPresent fs p (\<lambda>v q. refField v q ''lease'') ''lease'',
        ifPresent fs p (\<lambda>v q. refField v q ''resume'') ''resumeToken'',
        ifPresent fs p (\<lambda>v q. refField v q ''cursor'') ''cursor'',
        ifPresent fs p validateRange ''range'']"

definition boundArgs :: "runtime \<Rightarrow> fields \<Rightarrow> ustr \<Rightarrow> report list" where
  "boundArgs rt fs p =
     [ifPresent fs p (\<lambda>v q. stringArray v q 64 None) ''roots'',
      ifPresent fs p (\<lambda>v q. stringArray v q 64 None) ''paths'',
      ifPresent fs p (\<lambda>v q. integerField v q 0 128) ''depth'',
      ifPresent fs p (\<lambda>v q. integerField v q 1 3600000) ''intervalMs'']
     @ map (ifPresent fs p (\<lambda>v q. integerField v q 0 315360000000)) [''timeoutMs'', ''graceMs'', ''ttlMs'', ''maxBytes'']
     @ [ifPresent fs p (\<lambda>v q. integerField v q 1 10485760) ''maxBytes'',
        ifPresent fs p (\<lambda>v q. wordCheck rt [''capture'', ''inherit'', ''ignore'', ''stream''] v q) ''stdio'',
        ifPresent fs p (\<lambda>v q. stringArray v q 256 None) ''argv'',
        ifPresent fs p (\<lambda>v q. stringArray v q 8 (Some SIGNAL_PATTERN)) ''signals'',
        ifPresent fs p (\<lambda>v q. validateStringMap v q 256) ''env'',
        ifPresent fs p (\<lambda>v q. validateRefMap v q ''secret'' 64) ''secretEnv'',
        ifPresent fs p (\<lambda>v q. case v of Some (VBool b) \<Rightarrow> pass | _ \<Rightarrow> addIssue InvalidType q) ''recursive'',
        ifPresent fs p (\<lambda>v q. stringField v q (Some HASH_PATTERN)) ''expectedHash'']"

definition textArgs :: "runtime \<Rightarrow> string \<Rightarrow> fields \<Rightarrow> ustr \<Rightarrow> report list" where
  "textArgs rt op fs p =
     map (ifPresent fs p (\<lambda>v q. stringField v q None)) [''label'', ''from'', ''to'', ''revision'']
     @ [if op = ''artifact.put'' then ifPresent fs p (\<lambda>v q. stringField v q None) ''content'' else pass,
        ifPresent fs p (\<lambda>v q. stringField v q None) ''mediaType'',
        ifPresent fs p (\<lambda>v q. wordCheck rt [''public'', ''internal'', ''secret''] v q) ''sensitivity'',
        ifPresent fs p (\<lambda>v q. wordCheck rt [''succeeded'', ''failed'', ''rolled_back'', ''partial''] v q) ''decision'']
     @ map (ifPresent fs p (\<lambda>v q. stringField v q None)) [''program'', ''instruction'']
     @ [issueIf ((op = ''control.status'' \<or> op = ''control.cancel'') \<and> getField fs ''program'' = None
          \<and> getField fs ''instruction'' = None \<and> getField fs ''lease'' = None) MissingField p]"

definition validateArgs :: "runtime \<Rightarrow> string \<Rightarrow> jval option \<Rightarrow> ustr \<Rightarrow> report" where
  "validateArgs rt op v p = (case v of
     Some (VObj fs) \<Rightarrow> checkAll ([checkKeys fs (snd (argRule op)) p, required fs (fst (argRule op)) p]
       @ refArgs op fs p @ boundArgs rt fs p @ textArgs rt op fs p)
   | _ \<Rightarrow> addIssue InvalidType p)"

section \<open>Preconditions, versions and options\<close>

definition preconditionCase :: "fields \<Rightarrow> ustr \<Rightarrow> string list \<Rightarrow> report list \<Rightarrow> report" where
  "preconditionCase fs p keys rs = checkAll ([checkKeys fs keys p, required fs keys p] @ rs)"

definition validatePrecondition :: "runtime \<Rightarrow> jval \<Rightarrow> ustr \<Rightarrow> ustr list \<Rightarrow> report" where
  "validatePrecondition rt v p instructionIds = (case v of
     VObj fs \<Rightarrow> (case getField fs ''kind'' of
        Some (VStr kind) \<Rightarrow>
          if kind = lit ''file_hash'' then preconditionCase fs p [''kind'', ''path'', ''sha256'']
            [stringField (getField fs ''path'') (dot p ''path'') None,
             stringField (getField fs ''sha256'') (dot p ''sha256'') (Some HASH_PATTERN)]
          else if kind = lit ''artifact_hash'' then preconditionCase fs p [''kind'', ''artifact'', ''sha256'']
            [refField (getField fs ''artifact'') (dot p ''artifact'') ''artifact'',
             stringField (getField fs ''sha256'') (dot p ''sha256'') (Some HASH_PATTERN)]
          else if kind = lit ''instruction_status'' then preconditionCase fs p [''kind'', ''instruction'', ''status'']
            [stringField (getField fs ''instruction'') (dot p ''instruction'') (Some ID_PATTERN),
             (case getField fs ''instruction'' of
                Some (VStr i) \<Rightarrow> issueIf (i \<notin> set instructionIds) UnknownReference (dot p ''instruction'')
              | _ \<Rightarrow> pass),
             wordCheck rt [''admitted'', ''succeeded'', ''failed'', ''indeterminate'', ''cancelled'', ''rolled_back'', ''partial'']
               (getField fs ''status'') (dot p ''status'')]
          else if kind = lit ''workspace_revision'' then preconditionCase fs p [''kind'', ''workspace'', ''revision'']
            [refField (getField fs ''workspace'') (dot p ''workspace'') ''workspace'',
             stringField (getField fs ''revision'') (dot p ''revision'') None]
          else addIssue InvalidValue (dot p ''kind'')
      | _ \<Rightarrow> addIssue MissingField (dot p ''kind''))
   | _ \<Rightarrow> addIssue InvalidType p)"

definition supportedMinors :: "ustr list \<Rightarrow> nat list" where
  "supportedMinors entries = concat (map (\<lambda>e. case ISA_PATTERN e of
       Some (major, minor) \<Rightarrow> if major = lit ''1'' then [case minor of None \<Rightarrow> 0 | Some d \<Rightarrow> decimal d] else []
     | None \<Rightarrow> []) entries)"

text \<open>\<open>negotiateIsa\<close>: the version chosen, and the issues.\<close>

definition negotiateIsa :: "jval option \<Rightarrow> ustr list option \<Rightarrow> ustr option \<times> report" where
  "negotiateIsa v supportedIsa = (case v of
     Some (VStr s) \<Rightarrow>
       (let matched = stringField v (lit ''isa'') (Some (\<lambda>t. ISA_PATTERN t \<noteq> None))
        in case ISA_PATTERN s of
             None \<Rightarrow> (None, andCheck matched (addIssue UnsupportedIsaMinor (lit ''isa'')))
           | Some (major, minor) \<Rightarrow>
               if major \<noteq> lit ''1'' then (None, andCheck matched (addIssue UnsupportedIsaMinor (lit ''isa'')))
               else (let minors = supportedMinors (case supportedIsa of None \<Rightarrow> [lit ''xio/1.0''] | Some l \<Rightarrow> l);
                         selected = (case minor of
                            None \<Rightarrow> if minors = [] then None else Some (Max (set minors))
                          | Some d \<Rightarrow> if decimal d \<in> set minors then Some (decimal d) else None)
                     in case selected of
                          None \<Rightarrow> (None, andCheck matched (addIssue UnsupportedIsaMinor (lit ''isa'')))
                        | Some n \<Rightarrow> (Some (lit (''xio/1.'' @ natText n)), matched)))
   | _ \<Rightarrow> (None, addIssue InvalidType (lit ''isa'')))"

definition validateOptions :: "runtime \<Rightarrow> jval option \<Rightarrow> report" where
  "validateOptions rt v = (case v of
     Some (VObj fs) \<Rightarrow> checkAll [checkKeys fs [''wait'', ''maxOutputBytes'', ''eventCursor''] (lit ''options''),
       ifPresent fs (lit ''options'') (wordCheck rt [''until_terminal'', ''until_admitted'', ''return_cursor'']) ''wait'',
       ifPresent fs (lit ''options'') (\<lambda>v q. integerField v q 0 104857600) ''maxOutputBytes'',
       ifPresent fs (lit ''options'') (\<lambda>v q. if v = Some VNull then pass else stringField v q (Some EVENT_CURSOR_PATTERN))
         ''eventCursor'']
   | _ \<Rightarrow> addIssue InvalidType (lit ''options''))"

section \<open>Resources\<close>

record parsedInstr =
  pin_value :: fields
  pin_op :: string
  pin_id :: ustr

record ResourceEstimate =
  est_instructionCount :: nat
  est_costCounts :: "(string, nat) jsmap"
  est_resourceCost :: "string list"
  est_requiredCapabilities :: "string list"
  est_externalInstructionIds :: "ustr list"
  est_requiresOpId :: "ustr list"

definition metaOf :: "string \<Rightarrow> OpMeta" where
  "metaOf op = the (map_of ISA_V1_REGISTRY op)"

definition countCost :: "string \<Rightarrow> (string, nat) jsmap \<Rightarrow> (string, nat) jsmap" where
  "countCost c m = mapSet c ((case mapGet m c of Some n \<Rightarrow> n | None \<Rightarrow> 0) + 1) m"

definition buildResources :: "parsedInstr list \<Rightarrow> ResourceEstimate" where
  "buildResources instrs =
     (let costs = fold (\<lambda>i m. fold countCost (om_resourceCost (metaOf (pin_op i))) m) instrs []
      in \<lparr>est_instructionCount = length instrs, est_costCounts = costs,
          est_resourceCost = sort (map fst costs),
          est_requiredCapabilities = sort (fold (\<lambda>i cs. fold setAdd (om_requiredCapabilities (metaOf (pin_op i))) cs) instrs []),
          est_externalInstructionIds = map pin_id (filter (\<lambda>i. om_atomicity (metaOf (pin_op i)) = ''external'') instrs),
          est_requiresOpId = map pin_id (filter (\<lambda>i. om_idempotency (metaOf (pin_op i)) \<noteq> ''safe'') instrs)\<rparr>)"

section \<open>Capability check\<close>

record IsaCapability =
  icap_id :: ustr
  icap_policyVersion :: string
  icap_reason :: string
  icap_opcodes :: "string list"
  icap_workspaces :: "ustr list"
  icap_paths :: "ustr list"
  icap_secrets :: "ustr list"
  icap_concurrentOps :: int
  icap_processes :: int
  icap_outputBytes :: int
  icap_expiresAt :: iso
  icap_epoch :: int

record ValidateProgramOptions =
  vpo_supportedIsa :: "ustr list option"
  vpo_capability :: "IsaCapability option"
  vpo_availableCapabilities :: "string list option"
  vpo_now :: millis
  vpo_requireCapability :: "bool option"

datatype CapabilityPrecheck = PreComplete | PrePartial | PreNotRequested

definition endsIn :: "ustr \<Rightarrow> string \<Rightarrow> bool" where
  "endsIn s t \<longleftrightarrow> length t \<le> length s \<and> drop (length s - length t) s = lit t"

definition matchesPath :: "ustr \<Rightarrow> ustr \<Rightarrow> bool" where
  "matchesPath pat v =
     (if pat = v then True
      else if endsIn pat ''**'' then take (length pat - 2) v = take (length pat - 2) pat
      else if endsIn pat ''*'' then take (length pat - 1) v = take (length pat - 1) pat
      else False)"

definition textsOf :: "jval option \<Rightarrow> ustr list" where
  "textsOf v = (case v of Some (VArr vs) \<Rightarrow> concat (map (\<lambda>x. case x of VStr s \<Rightarrow> [s] | _ \<Rightarrow> []) vs) | _ \<Rightarrow> [])"

definition collectInstructionPaths :: "fields \<Rightarrow> ustr list" where
  "collectInstructionPaths args =
     concat (map (\<lambda>k. case getField args k of Some (VStr s) \<Rightarrow> [s] | _ \<Rightarrow> []) [''path'', ''from'', ''to''])
     @ concat (map (\<lambda>k. textsOf (getField args k)) [''paths'', ''roots''])"

text \<open>The arguments of a parsed instruction. \<open>instruction.value.args\<close> may be any value when an issue
  has already been found; only an object has the properties the code reads, and reading one of
  \<open>undefined\<close> or \<open>null\<close> throws.\<close>

definition argsOf :: "parsedInstr \<Rightarrow> fields option" where
  "argsOf i = (case getField (pin_value i) ''args'' of
     Some (VObj fs) \<Rightarrow> Some fs | None \<Rightarrow> None | Some VNull \<Rightarrow> None | Some _ \<Rightarrow> Some [])"

definition instrPath :: "parsedInstr \<Rightarrow> string \<Rightarrow> ustr" where
  "instrPath i k = lit ''instructions.'' @ pin_id i @ lit ''.'' @ lit k"

definition secretCheck :: "IsaCapability \<Rightarrow> parsedInstr \<Rightarrow> fields \<Rightarrow> report" where
  "secretCheck c i args = (case getField args ''secretEnv'' of
     Some (VObj fs) \<Rightarrow> checkAll (map (\<lambda>(k, v). issueIf (case v of VStr s \<Rightarrow> s \<notin> set (icap_secrets c) | _ \<Rightarrow> True)
        CapabilityDenied (dotKey (instrPath i ''args.secretEnv'') k)) fs)
   | _ \<Rightarrow> pass)"

definition scopeCheck :: "IsaCapability \<Rightarrow> parsedInstr \<Rightarrow> report" where
  "scopeCheck c i = andCheck (issueIf (pin_op i \<notin> set (icap_opcodes c)) CapabilityDenied (instrPath i ''op''))
     (case argsOf i of None \<Rightarrow> None
      | Some args \<Rightarrow> checkAll
          (map (\<lambda>p. issueIf (icap_paths c = [] \<or> \<not> list_ex (\<lambda>pat. matchesPath pat p) (icap_paths c))
             CapabilityDenied (instrPath i ''args'')) (collectInstructionPaths args)
           @ map (\<lambda>k. case getField args k of
                Some (VStr s) \<Rightarrow> issueIf (icap_workspaces c = [] \<or> s \<notin> set (icap_workspaces c)) CapabilityDenied (instrPath i (''args.'' @ k))
              | _ \<Rightarrow> pass) [''workspace'', ''cwd'']
           @ [secretCheck c i args]))"

text \<open>\<open>w > n\<close> for a finite double and an integer.\<close>

definition floatAbove :: "64 word \<Rightarrow> int \<Rightarrow> bool" where
  "floatAbove w n =
     (let e = max 1 (expo w); m = (if expo w = 0 then frac w else 2 ^ 52 + frac w);
          v = (if negative w then - int m else int m)
      in if 1075 \<le> e then n < v * 2 ^ (e - 1075) else n * 2 ^ (1075 - e) < v)"

definition outputExceeds :: "IsaCapability \<Rightarrow> fields \<Rightarrow> bool" where
  "outputExceeds c program = (case getField program ''options'' of
     Some (VObj fs) \<Rightarrow> (case getField fs ''maxOutputBytes'' of Some (VInt n) \<Rightarrow> icap_outputBytes c < n
       | Some (VFloat w) \<Rightarrow> floatAbove w (icap_outputBytes c) | _ \<Rightarrow> False)
   | _ \<Rightarrow> False)"

definition checkCapability ::
    "fields \<Rightarrow> parsedInstr list \<Rightarrow> ResourceEstimate \<Rightarrow> ValidateProgramOptions \<Rightarrow> CapabilityPrecheck \<times> report" where
  "checkCapability program instrs res opts = (case vpo_capability opts of
     None \<Rightarrow> (PreNotRequested, issueIf (vpo_requireCapability opts \<noteq> Some False) CapabilityMissing (lit ''capability''))
   | Some c \<Rightarrow>
      (let base = checkAll ([
             issueIf (getField program ''capability'' \<noteq> None \<and> getField program ''capability'' \<noteq> Some (VStr (icap_id c)))
               CapabilityDenied (lit ''capability''),
             issueIf (case getTime (icap_expiresAt c) of None \<Rightarrow> True | Some t \<Rightarrow> t \<le> vpo_now opts)
               CapabilityExpired (lit ''capability.expiresAt''),
             issueIf (icap_epoch c < 0 \<or> int MAX_SAFE < icap_epoch c) CapabilityDenied (lit ''capability.epoch''),
             issueIf (icap_policyVersion c = []) CapabilityDenied (lit ''capability.policyVersion''),
             issueIf (icap_reason c = []) CapabilityDenied (lit ''capability.reason'')]
           @ map (scopeCheck c) instrs
           @ [issueIf (icap_concurrentOps c < int (est_instructionCount res)) ResourceExceeded (lit ''instructions''),
             issueIf (icap_processes c < int (length (filter (\<lambda>i. pin_op i = ''proc.spawn'') instrs)))
               ResourceExceeded (lit ''instructions''),
             issueIf (outputExceeds c program) ResourceExceeded (lit ''options.maxOutputBytes'')])
       in case vpo_availableCapabilities opts of
            None \<Rightarrow> (PrePartial, base)
          | Some available \<Rightarrow> (PreComplete, andCheck base (checkAll (map (\<lambda>n. issueIf (n \<notin> set available)
               CapabilityDenied (lit ''capability'')) (est_requiredCapabilities res))))))"

section \<open>Cycles\<close>

text \<open>\<open>detectCycles\<close>: a depth first search over the declared dependencies. \<open>None\<close> stands for an
  instruction not reached yet. A search nests at most once per instruction, so a fuel of one more
  than their number is never used up (\<open>ValidatorProps\<close>).\<close>

datatype mark = Visiting | Visited

type_synonym graph = "(ustr, ustr list) jsmap"

definition depsOf :: "parsedInstr \<Rightarrow> ustr list" where
  "depsOf i = textsOf (getField (pin_value i) ''dependsOn'')"

definition graphOf :: "parsedInstr list \<Rightarrow> graph" where
  "graphOf instrs = fold (\<lambda>i g. mapSet (pin_id i) (depsOf i) g) instrs []"

definition successors :: "graph \<Rightarrow> ustr \<Rightarrow> ustr list" where
  "successors g i = filter (\<lambda>d. mapGet g d \<noteq> None) (case mapGet g i of None \<Rightarrow> [] | Some ds \<Rightarrow> ds)"

type_synonym search = "(ustr, mark) jsmap \<times> ValidationIssue list"

definition cycleIssue :: "ustr \<Rightarrow> ValidationIssue" where
  "cycleIssue i = \<lparr>iss_code = DependencyCycle, iss_path = lit ''instructions.'' @ i @ lit ''.dependsOn''\<rparr>"

primrec visit :: "nat \<Rightarrow> graph \<Rightarrow> ustr \<Rightarrow> search \<Rightarrow> search" where
  "visit 0 g i s = s"
| "visit (Suc fuel) g i s = (case mapGet (fst s) i of
     Some Visiting \<Rightarrow> (fst s, snd s @ [cycleIssue i])
   | Some Visited \<Rightarrow> s
   | None \<Rightarrow> (let s' = fold (visit fuel g) (successors g i) (mapSet i Visiting (fst s), snd s)
             in (mapSet i Visited (fst s'), snd s')))"

definition detectCycles :: "graph \<Rightarrow> ValidationIssue list" where
  "detectCycles g = snd (fold (visit (Suc (length g)) g) (map fst g) ([], []))"

section \<open>The program\<close>

text \<open>State of the loop over the instructions.\<close>

record scanState =
  scan_ids :: "ustr list"
  scan_outputs :: "ustr list"
  scan_opIds :: "ustr list"
  scan_parsed :: "parsedInstr list"

definition lookupOpcode :: "jval option \<Rightarrow> string option" where
  "lookupOpcode v = (case v of Some (VStr s) \<Rightarrow> find (\<lambda>o'. lit o' = s) ISA_V1_OPCODES | _ \<Rightarrow> None)"

definition validId :: "jval option \<Rightarrow> bool" where
  "validId v = (case v of Some (VStr s) \<Rightarrow> ID_PATTERN s | _ \<Rightarrow> False)"

definition textOr :: "jval option \<Rightarrow> ustr \<Rightarrow> ustr" where
  "textOr v d = (case v of Some (VStr s) \<Rightarrow> s | _ \<Rightarrow> d)"

fun checkDeps :: "runtime \<Rightarrow> ustr \<Rightarrow> nat \<Rightarrow> ustr list \<Rightarrow> jval list \<Rightarrow> report" where
  "checkDeps rt p n seen [] = pass"
| "checkDeps rt p n seen (d # ds) = (case stringOf rt d of
     None \<Rightarrow> None
   | Some t \<Rightarrow> andCheck (issueIf (\<not> validId (Some d) \<or> t \<in> set seen) InvalidValue (atIndex (dot p ''dependsOn'') n))
       (checkDeps rt p (Suc n) (t # seen) ds))"

definition INSTRUCTION_KEYS :: "string list" where
  "INSTRUCTION_KEYS = [''id'', ''op'', ''args'', ''dependsOn'', ''precondition'', ''output'', ''opId'']"

definition idCheck :: "fields \<Rightarrow> ustr \<Rightarrow> ustr \<Rightarrow> ustr list \<Rightarrow> report" where
  "idCheck fs p i ids = checkAll [checkKeys fs INSTRUCTION_KEYS p, required fs (take 6 INSTRUCTION_KEYS) p,
     (case getField fs ''id'' of Some (VStr s) \<Rightarrow> stringField (Some (VStr s)) (dot p ''id'') (Some ID_PATTERN) | _ \<Rightarrow> pass),
     issueIf (i \<in> set ids) DuplicateId (dot p ''id'')]"

definition listChecks :: "runtime \<Rightarrow> fields \<Rightarrow> ustr \<Rightarrow> ustr list \<Rightarrow> report" where
  "listChecks rt fs p declared = checkAll [
     (case getField fs ''dependsOn'' of
        Some (VArr ds) \<Rightarrow> andCheck (issueIf (64 < length ds) InvalidValue (dot p ''dependsOn'')) (checkDeps rt p 0 [] ds)
      | _ \<Rightarrow> addIssue InvalidType (dot p ''dependsOn'')),
     (case getField fs ''precondition'' of
        Some (VArr cs) \<Rightarrow> andCheck (issueIf (64 < length cs) InvalidValue (dot p ''precondition''))
          (checkAll (map (\<lambda>(n, c). validatePrecondition rt c (atIndex (dot p ''precondition'') n) declared) (indexed cs)))
      | _ \<Rightarrow> addIssue InvalidType (dot p ''precondition''))]"

definition outputCheck :: "fields \<Rightarrow> ustr \<Rightarrow> ustr list \<Rightarrow> report" where
  "outputCheck fs p outputs = (case getField fs ''output'' of
     Some (VStr s) \<Rightarrow> andCheck (stringField (Some (VStr s)) (dot p ''output'') (Some ID_PATTERN))
       (issueIf (s \<in> set outputs) DuplicateOutput (dot p ''output''))
   | _ \<Rightarrow> pass)"

definition opIdCheck :: "fields \<Rightarrow> string \<Rightarrow> ustr \<Rightarrow> ustr list \<Rightarrow> report" where
  "opIdCheck fs op p opIds = (case getField fs ''opId'' of
     None \<Rightarrow> issueIf (om_idempotency (metaOf op) \<noteq> ''safe'') InvalidValue (dot p ''opId'')
   | Some v \<Rightarrow> andCheck (stringField (Some v) (dot p ''opId'') (Some OP_ID_PATTERN))
       (case v of VStr s \<Rightarrow> issueIf (s \<in> set opIds) DuplicateOpId (dot p ''opId'') | _ \<Rightarrow> pass))"

definition addText :: "jval option \<Rightarrow> ustr list \<Rightarrow> ustr list" where
  "addText v xs = (case v of Some (VStr s) \<Rightarrow> setAdd s xs | _ \<Rightarrow> xs)"

definition scanInstr :: "runtime \<Rightarrow> ustr list \<Rightarrow> nat \<Rightarrow> jval \<Rightarrow> scanState \<Rightarrow> report \<times> scanState" where
  "scanInstr rt declared n v st =
     (let p = atIndex (lit ''instructions'') n
      in case v of
        VObj fs \<Rightarrow>
          (let i = (if validId (getField fs ''id'') then textOr (getField fs ''id'') [] else lit (''#'' @ natText n));
               first = idCheck fs p i (scan_ids st);
               st1 = st\<lparr>scan_ids := setAdd i (scan_ids st)\<rparr>
           in case lookupOpcode (getField fs ''op'') of
                None \<Rightarrow> (andCheck first (case getField fs ''op'' of
                     Some x \<Rightarrow> (case stringOf rt x of None \<Rightarrow> None | Some _ \<Rightarrow> addIssue UnsupportedOpcode (dot p ''op''))
                   | None \<Rightarrow> addIssue UnsupportedOpcode (dot p ''op'')), st1)
              | Some op \<Rightarrow>
                 (checkAll [first, validateArgs rt op (getField fs ''args'') (dot p ''args''), listChecks rt fs p declared,
                    outputCheck fs p (scan_outputs st), opIdCheck fs op p (scan_opIds st)],
                  st1\<lparr>scan_outputs := addText (getField fs ''output'') (scan_outputs st),
                     scan_opIds := addText (getField fs ''opId'') (scan_opIds st),
                     scan_parsed := scan_parsed st @ [\<lparr>pin_value = fs, pin_op = op, pin_id = i\<rparr>]\<rparr>))
      | _ \<Rightarrow> (addIssue InvalidType p, st))"

fun scanInstrs :: "runtime \<Rightarrow> ustr list \<Rightarrow> nat \<Rightarrow> jval list \<Rightarrow> scanState \<Rightarrow> report \<times> scanState" where
  "scanInstrs rt declared n [] st = (pass, st)"
| "scanInstrs rt declared n (v # vs) st = (case scanInstr rt declared n v st of (r, st1) \<Rightarrow>
     (case scanInstrs rt declared (Suc n) vs st1 of (q, st2) \<Rightarrow> (andCheck r q, st2)))"

text \<open>References of the parsed instructions. The index in the path is the index among the parsed ones.\<close>

definition referenceCheck :: "jval option \<Rightarrow> ustr list \<Rightarrow> nat \<Rightarrow> parsedInstr \<Rightarrow> report" where
  "referenceCheck programId ids n i =
     (let p = atIndex (lit ''instructions'') n
      in andCheck (checkAll (map (\<lambda>d. issueIf (d \<notin> set ids) UnknownReference (dot p ''dependsOn'')) (depsOf i)))
        (case getField (pin_value i) ''args'' of
           Some (VObj args) \<Rightarrow> checkAll [
             (case getField args ''instruction'' of
                Some (VStr s) \<Rightarrow> issueIf (s \<notin> set ids) UnknownReference (dot p ''args.instruction'') | _ \<Rightarrow> pass),
             (case getField args ''program'' of
                Some (VStr s) \<Rightarrow> issueIf (Some (VStr s) \<noteq> programId) UnknownReference (dot p ''args.program'') | _ \<Rightarrow> pass)]
         | _ \<Rightarrow> pass))"

record planInstr =
  pli_id :: ustr
  pli_op :: string
  pli_atomicity :: string
  pli_observation :: string
  pli_drivers :: "string list"

record ValidationPlan =
  vp_negotiatedIsa :: ustr
  vp_instructions :: "planInstr list"
  vp_dependencies :: graph
  vp_resources :: ResourceEstimate
  vp_capabilityPrecheck :: CapabilityPrecheck

definition PROGRAM_KEYS :: "string list" where
  "PROGRAM_KEYS = [''isa'', ''requestId'', ''programId'', ''mode'', ''capability'', ''workspace'', ''instructions'', ''options'']"

definition headerChecks :: "runtime \<Rightarrow> fields \<Rightarrow> report \<Rightarrow> report" where
  "headerChecks rt fs isaCheck = checkAll [
     (case assertJsonValue ''value'' [] (VObj fs) of
        Some e \<Rightarrow> addIssue InvalidJson (lit ''program'')
      | None \<Rightarrow> issueIf (10485760 < rt_jsonBytes rt (VObj fs)) PayloadTooLarge (lit ''program'')),
     checkKeys fs PROGRAM_KEYS (lit ''program''),
     required fs [''isa'', ''requestId'', ''programId'', ''mode'', ''instructions''] (lit ''program''),
     isaCheck,
     stringField (getField fs ''requestId'') (lit ''requestId'') (Some ID_PATTERN),
     stringField (getField fs ''programId'') (lit ''programId'') (Some ID_PATTERN),
     wordCheck rt [''plan'', ''transaction'', ''pipeline''] (getField fs ''mode'') (lit ''mode''),
     (if getField fs ''capability'' = None then pass else refField (getField fs ''capability'') (lit ''capability'') ''capability''),
     (if getField fs ''workspace'' = None then pass else refField (getField fs ''workspace'') (lit ''workspace'') ''workspace''),
     (if getField fs ''options'' = None then pass else validateOptions rt (getField fs ''options''))]"

definition declaredIds :: "jval list \<Rightarrow> ustr list" where
  "declaredIds raw = concat (map (\<lambda>v. case v of
     VObj fs \<Rightarrow> if validId (getField fs ''id'') then [textOr (getField fs ''id'') []] else [] | _ \<Rightarrow> []) raw)"

definition planOf :: "ustr \<Rightarrow> parsedInstr list \<Rightarrow> CapabilityPrecheck \<Rightarrow> ValidationPlan" where
  "planOf isa parsed pre = \<lparr>vp_negotiatedIsa = isa,
     vp_instructions = map (\<lambda>i. \<lparr>pli_id = pin_id i, pli_op = pin_op i, pli_atomicity = om_atomicity (metaOf (pin_op i)),
        pli_observation = om_observation (metaOf (pin_op i)), pli_drivers = om_drivers (metaOf (pin_op i))\<rparr>) parsed,
     vp_dependencies = graphOf parsed, vp_resources = buildResources parsed, vp_capabilityPrecheck = pre\<rparr>"

text \<open>\<open>validateProgram\<close>: the issues, or the plan; \<open>None\<close> when it throws.\<close>

definition validateProgram :: "runtime \<Rightarrow> jval \<Rightarrow> ValidateProgramOptions \<Rightarrow> (ValidationIssue list + ValidationPlan) option" where
  "validateProgram rt input opts = (case input of
     VObj fs \<Rightarrow>
       (let (isa, isaCheck) = negotiateIsa (getField fs ''isa'') (vpo_supportedIsa opts);
            raw = (case getField fs ''instructions'' of Some (VArr vs) \<Rightarrow> vs | _ \<Rightarrow> []);
            shape = checkAll [
              (case getField fs ''instructions'' of Some (VArr vs) \<Rightarrow> pass | _ \<Rightarrow> addIssue InvalidType (lit ''instructions'')),
              issueIf (raw = []) InvalidValue (lit ''instructions''),
              issueIf (256 < length raw) InvalidValue (lit ''instructions'')];
            (scanned, st) = scanInstrs rt (declaredIds raw) 0 raw
              \<lparr>scan_ids = [], scan_outputs = [], scan_opIds = [], scan_parsed = []\<rparr>;
            parsed = scan_parsed st;
            references = checkAll (map (\<lambda>(n, i). referenceCheck (getField fs ''programId'') (scan_ids st) n i) (indexed parsed));
            (pre, capability) = checkCapability fs parsed (buildResources parsed) opts
        in case checkAll [headerChecks rt fs isaCheck, shape, scanned, references,
               Some (detectCycles (graphOf parsed)), capability] of
             None \<Rightarrow> None
           | Some (e # es) \<Rightarrow> Some (Inl (e # es))
           | Some [] \<Rightarrow> (case isa of None \<Rightarrow> Some (Inl []) | Some v \<Rightarrow> Some (Inr (planOf v parsed pre))))
   | _ \<Rightarrow> Some (Inl [\<lparr>iss_code = InvalidType, iss_path = lit ''program''\<rparr>]))"

end
