(* ===== verification/Pipeline.thy ===== *)
theory Pipeline
  imports Validator
begin

text \<open>
  The pipeline executor, \<open>src/src/isa/pipeline.ts\<close>: the domain coordinator (resources, in-flight
  operations, commit queue), the asynchronous body of one instruction and the scheduling loop of
  \<open>executePipeline\<close>. Several programs run against one coordinator. The code between two \<open>await\<close>s is
  one function from system to system, and \<open>pipelineStep\<close> is the relation that lets any enabled piece run
  next; the executor and the precondition checker are the host's and may answer or throw anything.
\<close>

section \<open>Programs\<close>

datatype InstructionStatus = StAdmitted | StRunning | StSucceeded | StFailed | StRejected | StCancelled
  | StIndeterminate | StPartial | StRolledBack

definition statusText :: "InstructionStatus \<Rightarrow> string" where
  "statusText st = (case st of StAdmitted \<Rightarrow> ''admitted'' | StRunning \<Rightarrow> ''running'' | StSucceeded \<Rightarrow> ''succeeded''
     | StFailed \<Rightarrow> ''failed'' | StRejected \<Rightarrow> ''rejected'' | StCancelled \<Rightarrow> ''cancelled''
     | StIndeterminate \<Rightarrow> ''indeterminate'' | StPartial \<Rightarrow> ''partial'' | StRolledBack \<Rightarrow> ''rolled_back'')"

datatype precondition = StatusIs ustr ustr | External jval

record instruction =
  ins_id :: ustr
  ins_op :: string
  ins_dependsOn :: "ustr list"
  ins_precondition :: "precondition list"
  ins_opId :: "ustr option"
  ins_raw :: jval

record programCopy =
  pg_fields :: fields
  pg_programId :: ustr
  pg_instructions :: "instruction list"

text \<open>The typed view of an accepted program (\<open>decodeProgram(encodeProgram(program))\<close> is a structural
  copy). Ids are read as the strings the schema asks for.\<close>

definition preconditionOf :: "jval \<Rightarrow> precondition" where
  "preconditionOf v = (case v of
     VObj fs \<Rightarrow> if getField fs ''kind'' = Some (VStr (lit ''instruction_status''))
       then StatusIs (textOr (getField fs ''instruction'') []) (textOr (getField fs ''status'') []) else External v
   | _ \<Rightarrow> External v)"

definition instructionOf :: "fields \<Rightarrow> instruction" where
  "instructionOf fs = \<lparr>ins_id = textOr (getField fs ''id'') [],
     ins_op = (case lookupOpcode (getField fs ''op'') of Some op \<Rightarrow> op | None \<Rightarrow> []),
     ins_dependsOn = textsOf (getField fs ''dependsOn''),
     ins_precondition = (case getField fs ''precondition'' of Some (VArr vs) \<Rightarrow> map preconditionOf vs | _ \<Rightarrow> []),
     ins_opId = (case getField fs ''opId'' of Some (VStr s) \<Rightarrow> Some s | _ \<Rightarrow> None),
     ins_raw = VObj fs\<rparr>"

definition programOf :: "fields \<Rightarrow> programCopy" where
  "programOf fs = \<lparr>pg_fields = fs, pg_programId = textOr (getField fs ''programId'') [],
     pg_instructions = concat (map (\<lambda>v. case v of VObj gs \<Rightarrow> [instructionOf gs] | _ \<Rightarrow> [])
       (case getField fs ''instructions'' of Some (VArr vs) \<Rightarrow> vs | _ \<Rightarrow> []))\<rparr>"

text \<open>\<open>new Map(instructions.map(...))\<close>: a later instruction with the same id wins.\<close>

definition byId :: "programCopy \<Rightarrow> ustr \<Rightarrow> instruction option" where
  "byId pg x = find (\<lambda>i. ins_id i = x) (rev (pg_instructions pg))"

definition resourceCost :: "instruction \<Rightarrow> string list" where
  "resourceCost i = om_resourceCost (metaOf (ins_op i))"

definition needsCommit :: "instruction \<Rightarrow> bool" where
  "needsCommit i \<longleftrightarrow> list_ex (\<lambda>r. r = ''io.write'' \<or> r = ''journal.write'') (resourceCost i)"

definition operationKey :: "programCopy \<Rightarrow> instruction \<Rightarrow> ustr" where
  "operationKey pg i = (case ins_opId i of Some k \<Rightarrow> k | None \<Rightarrow> pg_programId pg @ lit '':'' @ ins_id i)"

text \<open>\<open>digest\<close> stands for the SHA-256 of the JSON text of a canonical value.\<close>

definition instructionFingerprint :: "(jval \<Rightarrow> ustr) \<Rightarrow> programCopy \<Rightarrow> instruction \<Rightarrow> ustr" where
  "instructionFingerprint digest pg i =
     (let orNull = (\<lambda>v. case v of None \<Rightarrow> VNull | Some x \<Rightarrow> x); fs = pg_fields pg
      in digest (canonicalize (VObj [
        (lit ''isa'', orNull (getField fs ''isa'')), (lit ''programId'', orNull (getField fs ''programId'')),
        (lit ''capability'', orNull (getField fs ''capability'')), (lit ''workspace'', orNull (getField fs ''workspace'')),
        (lit ''options'', orNull (getField fs ''options'')), (lit ''instruction'', ins_raw i)])))"

section \<open>Results\<close>

datatype PreconditionVerdict = Valid | Stale | Unknown

text \<open>The error object of a result: one constructor per code and message.\<close>

datatype pipelineError = PeCancelled | PeDependencyFailed ustr | PeOpIdConflict ustr
  | PePreconditionFailed nat PreconditionVerdict | PeExecutor ustr | PeGiven jval

record outcome =
  oc_status :: InstructionStatus
  oc_value :: "jval option"
  oc_error :: "jval option"
  oc_evidence :: "jval option"

record pipelineResult =
  pr_id :: ustr
  pr_op :: string
  pr_resources :: "string list"
  pr_joined :: bool
  pr_status :: InstructionStatus
  pr_value :: "jval option"
  pr_error :: "pipelineError option"
  pr_evidence :: "jval option"

definition plainResult :: "instruction \<Rightarrow> InstructionStatus \<Rightarrow> pipelineError \<Rightarrow> pipelineResult" where
  "plainResult i st e = \<lparr>pr_id = ins_id i, pr_op = ins_op i, pr_resources = resourceCost i, pr_joined = False,
     pr_status = st, pr_value = None, pr_error = Some e, pr_evidence = None\<rparr>"

definition abortOutcome :: "instruction \<Rightarrow> pipelineResult" where
  "abortOutcome i = plainResult i StCancelled PeCancelled"

definition skippedOutcome :: "instruction \<Rightarrow> ustr \<Rightarrow> pipelineResult" where
  "skippedOutcome i d = plainResult i StPartial (PeDependencyFailed d)"

definition failedOutcome :: "instruction \<Rightarrow> pipelineError \<Rightarrow> pipelineResult" where
  "failedOutcome i e = plainResult i StFailed e"

definition executed :: "instruction \<Rightarrow> outcome \<Rightarrow> pipelineResult" where
  "executed i out = \<lparr>pr_id = ins_id i, pr_op = ins_op i, pr_resources = resourceCost i, pr_joined = False,
     pr_status = oc_status out, pr_value = oc_value out, pr_error = map_option PeGiven (oc_error out),
     pr_evidence = oc_evidence out\<rparr>"

definition dependencySucceeded :: "pipelineResult option \<Rightarrow> bool" where
  "dependencySucceeded r = (case r of None \<Rightarrow> False
     | Some r \<Rightarrow> pr_status r = StSucceeded \<or> pr_op r = ''workspace.rollback'' \<and> pr_status r = StRolledBack)"

datatype PipelineStatus = PipeSucceeded | PipeFailed | PipePartial | PipeRejected | PipeIndeterminate

definition finalStatus :: "pipelineResult list \<Rightarrow> PipelineStatus" where
  "finalStatus rs = (if list_ex (\<lambda>r. pr_status r = StIndeterminate) rs then PipeIndeterminate
     else if list_ex (\<lambda>r. pr_status r = StFailed) rs then PipeFailed
     else if list_ex (\<lambda>r. pr_status r = StPartial \<or> pr_status r = StCancelled) rs then PipePartial
     else PipeSucceeded)"

record pipelineRun =
  run_isa :: "ustr option"
  run_requestId :: "ustr option"
  run_programId :: "ustr option"
  run_status :: PipelineStatus
  run_plan :: "ValidationPlan option"
  run_results :: "pipelineResult list"
  run_issues :: "ValidationIssue list"

definition textField :: "fields \<Rightarrow> string \<Rightarrow> ustr option" where
  "textField fs k = (case getField fs k of Some (VStr s) \<Rightarrow> Some s | _ \<Rightarrow> None)"

definition rejectedResult :: "jval \<Rightarrow> ValidationIssue list \<Rightarrow> pipelineRun" where
  "rejectedResult input issues =
     (let fs = (case input of VObj fs \<Rightarrow> fs | _ \<Rightarrow> [])
      in \<lparr>run_isa = textField fs ''isa'', run_requestId = textField fs ''requestId'',
          run_programId = textField fs ''programId'', run_status = PipeRejected, run_plan = None, run_results = [],
          run_issues = issues\<rparr>)"

section \<open>The system\<close>

text \<open>An instruction in flight: the index of its program and its id. Its phase is the point its
  asynchronous function has reached: waiting for resources, holding them, in the commit queue, before
  the \<open>n\<close>th precondition, in the executor, after the body, after the commit queue, resolved, and
  resolved with the result recorded. A joined instruction waits for the promise of another one.\<close>

type_synonym tid = "nat \<times> ustr"

datatype phase = Waiting | Granted | Queued | Checking nat | Executing | Ran pipelineResult
  | Left pipelineResult | Returned pipelineResult | Settled pipelineResult | Joined tid

datatype loopState = Ready | Racing | Finished pipelineRun

record pipe =
  pi_program :: programCopy
  pi_input :: jval
  pi_plan :: ValidationPlan
  pi_maxConcurrency :: nat
  pi_hasChecker :: bool
  pi_aborted :: bool
  pi_pending :: "ustr list"
  pi_completed :: "ustr \<Rightarrow> pipelineResult option"
  pi_active :: "ustr list"
  pi_loop :: loopState

record sys =
  sy_count :: nat
  sy_pipe :: "nat \<Rightarrow> pipe"
  sy_task :: "tid \<Rightarrow> phase option"
  sy_held :: "string set"
  sy_waiters :: "(tid \<times> string list) list"
  sy_inFlight :: "ustr \<Rightarrow> (ustr \<times> tid) option"
  sy_commits :: "tid list"

definition setPipe :: "nat \<Rightarrow> pipe \<Rightarrow> sys \<Rightarrow> sys" where
  "setPipe p q s = s\<lparr>sy_pipe := (sy_pipe s)(p := q)\<rparr>"

definition setTask :: "tid \<Rightarrow> phase \<Rightarrow> sys \<Rightarrow> sys" where
  "setTask t ph s = s\<lparr>sy_task := (sy_task s)(t \<mapsto> ph)\<rparr>"

definition complete :: "tid \<Rightarrow> pipelineResult \<Rightarrow> sys \<Rightarrow> sys" where
  "complete t r s = setPipe (fst t) ((sy_pipe s (fst t))\<lparr>pi_completed := (pi_completed (sy_pipe s (fst t)))(snd t \<mapsto> r)\<rparr>) s"

definition instrOf :: "sys \<Rightarrow> tid \<Rightarrow> instruction option" where
  "instrOf s t = byId (pi_program (sy_pipe s (fst t))) (snd t)"

section \<open>The coordinator\<close>

text \<open>\<open>drainWaiters\<close>: the waiters in order, each granted when none of its resources is held; the
  result is what still waits, what is held, and who was granted.\<close>

fun drainList :: "(tid \<times> string list) list \<Rightarrow> string set \<Rightarrow> (tid \<times> string list) list \<times> string set \<times> tid list" where
  "drainList [] held = ([], held, [])"
| "drainList ((t, rs) # ws) held =
     (if list_ex (\<lambda>r. r \<in> held) rs
      then (case drainList ws held of (ws', held', granted) \<Rightarrow> ((t, rs) # ws', held', granted))
      else (case drainList ws (held \<union> set rs) of (ws', held', granted) \<Rightarrow> (ws', held', t # granted)))"

definition drainWaiters :: "sys \<Rightarrow> sys" where
  "drainWaiters s = (case drainList (sy_waiters s) (sy_held s) of (ws, held, granted) \<Rightarrow>
     s\<lparr>sy_waiters := ws, sy_held := held,
       sy_task := (\<lambda>t. if t \<in> set granted then Some Granted else sy_task s t)\<rparr>)"

definition acquire :: "tid \<Rightarrow> string list \<Rightarrow> sys \<Rightarrow> sys" where
  "acquire t resources s =
     drainWaiters ((setTask t Waiting s)\<lparr>sy_waiters := sy_waiters s @ [(t, sort (remdups resources))]\<rparr>)"

definition releaseResources :: "instruction \<Rightarrow> sys \<Rightarrow> sys" where
  "releaseResources i s = drainWaiters (s\<lparr>sy_held := sy_held s - set (resourceCost i)\<rparr>)"

definition joinInFlight :: "ustr \<Rightarrow> ustr \<Rightarrow> sys \<Rightarrow> unit + tid option" where
  "joinInFlight key fp s = (case sy_inFlight s key of None \<Rightarrow> Inr None
     | Some (fp', t) \<Rightarrow> if fp' \<noteq> fp then Inl () else Inr (Some t))"

definition registerInFlight :: "ustr \<Rightarrow> ustr \<Rightarrow> tid \<Rightarrow> sys \<Rightarrow> sys" where
  "registerInFlight key fp t s = s\<lparr>sy_inFlight := (sy_inFlight s)(key \<mapsto> (fp, t))\<rparr>"

definition leaveInFlight :: "ustr \<Rightarrow> tid \<Rightarrow> sys \<Rightarrow> sys" where
  "leaveInFlight key t s = (case sy_inFlight s key of
     Some (fp, u) \<Rightarrow> if u = t then s\<lparr>sy_inFlight := (sy_inFlight s)(key := None)\<rparr> else s | None \<Rightarrow> s)"

section \<open>One instruction\<close>

text \<open>\<open>start\<close>: the synchronous part, up to the first \<open>await\<close>.\<close>

definition activate :: "tid \<Rightarrow> sys \<Rightarrow> sys" where
  "activate t s = setPipe (fst t) ((sy_pipe s (fst t))\<lparr>pi_active := pi_active (sy_pipe s (fst t)) @ [snd t]\<rparr>) s"

definition unpend :: "tid \<Rightarrow> sys \<Rightarrow> sys" where
  "unpend t s = setPipe (fst t) ((sy_pipe s (fst t))\<lparr>pi_pending := removeAll (snd t) (pi_pending (sy_pipe s (fst t)))\<rparr>) s"

definition start :: "(jval \<Rightarrow> ustr) \<Rightarrow> nat \<Rightarrow> instruction \<Rightarrow> sys \<Rightarrow> sys" where
  "start digest p i s =
     (let t = (p, ins_id i); pg = pi_program (sy_pipe s p); key = operationKey pg i;
          fp = instructionFingerprint digest pg i; s1 = unpend t s
      in case joinInFlight key fp s1 of
           Inl _ \<Rightarrow> complete t (failedOutcome i (PeOpIdConflict key)) s1
         | Inr (Some u) \<Rightarrow> activate t (setTask t (Joined u) s1)
         | Inr None \<Rightarrow>
             activate t (registerInFlight key fp t
               (if pi_aborted (sy_pipe s1 p) then setTask t (Returned (abortOutcome i)) s1
                else acquire t (resourceCost i) s1)))"

text \<open>The body \<open>run\<close>, from its first check of the abort signal.\<close>

definition isAborted :: "sys \<Rightarrow> tid \<Rightarrow> bool" where
  "isAborted s t = pi_aborted (sy_pipe s (fst t))"

definition beginRun :: "tid \<Rightarrow> instruction \<Rightarrow> sys \<Rightarrow> sys" where
  "beginRun t i s = setTask t (if isAborted s t then Ran (abortOutcome i) else Checking 0) s"

definition enterRun :: "tid \<Rightarrow> instruction \<Rightarrow> sys \<Rightarrow> sys" where
  "enterRun t i s = (if needsCommit i then (setTask t Queued s)\<lparr>sy_commits := sy_commits s @ [t]\<rparr> else beginRun t i s)"

definition verdictOf :: "sys \<Rightarrow> tid \<Rightarrow> ustr + PreconditionVerdict \<Rightarrow> precondition \<Rightarrow> ustr + PreconditionVerdict" where
  "verdictOf s t answer c = (case c of
     StatusIs x st \<Rightarrow> (case pi_completed (sy_pipe s (fst t)) x of
        Some r \<Rightarrow> Inr (if lit (statusText (pr_status r)) = st then Valid else Stale) | None \<Rightarrow> Inr Stale)
   | External v \<Rightarrow> if pi_hasChecker (sy_pipe s (fst t)) then answer else Inr Unknown)"

definition checkOne :: "tid \<Rightarrow> instruction \<Rightarrow> nat \<Rightarrow> ustr + PreconditionVerdict \<Rightarrow> sys \<Rightarrow> sys" where
  "checkOne t i n answer s =
     (if n < length (ins_precondition i)
      then (case verdictOf s t answer (ins_precondition i ! n) of
         Inl message \<Rightarrow> setTask t (Ran (failedOutcome i (PeExecutor message))) s
       | Inr v \<Rightarrow> if v = Valid then setTask t (Checking (Suc n)) s
                 else setTask t (Ran (failedOutcome i (PePreconditionFailed n v))) s)
      else if isAborted s t then setTask t (Ran (abortOutcome i)) s
      else setTask t Executing s)"

definition executorReturns :: "tid \<Rightarrow> instruction \<Rightarrow> ustr + outcome \<Rightarrow> sys \<Rightarrow> sys" where
  "executorReturns t i answer s = setTask t (Ran (case answer of
     Inl message \<Rightarrow> failedOutcome i (PeExecutor message) | Inr out \<Rightarrow> executed i out)) s"

text \<open>The \<open>finally\<close> of \<open>withCommitQueue\<close>, then the one that releases the resources, then the reactions
  to the resolved promise.\<close>

definition leaveQueue :: "tid \<Rightarrow> instruction \<Rightarrow> pipelineResult \<Rightarrow> sys \<Rightarrow> sys" where
  "leaveQueue t i r s = (setTask t (Left r) s)\<lparr>sy_commits := (if needsCommit i then removeAll t (sy_commits s) else sy_commits s)\<rparr>"

definition release :: "tid \<Rightarrow> instruction \<Rightarrow> pipelineResult \<Rightarrow> sys \<Rightarrow> sys" where
  "release t i r s = releaseResources i (setTask t (Returned r) s)"

definition settle :: "tid \<Rightarrow> instruction \<Rightarrow> pipelineResult \<Rightarrow> sys \<Rightarrow> sys" where
  "settle t i r s = complete t r (setTask t (Settled r)
     (leaveInFlight (operationKey (pi_program (sy_pipe s (fst t))) i) t s))"

definition joinSettles :: "tid \<Rightarrow> pipelineResult \<Rightarrow> sys \<Rightarrow> sys" where
  "joinSettles t r s =
     (let r' = r\<lparr>pr_id := snd t, pr_joined := True\<rparr> in complete t r' (setTask t (Settled r') s))"

section \<open>The loop\<close>

definition isDone :: "pipe \<Rightarrow> ustr \<Rightarrow> bool" where
  "isDone q x \<longleftrightarrow> pi_completed q x \<noteq> None"

definition abortPending :: "nat \<Rightarrow> sys \<Rightarrow> sys" where
  "abortPending p s = (let q = sy_pipe s p in
     if pi_aborted q
     then setPipe p (q\<lparr>pi_pending := [],
       pi_completed := (\<lambda>x. if x \<in> set (pi_pending q) then map_option abortOutcome (byId (pi_program q) x)
         else pi_completed q x)\<rparr>) s
     else s)"

definition considerOne :: "(jval \<Rightarrow> ustr) \<Rightarrow> nat \<Rightarrow> instruction \<Rightarrow> sys \<Rightarrow> sys option" where
  "considerOne digest p i s = (let q = sy_pipe s p in
     if \<not> list_all (isDone q) (ins_dependsOn i) then None
     else (case find (\<lambda>d. \<not> dependencySucceeded (pi_completed q d)) (ins_dependsOn i) of
             Some d \<Rightarrow> if d \<noteq> [] then Some (complete (p, ins_id i) (skippedOutcome i d) (unpend (p, ins_id i) s))
                      else Some (start digest p i s)
           | None \<Rightarrow> Some (start digest p i s)))"

fun scheduleAll :: "(jval \<Rightarrow> ustr) \<Rightarrow> nat \<Rightarrow> ustr list \<Rightarrow> bool \<Rightarrow> sys \<Rightarrow> bool \<times> sys" where
  "scheduleAll digest p [] progressed s = (progressed, s)"
| "scheduleAll digest p (x # xs) progressed s =
     (if pi_maxConcurrency (sy_pipe s p) \<le> length (pi_active (sy_pipe s p)) then (progressed, s)
      else (case byId (pi_program (sy_pipe s p)) x of
              None \<Rightarrow> scheduleAll digest p xs progressed s
            | Some i \<Rightarrow> (case considerOne digest p i s of
                None \<Rightarrow> scheduleAll digest p xs progressed s
              | Some s' \<Rightarrow> scheduleAll digest p xs True s')))"

definition pipelineReport :: "pipe \<Rightarrow> pipelineRun" where
  "pipelineReport q =
     (let pg = pi_program q;
          results = map (\<lambda>i. case pi_completed q (ins_id i) of Some r \<Rightarrow> r
            | None \<Rightarrow> skippedOutcome i (lit ''unknown'')) (pg_instructions pg)
      in \<lparr>run_isa = Some (vp_negotiatedIsa (pi_plan q)), run_requestId = textField (pg_fields pg) ''requestId'',
          run_programId = textField (pg_fields pg) ''programId'', run_status = finalStatus results,
          run_plan = Some (pi_plan q), run_results = results, run_issues = []\<rparr>)"

definition stuckRun :: "pipe \<Rightarrow> pipelineRun" where
  "stuckRun q = rejectedResult (pi_input q) [\<lparr>iss_code = DependencyCycle, iss_path = lit ''instructions''\<rparr>]"

definition setLoop :: "nat \<Rightarrow> loopState \<Rightarrow> sys \<Rightarrow> sys" where
  "setLoop p l s = setPipe p ((sy_pipe s p)\<lparr>pi_loop := l\<rparr>) s"

text \<open>One turn of the loop up to the \<open>await\<close> of the race, or the end.\<close>

definition loopTurn :: "(jval \<Rightarrow> ustr) \<Rightarrow> nat \<Rightarrow> sys \<Rightarrow> sys" where
  "loopTurn digest p s =
     (if pi_pending (sy_pipe s p) = [] \<and> pi_active (sy_pipe s p) = [] then setLoop p (Finished (pipelineReport (sy_pipe s p))) s
      else (let s1 = abortPending p s;
                (progressed, s2) = scheduleAll digest p (pi_pending (sy_pipe s1 p)) False s1;
                q = sy_pipe s2 p
            in if pi_active q \<noteq> [] then setLoop p Racing s2
               else if pi_pending q \<noteq> [] \<and> \<not> progressed then setLoop p (Finished (stuckRun q)) s2
               else setLoop p Ready s2))"

text \<open>The race has resolved: completed instructions leave \<open>active\<close>.\<close>

definition wake :: "nat \<Rightarrow> sys \<Rightarrow> sys" where
  "wake p s = (let q = sy_pipe s p in
     setPipe p (q\<lparr>pi_active := filter (\<lambda>x. \<not> isDone q x) (pi_active q), pi_loop := Ready\<rparr>) s)"

definition abortSignal :: "nat \<Rightarrow> sys \<Rightarrow> sys" where
  "abortSignal p s = setPipe p ((sy_pipe s p)\<lparr>pi_aborted := True\<rparr>) s"

section \<open>Steps\<close>

inductive pipelineStep :: "(jval \<Rightarrow> ustr) \<Rightarrow> sys \<Rightarrow> sys \<Rightarrow> bool" for digest where
  Abort: "p < sy_count s \<Longrightarrow> \<not> pi_aborted (sy_pipe s p) \<Longrightarrow> pipelineStep digest s (abortSignal p s)"
| Turn: "p < sy_count s \<Longrightarrow> pi_loop (sy_pipe s p) = Ready \<Longrightarrow> pipelineStep digest s (loopTurn digest p s)"
| Wake: "p < sy_count s \<Longrightarrow> pi_loop (sy_pipe s p) = Racing \<Longrightarrow> list_ex (isDone (sy_pipe s p)) (pi_active (sy_pipe s p))
    \<Longrightarrow> pipelineStep digest s (wake p s)"
| Enter: "sy_task s t = Some Granted \<Longrightarrow> instrOf s t = Some i \<Longrightarrow> pipelineStep digest s (enterRun t i s)"
| Commit: "sy_task s t = Some Queued \<Longrightarrow> instrOf s t = Some i \<Longrightarrow> sy_commits s = t # ts \<Longrightarrow> pipelineStep digest s (beginRun t i s)"
| Check: "sy_task s t = Some (Checking n) \<Longrightarrow> instrOf s t = Some i \<Longrightarrow> pipelineStep digest s (checkOne t i n answer s)"
| Return: "sy_task s t = Some Executing \<Longrightarrow> instrOf s t = Some i \<Longrightarrow> pipelineStep digest s (executorReturns t i out s)"
| LeaveQueue: "sy_task s t = Some (Ran r) \<Longrightarrow> instrOf s t = Some i \<Longrightarrow> pipelineStep digest s (leaveQueue t i r s)"
| Release: "sy_task s t = Some (Left r) \<Longrightarrow> instrOf s t = Some i \<Longrightarrow> pipelineStep digest s (release t i r s)"
| Settle: "sy_task s t = Some (Returned r) \<Longrightarrow> instrOf s t = Some i \<Longrightarrow> pipelineStep digest s (settle t i r s)"
| JoinSettles: "sy_task s t = Some (Joined u) \<Longrightarrow> sy_task s u = Some (Settled r) \<Longrightarrow> pipelineStep digest s (joinSettles t r s)"

section \<open>Starting\<close>

record pipelineOptions =
  po_maxConcurrency :: "nat option"
  po_hasChecker :: bool
  po_aborted :: bool

definition maxConcurrencyOf :: "nat option \<Rightarrow> nat" where
  "maxConcurrencyOf n = max 1 (min (case n of None \<Rightarrow> 8 | Some k \<Rightarrow> k) 256)"

definition newPipe :: "pipelineOptions \<Rightarrow> fields \<Rightarrow> ValidationPlan \<Rightarrow> pipe" where
  "newPipe po fs plan = \<lparr>pi_program = programOf fs, pi_input = VObj fs, pi_plan = plan,
     pi_maxConcurrency = maxConcurrencyOf (po_maxConcurrency po), pi_hasChecker = po_hasChecker po,
     pi_aborted = po_aborted po, pi_pending = remdups (map ins_id (pg_instructions (programOf fs))),
     pi_completed = Map.empty, pi_active = [], pi_loop = Ready\<rparr>"

text \<open>\<open>executePipeline\<close> up to its loop: a rejected run, or the state the loop starts in; \<open>None\<close> when the
  validator throws.\<close>

definition executePipeline :: "runtime \<Rightarrow> jval \<Rightarrow> ValidateProgramOptions \<Rightarrow> pipelineOptions \<Rightarrow> (pipelineRun + pipe) option" where
  "executePipeline rt input opts po = (case validateProgram rt input opts of
     None \<Rightarrow> None
   | Some (Inl issues) \<Rightarrow> Some (Inl (rejectedResult input issues))
   | Some (Inr plan) \<Rightarrow> (case input of
       VObj fs \<Rightarrow> if getField fs ''mode'' \<noteq> Some (VStr (lit ''pipeline''))
         then Some (Inl (rejectedResult input [\<lparr>iss_code = InvalidValue, iss_path = lit ''mode''\<rparr>]))
         else Some (Inr (newPipe po fs plan))
     | _ \<Rightarrow> None))"

definition newSystem :: "pipe list \<Rightarrow> sys" where
  "newSystem qs = \<lparr>sy_count = length qs, sy_pipe = (\<lambda>p. qs ! p), sy_task = Map.empty, sy_held = {}, sy_waiters = [],
     sy_inFlight = Map.empty, sy_commits = []\<rparr>"

end
