(* ===== verification/PipelineInv.thy ===== *)
theory PipelineInv
  imports Pipeline
begin

text \<open>
  The invariant of the pipeline system: where every instruction stands (\<open>cells\<close>), what has gone
  before an instruction that has started (\<open>gates\<close>, \<open>conds\<close>), who holds and who waits for resources
  (\<open>waitersOk\<close>, \<open>heldOk\<close>, \<open>blockedOk\<close>), the commit queue, joins and the loops; and that each step
  keeps it.
\<close>

named_theorems upd \<open>how the system updates read back\<close>

lemma setPipe_sel [upd]:
  "sy_pipe (setPipe p q s) = (sy_pipe s)(p := q)" "sy_task (setPipe p q s) = sy_task s" "sy_count (setPipe p q s) = sy_count s"
  "sy_held (setPipe p q s) = sy_held s" "sy_waiters (setPipe p q s) = sy_waiters s"
  "sy_inFlight (setPipe p q s) = sy_inFlight s" "sy_commits (setPipe p q s) = sy_commits s"
  by (simp_all add: setPipe_def)

lemma setTask_sel [upd]:
  "sy_pipe (setTask t ph s) = sy_pipe s" "sy_task (setTask t ph s) = (sy_task s)(t \<mapsto> ph)" "sy_count (setTask t ph s) = sy_count s"
  "sy_held (setTask t ph s) = sy_held s" "sy_waiters (setTask t ph s) = sy_waiters s"
  "sy_inFlight (setTask t ph s) = sy_inFlight s" "sy_commits (setTask t ph s) = sy_commits s"
  by (simp_all add: setTask_def)

section \<open>Phases\<close>

fun settledOf :: "phase \<Rightarrow> pipelineResult option" where
  "settledOf (Settled r) = Some r"
| "settledOf _ = None"

fun resultOf :: "phase \<Rightarrow> pipelineResult option" where
  "resultOf (Ran r) = Some r"
| "resultOf (Left r) = Some r"
| "resultOf (Returned r) = Some r"
| "resultOf (Settled r) = Some r"
| "resultOf _ = None"

fun holdsResources :: "phase \<Rightarrow> bool" where
  "holdsResources Granted = True"
| "holdsResources Queued = True"
| "holdsResources (Checking n) = True"
| "holdsResources Executing = True"
| "holdsResources (Ran r) = True"
| "holdsResources (Left r) = True"
| "holdsResources _ = False"

fun inBody :: "phase \<Rightarrow> bool" where
  "inBody (Checking n) = True"
| "inBody Executing = True"
| "inBody (Ran r) = True"
| "inBody _ = False"

fun isJoined :: "phase \<Rightarrow> bool" where
  "isJoined (Joined u) = True"
| "isJoined _ = False"

section \<open>The invariant\<close>

abbreviation prog :: "sys \<Rightarrow> nat \<Rightarrow> programCopy" where
  "prog s p \<equiv> pi_program (sy_pipe s p)"

definition idsOf :: "programCopy \<Rightarrow> ustr set" where
  "idsOf pg = ins_id ` set (pg_instructions pg)"

definition depGraph :: "programCopy \<Rightarrow> (ustr \<times> ustr) set" where
  "depGraph pg = {(ins_id i, d) | i d. i \<in> set (pg_instructions pg) \<and> d \<in> set (ins_dependsOn i)}"

definition wfProgram :: "programCopy \<Rightarrow> bool" where
  "wfProgram pg \<longleftrightarrow> distinct (map ins_id (pg_instructions pg)) \<and> acyclic (depGraph pg)
     \<and> (\<forall>i \<in> set (pg_instructions pg). set (ins_dependsOn i) \<subseteq> idsOf pg \<and> ins_id i \<noteq> [])"

text \<open>Where an instruction stands: waiting to be scheduled, started, or completed.\<close>

definition cellOk :: "bool \<Rightarrow> bool \<Rightarrow> pipelineResult option \<Rightarrow> phase option \<Rightarrow> bool" where
  "cellOk pend act res tk \<longleftrightarrow> (case tk of
     None \<Rightarrow> \<not> act \<and> (pend \<longleftrightarrow> res = None)
   | Some ph \<Rightarrow> \<not> pend \<and> (case settledOf ph of Some r \<Rightarrow> res = Some r | None \<Rightarrow> act \<and> res = None))"

definition cells :: "sys \<Rightarrow> bool" where
  "cells s \<longleftrightarrow> (\<forall>p x. if p < sy_count s \<and> x \<in> idsOf (prog s p)
     then cellOk (x \<in> set (pi_pending (sy_pipe s p))) (x \<in> set (pi_active (sy_pipe s p))) (pi_completed (sy_pipe s p) x) (sy_task s (p, x))
     else sy_task s (p, x) = None
       \<and> (p < sy_count s \<longrightarrow> x \<notin> set (pi_pending (sy_pipe s p)) \<and> x \<notin> set (pi_active (sy_pipe s p)) \<and> pi_completed (sy_pipe s p) x = None))"

definition named :: "sys \<Rightarrow> bool" where
  "named s \<longleftrightarrow> (\<forall>p x r. pi_completed (sy_pipe s p) x = Some r \<and> p < sy_count s \<longrightarrow> pr_id r = x)
     \<and> (\<forall>t ph r. sy_task s t = Some ph \<and> resultOf ph = Some r \<longrightarrow> pr_id r = snd t)"

definition gates :: "sys \<Rightarrow> bool" where
  "gates s \<longleftrightarrow> (\<forall>t i d. sy_task s t \<noteq> None \<and> instrOf s t = Some i \<and> d \<in> set (ins_dependsOn i)
     \<longrightarrow> dependencySucceeded (pi_completed (sy_pipe s (fst t)) d))"

definition condOk :: "pipe \<Rightarrow> precondition \<Rightarrow> bool" where
  "condOk q c \<longleftrightarrow> (case c of StatusIs x st \<Rightarrow> \<exists>r. pi_completed q x = Some r \<and> lit (statusText (pr_status r)) = st
     | External v \<Rightarrow> pi_hasChecker q)"

definition condPhase :: "sys \<Rightarrow> tid \<Rightarrow> phase \<Rightarrow> bool" where
  "condPhase s t ph \<longleftrightarrow> (\<forall>i. instrOf s t = Some i \<longrightarrow>
     (ph = Executing \<longrightarrow> list_all (condOk (sy_pipe s (fst t))) (ins_precondition i))
     \<and> (\<forall>n. ph = Checking n \<longrightarrow> list_all (condOk (sy_pipe s (fst t))) (take n (ins_precondition i))))"

definition conds :: "sys \<Rightarrow> bool" where
  "conds s \<longleftrightarrow> (\<forall>t ph. sy_task s t = Some ph \<longrightarrow> condPhase s t ph)"

definition cost :: "sys \<Rightarrow> tid \<Rightarrow> string set" where
  "cost s t = set (resourceCost (the (instrOf s t)))"

definition holding :: "sys \<Rightarrow> tid \<Rightarrow> bool" where
  "holding s t \<longleftrightarrow> (\<exists>ph. sy_task s t = Some ph \<and> holdsResources ph)"

definition committing :: "sys \<Rightarrow> tid \<Rightarrow> bool" where
  "committing s t \<longleftrightarrow> (\<exists>ph. sy_task s t = Some ph \<and> (ph = Queued \<or> inBody ph) \<and> needsCommit (the (instrOf s t)))"

definition waitersOk :: "sys \<Rightarrow> bool" where
  "waitersOk s \<longleftrightarrow> distinct (map fst (sy_waiters s)) \<and> fst ` set (sy_waiters s) = {t. sy_task s t = Some Waiting}
     \<and> (\<forall>w \<in> set (sy_waiters s). set (snd w) = cost s (fst w))"

definition heldOk :: "sys \<Rightarrow> bool" where
  "heldOk s \<longleftrightarrow> sy_held s = \<Union> (cost s ` {t. holding s t})
     \<and> (\<forall>t u. holding s t \<and> holding s u \<and> t \<noteq> u \<longrightarrow> cost s t \<inter> cost s u = {})"

definition blockedOk :: "sys \<Rightarrow> bool" where
  "blockedOk s \<longleftrightarrow> (\<forall>w \<in> set (sy_waiters s). set (snd w) \<inter> sy_held s \<noteq> {})"

definition commitsOk :: "sys \<Rightarrow> bool" where
  "commitsOk s \<longleftrightarrow> distinct (sy_commits s) \<and> set (sy_commits s) = {t. committing s t}
     \<and> (\<forall>t \<in> set (tl (sy_commits s)). sy_task s t = Some Queued)
     \<and> (\<forall>t. sy_task s t = Some Queued \<longrightarrow> needsCommit (the (instrOf s t)))"

definition leads :: "sys \<Rightarrow> tid \<Rightarrow> bool" where
  "leads s u \<longleftrightarrow> (\<exists>ph. sy_task s u = Some ph \<and> \<not> isJoined ph)"

definition joins :: "sys \<Rightarrow> bool" where
  "joins s \<longleftrightarrow> (\<forall>t u. sy_task s t = Some (Joined u) \<longrightarrow> leads s u) \<and> (\<forall>k fp u. sy_inFlight s k = Some (fp, u) \<longrightarrow> leads s u)"

definition loops :: "sys \<Rightarrow> bool" where
  "loops s \<longleftrightarrow> (\<forall>p < sy_count s. wfProgram (prog s p) \<and> 1 \<le> pi_maxConcurrency (sy_pipe s p)
     \<and> distinct (pi_pending (sy_pipe s p))
     \<and> (pi_loop (sy_pipe s p) = Racing \<longrightarrow> pi_active (sy_pipe s p) \<noteq> [])
     \<and> (\<forall>r. pi_loop (sy_pipe s p) = Finished r \<longrightarrow> pi_pending (sy_pipe s p) = [] \<and> pi_active (sy_pipe s p) = []
          \<and> r = pipelineReport (sy_pipe s p)))"

text \<open>Without \<open>blockedOk\<close>, which fails between a release and the draining that follows.\<close>

definition core :: "sys \<Rightarrow> bool" where
  "core s \<longleftrightarrow> cells s \<and> named s \<and> gates s \<and> conds s \<and> waitersOk s \<and> heldOk s \<and> commitsOk s \<and> joins s"

definition pipelineInv :: "sys \<Rightarrow> bool" where
  "pipelineInv s \<longleftrightarrow> core s \<and> blockedOk s \<and> loops s"

section \<open>Looking up\<close>

lemma find_found: "find P xs = Some x \<Longrightarrow> x \<in> set xs \<and> P x"
  by (induction xs) (auto split: if_splits)

lemma byId_Some: "byId pg x = Some i \<Longrightarrow> i \<in> set (pg_instructions pg) \<and> ins_id i = x"
  unfolding byId_def by (drule find_found) simp

lemma byId_ids: "x \<in> idsOf pg \<longleftrightarrow> (\<exists>i. byId pg x = Some i)"
proof -
  have "byId pg x = None \<longleftrightarrow> x \<notin> idsOf pg" by (auto simp: byId_def find_None_iff idsOf_def)
  then show ?thesis by auto
qed

lemma byId_unique: "wfProgram pg \<Longrightarrow> i \<in> set (pg_instructions pg) \<Longrightarrow> byId pg (ins_id i) = Some i"
proof -
  assume a: "wfProgram pg" "i \<in> set (pg_instructions pg)"
  then obtain j where j: "byId pg (ins_id i) = Some j" using byId_ids [of "ins_id i" pg] by (auto simp: idsOf_def)
  have "inj_on ins_id (set (pg_instructions pg))" using a(1) by (simp add: wfProgram_def distinct_map)
  then have "i = j" using byId_Some [OF j] a(2) by (simp add: inj_on_def)
  then show ?thesis using j by simp
qed

lemma started_instr: "cells s \<Longrightarrow> sy_task s t = Some ph \<Longrightarrow>
    fst t < sy_count s \<and> snd t \<in> idsOf (prog s (fst t)) \<and> (\<exists>i. instrOf s t = Some i \<and> ins_id i = snd t)"
proof -
  assume a: "cells s" "sy_task s t = Some ph"
  obtain p x where t: "t = (p, x)" by (cases t)
  have "p < sy_count s \<and> x \<in> idsOf (prog s p)" using a unfolding cells_def t by (metis option.distinct(1))
  moreover from this obtain i where "byId (prog s p) x = Some i" using byId_ids by blast
  ultimately show ?thesis using byId_Some by (auto simp: t instrOf_def)
qed

end
