(* ===== verification/PipelineSteps.thy ===== *)
theory PipelineSteps
  imports PipelineInv
begin

text \<open>
  Each step of the pipeline system keeps the invariant. A step inside an instruction changes its phase
  and the coordinator (\<open>core_advance\<close>); settling records a result (\<open>core_complete\<close>); a turn of the
  loop starts, skips or aborts instructions.
\<close>

declare split_paired_All [simp del] split_paired_Ex [simp del]

text \<open>The cell of an instruction, and what a name without an instruction has.\<close>

definition cellOf :: "sys \<Rightarrow> nat \<Rightarrow> ustr \<Rightarrow> bool" where
  "cellOf s p x \<longleftrightarrow> cellOk (x \<in> set (pi_pending (sy_pipe s p))) (x \<in> set (pi_active (sy_pipe s p)))
     (pi_completed (sy_pipe s p) x) (sy_task s (p, x))"

definition emptyCell :: "sys \<Rightarrow> nat \<Rightarrow> ustr \<Rightarrow> bool" where
  "emptyCell s p x \<longleftrightarrow> sy_task s (p, x) = None \<and> (p < sy_count s \<longrightarrow> x \<notin> set (pi_pending (sy_pipe s p))
     \<and> x \<notin> set (pi_active (sy_pipe s p)) \<and> pi_completed (sy_pipe s p) x = None)"

lemma cells_iff: "cells s \<longleftrightarrow> (\<forall>p x. if p < sy_count s \<and> x \<in> idsOf (prog s p) then cellOf s p x else emptyCell s p x)"
  by (simp add: cells_def cellOf_def emptyCell_def)

lemma cellsI:
  assumes "\<And>p x. p < sy_count s \<Longrightarrow> x \<in> idsOf (prog s p) \<Longrightarrow> cellOf s p x"
    "\<And>p x. \<not> (p < sy_count s \<and> x \<in> idsOf (prog s p)) \<Longrightarrow> emptyCell s p x"
  shows "cells s"
  using assms by (simp add: cells_iff)

lemma cellsD: "cells s \<Longrightarrow> p < sy_count s \<Longrightarrow> x \<in> idsOf (prog s p) \<Longrightarrow> cellOf s p x"
    and cellsN: "cells s \<Longrightarrow> \<not> (p < sy_count s \<and> x \<in> idsOf (prog s p)) \<Longrightarrow> emptyCell s p x"
  by (simp_all add: cells_iff)

section \<open>Moving on inside an instruction\<close>

definition samePrograms :: "sys \<Rightarrow> sys \<Rightarrow> bool" where
  "samePrograms s s' \<longleftrightarrow> (\<forall>p. prog s' p = prog s p)"

lemma same_pipes: "sy_pipe s' = sy_pipe s \<Longrightarrow> samePrograms s s'"
  by (simp add: samePrograms_def)

lemma instrOf_same: "samePrograms s s' \<Longrightarrow> instrOf s' = instrOf s"
  by (simp add: instrOf_def samePrograms_def fun_eq_iff)

lemma cost_same: "samePrograms s s' \<Longrightarrow> cost s' = cost s"
  using instrOf_same [of s s'] by (simp add: cost_def fun_eq_iff)

lemmas instrOf_cong = instrOf_same [OF same_pipes]
lemmas cost_cong = cost_same [OF same_pipes]

text \<open>The phase of a started instruction that is not settled may become another such phase.\<close>

definition movesOn :: "sys \<Rightarrow> sys \<Rightarrow> tid \<Rightarrow> bool" where
  "movesOn s s' t \<longleftrightarrow> sy_task s' t = sy_task s t \<or> (\<exists>ph ph'. sy_task s t = Some ph \<and> sy_task s' t = Some ph'
     \<and> settledOf ph = None \<and> settledOf ph' = None \<and> \<not> isJoined ph \<and> \<not> isJoined ph' \<and> condPhase s t ph'
     \<and> (\<forall>r. resultOf ph' = Some r \<longrightarrow> pr_id r = snd t))"

lemma movesOn_leads: "\<forall>t. movesOn s s' t \<Longrightarrow> leads s u \<Longrightarrow> leads s' u"
  unfolding leads_def movesOn_def by (metis option.inject)

lemma frame_advance:
  assumes "sy_pipe s' = sy_pipe s" "sy_count s' = sy_count s" "sy_inFlight s' = sy_inFlight s" "\<forall>t. movesOn s s' t"
    "cells s" "named s" "gates s" "conds s" "joins s"
  shows "cells s'" "named s'" "gates s'" "conds s'" "joins s'"
proof -
  note cong = assms(1-3) instrOf_cong [OF assms(1)]
  have started: "sy_task s' t = None \<longleftrightarrow> sy_task s t = None" for t
    using assms(4) [rule_format, of t] by (auto simp: movesOn_def)
  have cell: "cellOk a b c (sy_task s' t) \<longleftrightarrow> cellOk a b c (sy_task s t)" for a b c t
    using assms(4) [rule_format, of t] by (auto simp: movesOn_def cellOk_def)
  show "cells s'" using assms(5) by (simp add: cells_def cong started cell)
  have "pr_id r = snd t" if "sy_task s' t = Some ph" "resultOf ph = Some r" for t ph r
    using assms(4) [rule_format, of t] assms(6) that unfolding movesOn_def named_def by (metis option.inject)
  then show "named s'" using assms(6) by (auto simp: named_def cong)
  show "gates s'" using assms(7) by (simp add: gates_def cong started)
  have "condPhase s t ph" if "sy_task s' t = Some ph" for t ph
    using assms(4) [rule_format, of t] assms(8) that unfolding movesOn_def conds_def by (metis option.inject)
  then show "conds s'" by (simp add: conds_def condPhase_def cong)
  have "sy_task s t = Some (Joined u)" if "sy_task s' t = Some (Joined u)" for t u
    using assms(4) [rule_format, of t] that unfolding movesOn_def by (metis isJoined.simps(1) option.inject)
  then show "joins s'" using assms(9) movesOn_leads [OF assms(4)] unfolding joins_def cong by blast
qed

lemma setTask_moves:
  assumes "sy_task s t = Some ph" "sy_task s' = (sy_task s)(t \<mapsto> ph')" "settledOf ph = None" "settledOf ph' = None"
    "\<not> isJoined ph" "\<not> isJoined ph'" "condPhase s t ph'" "\<forall>r. resultOf ph' = Some r \<longrightarrow> pr_id r = snd t"
  shows "\<forall>u. movesOn s s' u"
  using assms by (auto simp: movesOn_def)

section \<open>The coordinator\<close>

text \<open>What the coordinator sees of a phase: whether it waits, holds, and stands in the commit queue.\<close>

lemma waitersOk_same:
  assumes "samePrograms s s'" "sy_waiters s' = sy_waiters s" "\<And>t. sy_task s' t = Some Waiting \<longleftrightarrow> sy_task s t = Some Waiting"
    "waitersOk s"
  shows "waitersOk s'"
  using assms(2-4) by (simp add: waitersOk_def cost_same [OF assms(1)])

lemma heldOk_same:
  assumes "samePrograms s s'" "sy_held s' = sy_held s" "\<And>t. holding s' t \<longleftrightarrow> holding s t" "heldOk s"
  shows "heldOk s'"
  using assms(2-4) by (simp add: heldOk_def cost_same [OF assms(1)])

lemma commitsOk_same:
  assumes "samePrograms s s'" "sy_commits s' = sy_commits s" "\<And>t. committing s' t \<longleftrightarrow> committing s t"
    "\<And>t. sy_task s' t = Some Queued \<longleftrightarrow> sy_task s t = Some Queued" "commitsOk s"
  shows "commitsOk s'"
  using assms(2-5) by (simp add: commitsOk_def instrOf_same [OF assms(1)])

lemmas waitersOk_cong = waitersOk_same [OF same_pipes]
lemmas heldOk_cong = heldOk_same [OF same_pipes]
lemmas commitsOk_cong = commitsOk_same [OF same_pipes]

section \<open>Steps between acquiring and releasing\<close>

lemma holds_phase: "holdsResources ph \<Longrightarrow> settledOf ph = None \<and> \<not> isJoined ph \<and> ph \<noteq> Waiting"
  by (cases ph) auto

lemma inv_advance:
  assumes inv: "pipelineInv s" and old: "sy_task s t = Some ph" and new: "sy_task s' = (sy_task s)(t \<mapsto> ph')"
    and h: "holdsResources ph" "holdsResources ph'"
    and same: "sy_pipe s' = sy_pipe s" "sy_count s' = sy_count s" "sy_inFlight s' = sy_inFlight s"
      "sy_waiters s' = sy_waiters s" "sy_held s' = sy_held s"
    and commits: "commitsOk s'" and c: "condPhase s t ph'" and r: "\<forall>r. resultOf ph' = Some r \<longrightarrow> pr_id r = snd t"
  shows "pipelineInv s'"
proof -
  have parts: "cells s" "named s" "gates s" "conds s" "joins s" "waitersOk s" "heldOk s" "blockedOk s" "loops s"
    using inv by (simp_all add: pipelineInv_def core_def)
  note hp = holds_phase [OF h(1)] holds_phase [OF h(2)]
  have "\<forall>u. movesOn s s' u" by (rule setTask_moves [OF old new]) (use hp c r in auto)
  note frame = frame_advance [OF same(1,2,3) this parts(1-5)]
  have "waitersOk s'" by (rule waitersOk_cong [OF same(1,4) _ parts(6)]) (use hp old new in auto)
  moreover have "heldOk s'" by (rule heldOk_cong [OF same(1,5) _ parts(7)]) (use h old new in \<open>auto simp: holding_def\<close>)
  moreover have "blockedOk s'" using parts(8) by (simp add: blockedOk_def same)
  moreover have "loops s'" using parts(9) by (simp add: loops_def same)
  ultimately show ?thesis using frame commits by (simp add: pipelineInv_def core_def)
qed

lemma commits_keep:
  assumes "commitsOk s" "sy_task s t = Some ph" "sy_task s' = (sy_task s)(t \<mapsto> ph')" "sy_pipe s' = sy_pipe s"
    "sy_commits s' = sy_commits s" "t \<notin> set (tl (sy_commits s))" "ph' \<noteq> Queued"
    "needsCommit (the (instrOf s t)) \<Longrightarrow> (ph = Queued \<or> inBody ph) = inBody ph'"
  shows "commitsOk s'"
proof -
  have "committing s' u \<longleftrightarrow> committing s u" for u
    using assms(2,3,7,8) by (auto simp: committing_def instrOf_cong [OF assms(4)])
  then have "Collect (committing s') = Collect (committing s)" by blast
  then show ?thesis using assms(1,3,5,6,7) unfolding commitsOk_def instrOf_cong [OF assms(4)] by auto
qed

lemma not_queued: "commitsOk s \<Longrightarrow> sy_task s t = Some ph \<Longrightarrow> ph \<noteq> Queued \<Longrightarrow> t \<notin> set (tl (sy_commits s))"
  by (auto simp: commitsOk_def)

lemma head_not_behind: "commitsOk s \<Longrightarrow> sy_commits s = t # ts \<Longrightarrow> t \<notin> set (tl (sy_commits s))"
  by (simp add: commitsOk_def)

lemma inv_parts:
  assumes "pipelineInv s"
  shows "cells s" "named s" "gates s" "conds s" "joins s" "waitersOk s" "heldOk s" "commitsOk s" "blockedOk s" "loops s"
  using assms by (simp_all add: pipelineInv_def core_def)

text \<open>A phase that makes no claim about preconditions.\<close>

lemma condPhase_plain: "(\<And>n. ph \<noteq> Checking n) \<Longrightarrow> ph \<noteq> Executing \<Longrightarrow> condPhase s t ph"
  by (simp add: condPhase_def)

lemma condPhase_0: "condPhase s t (Checking 0)"
  by (simp add: condPhase_def)

lemma plainResult_id [simp]: "pr_id (plainResult i st e) = ins_id i" "pr_id (abortOutcome i) = ins_id i"
    "pr_id (failedOutcome i e) = ins_id i" "pr_id (skippedOutcome i d) = ins_id i" "pr_id (executed i out) = ins_id i"
  by (simp_all add: plainResult_def abortOutcome_def failedOutcome_def skippedOutcome_def executed_def)

lemma inv_instr: "pipelineInv s \<Longrightarrow> sy_task s t = Some ph \<Longrightarrow> instrOf s t = Some i \<Longrightarrow> ins_id i = snd t"
  using started_instr [OF inv_parts(1)] by fastforce

lemma inv_beginRun:
  assumes inv: "pipelineInv s" and old: "sy_task s t = Some ph" and i: "instrOf s t = Some i"
    and ph: "ph = Granted \<and> \<not> needsCommit i \<or> ph = Queued \<and> sy_commits s = t # ts"
  shows "pipelineInv (beginRun t i s)"
proof -
  define ph' where "ph' = (if isAborted s t then Ran (abortOutcome i) else Checking 0)"
  have s': "beginRun t i s = setTask t ph' s" by (simp add: beginRun_def ph'_def)
  have behind: "t \<notin> set (tl (sy_commits s))"
    using ph
  proof
    assume "ph = Granted \<and> \<not> needsCommit i"
    then show ?thesis using not_queued [OF inv_parts(8) [OF inv] old] by simp
  next
    assume "ph = Queued \<and> sy_commits s = t # ts"
    then show ?thesis using head_not_behind [OF inv_parts(8) [OF inv], of t ts] by simp
  qed
  have commits: "commitsOk (setTask t ph' s)"
    by (rule commits_keep [OF inv_parts(8) [OF inv] old _ _ _ behind]) (use ph i in \<open>auto simp: upd ph'_def split: if_splits\<close>)
  show ?thesis unfolding s'
    by (rule inv_advance [OF inv old _ _ _ _ _ _ _ _ commits])
      (use ph inv_instr [OF inv old i] in \<open>auto simp: upd ph'_def condPhase_0 intro: condPhase_plain split: if_splits\<close>)
qed

lemma inv_enterRun:
  assumes inv: "pipelineInv s" and old: "sy_task s t = Some Granted" and i: "instrOf s t = Some i"
  shows "pipelineInv (enterRun t i s)"
proof (cases "needsCommit i")
  case True
  define s' where "s' = (setTask t Queued s)\<lparr>sy_commits := sy_commits s @ [t]\<rparr>"
  have sel: "sy_pipe s' = sy_pipe s" "sy_task s' = (sy_task s)(t \<mapsto> Queued)" "sy_commits s' = sy_commits s @ [t]"
    by (simp_all add: s'_def upd)
  have c: "commitsOk s" by (rule inv_parts(8) [OF inv])
  have out: "\<not> committing s t" using old by (simp add: committing_def)
  have "committing s' u \<longleftrightarrow> committing s u \<or> u = t" for u
    using True i old by (auto simp: committing_def sel instrOf_cong [OF sel(1)])
  then have "Collect (committing s') = insert t (Collect (committing s))" by blast
  moreover have "set (tl (sy_commits s @ [t])) \<subseteq> insert t (set (tl (sy_commits s)))" by (cases "sy_commits s") auto
  ultimately have commits: "commitsOk s'" using c out True i unfolding commitsOk_def sel instrOf_cong [OF sel(1)] by auto
  have "pipelineInv s'"
    by (rule inv_advance [OF inv old sel(2) _ _ _ _ _ _ _ commits]) (simp_all add: s'_def upd condPhase_plain)
  then show ?thesis using True by (simp add: enterRun_def s'_def)
next
  case False
  then show ?thesis using inv_beginRun [OF inv old i] by (simp add: enterRun_def)
qed

text \<open>A step inside the body.\<close>

lemma inv_body:
  assumes inv: "pipelineInv s" and old: "sy_task s t = Some ph" and b: "inBody ph" "inBody ph'"
    and c: "condPhase s t ph'" and r: "\<forall>r. resultOf ph' = Some r \<longrightarrow> pr_id r = snd t"
  shows "pipelineInv (setTask t ph' s)"
proof -
  have h: "holdsResources ph" "holdsResources ph'" "ph \<noteq> Queued" "ph' \<noteq> Queued"
    using b by (cases ph; cases ph'; simp)+
  have behind: "t \<notin> set (tl (sy_commits s))" by (rule not_queued [OF inv_parts(8) [OF inv] old h(3)])
  have commits: "commitsOk (setTask t ph' s)"
    by (rule commits_keep [OF inv_parts(8) [OF inv] old _ _ _ behind h(4)]) (use b in \<open>simp_all add: upd\<close>)
  show ?thesis
    by (rule inv_advance [OF inv old _ h(1,2) _ _ _ _ _ commits c r]) (simp_all add: upd)
qed

lemma verdict_valid: "verdictOf s t answer c = Inr Valid \<Longrightarrow> condOk (sy_pipe s (fst t)) c"
  by (auto simp: verdictOf_def condOk_def split: precondition.splits option.splits if_splits)

lemma inv_checkOne:
  assumes inv: "pipelineInv s" and old: "sy_task s t = Some (Checking n)" and i: "instrOf s t = Some i"
  shows "pipelineInv (checkOne t i n answer s)"
proof -
  have c: "list_all (condOk (sy_pipe s (fst t))) (take n (ins_precondition i))"
    using inv_parts(4) [OF inv] old i unfolding conds_def condPhase_def by blast
  have ran: "pipelineInv (setTask t (Ran r) s)" if "pr_id r = ins_id i" for r
    by (rule inv_body [OF inv old]) (use inv_instr [OF inv old i] that in \<open>simp_all add: condPhase_plain\<close>)
  show ?thesis
  proof (cases "n < length (ins_precondition i)")
    case True
    have valid: "pipelineInv (setTask t (Checking (Suc n)) s)" if "verdictOf s t answer (ins_precondition i ! n) = Inr Valid"
    proof (rule inv_body [OF inv old])
      show "condPhase s t (Checking (Suc n))"
        using c verdict_valid [OF that] True i by (simp add: condPhase_def take_Suc_conv_app_nth)
    qed simp_all
    show ?thesis using True ran valid by (auto simp: checkOne_def split: sum.splits)
  next
    case False
    have "pipelineInv (setTask t Executing s)"
      by (rule inv_body [OF inv old]) (use c False i in \<open>simp_all add: condPhase_def\<close>)
    then show ?thesis using False ran by (simp add: checkOne_def)
  qed
qed

lemma inv_executorReturns:
  assumes inv: "pipelineInv s" and old: "sy_task s t = Some Executing" and i: "instrOf s t = Some i"
  shows "pipelineInv (executorReturns t i out s)"
  unfolding executorReturns_def
  by (rule inv_body [OF inv old]) (use inv_instr [OF inv old i] in \<open>auto simp: condPhase_plain split: sum.splits\<close>)

lemma inv_leaveQueue:
  assumes inv: "pipelineInv s" and old: "sy_task s t = Some (Ran r)" and i: "instrOf s t = Some i"
  shows "pipelineInv (leaveQueue t i r s)"
proof -
  have r: "pr_id r = snd t" using inv_parts(2) [OF inv] old unfolding named_def by (metis resultOf.simps(1))
  have c: "commitsOk s" by (rule inv_parts(8) [OF inv])
  have sel: "sy_pipe (leaveQueue t i r s) = sy_pipe s" "sy_task (leaveQueue t i r s) = (sy_task s)(t \<mapsto> Left r)"
    "sy_commits (leaveQueue t i r s) = (if needsCommit i then removeAll t (sy_commits s) else sy_commits s)"
    by (simp_all add: leaveQueue_def upd)
  have commits: "commitsOk (leaveQueue t i r s)"
  proof (cases "needsCommit i")
    case True
    have "committing (leaveQueue t i r s) u \<longleftrightarrow> committing s u \<and> u \<noteq> t" for u
      using old by (auto simp: committing_def sel instrOf_cong [OF sel(1)])
    then have "Collect (committing (leaveQueue t i r s)) = Collect (committing s) - {t}" by blast
    moreover have "set (tl (removeAll t xs)) \<subseteq> set (tl xs) - {t}" if "distinct xs" for xs
      using that by (cases xs) (auto simp del: split_paired_all, metis list.sel(2) list.set_sel(2))
    then have "set (tl (removeAll t (sy_commits s))) \<subseteq> set (tl (sy_commits s)) - {t}"
      using c by (simp add: commitsOk_def)
    then have "\<forall>u \<in> set (tl (removeAll t (sy_commits s))). u \<noteq> t \<and> sy_task s u = Some Queued"
      using c unfolding commitsOk_def by blast
    ultimately show ?thesis using c True
      unfolding commitsOk_def sel instrOf_cong [OF sel(1)] by (simp add: distinct_removeAll)
  next
    case False
    show ?thesis
      by (rule commits_keep [OF c old sel(2,1) _ not_queued [OF c old]]) (use False i in \<open>simp_all add: sel\<close>)
  qed
  show ?thesis
    by (rule inv_advance [OF inv old sel(2) _ _ sel(1) _ _ _ _ commits])
      (use r in \<open>simp_all add: leaveQueue_def upd condPhase_plain\<close>)
qed

section \<open>Draining\<close>

lemma drainList_spec:
  "drainList ws held = (ws', held', granted) \<Longrightarrow> distinct (map fst ws) \<Longrightarrow> (\<forall>w \<in> set ws. set (snd w) = c (fst w)) \<Longrightarrow>
   set ws' \<subseteq> set ws \<and> distinct (map fst ws') \<and> set granted = fst ` set ws - fst ` set ws'
   \<and> held' = held \<union> \<Union> (c ` set granted) \<and> (\<forall>w \<in> set ws'. set (snd w) \<inter> held' \<noteq> {})
   \<and> (\<forall>t \<in> set granted. c t \<inter> held = {}) \<and> (\<forall>t \<in> set granted. \<forall>u \<in> set granted. t \<noteq> u \<longrightarrow> c t \<inter> c u = {})"
proof (induction ws arbitrary: held ws' held' granted)
  case (Cons w ws)
  obtain t rs where w: "w = (t, rs)" by (cases w)
  have t: "t \<notin> fst ` set ws" "set rs = c t" using Cons.prems(2,3) by (auto simp: w)
  show ?case
  proof (cases "list_ex (\<lambda>r. r \<in> held) rs")
    case True
    obtain ws1 where rest: "drainList ws held = (ws1, held', granted)" and ws': "ws' = (t, rs) # ws1"
      using Cons.prems(1) True by (auto simp: w split: prod.splits)
    have pre: "distinct (map fst ws)" "\<forall>w \<in> set ws. set (snd w) = c (fst w)" using Cons.prems(2,3) by simp_all
    note IH = Cons.IH [OF rest pre]
    from IH have sub: "fst ` set ws1 \<subseteq> fst ` set ws" by blast
    have "set rs \<inter> held' \<noteq> {}" using True IH by (auto simp: list_ex_iff)
    moreover have "\<forall>w \<in> set ws1. set (snd w) \<inter> held' \<noteq> {}" using IH by (elim conjE) assumption
    ultimately have "\<forall>w \<in> set ws'. set (snd w) \<inter> held' \<noteq> {}" unfolding ws' by simp
    moreover have "set granted = fst ` set (w # ws) - fst ` set ws'" using IH t(1) by (auto simp: ws' w)
    moreover have "distinct (map fst ws')" using IH t(1) sub by (auto simp: ws')
    moreover have "set ws' \<subseteq> set (w # ws)" using IH by (auto simp: ws' w)
    ultimately show ?thesis using IH by (elim conjE, intro conjI) assumption+
  next
    case False
    obtain g where rest: "drainList ws (held \<union> set rs) = (ws', held', g)" and g: "granted = t # g"
      using Cons.prems(1) False by (auto simp: w split: prod.splits)
    have pre: "distinct (map fst ws)" "\<forall>w \<in> set ws. set (snd w) = c (fst w)" using Cons.prems(2,3) by simp_all
    note IH = Cons.IH [OF rest pre, unfolded t(2)]
    then have "t \<notin> fst ` set ws'" using t(1) by blast
    then have "set granted = fst ` set (w # ws) - fst ` set ws'" using IH by (auto simp: g w)
    moreover have free: "\<forall>u \<in> set g. c u \<inter> (held \<union> c t) = {}" using IH by (elim conjE) assumption
    have "c t \<inter> held = {}" using False t(2) by (auto simp: list_ex_iff)
    with free have "\<forall>u \<in> set granted. c u \<inter> held = {}" by (simp add: g) blast
    moreover have "held' = held \<union> c t \<union> \<Union> (c ` set g)" using IH by (elim conjE) assumption
    then have "held' = held \<union> \<Union> (c ` set granted)" by (simp add: g Un_assoc)
    moreover have "\<forall>u \<in> set g. \<forall>v \<in> set g. u \<noteq> v \<longrightarrow> c u \<inter> c v = {}" using IH by (elim conjE) assumption
    with free have "\<forall>u \<in> set granted. \<forall>v \<in> set granted. u \<noteq> v \<longrightarrow> c u \<inter> c v = {}" by (simp add: g) blast
    moreover have "set ws' \<subseteq> set (w # ws)" using IH by auto
    ultimately show ?thesis using IH by (elim conjE, intro conjI) assumption+
  qed
qed simp

lemma inv_drainWaiters:
  assumes "core s" "loops s"
  shows "pipelineInv (drainWaiters s)"
proof -
  obtain ws held granted where d: "drainList (sy_waiters s) (sy_held s) = (ws, held, granted)"
    by (cases "drainList (sy_waiters s) (sy_held s)") auto
  define s' where "s' = drainWaiters s"
  have sel: "sy_pipe s' = sy_pipe s" "sy_count s' = sy_count s" "sy_inFlight s' = sy_inFlight s"
    "sy_waiters s' = ws" "sy_held s' = held" "sy_commits s' = sy_commits s"
    "\<And>t. sy_task s' t = (if t \<in> set granted then Some Granted else sy_task s t)"
    by (simp_all add: s'_def drainWaiters_def d)
  note cong = cost_cong [OF sel(1)] instrOf_cong [OF sel(1)]
  have parts: "cells s" "named s" "gates s" "conds s" "joins s" "waitersOk s" "heldOk s" "commitsOk s"
    using assms by (simp_all add: core_def)
  have p: "distinct (map fst (sy_waiters s))" "\<forall>w \<in> set (sy_waiters s). set (snd w) = cost s (fst w)"
    using parts(6) by (simp_all add: waitersOk_def)
  have D: "set ws \<subseteq> set (sy_waiters s)" "distinct (map fst ws)" "set granted = fst ` set (sy_waiters s) - fst ` set ws"
    "held = sy_held s \<union> \<Union> (cost s ` set granted)" "\<forall>w \<in> set ws. set (snd w) \<inter> held \<noteq> {}"
    "\<forall>t \<in> set granted. cost s t \<inter> sy_held s = {}"
    "\<forall>t \<in> set granted. \<forall>u \<in> set granted. t \<noteq> u \<longrightarrow> cost s t \<inter> cost s u = {}"
    using drainList_spec [OF d p] by - (elim conjE, assumption)+
  have was: "sy_task s t = Some Waiting" if "t \<in> set granted" for t
    using that D(3) parts(6) unfolding waitersOk_def by blast
  have "\<forall>t. movesOn s s' t" using was by (simp add: movesOn_def sel condPhase_plain)
  note frame = frame_advance [OF sel(1-3) this parts(1-5)]
  have "sy_task s' t = Some Waiting \<longleftrightarrow> sy_task s t = Some Waiting \<and> t \<notin> set granted" for t by (simp add: sel)
  then have "{t. sy_task s' t = Some Waiting} = fst ` set (sy_waiters s) - set granted"
    using parts(6) unfolding waitersOk_def by blast
  moreover have "fst ` set ws \<subseteq> fst ` set (sy_waiters s)" using D(1) by blast
  ultimately have "fst ` set ws = {t. sy_task s' t = Some Waiting}" using D(3) by blast
  moreover have "\<forall>w \<in> set ws. set (snd w) = cost s (fst w)" using D(1) p(2) by blast
  ultimately have waiters: "waitersOk s'" using D(2) by (simp add: waitersOk_def cong(1) sel(4))
  have hold: "holding s' t \<longleftrightarrow> holding s t \<or> t \<in> set granted" for t using was by (auto simp: holding_def sel)
  then have "Collect (holding s') = Collect (holding s) \<union> set granted" by blast
  then have "held = \<Union> (cost s ` Collect (holding s'))" using D(4) parts(7) by (simp add: heldOk_def)
  moreover have "cost s t \<inter> cost s u = {}" if "holding s' t" "holding s' u" "t \<noteq> u" for t u
  proof -
    have sub: "cost s v \<subseteq> sy_held s" if "holding s v" for v using parts(7) that unfolding heldOk_def by blast
    have "cost s t \<inter> cost s u = {}" if "holding s t" "holding s u" using parts(7) \<open>t \<noteq> u\<close> that unfolding heldOk_def by blast
    moreover have "cost s t \<inter> cost s u = {}" if "holding s t" "u \<in> set granted" using sub [OF that(1)] D(6) that(2) by blast
    moreover have "cost s t \<inter> cost s u = {}" if "t \<in> set granted" "holding s u" using sub [OF that(2)] D(6) that(1) by blast
    moreover have "cost s t \<inter> cost s u = {}" if "t \<in> set granted" "u \<in> set granted" using D(7) that \<open>t \<noteq> u\<close> by blast
    ultimately show ?thesis using that(1,2) hold by blast
  qed
  ultimately have "heldOk s'" by (simp add: heldOk_def cong sel(5))
  moreover have "commitsOk s'"
    by (rule commitsOk_cong [OF sel(1,6) _ _ parts(8)]) (use was in \<open>auto simp: committing_def sel cong\<close>)
  moreover have "blockedOk s'" using D(5) by (simp add: blockedOk_def sel)
  moreover have "loops s'" using assms(2) by (simp add: loops_def sel)
  ultimately have "pipelineInv s'" using frame waiters by (simp add: pipelineInv_def core_def)
  then show ?thesis by (simp add: s'_def)
qed

lemma inv_release:
  assumes inv: "pipelineInv s" and old: "sy_task s t = Some (Left r)" and i: "instrOf s t = Some i"
  shows "pipelineInv (release t i r s)"
proof -
  define s' where "s' = (setTask t (Returned r) s)\<lparr>sy_held := sy_held s - set (resourceCost i)\<rparr>"
  have sel: "sy_pipe s' = sy_pipe s" "sy_count s' = sy_count s" "sy_inFlight s' = sy_inFlight s" "sy_waiters s' = sy_waiters s"
    "sy_commits s' = sy_commits s" "sy_task s' = (sy_task s)(t \<mapsto> Returned r)" "sy_held s' = sy_held s - cost s t"
    using i by (simp_all add: s'_def upd cost_def)
  note parts = inv_parts [OF inv]
  have "pr_id r = snd t" using parts(2) old unfolding named_def by (metis resultOf.simps(2))
  then have "\<forall>u. movesOn s s' u"
    by (intro setTask_moves [OF old sel(6)]) (simp_all add: condPhase_plain)
  note frame = frame_advance [OF sel(1-3) this parts(1-5)]
  have "waitersOk s'" by (rule waitersOk_cong [OF sel(1,4) _ parts(6)]) (use old sel(6) in auto)
  moreover have "heldOk s'"
  proof -
    have hold: "holding s' u \<longleftrightarrow> holding s u \<and> u \<noteq> t" for u by (auto simp: holding_def sel(6))
    have t: "holding s t" using old by (simp add: holding_def)
    have "\<Union> (cost s ` Collect (holding s')) = \<Union> (cost s ` Collect (holding s)) - cost s t"
      using t parts(7) unfolding heldOk_def hold by blast
    then show ?thesis using parts(7) unfolding heldOk_def cost_cong [OF sel(1)] sel(7) hold by blast
  qed
  moreover have "commitsOk s'"
    by (rule commitsOk_cong [OF sel(1,5) _ _ parts(8)])
      (use old in \<open>auto simp: committing_def sel(6) instrOf_cong [OF sel(1)]\<close>)
  ultimately have "core s'" using frame by (simp add: core_def)
  moreover have "loops s'" using parts(10) by (simp add: loops_def sel)
  ultimately have "pipelineInv (drainWaiters s')" by (rule inv_drainWaiters)
  then show ?thesis by (simp add: release_def releaseResources_def s'_def upd)
qed

section \<open>Recording results\<close>

text \<open>A result is recorded once, for an instruction that has none: what was known of the others stays.\<close>

lemma succeeded_Some: "dependencySucceeded r \<Longrightarrow> r \<noteq> None"
  by (cases r) (auto simp: dependencySucceeded_def)

lemma condOk_complete: "condOk q c \<Longrightarrow> pi_completed q x = None \<Longrightarrow> condOk (q\<lparr>pi_completed := (pi_completed q)(x \<mapsto> r)\<rparr>) c"
  by (auto simp: condOk_def split: precondition.splits)

lemma complete_sel [upd]:
  "sy_task (complete t r s) = sy_task s" "sy_count (complete t r s) = sy_count s"
  "sy_held (complete t r s) = sy_held s" "sy_waiters (complete t r s) = sy_waiters s"
  "sy_inFlight (complete t r s) = sy_inFlight s" "sy_commits (complete t r s) = sy_commits s"
  "sy_pipe (complete t r s) = (sy_pipe s)(fst t := (sy_pipe s (fst t))\<lparr>pi_completed := (pi_completed (sy_pipe s (fst t)))(snd t \<mapsto> r)\<rparr>)"
  by (simp_all add: complete_def upd)

lemma complete_same: "samePrograms s (complete t r s)"
  by (simp add: samePrograms_def upd)

lemma completed_complete:
  "pi_completed (sy_pipe (complete t r s) p) x = (if t = (p, x) then Some r else pi_completed (sy_pipe s p) x)"
  by (cases t) (simp add: upd)

lemma facts_complete:
  assumes "pi_completed (sy_pipe s (fst t)) (snd t) = None"
  shows "gates s \<Longrightarrow> gates (complete t r s)" "condPhase s u ph \<Longrightarrow> condPhase (complete t r s) u ph"
proof -
  note instr = instrOf_same [OF complete_same]
  assume g: "gates s"
  have "dependencySucceeded (pi_completed (sy_pipe (complete t r s) (fst u)) d)"
    if "sy_task s u \<noteq> None" "instrOf s u = Some i" "d \<in> set (ins_dependsOn i)" for u i d
  proof -
    have d: "dependencySucceeded (pi_completed (sy_pipe s (fst u)) d)" using g that unfolding gates_def by blast
    have "t \<noteq> (fst u, d)"
    proof
      assume "t = (fst u, d)"
      then have "pi_completed (sy_pipe s (fst u)) d = None" using assms by simp
      then show False using d by (simp add: dependencySucceeded_def)
    qed
    then show ?thesis using d by (simp add: completed_complete)
  qed
  then show "gates (complete t r s)" unfolding gates_def instr complete_sel(1) by blast
next
  assume c: "condPhase s u ph"
  have "condOk (sy_pipe (complete t r s) (fst u)) c" if "condOk (sy_pipe s (fst u)) c" for c
  proof (cases "fst u = fst t")
    case True
    then show ?thesis using condOk_complete [OF that, of "snd t" r] assms by (simp add: complete_sel(7))
  next
    case False
    then show ?thesis using that by (simp add: complete_sel(7))
  qed
  then have "list_all (condOk (sy_pipe (complete t r s) (fst u))) cs" if "list_all (condOk (sy_pipe s (fst u))) cs" for cs
    using that by (induction cs) simp_all
  then show "condPhase (complete t r s) u ph"
    using c unfolding condPhase_def instrOf_same [OF complete_same] by simp
qed

lemma inv_settles:
  assumes inv: "pipelineInv s" and old: "sy_task s t = Some ph"
    and ph: "settledOf ph = None" "\<not> holdsResources ph" "ph \<noteq> Waiting" and r: "pr_id r = snd t"
    and s0: "sy_pipe s0 = sy_pipe s" "sy_task s0 = sy_task s" "sy_count s0 = sy_count s" "sy_held s0 = sy_held s"
      "sy_waiters s0 = sy_waiters s" "sy_commits s0 = sy_commits s"
    and flight: "\<And>k fp u. sy_inFlight s0 k = Some (fp, u) \<Longrightarrow> sy_inFlight s k = Some (fp, u)"
  shows "pipelineInv (complete t r (setTask t (Settled r) s0))"
proof -
  define s' where "s' = complete t r (setTask t (Settled r) s0)"
  note parts = inv_parts [OF inv]
  obtain p x where t: "t = (p, x)" by (cases t)
  have sel: "sy_task s' = (sy_task s)(t \<mapsto> Settled r)" "sy_count s' = sy_count s" "sy_held s' = sy_held s"
    "sy_waiters s' = sy_waiters s" "sy_commits s' = sy_commits s" "sy_inFlight s' = sy_inFlight s0"
    "sy_pipe s' = (sy_pipe s)(p := (sy_pipe s p)\<lparr>pi_completed := (pi_completed (sy_pipe s p))(x \<mapsto> r)\<rparr>)"
    by (simp_all add: s'_def upd s0 t)
  have same: "samePrograms s s'" by (simp add: samePrograms_def sel)
  have member: "p < sy_count s" "x \<in> idsOf (prog s p)" using started_instr [OF parts(1) old] by (simp_all add: t)
  have "cellOk (x \<in> set (pi_pending (sy_pipe s p))) (x \<in> set (pi_active (sy_pipe s p))) (pi_completed (sy_pipe s p) x) (Some ph)"
    using parts(1) member old unfolding cells_def t by metis
  then have cell: "x \<notin> set (pi_pending (sy_pipe s p))" "x \<in> set (pi_active (sy_pipe s p))" "pi_completed (sy_pipe s p) x = None"
    using ph(1) by (simp_all add: cellOk_def)
  have started: "sy_task (setTask t (Settled r) s0) u \<noteq> None \<longleftrightarrow> sy_task s u \<noteq> None" for u
    using old by (simp add: upd s0)
  have gates0: "gates (setTask t (Settled r) s0)"
    using parts(3) unfolding gates_def unfolding started unfolding instrOf_def setTask_sel s0 .
  have fresh: "pi_completed (sy_pipe (setTask t (Settled r) s0) (fst t)) (snd t) = None" using cell(3) by (simp add: upd s0 t)
  have "gates s'" unfolding s'_def by (rule facts_complete(1) [OF fresh gates0])
  moreover have "conds s'"
  proof -
    have "condPhase s' u ph'" if task: "sy_task s' u = Some ph'" for u ph'
    proof (cases "u = t")
      case True
      then show ?thesis using task by (auto simp: sel(1) intro: condPhase_plain)
    next
      case False
      then have "condPhase s u ph'" using parts(4) task by (simp add: conds_def sel(1))
      then have "condPhase (setTask t (Settled r) s0) u ph'" by (simp add: condPhase_def instrOf_def upd s0)
      then show ?thesis unfolding s'_def by (rule facts_complete(2) [OF fresh])
    qed
    then show ?thesis by (simp add: conds_def)
  qed
  moreover have "cells s'"
  proof -
    have "cellOk (y \<in> set (pi_pending (sy_pipe s' q))) (y \<in> set (pi_active (sy_pipe s' q))) (pi_completed (sy_pipe s' q) y) (sy_task s' (q, y))
      \<longleftrightarrow> cellOk (y \<in> set (pi_pending (sy_pipe s q))) (y \<in> set (pi_active (sy_pipe s q))) (pi_completed (sy_pipe s q) y) (sy_task s (q, y))"
      for q y
    proof (cases "(q, y) = t")
      case True
      then show ?thesis using cell ph(1) old by (simp add: sel t cellOk_def)
    qed (auto simp: sel t)
    moreover have "prog s' q = prog s q" for q using same by (simp add: samePrograms_def)
    moreover have "sy_task s' (q, y) = None \<and> (q < sy_count s \<longrightarrow> y \<notin> set (pi_pending (sy_pipe s' q)) \<and> y \<notin> set (pi_active (sy_pipe s' q))
        \<and> pi_completed (sy_pipe s' q) y = None)"
      if "\<not> (q < sy_count s \<and> y \<in> idsOf (prog s q))" for q y
      using parts(1) that member unfolding cells_def by (auto simp: sel t)
    ultimately show ?thesis using parts(1) unfolding cells_def sel(2) by presburger
  qed
  moreover have "named s'" using parts(2) r unfolding named_def by (auto simp: sel t split: if_splits)
  moreover have "joins s'"
  proof -
    have "leads s' u" if "leads s u" for u using that by (auto simp: leads_def sel(1))
    then show ?thesis using parts(5) flight unfolding joins_def sel(6) sel(1) by (metis fun_upd_other fun_upd_same option.inject phase.distinct(89))
  qed
  moreover have "waitersOk s'" by (rule waitersOk_same [OF same sel(4) _ parts(6)]) (use ph old sel(1) in auto)
  moreover have "heldOk s'" by (rule heldOk_same [OF same sel(3) _ parts(7)]) (use ph old sel(1) in \<open>auto simp: holding_def\<close>)
  moreover have "commitsOk s'"
    by (rule commitsOk_same [OF same sel(5) _ _ parts(8)])
      (use ph old in \<open>auto simp: committing_def sel(1) instrOf_same [OF same] elim: inBody.elims\<close>)
  moreover have "blockedOk s'" using parts(9) by (simp add: blockedOk_def sel)
  moreover have "loops s'" using parts(10) cell(2) by (auto simp: loops_def sel(2,7))
  ultimately show ?thesis unfolding s'_def [symmetric] by (simp add: pipelineInv_def core_def)
qed

lemma leaveInFlight_sel [upd]:
  "sy_pipe (leaveInFlight k t s) = sy_pipe s" "sy_task (leaveInFlight k t s) = sy_task s" "sy_count (leaveInFlight k t s) = sy_count s"
  "sy_held (leaveInFlight k t s) = sy_held s" "sy_waiters (leaveInFlight k t s) = sy_waiters s"
  "sy_commits (leaveInFlight k t s) = sy_commits s"
  by (simp_all add: leaveInFlight_def split: option.splits prod.splits)

lemma leaveInFlight_sub: "sy_inFlight (leaveInFlight k t s) j = Some e \<Longrightarrow> sy_inFlight s j = Some e"
  by (auto simp: leaveInFlight_def split: option.splits if_splits)

lemma inv_settle:
  assumes "pipelineInv s" "sy_task s t = Some (Returned r)" "instrOf s t = Some i"
  shows "pipelineInv (settle t i r s)"
proof -
  have "pr_id r = snd t" using inv_parts(2) [OF assms(1)] assms(2) unfolding named_def by (metis resultOf.simps(3))
  note settles = inv_settles [OF assms(1,2) _ _ _ this]
  show ?thesis unfolding settle_def
    by (rule settles; (erule leaveInFlight_sub | simp add: leaveInFlight_sel))
qed

lemma inv_joinSettles:
  assumes "pipelineInv s" "sy_task s t = Some (Joined u)"
  shows "pipelineInv (joinSettles t r s)"
  unfolding joinSettles_def Let_def by (rule inv_settles [OF assms]) simp_all

section \<open>The loop\<close>

text \<open>A change of one program's loop variables that leaves pending, completed and the tasks alone.\<close>

lemma inv_pipe:
  assumes inv: "pipelineInv s" and p: "p < sy_count s"
    and same: "pi_program q = prog s p" "pi_pending q = pi_pending (sy_pipe s p)" "pi_completed q = pi_completed (sy_pipe s p)"
      "pi_hasChecker q = pi_hasChecker (sy_pipe s p)" "pi_maxConcurrency q = pi_maxConcurrency (sy_pipe s p)"
    and act: "set (pi_active q) \<subseteq> set (pi_active (sy_pipe s p))"
      "\<And>x. x \<in> set (pi_active (sy_pipe s p)) \<Longrightarrow> x \<notin> set (pi_active q) \<Longrightarrow> pi_completed q x \<noteq> None"
    and loop: "pi_loop q = Racing \<Longrightarrow> pi_active q \<noteq> []"
      "\<And>r. pi_loop q = Finished r \<Longrightarrow> pi_pending q = [] \<and> pi_active q = [] \<and> r = pipelineReport q"
  shows "pipelineInv (setPipe p q s)"
proof -
  note parts = inv_parts [OF inv]
  have same': "samePrograms s (setPipe p q s)" using same(1) by (simp add: samePrograms_def upd)
  note instr = instrOf_same [OF same']
  have completed: "pi_completed (sy_pipe (setPipe p q s) j) = pi_completed (sy_pipe s j)" for j
    using same(3) by (simp add: upd)
  have "cells (setPipe p q s)"
  proof -
    have programs: "prog (setPipe p q s) j = prog s j" for j using same' by (simp add: samePrograms_def)
    have pending: "pi_pending (sy_pipe (setPipe p q s) j) = pi_pending (sy_pipe s j)" for j using same(2) by (simp add: upd)
    have "cellOf (setPipe p q s) j y" if "cellOf s j y" for j y
    proof (cases "j = p \<and> y \<in> set (pi_active (sy_pipe s p)) \<and> y \<notin> set (pi_active q)")
      case True
      then have "pi_completed (sy_pipe s j) y \<noteq> None" using act(2) same(3) by auto
      then show ?thesis using that True same(2,3) by (auto simp: cellOf_def completed cellOk_def upd split: option.splits)
    next
      case False
      then have "y \<in> set (pi_active (sy_pipe (setPipe p q s) j)) \<longleftrightarrow> y \<in> set (pi_active (sy_pipe s j))" using act(1) by (auto simp: upd)
      then show ?thesis using that by (simp add: cellOf_def completed pending setPipe_sel(2))
    qed
    moreover have "emptyCell (setPipe p q s) j y" if "emptyCell s j y" for j y
      using that act(1) same(2,3) by (auto simp: emptyCell_def setPipe_sel)
    ultimately show ?thesis using parts(1) by (intro cellsI) (simp_all add: programs setPipe_sel(3) cellsD cellsN)
  qed
  moreover have "named (setPipe p q s)" using parts(2) unfolding named_def completed setPipe_sel(2,3) .
  moreover have "gates (setPipe p q s)" using parts(3) unfolding gates_def completed instr setPipe_sel(2) .
  moreover have "condOk (sy_pipe (setPipe p q s) j) = condOk (sy_pipe s j)" for j
    using same(3,4) by (auto simp: condOk_def fun_eq_iff upd split: precondition.splits)
  then have "conds (setPipe p q s)" using parts(4) unfolding conds_def condPhase_def instr setPipe_sel(2) by simp
  moreover have "joins (setPipe p q s)" using parts(5) unfolding joins_def leads_def setPipe_sel .
  moreover have "waitersOk (setPipe p q s)" by (rule waitersOk_same [OF same' _ _ parts(6)]) (simp_all add: upd)
  moreover have "heldOk (setPipe p q s)" by (rule heldOk_same [OF same' _ _ parts(7)]) (simp_all add: upd holding_def)
  moreover have "commitsOk (setPipe p q s)"
    by (rule commitsOk_same [OF same' _ _ _ parts(8)]) (simp_all add: upd committing_def instr)
  moreover have "blockedOk (setPipe p q s)" using parts(9) by (simp add: blockedOk_def upd)
  moreover have "loops (setPipe p q s)" using parts(10) loop same(1,2,5) p by (auto simp: loops_def upd)
  ultimately show ?thesis by (simp add: pipelineInv_def core_def)
qed

lemma inv_wake: "pipelineInv s \<Longrightarrow> p < sy_count s \<Longrightarrow> pipelineInv (wake p s)"
  unfolding wake_def Let_def by (rule inv_pipe) (auto simp: isDone_def)

lemma inv_abortSignal: "pipelineInv s \<Longrightarrow> p < sy_count s \<Longrightarrow> pipelineInv (abortSignal p s)"
  unfolding abortSignal_def
  by (rule inv_pipe) (use inv_parts(10) [of s] in \<open>auto simp: loops_def pipelineReport_def Let_def\<close>)

text \<open>Pending instructions that complete without being started.\<close>

definition finishPending :: "nat \<Rightarrow> ustr set \<Rightarrow> (ustr \<Rightarrow> pipelineResult) \<Rightarrow> sys \<Rightarrow> sys" where
  "finishPending p X f s = setPipe p ((sy_pipe s p)\<lparr>pi_pending := filter (\<lambda>x. x \<notin> X) (pi_pending (sy_pipe s p)),
     pi_completed := (\<lambda>x. if x \<in> X then Some (f x) else pi_completed (sy_pipe s p) x)\<rparr>) s"

lemma inv_finishPending:
  assumes inv: "pipelineInv s" and p: "p < sy_count s" and X: "X \<subseteq> set (pi_pending (sy_pipe s p))"
    and f: "\<And>x. x \<in> X \<Longrightarrow> pr_id (f x) = x"
  shows "pipelineInv (finishPending p X f s)"
proof -
  note parts = inv_parts [OF inv]
  define s' where "s' = finishPending p X f s"
  have sel: "sy_task s' = sy_task s" "sy_count s' = sy_count s" "sy_held s' = sy_held s" "sy_waiters s' = sy_waiters s"
    "sy_commits s' = sy_commits s" "sy_inFlight s' = sy_inFlight s"
    by (simp_all add: s'_def finishPending_def upd)
  have same: "samePrograms s s'" by (simp add: samePrograms_def s'_def finishPending_def upd)
  note instr = instrOf_same [OF same]
  have pipe: "pi_active (sy_pipe s' j) = pi_active (sy_pipe s j)" "pi_hasChecker (sy_pipe s' j) = pi_hasChecker (sy_pipe s j)"
    "pi_loop (sy_pipe s' j) = pi_loop (sy_pipe s j)" "pi_maxConcurrency (sy_pipe s' j) = pi_maxConcurrency (sy_pipe s j)"
    "pi_pending (sy_pipe s' j) = (if j = p then filter (\<lambda>x. x \<notin> X) (pi_pending (sy_pipe s j)) else pi_pending (sy_pipe s j))"
    "pi_completed (sy_pipe s' j) x = (if j = p \<and> x \<in> X then Some (f x) else pi_completed (sy_pipe s j) x)" for j x
    by (auto simp: s'_def finishPending_def upd)
  have cell: "x \<in> idsOf (prog s p) \<and> sy_task s (p, x) = None \<and> pi_completed (sy_pipe s p) x = None" if "x \<in> X" for x
  proof -
    have pend: "x \<in> set (pi_pending (sy_pipe s p))" using X that by blast
    then have "x \<in> idsOf (prog s p)" using cellsN [OF parts(1), of p x] p by (auto simp: emptyCell_def)
    then show ?thesis using cellsD [OF parts(1) p, of x] pend by (auto simp: cellOf_def cellOk_def split: option.splits)
  qed
  have extends: "pi_completed (sy_pipe s' j) x = Some r" if "pi_completed (sy_pipe s j) x = Some r" for j x r
    using cell that by (auto simp: pipe(6))
  have "cells s'"
  proof (rule cellsI)
    fix j y assume a: "j < sy_count s'" "y \<in> idsOf (prog s' j)"
    then have "cellOf s j y" using cellsD [OF parts(1)] same by (simp add: sel(2) samePrograms_def)
    then show "cellOf s' j y" using cell [of y] by (auto simp: cellOf_def pipe sel(1) cellOk_def split: option.splits)
  next
    fix j y assume a: "\<not> (j < sy_count s' \<and> y \<in> idsOf (prog s' j))"
    then have "emptyCell s j y" using cellsN [OF parts(1)] same by (simp add: sel(2) samePrograms_def)
    then show "emptyCell s' j y" using cell [of y] a p same by (auto simp: emptyCell_def pipe sel samePrograms_def)
  qed
  moreover have "named s'" using parts(2) f unfolding named_def sel pipe(6) by (auto split: if_splits)
  moreover have "dependencySucceeded (pi_completed (sy_pipe s' j) d)" if "dependencySucceeded (pi_completed (sy_pipe s j) d)" for j d
    using that extends succeeded_Some [OF that] by (metis option.exhaust)
  then have "gates s'" using parts(3) unfolding gates_def sel(1) instr by blast
  moreover have "condOk (sy_pipe s' j) c" if "condOk (sy_pipe s j) c" for j c
    using that extends by (auto simp: condOk_def pipe(2) split: precondition.splits)
  then have "list_all (condOk (sy_pipe s' j)) cs" if "list_all (condOk (sy_pipe s j)) cs" for j cs
    using that by (induction cs) simp_all
  then have "conds s'" using parts(4) unfolding conds_def condPhase_def instr sel(1) by simp
  moreover have "joins s'" using parts(5) unfolding joins_def leads_def sel .
  moreover have "waitersOk s'" by (rule waitersOk_same [OF same sel(4) _ parts(6)]) (simp add: sel)
  moreover have "heldOk s'" by (rule heldOk_same [OF same sel(3) _ parts(7)]) (simp add: sel holding_def)
  moreover have "commitsOk s'" by (rule commitsOk_same [OF same sel(5) _ _ parts(8)]) (simp_all add: sel committing_def instr)
  moreover have "blockedOk s'" using parts(9) by (simp add: blockedOk_def sel)
  moreover have "loops s'"
  proof -
    have "pipelineReport (sy_pipe s' j) = pipelineReport (sy_pipe s j)" if "pi_pending (sy_pipe s j) = []" for j
    proof (cases "j = p")
      case True
      then have "X = {}" using X that by simp
      then show ?thesis using that True by (simp add: s'_def finishPending_def upd pipelineReport_def)
    qed (simp add: s'_def finishPending_def upd)
    then show ?thesis using parts(10) same by (auto simp: loops_def sel(2) pipe(1-5) samePrograms_def)
  qed
  ultimately show ?thesis unfolding s'_def by (simp add: pipelineInv_def core_def)
qed

text \<open>Starting an instruction, up to the draining when it has to wait for resources.\<close>

definition startedAs :: "tid \<Rightarrow> phase \<Rightarrow> sys \<Rightarrow> sys" where
  "startedAs t ph s = activate t (setTask t ph (unpend t s))"

lemma startedAs_sel [upd]:
  "sy_task (startedAs t ph s) = (sy_task s)(t \<mapsto> ph)" "sy_count (startedAs t ph s) = sy_count s" "sy_held (startedAs t ph s) = sy_held s"
  "sy_waiters (startedAs t ph s) = sy_waiters s" "sy_inFlight (startedAs t ph s) = sy_inFlight s"
  "sy_commits (startedAs t ph s) = sy_commits s"
  "sy_pipe (startedAs t ph s) = (sy_pipe s)(fst t := (sy_pipe s (fst t))\<lparr>pi_pending := removeAll (snd t) (pi_pending (sy_pipe s (fst t))),
     pi_active := pi_active (sy_pipe s (fst t)) @ [snd t]\<rparr>)"
  by (simp_all add: startedAs_def activate_def unpend_def upd)

text \<open>An instruction may start when it is pending and all its dependencies have succeeded.\<close>

definition mayStart :: "sys \<Rightarrow> tid \<Rightarrow> bool" where
  "mayStart s t \<longleftrightarrow> fst t < sy_count s \<and> snd t \<in> set (pi_pending (sy_pipe s (fst t)))
     \<and> (\<forall>i d. instrOf s t = Some i \<and> d \<in> set (ins_dependsOn i) \<longrightarrow> dependencySucceeded (pi_completed (sy_pipe s (fst t)) d))"

lemma started_facts:
  assumes inv: "pipelineInv s" and t: "mayStart s t" and ph: "settledOf ph = None" "\<not> holdsResources ph" "ph \<noteq> Executing"
      "\<And>n. ph \<noteq> Checking n" "\<forall>r. resultOf ph = Some r \<longrightarrow> pr_id r = snd t"
    and s': "sy_pipe s' = sy_pipe (startedAs t ph s)" "sy_task s' = (sy_task s)(t \<mapsto> ph)" "sy_count s' = sy_count s"
      "sy_held s' = sy_held s" "sy_commits s' = sy_commits s"
  shows "cells s' \<and> named s' \<and> gates s' \<and> conds s' \<and> heldOk s' \<and> commitsOk s' \<and> loops s' \<and> samePrograms s s' \<and> sy_task s t = None"
proof -
  obtain p x where tp: "t = (p, x)" by (cases t)
  note parts = inv_parts [OF inv]
  have same: "samePrograms s s'" by (simp add: samePrograms_def s'(1) upd)
  note instr = instrOf_same [OF same]
  have p: "p < sy_count s" "x \<in> set (pi_pending (sy_pipe s p))" using t by (simp_all add: mayStart_def tp)
  then have ids: "x \<in> idsOf (prog s p)" using cellsN [OF parts(1), of p x] by (auto simp: emptyCell_def)
  have cell: "sy_task s t = None" "pi_completed (sy_pipe s p) x = None" "x \<notin> set (pi_active (sy_pipe s p))"
    using cellsD [OF parts(1) p(1) ids] p(2) by (auto simp: tp cellOf_def cellOk_def split: option.splits)
  have pipe: "pi_completed (sy_pipe s' j) = pi_completed (sy_pipe s j)" "pi_hasChecker (sy_pipe s' j) = pi_hasChecker (sy_pipe s j)"
    "pi_loop (sy_pipe s' j) = pi_loop (sy_pipe s j)" "pi_maxConcurrency (sy_pipe s' j) = pi_maxConcurrency (sy_pipe s j)"
    "pi_pending (sy_pipe s' j) = (if j = p then removeAll x (pi_pending (sy_pipe s j)) else pi_pending (sy_pipe s j))"
    "pi_active (sy_pipe s' j) = (if j = p then pi_active (sy_pipe s j) @ [x] else pi_active (sy_pipe s j))" for j
    by (auto simp: s'(1) upd tp)
  have "cells s'"
  proof (rule cellsI)
    fix j y assume "j < sy_count s'" "y \<in> idsOf (prog s' j)"
    then have "cellOf s j y" using cellsD [OF parts(1)] same by (simp add: s'(3) samePrograms_def)
    then show "cellOf s' j y" using cell(2) ph(1) by (auto simp: cellOf_def pipe s'(2) cellOk_def tp split: option.splits)
  next
    fix j y assume a: "\<not> (j < sy_count s' \<and> y \<in> idsOf (prog s' j))"
    then have "emptyCell s j y" using cellsN [OF parts(1)] same by (simp add: s'(3) samePrograms_def)
    then show "emptyCell s' j y" using a ids p same by (auto simp: emptyCell_def pipe s'(2,3) samePrograms_def tp)
  qed
  moreover have "named s'" using parts(2) ph(5) unfolding named_def pipe(1) s'(2,3) by (auto split: if_splits)
  moreover have "gates s'" using parts(3) t unfolding gates_def mayStart_def instr pipe(1) s'(2) by auto
  moreover have "condOk (sy_pipe s' j) = condOk (sy_pipe s j)" for j
    by (auto simp: condOk_def pipe(1,2) fun_eq_iff split: precondition.splits)
  then have "conds s'" using parts(4) ph(3,4) unfolding conds_def condPhase_def instr s'(2) by (auto split: if_splits)
  moreover have "heldOk s'"
    by (rule heldOk_same [OF same s'(4) _ parts(7)]) (use cell(1) ph(2) in \<open>auto simp: holding_def s'(2)\<close>)
  moreover have "ph \<noteq> Queued \<and> \<not> inBody ph" using ph(2) by (cases ph) auto
  then have "commitsOk s'"
    by (intro commitsOk_same [OF same s'(5) _ _ parts(8)]) (use cell(1) in \<open>auto simp: committing_def instr s'(2)\<close>)
  moreover have "loops s'"
  proof -
    have "pi_loop (sy_pipe s p) \<noteq> Finished r" for r using parts(10) p by (auto simp: loops_def)
    moreover have "pipelineReport (sy_pipe s' j) = pipelineReport (sy_pipe s j)" if "j \<noteq> p" for j
      using that by (simp add: s'(1) upd tp)
    ultimately show ?thesis using parts(10) same by (auto simp: loops_def pipe(3-6) s'(3) samePrograms_def distinct_removeAll)
  qed
  ultimately show ?thesis using same cell(1) by simp
qed

lemma leads_kept: "sy_task s' = (sy_task s)(t \<mapsto> ph) \<Longrightarrow> sy_task s t = None \<Longrightarrow> leads s u \<Longrightarrow> leads s' u"
  by (auto simp: leads_def)

lemma inv_startJoined:
  assumes inv: "pipelineInv s" and t: "mayStart s t" and u: "leads s u"
  shows "pipelineInv (startedAs t (Joined u) s)"
proof -
  define s' where "s' = startedAs t (Joined u) s"
  note parts = inv_parts [OF inv]
  have f: "cells s' \<and> named s' \<and> gates s' \<and> conds s' \<and> heldOk s' \<and> commitsOk s' \<and> loops s' \<and> samePrograms s s' \<and> sy_task s t = None"
    by (rule started_facts [OF inv t, of "Joined u"]) (simp_all add: s'_def startedAs_sel(1-6))
  have task: "sy_task s' = (sy_task s)(t \<mapsto> Joined u)" by (simp add: s'_def upd)
  have "waitersOk s'" by (rule waitersOk_same [OF _ _ _ parts(6)]) (use f in \<open>auto simp: s'_def upd\<close>)
  moreover have "blockedOk s'" using parts(9) by (simp add: blockedOk_def s'_def upd)
  moreover have "joins s'"
  proof -
    have "leads s' v" if "leads s v" for v using leads_kept [OF task _ that] f by simp
    moreover have "sy_inFlight s' = sy_inFlight s" by (simp add: s'_def upd)
    ultimately show ?thesis using parts(5) u unfolding joins_def task by (auto split: if_splits)
  qed
  ultimately show ?thesis using f unfolding s'_def by (simp add: pipelineInv_def core_def)
qed

lemma registerInFlight_sel [upd]:
  "sy_pipe (registerInFlight k fp t s) = sy_pipe s" "sy_task (registerInFlight k fp t s) = sy_task s"
  "sy_count (registerInFlight k fp t s) = sy_count s" "sy_held (registerInFlight k fp t s) = sy_held s"
  "sy_waiters (registerInFlight k fp t s) = sy_waiters s" "sy_commits (registerInFlight k fp t s) = sy_commits s"
  "sy_inFlight (registerInFlight k fp t s) = (sy_inFlight s)(k \<mapsto> (fp, t))"
  by (simp_all add: registerInFlight_def)

lemma joins_register:
  assumes "joins s" "sy_task s t = None" "sy_task s' = (sy_task s)(t \<mapsto> ph)" "\<not> isJoined ph"
    "sy_inFlight s' = (sy_inFlight s)(k \<mapsto> (fp, t))"
  shows "joins s'"
proof -
  have "leads s' t" using assms(3,4) by (simp add: leads_def)
  then show ?thesis using assms(1,4) leads_kept [OF assms(3,2)] unfolding joins_def assms(3,5)
    by (auto split: if_splits)
qed

lemma inv_startAborted:
  assumes inv: "pipelineInv s" and t: "mayStart s t" and r: "pr_id r = snd t"
  shows "pipelineInv (registerInFlight k fp t (startedAs t (Returned r) s))"
proof -
  define s' where "s' = registerInFlight k fp t (startedAs t (Returned r) s)"
  note parts = inv_parts [OF inv]
  have f: "cells s' \<and> named s' \<and> gates s' \<and> conds s' \<and> heldOk s' \<and> commitsOk s' \<and> loops s' \<and> samePrograms s s' \<and> sy_task s t = None"
    by (rule started_facts [OF inv t, of "Returned r"]) (simp_all add: s'_def startedAs_sel(1-6) registerInFlight_sel r)
  have task: "sy_task s' = (sy_task s)(t \<mapsto> Returned r)" by (simp add: s'_def upd)
  have "waitersOk s'" by (rule waitersOk_same [OF _ _ _ parts(6)]) (use f in \<open>auto simp: s'_def upd\<close>)
  moreover have "blockedOk s'" using parts(9) by (simp add: blockedOk_def s'_def upd)
  moreover have "joins s'"
    by (rule joins_register [OF parts(5) _ task]) (use f in \<open>simp_all add: s'_def upd\<close>)
  ultimately show ?thesis using f unfolding s'_def by (simp add: pipelineInv_def core_def)
qed

definition enqueued :: "ustr \<Rightarrow> ustr \<Rightarrow> tid \<Rightarrow> instruction \<Rightarrow> sys \<Rightarrow> sys" where
  "enqueued key fp t i s = (registerInFlight key fp t (startedAs t Waiting s))
     \<lparr>sy_waiters := sy_waiters s @ [(t, sort (remdups (resourceCost i)))]\<rparr>"

lemma core_enqueued:
  assumes inv: "pipelineInv s" and t: "mayStart s t" and i: "instrOf s t = Some i"
  shows "core (enqueued k fp t i s) \<and> loops (enqueued k fp t i s)"
proof -
  define s' where "s' = enqueued k fp t i s"
  note parts = inv_parts [OF inv]
  have f: "cells s' \<and> named s' \<and> gates s' \<and> conds s' \<and> heldOk s' \<and> commitsOk s' \<and> loops s' \<and> samePrograms s s' \<and> sy_task s t = None"
    by (rule started_facts [OF inv t, of Waiting]) (simp_all add: s'_def enqueued_def startedAs_sel(1-6) registerInFlight_sel)
  have task: "sy_task s' = (sy_task s)(t \<mapsto> Waiting)" by (simp add: s'_def enqueued_def upd)
  have "waitersOk s'"
  proof -
    have w: "sy_waiters s' = sy_waiters s @ [(t, sort (remdups (resourceCost i)))]" by (simp add: s'_def enqueued_def)
    have c: "cost s' = cost s" using f cost_same by blast
    have "t \<notin> fst ` set (sy_waiters s)" using parts(6) f by (simp add: waitersOk_def)
    moreover have "cost s t = set (resourceCost i)" using i by (simp add: cost_def)
    moreover have "{u. sy_task s' u = Some Waiting} = insert t {u. sy_task s u = Some Waiting}" by (auto simp: task)
    ultimately show ?thesis using parts(6) unfolding waitersOk_def w c by simp
  qed
  moreover have "joins s'"
    by (rule joins_register [OF parts(5) _ task]) (use f in \<open>simp_all add: s'_def enqueued_def upd\<close>)
  ultimately have "core s'" using f by (simp add: core_def)
  then show ?thesis using f by (simp add: s'_def)
qed

lemma inv_startWaiting: "pipelineInv s \<Longrightarrow> mayStart s t \<Longrightarrow> instrOf s t = Some i \<Longrightarrow> pipelineInv (drainWaiters (enqueued k fp t i s))"
  using core_enqueued inv_drainWaiters by blast

end
