(* ===== verification/PipelineLoop.thy ===== *)
theory PipelineLoop
  imports PipelineSteps
begin

text \<open>
  A turn of the scheduling loop keeps the invariant and never finds itself stuck; with it every step
  of the system keeps the invariant.
\<close>

declare split_paired_All [simp del] split_paired_Ex [simp del]

section \<open>Starting and skipping\<close>

lemma drain_activate: "activate t (registerInFlight k fp t (drainWaiters s)) = drainWaiters (activate t (registerInFlight k fp t s))"
  by (cases s) (simp add: activate_def registerInFlight_def drainWaiters_def setPipe_def cong: if_cong split: prod.splits)

lemma removeAll_filter: "removeAll x xs = filter (\<lambda>y. y \<noteq> x) xs"
  by (induction xs) auto

lemma start_cases:
  fixes s :: sys
  obtains (conflict) e where "start digest p i s = finishPending p {ins_id i} (\<lambda>_. failedOutcome i e) s"
  | (joined) k fp u where "sy_inFlight s k = Some (fp, u)" "start digest p i s = startedAs (p, ins_id i) (Joined u) s"
  | (aborted) k fp where
      "start digest p i s = registerInFlight k fp (p, ins_id i) (startedAs (p, ins_id i) (Returned (abortOutcome i)) s)"
  | (waiting) k fp where "start digest p i s = drainWaiters (enqueued k fp (p, ins_id i) i s)"
proof -
  define t where "t = (p, ins_id i)"
  define key where "key = operationKey (prog s p) i"
  define fp where "fp = instructionFingerprint digest (prog s p) i"
  define s1 where "s1 = unpend t s"
  have start: "start digest p i s = (case joinInFlight key fp s1 of
      Inl _ \<Rightarrow> complete t (failedOutcome i (PeOpIdConflict key)) s1
    | Inr (Some u) \<Rightarrow> activate t (setTask t (Joined u) s1)
    | Inr None \<Rightarrow> activate t (registerInFlight key fp t
        (if pi_aborted (sy_pipe s1 p) then setTask t (Returned (abortOutcome i)) s1 else acquire t (resourceCost i) s1)))"
    by (simp only: start_def Let_def t_def key_def fp_def s1_def)
  have flight: "sy_inFlight s1 = sy_inFlight s" by (simp add: s1_def unpend_def upd)
  show ?thesis
  proof (cases "joinInFlight key fp s1")
    case (Inl e)
    have "complete t (failedOutcome i (PeOpIdConflict key)) s1
      = finishPending p {ins_id i} (\<lambda>_. failedOutcome i (PeOpIdConflict key)) s"
      by (simp add: s1_def unpend_def complete_def finishPending_def setPipe_def t_def fun_eq_iff removeAll_filter)
    then show ?thesis using conflict by (simp add: start Inl)
  next
    case (Inr o')
    show ?thesis
    proof (cases o')
      case (Some u)
      then have "sy_inFlight s key = Some (fp, u)"
        using Inr by (auto simp: joinInFlight_def flight split: option.splits if_splits)
      then show ?thesis using joined Some Inr by (simp add: start startedAs_def t_def s1_def)
    next
      case None
      show ?thesis
      proof (cases "pi_aborted (sy_pipe s1 p)")
        case True
        have "activate t (registerInFlight key fp t s') = registerInFlight key fp t (activate t s')" for s'
          by (simp add: registerInFlight_def activate_def setPipe_def)
        then show ?thesis using aborted True None Inr by (simp add: start startedAs_def s1_def t_def)
      next
        case False
        have "activate t (registerInFlight key fp t (acquire t (resourceCost i) s1)) = drainWaiters (enqueued key fp t i s)"
          unfolding acquire_def drain_activate enqueued_def
          by (cases s) (simp add: s1_def startedAs_def activate_def registerInFlight_def setPipe_def unpend_def setTask_def)
        then show ?thesis using waiting False None Inr by (simp add: start t_def)
      qed
    qed
  qed
qed

lemma inv_start:
  assumes inv: "pipelineInv s" and i: "instrOf s (p, ins_id i) = Some i" and t: "mayStart s (p, ins_id i)"
  shows "pipelineInv (start digest p i s)"
proof (cases rule: start_cases [of digest p i s])
  case (conflict e)
  have "p < sy_count s" "ins_id i \<in> set (pi_pending (sy_pipe s p))" using t by (simp_all add: mayStart_def)
  then show ?thesis unfolding conflict by (intro inv_finishPending [OF inv]) simp_all
next
  case (joined k fp u)
  then have "leads s u" using inv_parts(5) [OF inv] unfolding joins_def by blast
  then show ?thesis unfolding joined(2) by (rule inv_startJoined [OF inv t])
next
  case (aborted k fp)
  show ?thesis unfolding aborted by (rule inv_startAborted [OF inv t]) simp
next
  case (waiting k fp)
  show ?thesis unfolding waiting by (rule inv_startWaiting [OF inv t i])
qed

text \<open>One turn of the \<open>for\<close> over the pending instructions takes the instruction off the list and keeps
  the other programs' lists, or finds an unfinished dependency.\<close>

lemma start_pending:
  "pi_pending (sy_pipe (start digest p i s) p) = removeAll (ins_id i) (pi_pending (sy_pipe s p))"
  "prog (start digest p i s) j = prog s j" "sy_count (start digest p i s) = sy_count s"
  "pi_maxConcurrency (sy_pipe (start digest p i s) j) = pi_maxConcurrency (sy_pipe s j)"
  "pi_loop (sy_pipe (start digest p i s) j) = pi_loop (sy_pipe s j)"
  by (simp_all add: start_def Let_def unpend_def activate_def acquire_def drainWaiters_def registerInFlight_def upd
      split: sum.splits option.splits prod.splits)

lemma considerOne_cases:
  assumes inv: "pipelineInv s" and i: "instrOf s (p, ins_id i) = Some i" and p: "p < sy_count s"
    and pend: "ins_id i \<in> set (pi_pending (sy_pipe s p))" and c: "considerOne digest p i s = Some s'"
  obtains (started) "mayStart s (p, ins_id i)" "s' = start digest p i s"
  | (skipped) d where "s' = finishPending p {ins_id i} (\<lambda>_. skippedOutcome i d) s"
proof (cases "find (\<lambda>d. \<not> dependencySucceeded (pi_completed (sy_pipe s p) d)) (ins_dependsOn i)")
  case None
  then have "mayStart s (p, ins_id i)" using p pend i by (auto simp: mayStart_def find_None_iff)
  moreover have "s' = start digest p i s" using c None by (auto simp: considerOne_def Let_def split: if_splits)
  ultimately show ?thesis by (rule started)
next
  case (Some d)
  have "i \<in> set (pg_instructions (prog s p))" using i byId_Some by (auto simp: instrOf_def)
  moreover have "d \<in> set (ins_dependsOn i)" using find_found [OF Some] by simp
  moreover have wf: "wfProgram (prog s p)" using inv_parts(10) [OF inv] p by (simp add: loops_def)
  ultimately have "d \<in> idsOf (prog s p)" by (auto simp: wfProgram_def)
  then have "d \<noteq> []" using wf by (auto simp: wfProgram_def idsOf_def)
  then have "s' = complete (p, ins_id i) (skippedOutcome i d) (unpend (p, ins_id i) s)"
    using c Some by (auto simp: considerOne_def Let_def split: if_splits)
  also have "\<dots> = finishPending p {ins_id i} (\<lambda>_. skippedOutcome i d) s"
    by (simp add: unpend_def complete_def finishPending_def setPipe_def fun_eq_iff removeAll_filter)
  finally show ?thesis by (rule skipped)
qed

lemma considerOne_Some:
  assumes inv: "pipelineInv s" and i: "instrOf s (p, ins_id i) = Some i" and p: "p < sy_count s"
    and pend: "ins_id i \<in> set (pi_pending (sy_pipe s p))" and c: "considerOne digest p i s = Some s'"
  shows "pipelineInv s' \<and> pi_pending (sy_pipe s' p) = removeAll (ins_id i) (pi_pending (sy_pipe s p))
    \<and> (\<forall>j. prog s' j = prog s j) \<and> sy_count s' = sy_count s \<and> pi_loop (sy_pipe s' p) = pi_loop (sy_pipe s p)"
  using assms
proof (cases rule: considerOne_cases)
  case started
  then show ?thesis using inv_start [OF inv i] by (simp add: start_pending)
next
  case (skipped d)
  have "pipelineInv s'" unfolding skipped by (rule inv_finishPending [OF inv p]) (use pend in simp_all)
  then show ?thesis by (simp add: skipped finishPending_def upd removeAll_filter)
qed

lemma scheduleAll_inv:
  assumes "pipelineInv s" "p < sy_count s" "distinct xs" "set xs \<subseteq> set (pi_pending (sy_pipe s p))"
    "scheduleAll digest p xs b s = (b', s')"
  shows "pipelineInv s' \<and> sy_count s' = sy_count s \<and> (\<forall>j. prog s' j = prog s j) \<and> pi_loop (sy_pipe s' p) = pi_loop (sy_pipe s p)
    \<and> set (pi_pending (sy_pipe s' p)) \<subseteq> set (pi_pending (sy_pipe s p))"
  using assms
proof (induction xs arbitrary: b s)
  case (Cons x xs)
  show ?case
  proof (cases "pi_maxConcurrency (sy_pipe s p) \<le> length (pi_active (sy_pipe s p))")
    case True
    then show ?thesis using Cons.prems by simp
  next
    case room: False
    show ?thesis
    proof (cases "byId (prog s p) x")
      case None
      then show ?thesis using Cons room by simp
    next
      case (Some i)
      then have x: "ins_id i = x" by (simp add: byId_Some)
      show ?thesis
      proof (cases "considerOne digest p i s")
        case None
        then show ?thesis using Cons room Some by simp
      next
        case started: (Some s1)
        have "instrOf s (p, ins_id i) = Some i" using Some x by (simp add: instrOf_def)
        note one = considerOne_Some [OF Cons.prems(1) this Cons.prems(2) _ started]
        have "x \<in> set (pi_pending (sy_pipe s p))" using Cons.prems(4) by simp
        note one = one [unfolded x, OF this]
        have "scheduleAll digest p xs True s1 = (b', s')" using Cons.prems(5) room Some started by simp
        from Cons.IH [OF _ _ _ _ this] one Cons.prems(2-4) show ?thesis by auto
      qed
    qed
  qed
qed simp

text \<open>Without progress nothing was done, and every instruction that was looked at has an unfinished
  dependency.\<close>

lemma scheduleAll_True: "fst (scheduleAll digest p xs True s)"
  by (induction xs arbitrary: s) (auto split: option.splits)

lemma scheduleAll_idle:
  "scheduleAll digest p xs False s = (False, s') \<Longrightarrow> s' = s \<and> (length (pi_active (sy_pipe s p)) < pi_maxConcurrency (sy_pipe s p) \<longrightarrow>
     (\<forall>x \<in> set xs. \<forall>i. byId (prog s p) x = Some i \<longrightarrow> \<not> list_all (isDone (sy_pipe s p)) (ins_dependsOn i)))"
proof (induction xs)
  case (Cons x xs)
  show ?case
  proof (cases "pi_maxConcurrency (sy_pipe s p) \<le> length (pi_active (sy_pipe s p))")
    case True
    then show ?thesis using Cons.prems by simp
  next
    case room: False
    show ?thesis
    proof (cases "byId (prog s p) x")
      case None
      then show ?thesis using Cons room by simp
    next
      case (Some i)
      show ?thesis
      proof (cases "considerOne digest p i s")
        case None
        then have "\<not> list_all (isDone (sy_pipe s p)) (ins_dependsOn i)"
          by (auto simp: considerOne_def Let_def split: if_splits option.splits)
        then show ?thesis using Cons room Some None by simp
      next
        case started: (Some s1)
        then have "fst (scheduleAll digest p (x # xs) False s)" using room Some scheduleAll_True by simp
        then show ?thesis using Cons.prems by simp
      qed
    qed
  qed
qed simp

section \<open>A turn of the loop\<close>

lemma inv_abortPending:
  assumes inv: "pipelineInv s" and p: "p < sy_count s"
  shows "pipelineInv (abortPending p s) \<and> sy_count (abortPending p s) = sy_count s \<and> (\<forall>j. prog (abortPending p s) j = prog s j)"
proof (cases "pi_aborted (sy_pipe s p)")
  case True
  define f where "f x = abortOutcome (the (byId (prog s p) x))" for x
  have known: "byId (prog s p) x = Some (the (byId (prog s p) x))" if "x \<in> set (pi_pending (sy_pipe s p))" for x
  proof -
    have "x \<in> idsOf (prog s p)" using cellsN [OF inv_parts(1) [OF inv], of p x] that p by (auto simp: emptyCell_def)
    then show ?thesis using byId_ids by auto
  qed
  have "(if x \<in> set (pi_pending (sy_pipe s p)) then map_option abortOutcome (byId (prog s p) x) else pi_completed (sy_pipe s p) x)
    = (if x \<in> set (pi_pending (sy_pipe s p)) then Some (f x) else pi_completed (sy_pipe s p) x)" for x
    using known [of x] by (cases "byId (prog s p) x") (auto simp: f_def)
  then have "abortPending p s = finishPending p (set (pi_pending (sy_pipe s p))) f s"
    using True by (simp add: abortPending_def finishPending_def Let_def setPipe_def)
  moreover have "pipelineInv (finishPending p (set (pi_pending (sy_pipe s p))) f s)"
  proof (rule inv_finishPending [OF inv p])
    fix x assume "x \<in> set (pi_pending (sy_pipe s p))"
    from byId_Some [OF known [OF this]] show "pr_id (f x) = x" by (simp add: f_def)
  qed simp
  ultimately show ?thesis by (simp add: finishPending_def upd)
qed (simp add: abortPending_def Let_def inv)

text \<open>The check for a dependency cycle never fires: among finitely many pending instructions of an
  acyclic program one has no pending dependency, and when nothing is active what is not pending is done.\<close>

lemma acyclic_minimal:
  assumes "acyclic r" "finite S" "S \<noteq> {}"
  obtains x where "x \<in> S" "\<And>y. (x, y) \<in> r \<Longrightarrow> y \<notin> S"
proof -
  have "finite (r \<inter> S \<times> S)" using assms(2) by simp
  moreover have "acyclic (r \<inter> S \<times> S)" using assms(1) by (rule acyclic_subset) simp
  ultimately have "wf ((r \<inter> S \<times> S)\<inverse>)" by (rule finite_acyclic_wf_converse)
  then obtain x where "x \<in> S" "\<And>y. (y, x) \<in> (r \<inter> S \<times> S)\<inverse> \<Longrightarrow> y \<notin> S"
    using assms(3) by (metis ex_in_conv wfE_min)
  then show ?thesis using that [of x] by blast
qed

lemma not_stuck:
  assumes inv: "pipelineInv s" and p: "p < sy_count s" and idle: "pi_active (sy_pipe s p) = []" and pend: "pi_pending (sy_pipe s p) \<noteq> []"
  shows "fst (scheduleAll digest p (pi_pending (sy_pipe s p)) False s)"
proof (rule ccontr)
  assume "\<not> fst (scheduleAll digest p (pi_pending (sy_pipe s p)) False s)"
  then obtain s' where "scheduleAll digest p (pi_pending (sy_pipe s p)) False s = (False, s')" by (metis prod.collapse)
  note parts = inv_parts [OF inv]
  have loop: "wfProgram (prog s p)" "1 \<le> pi_maxConcurrency (sy_pipe s p)" using parts(10) p by (auto simp: loops_def)
  have blocked: "\<not> list_all (isDone (sy_pipe s p)) (ins_dependsOn i)"
    if "x \<in> set (pi_pending (sy_pipe s p))" "byId (prog s p) x = Some i" for x i
    using scheduleAll_idle [OF \<open>scheduleAll digest p (pi_pending (sy_pipe s p)) False s = (False, s')\<close>] idle loop(2) that by auto
  obtain x where x: "x \<in> set (pi_pending (sy_pipe s p))" "\<And>y. (x, y) \<in> depGraph (prog s p) \<Longrightarrow> y \<notin> set (pi_pending (sy_pipe s p))"
    using loop(1) pend by (metis acyclic_minimal finite_set set_empty wfProgram_def)
  have "x \<in> idsOf (prog s p)" using cellsN [OF parts(1), of p x] x(1) p by (auto simp: emptyCell_def)
  then obtain i where i: "byId (prog s p) x = Some i" using byId_ids by blast
  obtain d where d: "d \<in> set (ins_dependsOn i)" "pi_completed (sy_pipe s p) d = None"
    using blocked [OF x(1) i] by (auto simp: list_all_iff isDone_def)
  have "i \<in> set (pg_instructions (prog s p))" "ins_id i = x" using byId_Some [OF i] by simp_all
  then have "(x, d) \<in> depGraph (prog s p)" "d \<in> idsOf (prog s p)"
    using d(1) loop(1) by (auto simp: depGraph_def wfProgram_def)
  moreover from this(2) have "d \<in> set (pi_pending (sy_pipe s p))"
    using cellsD [OF parts(1) p, of d] d(2) idle by (auto simp: cellOf_def cellOk_def split: option.splits)
  ultimately show False using x(2) by blast
qed

lemma report_loop [simp]: "pipelineReport (q\<lparr>pi_loop := l\<rparr>) = pipelineReport q"
  by (simp add: pipelineReport_def)

lemma loopTurn_open:
  assumes inv: "pipelineInv s" and p: "p < sy_count s" and work: "\<not> (pi_pending (sy_pipe s p) = [] \<and> pi_active (sy_pipe s p) = [])"
  obtains b s1 s2 where "s1 = abortPending p s" "pipelineInv s1" "p < sy_count s1" "distinct (pi_pending (sy_pipe s1 p))"
    "scheduleAll digest p (pi_pending (sy_pipe s1 p)) False s1 = (b, s2)" "pipelineInv s2" "p < sy_count s2"
    "pi_active (sy_pipe s2 p) = [] \<Longrightarrow> pi_pending (sy_pipe s2 p) \<noteq> [] \<Longrightarrow> b"
    "loopTurn digest p s = setLoop p (if pi_active (sy_pipe s2 p) \<noteq> [] then Racing else Ready) s2"
proof -
  define s1 where "s1 = abortPending p s"
  have s1: "pipelineInv s1" "p < sy_count s1" using inv_abortPending [OF inv p] p by (simp_all add: s1_def)
  obtain b s2 where sch: "scheduleAll digest p (pi_pending (sy_pipe s1 p)) False s1 = (b, s2)"
    by (cases "scheduleAll digest p (pi_pending (sy_pipe s1 p)) False s1")
  have d: "distinct (pi_pending (sy_pipe s1 p))" using inv_parts(10) [OF s1(1)] s1(2) by (simp add: loops_def)
  from scheduleAll_inv [OF s1 this subset_refl sch] have s2: "pipelineInv s2" "p < sy_count s2" using s1(2) by simp_all
  have turn: "loopTurn digest p s = (if pi_active (sy_pipe s2 p) \<noteq> [] then setLoop p Racing s2
      else if pi_pending (sy_pipe s2 p) \<noteq> [] \<and> \<not> b then setLoop p (Finished (stuckRun (sy_pipe s2 p))) s2 else setLoop p Ready s2)"
    by (simp only: loopTurn_def if_not_P [OF work] Let_def s1_def [symmetric] sch prod.case)
  have b: "b" if "pi_active (sy_pipe s2 p) = []" "pi_pending (sy_pipe s2 p) \<noteq> []"
  proof (rule ccontr)
    assume "\<not> b"
    then have "scheduleAll digest p (pi_pending (sy_pipe s1 p)) False s1 = (False, s2)" using sch by simp
    then have "s2 = s1" by (rule scheduleAll_idle [THEN conjunct1])
    then show False using not_stuck [OF s1, of digest] that sch \<open>\<not> b\<close> by simp
  qed
  then have "loopTurn digest p s = setLoop p (if pi_active (sy_pipe s2 p) \<noteq> [] then Racing else Ready) s2"
    unfolding turn by auto
  from that [OF s1_def s1 d sch s2 b this] show ?thesis by blast
qed

lemma inv_loopTurn:
  assumes inv: "pipelineInv s" and p: "p < sy_count s"
  shows "pipelineInv (loopTurn digest p s)"
proof (cases "pi_pending (sy_pipe s p) = [] \<and> pi_active (sy_pipe s p) = []")
  case True
  then show ?thesis by (simp add: loopTurn_def setLoop_def) (rule inv_pipe [OF inv p], auto)
next
  case False
  show ?thesis
  proof (rule loopTurn_open [OF inv p False, of digest])
    fix s2 assume s2: "pipelineInv s2" "p < sy_count s2"
      and turn: "loopTurn digest p s = setLoop p (if pi_active (sy_pipe s2 p) \<noteq> [] then Racing else Ready) s2"
    show ?thesis unfolding turn setLoop_def by (rule inv_pipe [OF s2]) (auto split: if_splits)
  qed
qed

section \<open>Every step\<close>

lemma inv_step: "pipelineStep digest s s' \<Longrightarrow> pipelineInv s \<Longrightarrow> pipelineInv s'"
proof (induction rule: pipelineStep.induct)
  case (Commit s t i ts)
  then show ?case using inv_beginRun [of s t Queued i ts] by blast
qed (simp_all add: inv_abortSignal inv_loopTurn inv_wake inv_enterRun inv_checkOne inv_executorReturns inv_leaveQueue
  inv_release inv_settle inv_joinSettles)

end
