(* ===== verification/Progress.thy ===== *)
theory Progress
  imports Main
begin

text \<open>
  The interface of a transition system whose runs all end well: an invariant its steps keep, a measure
  they decrease, and a step from every state of the invariant that is not final. Both the bound on
  the length of a run and what holds when it can go no further follow.
\<close>

locale progress =
  fixes step :: "'s \<Rightarrow> 's \<Rightarrow> bool" and inv :: "'s \<Rightarrow> bool" and final :: "'s \<Rightarrow> bool" and weight :: "'s \<Rightarrow> nat"
  assumes keeps: "step s s' \<Longrightarrow> inv s \<Longrightarrow> inv s'"
    and descends: "step s s' \<Longrightarrow> inv s \<Longrightarrow> weight s' < weight s"
    and goes_on: "inv s \<Longrightarrow> \<not> final s \<Longrightarrow> \<exists>s'. step s s'"
begin

lemma reachable_inv: "step\<^sup>*\<^sup>* s s' \<Longrightarrow> inv s \<Longrightarrow> inv s'"
  by (induction rule: rtranclp_induct) (auto intro: keeps)

lemma steps_descend: "(step ^^ n) s s' \<Longrightarrow> inv s \<Longrightarrow> inv s' \<and> n + weight s' \<le> weight s"
proof (induction n arbitrary: s')
  case (Suc n)
  then obtain t where t: "(step ^^ n) s t" "step t s'" by auto
  from Suc.IH [OF t(1) Suc.prems(2)] keeps [OF t(2)] descends [OF t(2)] show ?case by simp
qed simp

lemma runs_bounded: "(step ^^ n) s s' \<Longrightarrow> inv s \<Longrightarrow> n \<le> weight s"
  using steps_descend by fastforce

lemma stuck_final: "step\<^sup>*\<^sup>* s s' \<Longrightarrow> inv s \<Longrightarrow> \<nexists>s''. step s' s'' \<Longrightarrow> final s'"
  using reachable_inv goes_on by blast

lemma reaches_final: "inv s \<Longrightarrow> \<exists>s'. step\<^sup>*\<^sup>* s s' \<and> final s'"
proof (induction "weight s" arbitrary: s rule: less_induct)
  case less
  show ?case
  proof (cases "final s")
    case False
    then obtain t where t: "step s t" using goes_on [OF less.prems] by blast
    from less.hyps [OF descends [OF t less.prems] keeps [OF t less.prems]] t show ?thesis
      by (meson converse_rtranclp_into_rtranclp)
  qed blast
qed

end

end
