(* ===== verification/PipelineRank.thy ===== *)
theory PipelineRank
  imports PipelineLoop Progress
begin

text \<open>
  Every run of the pipeline system ends: a state that is not final has a step (no deadlock), and each
  step lowers a weight. The weight counts, for every instruction, what is left of its way from pending
  to settled; a turn of a loop or an abort signal costs one.
\<close>

declare split_paired_All [simp del] split_paired_Ex [simp del]

section \<open>No deadlock\<close>

definition allFinished :: "sys \<Rightarrow> bool" where
  "allFinished s \<longleftrightarrow> (\<forall>p < sy_count s. \<exists>r. pi_loop (sy_pipe s p) = Finished r)"

fun busy :: "phase \<Rightarrow> bool" where
  "busy Waiting = False"
| "busy Queued = False"
| "busy (Joined u) = False"
| "busy (Settled r) = False"
| "busy _ = True"

lemma busy_step:
  assumes "pipelineInv s" "sy_task s t = Some ph" "busy ph"
  shows "\<exists>s'. pipelineStep digest s s'"
proof -
  obtain i where "instrOf s t = Some i" using started_instr [OF inv_parts(1) [OF assms(1)] assms(2)] by blast
  then show ?thesis using assms(2,3) by (cases ph) (auto intro: pipelineStep.intros)
qed

lemma queued_step:
  assumes inv: "pipelineInv s" and q: "sy_task s t = Some Queued"
  shows "\<exists>s'. pipelineStep digest s s'"
proof -
  have c: "commitsOk s" by (rule inv_parts(8) [OF inv])
  then have "committing s t" using q unfolding commitsOk_def committing_def by blast
  then have "t \<in> set (sy_commits s)" using c by (simp add: commitsOk_def)
  then obtain u us where us: "sy_commits s = u # us" by (cases "sy_commits s") auto
  then have "committing s u" using c unfolding commitsOk_def by (metis list.set_intros(1) mem_Collect_eq)
  then obtain ph where u: "sy_task s u = Some ph" "ph = Queued \<or> inBody ph" unfolding committing_def by blast
  show ?thesis
  proof (cases "ph = Queued")
    case True
    obtain i where "instrOf s u = Some i" using started_instr [OF inv_parts(1) [OF inv] u(1)] by blast
    then show ?thesis using u(1) True us by (auto intro: pipelineStep.intros)
  next
    case False
    then have "busy ph" using u(2) by (cases ph) auto
    then show ?thesis by (rule busy_step [OF inv u(1)])
  qed
qed

lemma holding_step:
  assumes "pipelineInv s" "holding s u"
  shows "\<exists>s'. pipelineStep digest s s'"
proof -
  obtain ph where ph: "sy_task s u = Some ph" "holdsResources ph" using assms(2) by (auto simp: holding_def)
  then have "ph = Queued \<or> busy ph" by (cases ph) auto
  then show ?thesis using queued_step [OF assms(1)] busy_step [OF assms(1)] ph(1) by blast
qed

lemma live_step:
  assumes inv: "pipelineInv s" and t: "sy_task s t = Some ph" "settledOf ph = None" "\<not> isJoined ph"
  shows "\<exists>s'. pipelineStep digest s s'"
proof -
  consider "busy ph" | "ph = Queued" | "ph = Waiting" using t(2,3) by (cases ph) auto
  then show ?thesis
  proof cases
    case 3
    then have "t \<in> fst ` set (sy_waiters s)" using inv_parts(6) [OF inv] t(1) by (simp add: waitersOk_def)
    then obtain w where "w \<in> set (sy_waiters s)" by blast
    then obtain r where "r \<in> sy_held s" using inv_parts(9) [OF inv] unfolding blockedOk_def by blast
    then obtain u where "holding s u" using inv_parts(7) [OF inv] unfolding heldOk_def by blast
    then show ?thesis by (rule holding_step [OF inv])
  qed (use busy_step [OF inv t(1)] queued_step [OF inv] t(1) in blast)+
qed

lemma never_stuck:
  assumes inv: "pipelineInv s" and open': "\<not> allFinished s"
  shows "\<exists>s'. pipelineStep digest s s'"
proof -
  obtain p where p: "p < sy_count s" "\<forall>r. pi_loop (sy_pipe s p) \<noteq> Finished r" using open' by (auto simp: allFinished_def)
  show ?thesis
  proof (cases "pi_loop (sy_pipe s p)")
    case Ready
    then show ?thesis using p(1) by (auto intro: pipelineStep.intros)
  next
    case Racing
    then have "pi_active (sy_pipe s p) \<noteq> []" using inv_parts(10) [OF inv] p(1) by (simp add: loops_def)
    then obtain x where x: "x \<in> set (pi_active (sy_pipe s p))" by (cases "pi_active (sy_pipe s p)") auto
    show ?thesis
    proof (cases "isDone (sy_pipe s p) x")
      case True
      then have "list_ex (isDone (sy_pipe s p)) (pi_active (sy_pipe s p))" using x by (auto simp: list_ex_iff)
      then show ?thesis using p(1) Racing by (auto intro: pipelineStep.intros)
    next
      case False
      then have "x \<in> idsOf (prog s p)" using cellsN [OF inv_parts(1) [OF inv], of p x] p(1) x by (auto simp: emptyCell_def)
      from cellsD [OF inv_parts(1) [OF inv] p(1) this] obtain ph where ph: "sy_task s (p, x) = Some ph" "settledOf ph = None"
        using x False by (auto simp: cellOf_def cellOk_def isDone_def split: option.splits)
      show ?thesis
      proof (cases ph)
        case (Joined u)
        then have "leads s u" using inv_parts(5) [OF inv] ph(1) unfolding joins_def by blast
        then obtain ph' where u: "sy_task s u = Some ph'" "\<not> isJoined ph'" by (auto simp: leads_def)
        show ?thesis
        proof (cases "settledOf ph'")
          case None
          then show ?thesis using live_step [OF inv u(1)] u(2) by simp
        next
          case (Some r)
          then have "ph' = Settled r" by (cases ph') auto
          then show ?thesis using u(1) ph(1) Joined by (auto intro: pipelineStep.intros)
        qed
      qed (use live_step [OF inv ph] in simp_all)
    qed
  next
    case (Finished r)
    then show ?thesis using p(2) by simp
  qed
qed

section \<open>The weight\<close>

fun phaseRank :: "nat \<Rightarrow> phase \<Rightarrow> nat" where
  "phaseRank n Waiting = n + 10"
| "phaseRank n Granted = n + 9"
| "phaseRank n Queued = n + 8"
| "phaseRank n (Checking k) = n - k + 6"
| "phaseRank n Executing = 5"
| "phaseRank n (Ran r) = 4"
| "phaseRank n (Left r) = 3"
| "phaseRank n (Returned r) = 2"
| "phaseRank n (Joined u) = 2"
| "phaseRank n (Settled r) = 0"

definition checksOf :: "sys \<Rightarrow> nat \<Rightarrow> ustr \<Rightarrow> nat" where
  "checksOf s p x = length (ins_precondition (the (byId (prog s p) x)))"

fun optRank :: "nat \<Rightarrow> phase option \<Rightarrow> nat" where
  "optRank n None = 0"
| "optRank n (Some ph) = phaseRank n ph"

definition taskRank :: "sys \<Rightarrow> nat \<Rightarrow> ustr \<Rightarrow> nat" where
  "taskRank s p x = optRank (checksOf s p x) (sy_task s (p, x))"

definition idRank :: "sys \<Rightarrow> nat \<Rightarrow> ustr \<Rightarrow> nat" where
  "idRank s p x = (if x \<in> set (pi_pending (sy_pipe s p)) then checksOf s p x + 20 else 0)
     + (if x \<in> set (pi_active (sy_pipe s p)) then 1 else 0) + taskRank s p x"

definition loopRank :: "pipe \<Rightarrow> nat" where
  "loopRank q = (if pi_loop q = Ready then 1 else 0) + (if pi_aborted q then 0 else 1)"

definition pipeRank :: "sys \<Rightarrow> nat \<Rightarrow> nat" where
  "pipeRank s p = 2 * (\<Sum>x \<in> idsOf (prog s p). idRank s p x) + loopRank (sy_pipe s p)"

definition sysRank :: "sys \<Rightarrow> nat" where
  "sysRank s = (\<Sum>p < sy_count s. pipeRank s p)"

definition lower :: "sys \<Rightarrow> sys \<Rightarrow> bool" where
  "lower s s' \<longleftrightarrow> sy_count s' = sy_count s \<and> samePrograms s s' \<and> (\<forall>p x. idRank s' p x \<le> idRank s p x)"

lemma finite_ids [simp]: "finite (idsOf pg)"
  by (simp add: idsOf_def)

lemma lower_sum: "lower s s' \<Longrightarrow> (\<Sum>x \<in> idsOf (prog s' p). idRank s' p x) \<le> (\<Sum>x \<in> idsOf (prog s p). idRank s p x)"
  by (simp add: lower_def samePrograms_def sum_mono)

lemma lower_sum_strict:
  assumes "lower s s'" "x \<in> idsOf (prog s p)" "idRank s' p x < idRank s p x"
  shows "(\<Sum>x \<in> idsOf (prog s' p). idRank s' p x) < (\<Sum>x \<in> idsOf (prog s p). idRank s p x)"
proof -
  have "prog s' p = prog s p" using assms(1) by (simp add: lower_def samePrograms_def)
  then show ?thesis using assms by (simp add: lower_def) (rule sum_strict_mono_ex1, auto)
qed

lemma rank_step:
  assumes "lower s s'" "\<And>j. j \<noteq> p \<Longrightarrow> loopRank (sy_pipe s' j) \<le> loopRank (sy_pipe s j)" "p < sy_count s" "pipeRank s' p < pipeRank s p"
  shows "sysRank s' < sysRank s"
proof -
  have "pipeRank s' j \<le> pipeRank s j" for j
    using lower_sum [OF assms(1), of j] assms(2) [of j] assms(4) by (cases "j = p") (simp_all add: pipeRank_def)
  then have "(\<Sum>j < sy_count s. pipeRank s' j) < (\<Sum>j < sy_count s. pipeRank s j)"
    using assms(3,4) by (intro sum_strict_mono_ex1) auto
  then show ?thesis using assms(1) by (simp add: sysRank_def lower_def)
qed

text \<open>A step of one instruction: its phase goes down, the loops stay.\<close>

lemma rank_task:
  assumes low: "lower s s'" and t: "fst t < sy_count s" "snd t \<in> idsOf (prog s (fst t))" "idRank s' (fst t) (snd t) < idRank s (fst t) (snd t)"
    and loops: "\<And>j. loopRank (sy_pipe s' j) = loopRank (sy_pipe s j)"
  shows "sysRank s' < sysRank s"
  by (rule rank_step [OF low _ t(1)]) (use lower_sum_strict [OF low t(2,3)] loops in \<open>simp_all add: pipeRank_def\<close>)

lemma checks_same: "samePrograms s s' \<Longrightarrow> checksOf s' p x = checksOf s p x"
  by (simp add: checksOf_def samePrograms_def)

text \<open>Draining only turns waiting into granted.\<close>

lemma drained_task:
  assumes "waitersOk s"
  shows "sy_task (drainWaiters s) u = sy_task s u \<or> sy_task s u = Some Waiting \<and> sy_task (drainWaiters s) u = Some Granted"
proof -
  obtain ws held granted where d: "drainList (sy_waiters s) (sy_held s) = (ws, held, granted)"
    by (cases "drainList (sy_waiters s) (sy_held s)") auto
  have p: "distinct (map fst (sy_waiters s))" "\<forall>w \<in> set (sy_waiters s). set (snd w) = cost s (fst w)"
    using assms by (simp_all add: waitersOk_def)
  have "set granted = fst ` set (sy_waiters s) - fst ` set ws" using drainList_spec [OF d p] by (elim conjE) assumption
  then have "u \<in> set granted \<Longrightarrow> sy_task s u = Some Waiting" using assms unfolding waitersOk_def by blast
  then show ?thesis by (simp add: drainWaiters_def d)
qed

lemma drained_pipe [simp]: "sy_pipe (drainWaiters s) = sy_pipe s" "sy_count (drainWaiters s) = sy_count s"
  by (simp_all add: drainWaiters_def split: prod.splits)

lemma idRank_task:
  assumes "sy_pipe s' = sy_pipe s" "sy_task s (p, x) = Some ph" "sy_task s' (p, x) = Some ph'"
    "phaseRank (checksOf s p x) ph' \<le> phaseRank (checksOf s p x) ph"
  shows "idRank s' p x \<le> idRank s p x"
  using assms checks_same [OF same_pipes [OF assms(1)]] by (simp add: idRank_def taskRank_def)

lemma rank_advance:
  assumes inv: "pipelineInv s" and old: "sy_task s t = Some ph" and same: "sy_pipe s' = sy_pipe s" "sy_count s' = sy_count s"
    and new: "sy_task s' t = Some ph'" "phaseRank (checksOf s (fst t) (snd t)) ph' < phaseRank (checksOf s (fst t) (snd t)) ph"
    and others: "\<And>u. u \<noteq> t \<Longrightarrow> sy_task s' u = sy_task s u \<or> sy_task s u = Some Waiting \<and> sy_task s' u = Some Granted"
  shows "sysRank s' < sysRank s"
proof (rule rank_task)
  note checks = checks_same [OF same_pipes [OF same(1)]]
  have "idRank s' p x \<le> idRank s p x" for p x
  proof (cases "(p, x) = t")
    case True
    then show ?thesis using idRank_task [OF same(1), of p x ph ph'] old new by auto
  next
    case False
    from others [OF this] show ?thesis by (auto simp: idRank_def taskRank_def same(1) checks)
  qed
  then show "lower s s'" by (simp add: lower_def same same_pipes)
  show "idRank s' (fst t) (snd t) < idRank s (fst t) (snd t)"
    using old new by (simp add: idRank_def taskRank_def same(1) checks)
qed (use started_instr [OF inv_parts(1) [OF inv] old] same in simp_all)

lemma rank_settles:
  assumes inv: "pipelineInv s" and old: "sy_task s t = Some ph" "0 < phaseRank (checksOf s (fst t) (snd t)) ph"
    and s0: "sy_pipe s0 = sy_pipe s" "sy_task s0 = sy_task s" "sy_count s0 = sy_count s"
  shows "sysRank (complete t r (setTask t (Settled r) s0)) < sysRank s"
proof (rule rank_task)
  define s' where "s' = complete t r (setTask t (Settled r) s0)"
  have task: "sy_task s' = (sy_task s)(t \<mapsto> Settled r)" by (simp add: s'_def upd s0)
  have pipe: "pi_pending (sy_pipe s' p) = pi_pending (sy_pipe s p)" "pi_active (sy_pipe s' p) = pi_active (sy_pipe s p)" for p
    by (simp_all add: s'_def upd s0)
  have same: "samePrograms s s'" by (simp add: samePrograms_def s'_def upd s0)
  have rank: "taskRank s' p x = (if t = (p, x) then 0 else taskRank s p x)" for p x
    by (simp add: taskRank_def task checks_same [OF same])
  have "taskRank s (fst t) (snd t) = phaseRank (checksOf s (fst t) (snd t)) ph" using old by (simp add: taskRank_def)
  then show "idRank s' (fst t) (snd t) < idRank s (fst t) (snd t)"
    using old by (simp add: idRank_def pipe rank checks_same [OF same])
  show "lower s s'" using same by (auto simp: lower_def idRank_def pipe rank checks_same [OF same]) (simp_all add: s'_def upd s0)
  show "loopRank (sy_pipe s' j) = loopRank (sy_pipe s j)" for j by (simp add: loopRank_def s'_def upd s0)
qed (use started_instr [OF inv_parts(1) [OF inv] old(1)] in simp_all)

section \<open>Turns of the loop\<close>

lemma lower_refl: "lower s s"
  by (simp add: lower_def samePrograms_def)

lemma lower_trans: "lower s t \<Longrightarrow> lower t u \<Longrightarrow> lower s u"
  unfolding lower_def samePrograms_def by (simp, meson order_trans)

definition quiet :: "sys \<Rightarrow> sys \<Rightarrow> bool" where
  "quiet s s' \<longleftrightarrow> lower s s' \<and> (\<forall>p. pi_aborted (sy_pipe s' p) = pi_aborted (sy_pipe s p) \<and> pi_loop (sy_pipe s' p) = pi_loop (sy_pipe s p)
     \<and> set (pi_active (sy_pipe s p)) \<subseteq> set (pi_active (sy_pipe s' p)))"

lemma quiet_refl: "quiet s s"
  by (simp add: quiet_def lower_refl)

lemma quiet_trans: "quiet s t \<Longrightarrow> quiet t u \<Longrightarrow> quiet s u"
  by (auto simp: quiet_def intro: lower_trans)

lemma quiet_finish: "X \<subseteq> set (pi_pending (sy_pipe s p)) \<Longrightarrow> quiet s (finishPending p X f s)"
  by (auto simp: quiet_def lower_def samePrograms_def finishPending_def upd idRank_def taskRank_def checksOf_def)

text \<open>Starting: from pending to a phase of a lower rank, and whoever the draining grants goes down too.\<close>

lemma quiet_started:
  assumes pend: "snd t \<in> set (pi_pending (sy_pipe s (fst t)))" and fresh: "sy_task s t = None"
    and ph: "optRank (checksOf s (fst t) (snd t)) (sy_task s' t) \<le> checksOf s (fst t) (snd t) + 10"
    and s': "sy_pipe s' = sy_pipe (startedAs t ph s)" "sy_count s' = sy_count s"
    and others: "\<And>u. u \<noteq> t \<Longrightarrow> sy_task s' u = sy_task s u \<or> sy_task s u = Some Waiting \<and> sy_task s' u = Some Granted"
  shows "quiet s s'"
proof -
  obtain p x where t: "t = (p, x)" by (cases t)
  have same: "samePrograms s s'" by (simp add: samePrograms_def s'(1) upd)
  note checks = checks_same [OF same]
  have pipe: "pi_pending (sy_pipe s' j) = (if j = p then removeAll x (pi_pending (sy_pipe s j)) else pi_pending (sy_pipe s j))"
    "pi_active (sy_pipe s' j) = (if j = p then pi_active (sy_pipe s j) @ [x] else pi_active (sy_pipe s j))"
    "pi_loop (sy_pipe s' j) = pi_loop (sy_pipe s j)" "pi_aborted (sy_pipe s' j) = pi_aborted (sy_pipe s j)" for j
    by (auto simp: s'(1) upd t)
  have "idRank s' j y \<le> idRank s j y" for j y
  proof (cases "(j, y) = t")
    case True
    then show ?thesis using pend fresh ph by (simp add: idRank_def taskRank_def checks pipe t)
  next
    case False
    from others [OF this] False show ?thesis by (auto simp: idRank_def taskRank_def pipe checks t)
  qed
  then have "lower s s'" using same s'(2) by (simp add: lower_def)
  then show ?thesis by (auto simp: quiet_def pipe)
qed

lemma mayStart_fresh:
  assumes "pipelineInv s" "mayStart s t"
  shows "sy_task s t = None"
proof -
  obtain p x where t: "t = (p, x)" by (cases t)
  have p: "p < sy_count s" "x \<in> set (pi_pending (sy_pipe s p))" using assms(2) by (simp_all add: mayStart_def t)
  then have "x \<in> idsOf (prog s p)" using cellsN [OF inv_parts(1) [OF assms(1)], of p x] by (auto simp: emptyCell_def)
  from cellsD [OF inv_parts(1) [OF assms(1)] p(1) this] p(2) show ?thesis
    by (auto simp: cellOf_def cellOk_def t split: option.splits)
qed

lemma quiet_start:
  assumes inv: "pipelineInv s" and i: "instrOf s (p, ins_id i) = Some i" and t: "mayStart s (p, ins_id i)"
  shows "quiet s (start digest p i s)"
proof -
  have pend: "snd (p, ins_id i) \<in> set (pi_pending (sy_pipe s (fst (p, ins_id i))))" using t by (simp add: mayStart_def)
  note fresh = mayStart_fresh [OF inv t]
  show ?thesis
  proof (cases rule: start_cases [of digest p i s])
    case (conflict e)
    show ?thesis unfolding conflict by (rule quiet_finish) (use pend in simp)
  next
    case (joined k fp u)
    show ?thesis unfolding joined(2)
      by (rule quiet_started [OF pend fresh, of _ "Joined u"]) (simp_all add: startedAs_sel(1-6))
  next
    case (aborted k fp)
    show ?thesis unfolding aborted
      by (rule quiet_started [OF pend fresh, of _ "Returned (abortOutcome i)"]) (simp_all add: registerInFlight_sel startedAs_sel(1-6))
  next
    case (waiting k fp)
    define s1 where "s1 = enqueued k fp (p, ins_id i) i s"
    have "waitersOk s1" using core_enqueued [OF inv t i] by (simp add: s1_def core_def)
    note drained = drained_task [OF this]
    have task: "sy_task s1 = (sy_task s)((p, ins_id i) \<mapsto> Waiting)" by (simp add: s1_def enqueued_def upd)
    show ?thesis unfolding waiting s1_def [symmetric]
    proof (rule quiet_started [OF pend fresh])
      show "sy_pipe (drainWaiters s1) = sy_pipe (startedAs (p, ins_id i) Waiting s)"
        by (simp add: s1_def enqueued_def registerInFlight_sel)
      show "sy_count (drainWaiters s1) = sy_count s" by (simp add: s1_def enqueued_def upd)
      show "optRank (checksOf s (fst (p, ins_id i)) (snd (p, ins_id i))) (sy_task (drainWaiters s1) (p, ins_id i))
          \<le> checksOf s (fst (p, ins_id i)) (snd (p, ins_id i)) + 10"
        using drained [of "(p, ins_id i)"] task by auto
      show "sy_task (drainWaiters s1) u = sy_task s u \<or> sy_task s u = Some Waiting \<and> sy_task (drainWaiters s1) u = Some Granted"
        if "u \<noteq> (p, ins_id i)" for u
        using drained [of u] that by (simp add: task)
    qed
  qed
qed

lemma quiet_considerOne:
  assumes inv: "pipelineInv s" and i: "instrOf s (p, ins_id i) = Some i" and p: "p < sy_count s"
    and pend: "ins_id i \<in> set (pi_pending (sy_pipe s p))" and c: "considerOne digest p i s = Some s'"
  shows "quiet s s'"
  using assms
proof (cases rule: considerOne_cases)
  case started
  then show ?thesis using quiet_start [OF inv i] by simp
next
  case (skipped d)
  then show ?thesis using quiet_finish [of "{ins_id i}" s p] pend by simp
qed

lemma quiet_scheduleAll:
  assumes "pipelineInv s" "p < sy_count s" "distinct xs" "set xs \<subseteq> set (pi_pending (sy_pipe s p))"
    "scheduleAll digest p xs b s = (b', s')"
  shows "quiet s s' \<and> (b' \<and> \<not> b \<longrightarrow> (\<exists>x \<in> set (pi_pending (sy_pipe s p)). x \<notin> set (pi_pending (sy_pipe s' p))))"
  using assms
proof (induction xs arbitrary: b s)
  case (Cons x xs)
  show ?case
  proof (cases "pi_maxConcurrency (sy_pipe s p) \<le> length (pi_active (sy_pipe s p))")
    case True
    then show ?thesis using Cons.prems by (simp add: quiet_refl)
  next
    case room: False
    show ?thesis
    proof (cases "byId (prog s p) x")
      case None
      then have rest: "scheduleAll digest p xs b s = (b', s')" using Cons.prems(5) room by simp
      show ?thesis using Cons.IH [OF Cons.prems(1,2) _ _ rest] Cons.prems(3,4) by simp
    next
      case (Some i)
      then have x: "ins_id i = x" by (simp add: byId_Some)
      show ?thesis
      proof (cases "considerOne digest p i s")
        case None
        then have rest: "scheduleAll digest p xs b s = (b', s')" using Cons.prems(5) room Some by simp
        show ?thesis using Cons.IH [OF Cons.prems(1,2) _ _ rest] Cons.prems(3,4) by simp
      next
        case started: (Some s1)
        have i: "instrOf s (p, ins_id i) = Some i" using Some x by (simp add: instrOf_def)
        have pend: "ins_id i \<in> set (pi_pending (sy_pipe s p))" using Cons.prems(4) x by simp
        note one = considerOne_Some [OF Cons.prems(1) i Cons.prems(2) pend started, unfolded x]
        have rest: "scheduleAll digest p xs True s1 = (b', s')" using Cons.prems(5) room Some started by simp
        have s1: "pipelineInv s1" "p < sy_count s1" "set xs \<subseteq> set (pi_pending (sy_pipe s1 p))" "distinct xs"
          using one Cons.prems(2-4) by auto
        have "quiet s1 s'" using Cons.IH [OF s1(1,2,4,3) rest] by blast
        moreover have "quiet s s1" by (rule quiet_considerOne [OF Cons.prems(1) i Cons.prems(2) pend started])
        moreover have "x \<notin> set (pi_pending (sy_pipe s' p))"
          using scheduleAll_inv [OF s1(1,2,4,3) rest] one by auto
        ultimately show ?thesis using quiet_trans pend x by blast
      qed
    qed
  qed
qed (simp add: quiet_refl)

text \<open>Leaving the list of pending instructions lowers the rank whatever else happens.\<close>

lemma optRank_bound: "optRank n o' \<le> n + 10"
proof (cases o')
  case (Some ph)
  then show ?thesis by (cases ph) auto
qed simp

lemma rank_unpended:
  assumes "samePrograms s s'" "x \<in> set (pi_pending (sy_pipe s p))" "x \<notin> set (pi_pending (sy_pipe s' p))"
  shows "idRank s' p x < idRank s p x"
  using assms(2,3) optRank_bound [of "checksOf s p x" "sy_task s' (p, x)"]
  by (simp add: idRank_def taskRank_def checks_same [OF assms(1)])

lemma quiet_abortPending: "quiet s (abortPending p s)"
proof (cases "pi_aborted (sy_pipe s p)")
  case True
  then show ?thesis
    by (auto simp: abortPending_def Let_def quiet_def lower_def samePrograms_def upd idRank_def taskRank_def checksOf_def)
qed (simp add: abortPending_def Let_def quiet_refl)

lemma lower_setLoop: "lower s (setLoop p l s)"
  by (simp add: lower_def samePrograms_def setLoop_def upd idRank_def taskRank_def checksOf_def)

lemma rank_turn:
  assumes inv: "pipelineInv s" and p: "p < sy_count s" and ready: "pi_loop (sy_pipe s p) = Ready"
    and s2: "quiet s s2" and l: "l \<noteq> Ready \<or> (\<exists>x \<in> set (pi_pending (sy_pipe s p)). x \<notin> set (pi_pending (sy_pipe s2 p)))"
  shows "sysRank (setLoop p l s2) < sysRank s"
proof (rule rank_step [OF _ _ p])
  have low2: "lower s s2" using s2 by (simp add: quiet_def)
  show low: "lower s (setLoop p l s2)" using low2 lower_setLoop by (rule lower_trans)
  show "loopRank (sy_pipe (setLoop p l s2) j) \<le> loopRank (sy_pipe s j)" if "j \<noteq> p" for j
    using s2 that by (simp add: quiet_def loopRank_def setLoop_def upd)
  have same: "loopRank (sy_pipe (setLoop p l s2) p) = (if l = Ready then loopRank (sy_pipe s p) else loopRank (sy_pipe s p) - 1)"
    using s2 ready by (simp add: quiet_def loopRank_def setLoop_def upd)
  show "pipeRank (setLoop p l s2) p < pipeRank s p"
  proof (cases "l = Ready")
    case False
    then show ?thesis using same lower_sum [OF low, of p] ready by (simp add: pipeRank_def loopRank_def)
  next
    case True
    then obtain x where x: "x \<in> set (pi_pending (sy_pipe s p))" "x \<notin> set (pi_pending (sy_pipe (setLoop p l s2) p))"
      using l by (auto simp: setLoop_def upd)
    have "samePrograms s (setLoop p l s2)" using low by (simp add: lower_def)
    then have "idRank (setLoop p l s2) p x < idRank s p x" using x by (rule rank_unpended)
    moreover have "x \<in> idsOf (prog s p)" using cellsN [OF inv_parts(1) [OF inv], of p x] x(1) p by (auto simp: emptyCell_def)
    ultimately show ?thesis using lower_sum_strict [OF low] same True by (simp add: pipeRank_def)
  qed
qed

lemma rank_loopTurn:
  assumes inv: "pipelineInv s" and p: "p < sy_count s" and ready: "pi_loop (sy_pipe s p) = Ready"
  shows "sysRank (loopTurn digest p s) < sysRank s"
proof (cases "pi_pending (sy_pipe s p) = [] \<and> pi_active (sy_pipe s p) = []")
  case True
  then show ?thesis by (simp add: loopTurn_def rank_turn [OF inv p ready quiet_refl])
next
  case False
  show ?thesis
  proof (rule loopTurn_open [OF inv p False, of digest])
    fix b s1 s2
    assume s1: "s1 = abortPending p s" "pipelineInv s1" "p < sy_count s1" "distinct (pi_pending (sy_pipe s1 p))"
      and sch: "scheduleAll digest p (pi_pending (sy_pipe s1 p)) False s1 = (b, s2)"
      and b: "pi_active (sy_pipe s2 p) = [] \<Longrightarrow> pi_pending (sy_pipe s2 p) \<noteq> [] \<Longrightarrow> b"
      and turn: "loopTurn digest p s = setLoop p (if pi_active (sy_pipe s2 p) \<noteq> [] then Racing else Ready) s2"
    have q2: "quiet s1 s2" and moved: "b \<longrightarrow> (\<exists>x \<in> set (pi_pending (sy_pipe s1 p)). x \<notin> set (pi_pending (sy_pipe s2 p)))"
      using quiet_scheduleAll [OF s1(2-4) subset_refl sch] by simp_all
    have q: "quiet s s2" using quiet_abortPending q2 unfolding s1(1) by (rule quiet_trans)
    have sub: "set (pi_pending (sy_pipe s1 p)) \<subseteq> set (pi_pending (sy_pipe s p))" by (simp add: s1(1) abortPending_def Let_def upd)
    show ?thesis unfolding turn
    proof (rule rank_turn [OF inv p ready q], cases "pi_active (sy_pipe s2 p) = []")
      case True
      have "set (pi_active (sy_pipe s p)) \<subseteq> set (pi_active (sy_pipe s2 p))" using q by (simp add: quiet_def)
      then have "pi_active (sy_pipe s p) = []" using True by simp
      then have "\<exists>x. x \<in> set (pi_pending (sy_pipe s p))" using False by (cases "pi_pending (sy_pipe s p)") auto
      then have "\<exists>x \<in> set (pi_pending (sy_pipe s p)). x \<notin> set (pi_pending (sy_pipe s2 p))"
        using b [OF True] moved sub by (cases "pi_pending (sy_pipe s2 p) = []") auto
      then show "(if pi_active (sy_pipe s2 p) \<noteq> [] then Racing else Ready) \<noteq> Ready
        \<or> (\<exists>x \<in> set (pi_pending (sy_pipe s p)). x \<notin> set (pi_pending (sy_pipe s2 p)))" by blast
    qed simp
  qed
qed

lemma rank_wake:
  assumes inv: "pipelineInv s" and p: "p < sy_count s" and some: "list_ex (isDone (sy_pipe s p)) (pi_active (sy_pipe s p))"
    and racing: "pi_loop (sy_pipe s p) = Racing"
  shows "sysRank (wake p s) < sysRank s"
proof (rule rank_step [OF _ _ p])
  have same: "samePrograms s (wake p s)" by (simp add: wake_def Let_def samePrograms_def upd)
  have act: "set (pi_active (sy_pipe (wake p s) j)) \<subseteq> set (pi_active (sy_pipe s j))"
    "pi_pending (sy_pipe (wake p s) j) = pi_pending (sy_pipe s j)" "taskRank (wake p s) j x = taskRank s j x" for j x
    by (auto simp: wake_def Let_def upd taskRank_def checksOf_def)
  show low: "lower s (wake p s)"
    using same act by (auto simp: lower_def idRank_def checks_same [OF same]) (simp add: wake_def Let_def upd)
  show "loopRank (sy_pipe (wake p s) j) \<le> loopRank (sy_pipe s j)" if "j \<noteq> p" for j
    using that by (simp add: wake_def Let_def upd)
  obtain x where x: "x \<in> set (pi_active (sy_pipe s p))" "isDone (sy_pipe s p) x" using some by (auto simp: list_ex_iff)
  have "x \<notin> set (pi_active (sy_pipe (wake p s) p))" using x(2) by (simp add: wake_def Let_def upd)
  then have "idRank (wake p s) p x < idRank s p x" using x(1) by (simp add: idRank_def act(2,3) checks_same [OF same])
  moreover have "x \<in> idsOf (prog s p)" using cellsN [OF inv_parts(1) [OF inv], of p x] x(1) p by (auto simp: emptyCell_def)
  ultimately have "(\<Sum>x \<in> idsOf (prog (wake p s) p). idRank (wake p s) p x) < (\<Sum>x \<in> idsOf (prog s p). idRank s p x)"
    by (intro lower_sum_strict [OF low])
  moreover have "loopRank (sy_pipe (wake p s) p) \<le> loopRank (sy_pipe s p) + 1"
    using racing by (simp add: wake_def Let_def upd loopRank_def)
  ultimately show "pipeRank (wake p s) p < pipeRank s p" by (simp add: pipeRank_def)
qed

lemma rank_abortSignal:
  assumes "p < sy_count s" "\<not> pi_aborted (sy_pipe s p)"
  shows "sysRank (abortSignal p s) < sysRank s"
proof (rule rank_step [OF _ _ assms(1)])
  show low: "lower s (abortSignal p s)"
    by (auto simp: lower_def samePrograms_def abortSignal_def upd idRank_def taskRank_def checksOf_def)
  show "pipeRank (abortSignal p s) p < pipeRank s p"
    using lower_sum [OF low, of p] assms(2) by (simp add: pipeRank_def loopRank_def abortSignal_def upd)
qed (simp add: abortSignal_def upd)

section \<open>Every step\<close>

lemma rank_release:
  assumes "pipelineInv s" "sy_task s t = Some (Left r)" "instrOf s t = Some i"
  shows "sysRank (release t i r s) < sysRank s"
proof -
  define s1 where "s1 = (setTask t (Returned r) s)\<lparr>sy_held := sy_held s - set (resourceCost i)\<rparr>"
  have rel: "release t i r s = drainWaiters s1" by (simp add: release_def releaseResources_def s1_def upd)
  have task: "sy_task s1 = (sy_task s)(t \<mapsto> Returned r)" by (simp add: s1_def upd)
  have "waitersOk s1"
    by (rule waitersOk_cong [OF _ _ _ inv_parts(6) [OF assms(1)]]) (use assms(2) in \<open>auto simp: s1_def upd\<close>)
  note drained = drained_task [OF this]
  show ?thesis unfolding rel
  proof (rule rank_advance [OF assms(1,2)])
    show "sy_task (drainWaiters s1) t = Some (Returned r)" using drained [of t] by (simp add: task)
    show "sy_task (drainWaiters s1) u = sy_task s u \<or> sy_task s u = Some Waiting \<and> sy_task (drainWaiters s1) u = Some Granted"
      if "u \<noteq> t" for u using drained [of u] that by (simp add: task)
  qed (simp_all add: s1_def upd)
qed

lemma rank_setTask:
  assumes "pipelineInv s" "sy_task s t = Some ph"
    "phaseRank (checksOf s (fst t) (snd t)) ph' < phaseRank (checksOf s (fst t) (snd t)) ph"
  shows "sysRank (setTask t ph' s) < sysRank s"
  by (rule rank_advance [OF assms(1,2) _ _ _ assms(3)]) (simp_all add: upd)

lemma rank_decreases:
  assumes "pipelineStep digest s s'" "pipelineInv s"
  shows "sysRank s' < sysRank s"
  using assms
proof (induction rule: pipelineStep.induct)
  case (Enter s t i)
  show ?case
  proof (cases "needsCommit i")
    case True
    show ?thesis
      by (rule rank_advance [OF Enter(3,1), of _ Queued]) (simp_all add: enterRun_def True upd)
  qed (simp add: enterRun_def beginRun_def rank_setTask [OF Enter(3,1)])
next
  case (Check s t n i answer)
  have "checksOf s (fst t) (snd t) = length (ins_precondition i)" using Check(2) by (simp add: checksOf_def instrOf_def)
  then show ?case
    by (auto simp: checkOne_def split: sum.split intro!: rank_setTask [OF Check(3,1)])
next
  case (LeaveQueue s t r i)
  show ?case by (rule rank_advance [OF LeaveQueue(3,1), of _ "Left r"]) (simp_all add: leaveQueue_def upd)
next
  case (Settle s t r i)
  show ?case unfolding settle_def by (rule rank_settles [OF Settle(3,1)]) (simp_all add: upd)
next
  case (JoinSettles s t u r)
  show ?case unfolding joinSettles_def Let_def by (rule rank_settles [OF JoinSettles(3,1)]) simp_all
qed (simp_all add: rank_abortSignal rank_loopTurn rank_wake rank_release beginRun_def executorReturns_def rank_setTask)

end
