(* ===== verification/ValidatorProps.thy ===== *)
theory ValidatorProps
  imports Validator
begin

text \<open>
  Properties of the program validator: the cycle check decides acyclicity, and what an accepted
  program is known to satisfy.
\<close>

section \<open>The cycle check\<close>

definition edges :: "graph \<Rightarrow> (ustr \<times> ustr) set" where
  "edges g = {(x, y). y \<in> set (successors g x)}"

abbreviation nodes :: "graph \<Rightarrow> ustr set" where
  "nodes g \<equiv> fst ` set g"

lemma mapGet_node: "mapGet g x \<noteq> None \<longleftrightarrow> x \<in> nodes g"
proof
  assume "mapGet g x \<noteq> None"
  then obtain v where "mapGet g x = Some v" by blast
  from mapGet_Some_mem [OF this] show "x \<in> nodes g" by (metis fst_conv imageI)
next
  assume "x \<in> nodes g"
  then obtain v where "(x, v) \<in> set g" by auto
  from weak_map_of_SomeI [OF this] show "mapGet g x \<noteq> None" by (auto simp: mapGet_def)
qed

lemma successors_node: "y \<in> set (successors g x) \<Longrightarrow> y \<in> nodes g \<and> x \<in> nodes g"
proof -
  assume y: "y \<in> set (successors g x)"
  then have "mapGet g y \<noteq> None" unfolding successors_def set_filter by blast
  moreover have "mapGet g x \<noteq> None" using y unfolding successors_def set_filter by (cases "mapGet g x") auto
  ultimately show ?thesis by (simp only: mapGet_node)
qed

definition white :: "graph \<Rightarrow> (ustr, mark) jsmap \<Rightarrow> ustr set" where
  "white g m = {x \<in> nodes g. mapGet m x = None}"

lemma finite_white: "finite (white g m)"
  by (simp add: white_def)

text \<open>What a search may do to the marks and the issues.\<close>

definition extends :: "search \<Rightarrow> search \<Rightarrow> bool" where
  "extends s t \<longleftrightarrow> (\<forall>x. mapGet (fst s) x \<noteq> None \<longrightarrow> mapGet (fst t) x = mapGet (fst s) x)
     \<and> (\<forall>x. mapGet (fst s) x = None \<longrightarrow> mapGet (fst t) x \<noteq> Some Visiting)
     \<and> (\<exists>ys. snd t = snd s @ ys)"

definition settled :: "graph \<Rightarrow> search \<Rightarrow> bool" where
  "settled g s \<longleftrightarrow> (\<forall>x. mapGet (fst s) x = Some Visited \<longrightarrow> x \<in> Wellfounded.acc ((edges g)\<inverse>))"

text \<open>Every node being visited leads to \<open>i\<close>.\<close>

definition onPath :: "graph \<Rightarrow> search \<Rightarrow> ustr \<Rightarrow> bool" where
  "onPath g s i \<longleftrightarrow> (\<forall>x. mapGet (fst s) x = Some Visiting \<longrightarrow> (x, i) \<in> (edges g)\<^sup>+)"

lemma search_refl: "extends s s"
  by (simp add: extends_def)

lemma extends_trans: "extends s t \<Longrightarrow> extends t u \<Longrightarrow> extends s u"
  unfolding extends_def by (metis append.assoc option.exhaust)

lemma extends_issues: "extends s t \<Longrightarrow> extends t u \<Longrightarrow> snd u = snd s \<Longrightarrow> snd t = snd s"
  unfolding extends_def by (metis append_is_Nil_conv append_self_conv append.assoc)

lemma extends_white: "extends s t \<Longrightarrow> card (white g (fst t)) \<le> card (white g (fst s))"
  by (rule card_mono [OF finite_white]) (auto simp: white_def extends_def)

lemma onPath_extends: "extends s t \<Longrightarrow> onPath g s i \<Longrightarrow> onPath g t i"
  unfolding onPath_def extends_def by (metis option.exhaust)

definition explored :: "graph \<Rightarrow> search \<Rightarrow> search \<Rightarrow> ustr set \<Rightarrow> bool" where
  "explored g s t X \<longleftrightarrow> extends s t
     \<and> (\<forall>x \<in> X. mapGet (fst t) x \<noteq> None)
     \<and> (snd t = snd s \<longrightarrow> (\<forall>x \<in> X. mapGet (fst t) x = Some Visited) \<and> (settled g s \<longrightarrow> settled g t))
     \<and> ((\<forall>x \<in> X. onPath g s x) \<longrightarrow> acyclic (edges g) \<longrightarrow> snd t = snd s)"

lemma explored_fold:
  assumes "\<And>i s. i \<in> set ds \<Longrightarrow> card (white g (fst s)) < n \<Longrightarrow> explored g s (f i s) {i}"
    and "card (white g (fst s)) < n"
  shows "explored g s (fold f ds s) (set ds)"
  using assms
proof (induction ds arbitrary: s)
  case Nil
  then show ?case by (simp add: explored_def search_refl)
next
  case (Cons d ds)
  have one: "explored g s (f d s) {d}" using Cons.prems by simp
  then have ext: "extends s (f d s)" by (simp add: explored_def)
  have "explored g (f d s) (fold f ds (f d s)) (set ds)"
    by (rule Cons.IH) (use Cons.prems extends_white [OF ext, of g] in \<open>auto intro: le_less_trans\<close>)
  moreover from this have ext': "extends (f d s) (fold f ds (f d s))" by (simp add: explored_def)
  ultimately show ?case
    using one extends_trans [OF ext ext'] extends_issues [OF ext ext'] onPath_extends [OF ext]
    unfolding explored_def by (auto simp: extends_def)
qed

lemma explored_visit: "i \<in> nodes g \<Longrightarrow> card (white g (fst s)) < fuel \<Longrightarrow> explored g s (visit fuel g i s) {i}"
proof (induction fuel arbitrary: i s)
  case (Suc fuel)
  show ?case
  proof (cases "mapGet (fst s) i")
    case None
    define s0 :: search where "s0 = (mapSet i Visiting (fst s), snd s)"
    define s1 where "s1 = fold (visit fuel g) (successors g i) s0"
    have res: "visit (Suc fuel) g i s = (mapSet i Visited (fst s1), snd s1)"
      using None by (simp add: s0_def s1_def Let_def)
    have "white g (fst s0) = white g (fst s) - {i}" by (auto simp: white_def s0_def)
    moreover have "i \<in> white g (fst s)" using None Suc.prems by (simp add: white_def)
    ultimately have "card (white g (fst s0)) < card (white g (fst s))"
      by (metis card_Diff1_less finite_white)
    then have fuel: "card (white g (fst s0)) < fuel" using Suc.prems by simp
    have ex: "explored g s0 s1 (set (successors g i))" unfolding s1_def
      by (rule explored_fold [OF Suc.IH fuel]) (auto dest: successors_node)
    then have ext: "extends s0 s1" by (simp add: explored_def)
    have keep: "mapGet (fst s1) x = mapGet (fst s) x" if "mapGet (fst s) x \<noteq> None" for x
    proof -
      have "mapGet (fst s0) x = mapGet (fst s) x" using that None by (auto simp: s0_def)
      then show ?thesis using ext that unfolding extends_def by metis
    qed
    have new: "mapGet (fst s1) x \<noteq> Some Visiting" if "mapGet (fst s) x = None" "x \<noteq> i" for x
    proof -
      have "mapGet (fst s0) x = None" using that by (simp add: s0_def)
      then show ?thesis using ext unfolding extends_def by metis
    qed
    have grown: "\<exists>ys. snd s1 = snd s @ ys" using ext by (simp add: extends_def s0_def)
    have "extends s (mapSet i Visited (fst s1), snd s1)"
      unfolding extends_def
    proof (intro conjI allI impI)
      show "mapGet (fst (mapSet i Visited (fst s1), snd s1)) x = mapGet (fst s) x"
        if "mapGet (fst s) x \<noteq> None" for x using keep [OF that] that None by (cases "x = i") simp_all
      show "mapGet (fst (mapSet i Visited (fst s1), snd s1)) x \<noteq> Some Visiting"
        if "mapGet (fst s) x = None" for x using new [OF that] by (cases "x = i") simp_all
    qed (use grown in simp)
    moreover have "settled g (mapSet i Visited (fst s1), snd s1)" if "snd s1 = snd s" "settled g s"
    proof -
      have s0: "settled g s0" unfolding settled_def
      proof (intro allI impI)
        fix x assume "mapGet (fst s0) x = Some Visited"
        then have "mapGet (fst s) x = Some Visited" by (cases "x = i") (simp_all add: s0_def)
        then show "x \<in> Wellfounded.acc ((edges g)\<inverse>)" using that(2) unfolding settled_def by blast
      qed
      have "snd s1 = snd s0" using that(1) by (simp only: s0_def snd_conv)
      with ex s0 have s1: "settled g s1" and deps: "\<forall>x \<in> set (successors g i). mapGet (fst s1) x = Some Visited"
        unfolding explored_def by blast+
      have i: "i \<in> Wellfounded.acc ((edges g)\<inverse>)"
      proof (rule accI)
        fix y assume "(y, i) \<in> (edges g)\<inverse>"
        then have "y \<in> set (successors g i)" unfolding edges_def by blast
        then show "y \<in> Wellfounded.acc ((edges g)\<inverse>)" using s1 deps unfolding settled_def by blast
      qed
      show ?thesis unfolding settled_def
      proof (intro allI impI)
        fix x assume x: "mapGet (fst (mapSet i Visited (fst s1), snd s1)) x = Some Visited"
        show "x \<in> Wellfounded.acc ((edges g)\<inverse>)"
        proof (cases "x = i")
          case False
          then have "mapGet (fst s1) x = Some Visited" using x by simp
          then show ?thesis using s1 unfolding settled_def by blast
        qed (use i in simp)
      qed
    qed
    moreover have "snd s1 = snd s" if path: "onPath g s i" and "acyclic (edges g)"
    proof -
      have "onPath g s0 d" if "d \<in> set (successors g i)" for d
      proof -
        have e: "(i, d) \<in> edges g" using that unfolding edges_def by blast
        show ?thesis unfolding onPath_def
        proof (intro allI impI)
          fix x assume x: "mapGet (fst s0) x = Some Visiting"
          show "(x, d) \<in> (edges g)\<^sup>+"
          proof (cases "x = i")
            case False
            then have "mapGet (fst s) x = Some Visiting" using x by (simp add: s0_def)
            then have "(x, i) \<in> (edges g)\<^sup>+" using path unfolding onPath_def by blast
            then show ?thesis using e by (rule trancl_into_trancl)
          qed (use e in auto)
        qed
      qed
      then have "snd s1 = snd s0" using ex that(2) unfolding explored_def by blast
      then show ?thesis by (simp only: s0_def snd_conv)
    qed
    ultimately show ?thesis unfolding res explored_def snd_conv fst_conv by simp
  next
    case (Some m)
    show ?thesis
    proof (cases m)
      case Visiting
      then have "onPath g s i \<Longrightarrow> \<not> acyclic (edges g)" using Some by (auto simp: onPath_def acyclic_def)
      then show ?thesis using Some Visiting by (auto simp: explored_def extends_def)
    next
      case Visited
      then show ?thesis using Some by (simp add: explored_def search_refl)
    qed
  qed
qed simp

lemma cycle_check: "detectCycles g = [] \<longleftrightarrow> acyclic (edges g)"
proof -
  define s where "s = fold (visit (Suc (length g)) g) (map fst g) ([], [])"
  have "card (white g []) \<le> card (set (map fst g))" by (rule card_mono) (auto simp: white_def)
  also have "\<dots> \<le> length g" by (metis card_length length_map)
  finally have "card (white g []) \<le> length g" .
  then have ex: "explored g ([], []) s (set (map fst g))" unfolding s_def
    by (intro explored_fold [where n = "Suc (length g)"] explored_visit) simp_all
  show ?thesis
  proof
    assume "detectCycles g = []"
    then have none: "snd s = []" by (simp only: detectCycles_def s_def)
    have start: "settled g ([], [])" by (simp add: settled_def)
    from ex none start have all: "settled g s" "\<forall>x \<in> set (map fst g). mapGet (fst s) x = Some Visited"
      unfolding explored_def snd_conv by blast+
    have "x \<in> Wellfounded.acc ((edges g)\<inverse>)" for x
    proof (cases "x \<in> nodes g")
      case True
      then have "mapGet (fst s) x = Some Visited" using all(2) by (simp only: set_map)
      then show ?thesis using all(1) unfolding settled_def by blast
    next
      case False
      then have "\<And>y. (x, y) \<notin> edges g" unfolding edges_def using successors_node by blast
      then show ?thesis by (blast intro: accI)
    qed
    then have "wf ((edges g)\<inverse>)" by (simp add: wf_iff_acc)
    then show "acyclic (edges g)" using wf_acyclic acyclic_converse by blast
  next
    assume "acyclic (edges g)"
    moreover have "\<forall>x \<in> set (map fst g). onPath g ([], []) x" by (simp add: onPath_def)
    ultimately have "snd s = []" using ex unfolding explored_def snd_conv by blast
    then show "detectCycles g = []" by (simp only: detectCycles_def s_def)
  qed
qed

text \<open>C18: The cycle check decides. The validator reports a dependency cycle exactly when the
  dependency graph of the program has one.\<close>

theorem cycle_check_decides: "detectCycles g = [] \<longleftrightarrow> acyclic (edges g)"
  by (rule cycle_check)

section \<open>Accepted programs\<close>

lemma andCheck_pass [simp]: "andCheck r q = Some [] \<longleftrightarrow> r = Some [] \<and> q = Some []"
  by (auto simp: andCheck_def split: option.splits)

lemma checkAll_pass [simp]: "checkAll rs = Some [] \<longleftrightarrow> list_all (\<lambda>r. r = Some []) rs"
  by (induction rs) (simp_all add: checkAll_def)

lemma addIssue_pass [simp]: "addIssue c p \<noteq> Some []"
  by (simp add: addIssue_def)

lemma issueIf_pass [simp]: "issueIf b c p = Some [] \<longleftrightarrow> \<not> b"
  by (simp add: issueIf_def addIssue_def)

lemma lookupOpcode_known: "lookupOpcode v = Some op \<Longrightarrow> op \<in> set ISA_V1_OPCODES"
  by (auto simp: lookupOpcode_def find_Some_iff split: option.splits jval.splits simp del: set_simps)

text \<open>The loop over the instructions: without an issue every instruction is parsed, under an id of its
  own.\<close>

definition scanned :: "scanState \<Rightarrow> bool" where
  "scanned st \<longleftrightarrow> distinct (map pin_id (scan_parsed st)) \<and> set (scan_ids st) = pin_id ` set (scan_parsed st)
     \<and> pin_op ` set (scan_parsed st) \<subseteq> set ISA_V1_OPCODES"

lemma scanInstr_pass:
  assumes "scanInstr rt declared n v st = (Some [], st')" "scanned st"
  shows "scanned st' \<and> length (scan_parsed st') = Suc (length (scan_parsed st))"
proof -
  obtain fs where v: "v = VObj fs" using assms(1) by (cases v) (simp_all add: scanInstr_def Let_def)
  define i where "i = (if validId (getField fs ''id'') then textOr (getField fs ''id'') [] else lit (''#'' @ natText n))"
  obtain op where op: "lookupOpcode (getField fs ''op'') = Some op"
  proof (cases "lookupOpcode (getField fs ''op'')")
    case None
    then show ?thesis using assms(1) unfolding v scanInstr_def Let_def
      by (simp split: option.splits)
  qed
  have pass: "idCheck fs (atIndex (lit ''instructions'') n) i (scan_ids st) = Some []"
    using assms(1) unfolding v scanInstr_def Let_def jval.case op option.case i_def by simp
  have st': "st' = st\<lparr>scan_ids := setAdd i (scan_ids st), scan_outputs := addText (getField fs ''output'') (scan_outputs st),
      scan_opIds := addText (getField fs ''opId'') (scan_opIds st),
      scan_parsed := scan_parsed st @ [\<lparr>pin_value = fs, pin_op = op, pin_id = i\<rparr>]\<rparr>"
    using assms(1) unfolding v scanInstr_def Let_def jval.case op option.case i_def by simp
  have "i \<notin> set (scan_ids st)" using pass unfolding idCheck_def by simp
  then show ?thesis using assms(2) lookupOpcode_known [OF op] unfolding scanned_def st' by auto
qed

lemma scanInstrs_pass:
  "scanInstrs rt declared n vs st = (Some [], st') \<Longrightarrow> scanned st \<Longrightarrow>
   scanned st' \<and> length (scan_parsed st') = length (scan_parsed st) + length vs"
proof (induction vs arbitrary: n st)
  case (Cons v vs)
  obtain r st1 where one: "scanInstr rt declared n v st = (r, st1)" by (cases "scanInstr rt declared n v st")
  obtain q st2 where more: "scanInstrs rt declared (Suc n) vs st1 = (q, st2)"
    by (cases "scanInstrs rt declared (Suc n) vs st1")
  have "r = Some []" "q = Some []" "st2 = st'" using Cons.prems(1) one more by simp_all
  then show ?case
    using scanInstr_pass [of rt declared n v st st1] Cons.IH [of "Suc n" st1] one more Cons.prems(2) by simp
qed simp

lemma graphOf_distinct: "distinct (map pin_id is) \<Longrightarrow> graphOf is = map (\<lambda>i. (pin_id i, depsOf i)) is"
proof -
  have "fold (\<lambda>i g. mapSet (pin_id i) (depsOf i) g) is g = g @ map (\<lambda>i. (pin_id i, depsOf i)) is"
    if "distinct (map pin_id is)" "pin_id ` set is \<inter> fst ` set g = {}" for g
    using that
  proof (induction "is" arbitrary: g)
    case (Cons i "is")
    have "mapSet (pin_id i) (depsOf i) g = g @ [(pin_id i, depsOf i)]"
      using Cons.prems(2) unfolding mapSet_def by auto
    moreover have "pin_id ` set is \<inter> fst ` set (g @ [(pin_id i, depsOf i)]) = {}"
      using Cons.prems by auto
    ultimately show ?case using Cons by simp
  qed simp
  then show "distinct (map pin_id is) \<Longrightarrow> graphOf is = map (\<lambda>i. (pin_id i, depsOf i)) is"
    by (simp add: graphOf_def)
qed

text \<open>What acceptance says about each part of the computation.\<close>

lemma accepted_parts:
  assumes "validateProgram rt input opts = Some (Inr plan)"
  obtains fs isa isaCheck raw st pre where "input = VObj fs"
    and "negotiateIsa (getField fs ''isa'') (vpo_supportedIsa opts) = (Some isa, isaCheck)"
    and "getField fs ''instructions'' = Some (VArr raw)" "raw \<noteq> []" "length raw \<le> 256"
    and "scanInstrs rt (declaredIds raw) 0 raw
      \<lparr>scan_ids = [], scan_outputs = [], scan_opIds = [], scan_parsed = []\<rparr> = (Some [], st)"
    and "list_all (\<lambda>(n, i). referenceCheck (getField fs ''programId'') (scan_ids st) n i = Some []) (indexed (scan_parsed st))"
    and "detectCycles (graphOf (scan_parsed st)) = []"
    and "checkCapability fs (scan_parsed st) (buildResources (scan_parsed st)) opts = (pre, Some [])"
    and "headerChecks rt fs isaCheck = Some []"
    and "plan = planOf isa (scan_parsed st) pre"
proof -
  obtain fs where input: "input = VObj fs" using assms by (cases input) (simp_all add: validateProgram_def)
  define raw where "raw = (case getField fs ''instructions'' of Some (VArr vs) \<Rightarrow> vs | _ \<Rightarrow> [])"
  obtain isa isaCheck where isa: "negotiateIsa (getField fs ''isa'') (vpo_supportedIsa opts) = (isa, isaCheck)"
    by (cases "negotiateIsa (getField fs ''isa'') (vpo_supportedIsa opts)")
  obtain q st where scan: "scanInstrs rt (declaredIds raw) 0 raw
      \<lparr>scan_ids = [], scan_outputs = [], scan_opIds = [], scan_parsed = []\<rparr> = (q, st)"
    by (cases "scanInstrs rt (declaredIds raw) 0 raw
      \<lparr>scan_ids = [], scan_outputs = [], scan_opIds = [], scan_parsed = []\<rparr>")
  obtain pre cap where cap: "checkCapability fs (scan_parsed st) (buildResources (scan_parsed st)) opts = (pre, cap)"
    by (cases "checkCapability fs (scan_parsed st) (buildResources (scan_parsed st)) opts")
  define refs where "refs = checkAll (map (\<lambda>(n, i). referenceCheck (getField fs ''programId'') (scan_ids st) n i)
      (indexed (scan_parsed st)))"
  define shape where "shape = checkAll [
      (case getField fs ''instructions'' of Some (VArr vs) \<Rightarrow> Some [] | _ \<Rightarrow> addIssue InvalidType (lit ''instructions'')),
      issueIf (raw = []) InvalidValue (lit ''instructions''),
      issueIf (256 < length raw) InvalidValue (lit ''instructions'')]"
  define total where "total = checkAll [headerChecks rt fs isaCheck, shape, q, refs,
      Some (detectCycles (graphOf (scan_parsed st))), cap]"
  have "validateProgram rt input opts = (case total of None \<Rightarrow> None | Some (e # es) \<Rightarrow> Some (Inl (e # es))
      | Some [] \<Rightarrow> (case isa of None \<Rightarrow> Some (Inl []) | Some v \<Rightarrow> Some (Inr (planOf v (scan_parsed st) pre))))"
    unfolding validateProgram_def input jval.case Let_def raw_def [symmetric] isa split scan cap total_def shape_def refs_def
    by (rule refl)
  with assms obtain v where ok: "total = Some []" "isa = Some v" "plan = planOf v (scan_parsed st) pre"
    by (auto split: option.splits list.splits)
  from ok(1) have parts: "headerChecks rt fs isaCheck = Some []" "shape = Some []" "q = Some []" "refs = Some []"
    "detectCycles (graphOf (scan_parsed st)) = []" "cap = Some []"
    unfolding total_def by simp_all
  from parts(2) obtain vs where arr: "getField fs ''instructions'' = Some (VArr vs)" "raw \<noteq> []" "length raw \<le> 256"
    unfolding shape_def by (auto split: option.splits jval.splits)
  then have arr': "getField fs ''instructions'' = Some (VArr raw)" by (simp add: raw_def)
  have "list_all (\<lambda>(n, i). referenceCheck (getField fs ''programId'') (scan_ids st) n i = Some []) (indexed (scan_parsed st))"
    using parts(4) unfolding refs_def by (simp add: list_all_iff split_def)
  with arr arr' show ?thesis
    using that [of fs v isaCheck raw st pre] input isa scan cap ok parts by simp
qed


lemma accepted_capability:
  assumes "validateProgram rt input opts = Some (Inr plan)"
  shows "\<exists>fs (st :: scanState) isa pre.
    checkCapability fs (scan_parsed st) (buildResources (scan_parsed st)) opts = (pre, Some [])
    \<and> plan = planOf isa (scan_parsed st) pre"
proof (rule accepted_parts [OF assms])
  fix fs isa pre and st :: scanState
  assume "checkCapability fs (scan_parsed st) (buildResources (scan_parsed st)) opts = (pre, Some [])"
    and "plan = planOf isa (scan_parsed st) pre"
  then show ?thesis by (intro exI conjI)
qed

lemma count_filter: "count_list (map f xs) y = length (filter (\<lambda>i. f i = y) xs)"
  by (induction xs) auto

text \<open>C17: A capability bounds what is accepted. A program accepted under a capability uses only
  opcodes in its scope, has at most \<open>concurrentOps\<close> instructions and at most \<open>processes\<close>
  \<open>proc.spawn\<close> instructions, and the capability is unexpired; a program accepted with no
  capability was validated with the requirement switched off.\<close>

theorem accepted_within_capability:
  "case validateProgram rt input opts of
     Some (Inr plan) \<Rightarrow>
       (case vpo_capability opts of
          None \<Rightarrow> vpo_requireCapability opts = Some False
        | Some c \<Rightarrow> set (map pli_op (vp_instructions plan)) \<subseteq> set (icap_opcodes c)
            \<and> int (length (vp_instructions plan)) \<le> icap_concurrentOps c
            \<and> int (count_list (map pli_op (vp_instructions plan)) ''proc.spawn'') \<le> icap_processes c
            \<and> (\<exists>t. getTime (icap_expiresAt c) = Some t \<and> vpo_now opts < t))
   | _ \<Rightarrow> True"
proof (cases "validateProgram rt input opts")
  case (Some r)
  show ?thesis
  proof (cases r)
    case (Inr plan)
    have accept: "validateProgram rt input opts = Some (Inr plan)" using Some Inr by simp
    from accepted_capability [OF accept] obtain fs isa pre and st :: scanState where
      cap: "checkCapability fs (scan_parsed st) (buildResources (scan_parsed st)) opts = (pre, Some [])"
      and plan: "plan = planOf isa (scan_parsed st) pre" by (elim exE conjE)
    have ops: "map pli_op (vp_instructions plan) = map pin_op (scan_parsed st)"
      using plan by (simp add: planOf_def comp_def)
    show ?thesis
    proof (cases "vpo_capability opts")
      case None
      then show ?thesis using cap Some Inr by (simp add: checkCapability_def)
    next
      case (Some c)
      note c = Some
      have base: "list_all (\<lambda>i. scopeCheck c i = Some []) (scan_parsed st)
          \<and> int (length (scan_parsed st)) \<le> icap_concurrentOps c
          \<and> int (length (filter (\<lambda>i. pin_op i = ''proc.spawn'') (scan_parsed st))) \<le> icap_processes c
          \<and> (\<exists>t. getTime (icap_expiresAt c) = Some t \<and> vpo_now opts < t)"
      proof -
        have "\<not> (case getTime (icap_expiresAt c) of None \<Rightarrow> True | Some t \<Rightarrow> t \<le> vpo_now opts)"
          using cap unfolding checkCapability_def c option.case Let_def
          by (cases "vpo_availableCapabilities opts") simp_all
        then have "\<exists>t. getTime (icap_expiresAt c) = Some t \<and> vpo_now opts < t"
          by (cases "getTime (icap_expiresAt c)") simp_all
        then show ?thesis
          using cap unfolding checkCapability_def c option.case Let_def
          by (cases "vpo_availableCapabilities opts") (simp_all add: buildResources_def Let_def list_all_iff not_less)
      qed
      have "set (map pin_op (scan_parsed st)) \<subseteq> set (icap_opcodes c)"
        using base by (auto simp: list_all_iff scopeCheck_def)
      moreover have "count_list (map pin_op (scan_parsed st)) ''proc.spawn''
          = length (filter (\<lambda>i. pin_op i = ''proc.spawn'') (scan_parsed st))"
        by (rule count_filter)
      moreover have "length (vp_instructions plan) = length (scan_parsed st)"
        using plan by (simp add: planOf_def)
      ultimately show ?thesis using base c \<open>validateProgram rt input opts = Some r\<close> Inr ops by simp
    qed
  qed (simp add: Some)
qed simp

section \<open>An accepted program\<close>

lemma lit_inj [simp]: "lit s = lit t \<longleftrightarrow> s = t"
proof -
  have "inj (\<lambda>c. of_nat (of_char c) :: 16 word)"
  proof (rule injI)
    fix c d :: char
    assume "(of_nat (of_char c) :: 16 word) = of_nat (of_char d)"
    then have "unat (unitOf (of_char c)) = unat (unitOf (of_char d))" by (simp add: unitOf_def)
    moreover have "of_char c < (65536 :: nat)" "of_char d < (65536 :: nat)"
      using nat_of_char_less_256 [of c] nat_of_char_less_256 [of d] by linarith+
    ultimately have "(of_char c :: nat) = of_char d" by simp
    then show "c = d" by simp
  qed
  then show ?thesis unfolding lit_def by (metis map_injective)
qed

lemma getField_Cons [simp]: "getField ((lit j, v) # fs) k = (if j = k then Some v else getField fs k)"
  by (simp add: getField_def)

lemma getField_Nil [simp]: "getField [] k = None"
  by (simp add: getField_def)

text \<open>One \<open>fs.stat\<close> instruction; the value of its \<open>id\<close> and its arguments are left open.\<close>

definition demoProgram :: "jval \<Rightarrow> (ustr \<times> jval) list \<Rightarrow> jval" where
  "demoProgram i args = VObj [(lit ''isa'', VStr (lit ''xio/1'')), (lit ''requestId'', VStr (lit ''r'')),
     (lit ''programId'', VStr (lit ''p'')), (lit ''mode'', VStr (lit ''pipeline'')),
     (lit ''instructions'', VArr [VObj ([(lit ''id'', i), (lit ''op'', VStr (lit ''fs.stat'')),
        (lit ''dependsOn'', VArr []), (lit ''precondition'', VArr []), (lit ''output'', VStr (lit ''o''))] @ args)])]"

definition demoArgs :: "(ustr \<times> jval) list" where
  "demoArgs = [(lit ''args'', VObj [(lit ''path'', VStr (lit ''/w''))])]"

definition demoRuntime :: runtime where
  "demoRuntime = \<lparr>rt_jsonBytes = (\<lambda>_. 0), rt_floatText = (\<lambda>_. [])\<rparr>"

definition demoOpts :: ValidateProgramOptions where
  "demoOpts = \<lparr>vpo_supportedIsa = None, vpo_capability = None, vpo_availableCapabilities = None, vpo_now = 0,
     vpo_requireCapability = Some False\<rparr>"

lemma demo_letters: "ID_PATTERN (lit ''r'')" "ID_PATTERN (lit ''p'')" "ID_PATTERN (lit ''o'')" "ID_PATTERN (lit ''a'')"
  "ISA_PATTERN (lit ''xio/1'') = Some (lit ''1'', None)" "ISA_PATTERN (lit ''xio/1.0'') = Some (lit ''1'', Some (lit ''0''))"
  "decimal (lit ''0'') = 0"
  by (simp_all add: ID_PATTERN_def isLower_def isUpper_def lit_def ISA_PATTERN_def isDigit_def decimal_def)

lemma demo_isa: "negotiateIsa (Some (VStr (lit ''xio/1''))) None = (Some (lit ''xio/1.0''), Some [])"
  by (simp add: negotiateIsa_def supportedMinors_def demo_letters stringField_def Let_def natText.simps digitChar_def char_of_eq_iff)

lemma demo_op: "lookupOpcode (Some (VStr (lit ''fs.stat''))) = Some ''fs.stat''"
  by (simp add: lookupOpcode_def ISA_V1_OPCODES_def)

lemma demo_pieces:
  "idCheck [(lit ''id'', i), (lit ''op'', VStr (lit ''fs.stat'')), (lit ''dependsOn'', VArr []),
      (lit ''precondition'', VArr []), (lit ''output'', VStr (lit ''o'')), (lit ''args'', a)] p x [] = Some []"
  if "i = VStr (lit ''a'') \<or> i = VInt 5"
  using that by (auto simp: idCheck_def checkKeys_def required_def INSTRUCTION_KEYS_def stringField_def demo_letters)

lemma demo_args: "validateArgs rt ''fs.stat'' (Some (VObj [(lit ''path'', VStr (lit ''/w''))])) p = Some []"
  by (simp add: validateArgs_def argRule_def ARG_RULES_def checkKeys_def required_def refArgs_def boundArgs_def
      textArgs_def ifPresent_def stringField_def)

lemma checkAll_None: "checkAll rs = None \<longleftrightarrow> None \<in> set rs"
  by (induction rs) (auto simp: checkAll_def andCheck_def split: option.splits)

definition demoInstr :: "jval \<Rightarrow> (ustr \<times> jval) list \<Rightarrow> fields" where
  "demoInstr i args = [(lit ''id'', i), (lit ''op'', VStr (lit ''fs.stat'')), (lit ''dependsOn'', VArr []),
     (lit ''precondition'', VArr []), (lit ''output'', VStr (lit ''o''))] @ args"

lemma demo_parsed:
  assumes "i = VStr (lit ''a'') \<or> i = VInt 5"
  shows "\<exists>x. scanInstrs demoRuntime (declaredIds [VObj (demoInstr i demoArgs)]) 0 [VObj (demoInstr i demoArgs)]
      \<lparr>scan_ids = [], scan_outputs = [], scan_opIds = [], scan_parsed = []\<rparr>
    = (Some [], \<lparr>scan_ids = [x], scan_outputs = [lit ''o''], scan_opIds = [],
        scan_parsed = [\<lparr>pin_value = demoInstr i demoArgs, pin_op = ''fs.stat'', pin_id = x\<rparr>]\<rparr>)"
proof -
  have meta: "om_idempotency (metaOf ''fs.stat'') = ''safe''"
    by (simp add: metaOf_def ISA_V1_REGISTRY_def fsRegistry_def)
  define x where "x = (if validId (Some i) then textOr (Some i) [] else lit (''#'' @ natText 0))"
  have ids: "idCheck (demoInstr i demoArgs) p x [] = Some []" for p
    using demo_pieces [OF assms] by (simp add: demoInstr_def demoArgs_def)
  have fields: "getField (demoInstr i demoArgs) ''id'' = Some i"
    "getField (demoInstr i demoArgs) ''op'' = Some (VStr (lit ''fs.stat''))"
    "getField (demoInstr i demoArgs) ''args'' = Some (VObj [(lit ''path'', VStr (lit ''/w''))])"
    "getField (demoInstr i demoArgs) ''dependsOn'' = Some (VArr [])"
    "getField (demoInstr i demoArgs) ''precondition'' = Some (VArr [])"
    "getField (demoInstr i demoArgs) ''output'' = Some (VStr (lit ''o''))"
    "getField (demoInstr i demoArgs) ''opId'' = None"
    by (simp_all add: demoInstr_def demoArgs_def)
  have "scanInstr demoRuntime declared 0 (VObj (demoInstr i demoArgs))
      \<lparr>scan_ids = [], scan_outputs = [], scan_opIds = [], scan_parsed = []\<rparr>
    = (Some [], \<lparr>scan_ids = [x], scan_outputs = [lit ''o''], scan_opIds = [],
        scan_parsed = [\<lparr>pin_value = demoInstr i demoArgs, pin_op = ''fs.stat'', pin_id = x\<rparr>]\<rparr>)" for declared
    unfolding scanInstr_def Let_def jval.case fields demo_op option.case x_def [symmetric]
    by (simp add: ids demo_args listChecks_def fields indexed_def outputCheck_def stringField_def demo_letters
        opIdCheck_def meta setAdd_def addText_def)
  then show ?thesis by (intro exI [of _ x]) simp
qed

lemma demo_header: "headerChecks demoRuntime
   [(lit ''isa'', VStr (lit ''xio/1'')), (lit ''requestId'', VStr (lit ''r'')),
     (lit ''programId'', VStr (lit ''p'')), (lit ''mode'', VStr (lit ''pipeline'')),
     (lit ''instructions'', VArr [VObj (demoInstr i demoArgs)])] (Some []) = Some []"
  if "i = VStr (lit ''a'') \<or> i = VInt 5"
proof -
  have "assertJsonValue n p i = None" for n p using that by auto
  then have "assertJsonValue ''value'' [] (VObj [(lit ''isa'', VStr (lit ''xio/1'')), (lit ''requestId'', VStr (lit ''r'')),
     (lit ''programId'', VStr (lit ''p'')), (lit ''mode'', VStr (lit ''pipeline'')),
     (lit ''instructions'', VArr [VObj (demoInstr i demoArgs)])]) = None"
    by (simp add: demoInstr_def demoArgs_def)
  then show ?thesis
    by (simp add: headerChecks_def demoRuntime_def checkKeys_def required_def PROGRAM_KEYS_def stringField_def
        demo_letters wordCheck_def)
qed

text \<open>The validator accepts the program, and it accepts it with a number for the instruction's id as well:
  only ids that are strings are checked.\<close>

lemma demo_accepted:
  assumes "i = VStr (lit ''a'') \<or> i = VInt 5"
  shows "\<exists>plan. validateProgram demoRuntime (demoProgram i demoArgs) demoOpts = Some (Inr plan)"
proof -
  let ?fs = "[(lit ''isa'', VStr (lit ''xio/1'')), (lit ''requestId'', VStr (lit ''r'')),
     (lit ''programId'', VStr (lit ''p'')), (lit ''mode'', VStr (lit ''pipeline'')),
     (lit ''instructions'', VArr [VObj (demoInstr i demoArgs)])]"
  have prog: "demoProgram i demoArgs = VObj ?fs" by (simp add: demoProgram_def demoInstr_def)
  have opts: "vpo_supportedIsa demoOpts = None" "vpo_capability demoOpts = None"
    "vpo_requireCapability demoOpts = Some False" by (simp_all add: demoOpts_def)
  have fields: "getField ?fs ''isa'' = Some (VStr (lit ''xio/1''))"
    "getField ?fs ''instructions'' = Some (VArr [VObj (demoInstr i demoArgs)])" by simp_all
  obtain x where scan: "scanInstrs demoRuntime (declaredIds [VObj (demoInstr i demoArgs)]) 0 [VObj (demoInstr i demoArgs)]
      \<lparr>scan_ids = [], scan_outputs = [], scan_opIds = [], scan_parsed = []\<rparr>
    = (Some [], \<lparr>scan_ids = [x], scan_outputs = [lit ''o''], scan_opIds = [],
        scan_parsed = [\<lparr>pin_value = demoInstr i demoArgs, pin_op = ''fs.stat'', pin_id = x\<rparr>]\<rparr>)"
    using demo_parsed [OF assms] by blast
  have deps: "depsOf \<lparr>pin_value = demoInstr i demoArgs, pin_op = ''fs.stat'', pin_id = x\<rparr> = []"
    by (simp add: depsOf_def demoInstr_def textsOf_def)
  have args: "getField (demoInstr i demoArgs) ''args'' = Some (VObj [(lit ''path'', VStr (lit ''/w''))])"
    by (simp add: demoInstr_def demoArgs_def)
  have cyc: "detectCycles (graphOf [\<lparr>pin_value = demoInstr i demoArgs, pin_op = ''fs.stat'', pin_id = x\<rparr>]) = []"
    by (simp add: detectCycles_def graphOf_def deps mapSet_def successors_def mapGet_def)
  have pass: "checkAll [headerChecks demoRuntime ?fs (Some []), Some [], Some [], Some [], Some [], Some []] = Some []"
    using demo_header [OF assms] by simp
  have cap: "checkCapability ?fs is est demoOpts = (PreNotRequested, Some [])" for "is" est
    by (simp add: checkCapability_def opts)
  have refs: "checkAll (map (\<lambda>(n, i). referenceCheck pid [x] n i)
      (indexed [\<lparr>pin_value = demoInstr i demoArgs, pin_op = ''fs.stat'', pin_id = x\<rparr>])) = Some []" for pid
    by (simp add: indexed_def referenceCheck_def deps args)
  have shape: "checkAll [Some [], issueIf ([VObj (demoInstr i demoArgs)] = []) InvalidValue (lit ''instructions''),
      issueIf (256 < length [VObj (demoInstr i demoArgs)]) InvalidValue (lit ''instructions'')] = Some []"
    by simp
  show ?thesis
    unfolding prog validateProgram_def jval.case opts demo_isa fields Let_def split option.case scan scanState.simps
      refs cap cyc shape pass list.case by blast
qed

text \<open>Without \<open>args\<close> it throws as soon as a capability is given.\<close>

definition demoCap :: IsaCapability where
  "demoCap = \<lparr>icap_id = lit ''cap:c'', icap_policyVersion = ''1'', icap_reason = ''r'', icap_opcodes = [''fs.stat''],
     icap_workspaces = [], icap_paths = [lit ''**''], icap_secrets = [], icap_concurrentOps = 4, icap_processes = 1,
     icap_outputBytes = 1, icap_expiresAt = Iso 9, icap_epoch = 0\<rparr>"

lemma scopeCheck_throws: "getField (pin_value i) ''args'' = None \<Longrightarrow> scopeCheck c i = None"
  by (simp add: scopeCheck_def argsOf_def andCheck_def split: option.split)

lemma missing_args_throw:
  assumes "vpo_capability opts = Some c" "getField fs ''instructions'' = Some (VArr raw)"
    and "scanInstrs rt (declaredIds raw) 0 raw
      \<lparr>scan_ids = [], scan_outputs = [], scan_opIds = [], scan_parsed = []\<rparr> = (r, st)"
    and "i \<in> set (scan_parsed st)" "getField (pin_value i) ''args'' = None"
  shows "validateProgram rt (VObj fs) opts = None"
proof -
  have "None \<in> scopeCheck c ` set (scan_parsed st)"
    using assms(4) scopeCheck_throws [OF assms(5), of c] by (metis imageI)
  then have none: "checkAll (a @ map (scopeCheck c) (scan_parsed st) @ b) = None" for a b
    by (simp add: checkAll_None)
  obtain pre where cap: "checkCapability fs (scan_parsed st) (buildResources (scan_parsed st)) opts = (pre, None)"
    unfolding checkCapability_def assms(1) option.case Let_def none
    by (cases "vpo_availableCapabilities opts") (simp_all add: andCheck_def)
  obtain isa isaCheck where isa: "negotiateIsa (getField fs ''isa'') (vpo_supportedIsa opts) = (isa, isaCheck)"
    by (cases "negotiateIsa (getField fs ''isa'') (vpo_supportedIsa opts)")
  have "checkAll [x1, x2, x3, x4, x5, None] = None" for x1 x2 x3 x4 x5 by (simp add: checkAll_None)
  then show ?thesis
    unfolding validateProgram_def jval.case isa assms(2) Let_def split option.case assms(3) cap by simp
qed

lemma demo_throws: "validateProgram demoRuntime (demoProgram (VStr (lit ''a'')) []) (demoOpts\<lparr>vpo_capability := Some demoCap\<rparr>) = None"
proof -
  define i where "i = demoInstr (VStr (lit ''a'')) []"
  have fields: "getField i ''id'' = Some (VStr (lit ''a''))" "getField i ''op'' = Some (VStr (lit ''fs.stat''))"
    "getField i ''args'' = None" by (simp_all add: i_def demoInstr_def)
  obtain r st where scan: "scanInstrs demoRuntime (declaredIds [VObj i]) 0 [VObj i]
      \<lparr>scan_ids = [], scan_outputs = [], scan_opIds = [], scan_parsed = []\<rparr> = (r, st)"
    by (cases "scanInstrs demoRuntime (declaredIds [VObj i]) 0 [VObj i]
      \<lparr>scan_ids = [], scan_outputs = [], scan_opIds = [], scan_parsed = []\<rparr>")
  have st: "scan_parsed st = [\<lparr>pin_value = i, pin_op = ''fs.stat'', pin_id = lit ''a''\<rparr>]"
    using scan by (auto simp: scanInstr_def fields demo_op validId_def demo_letters textOr_def Let_def split: prod.splits)
  have mem: "\<lparr>pin_value = i, pin_op = ''fs.stat'', pin_id = lit ''a''\<rparr> \<in> set (scan_parsed st)" by (simp add: st)
  have noargs: "getField (pin_value \<lparr>pin_value = i, pin_op = ''fs.stat'', pin_id = lit ''a''\<rparr>) ''args'' = None"
    by (simp add: fields)
  show ?thesis unfolding demoProgram_def i_def [unfolded demoInstr_def, symmetric]
    by (rule missing_args_throw [OF _ _ scan mem noargs, of _ demoCap]) (simp_all add: demoOpts_def)
qed

end
