(* ===== verification/PipelineProps.thy ===== *)
theory PipelineProps
  imports PipelineRank ValidatorProps
begin

text \<open>
  What the pipeline executor guarantees for the programs the validator accepts, several of them
  running against one coordinator: every run ends with a result for every instruction, what executes
  was allowed to, and the concurrency limit is kept.
\<close>

declare split_paired_All [simp del] split_paired_Ex [simp del]

section \<open>Accepted programs are well formed\<close>

text \<open>The schema asks for ids that are strings; the validator does not check it.\<close>

definition instrFields :: "fields \<Rightarrow> fields list" where
  "instrFields fs = concat (map (\<lambda>v. case v of VObj gs \<Rightarrow> [gs] | _ \<Rightarrow> [])
     (case getField fs ''instructions'' of Some (VArr vs) \<Rightarrow> vs | _ \<Rightarrow> []))"

definition stringIds :: "jval \<Rightarrow> bool" where
  "stringIds input = (case input of VObj fs \<Rightarrow>
     list_all (\<lambda>gs. case getField gs ''id'' of Some (VStr x) \<Rightarrow> True | _ \<Rightarrow> False) (instrFields fs) | _ \<Rightarrow> True)"

lemma programOf_instructions: "pg_instructions (programOf fs) = map instructionOf (instrFields fs)"
proof -
  have "concat (map (\<lambda>v. case v of VObj gs \<Rightarrow> [instructionOf gs] | _ \<Rightarrow> []) vs)
    = map instructionOf (concat (map (\<lambda>v. case v of VObj gs \<Rightarrow> [gs] | _ \<Rightarrow> []) vs))" for vs
    by (induction vs) (auto split: jval.splits)
  then show ?thesis by (simp add: programOf_def instrFields_def)
qed

definition readAs :: "jval \<Rightarrow> parsedInstr \<Rightarrow> bool" where
  "readAs v i \<longleftrightarrow> v = VObj (pin_value i) \<and> (\<forall>x. getField (pin_value i) ''id'' = Some (VStr x) \<longrightarrow> pin_id i = x \<and> ID_PATTERN x)"

lemma scanInstr_reads:
  assumes "scanInstr rt declared n v st = (Some [], st')"
  shows "\<exists>i. scan_parsed st' = scan_parsed st @ [i] \<and> readAs v i"
proof -
  obtain fs where v: "v = VObj fs" using assms by (cases v) (simp_all add: scanInstr_def Let_def)
  define x where "x = (if validId (getField fs ''id'') then textOr (getField fs ''id'') [] else lit (''#'' @ natText n))"
  obtain op where op: "lookupOpcode (getField fs ''op'') = Some op"
  proof (cases "lookupOpcode (getField fs ''op'')")
    case None
    then show ?thesis using assms unfolding v scanInstr_def Let_def by (simp split: option.splits)
  qed
  have pass: "idCheck fs (atIndex (lit ''instructions'') n) x (scan_ids st) = Some []"
    using assms unfolding v scanInstr_def Let_def jval.case op option.case x_def by simp
  have parsed: "scan_parsed st' = scan_parsed st @ [\<lparr>pin_value = fs, pin_op = op, pin_id = x\<rparr>]"
    using assms unfolding v scanInstr_def Let_def jval.case op option.case x_def by auto
  have "x = y \<and> ID_PATTERN y" if y: "getField fs ''id'' = Some (VStr y)" for y
  proof -
    have "ID_PATTERN y" using pass unfolding idCheck_def by (auto simp: y stringField_def)
    then show ?thesis by (simp add: x_def y validId_def textOr_def)
  qed
  then show ?thesis using parsed by (simp add: readAs_def v)
qed

lemma scanInstrs_reads:
  "scanInstrs rt declared n vs st = (Some [], st') \<Longrightarrow> \<exists>is. scan_parsed st' = scan_parsed st @ is \<and> list_all2 readAs vs is"
proof (induction vs arbitrary: n st)
  case (Cons v vs)
  obtain r st1 where one: "scanInstr rt declared n v st = (r, st1)" by (cases "scanInstr rt declared n v st")
  obtain q st2 where more: "scanInstrs rt declared (Suc n) vs st1 = (q, st2)" by (cases "scanInstrs rt declared (Suc n) vs st1")
  have ok: "r = Some []" "q = Some []" "st2 = st'" using Cons.prems one more by simp_all
  obtain i where i: "scan_parsed st1 = scan_parsed st @ [i]" "readAs v i" using scanInstr_reads one ok(1) by blast
  from more ok have "scanInstrs rt declared (Suc n) vs st1 = (Some [], st')" by simp
  from Cons.IH [OF this] obtain "is" where "scan_parsed st' = scan_parsed st1 @ is" "list_all2 readAs vs is" by blast
  then show ?case using i by (intro exI [of _ "i # is"]) simp
qed simp

lemma reads_fields: "list_all2 readAs vs is \<Longrightarrow> concat (map (\<lambda>v. case v of VObj gs \<Rightarrow> [gs] | _ \<Rightarrow> []) vs) = map pin_value is"
  by (induction rule: list_all2_induct) (auto simp: readAs_def)

lemma ID_nonempty: "ID_PATTERN x \<Longrightarrow> x \<noteq> []"
  by (auto simp: ID_PATTERN_def)

lemma accepted_wf:
  assumes "validateProgram rt (VObj fs) opts = Some (Inr plan)" "stringIds (VObj fs)"
  shows "wfProgram (programOf fs)"
proof -
  obtain raw st where arr: "getField fs ''instructions'' = Some (VArr raw)"
    and scan: "scanInstrs rt (declaredIds raw) 0 raw
      \<lparr>scan_ids = [], scan_outputs = [], scan_opIds = [], scan_parsed = []\<rparr> = (Some [], st)"
    and refs: "list_all (\<lambda>(n, i). referenceCheck (getField fs ''programId'') (scan_ids st) n i = Some []) (indexed (scan_parsed st))"
    and cyc: "detectCycles (graphOf (scan_parsed st)) = []"
    using assms(1) by (elim accepted_parts) simp
  have reads: "list_all2 readAs raw (scan_parsed st)" using scanInstrs_reads [OF scan] by auto
  have fields: "instrFields fs = map pin_value (scan_parsed st)"
    using reads_fields [OF reads] by (simp add: instrFields_def arr)
  have st: "distinct (map pin_id (scan_parsed st))" "set (scan_ids st) = pin_id ` set (scan_parsed st)"
    using scanInstrs_pass [OF scan] by (simp_all add: scanned_def)
  have pin: "ins_id (instructionOf (pin_value i)) = pin_id i \<and> pin_id i \<noteq> []" if mem: "i \<in> set (scan_parsed st)" for i
  proof -
    obtain v where "readAs v i" using reads mem by (auto simp: list_all2_conv_all_nth in_set_conv_nth)
    moreover have "case getField (pin_value i) ''id'' of Some (VStr x) \<Rightarrow> True | _ \<Rightarrow> False"
      using assms(2) mem by (simp add: stringIds_def fields list_all_iff)
    then obtain x where "getField (pin_value i) ''id'' = Some (VStr x)" by (auto split: option.splits jval.splits)
    ultimately show ?thesis using ID_nonempty by (auto simp: readAs_def instructionOf_def textOr_def)
  qed
  have instrs: "pg_instructions (programOf fs) = map (\<lambda>i. instructionOf (pin_value i)) (scan_parsed st)"
    by (simp add: programOf_instructions fields)
  have ids: "map ins_id (pg_instructions (programOf fs)) = map pin_id (scan_parsed st)" using pin by (simp add: instrs)
  have dependsOn: "ins_dependsOn (instructionOf (pin_value i)) = depsOf i" for i by (simp add: instructionOf_def depsOf_def)
  have idset: "idsOf (programOf fs) = set (scan_ids st)" using ids st(2) by (metis idsOf_def set_map)
  have deps: "set (depsOf i) \<subseteq> set (scan_ids st)" if mem: "i \<in> set (scan_parsed st)" for i
  proof -
    obtain n where "n < length (scan_parsed st)" "scan_parsed st ! n = i" using mem by (auto simp: in_set_conv_nth)
    then have "(n, i) \<in> set (indexed (scan_parsed st))" by (auto simp: indexed_def set_zip intro!: exI [of _ n])
    with refs have "referenceCheck (getField fs ''programId'') (scan_ids st) n i = Some []" by (auto simp: list_all_iff)
    then show ?thesis unfolding referenceCheck_def Let_def by (auto simp: list_all_iff)
  qed
  have "depGraph (programOf fs) \<subseteq> edges (graphOf (scan_parsed st))"
  proof
    fix e assume "e \<in> depGraph (programOf fs)"
    then obtain i d where i: "i \<in> set (scan_parsed st)" "e = (pin_id i, d)" "d \<in> set (depsOf i)"
      using pin by (auto simp: depGraph_def instrs dependsOn)
    have g: "graphOf (scan_parsed st) = map (\<lambda>i. (pin_id i, depsOf i)) (scan_parsed st)" by (rule graphOf_distinct [OF st(1)])
    have "mapGet (graphOf (scan_parsed st)) (pin_id i) = Some (depsOf i)"
      using i(1) st(1) unfolding g mapGet_def by (intro map_of_is_SomeI) (auto simp: comp_def)
    moreover have "d \<in> nodes (graphOf (scan_parsed st))" using deps [OF i(1)] i(3) st(2) by (simp add: g image_image) blast
    ultimately show "e \<in> edges (graphOf (scan_parsed st))"
      unfolding i(2) edges_def successors_def set_filter using i(3) mapGet_node by auto
  qed
  then have "acyclic (depGraph (programOf fs))" using cyc cycle_check acyclic_subset by blast
  moreover have "distinct (map ins_id (pg_instructions (programOf fs)))" by (simp only: ids st(1))
  moreover have "set (ins_dependsOn i) \<subseteq> idsOf (programOf fs) \<and> ins_id i \<noteq> []" if "i \<in> set (pg_instructions (programOf fs))" for i
  proof -
    obtain j where j: "j \<in> set (scan_parsed st)" "i = instructionOf (pin_value j)" using \<open>i \<in> _\<close> by (auto simp: instrs)
    then show ?thesis using deps [OF j(1)] pin [OF j(1)] by (simp add: idset dependsOn)
  qed
  ultimately show ?thesis by (simp only: wfProgram_def) blast
qed

section \<open>The initial system\<close>

text \<open>A program that was accepted for execution.\<close>

definition admitted :: "pipe \<Rightarrow> bool" where
  "admitted q \<longleftrightarrow> (\<exists>rt opts po. executePipeline rt (pi_input q) opts po = Some (Inr q)) \<and> stringIds (pi_input q)"

lemma executePipeline_Inr:
  assumes "executePipeline rt input opts po = Some (Inr q)"
  obtains fs plan where "input = VObj fs" "validateProgram rt (VObj fs) opts = Some (Inr plan)" "q = newPipe po fs plan"
  using assms by (auto simp: executePipeline_def split: option.splits sum.splits jval.splits if_splits)

lemma admitted_new:
  assumes "admitted q"
  shows "wfProgram (pi_program q) \<and> pi_pending q = map ins_id (pg_instructions (pi_program q)) \<and> pi_completed q = Map.empty
    \<and> pi_active q = [] \<and> pi_loop q = Ready \<and> 1 \<le> pi_maxConcurrency q"
proof -
  obtain rt opts po where "executePipeline rt (pi_input q) opts po = Some (Inr q)" using assms by (auto simp: admitted_def)
  then obtain fs plan where new: "pi_input q = VObj fs" "validateProgram rt (VObj fs) opts = Some (Inr plan)" "q = newPipe po fs plan"
    by (rule executePipeline_Inr)
  have wf: "wfProgram (programOf fs)" using accepted_wf [OF new(2)] assms new(1) by (simp add: admitted_def)
  then have "remdups (map ins_id (pg_instructions (programOf fs))) = map ins_id (pg_instructions (programOf fs))"
    by (simp add: wfProgram_def distinct_remdups_id)
  then show ?thesis using wf by (simp add: new(3) newPipe_def maxConcurrencyOf_def)
qed

lemma inv_new:
  assumes "list_all admitted qs"
  shows "pipelineInv (newSystem qs)"
proof -
  have new: "wfProgram (pi_program (qs ! p)) \<and> pi_pending (qs ! p) = map ins_id (pg_instructions (pi_program (qs ! p)))
    \<and> pi_completed (qs ! p) = Map.empty \<and> pi_active (qs ! p) = [] \<and> pi_loop (qs ! p) = Ready \<and> 1 \<le> pi_maxConcurrency (qs ! p)"
    if "p < length qs" for p
    using assms that admitted_new by (simp add: list_all_length)
  have "cells (newSystem qs)" using new by (auto simp: cells_def newSystem_def cellOk_def idsOf_def)
  moreover have "named (newSystem qs)" using new by (auto simp: named_def newSystem_def)
  moreover have "loops (newSystem qs)" using new by (auto simp: loops_def newSystem_def wfProgram_def)
  moreover have "commitsOk (newSystem qs)" by (simp add: commitsOk_def newSystem_def committing_def)
  ultimately show ?thesis
    by (simp add: pipelineInv_def core_def gates_def conds_def waitersOk_def heldOk_def holding_def blockedOk_def joins_def newSystem_def)
qed

interpretation run: progress "pipelineStep digest" pipelineInv allFinished sysRank for digest
  by unfold_locales (use inv_step rank_decreases never_stuck in blast)+

section \<open>Results\<close>

text \<open>The programs stay as they are.\<close>

lemma drainWaiters_frame [simp]: "sy_commits (drainWaiters s) = sy_commits s" "sy_inFlight (drainWaiters s) = sy_inFlight s"
  by (simp_all add: drainWaiters_def split: prod.splits)

lemma programs_loopTurn:
  assumes inv: "pipelineInv s" and p: "p < sy_count s"
  shows "sy_count (loopTurn digest p s) = sy_count s \<and> prog (loopTurn digest p s) j = prog s j"
proof (cases "pi_pending (sy_pipe s p) = [] \<and> pi_active (sy_pipe s p) = []")
  case True
  then show ?thesis by (simp add: loopTurn_def setLoop_def upd)
next
  case False
  show ?thesis
  proof (rule loopTurn_open [OF inv p False, of digest])
    fix b s1 s2
    assume s1: "s1 = abortPending p s" "pipelineInv s1" "p < sy_count s1" "distinct (pi_pending (sy_pipe s1 p))"
      and sch: "scheduleAll digest p (pi_pending (sy_pipe s1 p)) False s1 = (b, s2)"
      and turn: "loopTurn digest p s = setLoop p (if pi_active (sy_pipe s2 p) \<noteq> [] then Racing else Ready) s2"
    show ?thesis using scheduleAll_inv [OF s1(2-4) subset_refl sch] inv_abortPending [OF inv p]
      unfolding turn by (simp add: s1(1) setLoop_def upd)
  qed
qed

lemma step_programs:
  assumes "pipelineStep digest s s'" "pipelineInv s"
  shows "sy_count s' = sy_count s \<and> prog s' j = prog s j"
  using assms
proof (induction rule: pipelineStep.induct)
  case (Turn p s)
  then show ?case by (simp add: programs_loopTurn)
next
  case (Check s t n i answer)
  then show ?case by (auto simp: checkOne_def upd split: sum.split)
qed (simp_all add: abortSignal_def wake_def Let_def enterRun_def beginRun_def executorReturns_def leaveQueue_def release_def
    releaseResources_def settle_def joinSettles_def upd)

lemma reach_programs:
  "(pipelineStep digest)\<^sup>*\<^sup>* s s' \<Longrightarrow> pipelineInv s \<Longrightarrow> pipelineInv s' \<and> sy_count s' = sy_count s \<and> (\<forall>j. prog s' j = prog s j)"
  by (induction rule: rtranclp_induct) (auto simp: step_programs dest: inv_step)

text \<open>What a finished program returns.\<close>

lemma finished_results:
  assumes inv: "pipelineInv s" and p: "p < sy_count s" and fin: "pi_loop (sy_pipe s p) = Finished r"
  shows "map Some (run_results r) = map (\<lambda>i. pi_completed (sy_pipe s p) (ins_id i)) (pg_instructions (prog s p))
    \<and> map pr_id (run_results r) = map ins_id (pg_instructions (prog s p)) \<and> run_issues r = []
    \<and> run_status r = finalStatus (run_results r)"
proof -
  have l: "r = pipelineReport (sy_pipe s p)" "pi_pending (sy_pipe s p) = []" "pi_active (sy_pipe s p) = []"
    using inv_parts(10) [OF inv] p fin by (auto simp: loops_def)
  have done': "\<exists>x. pi_completed (sy_pipe s p) (ins_id i) = Some x \<and> pr_id x = ins_id i" if "i \<in> set (pg_instructions (prog s p))" for i
  proof -
    have "ins_id i \<in> idsOf (prog s p)" using that by (simp add: idsOf_def)
    from cellsD [OF inv_parts(1) [OF inv] p this] obtain x where "pi_completed (sy_pipe s p) (ins_id i) = Some x"
      using l(2,3) by (auto simp: cellOf_def cellOk_def split: option.splits)
    then show ?thesis using inv_parts(2) [OF inv] p by (auto simp: named_def)
  qed
  then show ?thesis by (force simp: l(1) pipelineReport_def Let_def)
qed

section \<open>Termination and completeness\<close>

definition runBound :: "pipe list \<Rightarrow> nat" where
  "runBound qs = sum_list (map (\<lambda>q. 2 * sum_list (map (\<lambda>i. length (ins_precondition i) + 20)
     (pg_instructions (pi_program q))) + 2) qs)"

lemma rank_new: "list_all admitted qs \<Longrightarrow> sysRank (newSystem qs) \<le> runBound qs"
proof -
  assume adm: "list_all admitted qs"
  let ?len = "\<lambda>i. length (ins_precondition i) + 20"
  have "pipeRank (newSystem qs) p \<le> 2 * sum_list (map ?len (pg_instructions (pi_program (qs ! p)))) + 2"
    if p: "p < length qs" for p
  proof -
    let ?is = "pg_instructions (pi_program (qs ! p))"
    have new: "wfProgram (pi_program (qs ! p))" "pi_pending (qs ! p) = map ins_id ?is" "pi_active (qs ! p) = []"
      using admitted_new adm p by (simp_all add: list_all_length)
    have "idRank (newSystem qs) p (ins_id i) = ?len i" if "i \<in> set ?is" for i
      using new that byId_unique [OF new(1) that] by (auto simp: idRank_def newSystem_def checksOf_def taskRank_def)
    moreover have "distinct (map ins_id ?is)" using new(1) by (simp add: wfProgram_def)
    then have "(\<Sum>x \<in> idsOf (pi_program (qs ! p)). idRank (newSystem qs) p x)
      = sum_list (map (idRank (newSystem qs) p) (map ins_id ?is))"
      by (metis idsOf_def set_map sum.distinct_set_conv_list)
    ultimately have "(\<Sum>x \<in> idsOf (pi_program (qs ! p)). idRank (newSystem qs) p x) = sum_list (map ?len ?is)"
      by (simp add: comp_def cong: map_cong)
    then show ?thesis by (simp add: pipeRank_def newSystem_def loopRank_def)
  qed
  then have "(\<Sum>p < length qs. pipeRank (newSystem qs) p) \<le> (\<Sum>p < length qs. 2 * sum_list (map ?len (pg_instructions (pi_program (qs ! p)))) + 2)"
    by (intro sum_mono) simp
  also have "\<dots> = runBound qs" by (simp add: runBound_def sum_list_sum_nth atLeast0LessThan)
  finally show ?thesis by (simp add: sysRank_def newSystem_def)
qed

text \<open>C27: Every run of the pipeline executor ends, without deadlock, with a result for every instruction.
  Let any number of accepted programs (with string ids) share one coordinator, let the executor and the
  precondition checker answer or throw anything at any time, abort signals included, in any
  interleaving. Then a run has at most a known number of steps, and when no step is left every program
  has returned; it returned one result per instruction, in program order, exactly the results that were
  recorded, with the status computed from them, and never the \<open>dependency_cycle\<close> rejection.\<close>

theorem pipelines_finish:
  assumes "list_all admitted qs"
  shows "(\<forall>n s. (pipelineStep digest ^^ n) (newSystem qs) s \<longrightarrow> n \<le> runBound qs)
    \<and> (\<forall>s. (pipelineStep digest)\<^sup>*\<^sup>* (newSystem qs) s \<and> (\<nexists>s'. pipelineStep digest s s') \<longrightarrow>
        (\<forall>p < length qs. \<exists>r. pi_loop (sy_pipe s p) = Finished r \<and> run_issues r = [] \<and> run_status r = finalStatus (run_results r)
          \<and> map pr_id (run_results r) = map ins_id (pg_instructions (pi_program (qs ! p)))
          \<and> map Some (run_results r) = map (\<lambda>i. pi_completed (sy_pipe s p) (ins_id i)) (pg_instructions (pi_program (qs ! p)))))"
proof (intro conjI allI impI)
  fix n s assume "(pipelineStep digest ^^ n) (newSystem qs) s"
  from run.runs_bounded [OF this inv_new [OF assms]] rank_new [OF assms] show "n \<le> runBound qs" by simp
next
  fix s p assume s: "(pipelineStep digest)\<^sup>*\<^sup>* (newSystem qs) s \<and> (\<nexists>s'. pipelineStep digest s s')" and p: "p < length qs"
  have "allFinished s" using run.stuck_final inv_new [OF assms] s by blast
  moreover have frame: "pipelineInv s" "sy_count s = length qs" "prog s p = pi_program (qs ! p)"
    using reach_programs [of digest "newSystem qs" s] inv_new [OF assms] s by (simp_all add: newSystem_def)
  ultimately obtain r where "pi_loop (sy_pipe s p) = Finished r" using p by (auto simp: allFinished_def)
  with finished_results [OF frame(1) _ this] frame p show "\<exists>r. pi_loop (sy_pipe s p) = Finished r \<and> run_issues r = []
      \<and> run_status r = finalStatus (run_results r)
      \<and> map pr_id (run_results r) = map ins_id (pg_instructions (pi_program (qs ! p)))
      \<and> map Some (run_results r) = map (\<lambda>i. pi_completed (sy_pipe s p) (ins_id i)) (pg_instructions (pi_program (qs ! p)))"
    by simp
qed

section \<open>Safety\<close>

lemma committing_head:
  assumes "commitsOk s" "committing s t" "committing s u" "sy_task s t \<noteq> Some Queued" "sy_task s u \<noteq> Some Queued"
  shows "t = u"
proof -
  have "t \<in> set (sy_commits s)" "u \<in> set (sy_commits s)" using assms(1-3) by (simp_all add: commitsOk_def)
  moreover have "t \<notin> set (tl (sy_commits s))" "u \<notin> set (tl (sy_commits s))" using assms(1,4,5) unfolding commitsOk_def by blast+
  ultimately show ?thesis by (cases "sy_commits s") auto
qed


section \<open>Bounded concurrency\<close>

definition withinLimit :: "(nat \<Rightarrow> nat) \<Rightarrow> sys \<Rightarrow> bool" where
  "withinLimit m s \<longleftrightarrow> (\<forall>p < sy_count s. pi_maxConcurrency (sy_pipe s p) = m p \<and> length (pi_active (sy_pipe s p)) \<le> m p)"

text \<open>How the list of active instructions changes when an instruction is looked at.\<close>

lemma active_considerOne:
  assumes inv: "pipelineInv s" and i: "instrOf s (p, ins_id i) = Some i" and p: "p < sy_count s"
    and pend: "ins_id i \<in> set (pi_pending (sy_pipe s p))" and c: "considerOne digest p i s = Some s'"
  shows "length (pi_active (sy_pipe s' p)) \<le> length (pi_active (sy_pipe s p)) + 1"
    and "j \<noteq> p \<Longrightarrow> pi_active (sy_pipe s' j) = pi_active (sy_pipe s j)"
    and "pi_maxConcurrency (sy_pipe s' j) = pi_maxConcurrency (sy_pipe s j)"
proof -
  have "length (pi_active (sy_pipe s' p)) \<le> length (pi_active (sy_pipe s p)) + 1
    \<and> (j \<noteq> p \<longrightarrow> pi_active (sy_pipe s' j) = pi_active (sy_pipe s j))
    \<and> pi_maxConcurrency (sy_pipe s' j) = pi_maxConcurrency (sy_pipe s j)"
    using assms
  proof (cases rule: considerOne_cases)
    case started
    show ?thesis unfolding started(2)
      by (cases rule: start_cases [of digest p i s])
        (simp_all add: finishPending_def upd enqueued_def)
  next
    case (skipped d)
    then show ?thesis by (simp add: finishPending_def upd)
  qed
  then show "length (pi_active (sy_pipe s' p)) \<le> length (pi_active (sy_pipe s p)) + 1"
    and "j \<noteq> p \<Longrightarrow> pi_active (sy_pipe s' j) = pi_active (sy_pipe s j)"
    and "pi_maxConcurrency (sy_pipe s' j) = pi_maxConcurrency (sy_pipe s j)" by simp_all
qed

lemma limit_scheduleAll:
  assumes "pipelineInv s" "p < sy_count s" "distinct xs" "set xs \<subseteq> set (pi_pending (sy_pipe s p))"
    "scheduleAll digest p xs b s = (b', s')" "withinLimit m s"
  shows "withinLimit m s'"
  using assms
proof (induction xs arbitrary: b s)
  case (Cons x xs)
  show ?case
  proof (cases "pi_maxConcurrency (sy_pipe s p) \<le> length (pi_active (sy_pipe s p))")
    case True
    then show ?thesis using Cons.prems by simp
  next
    case room: False
    show ?thesis
    proof (cases "byId (prog s p) x")
      case None
      then have rest: "scheduleAll digest p xs b s = (b', s')" using Cons.prems(5) room by simp
      show ?thesis using Cons.IH [OF Cons.prems(1,2) _ _ rest] Cons.prems(3,4,6) by simp
    next
      case (Some i)
      then have x: "ins_id i = x" by (simp add: byId_Some)
      show ?thesis
      proof (cases "considerOne digest p i s")
        case None
        then have rest: "scheduleAll digest p xs b s = (b', s')" using Cons.prems(5) room Some by simp
        show ?thesis using Cons.IH [OF Cons.prems(1,2) _ _ rest] Cons.prems(3,4,6) by simp
      next
        case started: (Some s1)
        have i: "instrOf s (p, ins_id i) = Some i" using Some x by (simp add: instrOf_def)
        have pend: "ins_id i \<in> set (pi_pending (sy_pipe s p))" using Cons.prems(4) x by simp
        note one = considerOne_Some [OF Cons.prems(1) i Cons.prems(2) pend started, unfolded x]
        note act = active_considerOne [OF Cons.prems(1) i Cons.prems(2) pend started]
        have rest: "scheduleAll digest p xs True s1 = (b', s')" using Cons.prems(5) room Some started by simp
        have "pi_maxConcurrency (sy_pipe s1 j) = m j \<and> length (pi_active (sy_pipe s1 j)) \<le> m j" if "j < sy_count s1" for j
          using Cons.prems(6) act(1) act(2) [of j] act(3) [of j] room one that
          by (cases "j = p") (simp_all add: withinLimit_def)
        then have "withinLimit m s1" by (simp add: withinLimit_def)
        then show ?thesis using Cons.IH [OF _ _ _ _ rest] one Cons.prems(2-4) by auto
      qed
    qed
  qed
qed simp

lemma limit_loopTurn:
  assumes inv: "pipelineInv s" and p: "p < sy_count s" and lim: "withinLimit m s"
  shows "withinLimit m (loopTurn digest p s)"
proof (cases "pi_pending (sy_pipe s p) = [] \<and> pi_active (sy_pipe s p) = []")
  case True
  then show ?thesis using lim by (simp add: loopTurn_def setLoop_def upd withinLimit_def)
next
  case False
  show ?thesis
  proof (rule loopTurn_open [OF inv p False, of digest])
    fix b s1 s2
    assume s1: "s1 = abortPending p s" "pipelineInv s1" "p < sy_count s1" "distinct (pi_pending (sy_pipe s1 p))"
      and sch: "scheduleAll digest p (pi_pending (sy_pipe s1 p)) False s1 = (b, s2)"
      and turn: "loopTurn digest p s = setLoop p (if pi_active (sy_pipe s2 p) \<noteq> [] then Racing else Ready) s2"
    have "withinLimit m s1" using lim by (simp add: s1(1) withinLimit_def abortPending_def Let_def upd)
    from limit_scheduleAll [OF s1(2-4) subset_refl sch this] show ?thesis
      unfolding turn by (simp add: withinLimit_def setLoop_def upd)
  qed
qed

lemma limit_step:
  assumes "pipelineStep digest s s'" "pipelineInv s" "withinLimit m s"
  shows "withinLimit m s'"
  using assms
proof (induction rule: pipelineStep.induct)
  case (Turn p s)
  then show ?case by (simp add: limit_loopTurn)
next
  case (Wake p s)
  have "length (filter f xs) \<le> n" if "length xs \<le> n" for f and xs :: "ustr list" and n
    using that length_filter_le [of f xs] by linarith
  then show ?case using Wake by (simp add: wake_def Let_def withinLimit_def upd)
next
  case (Check s t n i answer)
  then show ?case by (auto simp: checkOne_def upd withinLimit_def split: sum.split)
qed (simp_all add: withinLimit_def abortSignal_def enterRun_def beginRun_def executorReturns_def leaveQueue_def release_def
    releaseResources_def settle_def joinSettles_def Let_def upd)

lemma reach_limit:
  "(pipelineStep digest)\<^sup>*\<^sup>* s s' \<Longrightarrow> pipelineInv s \<Longrightarrow> withinLimit m s \<Longrightarrow> withinLimit m s'"
proof (induction rule: rtranclp_induct)
  case (step t u)
  then have "pipelineInv t" using reach_programs by blast
  then show ?case using step limit_step by blast
qed


section \<open>A program that runs\<close>

text \<open>The one-instruction program of \<open>ValidatorProps\<close>, submitted twice.\<close>

definition demoPipe :: "ValidationPlan \<Rightarrow> pipe" where
  "demoPipe plan = newPipe \<lparr>po_maxConcurrency = None, po_hasChecker = False, po_aborted = False\<rparr>
     (case demoProgram (VStr (lit ''a'')) demoArgs of VObj fs \<Rightarrow> fs | _ \<Rightarrow> []) plan"

lemma demo_admitted: "\<exists>plan. admitted (demoPipe plan)"
proof -
  obtain plan where plan: "validateProgram demoRuntime (demoProgram (VStr (lit ''a'')) demoArgs) demoOpts = Some (Inr plan)"
    using demo_accepted by blast
  have "executePipeline demoRuntime (pi_input (demoPipe plan)) demoOpts
      \<lparr>po_maxConcurrency = None, po_hasChecker = False, po_aborted = False\<rparr> = Some (Inr (demoPipe plan))"
    using plan by (simp add: executePipeline_def demoPipe_def newPipe_def demoProgram_def)
  moreover have "stringIds (pi_input (demoPipe plan))"
    by (simp add: demoPipe_def newPipe_def demoProgram_def demoArgs_def stringIds_def instrFields_def)
  ultimately show ?thesis unfolding admitted_def by blast
qed

lemma demo_instructions: "pg_instructions (pi_program (demoPipe plan)) = [\<lparr>ins_id = lit ''a'', ins_op = ''fs.stat'',
    ins_dependsOn = [], ins_precondition = [], ins_opId = None, ins_raw = VObj (demoInstr (VStr (lit ''a'')) demoArgs)\<rparr>]"
  by (simp add: demoPipe_def newPipe_def programOf_instructions demoProgram_def demoArgs_def instrFields_def instructionOf_def
      textOr_def demo_op textsOf_def demoInstr_def)

theorem pipelines_finish_witness:
  "\<exists>q. list_all admitted [q, q] \<and> (\<forall>n s. (pipelineStep (\<lambda>_. []) ^^ n) (newSystem [q, q]) s \<longrightarrow> n \<le> 84)"
proof -
  obtain plan where adm: "list_all admitted [demoPipe plan, demoPipe plan]" using demo_admitted by auto
  have "runBound [demoPipe plan, demoPipe plan] = 84" by (simp add: runBound_def demo_instructions)
  then show ?thesis using pipelines_finish [OF adm, of "\<lambda>_. []"] adm by metis
qed

text \<open>One program alone, up to the call of its executor.\<close>

lemma demo_executes:
  assumes q: "q = demoPipe plan"
  shows "\<exists>s. (pipelineStep (\<lambda>_. []))\<^sup>*\<^sup>* (newSystem [q]) s \<and> sy_task s (0, lit ''a'') = Some Executing
    \<and> (\<exists>i. instrOf s (0, lit ''a'') = Some i)"
proof -
  let ?t = "(0, lit ''a'')" and ?D = "\<lambda>_. [] :: ustr"
  let ?i = "\<lparr>ins_id = lit ''a'', ins_op = ''fs.stat'', ins_dependsOn = [], ins_precondition = [], ins_opId = None,
    ins_raw = VObj (demoInstr (VStr (lit ''a'')) demoArgs)\<rparr>"
  have instrs: "pg_instructions (pi_program q) = [?i]" using demo_instructions q by simp
  have id: "byId (pi_program q) (lit ''a'') = Some ?i" by (simp add: byId_def instrs)
  have new: "pi_pending q = [lit ''a'']" "pi_active q = []" "pi_aborted q = False" "pi_loop q = Ready"
    "pi_completed q = Map.empty" "pi_maxConcurrency q = 8"
    using instrs by (simp_all add: q demoPipe_def newPipe_def maxConcurrencyOf_def)
  have cost: "resourceCost ?i = [''io.metadata'']" "\<not> needsCommit ?i"
    by (simp_all add: needsCommit_def resourceCost_def metaOf_def ISA_V1_REGISTRY_def fsRegistry_def)
  define s1 where "s1 = loopTurn ?D 0 (newSystem [q])"
  have one: "pipelineStep ?D (newSystem [q]) s1"
    unfolding s1_def by (rule pipelineStep.Turn) (simp_all add: newSystem_def new(4))
  have s1: "sy_task s1 ?t = Some Granted" "prog s1 0 = pi_program q" "\<not> pi_aborted (sy_pipe s1 0)"
    by (simp_all add: s1_def loopTurn_def newSystem_def new abortPending_def Let_def considerOne_def id start_def unpend_def
        activate_def registerInFlight_def acquire_def drainWaiters_def joinInFlight_def setPipe_def setTask_def setLoop_def cost)
  have instr: "instrOf s ?t = Some ?i" if "prog s 0 = pi_program q" for s using that id by (simp add: instrOf_def)
  define s2 where "s2 = enterRun ?t ?i s1"
  have two: "pipelineStep ?D s1 s2" unfolding s2_def by (rule pipelineStep.Enter [OF s1(1) instr [OF s1(2)]])
  have s2: "sy_task s2 ?t = Some (Checking 0)" "prog s2 0 = pi_program q" "\<not> pi_aborted (sy_pipe s2 0)"
    using s1 cost(2) by (simp_all add: s2_def enterRun_def beginRun_def isAborted_def upd)
  define s3 where "s3 = checkOne ?t ?i 0 (Inr Valid) s2"
  have three: "pipelineStep ?D s2 s3" unfolding s3_def by (rule pipelineStep.Check [OF s2(1) instr [OF s2(2)]])
  have s3: "sy_task s3 ?t = Some Executing" "prog s3 0 = pi_program q"
    using s2 by (simp_all add: s3_def checkOne_def isAborted_def upd)
  have "(pipelineStep ?D)\<^sup>*\<^sup>* (newSystem [q]) s3" using one two three by (meson converse_rtranclp_into_rtranclp rtranclp.rtrancl_refl)
  then show ?thesis using s3(1) instr [OF s3(2)] by blast
qed



end
