(* ===== verification/Admission.thy ===== *)
theory Admission
  imports Domain
begin

text \<open>
  A request to execute a process, before any durable effect: its options
  (\<open>src/src/supervisor/types.ts\<close>), their checks (\<open>input-validation.ts\<close>), the fingerprint that
  identifies a repeated request (\<open>fingerprint.ts\<close>) and the admission rules (\<open>admission.ts\<close>). The
  values have the declared types, so of the checks on unknown values only those on contents remain.
  Parameters are the file system \<open>fs\<close>, the digest \<open>H\<close> of a JSON value, \<open>sha\<close> of bytes, and
  \<open>collate a b\<close> for \<open>a.localeCompare(b) < 0\<close>.
\<close>

section \<open>Commands, budgets and drivers\<close>

datatype StdinMode = StdinOnce | StdinStream

record HardLimits =
  hl_memoryMaxBytes :: "int option"
  hl_pidsMax :: "int option"

record StructuredCommand =
  cmd_execPath :: string
  cmd_args :: "string list"
  cmd_cwd :: string
  cmd_stdin :: "string option"
  cmd_stdinMode :: "StdinMode option"
  cmd_envWhiteList :: "(string \<times> string) list option"
  cmd_inheritEnv :: "bool option"
  cmd_secretEnv :: "(string \<times> string) list option"
  cmd_hardLimits :: "HardLimits option"

record ConfinementDriver =
  cfd_name :: string
  cfd_wrap :: "StructuredCommand \<Rightarrow> string list \<Rightarrow> KError + StructuredCommand"

text \<open>The claims of a platform driver the supervisor reads; its methods answer in events.\<close>

record PlatformDriver =
  pd_name :: string
  pd_recovery :: RecoveryDriverCaps
  pd_memoryHardLimit :: bool
  pd_pidsLimit :: bool
  pd_cpuLimit :: bool
  pd_facts :: "(string \<times> DriverFact) list"
  pd_secretResolution :: "bool option"
  pd_sampleMetrics :: bool
  pd_readLimitEvents :: bool
  pd_settleTree :: bool

datatype ConfinementRequest = CfFlag bool | CfNamed string

record ExecuteProcessOptions =
  xo_runId :: string
  xo_opId :: string
  xo_name :: string
  xo_command :: StructuredCommand
  xo_requiredResources :: "string list option"
  xo_mutationRoots :: "string list option"
  xo_capabilityId :: "string option"
  xo_capabilityWorkspace :: "string option"
  xo_capabilitySecretRefs :: "string list option"
  xo_capabilityPolicyVersion :: "string option"
  xo_confinement :: "ConfinementRequest option"
  xo_confinementDriver :: "ConfinementDriver option"
  xo_timeoutMs :: "int option"
  xo_inputFingerprint :: "string option"
  xo_maxOutputBytes :: "int option"
  xo_drainTimeoutMs :: "int option"
  xo_resourceBudget :: "ResourceBudget option"
  xo_waitTimeoutMs :: "int option"
  xo_artifactsDir :: "string option"
  xo_aborted :: "bool option"

section \<open>Input validation\<close>

definition maxTimerDelay :: int where
  "maxTimerDelay = 2 ^ 31 - 1"

definition maxSafeInteger :: int where
  "maxSafeInteger = 9007199254740991"

text \<open>\<open>string(value, field, nonempty, osValue)\<close> on a string.\<close>

definition stringFault :: "string \<Rightarrow> bool \<Rightarrow> bool \<Rightarrow> string \<Rightarrow> KError option" where
  "stringFault field nonempty osValue v =
     (if nonempty \<and> v = [] then Some (RangeError (field @ '' must not be empty''))
      else if osValue \<and> CHR 0x00 \<in> set v then Some (TypeError (field @ '' must not contain null bytes''))
      else None)"

definition rangeFault :: "string \<Rightarrow> int \<Rightarrow> int option \<Rightarrow> KError option" where
  "rangeFault field bound v = (case v of None \<Rightarrow> None
     | Some n \<Rightarrow> if n < 0 \<or> n > bound then Some (RangeError (field @ '' must be a finite nonnegative number'')) else None)"

text \<open>The first fault of a sequence of checks; each check throws before the next runs.\<close>

fun firstFault :: "KError option list \<Rightarrow> KError option" where
  "firstFault [] = None"
| "firstFault (Some e # fs) = Some e"
| "firstFault (None # fs) = firstFault fs"

definition badEnvKey :: "string \<Rightarrow> bool" where
  "badEnvKey k \<longleftrightarrow> k = [] \<or> CHR ''='' \<in> set k \<or> CHR 0x00 \<in> set k"

text \<open>\<open>/^secret:[A-Za-z0-9][A-Za-z0-9._:-]{0,239}$/u\<close>\<close>

definition isSecretRef :: "string \<Rightarrow> bool" where
  "isSecretRef v \<longleftrightarrow> startsWith v ''secret:'' \<and>
     (case drop 7 v of [] \<Rightarrow> False
      | c # cs \<Rightarrow> (isAlpha c \<or> isDigit c) \<and> length cs \<le> 239
          \<and> list_all (\<lambda>x. isAlpha x \<or> isDigit x \<or> x \<in> set ''._:-'') cs)"

definition envFaults :: "(string \<times> string) list option \<Rightarrow> KError option list" where
  "envFaults env = (case env of None \<Rightarrow> []
     | Some kvs \<Rightarrow> concat (map (\<lambda>(k, v).
         [if badEnvKey k then Some (TypeError ''command.envWhiteList keys must be nonempty and contain neither = nor null bytes'') else None,
          stringFault ''command.envWhiteList value'' False True v]) kvs))"

definition secretFaults :: "(string \<times> string) list option \<Rightarrow> (string \<times> string) list option \<Rightarrow> KError option list" where
  "secretFaults env secrets = (case secrets of None \<Rightarrow> []
     | Some kvs \<Rightarrow> concat (map (\<lambda>(k, v).
         [if badEnvKey k then Some (TypeError ''command.secretEnv keys must be nonempty and contain neither = nor null bytes'') else None,
          stringFault ''command.secretEnv reference'' True False v,
          if isSecretRef v then None else Some (TypeError ''command.secretEnv values must be SecretRef values''),
          if env \<noteq> None \<and> k \<in> fst ` set (the env)
          then Some (TypeError (''command.secretEnv key '' @ k @ '' conflicts with command.envWhiteList'')) else None]) kvs))"

definition stringsFaults :: "string \<Rightarrow> bool \<Rightarrow> bool \<Rightarrow> string list option \<Rightarrow> KError option list" where
  "stringsFaults field nonempty osValue vs = (case vs of None \<Rightarrow> [] | Some xs \<Rightarrow> map (stringFault field nonempty osValue) xs)"

definition optFault :: "string \<Rightarrow> bool \<Rightarrow> bool \<Rightarrow> string option \<Rightarrow> KError option" where
  "optFault field nonempty osValue v = Option.bind v (stringFault field nonempty osValue)"

definition hardLimitFaults :: "HardLimits option \<Rightarrow> KError option list" where
  "hardLimitFaults h = (case h of None \<Rightarrow> []
     | Some l \<Rightarrow> [rangeFault ''command.hardLimits.memoryMaxBytes'' maxSafeInteger (hl_memoryMaxBytes l),
                 rangeFault ''command.hardLimits.pidsMax'' maxSafeInteger (hl_pidsMax l)])"

definition budgetFaults :: "ResourceBudget option \<Rightarrow> KError option list" where
  "budgetFaults b = (case b of None \<Rightarrow> []
     | Some l \<Rightarrow> [rangeFault ''resourceBudget.maxMemoryBytes'' maxSafeInteger (maxMemoryBytes l),
                 rangeFault ''resourceBudget.maxPids'' maxSafeInteger (maxPids l),
                 rangeFault ''resourceBudget.maxOutputBytes'' maxSafeInteger (maxOutputBytes l),
                 rangeFault ''resourceBudget.maxCpuTimeMs'' maxSafeInteger (maxCpuTimeMs l)])"

definition validateExecuteProcessOptions :: "ExecuteProcessOptions \<Rightarrow> KError option" where
  "validateExecuteProcessOptions o' = (let c = xo_command o' in firstFault
     ([stringFault ''runId'' True False (xo_runId o'), stringFault ''opId'' True False (xo_opId o'),
       stringFault ''name'' True False (xo_name o'),
       stringFault ''command.execPath'' True True (cmd_execPath c), stringFault ''command.cwd'' True True (cmd_cwd c)]
      @ map (stringFault ''command.args'' False True) (cmd_args c)
      @ envFaults (cmd_envWhiteList c) @ secretFaults (cmd_envWhiteList c) (cmd_secretEnv c)
      @ hardLimitFaults (cmd_hardLimits c)
      @ stringsFaults ''requiredResources'' True False (xo_requiredResources o')
      @ stringsFaults ''mutationRoots'' True True (xo_mutationRoots o')
      @ [optFault ''capabilityId'' True False (xo_capabilityId o'),
         optFault ''capabilityWorkspace'' True False (xo_capabilityWorkspace o')]
      @ stringsFaults ''capabilitySecretRefs'' True False (xo_capabilitySecretRefs o')
      @ [optFault ''artifactsDir'' True True (xo_artifactsDir o'),
         (case xo_confinement o' of Some (CfNamed n) \<Rightarrow> stringFault ''confinement'' True False n | _ \<Rightarrow> None),
         rangeFault ''timeoutMs'' maxTimerDelay (xo_timeoutMs o'),
         rangeFault ''waitTimeoutMs'' maxTimerDelay (xo_waitTimeoutMs o'),
         rangeFault ''drainTimeoutMs'' maxTimerDelay (xo_drainTimeoutMs o'),
         rangeFault ''maxOutputBytes'' maxSafeInteger (xo_maxOutputBytes o')]
      @ budgetFaults (xo_resourceBudget o')))"

section \<open>Fingerprints\<close>

definition normalizeResourceName :: "fsys \<Rightarrow> string \<Rightarrow> string" where
  "normalizeResourceName fs res =
     (if startsWith res ''workspace:write:''
      then (let resolved = resolvePath (fs_cwd fs) (drop (length ''workspace:write:'') res)
            in ''workspace:write:'' @ joinPath (case fs_realpath fs resolved of Some q \<Rightarrow> q | None \<Rightarrow> resolved))
      else res)"

text \<open>\<open>xs.sort((a, b) => ..)\<close> for a comparison given by \<open>lt\<close>; stable.\<close>

fun insertWith :: "('a \<Rightarrow> 'a \<Rightarrow> bool) \<Rightarrow> 'a \<Rightarrow> 'a list \<Rightarrow> 'a list" where
  "insertWith lt x [] = [x]"
| "insertWith lt x (y # ys) = (if lt y x then y # insertWith lt x ys else x # y # ys)"

definition sortWith :: "('a \<Rightarrow> 'a \<Rightarrow> bool) \<Rightarrow> 'a list \<Rightarrow> 'a list" where
  "sortWith lt xs = foldr (insertWith lt) xs []"

text \<open>\<open>x ?? null\<close>\<close>

definition orNull :: "('a \<Rightarrow> json) \<Rightarrow> 'a option \<Rightarrow> json" where
  "orNull f x = (case x of None \<Rightarrow> JNull | Some y \<Rightarrow> f y)"

definition pairsJ :: "(string \<times> string) list \<Rightarrow> json" where
  "pairsJ kvs = JArr (map (\<lambda>(k, v). JArr [JStr k, JStr v]) kvs)"

definition envSorted :: "(string \<times> string) list \<Rightarrow> (string \<times> string) list" where
  "envSorted env = map (\<lambda>k. (k, the (map_of env k))) (sortBy id (map fst env))"

definition budgetCanonical :: "ResourceBudget \<Rightarrow> json" where
  "budgetCanonical b = JObj
     [(''enforcement'', JStr (enforcementStr (enforcement b))),
      (''maxCpuTimeMs'', orNull JNum (maxCpuTimeMs b)), (''maxMemoryBytes'', orNull JNum (maxMemoryBytes b)),
      (''maxOutputBytes'', orNull JNum (maxOutputBytes b)), (''maxPids'', orNull JNum (maxPids b))]"

definition canonicalInput ::
    "(string \<Rightarrow> string) \<Rightarrow> (string \<Rightarrow> string \<Rightarrow> bool) \<Rightarrow> ExecuteProcessOptions \<Rightarrow> json" where
  "canonicalInput sha collate o' = (let c = xo_command o' in JObj
     [(''args'', strsJ (cmd_args c)), (''cwd'', JStr (cmd_cwd c)),
      (''envWhiteList'', orNull (\<lambda>e. pairsJ (envSorted e)) (cmd_envWhiteList c)),
      (''secretEnv'', orNull (\<lambda>e. pairsJ (sortWith (\<lambda>a b. collate (fst a) (fst b)) e)) (cmd_secretEnv c)),
      (''execPath'', JStr (cmd_execPath c)), (''inheritEnv'', orNull JBool (cmd_inheritEnv c)),
      (''requiredResources'', strsJ (sortBy id (orElse (xo_requiredResources o') []))),
      (''resourceBudget'', orNull budgetCanonical (xo_resourceBudget o')),
      (''stdinHash'', orNull (\<lambda>s. JStr (sha s)) (cmd_stdin c)),
      (''timeoutMs'', orNull JNum (xo_timeoutMs o')), (''capabilityId'', orNull JStr (xo_capabilityId o')),
      (''capabilityWorkspace'', orNull JStr (xo_capabilityWorkspace o')),
      (''capabilitySecretRefs'', strsJ (sortBy id (orElse (xo_capabilitySecretRefs o') []))),
      (''capabilityPolicyVersion'', orNull JStr (xo_capabilityPolicyVersion o'))])"

definition computeInputFingerprint ::
    "(json \<Rightarrow> string) \<Rightarrow> (string \<Rightarrow> string) \<Rightarrow> (string \<Rightarrow> string \<Rightarrow> bool) \<Rightarrow> ExecuteProcessOptions \<Rightarrow> string" where
  "computeInputFingerprint H sha collate o' = H (canonicalInput sha collate o')"

text \<open>\<open>value.split(root).join('<workspace>')\<close> for every non-empty root, longest first.\<close>

fun replaceAll :: "nat \<Rightarrow> string \<Rightarrow> string \<Rightarrow> string" where
  "replaceAll skip root [] = []"
| "replaceAll (Suc n) root (c # s) = replaceAll n root s"
| "replaceAll 0 root (c # s) = (if root \<noteq> [] \<and> prefix root (c # s)
     then ''<workspace>'' @ replaceAll (length root - 1) root s
     else c # replaceAll 0 root s)"

definition normalizeWorkspaceString :: "string list \<Rightarrow> string \<Rightarrow> string" where
  "normalizeWorkspaceString roots v = fold (replaceAll 0) roots v"

definition workspaceRoots :: "fsys \<Rightarrow> string option \<Rightarrow> string list" where
  "workspaceRoots fs workspaceRoot = (case truthy workspaceRoot of None \<Rightarrow> []
     | Some w \<Rightarrow> (let resolved = resolvePath (fs_cwd fs) w;
          roots = (case fs_realpath fs resolved of Some q \<Rightarrow> if q \<noteq> resolved then [joinPath resolved, joinPath q] else [joinPath resolved]
                   | None \<Rightarrow> [joinPath resolved])
        in sortWith (\<lambda>a b. length a > length b) roots))"

definition canonicalTreeCommand ::
    "fsys \<Rightarrow> (string \<Rightarrow> string) \<Rightarrow> (string \<Rightarrow> string \<Rightarrow> bool) \<Rightarrow> string \<Rightarrow> string option \<Rightarrow> ExecuteProcessOptions \<Rightarrow> json" where
  "canonicalTreeCommand fs sha collate treeFingerprint workspaceRoot o' =
     (let c = xo_command o'; norm = normalizeWorkspaceString (workspaceRoots fs workspaceRoot) in JObj
     [(''treeFingerprint'', JStr treeFingerprint),
      (''args'', strsJ (map norm (cmd_args c))), (''cwd'', JStr (norm (cmd_cwd c))),
      (''envWhiteList'', orNull (\<lambda>e. pairsJ (map (\<lambda>(k, v). (k, norm v)) (envSorted e))) (cmd_envWhiteList c)),
      (''secretEnv'', orNull (\<lambda>e. pairsJ (sortWith (\<lambda>a b. collate (fst a) (fst b)) e)) (cmd_secretEnv c)),
      (''execPath'', JStr (norm (cmd_execPath c))), (''inheritEnv'', orNull JBool (cmd_inheritEnv c)),
      (''resourceBudget'', orNull budgetCanonical (xo_resourceBudget o')),
      (''stdinHash'', orNull (\<lambda>s. JStr (sha s)) (cmd_stdin c)),
      (''timeoutMs'', orNull JNum (xo_timeoutMs o')), (''capabilityId'', orNull JStr (xo_capabilityId o')),
      (''capabilityWorkspace'', orNull JStr (xo_capabilityWorkspace o')),
      (''capabilitySecretRefs'', strsJ (sortBy id (orElse (xo_capabilitySecretRefs o') []))),
      (''capabilityPolicyVersion'', orNull JStr (xo_capabilityPolicyVersion o'))])"

section \<open>Admission\<close>

definition assertSecretResolverSupported :: "PlatformDriver \<Rightarrow> StructuredCommand \<Rightarrow> KError option" where
  "assertSecretResolverSupported pd c =
     (if orElse (cmd_secretEnv c) [] = [] \<or> pd_secretResolution pd = Some True then None
      else Some (UnsupportedCapabilityError ''secretResolver'' (pd_name pd) ''secretEnv''))"

definition budgetLimits :: "ResourceBudget option \<Rightarrow> PartialLimits" where
  "budgetLimits b = \<lparr>pl_cpuMs = Option.bind b maxCpuTimeMs, pl_memoryBytes = Option.bind b maxMemoryBytes,
     pl_outputBytes = Option.bind b maxOutputBytes, pl_concurrentOps = Some 1, pl_processes = Option.bind b maxPids\<rparr>"

text \<open>The options with the secret references of the command added, under a capability.\<close>

definition withCommandSecrets :: "ExecuteProcessOptions \<Rightarrow> ExecuteProcessOptions" where
  "withCommandSecrets o' = (let refs = map snd (orElse (cmd_secretEnv (xo_command o')) [])
     in if truthy (xo_capabilityId o') \<noteq> None \<and> refs \<noteq> []
        then o'\<lparr>xo_capabilitySecretRefs := Some (uniqueList (orElse (xo_capabilitySecretRefs o') [] @ refs))\<rparr>
        else o')"

definition candidateRoots :: "ExecuteProcessOptions \<Rightarrow> string list option" where
  "candidateRoots o' = (case orElse (xo_mutationRoots o') [] of
     r # rs \<Rightarrow> Some (r # rs)
   | [] \<Rightarrow> if cmd_cwd (xo_command o') = [] then None else Some [cmd_cwd (xo_command o')])"

definition admissionOptions :: "string \<Rightarrow> ExecuteProcessOptions \<Rightarrow> AdmissionOptions" where
  "admissionOptions capId o' = \<lparr>ao_domainId = [], ao_currentEpoch = 0, ao_capabilityId = capId,
     ao_requiredResources = xo_requiredResources o', ao_mutationRoots = candidateRoots o',
     ao_opcode = Some ''proc.spawn'', ao_workspace = xo_capabilityWorkspace o',
     ao_secretRefs = xo_capabilitySecretRefs o', ao_requestedLimits = Some (budgetLimits (xo_resourceBudget o')),
     ao_currentConcurrentOps = None, ao_currentProcesses = None,
     ao_policyVersion = xo_capabilityPolicyVersion o', ao_runId = Some (xo_runId o'), ao_opId = Some (xo_opId o')\<rparr>"

text \<open>The rewritten options, the roots the process may write, and the admission under its capability.\<close>

definition admitProcessScope ::
    "fsys \<Rightarrow> millis \<Rightarrow> ExecuteProcessOptions \<Rightarrow> (ExecuteProcessOptions \<times> string list \<times> AdmissionResult option) domM" where
  "admitProcessScope fs now o0 = (let o' = withCommandSecrets o0 in case truthy (xo_capabilityId o') of
     Some capId \<Rightarrow> andThen (domainCheckAdmission fs now (admissionOptions capId o'))
       (\<lambda>r. ret (o'\<lparr>xo_requiredResources := Some (ar_effectiveResources r)\<rparr>, ar_effectiveMutationRoots r, Some r))
   | None \<Rightarrow> (let resources = map (normalizeResourceName fs) (orElse (xo_requiredResources o') []);
                 o'' = o'\<lparr>xo_requiredResources := Some resources\<rparr>
       in ret (o'', (case orElse (xo_mutationRoots o') [] of r # rs \<Rightarrow> r # rs
            | [] \<Rightarrow> map (drop (length ''workspace:write:'')) (filter (\<lambda>r. startsWith r ''workspace:write:'') resources)), None)))"

definition resolveConfinementDriver ::
    "(string option \<Rightarrow> ConfinementDriver option) \<Rightarrow> ExecuteProcessOptions \<Rightarrow> ConfinementDriver option \<Rightarrow>
     KError + ConfinementDriver option" where
  "resolveConfinementDriver create o' supervisorDefault = (case xo_confinementDriver o' of
     Some d \<Rightarrow> Inr (Some d)
   | None \<Rightarrow> (case xo_confinement o' of
       Some (CfNamed n) \<Rightarrow> (case create (Some n) of None \<Rightarrow> Inl (ConfinementUnavailable n) | Some d \<Rightarrow> Inr (Some d))
     | Some (CfFlag True) \<Rightarrow> (case supervisorDefault of Some d \<Rightarrow> Inr (Some d)
         | None \<Rightarrow> (case create None of None \<Rightarrow> Inl (ConfinementUnavailable []) | Some d \<Rightarrow> Inr (Some d)))
     | _ \<Rightarrow> Inr supervisorDefault))"

text \<open>A limit counts when it is neither absent nor zero.\<close>

definition capped :: "int option \<Rightarrow> bool" where
  "capped x \<longleftrightarrow> nonZero x \<noteq> None"

definition assertBudgetSupported :: "PlatformDriver \<Rightarrow> ResourceBudget option \<Rightarrow> KError option" where
  "assertBudgetSupported pd budget = (case budget of None \<Rightarrow> None
     | Some b \<Rightarrow>
       if enforcement b = EnfSoft \<and> (capped (maxMemoryBytes b) \<or> capped (maxCpuTimeMs b) \<or> capped (maxPids b))
          \<and> \<not> pd_sampleMetrics pd
       then Some (UnsupportedCapabilityError ''resourceMetrics'' (pd_name pd) ''soft'')
       else if enforcement b \<noteq> EnfHard then None
       else if capped (maxMemoryBytes b) \<and> \<not> pd_memoryHardLimit pd
       then Some (UnsupportedCapabilityError ''memoryHardLimit'' (pd_name pd) ''hard'')
       else if capped (maxPids b) \<and> \<not> pd_pidsLimit pd
       then Some (UnsupportedCapabilityError ''pidsLimit'' (pd_name pd) ''hard'')
       else if capped (maxCpuTimeMs b) \<and> \<not> pd_cpuLimit pd
       then Some (UnsupportedCapabilityError ''cpuLimit'' (pd_name pd) ''hard'')
       else None)"

definition withHardLimits :: "StructuredCommand \<Rightarrow> ResourceBudget option \<Rightarrow> StructuredCommand" where
  "withHardLimits c budget = (case budget of None \<Rightarrow> c
     | Some b \<Rightarrow> if enforcement b \<noteq> EnfHard \<or> \<not> capped (maxMemoryBytes b) \<and> \<not> capped (maxPids b) then c
         else c\<lparr>cmd_hardLimits := Some \<lparr>hl_memoryMaxBytes = nonZero (maxMemoryBytes b), hl_pidsMax = nonZero (maxPids b)\<rparr>\<rparr>)"

definition assertRunAcceptsOperations :: "string \<Rightarrow> unit domM" where
  "assertRunAcceptsOperations runId = inStore (assertRunOpen runId)"

definition recordCapabilityUsed :: "millis \<Rightarrow> ExecuteProcessOptions \<Rightarrow> string \<Rightarrow> AdmissionResult \<Rightarrow> unit domM" where
  "recordCapabilityUsed now o' capId adm = (\<lambda>d. inStore (recordEvent
     (mkEvent (dm_domainId d) (Some (xo_runId o')) (Some (xo_opId o')) ''CAPABILITY_USED''
       (JObj [(''capabilityId'', JStr capId), (''scope'', scopeJson (cap_scope (ar_capability adm))),
              (''limits'', limitsJson (ar_effectiveLimits adm)), (''actor'', JStr (cap_issuedBy (ar_capability adm))),
              (''opcode'', JStr ''proc.spawn''), (''workspace'', optJ JStr (xo_capabilityWorkspace o')),
              (''secretRefs'', optJ strsJ (xo_capabilitySecretRefs o'))]) now)) d)"

end
