(* ===== verification/ProcessRun.thy ===== *)
theory ProcessRun
  imports Admission Recovery
begin

text \<open>
  The life of one process operation, from its admission to its recorded result:
  \<open>finalize.ts\<close>, \<open>replay.ts\<close>, \<open>process-run.ts\<close>, \<open>process-monitor.ts\<close> and \<open>buildProcessResult\<close> of
  \<open>process-output.ts\<close>, under \<open>src/src/supervisor\<close>. A run is cut at its \<open>await\<close>s: \<open>Stage\<close> names the one
  it stands at, and each function below is the code between two of them. What the driver, the timers
  and the output streams answer there is an argument. Requests without \<open>trackReads\<close> are modelled.
\<close>

section \<open>Operations in flight\<close>

datatype Phase = PhWaiting | PhIntent | PhSpawning | PhActive | PhStopping | PhDone

fun phaseStr :: "Phase \<Rightarrow> string" where
  "phaseStr PhWaiting = ''waiting_resources''"
| "phaseStr PhIntent = ''intent_registered''"
| "phaseStr PhSpawning = ''spawning''"
| "phaseStr PhActive = ''active''"
| "phaseStr PhStopping = ''stopping''"
| "phaseStr PhDone = ''done''"

text \<open>\<open>stopPromise\<close>: absent, pending until a \<open>stopResolve\<close>, the pending promise of a stop pipeline, or
  settled.\<close>

datatype StopState = StopNone | StopRequested | StopRunning | StopSettled "KError + StopProcessResult"

record ExitFacts =
  ef_exitCode :: "int option"
  ef_signal :: "string option"

datatype RootOutcome = RootExited ExitFacts | RootTimedOut | RootStopped StopProcessResult

text \<open>What is known once the output is drained (\<open>Drained\<close>, with the exit).\<close>

record DrainFacts =
  df_exit :: ExitFacts
  df_natural :: bool
  df_reaped :: bool
  df_tree :: "TreeSettlement option"
  df_unreaped :: "int list option"

datatype Stage =
    AwaitResources "nat option"
  | AwaitSpawn
  | Aborting KError
  | Activated
  | Racing bool
  | OutcomeKnown RootOutcome
  | AwaitTimeoutStop
  | AwaitRootExit "StopProcessResult option"
  | Draining ExitFacts bool
  | Reaping ExitFacts
  | DrainingAgain ExitFacts "int list option"
  | PipesHeld ExitFacts
  | SettlingTree ExitFacts
  | ReapingTree ExitFacts
  | ReadingHits DrainFacts
  | Verifying DrainFacts
  | AwaitStop ProcessOperationResult
  | Finished

record Sampler =
  sm_peakMemoryBytes :: int
  sm_peakCpuTimeMs :: int
  sm_observed :: bool
  sm_error :: "string option"
  sm_stopped :: bool
  sm_readingHits :: bool
  sm_stopping :: "TerminationReason option"

definition newSampler :: Sampler where
  "newSampler = \<lparr>sm_peakMemoryBytes = 0, sm_peakCpuTimeMs = 0, sm_observed = False, sm_error = None,
     sm_stopped = False, sm_readingHits = False, sm_stopping = None\<rparr>"

text \<open>\<open>ActiveOperationState\<close> with the plan of its run and the stage the run stands at.\<close>

record inflight =
  if_options :: ExecuteProcessOptions
  if_op :: Operation
  if_command :: StructuredCommand
  if_confinement :: "string option"
  if_admission :: "AdmissionResult option"
  if_phase :: Phase
  if_startTime :: millis
  if_fingerprint :: string
  if_handle :: "ProcessIdentity option"
  if_cancelRequested :: bool
  if_cancelGraceMs :: "int option"
  if_timedOut :: bool
  if_reason :: "TerminationReason option"
  if_samplingError :: "string option"
  if_stop :: StopState
  if_stage :: Stage
  if_sampler :: Sampler
  if_outputBytes :: int

text \<open>
  The supervisors of a domain share its operations in flight (\<open>domain-coordination.ts\<close>).
  \<open>sv_ops\<close> holds the state object of every operation, \<open>sv_active\<close> the keys of the
  map \<open>activeOperations\<close>, \<open>sv_spawned\<close> the operations \<open>driver.spawn\<close> was called for, in order, and
  \<open>sv_outcomes\<close> how the runs ended.
\<close>

record supervisor =
  sv_domain :: domain
  sv_ops :: "(string, inflight) jsmap"
  sv_active :: "string list"
  sv_spawned :: "string list"
  sv_outcomes :: "(string \<times> (KError + OperationResult)) list"

type_synonym 'a supM = "(supervisor, KError, 'a) act"

record kernelEnv =
  ke_fs :: fsys
  ke_digest :: "json \<Rightarrow> string"
  ke_sha :: "string \<Rightarrow> string"
  ke_collate :: "string \<Rightarrow> string \<Rightarrow> bool"
  ke_driver :: PlatformDriver
  ke_confinements :: "string option \<Rightarrow> ConfinementDriver option"
  ke_confinementDefault :: "ConfinementDriver option"
  ke_message :: "KError \<Rightarrow> string"

definition setOp :: "string \<Rightarrow> (inflight \<Rightarrow> inflight) \<Rightarrow> supervisor \<Rightarrow> supervisor" where
  "setOp i f v = (case mapGet (sv_ops v) i of None \<Rightarrow> v
     | Some x \<Rightarrow> v\<lparr>sv_ops := mapSet i (f x) (sv_ops v)\<rparr>)"

definition atStage :: "string \<Rightarrow> Stage \<Rightarrow> supervisor \<Rightarrow> supervisor" where
  "atStage i st = setOp i (\<lambda>x. x\<lparr>if_stage := st\<rparr>)"

text \<open>\<open>isCancelled\<close> of the request with ticket \<open>t\<close>.\<close>

definition ticketGone :: "supervisor \<Rightarrow> nat \<Rightarrow> bool" where
  "ticketGone v t \<longleftrightarrow> list_ex (\<lambda>(i, x). if_stage x = AwaitResources (Some t) \<and> if_cancelRequested x) (sv_ops v)"

definition inDomain :: "((nat \<Rightarrow> bool) \<Rightarrow> 'a domM) \<Rightarrow> 'a supM" where
  "inDomain m = (\<lambda>v. case m (ticketGone v) (sv_domain v) of (r, d) \<Rightarrow> (r, v\<lparr>sv_domain := d\<rparr>))"

section \<open>Results\<close>

definition RESIDUAL_PID_GUIDANCE :: string where
  "RESIDUAL_PID_GUIDANCE = ''Residual PID detected. Inspect system processes manually before releasing resources.''"

definition indeterminateResult ::
    "millis \<Rightarrow> string \<Rightarrow> millis \<Rightarrow> string option \<Rightarrow> string option \<Rightarrow> TerminationReason option \<Rightarrow> string option \<Rightarrow>
     OperationResult" where
  "indeterminateResult now reason startTime capabilityId guidance terminationReason samplingError =
     ResIndeterminate \<lparr>res_durationMs = now - startTime, res_completedAt = now, res_replayed = False, res_runId = None,
       res_capabilityId = capabilityId, ir_terminationReason = terminationReason,
       ir_resourceSamplingError = truthy samplingError, ir_reason = reason,
       ir_recoveryGuidance = (case guidance of Some g \<Rightarrow> g | None \<Rightarrow> RESIDUAL_PID_GUIDANCE), ir_adjudication = None\<rparr>"

text \<open>The run and the capability of the recorded operation are filled in.\<close>

definition boundTo :: "Operation \<Rightarrow> OperationResult \<Rightarrow> OperationResult" where
  "boundTo op r = withRunAndCapability (Some (op_runId op))
     (if truthy (op_capabilityId op) \<noteq> None \<and> truthy (res_capabilityId (resultBase r)) = None
      then op_capabilityId op else res_capabilityId (resultBase r)) r"

definition finalizeOperation ::
    "millis \<Rightarrow> string \<Rightarrow> OperationResult \<Rightarrow> string list \<Rightarrow> bool \<Rightarrow> (nat \<Rightarrow> bool) \<Rightarrow> OperationResult domM" where
  "finalizeOperation now opId result requiredResources releaseResourceLock gone = (\<lambda>d.
     let existing = getOperation opId (dm_store d)
     in if (case existing of Some o' \<Rightarrow> op_status o' = ODone | None \<Rightarrow> False)
        then (Inl (OperationAlreadyFinalized opId), d)
        else (let r = (case existing of Some o' \<Rightarrow> boundTo o' result | None \<Rightarrow> result)
          in (if isIndeterminate r
              then thenDo (inStore (recordOperationResult opId r False))
                (thenDo (\<lambda>d. case getOperation opId (dm_store d) of None \<Rightarrow> (Inr (), d)
                     | Some o' \<Rightarrow> inStore (updateRunStatus now (op_runId o') RIndeterminate (resultTerminationReason r) None) d)
                  (ret r))
              else thenDo (inStore (recordOperationResult opId r True))
                (thenDo (whenDo releaseResourceLock (internalReleaseResources gone now opId requiredResources))
                  (ret r))) d))"

section \<open>Replay\<close>

definition replayConflict :: "string \<Rightarrow> string \<Rightarrow> string \<Rightarrow> string \<Rightarrow> string \<Rightarrow> KError" where
  "replayConflict opId known given status runId = OperationIdConflictError opId known given status runId"

text \<open>\<open>joinInFlight\<close> up to the wait for the running operation's result.\<close>

definition joinRunning :: "millis \<Rightarrow> inflight \<Rightarrow> ExecuteProcessOptions \<Rightarrow> string \<Rightarrow> unit domM" where
  "joinRunning now x o' fp =
     (if if_fingerprint x \<noteq> fp
      then raise (replayConflict (xo_opId o') (if_fingerprint x) fp (phaseStr (if_phase x)) (op_runId (if_op x)))
      else (\<lambda>d. inStore (recordReplay now (dm_domainId d) (xo_opId o') RmJoined (xo_runId o')) d))"

fun replayedAs :: "string \<Rightarrow> OperationResult \<Rightarrow> OperationResult" where
  "replayedAs runId (ResProcess r) = ResProcess (r\<lparr>res_replayed := True, res_runId := Some runId\<rparr>)"
| "replayedAs runId (ResIndeterminate r) = ResIndeterminate (r\<lparr>res_replayed := True, res_runId := Some runId\<rparr>)"
| "replayedAs runId r = r"

fun isProcessResult :: "OperationResult \<Rightarrow> bool" where
  "isProcessResult (ResProcess _) = True"
| "isProcessResult (ResIndeterminate _) = True"
| "isProcessResult _ = False"

definition replayRecorded :: "millis \<Rightarrow> ExecuteProcessOptions \<Rightarrow> string \<Rightarrow> OperationResult option domM" where
  "replayRecorded now o' fp = (\<lambda>d. case getOperation (xo_opId o') (dm_store d) of
     None \<Rightarrow> (Inr None, d)
   | Some op \<Rightarrow>
       if op_inputFingerprint op \<noteq> fp
       then (Inl (replayConflict (xo_opId o') (op_inputFingerprint op) fp (opStatusStr (op_status op)) (op_runId op)), d)
       else if op_status op \<noteq> ODone then (Inl (RecoveryRequiredError (xo_opId o') (op_status op) (op_runId op)), d)
       else (case op_result op of
           None \<Rightarrow> (Inl (ReplayIncompatible (xo_opId o')), d)
         | Some r \<Rightarrow> if \<not> isProcessResult r then (Inl (ReplayIncompatible (xo_opId o')), d)
             else thenDo (inStore (recordReplay now (dm_domainId d) (xo_opId o')
                     (if isIndeterminate r then RmIndeterminate else RmRecorded) (xo_runId o')))
                   (ret (Some (replayedAs (op_runId op) r))) d))"

section \<open>The end of a run\<close>

definition stoppedDirectly :: StopProcessResult where
  "stoppedDirectly = \<lparr>stp_stopped = StConfirmedStopped, stp_scope = ScDirectChild, stp_residualPids = None,
     stp_unreapedPids = None, stp_errorDetails = None\<rparr>"

text \<open>\<open>stopResolve?.(res)\<close>: only a promise no pipeline has taken over is resolved.\<close>

definition resolveStop :: "StopProcessResult \<Rightarrow> inflight \<Rightarrow> inflight" where
  "resolveStop r x = (if if_stop x = StopRequested then x\<lparr>if_stop := StopSettled (Inr r)\<rparr> else x)"

text \<open>The \<open>finally\<close> of \<open>runProcess\<close>: the sampler stops, a pending stop promise is resolved, and the
  operation leaves the map.\<close>

definition finish :: "string \<Rightarrow> KError + OperationResult \<Rightarrow> supervisor \<Rightarrow> supervisor" where
  "finish i outcome v = (let v' = setOp i (\<lambda>x. resolveStop (stoppedDirectly\<lparr>stp_errorDetails :=
         (if if_phase x = PhDone then None else Some ''Operation terminated before process activation'')\<rparr>)
       (x\<lparr>if_stage := Finished, if_sampler := (if_sampler x)\<lparr>sm_stopped := True\<rparr>\<rparr>)) v
     in v'\<lparr>sv_active := filter (\<lambda>j. j \<noteq> i) (sv_active v'), sv_outcomes := sv_outcomes v' @ [(i, outcome)]\<rparr>)"

text \<open>\<open>return m\<close>: whatever \<open>m\<close> returns or throws is the outcome of the run.\<close>

definition concludeBy :: "string \<Rightarrow> OperationResult supM \<Rightarrow> supervisor \<Rightarrow> supervisor" where
  "concludeBy i m v = (case m v of (r, v') \<Rightarrow> finish i r v')"

definition resourcesOf :: "inflight \<Rightarrow> string list" where
  "resourcesOf x = orElse (xo_requiredResources (if_options x)) []"

definition holdLeases :: "millis \<Rightarrow> string \<Rightarrow> inflight \<Rightarrow> OperationResult \<Rightarrow> OperationResult supM" where
  "holdLeases now i x r = inDomain (finalizeOperation now i r (resourcesOf x) False)"

definition pidText :: "inflight \<Rightarrow> string" where
  "pidText x = (case if_handle x of Some i \<Rightarrow> intText (pid i) | None \<Rightarrow> [])"

definition detailsOf :: "StopProcessResult \<Rightarrow> string \<Rightarrow> string" where
  "detailsOf s other = (case truthy (stp_errorDetails s) of Some e \<Rightarrow> e | None \<Rightarrow> other)"

section \<open>Before the process runs\<close>

text \<open>The result of a run that never became active.\<close>

definition unstarted ::
    "millis \<Rightarrow> inflight \<Rightarrow> ProcStatus \<Rightarrow> int option \<Rightarrow> string \<Rightarrow> string option \<Rightarrow> ProcessOperationResult" where
  "unstarted now x status exit stderr failure =
     (processEnd status stderr NotOriginalProcess (now - if_startTime x) now)
       \<lparr>pr_exitCode := exit, pr_spawnFailure := failure\<rparr>"

definition cancelBeforeSpawn :: "kernelEnv \<Rightarrow> millis \<Rightarrow> string \<Rightarrow> inflight \<Rightarrow> (nat \<Rightarrow> bool) \<Rightarrow> OperationResult domM" where
  "cancelBeforeSpawn k now i x gone =
     (let o' = if_options x;
          r = ResProcess ((unstarted now x PCancelled None [] None)
                \<lparr>res_capabilityId := xo_capabilityId o', pr_terminationReason := Some TUserCancelled, pr_evidence := Some Unobserved\<rparr>)
      in (\<lambda>d. if getOperation i (dm_store d) = None
          then thenDo (inStore (recordPreIntentCancelledOperation (ke_digest k)
                 \<lparr>op_id = i, op_runId = xo_runId o', op_domainId = dm_domainId d, op_kind = KProcess, op_name = xo_name o',
                  op_inputFingerprint = (case truthy (xo_inputFingerprint o') of Some f \<Rightarrow> f
                    | None \<Rightarrow> computeInputFingerprint (ke_digest k) (ke_sha k) (ke_collate k) o'),
                  op_requiredResources = resourcesOf x, op_mutationRoots = None, op_capabilityId = None,
                  op_timeoutMs = None, op_resourceBudget = None, op_spawnGated = None, op_recoveryEvidence = None,
                  op_configSnapshot = op_configSnapshot (if_op x), op_outputRef = None, op_status = ODone,
                  op_result = None, op_processIdentity = None\<rparr> (dm_domainId d) r))
               (thenDo (internalReleaseResources gone now i (resourcesOf x)) (ret r)) d
          else finalizeOperation now i r (resourcesOf x) True gone d))"

definition cancelledEarly :: "kernelEnv \<Rightarrow> millis \<Rightarrow> string \<Rightarrow> inflight \<Rightarrow> supervisor \<Rightarrow> supervisor" where
  "cancelledEarly k now i x v = concludeBy i (inDomain (cancelBeforeSpawn k now i x))
     (setOp i (\<lambda>x. resolveStop stoppedDirectly (x\<lparr>if_phase := PhDone\<rparr>)) v)"

text \<open>After the wait for resources: register the intent, then ask the driver to spawn.\<close>

definition resourcesGranted :: "kernelEnv \<Rightarrow> millis \<Rightarrow> string \<Rightarrow> inflight \<Rightarrow> supervisor \<Rightarrow> supervisor" where
  "resourcesGranted k now i x v =
     (if if_cancelRequested x then cancelledEarly k now i x v
      else (case inDomain (\<lambda>_ d. inStore (registerOperationIntent (ke_digest k) now (if_op x) (dm_domainId d)) d) v of
          (Inl e, v1) \<Rightarrow> concludeBy i (thenDo (inDomain (\<lambda>gone. internalReleaseResources gone now i (resourcesOf x))) (raise e)) v1
        | (Inr _, v1) \<Rightarrow> (let v2 = setOp i (\<lambda>x. x\<lparr>if_phase := PhSpawning, if_stage := AwaitSpawn\<rparr>) v1
            in v2\<lparr>sv_spawned := sv_spawned v2 @ [i]\<rparr>)))"

definition failSpawn :: "kernelEnv \<Rightarrow> millis \<Rightarrow> string \<Rightarrow> inflight \<Rightarrow> KError \<Rightarrow> supervisor \<Rightarrow> supervisor" where
  "failSpawn k now i x e v =
     concludeBy i (inDomain (finalizeOperation now i (ResProcess
         ((unstarted now x PFailed (Some 127) (ke_message k e) (Some (ke_message k e)))
           \<lparr>res_capabilityId := xo_capabilityId (if_options x), pr_confined := Some (if_confinement x \<noteq> None),
            pr_confinementDriver := if_confinement x\<rparr>)) (resourcesOf x) True))
       (setOp i (\<lambda>x. resolveStop (stoppedDirectly\<lparr>stp_errorDetails := Some (ke_message k e)\<rparr>) (x\<lparr>if_phase := PhDone\<rparr>)) v)"

text \<open>
  The driver answered with a process. The status \<open>active\<close> is recorded before the gate opens;
  \<open>gate\<close> is the error of \<open>releaseGate\<close>, if it throws. A failure leads to the termination of the
  process that was just started.
\<close>

definition activate :: "kernelEnv \<Rightarrow> millis \<Rightarrow> string \<Rightarrow> inflight \<Rightarrow> ProcessIdentity \<Rightarrow> KError option \<Rightarrow> unit supM" where
  "activate k now i x identity gate =
     thenDo (inDomain (\<lambda>_. inStore (updateOperationStatus now i OActive (Some identity) None)))
    (thenDo (modify (setOp i (\<lambda>x. x\<lparr>if_phase := PhActive\<rparr>)))
    (thenDo (case gate of Some e \<Rightarrow> raise e | None \<Rightarrow> ret ())
      (case (truthy (xo_capabilityId (if_options x)), if_admission x) of
         (Some c, Some adm) \<Rightarrow> inDomain (\<lambda>_. recordCapabilityUsed now (if_options x) c adm)
       | _ \<Rightarrow> ret ())))"

definition spawned :: "kernelEnv \<Rightarrow> millis \<Rightarrow> string \<Rightarrow> inflight \<Rightarrow> KError + ProcessIdentity \<Rightarrow> KError option \<Rightarrow> supervisor \<Rightarrow> supervisor" where
  "spawned k now i x answer gate v = (case answer of
     Inl e \<Rightarrow> failSpawn k now i x e v
   | Inr identity \<Rightarrow> (case activate k now i x identity gate (setOp i (\<lambda>x. x\<lparr>if_handle := Some identity\<rparr>) v) of
         (Inr _, v1) \<Rightarrow> atStage i Activated v1
       | (Inl e, v1) \<Rightarrow> setOp i (\<lambda>x. x\<lparr>if_phase := PhStopping, if_stage := Aborting e\<rparr>) v1))"

text \<open>The rest of the \<open>catch\<close>: \<open>error\<close> is what prevented the activation, \<open>answer\<close> the driver's.\<close>

definition aborted :: "kernelEnv \<Rightarrow> millis \<Rightarrow> string \<Rightarrow> inflight \<Rightarrow> KError \<Rightarrow> KError + StopProcessResult \<Rightarrow> supervisor \<Rightarrow> supervisor" where
  "aborted k now i x error answer v = (case answer of
     Inl e \<Rightarrow> finish i (Inl e) v
   | Inr stop \<Rightarrow> (let text = ke_message k error;
         r = (if stp_stopped stop = StConfirmedStopped
           then ResProcess (unstarted now x PFailed None (''Failed to register active status: '' @ text) (Some text))
           else indeterminateResult now (''Failed to register active status: '' @ text @ '', and process '' @ pidText x
                  @ '' could not be confirmed stopped: '' @ detailsOf stop ''residual processes still alive'')
                (if_startTime x) None None None None)
       in concludeBy i (thenDo (inDomain (finalizeOperation now i r (resourcesOf x) (stp_stopped stop = StConfirmedStopped)))
            (raise error)) (setOp i (\<lambda>x. resolveStop stop (x\<lparr>if_phase := PhDone\<rparr>)) v)))"

section \<open>Stopping\<close>

definition ensureActiveOperation :: "string \<Rightarrow> inflight supM" where
  "ensureActiveOperation i = (\<lambda>v.
     if \<not> dm_open (sv_domain v) then (Inl (OperationNotActiveError i NaDomainClosed), v)
     else (case (if i \<in> set (sv_active v) then mapGet (sv_ops v) i else None) of
         Some x \<Rightarrow> if if_phase x = PhDone then (Inl (OperationNotActiveError i
                (case getOperation i (dm_store (sv_domain v)) of
                   Some o' \<Rightarrow> (if op_status o' = ODone then NaAlreadyCompleted else NaNotFound) | None \<Rightarrow> NaNotFound)), v)
             else (Inr x, v)
       | None \<Rightarrow> (Inl (OperationNotActiveError i
            (case getOperation i (dm_store (sv_domain v)) of
               Some o' \<Rightarrow> (if op_status o' = ODone then NaAlreadyCompleted else NaNotFound) | None \<Rightarrow> NaNotFound)), v)))"

text \<open>
  \<open>handleStopPipeline\<close> up to the driver's answer. It throws only for an operation that is not active;
  a failure of the pipeline itself settles the stop promise.
\<close>

definition handleStopPipeline :: "millis \<Rightarrow> string \<Rightarrow> TerminationReason \<Rightarrow> unit supM" where
  "handleStopPipeline now i reason = andThen (ensureActiveOperation i) (\<lambda>x.
     if if_phase x = PhStopping \<and> if_stop x \<noteq> StopNone then ret ()
     else thenDo (modify (setOp i (\<lambda>x. x\<lparr>if_phase := PhStopping, if_reason := Some reason,
              if_cancelRequested := (if_cancelRequested x \<or> reason = TUserCancelled)\<rparr>)))
       (\<lambda>v. if if_handle x = None
          then (Inr (), setOp i (\<lambda>x. x\<lparr>if_stop := StopSettled (Inr stoppedDirectly)\<rparr>) v)
          else (case inDomain (\<lambda>_. inStore (updateOperationStatus now i OStopping None None)) v of
              (Inl e, v1) \<Rightarrow> (Inr (), setOp i (\<lambda>x. x\<lparr>if_stop := StopSettled (Inl e)\<rparr>) v1)
            | (Inr _, v1) \<Rightarrow> (Inr (), setOp i (\<lambda>x. x\<lparr>if_stop := StopRunning\<rparr>) v1))))"

text \<open>The rest of the pipeline: an unconfirmed stop ends the operation as indeterminate.\<close>

definition isolateUnstopped :: "millis \<Rightarrow> string \<Rightarrow> inflight \<Rightarrow> StopProcessResult \<Rightarrow> unit supM" where
  "isolateUnstopped now i x stop = (\<lambda>v. case getOperation i (dm_store (sv_domain v)) of
     Some o' \<Rightarrow> if op_status o' \<noteq> ODone
       then thenDo (inDomain (finalizeOperation now i
           (indeterminateResult now (''Process '' @ pidText x @ '' could not be confirmed stopped: ''
                @ (case stp_errorDetails stop of Some e \<Rightarrow> e | None \<Rightarrow> ''undefined''))
              (if_startTime x) None None (if_reason x) (if_samplingError x)) [] False)) (ret ()) v
       else (Inr (), v)
   | None \<Rightarrow> (Inr (), v))"

definition stopAnswered :: "millis \<Rightarrow> string \<Rightarrow> inflight \<Rightarrow> KError + StopProcessResult \<Rightarrow> supervisor \<Rightarrow> supervisor" where
  "stopAnswered now i x answer v = (case answer of
     Inl e \<Rightarrow> setOp i (\<lambda>x. x\<lparr>if_stop := StopSettled (Inl e)\<rparr>) v
   | Inr stop \<Rightarrow>
       if stp_stopped stop = StConfirmedStopped then setOp i (\<lambda>x. x\<lparr>if_stop := StopSettled (Inr stop)\<rparr>) v
       else (case isolateUnstopped now i x stop v of
           (Inl e, v1) \<Rightarrow> setOp i (\<lambda>x. x\<lparr>if_stop := StopSettled (Inl e)\<rparr>) v1
         | (Inr _, v1) \<Rightarrow> setOp i (\<lambda>x. x\<lparr>if_stop := StopSettled (Inr stop)\<rparr>) v1))"

definition cancelOperation :: "millis \<Rightarrow> string \<Rightarrow> int \<Rightarrow> unit supM" where
  "cancelOperation now i graceMs = andThen (ensureActiveOperation i) (\<lambda>x.
     thenDo (modify (setOp i (\<lambda>x. x\<lparr>if_cancelRequested := True, if_reason := Some TUserCancelled,
         if_cancelGraceMs := coalesce (if_cancelGraceMs x) (Some graceMs)\<rparr>)))
    (thenDo (inDomain (\<lambda>_. cancelWait i))
     (if if_phase x = PhActive \<or> if_phase x = PhStopping then handleStopPipeline now i TUserCancelled
      else modify (setOp i (\<lambda>x. if if_stop x = StopNone then x\<lparr>if_stop := StopRequested\<rparr> else x)))))"

section \<open>Budgets\<close>

text \<open>\<open>stopFor\<close>; the sampler then waits for the pipeline.\<close>

definition stopFor :: "millis \<Rightarrow> string \<Rightarrow> TerminationReason \<Rightarrow> unit supM" where
  "stopFor now i reason = thenDo (modify (setOp i (\<lambda>x. x\<lparr>if_reason := Some reason,
       if_sampler := (if_sampler x)\<lparr>sm_stopped := True, sm_stopping := Some reason\<rparr>\<rparr>))) (handleStopPipeline now i reason)"

definition samplingFailed :: "string \<Rightarrow> inflight \<Rightarrow> inflight" where
  "samplingFailed text x = (let e = coalesce (sm_error (if_sampler x)) (Some text)
     in x\<lparr>if_sampler := (if_sampler x)\<lparr>sm_error := e\<rparr>, if_samplingError := e\<rparr>)"

definition limitsSomething :: "ResourceBudget \<Rightarrow> bool" where
  "limitsSomething b \<longleftrightarrow> capped (maxMemoryBytes b) \<or> capped (maxCpuTimeMs b) \<or> capped (maxPids b)"

definition over :: "int option \<Rightarrow> int \<Rightarrow> bool" where
  "over cap n \<longleftrightarrow> capped cap \<and> (case cap of Some c \<Rightarrow> n > c | None \<Rightarrow> False)"

text \<open>The \<open>catch\<close> of \<open>sample\<close>: a soft budget that cannot be observed stops the process.\<close>

definition sampleFailure :: "kernelEnv \<Rightarrow> millis \<Rightarrow> string \<Rightarrow> ResourceBudget \<Rightarrow> KError \<Rightarrow> supervisor \<Rightarrow> supervisor" where
  "sampleFailure k now i b e v = (let v1 = setOp i (samplingFailed (ke_message k e)) v
     in case mapGet (sv_ops v1) i of None \<Rightarrow> v1
      | Some x \<Rightarrow> if \<not> sm_stopped (if_sampler x) \<and> enforcement b = EnfSoft \<and> limitsSomething b \<and> if_reason x = None
          then (case stopFor now i TObservationFailed v1 of
              (Inl e', v2) \<Rightarrow> setOp i (\<lambda>x. let t = map_option (\<lambda>t. t @ ''; stopping failed: '' @ ke_message k e') (sm_error (if_sampler x))
                  in x\<lparr>if_sampler := (if_sampler x)\<lparr>sm_error := t, sm_stopping := None\<rparr>, if_samplingError := t\<rparr>) v2
            | (Inr _, v2) \<Rightarrow> v2)
          else v1)"

text \<open>\<open>await stopFor(..)\<close> inside \<open>sample\<close>.\<close>

definition stopSample :: "kernelEnv \<Rightarrow> millis \<Rightarrow> string \<Rightarrow> ResourceBudget \<Rightarrow> TerminationReason \<Rightarrow> supervisor \<Rightarrow> supervisor" where
  "stopSample k now i b reason v = (case stopFor now i reason v of
     (Inl e, v1) \<Rightarrow> sampleFailure k now i b e (setOp i (\<lambda>x. x\<lparr>if_sampler := (if_sampler x)\<lparr>sm_stopping := None\<rparr>\<rparr>) v1)
   | (Inr _, v1) \<Rightarrow> v1)"

record Metrics =
  mt_rssBytes :: int
  mt_pidsCount :: int
  mt_cpuTimeMs :: int

definition peaked :: "Metrics \<Rightarrow> Sampler \<Rightarrow> Sampler" where
  "peaked m s = s\<lparr>sm_observed := True, sm_peakMemoryBytes := max (sm_peakMemoryBytes s) (mt_rssBytes m),
     sm_peakCpuTimeMs := max (sm_peakCpuTimeMs s) (mt_cpuTimeMs m)\<rparr>"

definition softExcess :: "ResourceBudget \<Rightarrow> Metrics \<Rightarrow> TerminationReason option" where
  "softExcess b m =
     (if over (maxMemoryBytes b) (mt_rssBytes m) then Some TMemoryExceeded
      else if over (maxCpuTimeMs b) (mt_cpuTimeMs m) then Some TCpuExceeded
      else if over (maxPids b) (mt_pidsCount m) then Some TPidsExceeded else None)"

definition sampled :: "kernelEnv \<Rightarrow> millis \<Rightarrow> string \<Rightarrow> inflight \<Rightarrow> ResourceBudget \<Rightarrow> KError + Metrics \<Rightarrow> supervisor \<Rightarrow> supervisor" where
  "sampled k now i x b answer v = (case answer of
     Inl e \<Rightarrow> sampleFailure k now i b e v
   | Inr m \<Rightarrow>
       if sm_stopped (if_sampler x) then v
       else (let v1 = setOp i (\<lambda>x. x\<lparr>if_sampler := peaked m (if_sampler x)\<rparr>) v
         in if enforcement b = EnfHard
            then (if pd_readLimitEvents (ke_driver k)
                  then setOp i (\<lambda>x. x\<lparr>if_sampler := (if_sampler x)\<lparr>sm_readingHits := True\<rparr>\<rparr>) v1 else v1)
            else if enforcement b \<noteq> EnfSoft then v1
            else (case softExcess b m of Some reason \<Rightarrow> stopSample k now i b reason v1 | None \<Rightarrow> v1)))"

text \<open>The limits the operating system enforced, as \<open>(memoryOomKills, pidsMaxHits)\<close>.\<close>

type_synonym hits = "(int \<times> int) option"

definition sampledHits :: "kernelEnv \<Rightarrow> millis \<Rightarrow> string \<Rightarrow> ResourceBudget \<Rightarrow> KError + hits \<Rightarrow> supervisor \<Rightarrow> supervisor" where
  "sampledHits k now i b answer v = (let v1 = setOp i (\<lambda>x. x\<lparr>if_sampler := (if_sampler x)\<lparr>sm_readingHits := False\<rparr>\<rparr>) v
     in case answer of
       Inl e \<Rightarrow> sampleFailure k now i b e v1
     | Inr (Some (oom, pids)) \<Rightarrow>
         if oom > 0 then setOp i (\<lambda>x. x\<lparr>if_reason := coalesce (if_reason x) (Some TMemoryExceeded)\<rparr>) v1
         else if pids > 0 then stopSample k now i b TPidsExceeded v1 else v1
     | Inr None \<Rightarrow> v1)"

text \<open>The output budget, on every chunk.\<close>

definition outputSeen :: "millis \<Rightarrow> string \<Rightarrow> inflight \<Rightarrow> int \<Rightarrow> supervisor \<Rightarrow> supervisor" where
  "outputSeen now i x bytes v = (let v1 = setOp i (\<lambda>x. x\<lparr>if_outputBytes := if_outputBytes x + bytes\<rparr>) v
     in case xo_resourceBudget (if_options x) of None \<Rightarrow> v1
      | Some b \<Rightarrow> if enforcement b = EnfSoft \<and> over (maxOutputBytes b) (if_outputBytes x + bytes) \<and> if_reason x = None
          then snd (handleStopPipeline now i TOutputExceeded (setOp i (\<lambda>x. x\<lparr>if_reason := Some TOutputExceeded\<rparr>) v1))
          else v1)"

text \<open>The sample still waiting for the pipeline it requested sees how that ended.\<close>

definition sampleEnded :: "kernelEnv \<Rightarrow> inflight \<Rightarrow> inflight" where
  "sampleEnded k x = (let s = if_sampler x; x' = x\<lparr>if_sampler := s\<lparr>sm_stopping := None\<rparr>\<rparr>
     in case (sm_stopping s, if_stop x) of
         (Some reason, StopSettled (Inl e)) \<Rightarrow>
           if reason = TObservationFailed
           then (let t = map_option (\<lambda>t. t @ ''; stopping failed: '' @ ke_message k e) (sm_error s)
                 in x'\<lparr>if_sampler := (if_sampler x')\<lparr>sm_error := t\<rparr>, if_samplingError := t\<rparr>)
           else samplingFailed (ke_message k e) x'
       | _ \<Rightarrow> x')"

text \<open>The end of sampling: one last sample, taken unless sampling failed. Without \<open>sampleMetrics\<close> or
  a budget there is none.\<close>

definition lastSample :: "kernelEnv \<Rightarrow> KError + Metrics \<Rightarrow> inflight \<Rightarrow> inflight" where
  "lastSample k answer x = (let s = if_sampler x in
     if sm_error s \<noteq> None \<or> \<not> pd_sampleMetrics (ke_driver k) \<or> xo_resourceBudget (if_options x) = None then x
     else (case answer of
         Inr m \<Rightarrow> if mt_rssBytes m > 0 \<or> mt_cpuTimeMs m > 0 then x\<lparr>if_sampler := peaked m s\<rparr> else x
       | Inl e \<Rightarrow> if sm_observed s then x else samplingFailed (ke_message k e) x))"

section \<open>The end of the root process\<close>

definition recordUnconfirmedStop ::
    "millis \<Rightarrow> string \<Rightarrow> inflight \<Rightarrow> StopProcessResult \<Rightarrow> bool \<Rightarrow> OperationResult supM" where
  "recordUnconfirmedStop now i x stop withCapability = (\<lambda>v.
     let indet = indeterminateResult now (''Process '' @ pidText x @ '' was cancelled or stopped but could not be confirmed: ''
             @ detailsOf stop ''residual processes still alive'') (if_startTime x)
           (if withCapability then xo_capabilityId (if_options x) else None) None (if_reason x) (if_samplingError x)
     in case getOperation i (dm_store (sv_domain v)) of
         Some o' \<Rightarrow> if op_status o' = ODone
           then (case op_result o' of
               Some r \<Rightarrow> if isProcessResult r then (Inr r, v) else (Inl (ReplayIncompatible i), v)
             | None \<Rightarrow> (Inl (ReplayIncompatible i), v))
           else holdLeases now i x indet v
       | None \<Rightarrow> holdLeases now i x indet v)"

text \<open>\<open>settleRootOutcome\<close> up to its next wait.\<close>

definition outcomeSettled :: "millis \<Rightarrow> string \<Rightarrow> inflight \<Rightarrow> RootOutcome \<Rightarrow> supervisor \<Rightarrow> supervisor" where
  "outcomeSettled now i x outcome v = (case outcome of
     RootExited e \<Rightarrow> atStage i (Draining e True) v
   | RootStopped stop \<Rightarrow>
       if stp_stopped stop \<noteq> StConfirmedStopped then concludeBy i (recordUnconfirmedStop now i x stop False) v
       else atStage i (AwaitRootExit None) v
   | RootTimedOut \<Rightarrow>
      (case handleStopPipeline now i TTimedOut (setOp i (\<lambda>x. x\<lparr>if_timedOut := True, if_reason := Some TTimedOut\<rparr>) v) of
         (Inl e, v1) \<Rightarrow> finish i (Inl e) v1
       | (Inr _, v1) \<Rightarrow> atStage i AwaitTimeoutStop v1))"

definition timeoutUnconfirmed :: "millis \<Rightarrow> string \<Rightarrow> inflight \<Rightarrow> StopProcessResult \<Rightarrow> OperationResult supM" where
  "timeoutUnconfirmed now i x stop = (\<lambda>v.
     let indet = indeterminateResult now (''Process '' @ pidText x
             @ '' timed out and root process could not be confirmed exited within 1000ms bound: ''
             @ detailsOf stop ''root process still alive'') (if_startTime x) None None None None
     in case getOperation i (dm_store (sv_domain v)) of
         Some o' \<Rightarrow> (case (op_status o' = ODone, op_result o') of
             (True, Some r) \<Rightarrow> if isIndeterminate r then (Inr r, v) else holdLeases now i x indet v
           | _ \<Rightarrow> holdLeases now i x indet v)
       | None \<Rightarrow> holdLeases now i x indet v)"

text \<open>\<open>waitRootExit\<close> answered; \<open>None\<close> when it gave up. \<open>timeout\<close> is the answer of the stop a timeout
  requested.\<close>

definition rootWaited ::
    "millis \<Rightarrow> string \<Rightarrow> inflight \<Rightarrow> StopProcessResult option \<Rightarrow> ExitFacts option \<Rightarrow> supervisor \<Rightarrow> supervisor" where
  "rootWaited now i x timeout exit v = (case timeout of
     None \<Rightarrow> atStage i (Draining (case exit of Some e \<Rightarrow> e
         | None \<Rightarrow> \<lparr>ef_exitCode = None, ef_signal = Some ''SIGKILL''\<rparr>) False) v
   | Some stop \<Rightarrow> (case (stp_stopped stop = StConfirmedStopped, exit) of
         (True, Some e) \<Rightarrow> atStage i (Draining e False) v
       | _ \<Rightarrow> concludeBy i (timeoutUnconfirmed now i x stop) v))"

section \<open>Draining and the process tree\<close>

definition treeStatusOf :: "TreeSettlement option \<Rightarrow> TreeStatus" where
  "treeStatusOf t = (case t of Some TSEmpty \<Rightarrow> TreeEmpty | Some TSReaped \<Rightarrow> TreeResidual | _ \<Rightarrow> TreeUnknown)"

text \<open>After \<open>drainOrReap\<close>: the recovery evidence is updated, then the limits and the identity are read.\<close>

definition drainedWith :: "kernelEnv \<Rightarrow> millis \<Rightarrow> string \<Rightarrow> inflight \<Rightarrow> DrainFacts \<Rightarrow> supervisor \<Rightarrow> supervisor" where
  "drainedWith k now i x f v =
     (let source = (if df_natural f then ENaturalExit else EStop);
          patch = \<lparr>pt_identity = None,
            pt_tree = Some \<lparr>te_status = treeStatusOf (df_tree f), te_scope = None, te_residualPids = None,
                te_source = source, te_observedAt = now\<rparr>,
            pt_pipes = Some \<lparr>pe_stdin = PUnknown, pe_stdout = PDrained, pe_stderr = PDrained,
                pe_source = source, pe_observedAt = now\<rparr>,
            pt_containment = None\<rparr>
      in case inDomain (\<lambda>_. inStore (updateRecoveryEvidence i patch)) v of
          (Inl e, v1) \<Rightarrow> finish i (Inl e) v1
        | (Inr _, v1) \<Rightarrow>
            if (case xo_resourceBudget (if_options x) of Some b \<Rightarrow> enforcement b = EnfHard | None \<Rightarrow> False)
               \<and> if_reason x = None \<and> pd_readLimitEvents (ke_driver k)
            then atStage i (ReadingHits f) v1 else atStage i (Verifying f) v1)"

definition exitText :: "ExitFacts \<Rightarrow> string" where
  "exitText e = '' exited (exitCode='' @ (case ef_exitCode e of Some n \<Rightarrow> intText n | None \<Rightarrow> ''null'')
     @ '', signal='' @ (case ef_signal e of Some s \<Rightarrow> s | None \<Rightarrow> ''null'') @ '')''"

definition heldPipes :: "millis \<Rightarrow> string \<Rightarrow> inflight \<Rightarrow> ExitFacts \<Rightarrow> supervisor \<Rightarrow> supervisor" where
  "heldPipes now i x e v = concludeBy i (holdLeases now i x
     (indeterminateResult now (''Process '' @ pidText x @ exitText e @ '' and its process group was confirmed stopped, ''
          @ ''but stdout/stderr pipes are still held by an unobserved escaped process'') (if_startTime x)
        (xo_capabilityId (if_options x))
        (Some (''An escaped process outside the observed process tree still holds the output pipes. ''
          @ ''Inspect system processes manually before adjudicating and releasing resources.'')) None None)) v"

definition factsOf :: "ExitFacts \<Rightarrow> bool \<Rightarrow> bool \<Rightarrow> TreeSettlement option \<Rightarrow> int list option \<Rightarrow> DrainFacts" where
  "factsOf e natural reaped tree unreaped =
     \<lparr>df_exit = e, df_natural = natural, df_reaped = reaped, df_tree = tree, df_unreaped = nonEmptyPids unreaped\<rparr>"

text \<open>The streams ended, or the bound on draining passed.\<close>

definition drained :: "kernelEnv \<Rightarrow> millis \<Rightarrow> string \<Rightarrow> inflight \<Rightarrow> ExitFacts \<Rightarrow> bool \<Rightarrow> bool \<Rightarrow> supervisor \<Rightarrow> supervisor" where
  "drained k now i x e natural done' v =
     (if done'
      then (if \<not> natural \<or> if_stop x \<noteq> StopNone then drainedWith k now i x (factsOf e natural False None None) v
            else if pd_settleTree (ke_driver k) then atStage i (SettlingTree e) v
            else drainedWith k now i x (factsOf e True False (Some TSUnverified) None) v)
      else if natural then atStage i (Reaping e) v
      else atStage i (PipesHeld e) v)"

text \<open>The driver was asked to terminate what still holds the pipes of a process that exited.\<close>

definition reaped :: "millis \<Rightarrow> string \<Rightarrow> inflight \<Rightarrow> ExitFacts \<Rightarrow> KError + StopProcessResult \<Rightarrow> supervisor \<Rightarrow> supervisor" where
  "reaped now i x e answer v = (case answer of
     Inl err \<Rightarrow> finish i (Inl err) v
   | Inr stop \<Rightarrow>
       if stp_stopped stop \<noteq> StConfirmedStopped
       then concludeBy i (holdLeases now i x (indeterminateResult now (''Process '' @ pidText x
              @ '' exited but residual descendants could not be confirmed stopped: ''
              @ (case stp_errorDetails stop of Some d \<Rightarrow> d | None \<Rightarrow> ''undefined'')) (if_startTime x) None None None None)) v
       else atStage i (DrainingAgain e (stp_unreapedPids stop)) v)"

definition drainedAgain ::
    "kernelEnv \<Rightarrow> millis \<Rightarrow> string \<Rightarrow> inflight \<Rightarrow> ExitFacts \<Rightarrow> int list option \<Rightarrow> bool \<Rightarrow> supervisor \<Rightarrow> supervisor" where
  "drainedAgain k now i x e pids done' v =
     (if done' then drainedWith k now i x
        (factsOf e True True (if if_stop x \<noteq> StopNone then None else Some TSReaped) pids) v
      else atStage i (PipesHeld e) v)"

text \<open>\<open>settleProcessTree\<close>: the driver's answer on the tree, then on the termination of a residue.\<close>

definition treeAnswered :: "kernelEnv \<Rightarrow> millis \<Rightarrow> string \<Rightarrow> inflight \<Rightarrow> ExitFacts \<Rightarrow> KError + TreeStatus \<Rightarrow> supervisor \<Rightarrow> supervisor" where
  "treeAnswered k now i x e answer v = (case answer of
     Inl err \<Rightarrow> finish i (Inl err) v
   | Inr TreeEmpty \<Rightarrow> drainedWith k now i x (factsOf e True False (Some TSEmpty) None) v
   | Inr TreeUnknown \<Rightarrow> drainedWith k now i x (factsOf e True False (Some TSUnverified) None) v
   | Inr TreeResidual \<Rightarrow> atStage i (ReapingTree e) v)"

definition treeReaped ::
    "kernelEnv \<Rightarrow> millis \<Rightarrow> string \<Rightarrow> inflight \<Rightarrow> ExitFacts \<Rightarrow> KError + StopProcessResult \<Rightarrow> supervisor \<Rightarrow> supervisor" where
  "treeReaped k now i x e answer v = (case answer of
     Inl err \<Rightarrow> finish i (Inl err) v
   | Inr stop \<Rightarrow>
       if stp_stopped stop = StConfirmedStopped
       then drainedWith k now i x (factsOf e True True (Some TSReaped) (stp_unreapedPids stop)) v
       else concludeBy i (holdLeases now i x (indeterminateResult now (''Process '' @ pidText x
              @ '' exited but descendants that left its output pipes could not be confirmed stopped: ''
              @ (case stp_errorDetails stop of Some d \<Rightarrow> d | None \<Rightarrow> ''residual processes still alive''))
            (if_startTime x) (xo_capabilityId (if_options x)) None None None)) v)"

definition limitsRead :: "string \<Rightarrow> DrainFacts \<Rightarrow> KError + hits \<Rightarrow> supervisor \<Rightarrow> supervisor" where
  "limitsRead i f answer v = (case answer of
     Inl err \<Rightarrow> finish i (Inl err) v
   | Inr h \<Rightarrow> atStage i (Verifying f) (case h of
         Some (oom, pids) \<Rightarrow>
           if oom > 0 then setOp i (\<lambda>x. x\<lparr>if_reason := Some TMemoryExceeded\<rparr>) v
           else if pids > 0 then setOp i (\<lambda>x. x\<lparr>if_reason := Some TPidsExceeded\<rparr>) v else v
       | None \<Rightarrow> v))"

section \<open>The result\<close>

text \<open>What \<open>getResult\<close> of a stream's drainer returns.\<close>

record StreamResult =
  so_content :: string
  so_isTruncated :: bool
  so_outputRef :: "string option"
  so_bytesSeen :: int
  so_outputHash :: "string option"
  so_spillError :: "string option"

record OutputCapture =
  oc_stdout :: StreamResult
  oc_stderr :: StreamResult
  oc_artifactsDirError :: "string option"
  oc_callbackError :: "string option"

definition stoppedByLimit :: "inflight \<Rightarrow> bool" where
  "stoppedByLimit x \<longleftrightarrow> if_timedOut x \<or> if_reason x \<in> Some ` {TMemoryExceeded, TCpuExceeded, TPidsExceeded,
     TOutputExceeded, TObservationFailed}"

definition statusOf :: "inflight \<Rightarrow> ExitFacts \<Rightarrow> ProcStatus" where
  "statusOf x e = (if stoppedByLimit x then PFailed
     else if if_cancelRequested x then PCancelled
     else if ef_exitCode e = Some 0 then PSucceeded else PFailed)"

definition firstOf :: "string option \<Rightarrow> string option \<Rightarrow> string option" where
  "firstOf a b = (case truthy a of Some s \<Rightarrow> Some s | None \<Rightarrow> b)"

definition unspilled :: "StreamResult \<Rightarrow> string option \<Rightarrow> string option" where
  "unspilled s value = (if truthy (so_spillError s) = None then value else None)"

definition buildProcessResult ::
    "millis \<Rightarrow> inflight \<Rightarrow> OutputCapture \<Rightarrow> DrainFacts \<Rightarrow> IdentityVerificationResult \<Rightarrow> ProcessOperationResult" where
  "buildProcessResult now x c f identity =
     (let e = df_exit f; out = oc_stdout c; err = oc_stderr c; s = if_sampler x; status = statusOf x e;
          spillError = truthy (firstOf (so_spillError out) (firstOf (so_spillError err) (oc_artifactsDirError c)));
          seen = (sm_observed s \<and> truthy (sm_error s) = None)
      in \<lparr>res_durationMs = now - if_startTime x, res_completedAt = now, res_replayed = False, res_runId = None,
          res_capabilityId = xo_capabilityId (if_options x), pr_status = status, pr_exitCode = ef_exitCode e,
          pr_signal = ef_signal e, pr_stdout = so_content out, pr_stderr = so_content err,
          pr_confinementDriver = if_confinement x, pr_confined = Some (if_confinement x \<noteq> None),
          pr_isTruncated = (so_isTruncated out \<or> so_isTruncated err),
          pr_stdoutTruncated = Some (so_isTruncated out), pr_stderrTruncated = Some (so_isTruncated err),
          pr_stdoutRef = unspilled out (so_outputRef out), pr_stderrRef = unspilled err (so_outputRef err),
          pr_stdoutBytes = Some (so_bytesSeen out), pr_stderrBytes = Some (so_bytesSeen err),
          pr_stdoutHash = unspilled out (so_outputHash out), pr_stderrHash = unspilled err (so_outputHash err),
          pr_outputRef = (if spillError = None then truthy (firstOf (so_outputRef out) (so_outputRef err)) else None),
          pr_outputHash = (if spillError = None then truthy (firstOf (so_outputHash out) (so_outputHash err)) else None),
          pr_terminationReason = (case if_reason x of Some r \<Rightarrow> Some r
            | None \<Rightarrow> if status = PSucceeded then Some TCompleted else None),
          pr_spawnFailure = None,
          pr_peakMemoryBytes = (if seen then Some (sm_peakMemoryBytes s) else None),
          pr_cpuTimeMs = (if seen then Some (sm_peakCpuTimeMs s) else None),
          pr_resourceSamplingError = truthy (sm_error s),
          pr_residualProcessesReaped = (if df_reaped f then Some True else None), pr_treeSettlement = df_tree f,
          pr_streamCallbackError = truthy (oc_callbackError c), pr_spillError = spillError,
          pr_stdoutSpillError = truthy (so_spillError out), pr_stderrSpillError = truthy (so_spillError err),
          pr_residualPids = None, pr_unreapedPids = df_unreaped f, pr_identityVerification = identity,
          pr_evidence = None, pr_readEvidenceRef = None\<rparr>)"

definition recordResult :: "millis \<Rightarrow> string \<Rightarrow> inflight \<Rightarrow> ProcessOperationResult \<Rightarrow> supervisor \<Rightarrow> supervisor" where
  "recordResult now i x r v = concludeBy i (inDomain (finalizeOperation now i (ResProcess r) (resourcesOf x) True)) v"

text \<open>The identity was verified: the result is built; a stop that was requested is waited for first.\<close>

definition verified ::
    "millis \<Rightarrow> string \<Rightarrow> inflight \<Rightarrow> DrainFacts \<Rightarrow> OutputCapture \<Rightarrow> KError + IdentityVerificationResult \<Rightarrow> supervisor \<Rightarrow> supervisor" where
  "verified now i x f c answer v = (case answer of
     Inl err \<Rightarrow> finish i (Inl err) v
   | Inr identity \<Rightarrow> (let r = buildProcessResult now x c f identity
       in if if_stop x = StopNone then recordResult now i x r v else atStage i (AwaitStop r) v))"

definition mergePids :: "int list option \<Rightarrow> int list option \<Rightarrow> int list option" where
  "mergePids known extra = (case nonEmptyPids extra of None \<Rightarrow> known
     | Some ps \<Rightarrow> Some (uniqueList (orElse known [] @ ps)))"

definition stopAwaited :: "millis \<Rightarrow> string \<Rightarrow> inflight \<Rightarrow> ProcessOperationResult \<Rightarrow> KError + StopProcessResult \<Rightarrow> supervisor \<Rightarrow> supervisor" where
  "stopAwaited now i x r answer v = (case answer of
     Inl err \<Rightarrow> finish i (Inl err) v
   | Inr stop \<Rightarrow>
       if stp_stopped stop \<noteq> StConfirmedStopped then concludeBy i (recordUnconfirmedStop now i x stop True) v
       else recordResult now i x (r\<lparr>pr_unreapedPids := mergePids (pr_unreapedPids r) (stp_unreapedPids stop)\<rparr>) v)"

end
