(* ===== verification/Supervisor.thy ===== *)
theory Supervisor
  imports ProcessRun
begin

text \<open>
  The process supervisor of a domain, \<open>ProcessSupervisor\<close> in \<open>src/src/supervisor/supervisor.ts\<close>:
  the admission of requests, and the system of all operations in flight. \<open>supEvent\<close> lists what can
  happen to it: calls of its methods, timers, and the answers its runs wait for; \<open>step\<close> is the code
  an event resumes, \<open>None\<close> when nothing waits for it. A stop pipeline outlives the run it was started for. Operations of other kinds on the same
  domain are not events here, nor is closing the domain.
\<close>

section \<open>Execution requests\<close>

datatype ExecuteReply = Started | Joined | Replayed OperationResult

definition commandConfig :: "ExecuteProcessOptions \<Rightarrow> json" where
  "commandConfig o' = (let c = xo_command o'; keys = (\<lambda>e. strsJ (sortBy id (map fst (orElse e [])))) in JObj
     [(''command'', JObj [(''execPath'', JStr (cmd_execPath c)), (''cwd'', JStr (cmd_cwd c)),
         (''inheritEnv'', JBool (orElse (cmd_inheritEnv c) False)), (''envKeys'', keys (cmd_envWhiteList c)),
         (''secretEnvKeys'', keys (cmd_secretEnv c))]),
      (''timeoutMs'', optJ JNum (xo_timeoutMs o')), (''maxOutputBytes'', optJ JNum (xo_maxOutputBytes o')),
      (''drainTimeoutMs'', optJ JNum (xo_drainTimeoutMs o')), (''waitTimeoutMs'', optJ JNum (xo_waitTimeoutMs o')),
      (''resourceBudget'', optJ budgetJson (xo_resourceBudget o')),
      (''confinement'', (case xo_confinement o' of Some (CfNamed n) \<Rightarrow> JStr n | Some (CfFlag True) \<Rightarrow> JStr ''default''
          | _ \<Rightarrow> JUndef)),
      (''trackReads'', JUndef)])"

definition requestSnapshot :: "kernelEnv \<Rightarrow> millis \<Rightarrow> ExecuteProcessOptions \<Rightarrow> RequestConfigSnapshot" where
  "requestSnapshot k now o' = createRequestConfigSnapshot (ke_digest k) now
     \<lparr>rci_driverName = pd_name (ke_driver k), rci_driverCapabilities = pd_facts (ke_driver k),
      rci_capabilityId = xo_capabilityId o', rci_capabilityPolicyVersion = xo_capabilityPolicyVersion o',
      rci_driverVersion = None, rci_config = commandConfig o', rci_retentionVersion = None,
      rci_redactionVersion = None\<rparr>"

definition assertIdAvailable :: "string \<Rightarrow> unit supM" where
  "assertIdAvailable i = (\<lambda>v. case (if i \<in> set (sv_active v) then mapGet (sv_ops v) i else None) of
     Some x \<Rightarrow> (Inl (DuplicateActiveError i (op_runId (if_op x))), v)
   | None \<Rightarrow> inDomain (\<lambda>_. assertOperationIdAvailable i) v)"

definition pendingOp ::
    "kernelEnv \<Rightarrow> millis \<Rightarrow> ExecuteProcessOptions \<Rightarrow> string list \<Rightarrow> string \<Rightarrow> string \<Rightarrow> RequestConfigSnapshot \<Rightarrow> Operation" where
  "pendingOp k now o' roots fp domainId snapshot =
     \<lparr>op_id = xo_opId o', op_runId = xo_runId o', op_domainId = domainId, op_kind = KProcess, op_name = xo_name o',
      op_inputFingerprint = fp, op_requiredResources = orElse (xo_requiredResources o') [],
      op_mutationRoots = Some roots, op_capabilityId = xo_capabilityId o', op_timeoutMs = xo_timeoutMs o',
      op_resourceBudget = xo_resourceBudget o',
      op_spawnGated = Some (rdc_gatedSpawn (pd_recovery (ke_driver k)) = Some True),
      op_recoveryEvidence = Some (createRecoveryEvidence now (pd_name (ke_driver k)) (pd_recovery (ke_driver k))),
      op_configSnapshot = Some snapshot, op_outputRef = None, op_status = OPending, op_result = None,
      op_processIdentity = None\<rparr>"

text \<open>\<open>trackOperation\<close>: the operation enters the map; an aborted signal cancels it before it starts.\<close>

definition trackOperation ::
    "ExecuteProcessOptions \<Rightarrow> Operation \<Rightarrow> StructuredCommand \<Rightarrow> string option \<Rightarrow> AdmissionResult option \<Rightarrow> string \<Rightarrow>
     millis \<Rightarrow> inflight" where
  "trackOperation o' op command confinement adm fp startTime =
     \<lparr>if_options = o', if_op = op, if_command = command, if_confinement = confinement, if_admission = adm,
      if_phase = PhWaiting, if_startTime = startTime, if_fingerprint = fp, if_handle = None,
      if_cancelRequested = (xo_aborted o' = Some True), if_cancelGraceMs = None, if_timedOut = False, if_reason = None,
      if_samplingError = None, if_stop = StopNone, if_stage = AwaitResources None, if_sampler = newSampler,
      if_outputBytes = 0\<rparr>"

text \<open>\<open>runProcess\<close> up to its first wait.\<close>

definition startRun :: "millis \<Rightarrow> inflight \<Rightarrow> supervisor \<Rightarrow> supervisor" where
  "startRun now x v0 = (let i = op_id (if_op x);
       v = v0\<lparr>sv_ops := mapSet i x (sv_ops v0), sv_active := setAdd i (sv_active v0)\<rparr>
     in case inDomain (\<lambda>_. allocateResourcesWithWait now (if_cancelRequested x) i (resourcesOf x)
           (orElse (xo_waitTimeoutMs (if_options x)) 0) (xo_resourceBudget (if_options x))) v of
         (Inl e, v1) \<Rightarrow> finish i (Inl e) v1
       | (Inr t, v1) \<Rightarrow> atStage i (AwaitResources t) v1)"

text \<open>After the checks: a repeated request joins or replays, a new one starts.\<close>

definition submit ::
    "kernelEnv \<Rightarrow> millis \<Rightarrow> ExecuteProcessOptions \<Rightarrow> string list \<Rightarrow> AdmissionResult option \<Rightarrow> string option \<Rightarrow>
     StructuredCommand \<Rightarrow> string \<Rightarrow> RequestConfigSnapshot \<Rightarrow> ExecuteReply supM" where
  "submit k now o' roots adm confinement command fp snapshot = (\<lambda>v.
     let i = xo_opId o' in
     case (if i \<in> set (sv_active v) then mapGet (sv_ops v) i else None) of
       Some x \<Rightarrow> thenDo (inDomain (\<lambda>_. joinRunning now x o' fp)) (ret Joined) v
     | None \<Rightarrow> andThen (inDomain (\<lambda>_. replayRecorded now o' fp)) (\<lambda>r. case r of
         Some res \<Rightarrow> ret (Replayed res)
       | None \<Rightarrow> thenDo (assertIdAvailable i) (\<lambda>v. (Inr Started,
           startRun now (trackOperation o' (pendingOp k now o' roots fp (dm_domainId (sv_domain v)) snapshot)
              command confinement adm fp now) v))) v)"

definition orRaise :: "KError option \<Rightarrow> unit supM" where
  "orRaise e = (case e of None \<Rightarrow> ret () | Some err \<Rightarrow> raise err)"

definition executeProcess :: "kernelEnv \<Rightarrow> millis \<Rightarrow> ExecuteProcessOptions \<Rightarrow> ExecuteReply supM" where
  "executeProcess k now o0 =
     thenDo (orRaise (validateExecuteProcessOptions o0))
    (thenDo (orRaise (assertSecretResolverSupported (ke_driver k) (xo_command o0)))
    (andThen (inDomain (\<lambda>_. admitProcessScope (ke_fs k) now o0)) (\<lambda>(o', roots, adm).
     andThen (liftSum (resolveConfinementDriver (ke_confinements k) o' (ke_confinementDefault k))) (\<lambda>confinement.
     andThen (liftSum (case confinement of Some c \<Rightarrow> cfd_wrap c (xo_command o') roots | None \<Rightarrow> Inr (xo_command o'))) (\<lambda>wrapped.
     thenDo (orRaise (assertBudgetSupported (ke_driver k) (xo_resourceBudget o')))
    (let command = withHardLimits wrapped (xo_resourceBudget o');
         fp = (case truthy (xo_inputFingerprint o') of Some f \<Rightarrow> f
               | None \<Rightarrow> computeInputFingerprint (ke_digest k) (ke_sha k) (ke_collate k) o');
         snapshot = requestSnapshot k now o'
     in thenDo (inDomain (\<lambda>_. assertRunAcceptsOperations (xo_runId o')))
       (thenDo (inDomain (\<lambda>_. inStore (bindRunConfigSnapshot (ke_digest k) (xo_runId o') snapshot)))
        (submit k now o' roots adm (map_option cfd_name confinement) command fp snapshot))))))))"

section \<open>The system of operations\<close>

datatype supEvent =
    Execute ExecuteProcessOptions
  | Cancel string int
  | Heartbeat "int \<Rightarrow> bool" string
  | WaitExpired nat
  | ResourcesReady string
  | SpawnAnswer string "KError + ProcessIdentity" "KError option"
  | AbortAnswer string "KError + StopProcessResult"
  | Supervise string
  | RootExit string ExitFacts
  | TimeUp string
  | StopSeen string
  | SamplingOver string "KError + Metrics"
  | StopAnswer string "KError + StopProcessResult"
  | TimeoutStopped string
  | RootWait string "ExitFacts option"
  | DrainedIn string bool
  | ReapAnswer string "KError + StopProcessResult"
  | DrainedAfter string bool
  | PipesGivenUp string
  | TreeAnswer string "KError + TreeStatus"
  | TreeReapAnswer string "KError + StopProcessResult"
  | LimitsAnswer string "KError + hits"
  | IdentityAnswer string OutputCapture "KError + IdentityVerificationResult"
  | StopAwaited string
  | Sample string "KError + Metrics"
  | SampleHits string "KError + hits"
  | Output string int

text \<open>The ticket of a waiting request was settled: the error it was rejected with, or none.\<close>

definition ticketSettled :: "supervisor \<Rightarrow> nat option \<Rightarrow> KError option option" where
  "ticketSettled v t = (case t of None \<Rightarrow> Some None
     | Some n \<Rightarrow> map_of (dm_settled (sv_domain v)) n)"

text \<open>The operation when its run stands at the wait the event answers.\<close>

definition listed :: "supervisor \<Rightarrow> string \<Rightarrow> inflight option" where
  "listed v i = (if i \<in> set (sv_active v) then mapGet (sv_ops v) i else None)"

definition startSupervision :: "millis \<Rightarrow> string \<Rightarrow> inflight \<Rightarrow> supervisor \<Rightarrow> supervisor" where
  "startSupervision now i x v =
     (let v1 = (if if_cancelRequested x then snd (handleStopPipeline now i TUserCancelled v) else v)
      in setOp i (\<lambda>x. x\<lparr>if_stage := Racing (if_stop x \<noteq> StopNone)\<rparr>) v1)"

text \<open>The race is decided: the sampler is stopped, and its last answer awaited.\<close>

definition raced :: "string \<Rightarrow> RootOutcome \<Rightarrow> supervisor \<Rightarrow> supervisor" where
  "raced i outcome = setOp i (\<lambda>x. x\<lparr>if_stage := OutcomeKnown outcome, if_sampler := (if_sampler x)\<lparr>sm_stopped := True\<rparr>\<rparr>)"

definition onWait :: "supervisor \<Rightarrow> string \<Rightarrow> (inflight \<Rightarrow> Stage \<Rightarrow> supervisor option) \<Rightarrow> supervisor option" where
  "onWait v i f = (case listed v i of None \<Rightarrow> None | Some x \<Rightarrow> f x (if_stage x))"

definition budgetOf :: "kernelEnv \<Rightarrow> inflight \<Rightarrow> ResourceBudget option" where
  "budgetOf k x = (if pd_sampleMetrics (ke_driver k) then xo_resourceBudget (if_options x) else None)"

fun samplable :: "Stage \<Rightarrow> bool" where
  "samplable (Racing _) = True"
| "samplable (OutcomeKnown _) = True"
| "samplable _ = False"

definition samplerDone :: "inflight \<Rightarrow> bool" where
  "samplerDone x \<longleftrightarrow> \<not> sm_readingHits (if_sampler x)
     \<and> (sm_stopping (if_sampler x) = None \<or> (case if_stop x of StopSettled _ \<Rightarrow> True | _ \<Rightarrow> False))"

fun stopSeen :: "Stage \<Rightarrow> StopState \<Rightarrow> (KError + StopProcessResult) option" where
  "stopSeen (Racing candidate) (StopSettled (Inr stop)) = Some (Inr stop)"
| "stopSeen (Racing True) (StopSettled (Inl e)) = Some (Inl e)"
| "stopSeen _ _ = None"

fun step :: "kernelEnv \<Rightarrow> millis \<Rightarrow> supEvent \<Rightarrow> supervisor \<Rightarrow> supervisor option" where
  "step k now (Execute o') v = Some (snd (executeProcess k now o' v))"
| "step k now (Cancel i graceMs) v = Some (snd (cancelOperation now i graceMs v))"
| "step k now (Heartbeat alive host) v = Some (snd (inDomain (\<lambda>_. heartbeatTick alive now host) v))"
| "step k now (WaitExpired t) v = Some (snd (inDomain (\<lambda>gone. waitTimeout gone now t) v))"
| "step k now (ResourcesReady i) v = onWait v i (\<lambda>x st. case st of
     AwaitResources t \<Rightarrow> (case ticketSettled v t of None \<Rightarrow> None
       | Some (Some e) \<Rightarrow> Some (finish i (Inl e) v)
       | Some None \<Rightarrow> Some (resourcesGranted k now i x v))
   | _ \<Rightarrow> None)"
| "step k now (SpawnAnswer i answer gate) v = onWait v i (\<lambda>x st. case st of
     AwaitSpawn \<Rightarrow> Some (spawned k now i x answer gate v) | _ \<Rightarrow> None)"
| "step k now (AbortAnswer i answer) v = onWait v i (\<lambda>x st. case st of
     Aborting e \<Rightarrow> Some (aborted k now i x e answer v) | _ \<Rightarrow> None)"
| "step k now (Supervise i) v = onWait v i (\<lambda>x st. case st of
     Activated \<Rightarrow> Some (startSupervision now i x v) | _ \<Rightarrow> None)"
| "step k now (RootExit i e) v = onWait v i (\<lambda>x st. case st of
     Racing _ \<Rightarrow> Some (raced i (RootExited e) v) | _ \<Rightarrow> None)"
| "step k now (TimeUp i) v = onWait v i (\<lambda>x st. case st of
     Racing _ \<Rightarrow> (case xo_timeoutMs (if_options x) of
         Some ms \<Rightarrow> if ms > 0 then Some (raced i RootTimedOut v) else None | None \<Rightarrow> None)
   | _ \<Rightarrow> None)"
| "step k now (StopSeen i) v = onWait v i (\<lambda>x st. case stopSeen st (if_stop x) of
     Some (Inr stop) \<Rightarrow> Some (raced i (RootStopped stop) v)
   | Some (Inl e) \<Rightarrow> Some (finish i (Inl e) v)
   | None \<Rightarrow> None)"
| "step k now (SamplingOver i answer) v = onWait v i (\<lambda>x st. case st of
     OutcomeKnown outcome \<Rightarrow> if samplerDone x
       then (let x' = lastSample k answer (sampleEnded k x)
             in Some (outcomeSettled now i x' outcome (setOp i (\<lambda>_. x') v)))
       else None
   | _ \<Rightarrow> None)"
| "step k now (StopAnswer i answer) v = (case mapGet (sv_ops v) i of None \<Rightarrow> None
   | Some x \<Rightarrow> if if_stop x = StopRunning then Some (stopAnswered now i x answer v) else None)"
| "step k now (TimeoutStopped i) v = onWait v i (\<lambda>x st. case (st, if_stop x) of
     (AwaitTimeoutStop, StopSettled (Inr stop)) \<Rightarrow> Some (atStage i (AwaitRootExit (Some stop)) v)
   | (AwaitTimeoutStop, StopSettled (Inl e)) \<Rightarrow> Some (finish i (Inl e) v)
   | _ \<Rightarrow> None)"
| "step k now (RootWait i exit) v = onWait v i (\<lambda>x st. case st of
     AwaitRootExit timeout \<Rightarrow> Some (rootWaited now i x timeout exit v) | _ \<Rightarrow> None)"
| "step k now (DrainedIn i b) v = onWait v i (\<lambda>x st. case st of
     Draining e natural \<Rightarrow> Some (drained k now i x e natural b v) | _ \<Rightarrow> None)"
| "step k now (ReapAnswer i answer) v = onWait v i (\<lambda>x st. case st of
     Reaping e \<Rightarrow> Some (reaped now i x e answer v) | _ \<Rightarrow> None)"
| "step k now (DrainedAfter i b) v = onWait v i (\<lambda>x st. case st of
     DrainingAgain e pids \<Rightarrow> Some (drainedAgain k now i x e pids b v) | _ \<Rightarrow> None)"
| "step k now (PipesGivenUp i) v = onWait v i (\<lambda>x st. case st of
     PipesHeld e \<Rightarrow> Some (heldPipes now i x e v) | _ \<Rightarrow> None)"
| "step k now (TreeAnswer i answer) v = onWait v i (\<lambda>x st. case st of
     SettlingTree e \<Rightarrow> Some (treeAnswered k now i x e answer v) | _ \<Rightarrow> None)"
| "step k now (TreeReapAnswer i answer) v = onWait v i (\<lambda>x st. case st of
     ReapingTree e \<Rightarrow> Some (treeReaped k now i x e answer v) | _ \<Rightarrow> None)"
| "step k now (LimitsAnswer i answer) v = onWait v i (\<lambda>x st. case st of
     ReadingHits f \<Rightarrow> Some (limitsRead i f answer v) | _ \<Rightarrow> None)"
| "step k now (IdentityAnswer i c answer) v = onWait v i (\<lambda>x st. case st of
     Verifying f \<Rightarrow> Some (verified now i x f c answer v) | _ \<Rightarrow> None)"
| "step k now (StopAwaited i) v = onWait v i (\<lambda>x st. case (st, if_stop x) of
     (AwaitStop r, StopSettled answer) \<Rightarrow> Some (stopAwaited now i x r answer v) | _ \<Rightarrow> None)"
| "step k now (Sample i answer) v = onWait v i (\<lambda>x st. case budgetOf k x of None \<Rightarrow> None
   | Some b \<Rightarrow> if samplable st \<and> samplerDone x then Some (sampled k now i x b answer v) else None)"
| "step k now (SampleHits i answer) v = onWait v i (\<lambda>x st. case budgetOf k x of None \<Rightarrow> None
   | Some b \<Rightarrow> if samplable st \<and> sm_readingHits (if_sampler x) then Some (sampledHits k now i b answer v) else None)"
| "step k now (Output i bytes) v = onWait v i (\<lambda>x st.
     if if_handle x \<noteq> None then Some (outputSeen now i x bytes v) else None)"

text \<open>A trace: what happened, and when. \<open>accepted\<close> are its events that something waited for.\<close>

type_synonym trace = "(millis \<times> supEvent) list"

fun run :: "kernelEnv \<Rightarrow> trace \<Rightarrow> supervisor \<Rightarrow> supervisor" where
  "run k [] v = v"
| "run k ((now, e) # tr) v = (case step k now e v of None \<Rightarrow> run k tr v | Some v' \<Rightarrow> run k tr v')"

end
