(* ===== verification/LedgerLaws.thy ===== *)
theory LedgerLaws
  imports RecoveryProps
begin

text \<open>
  The ledger of an operation: its row and its leases. What the store's methods and the release do
  to the ledger of the operation they are called for, and that they leave every other alone.
\<close>

section \<open>Ledgers\<close>

definition rowsOf :: "string \<Rightarrow> store \<Rightarrow> Operation list" where
  "rowsOf i s = filter (\<lambda>o'. op_id o' = i) (db_operations s)"

definition leasesFor :: "string \<Rightarrow> store \<Rightarrow> ResourceLease list" where
  "leasesFor i s = filter (\<lambda>l. lease_operationId l = i) (db_leases s)"

text \<open>Ended with a result that is not indeterminate.\<close>

definition settledRow :: "Operation \<Rightarrow> bool" where
  "settledRow o' \<longleftrightarrow> op_status o' = ODone \<and> (case op_result o' of Some r \<Rightarrow> \<not> isIndeterminate r | None \<Rightarrow> False)"

definition absent :: "string \<Rightarrow> store \<Rightarrow> bool" where
  "absent i s \<longleftrightarrow> rowsOf i s = [] \<and> leasesFor i s = []"

definition live :: "string \<Rightarrow> store \<Rightarrow> bool" where
  "live i s \<longleftrightarrow> (\<exists>o'. rowsOf i s = [o'] \<and> \<not> settledRow o'
     \<and> set (op_requiredResources o') \<subseteq> lease_resourceId ` set (leasesFor i s))"

definition closed :: "string \<Rightarrow> store \<Rightarrow> bool" where
  "closed i s \<longleftrightarrow> (\<exists>o'. rowsOf i s = [o'] \<and> settledRow o') \<and> leasesFor i s = []"

definition balanced :: "string \<Rightarrow> store \<Rightarrow> bool" where
  "balanced i s \<longleftrightarrow> absent i s \<or> live i s \<or> closed i s"

definition sameLedger :: "string \<Rightarrow> store \<Rightarrow> store \<Rightarrow> bool" where
  "sameLedger i s t \<longleftrightarrow> rowsOf i t = rowsOf i s \<and> leasesFor i t = leasesFor i s"

text \<open>\<open>t\<close> is \<open>s\<close> after work on \<open>i\<close>.\<close>

definition onlyOn :: "string \<Rightarrow> store \<Rightarrow> store \<Rightarrow> bool" where
  "onlyOn i s t \<longleftrightarrow> (\<forall>j. j \<noteq> i \<longrightarrow> sameLedger j s t) \<and> (rowsOf i s \<noteq> [] \<longrightarrow> rowsOf i t \<noteq> [])"

lemma onlyOn_refl [simp]: "onlyOn i s s"
  by (simp add: onlyOn_def sameLedger_def)

lemma onlyOn_trans: "onlyOn i s t \<Longrightarrow> onlyOn i t u \<Longrightarrow> onlyOn i s u"
  by (simp add: onlyOn_def sameLedger_def)

lemma same_all [intro]: "(\<And>j. sameLedger j s t) \<Longrightarrow> onlyOn i s t"
  by (simp add: onlyOn_def sameLedger_def)

lemma ledger_cong:
  assumes "sameLedger i s t"
  shows "absent i t = absent i s" "live i t = live i s" "closed i t = closed i s" "balanced i t = balanced i s"
  using assms by (simp_all add: sameLedger_def absent_def live_def closed_def balanced_def)

lemma balancedI [intro]: "absent i s \<Longrightarrow> balanced i s" "live i s \<Longrightarrow> balanced i s" "closed i s \<Longrightarrow> balanced i s"
  by (simp_all add: balanced_def)

lemma getOperation_rows: "getOperation i s = (case rowsOf i s of [] \<Rightarrow> None | o' # _ \<Rightarrow> Some o')"
proof -
  have "find P xs = (case filter P xs of [] \<Rightarrow> None | x # _ \<Rightarrow> Some x)" for P and xs :: "Operation list"
    by (induction xs) auto
  then show ?thesis by (simp add: getOperation_def rowOf_def rowsOf_def)
qed

lemma absent_row: "absent i s \<Longrightarrow> getOperation i s = None"
  and live_row: "live i s \<Longrightarrow> \<exists>o'. getOperation i s = Some o' \<and> rowsOf i s = [o'] \<and> \<not> settledRow o'"
  by (auto simp: absent_def live_def getOperation_rows)

text \<open>Tables that did not change.\<close>

definition sameTables :: "store \<Rightarrow> store \<Rightarrow> bool" where
  "sameTables s t \<longleftrightarrow> db_operations t = db_operations s \<and> db_leases t = db_leases s"

lemma sameTables_refl [simp]: "sameTables s s"
  by (simp add: sameTables_def)

lemma sameTables_ledger: "sameTables s t \<Longrightarrow> sameLedger i s t"
  by (simp add: sameTables_def sameLedger_def rowsOf_def leasesFor_def)

lemma sameTables_frame: "sameTables s t \<Longrightarrow> db_operations u = db_operations t \<Longrightarrow> db_leases u = db_leases t \<Longrightarrow> sameTables s u"
  by (simp add: sameTables_def)

section \<open>Methods that touch no ledger\<close>

lemma tables_event: "preserves (sameTables s0) (recordEvent e)"
proof (rule preservesI)
  fix s assume "sameTables s0 s"
  then show "sameTables s0 (snd (recordEvent e s))"
    by (cases rule: recordEvent_cases [of e s]) (simp_all add: recordEvent_def andThen_def sameTables_def)
qed

lemma recordEvent_tables: "recordEvent e s = (r, t) \<Longrightarrow> sameTables s t"
  by (rule preservesD [OF tables_event sameTables_refl])

lemma tables_runStatus: "preserves (sameTables s0) (updateRunStatus now runId st reason at)"
proof (rule preservesI)
  fix s assume s: "sameTables s0 s"
  obtain r t where run: "updateRunStatus now runId st reason at s = (r, t)" by fastforce
  show "sameTables s0 (snd (updateRunStatus now runId st reason at s))"
  proof (cases r)
    case (Inr u)
    with updateRunStatus_rows run s show ?thesis by (metis sameTables_frame snd_conv)
  next
    case (Inl e)
    with run have "t = s" by (simp add: updateRunStatus_def atomically_Inl)
    with run s show ?thesis by simp
  qed
qed

lemma tables_replay: "preserves (sameTables s0) (recordReplay now d opId mode runId)"
proof (rule preservesI)
  fix s assume s: "sameTables s0 s"
  show "sameTables s0 (snd (recordReplay now d opId mode runId s))"
    using s preserves_snd [OF tables_event s] verifyEpochFencing_cases [of d s]
    by (auto simp: recordReplay_def Let_def)
qed

lemma tables_bind: "preserves (sameTables s0) (bindRunConfigSnapshot H runId c)"
proof (rule preservesI)
  fix s assume s: "sameTables s0 s"
  have "db_operations (snd (bindRunConfigSnapshot H runId c s)) = db_operations s
    \<and> db_leases (snd (bindRunConfigSnapshot H runId c s)) = db_leases s"
    using verifyEpochFencing_cases
    by (auto simp: bindRunConfigSnapshot_def thenDo_def andThen_def liftSum_def atomically_def split: sum.split option.split prod.split)
       (metis Pair_inject sum.distinct(1))+
  with s show "sameTables s0 (snd (bindRunConfigSnapshot H runId c s))" by (simp add: sameTables_frame)
qed

lemma tables_runOpen: "preserves (sameTables s0) (assertRunOpen runId)"
  by (rule preservesI) (simp add: assertRunOpen_def split: option.split)

lemma tables_acquire: "preserves (sameTables s0) (acquireOwnerLease alive now d o' host ttl force)"
proof (rule preservesI)
  fix s assume "sameTables s0 s"
  then show "sameTables s0 (snd (acquireOwnerLease alive now d o' host ttl force s))"
    by (cases "getOwner d s") (simp_all add: acquireOwnerLease_def atomically_def Let_def sameTables_def)
qed

lemma tables_reject: "preserves (sameTables s0) (rejectAdmission now o' v)"
  unfolding rejectAdmission_def by (intro pres_thenDo pres_catchE tables_event pres_ret pres_raise)

lemma tables_admission: "preserves (sameTables s0) (checkCapabilityAdmission fs now o')"
proof (rule preservesI)
  fix s assume "sameTables s0 s"
  then show "sameTables s0 (snd (checkCapabilityAdmission fs now o' s))"
    by (auto simp: checkCapabilityAdmission_def preserves_snd [OF tables_reject] split: option.split sum.split)
qed

section \<open>Methods for one operation\<close>

lemma rowsOf_updRow:
  assumes "\<And>r. op_id (f r) = op_id r"
  shows "rowsOf j (s\<lparr>db_operations := updRow op_id i f (db_operations s)\<rparr>) = (if j = i then map f (rowsOf i s) else rowsOf j s)"
proof -
  have "filter (\<lambda>o'. op_id o' = j) (updRow op_id i f xs)
      = (if j = i then map f (filter (\<lambda>o'. op_id o' = i) xs) else filter (\<lambda>o'. op_id o' = j) xs)" for xs
    using assms by (induction xs) (auto simp: updRow_def)
  then show ?thesis by (simp add: rowsOf_def)
qed

lemma rowsOf_cong: "db_operations t = db_operations s \<Longrightarrow> rowsOf i t = rowsOf i s"
  and leasesFor_cong: "db_leases t = db_leases s \<Longrightarrow> leasesFor i t = leasesFor i s"
  by (simp_all add: rowsOf_def leasesFor_def)

text \<open>A method that rewrites the row of \<open>i\<close> by \<open>f\<close>, its leases untouched.\<close>

definition touches :: "string \<Rightarrow> (Operation \<Rightarrow> Operation) \<Rightarrow> bool" where
  "touches i f \<longleftrightarrow> (\<forall>r. op_id (f r) = op_id r \<and> op_requiredResources (f r) = op_requiredResources r
     \<and> op_result (f r) = op_result r \<and> (settledRow (f r) \<longrightarrow> settledRow r))"

lemma touch_ledger:
  assumes "touches i f" and "db_operations t = updRow op_id i f (db_operations s)" and "db_leases t = db_leases s"
  shows "onlyOn i s t" and "live i s \<Longrightarrow> live i t"
proof -
  have f: "op_id (f r) = op_id r" "op_requiredResources (f r) = op_requiredResources r" "settledRow (f r) \<Longrightarrow> settledRow r" for r
    using assms(1) by (simp_all add: touches_def)
  have rows: "rowsOf j t = (if j = i then map f (rowsOf i s) else rowsOf j s)" for j
    using rowsOf_updRow [of f, OF f(1), of j i s] assms(2) unfolding rowsOf_def by simp
  have leases: "leasesFor j t = leasesFor j s" for j
    by (rule leasesFor_cong [OF assms(3)])
  have "rowsOf j t = rowsOf j s" if "j \<noteq> i" for j using rows [of j] that by simp
  moreover have "rowsOf i t = map f (rowsOf i s)" using rows [of i] by simp
  ultimately show "onlyOn i s t" by (simp add: onlyOn_def sameLedger_def leases)
  show "live i t" if "live i s"
  proof -
    from that obtain o' where o': "rowsOf i s = [o']" "\<not> settledRow o'"
      "set (op_requiredResources o') \<subseteq> lease_resourceId ` set (leasesFor i s)"
      by (auto simp: live_def)
    have "rowsOf i t = [f o']" using o'(1) rows [of i] by simp
    moreover have "\<not> settledRow (f o')" using f(3) [of o'] o'(2) by blast
    ultimately show ?thesis
      using o'(3) f(2) [of o'] leases [of i] unfolding live_def by simp
  qed
qed

lemma touched:
  assumes "t = s \<or> (\<exists>f. touches i f \<and> db_operations t = updRow op_id i f (db_operations s) \<and> db_leases t = db_leases s)"
  shows "onlyOn i s t" and "live i s \<Longrightarrow> live i t"
proof -
  have "onlyOn i s t \<and> (live i s \<longrightarrow> live i t)"
    using assms
  proof (elim disjE exE conjE)
    fix f assume "touches i f" "db_operations t = updRow op_id i f (db_operations s)" "db_leases t = db_leases s"
    from touch_ledger [OF this] show ?thesis by blast
  qed simp
  then show "onlyOn i s t" and "live i s \<Longrightarrow> live i t" by simp_all
qed

definition touchedBy :: "string \<Rightarrow> store \<Rightarrow> store \<Rightarrow> bool" where
  "touchedBy i s t \<longleftrightarrow> t = s \<or> (\<exists>f. touches i f \<and> db_operations t = updRow op_id i f (db_operations s) \<and> db_leases t = db_leases s)"

lemma updateStatus_touched:
  assumes "updateOperationStatus now i st identity ref s = (r, t)" and "st \<noteq> ODone"
  shows "touchedBy i s t"
  unfolding touchedBy_def
proof -
  let ?f = "\<lambda>e r. r\<lparr>op_status := st, op_processIdentity := coalesce identity (op_processIdentity r),
             op_outputRef := coalesce (truthy ref) (op_outputRef r),
             op_recoveryEvidence := coalesce e (op_recoveryEvidence r)\<rparr>"
  have f: "touches i (?f e)" for e
    using assms(2) by (simp add: touches_def settledRow_def)
  show "t = s \<or> (\<exists>f. touches i f \<and> db_operations t = updRow op_id i f (db_operations s) \<and> db_leases t = db_leases s)"
  proof (cases r)
    case (Inl err)
    with assms(1) have "t = s" by (auto simp: updateOperationStatus_def Let_def atomically_Inl)
    then show ?thesis ..
  next
    case (Inr u)
    let ?e = "(case identity of None \<Rightarrow> None
                | Some j \<Rightarrow> withRecoveryIdentity now (Option.bind (getOperation i s) op_recoveryEvidence) j)"
    let ?s = "s\<lparr>db_operations := updRow op_id i (?f ?e) (db_operations s)\<rparr>"
    have wr: "modifyOperation i (?f ?e) s = (Inr (), ?s)" by (simp add: modifyOperation_def)
    have "sameTables ?s t"
    proof (cases "getOperation i s")
      case None
      from assms(1) have "modifyOperation i (?f ?e) s = (Inr u, t)"
        unfolding updateOperationStatus_def Let_def Inr atomically_Inr None option.case by simp
      with wr show ?thesis by simp
    next
      case (Some o')
      have "\<exists>ev. recordEvent ev ?s = (Inr u, t)"
        using assms(1) wr unfolding updateOperationStatus_def Let_def Inr atomically_Inr Some option.case thenDo_Inr verify_Inr
        by (elim exE conjE) (simp only: prod.inject simp_thms, blast)
      then show ?thesis using recordEvent_tables by blast
    qed
    then show ?thesis by (intro disjI2 exI [of _ "?f ?e"] conjI f) (simp_all add: sameTables_def)
  qed
qed

lemma updateStatus_ledger:
  assumes "updateOperationStatus now i st identity ref s = (r, t)" and "st \<noteq> ODone"
  shows "onlyOn i s t" and "live i s \<Longrightarrow> live i t"
  using touched [OF updateStatus_touched [OF assms, unfolded touchedBy_def]] by simp_all

lemma updateEvidence_touched:
  assumes "updateRecoveryEvidence i p s = (r, t)"
  shows "touchedBy i s t"
proof -
  let ?f = "\<lambda>e r. r\<lparr>op_recoveryEvidence := e\<rparr>"
  have f: "touches i (?f e)" for e by (simp add: touches_def settledRow_def)
  have one: "t = s \<or> (\<exists>e. db_operations t = updRow op_id i (?f e) (db_operations s) \<and> db_leases t = db_leases s)"
    using assms
    by (cases r) (auto simp: updateRecoveryEvidence_def atomically_Inl atomically_Inr thenDo_Inr verify_Inr modifyOperation_def
        split: option.splits)
  show ?thesis unfolding touchedBy_def using one f by blast
qed

lemma updateEvidence_ledger:
  assumes "updateRecoveryEvidence i p s = (r, t)"
  shows "onlyOn i s t" and "live i s \<Longrightarrow> live i t"
  using touched [OF updateEvidence_touched [OF assms, unfolded touchedBy_def]] by simp_all

text \<open>A result ends the operation; its leases go with it unless it is indeterminate.\<close>

lemma recordResult_ledger:
  assumes "recordOperationResult i res (\<not> isIndeterminate res) s = (r, t)" and "live i s"
  shows "onlyOn i s t" and "balanced i t" and "isIndeterminate res \<or> (\<exists>e. r = Inl e) \<Longrightarrow> live i t"
    and "r = Inr u \<Longrightarrow> \<not> isIndeterminate res \<Longrightarrow> closed i t"
proof -
  have all: "onlyOn i s t \<and> (if isIndeterminate res \<or> (\<exists>e. r = Inl e) then live i t else closed i t)"
  proof (cases r)
    case (Inl e)
    with assms(1) have "t = s" by (simp add: recordOperationResult_def atomically_Inl)
    with Inl assms(2) show ?thesis by simp
  next
    case (Inr u)
    from recordResult_Inr [OF assms(1) [unfolded Inr]]
    have ops: "db_operations t = updRow op_id i (finishRow res) (db_operations s)"
      and lea: "db_leases t = leasesAfter i res (\<not> isIndeterminate res) (db_leases s)" by auto
    have rows: "rowsOf j t = (if j = i then map (finishRow res) (rowsOf i s) else rowsOf j s)" for j
      using rowsOf_updRow [of "finishRow res" j i s] ops unfolding rowsOf_def by simp
    from assms(2) obtain o' where o': "rowsOf i s = [o']" "\<not> settledRow o'"
      "set (op_requiredResources o') \<subseteq> lease_resourceId ` set (leasesFor i s)"
      by (auto simp: live_def)
    show ?thesis
    proof (cases "isIndeterminate res")
      case True
      then have "leasesFor j t = leasesFor j s" for j
        using lea by (simp add: leasesFor_def leasesAfter_def)
      moreover have "\<not> settledRow (finishRow res o')" "op_requiredResources (finishRow res o') = op_requiredResources o'"
        using True by (simp_all add: settledRow_def finishRow_def)
      ultimately show ?thesis
        using True o' Inr by (simp add: onlyOn_def sameLedger_def live_def rows)
    next
      case False
      then have "leasesFor j t = (if j = i then [] else leasesFor j s)" for j
        using lea by (auto simp: leasesFor_def leasesAfter_def delRows_def intro!: filter_cong)
      moreover have "settledRow (finishRow res o')" using False by (simp add: settledRow_def)
      ultimately show ?thesis
        using False o' Inr by (simp add: onlyOn_def sameLedger_def closed_def rows)
    qed
  qed
  then show "onlyOn i s t" and "balanced i t" and "isIndeterminate res \<or> (\<exists>e. r = Inl e) \<Longrightarrow> live i t"
    by (auto split: if_splits)
  show "closed i t" if "r = Inr u" "\<not> isIndeterminate res" using all that by simp
qed

lemma registerIntent_row:
  assumes "registerOperationIntent H now op d s = (r, t)"
  shows "r = Inl e \<Longrightarrow> t = s"
    and "r = Inr u \<Longrightarrow> \<exists>row. db_operations t = db_operations s @ [row] \<and> op_id row = op_id op \<and> op_status row = OIntentRegistered
      \<and> op_requiredResources row = op_requiredResources op \<and> op_result row = op_result op \<and> db_leases t = db_leases s @ leasesOf now d op"
proof -
  show "t = s" if "r = Inl e" using registerIntent_Inl assms that by metis
  show "\<exists>row. db_operations t = db_operations s @ [row] \<and> op_id row = op_id op \<and> op_status row = OIntentRegistered
      \<and> op_requiredResources row = op_requiredResources op \<and> op_result row = op_result op \<and> db_leases t = db_leases s @ leasesOf now d op"
    if "r = Inr u"
    using intent_chain [OF assms [unfolded that registerOperationIntent_def]]
    unfolding leasesOf_def by (elim exE conjE) simp
qed

lemma registerIntent_ledger:
  assumes "registerOperationIntent H now op d s = (r, t)" and "absent (op_id op) s"
  shows "onlyOn (op_id op) s t" and "r = Inr u \<Longrightarrow> op_status op = OPending \<Longrightarrow> live (op_id op) t" and "r = Inl e \<Longrightarrow> t = s"
proof -
  note inl = registerIntent_row(1) [OF assms(1)] and inr = registerIntent_row(2) [OF assms(1)]
  show "onlyOn (op_id op) s t"
  proof (cases r)
    case (Inr u)
    with inr show ?thesis
      using assms(2) by (auto simp: onlyOn_def sameLedger_def rowsOf_def leasesFor_def leasesOf_def absent_def)
  qed (use inl in simp)
  show "live (op_id op) t" if "r = Inr u"
  proof -
    from inr [OF that] obtain row where row: "db_operations t = db_operations s @ [row]" "op_id row = op_id op"
      "op_status row = OIntentRegistered" "op_requiredResources row = op_requiredResources op"
      "db_leases t = db_leases s @ leasesOf now d op" by blast
    then have "rowsOf (op_id op) t = [row]" "\<not> settledRow row" "leasesFor (op_id op) t = leasesOf now d op"
      using assms(2) by (simp_all add: rowsOf_def absent_def leasesFor_def settledRow_def leasesOf_def)
    then show ?thesis
      unfolding live_def using row(4) by (force simp: leasesOf_def)
  qed
  show "t = s" if "r = Inl e" by (rule inl [OF that])
qed

text \<open>A cancellation before the intent records a row that is settled from the start.\<close>

lemma preIntent_row:
  assumes "recordPreIntentCancelledOperation H op d res s = (r, t)"
  shows "r = Inl e \<Longrightarrow> t = s"
    and "r = Inr u \<Longrightarrow> \<exists>row. db_operations t = db_operations s @ [row] \<and> op_id row = op_id op \<and> op_status row = ODone
      \<and> op_result row = Some res \<and> db_leases t = db_leases s"
proof -
  show "t = s" if "r = Inl e"
    using assms that assertRunOpen_state [of "op_runId op" s] unfolding recordPreIntentCancelledOperation_def
    by (auto simp only: thenDo_Inl liftSum_def fst_conv snd_conv prod.inject dest: atomically_fails; metis snd_conv)
  show "\<exists>row. db_operations t = db_operations s @ [row] \<and> op_id row = op_id op \<and> op_status row = ODone \<and> op_result row = Some res
      \<and> db_leases t = db_leases s" if "r = Inr u"
  proof -
    let ?row = "op\<lparr>op_domainId := d, op_status := ODone,
          op_capabilityId := truthy (op_capabilityId op), op_timeoutMs := nonZero (op_timeoutMs op),
          op_outputRef := truthy (op_outputRef op), op_result := Some res,
          op_spawnGated := None, op_recoveryEvidence := None\<rparr>"
    from assms that obtain ev where "recordEvent ev (s\<lparr>db_operations := db_operations s @ [?row]\<rparr>) = (Inr (), t)"
      by (auto simp: recordPreIntentCancelledOperation_def thenDo_Inr atomically_Inr liftSum_Inr assertRunOpen_Inr verify_Inr
          insertOperation_Inr split: if_splits)
    from recordEvent_tables [OF this] have "db_operations t = db_operations s @ [?row]" "db_leases t = db_leases s"
      by (simp_all add: sameTables_def)
    then show ?thesis by (intro exI [of _ ?row]) simp
  qed
qed

lemma preIntent_ledger:
  assumes "recordPreIntentCancelledOperation H op d res s = (r, t)" and "absent (op_id op) s" and "\<not> isIndeterminate res"
  shows "onlyOn (op_id op) s t" and "r = Inr u \<Longrightarrow> closed (op_id op) t" and "r = Inl e \<Longrightarrow> absent (op_id op) t"
proof -
  note inl = preIntent_row(1) [OF assms(1)]
  have inr: "\<exists>row. db_operations t = db_operations s @ [row] \<and> op_id row = op_id op \<and> settledRow row \<and> db_leases t = db_leases s"
    if "r = Inr u" for u
    using preIntent_row(2) [OF assms(1) that] assms(3) by (auto simp: settledRow_def)
  show "onlyOn (op_id op) s t"
  proof (cases r)
    case (Inr u)
    with inr assms(2) show ?thesis by (auto simp: onlyOn_def sameLedger_def rowsOf_def leasesFor_def absent_def)
  qed (use inl in simp)
  show "closed (op_id op) t" if "r = Inr u"
    using inr [OF that] assms(2) by (auto simp: closed_def rowsOf_def leasesFor_def absent_def)
  show "absent (op_id op) t" if "r = Inl e"
    using inl [OF that] assms(2) by simp
qed

text \<open>A release for an operation without leases changes no ledger.\<close>

interpretation spent: release_frame "\<lambda>t. onlyOn i s t \<and> (absent i t \<or> closed i t)" i for i s
proof unfold_locales
  fix t j n assume "onlyOn i s t \<and> (absent i t \<or> closed i t)"
  then show "onlyOn i s (t\<lparr>db_journal := j, db_seq := n\<rparr>)
      \<and> (absent i (t\<lparr>db_journal := j, db_seq := n\<rparr>) \<or> closed i (t\<lparr>db_journal := j, db_seq := n\<rparr>))"
    by (simp add: onlyOn_def sameLedger_def absent_def closed_def rowsOf_def leasesFor_def)
next
  fix t :: store and keep :: "ResourceLease \<Rightarrow> bool" assume t: "onlyOn i s t \<and> (absent i t \<or> closed i t)"
    and keep: "\<And>l. lease_operationId l \<noteq> i \<Longrightarrow> keep l"
  let ?t = "t\<lparr>db_leases := filter keep (db_leases t)\<rparr>"
  have "leasesFor i ?t = []" using t by (auto simp: absent_def closed_def leasesFor_def filter_empty_conv)
  moreover have "leasesFor j ?t = leasesFor j t" if "j \<noteq> i" for j
    unfolding leasesFor_def using keep that by (auto simp: filter_filter intro!: filter_cong)
  moreover have "rowsOf j ?t = rowsOf j t" for j by (simp add: rowsOf_def)
  ultimately show "onlyOn i s ?t \<and> (absent i ?t \<or> closed i ?t)"
    using t by (auto simp: onlyOn_def sameLedger_def absent_def closed_def)
qed

lemma release_ledger:
  assumes "internalReleaseResources gone now i rs d = (r, d')" and "absent i (dm_store d) \<or> closed i (dm_store d)"
  shows "onlyOn i (dm_store d) (dm_store d')" and "absent i (dm_store d') \<or> closed i (dm_store d')" and "dm_domainId d' = dm_domainId d"
proof -
  have "onlyOn i (dm_store d) (dm_store d) \<and> (absent i (dm_store d) \<or> closed i (dm_store d))" using assms(2) by simp
  with preservesD [OF spent.release [of i "dm_store d" "dm_domainId d" gone now rs] _ assms(1)]
  show "onlyOn i (dm_store d) (dm_store d')" and "absent i (dm_store d') \<or> closed i (dm_store d')" and "dm_domainId d' = dm_domainId d"
    by simp_all
qed

end
