(* ===== verification/SupervisorLaws.thy ===== *)
theory SupervisorLaws
  imports Supervisor LedgerLaws
begin

text \<open>
  What the code between two waits of a run does to the ledgers: it works on the ledger of its own
  operation only (\<open>drives\<close> while the run is under way, \<open>ends\<close> where it may have ended), and leaves it
  \<open>posed\<close> for whatever comes next.
\<close>

section \<open>Positions\<close>

abbreviation storeOf :: "supervisor \<Rightarrow> store" where
  "storeOf v \<equiv> dm_store (sv_domain v)"

fun waitsForResources :: "Stage \<Rightarrow> bool" where
  "waitsForResources (AwaitResources _) = True"
| "waitsForResources _ = False"

definition underway :: "inflight \<Rightarrow> bool" where
  "underway x \<longleftrightarrow> if_stage x \<noteq> Finished \<and> \<not> waitsForResources (if_stage x)"

definition waiting :: "string \<Rightarrow> supervisor \<Rightarrow> bool" where
  "waiting i v \<longleftrightarrow> i \<in> set (sv_active v) \<and> absent i (storeOf v) \<and> (\<exists>x. mapGet (sv_ops v) i = Some x
     \<and> waitsForResources (if_stage x) \<and> if_phase x = PhWaiting \<and> if_handle x = None \<and> op_id (if_op x) = i \<and> op_status (if_op x) = OPending)"

definition engaged :: "string \<Rightarrow> supervisor \<Rightarrow> bool" where
  "engaged i v \<longleftrightarrow> i \<in> set (sv_active v) \<and> live i (storeOf v) \<and> (\<exists>x. mapGet (sv_ops v) i = Some x \<and> underway x)"

definition posed :: "string \<Rightarrow> supervisor \<Rightarrow> bool" where
  "posed i v \<longleftrightarrow> waiting i v \<or> engaged i v \<or> (i \<notin> set (sv_active v) \<and> balanced i (storeOf v))"

definition acts :: "string \<Rightarrow> supervisor \<Rightarrow> supervisor \<Rightarrow> bool" where
  "acts i v v' \<longleftrightarrow> onlyOn i (storeOf v) (storeOf v') \<and> sv_spawned v' = sv_spawned v
     \<and> (\<forall>j. j \<noteq> i \<longrightarrow> mapGet (sv_ops v') j = mapGet (sv_ops v) j \<and> (j \<in> set (sv_active v') \<longleftrightarrow> j \<in> set (sv_active v)))"

definition drives :: "string \<Rightarrow> supervisor \<Rightarrow> supervisor \<Rightarrow> bool" where
  "drives i v v' \<longleftrightarrow> acts i v v' \<and> engaged i v'"

definition leaves :: "string \<Rightarrow> supervisor \<Rightarrow> supervisor \<Rightarrow> bool" where
  "leaves i v v' \<longleftrightarrow> acts i v v' \<and> balanced i (storeOf v')"

definition ends :: "string \<Rightarrow> supervisor \<Rightarrow> supervisor \<Rightarrow> bool" where
  "ends i v v' \<longleftrightarrow> acts i v v' \<and> posed i v'"

lemma acts_refl [simp]: "acts i v v"
  by (simp add: acts_def)

lemma acts_trans: "acts i u v \<Longrightarrow> acts i v w \<Longrightarrow> acts i u w"
  unfolding acts_def using onlyOn_trans by metis

lemma drives_start: "engaged i v \<Longrightarrow> drives i v v"
  by (simp add: drives_def)

lemma drives_ends: "drives i v v' \<Longrightarrow> ends i v v'"
  by (simp add: drives_def ends_def posed_def)

lemma drives_leaves: "drives i v v' \<Longrightarrow> leaves i v v'"
  by (auto simp: drives_def leaves_def engaged_def)

lemma posed_other: "acts i v v' \<Longrightarrow> j \<noteq> i \<Longrightarrow> posed j v' = posed j v"
  unfolding posed_def waiting_def engaged_def
  by (simp add: acts_def onlyOn_def ledger_cong [of j "storeOf v" "storeOf v'"])

lemma ends_all: "ends i v v' \<Longrightarrow> \<forall>j. posed j v \<Longrightarrow> \<forall>j. posed j v'"
  using posed_other by (metis ends_def)

section \<open>Steps under way\<close>

lemma setOp_fields [simp]: "sv_domain (setOp i f v) = sv_domain v" "sv_active (setOp i f v) = sv_active v"
  "sv_spawned (setOp i f v) = sv_spawned v" "sv_outcomes (setOp i f v) = sv_outcomes v"
  by (simp_all add: setOp_def split: option.split)

lemma mapGet_setOp: "mapGet (sv_ops (setOp i f v)) j = (if j = i then map_option f (mapGet (sv_ops v) j) else mapGet (sv_ops v) j)"
  by (simp add: setOp_def split: option.split)

lemma atStage_fields [simp]: "sv_domain (atStage i st v) = sv_domain v" "sv_active (atStage i st v) = sv_active v"
  "sv_spawned (atStage i st v) = sv_spawned v"
  by (simp_all add: atStage_def)

lemma acts_setOp: "acts i v (setOp i f v)"
  by (simp add: acts_def mapGet_setOp)

lemma drives_setOp:
  assumes "drives i v0 v" and "\<And>x. underway x \<Longrightarrow> underway (f x)"
  shows "drives i v0 (setOp i f v)"
  using assms acts_trans [OF _ acts_setOp] unfolding drives_def engaged_def by (auto simp: mapGet_setOp)

lemma drives_atStage: "drives i v0 v \<Longrightarrow> st \<noteq> Finished \<Longrightarrow> \<not> waitsForResources st \<Longrightarrow> drives i v0 (atStage i st v)"
  unfolding atStage_def by (rule drives_setOp) (simp_all add: underway_def)

lemma pres_drives_setOp:
  "(\<And>x. underway x \<Longrightarrow> underway (f x)) \<Longrightarrow> preserves (drives i v0) (modify (setOp i f))"
  by (rule pres_modify) (rule drives_setOp)

text \<open>A step on the domain.\<close>

definition keepsLive :: "string \<Rightarrow> ((nat \<Rightarrow> bool) \<Rightarrow> 'a domM) \<Rightarrow> bool" where
  "keepsLive i m \<longleftrightarrow> (\<forall>gone d r d'. m gone d = (r, d') \<longrightarrow> live i (dm_store d) \<longrightarrow>
     onlyOn i (dm_store d) (dm_store d') \<and> live i (dm_store d'))"

definition settles :: "string \<Rightarrow> ((nat \<Rightarrow> bool) \<Rightarrow> 'a domM) \<Rightarrow> bool" where
  "settles i m \<longleftrightarrow> (\<forall>gone d r d'. m gone d = (r, d') \<longrightarrow> live i (dm_store d) \<longrightarrow>
     onlyOn i (dm_store d) (dm_store d') \<and> balanced i (dm_store d'))"

lemma keepsLive_settles: "keepsLive i m \<Longrightarrow> settles i m"
  unfolding keepsLive_def settles_def by blast

lemma inDomain_run: "inDomain m v = (r, v') \<longleftrightarrow> (\<exists>d. m (ticketGone v) (sv_domain v) = (r, d) \<and> v' = v\<lparr>sv_domain := d\<rparr>)"
  by (auto simp: inDomain_def split: prod.split)

lemma pres_drives_inDomain: "keepsLive i m \<Longrightarrow> preserves (drives i v0) (inDomain m)"
proof (rule preservesI)
  fix v assume m: "keepsLive i m" and v: "drives i v0 v"
  obtain r v' where run: "inDomain m v = (r, v')" by fastforce
  then obtain d where d: "m (ticketGone v) (sv_domain v) = (r, d)" "v' = v\<lparr>sv_domain := d\<rparr>"
    by (auto simp: inDomain_run)
  have "live i (storeOf v)" using v by (simp add: drives_def engaged_def)
  with m d(1) have s: "onlyOn i (storeOf v) (dm_store d)" "live i (dm_store d)" unfolding keepsLive_def by blast+
  then have "acts i v v'" by (simp add: acts_def d(2))
  with v s(2) have "drives i v0 v'" unfolding drives_def engaged_def using acts_trans by (auto simp: d(2))
  then show "drives i v0 (snd (inDomain m v))" by (simp add: run)
qed

lemma leaves_inDomain:
  assumes "settles i m" and "drives i v0 v" and "inDomain m v = (r, v')"
  shows "leaves i v0 v'"
proof -
  from assms(3) obtain d where d: "m (ticketGone v) (sv_domain v) = (r, d)" "v' = v\<lparr>sv_domain := d\<rparr>"
    by (auto simp: inDomain_run)
  have "live i (storeOf v)" using assms(2) by (simp add: drives_def engaged_def)
  with assms(1) d(1) have s: "onlyOn i (storeOf v) (dm_store d)" "balanced i (dm_store d)" unfolding settles_def by blast+
  then have "acts i v v'" by (simp add: acts_def d(2))
  with assms(2) s(2) show ?thesis unfolding leaves_def drives_def using acts_trans by (auto simp: d(2))
qed

section \<open>The end of a run\<close>

lemma finish_fields: "sv_domain (finish i r v) = sv_domain v" "sv_spawned (finish i r v) = sv_spawned v"
  "sv_active (finish i r v) = filter (\<lambda>j. j \<noteq> i) (sv_active v)"
  "j \<noteq> i \<Longrightarrow> mapGet (sv_ops (finish i r v)) j = mapGet (sv_ops v) j"
  by (simp_all add: finish_def Let_def mapGet_setOp)

lemma finish_ends: "leaves i v0 v \<Longrightarrow> ends i v0 (finish i r v)"
  unfolding leaves_def ends_def posed_def
  by (auto simp: finish_fields acts_def)

definition spends :: "string \<Rightarrow> 'a supM \<Rightarrow> bool" where
  "spends i m \<longleftrightarrow> (\<forall>v0 v r v'. m v = (r, v') \<longrightarrow> drives i v0 v \<longrightarrow> leaves i v0 v')"

lemma conclude_ends: "spends i m \<Longrightarrow> drives i v0 v \<Longrightarrow> ends i v0 (concludeBy i m v)"
  unfolding concludeBy_def spends_def by (auto intro!: finish_ends split: prod.split)

lemma spends_inDomain: "settles i m \<Longrightarrow> spends i (inDomain m)"
  unfolding spends_def using leaves_inDomain by blast

lemma spends_raise: "spends i m \<Longrightarrow> spends i (thenDo m (raise e))"
  unfolding spends_def by (auto simp: thenDo_def andThen_def raise_def split: prod.splits sum.splits)

lemma spends_id: "spends i (\<lambda>v. (r, v))"
  unfolding spends_def using drives_leaves by auto

section \<open>Steps on the database\<close>

lemma keepsLive_store:
  "(\<And>d s r t. m d s = (r, t) \<Longrightarrow> live i s \<Longrightarrow> onlyOn i s t \<and> live i t) \<Longrightarrow> keepsLive i (\<lambda>_ d. inStore (m d) d)"
  unfolding keepsLive_def by (auto simp: inStore_def split: prod.splits)

lemma keepsLive_tables:
  assumes "\<And>d s. preserves (sameTables s) (m d)"
  shows "keepsLive i (\<lambda>_ d. inStore (m d) d)"
proof (rule keepsLive_store)
  fix d s r t assume run: "m d s = (r, t)" and live: "live i s"
  have "sameTables s t" by (rule preservesD [OF assms sameTables_refl run])
  then have "sameLedger j s t" for j by (rule sameTables_ledger)
  with live show "onlyOn i s t \<and> live i t" using ledger_cong(2) by blast
qed

lemma keepsLive_status: "st \<noteq> ODone \<Longrightarrow> keepsLive i (\<lambda>_. inStore (updateOperationStatus now i st identity ref))"
  by (rule keepsLive_store) (use updateStatus_ledger in blast)

lemma keepsLive_evidence: "keepsLive i (\<lambda>_. inStore (updateRecoveryEvidence i p))"
  by (rule keepsLive_store) (use updateEvidence_ledger in blast)

lemma keepsLive_used: "keepsLive i (\<lambda>_. recordCapabilityUsed now o' c adm)"
  unfolding recordCapabilityUsed_def by (rule keepsLive_tables) (rule tables_event)

text \<open>\<open>finalizeOperation\<close> settles the ledger, and keeps the operation live when the result is
  indeterminate.\<close>

lemma boundTo_indeterminate [simp]: "isIndeterminate (boundTo o' r) = isIndeterminate r"
  by (simp add: boundTo_def)

lemma finalize_ledger:
  assumes run: "finalizeOperation now i res rs rel gone d = (r, d')" and live: "live i (dm_store d)"
  shows "onlyOn i (dm_store d) (dm_store d') \<and> balanced i (dm_store d') \<and> (isIndeterminate res \<longrightarrow> live i (dm_store d'))"
proof -
  from live_row [OF live] obtain o' where o': "getOperation i (dm_store d) = Some o'" by blast
  let ?r = "boundTo o' res"
  show ?thesis
  proof (cases "op_status o' = ODone")
    case True
    with run o' live show ?thesis by (auto simp: finalizeOperation_def Let_def)
  next
    case notDone: False
    obtain q s where q: "recordOperationResult i ?r (\<not> isIndeterminate ?r) (dm_store d) = (q, s)" by fastforce
    note led = recordResult_ledger [OF q live]
    show ?thesis
    proof (cases q)
      case (Inl e)
      with q have rq: "inStore (recordOperationResult i ?r (\<not> isIndeterminate ?r)) d = (Inl e, d\<lparr>dm_store := s\<rparr>)"
        by (simp add: inStore_def)
      have "d' = d\<lparr>dm_store := s\<rparr>"
        using run rq notDone o' by (cases "isIndeterminate res") (simp_all add: finalizeOperation_def Let_def)
      with led(1,2,3) Inl show ?thesis by auto
    next
      case (Inr u)
      with q have rq: "inStore (recordOperationResult i ?r (\<not> isIndeterminate ?r)) d = (Inr u, d\<lparr>dm_store := s\<rparr>)"
        by (simp add: inStore_def)
      show ?thesis
      proof (cases "isIndeterminate res")
        case True
        with led(3) have l: "live i s" by simp
        from live_row [OF l] obtain o2 where o2: "getOperation i s = Some o2" by blast
        obtain q2 s2 where q2: "updateRunStatus now (op_runId o2) RIndeterminate (resultTerminationReason ?r) None s = (q2, s2)" by fastforce
        have "sameTables s s2" by (rule preservesD [OF tables_runStatus sameTables_refl q2])
        then have t: "\<And>j. sameLedger j s s2" by (rule sameTables_ledger)
        have "dm_store d' = s2"
          using run rq notDone o' o2 q2 True
          by (cases q2) (auto simp: finalizeOperation_def Let_def thenDo_def andThen_def inStore_def)
        moreover have "onlyOn i s s2" using t by blast
        moreover have "live i s2" using l t ledger_cong(2) by blast
        ultimately show ?thesis using onlyOn_trans [OF led(1)] by blast
      next
        case False
        with led(4) Inr have c: "closed i s" by simp
        have "dm_store d' = s \<or> (\<exists>q2. internalReleaseResources gone now i rs (d\<lparr>dm_store := s\<rparr>) = (q2, d'))"
          using run rq notDone o' False
          by (auto simp: finalizeOperation_def Let_def thenDo_def andThen_def split: prod.splits sum.splits if_splits)
        then show ?thesis
        proof
          assume "dm_store d' = s"
          with led(1) c False show ?thesis by auto
        next
          assume "\<exists>q2. internalReleaseResources gone now i rs (d\<lparr>dm_store := s\<rparr>) = (q2, d')"
          then obtain q2 where "internalReleaseResources gone now i rs (d\<lparr>dm_store := s\<rparr>) = (q2, d')" ..
          from release_ledger [OF this] c have "onlyOn i s (dm_store d')" "absent i (dm_store d') \<or> closed i (dm_store d')" by simp_all
          with led(1) False show ?thesis using onlyOn_trans by blast
        qed
      qed
    qed
  qed
qed

lemma finalize_settles: "settles i (finalizeOperation now i res rs rel)"
  unfolding settles_def using finalize_ledger by blast

lemma finalize_keepsLive: "isIndeterminate res \<Longrightarrow> keepsLive i (finalizeOperation now i res rs rel)"
  unfolding keepsLive_def using finalize_ledger by blast

lemma indeterminateResult_is [simp]: "isIndeterminate (indeterminateResult now reason st c g t e)"
  by (simp add: indeterminateResult_def)

section \<open>Stopping\<close>

lemma pres_ensureActive: "preserves (drives i v0) (ensureActiveOperation j)"
  by (rule preservesI) (simp add: ensureActiveOperation_def Let_def split: option.split)

lemma drives_pipeline: "preserves (drives i v0) (handleStopPipeline now i reason)"
  unfolding handleStopPipeline_def
proof (intro pres_andThen pres_ensureActive pres_if pres_ret pres_thenDo pres_drives_setOp)
  fix x show "preserves (drives i v0) (\<lambda>v. if if_handle x = None
          then (Inr (), setOp i (\<lambda>x. x\<lparr>if_stop := StopSettled (Inr stoppedDirectly)\<rparr>) v)
          else (case inDomain (\<lambda>_. inStore (updateOperationStatus now i OStopping None None)) v of
              (Inl e, v1) \<Rightarrow> (Inr (), setOp i (\<lambda>x. x\<lparr>if_stop := StopSettled (Inl e)\<rparr>) v1)
            | (Inr _, v1) \<Rightarrow> (Inr (), setOp i (\<lambda>x. x\<lparr>if_stop := StopRunning\<rparr>) v1)))"
  proof (rule preservesI)
    fix v assume v: "drives i v0 v"
    have "drives i v0 (snd (inDomain (\<lambda>_. inStore (updateOperationStatus now i OStopping None None)) v))"
      by (rule preserves_snd [OF pres_drives_inDomain v]) (rule keepsLive_status, simp)
    with v show "drives i v0 (snd (if if_handle x = None
          then (Inr (), setOp i (\<lambda>x. x\<lparr>if_stop := StopSettled (Inr stoppedDirectly)\<rparr>) v)
          else (case inDomain (\<lambda>_. inStore (updateOperationStatus now i OStopping None None)) v of
              (Inl e, v1) \<Rightarrow> (Inr (), setOp i (\<lambda>x. x\<lparr>if_stop := StopSettled (Inl e)\<rparr>) v1)
            | (Inr _, v1) \<Rightarrow> (Inr (), setOp i (\<lambda>x. x\<lparr>if_stop := StopRunning\<rparr>) v1))))"
      by (auto intro!: drives_setOp simp: underway_def split: prod.split sum.split)
  qed
qed (simp add: underway_def)

lemma drives_isolate: "preserves (drives i v0) (isolateUnstopped now i x stop)"
proof (rule preservesI)
  fix v assume v: "drives i v0 v"
  have f: "preserves (drives i v0) (thenDo (inDomain (finalizeOperation now i (indeterminateResult now reason st None None t e) [] False)) (ret ()))"
    for reason st t e
    by (intro pres_thenDo pres_ret pres_drives_inDomain finalize_keepsLive) simp
  show "drives i v0 (snd (isolateUnstopped now i x stop v))"
    using v preserves_snd [OF f v] by (simp add: isolateUnstopped_def split: option.split)
qed

text \<open>A pipeline may outlive its run; then its operation has a row, and only that is written.\<close>

lemma drives_stopAnswered: "drives i v0 v \<Longrightarrow> drives i v0 (stopAnswered now i x answer v)"
proof -
  assume v: "drives i v0 v"
  have iso: "drives i v0 (snd (isolateUnstopped now i x stop v))" for stop
    by (rule preserves_snd [OF drives_isolate v])
  have "drives i v0 (setOp i (\<lambda>x. x\<lparr>if_stop := s\<rparr>) w)" if "drives i v0 w" for s w
    by (rule drives_setOp [OF that]) (simp add: underway_def)
  with v iso show ?thesis
    by (auto simp: stopAnswered_def split: sum.split prod.split) (metis snd_conv)+
qed

section \<open>Steps that touch no ledger\<close>

definition idleStep :: "supervisor \<Rightarrow> supervisor \<Rightarrow> bool" where
  "idleStep v v' \<longleftrightarrow> sameTables (storeOf v) (storeOf v') \<and> sv_ops v' = sv_ops v \<and> sv_active v' = sv_active v
     \<and> sv_spawned v' = sv_spawned v"

lemma idle_refl [simp]: "idleStep v v"
  by (simp add: idleStep_def)

lemma idle_trans: "idleStep u v \<Longrightarrow> idleStep v w \<Longrightarrow> idleStep u w"
  by (simp add: idleStep_def sameTables_def)

lemma idle_acts: "idleStep v v' \<Longrightarrow> acts i v v'"
  unfolding idleStep_def acts_def using sameTables_ledger same_all by metis

lemma idle_posed: "idleStep v v' \<Longrightarrow> posed i v' = posed i v"
proof -
  assume v: "idleStep v v'"
  then have "sameLedger i (storeOf v) (storeOf v')" unfolding idleStep_def using sameTables_ledger by blast
  with v show ?thesis
    unfolding posed_def waiting_def engaged_def by (simp add: idleStep_def ledger_cong [of i "storeOf v" "storeOf v'"])
qed

definition ledgerFree :: "((nat \<Rightarrow> bool) \<Rightarrow> 'a domM) \<Rightarrow> bool" where
  "ledgerFree m \<longleftrightarrow> (\<forall>gone (s0 :: store). preserves (\<lambda>d. sameTables s0 (dm_store d)) (m gone))"

lemma freeI: "(\<And>gone s0. preserves (\<lambda>d. sameTables s0 (dm_store d)) (m gone)) \<Longrightarrow> ledgerFree m"
  and freeD: "ledgerFree m \<Longrightarrow> preserves (\<lambda>d. sameTables s0 (dm_store d)) (m gone)"
  by (simp_all add: ledgerFree_def)

lemma free_idle: "ledgerFree m \<Longrightarrow> preserves (idleStep v0) (inDomain m)"
proof (rule preservesI)
  fix v assume m: "ledgerFree m" and v: "idleStep v0 v"
  obtain r d where run: "m (ticketGone v) (sv_domain v) = (r, d)" by fastforce
  have "sameTables (storeOf v0) (dm_store d)"
    by (rule preservesD [OF freeD [OF m] _ run]) (use v in \<open>simp add: idleStep_def\<close>)
  with v show "idleStep v0 (snd (inDomain m v))" by (simp add: idleStep_def inDomain_def run)
qed

lemma tables_inStore: "(\<And>d. preserves (sameTables s0) (m d)) \<Longrightarrow> preserves (\<lambda>d. sameTables s0 (dm_store d)) (\<lambda>d. inStore (m d) d)"
  by (rule preservesI) (simp add: inStore_def preserves_snd split: prod.split, metis preservesD)

lemmas tables_inStore_at = tables_inStore [of _ "\<lambda>_. m" for m, simplified]

lemma free_store: "(\<And>d s. preserves (sameTables s) (m d)) \<Longrightarrow> ledgerFree (\<lambda>_ d. inStore (m d) d)"
  by (intro freeI tables_inStore)

lemma free_const: "(\<And>d. dm_store (snd (m d)) = dm_store d) \<Longrightarrow> ledgerFree (\<lambda>_. m)"
  by (intro freeI preservesI) simp

lemma store_notFenced: "assertNotFenced d = (r, d') \<Longrightarrow> d' = d"
  by (auto simp: assertNotFenced_def split: if_splits)

lemma store_idAvailable: "dm_store (snd (assertOperationIdAvailable i d)) = dm_store d"
  by (auto simp: assertOperationIdAvailable_def thenDo_def andThen_def dest: store_notFenced split: prod.splits sum.splits option.splits)

lemma store_allocate: "allocateResources i rs w b d = (r, d') \<Longrightarrow> dm_store d' = dm_store d"
  by (cases rule: allocate_cases [of i rs w b d]) auto

lemma store_enqueue: "dm_store (snd (enqueueWaiter now i rs w b d)) = dm_store d"
  by (simp add: enqueueWaiter_def Let_def)

lemma store_allocateWait: "dm_store (snd (allocateResourcesWithWait now g i rs w b d)) = dm_store d"
  by (auto simp: allocateResourcesWithWait_def thenDo_def andThen_def store_enqueue
      dest: store_notFenced store_allocate split: prod.split sum.split)

lemma free_allocate: "ledgerFree (\<lambda>_. allocateResourcesWithWait now g i rs w b)"
  by (rule free_const) (rule store_allocateWait)

lemma free_idAvailable: "ledgerFree (\<lambda>_. assertOperationIdAvailable i)"
  by (rule free_const) (rule store_idAvailable)

lemma free_cancelWait: "ledgerFree (\<lambda>_. cancelWait i)"
  by (rule free_const) (simp add: cancelWait_def settle_def dequeue_def split: option.split)

lemma free_waitTimeout: "ledgerFree (\<lambda>gone. waitTimeout gone now t)"
  by (intro freeI preservesI) (simp add: waitTimeout_def modify_def settle_def dequeue_def Let_def split: option.split)

lemma tables_fence: "sameTables s (snd (fence t)) = sameTables s t"
  by (simp add: fence_def modify_def sameTables_def)

lemma free_heartbeat: "ledgerFree (\<lambda>_. heartbeatTick alive now host)"
proof (intro freeI preservesI)
  fix s0 and d :: domain assume d: "sameTables s0 (dm_store d)"
  obtain r t where run: "acquireOwnerLease alive now (dm_domainId d) (own_ownerId (dm_owner d)) host ownerTtl False (dm_store d) = (r, t)"
    by fastforce
  have "sameTables s0 t" by (rule preservesD [OF tables_acquire d run])
  with d run show "sameTables s0 (dm_store (snd (heartbeatTick alive now host d)))"
    by (cases r) (simp_all add: heartbeatTick_def renewHeartbeat_def catchE_def ret_def tables_fence)
qed

lemma free_runOpen: "ledgerFree (\<lambda>_. assertRunAcceptsOperations r)"
  unfolding assertRunAcceptsOperations_def by (rule free_store) (rule tables_runOpen)

lemma free_bind: "ledgerFree (\<lambda>_. inStore (bindRunConfigSnapshot H r c))"
  by (rule free_store) (rule tables_bind)

lemma free_replaying: "ledgerFree (\<lambda>_ d. inStore (recordReplay now (dm_domainId d) i m r) d)"
  by (rule free_store) (rule tables_replay)

lemma free_join: "ledgerFree (\<lambda>_. joinRunning now x o' fp)"
  unfolding joinRunning_def by (intro freeI pres_if pres_raise freeD [OF free_replaying, simplified])

lemma free_replay: "ledgerFree (\<lambda>_. replayRecorded now o' fp)"
proof (intro freeI preservesI)
  fix s0 and d :: domain assume d: "sameTables s0 (dm_store d)"
  have "preserves (\<lambda>d. sameTables s0 (dm_store d)) (thenDo (inStore (recordReplay now q i m r)) (ret y))"
    for q i m r and y :: "OperationResult option"
    by (intro pres_thenDo pres_ret tables_inStore tables_replay)
  from preserves_snd [OF this d] d
  show "sameTables s0 (dm_store (snd (replayRecorded now o' fp d)))"
    by (auto simp: replayRecorded_def split: option.split)
qed

lemma free_admit: "ledgerFree (\<lambda>_. admitProcessScope fs now o')"
proof (rule freeI)
  fix s0 :: store
  have "preserves (\<lambda>d. sameTables s0 (dm_store d)) (domainCheckAdmission fs now q)" for q
    unfolding domainCheckAdmission_def Let_def by (rule tables_inStore) (rule tables_admission)
  then show "preserves (\<lambda>d. sameTables s0 (dm_store d)) (admitProcessScope fs now o')"
    unfolding admitProcessScope_def Let_def by (intro pres_option pres_andThen pres_ret)
qed

section \<open>The segments of a run\<close>

lemma ends_atStage: "drives i v0 v \<Longrightarrow> st \<noteq> Finished \<Longrightarrow> \<not> waitsForResources st \<Longrightarrow> ends i v0 (atStage i st v)"
  by (intro drives_ends drives_atStage)

lemma ends_finish: "drives i v0 v \<Longrightarrow> ends i v0 (finish i r v)"
  by (intro finish_ends drives_leaves)

lemma spends_finalize: "spends i (inDomain (finalizeOperation now i r rs rel))"
  by (intro spends_inDomain finalize_settles)

lemma spends_hold: "spends i (holdLeases now i x r)"
  unfolding holdLeases_def by (rule spends_finalize)

lemma spends_known:
  assumes "\<And>v. (\<exists>r. m v = (r, v)) \<or> (\<exists>r. m v = holdLeases now i x r v)"
  shows "spends i m"
  unfolding spends_def
proof (intro allI impI)
  fix v0 v r v' assume run: "m v = (r, v')" and v: "drives i v0 v"
  from assms [of v] show "leaves i v0 v'"
  proof (elim disjE exE)
    fix res assume "m v = holdLeases now i x res v"
    with run spends_hold v show ?thesis unfolding spends_def by metis
  qed (use run v drives_leaves in simp)
qed

lemma spends_unconfirmed: "spends i (recordUnconfirmedStop now i x stop b)"
  by (rule spends_known) (auto simp: recordUnconfirmedStop_def Let_def split: option.split)

lemma spends_timeout: "spends i (timeoutUnconfirmed now i x stop)"
  by (rule spends_known) (auto simp: timeoutUnconfirmed_def Let_def split: option.split bool.split)

lemma drives_op: "drives i v0 v \<Longrightarrow> (\<And>x. if_stage (f x) = if_stage x) \<Longrightarrow> drives i v0 (setOp i f v)"
  by (rule drives_setOp) (simp_all add: underway_def)

lemma resolveStop_stage [simp]: "if_stage (resolveStop r x) = if_stage x"
  by (simp add: resolveStop_def)

lemma ends_failSpawn: "drives i v0 v \<Longrightarrow> ends i v0 (failSpawn k now i x e v)"
  unfolding failSpawn_def by (rule conclude_ends [OF spends_finalize]) (rule drives_op, simp_all)

lemma drives_activate: "preserves (drives i v0) (activate k now i x identity gate)"
  unfolding activate_def
  by (intro pres_thenDo pres_drives_setOp pres_drives_inDomain keepsLive_status)
     (auto simp: underway_def intro: pres_ret pres_raise pres_drives_inDomain keepsLive_used split: option.split)

lemma ends_spawned: "drives i v0 v \<Longrightarrow> ends i v0 (spawned k now i x answer gate v)"
proof -
  assume v: "drives i v0 v"
  show ?thesis
  proof (cases answer)
    case (Inr identity)
    let ?v = "setOp i (\<lambda>x. x\<lparr>if_handle := Some identity\<rparr>) v"
    obtain r v1 where run: "activate k now i x identity gate ?v = (r, v1)" by fastforce
    have "drives i v0 v1" by (rule preservesD [OF drives_activate _ run]) (rule drives_op [OF v], simp)
    then show ?thesis
      by (auto simp: spawned_def Inr run underway_def intro!: ends_atStage drives_ends [OF drives_setOp] split: sum.split)
  qed (simp add: spawned_def ends_failSpawn v)
qed

lemma ends_aborted: "drives i v0 v \<Longrightarrow> ends i v0 (aborted k now i x e answer v)"
  by (auto simp: aborted_def Let_def split: sum.split
      intro!: ends_finish conclude_ends spends_raise spends_finalize drives_op)

lemma pipeline_drives: "handleStopPipeline now i reason v = (r, v') \<Longrightarrow> drives i v0 v \<Longrightarrow> drives i v0 v'"
  by (rule preservesD [OF drives_pipeline])

lemma ends_outcome: "drives i v0 v \<Longrightarrow> ends i v0 (outcomeSettled now i x outcome v)"
  by (auto simp: outcomeSettled_def split: RootOutcome.split prod.split sum.split
      intro!: ends_atStage ends_finish conclude_ends spends_unconfirmed drives_op elim!: pipeline_drives)

lemma ends_rootWaited: "drives i v0 v \<Longrightarrow> ends i v0 (rootWaited now i x timeout exit v)"
  by (auto simp: rootWaited_def split: option.split bool.split intro!: ends_atStage conclude_ends spends_timeout)

lemma ends_drainedWith: "drives i v0 v \<Longrightarrow> ends i v0 (drainedWith k now i x f v)"
proof -
  assume v: "drives i v0 v"
  have p: "drives i v0 v1" if "inDomain (\<lambda>_. inStore (updateRecoveryEvidence i p)) v = (r, v1)" for p r v1
    by (rule preservesD [OF pres_drives_inDomain [OF keepsLive_evidence] v that])
  show ?thesis
    unfolding drainedWith_def Let_def
    by (auto split: prod.split sum.split dest: p intro!: ends_finish ends_atStage)
qed

lemma ends_heldPipes: "drives i v0 v \<Longrightarrow> ends i v0 (heldPipes now i x e v)"
  unfolding heldPipes_def by (rule conclude_ends [OF spends_hold])

lemma ends_drained: "drives i v0 v \<Longrightarrow> ends i v0 (drained k now i x e natural b v)"
  by (simp add: drained_def ends_drainedWith ends_atStage)

lemma ends_reaped: "drives i v0 v \<Longrightarrow> ends i v0 (reaped now i x e answer v)"
  by (simp add: reaped_def ends_finish ends_atStage conclude_ends spends_hold split: sum.split)

lemma ends_drainedAgain: "drives i v0 v \<Longrightarrow> ends i v0 (drainedAgain k now i x e pids b v)"
  by (simp add: drainedAgain_def ends_drainedWith ends_atStage)

lemma ends_tree: "drives i v0 v \<Longrightarrow> ends i v0 (treeAnswered k now i x e answer v)"
  by (simp add: treeAnswered_def ends_finish ends_atStage ends_drainedWith split: sum.split TreeStatus.split)

lemma ends_treeReaped: "drives i v0 v \<Longrightarrow> ends i v0 (treeReaped k now i x e answer v)"
  by (simp add: treeReaped_def ends_finish ends_drainedWith conclude_ends spends_hold split: sum.split)

lemma ends_limits: "drives i v0 v \<Longrightarrow> ends i v0 (limitsRead i f answer v)"
  by (auto simp: limitsRead_def ends_finish split: sum.split option.split intro!: ends_atStage drives_op)

lemma ends_record: "drives i v0 v \<Longrightarrow> ends i v0 (recordResult now i x r v)"
  unfolding recordResult_def by (rule conclude_ends [OF spends_finalize])

lemma ends_verified: "drives i v0 v \<Longrightarrow> ends i v0 (verified now i x f c answer v)"
  by (simp add: verified_def Let_def ends_finish ends_record ends_atStage split: sum.split)

lemma ends_stopAwaited: "drives i v0 v \<Longrightarrow> ends i v0 (stopAwaited now i x r answer v)"
  by (simp add: stopAwaited_def ends_finish ends_record conclude_ends spends_unconfirmed split: sum.split)

section \<open>Samples and output\<close>

lemma pres_stopFor: "preserves (drives i v0) (stopFor now i reason)"
  unfolding stopFor_def by (intro pres_thenDo drives_pipeline pres_drives_setOp) (simp add: underway_def)

lemma stopFor_drives: "stopFor now i reason v = (r, v') \<Longrightarrow> drives i v0 v \<Longrightarrow> drives i v0 v'"
  by (rule preservesD [OF pres_stopFor])

lemma samplingFailed_stage [simp]: "if_stage (samplingFailed t x) = if_stage x"
  by (simp add: samplingFailed_def Let_def)

lemma drives_sampleFailure: "drives i v0 v \<Longrightarrow> drives i v0 (sampleFailure k now i b e v)"
  unfolding sampleFailure_def Let_def
  by (auto split: option.split prod.split sum.split intro!: drives_op elim!: stopFor_drives)

lemma drives_stopSample: "drives i v0 v \<Longrightarrow> drives i v0 (stopSample k now i b reason v)"
  unfolding stopSample_def
  by (auto split: prod.split sum.split intro!: drives_op drives_sampleFailure elim!: stopFor_drives)

lemma drives_sampled: "drives i v0 v \<Longrightarrow> drives i v0 (sampled k now i x b answer v)"
  unfolding sampled_def Let_def
  by (auto split: sum.split option.split intro!: drives_sampleFailure drives_stopSample drives_op)

lemma drives_hits: "drives i v0 v \<Longrightarrow> drives i v0 (sampledHits k now i b answer v)"
  unfolding sampledHits_def Let_def
  by (auto split: sum.split option.split intro!: drives_sampleFailure drives_stopSample drives_op)

lemma drives_output: "drives i v0 v \<Longrightarrow> drives i v0 (outputSeen now i x bytes v)"
  unfolding outputSeen_def Let_def
  by (auto split: option.split intro!: preserves_snd [OF drives_pipeline] drives_op)

lemma sampleEnded_stage [simp]: "if_stage (sampleEnded k x) = if_stage x"
  by (auto simp: sampleEnded_def Let_def split: option.split StopState.split sum.split)

lemma lastSample_stage [simp]: "if_stage (lastSample k a x) = if_stage x"
  by (auto simp: lastSample_def Let_def split: sum.split)

section \<open>Calls from outside a run\<close>

lemma listed_engaged: "posed i v \<Longrightarrow> listed v i = Some x \<Longrightarrow> underway x \<Longrightarrow> engaged i v"
  unfolding posed_def waiting_def by (auto simp: listed_def underway_def split: if_splits)

lemma listed_waiting: "posed i v \<Longrightarrow> listed v i = Some x \<Longrightarrow> waitsForResources (if_stage x) \<Longrightarrow> waiting i v"
  unfolding posed_def engaged_def by (auto simp: listed_def underway_def split: if_splits)

lemma listed_phase: "posed i v \<Longrightarrow> listed v i = Some x \<Longrightarrow>
    (engaged i v \<and> underway x) \<or> (waiting i v \<and> if_phase x = PhWaiting \<and> if_handle x = None)"
  unfolding posed_def waiting_def engaged_def by (auto simp: listed_def split: if_splits)

lemma waiting_setOp:
  assumes "waiting i v" and "\<And>x. if_stage (f x) = if_stage x \<and> if_phase (f x) = if_phase x \<and> if_handle (f x) = if_handle x \<and> if_op (f x) = if_op x"
  shows "waiting i (setOp i f v)"
  using assms by (auto simp: waiting_def mapGet_setOp)

lemma idle_waiting: "idleStep v v' \<Longrightarrow> waiting i v' = waiting i v"
proof -
  assume v: "idleStep v v'"
  then have "sameLedger i (storeOf v) (storeOf v')" unfolding idleStep_def using sameTables_ledger by blast
  with v show ?thesis unfolding waiting_def by (simp add: idleStep_def ledger_cong [of i "storeOf v" "storeOf v'"])
qed

lemma idle_drives: "drives i v0 v \<Longrightarrow> idleStep v v' \<Longrightarrow> drives i v0 v'"
proof -
  assume d: "drives i v0 v" and v: "idleStep v v'"
  then have "sameLedger i (storeOf v) (storeOf v')" unfolding idleStep_def using sameTables_ledger by blast
  with d v show ?thesis
    unfolding drives_def engaged_def using acts_trans [OF _ idle_acts [OF v]]
    by (simp add: idleStep_def ledger_cong [of i "storeOf v" "storeOf v'"])
qed

lemma idle_step: "ledgerFree m \<Longrightarrow> inDomain m v = (r, v') \<Longrightarrow> idleStep v v'"
  by (rule preservesD [OF free_idle idle_refl])

definition rests :: "string \<Rightarrow> supervisor \<Rightarrow> supervisor \<Rightarrow> bool" where
  "rests i v v' \<longleftrightarrow> acts i v v' \<and> waiting i v'"

lemma rests_ends: "rests i v v' \<Longrightarrow> ends i v v'"
  by (simp add: rests_def ends_def posed_def)

lemma rests_op:
  "rests i v0 v \<Longrightarrow> (\<And>x. if_stage (f x) = if_stage x \<and> if_phase (f x) = if_phase x \<and> if_handle (f x) = if_handle x \<and> if_op (f x) = if_op x) \<Longrightarrow>
   rests i v0 (setOp i f v)"
  unfolding rests_def using acts_trans [OF _ acts_setOp] waiting_setOp by blast

lemma idle_rests: "rests i v0 v \<Longrightarrow> idleStep v v' \<Longrightarrow> rests i v0 v'"
  unfolding rests_def using acts_trans [OF _ idle_acts] idle_waiting by blast

lemma ensureActive_state: "ensureActiveOperation i v = (r, v') \<Longrightarrow> v' = v \<and> (case r of Inr x \<Rightarrow> listed v i = Some x | Inl e \<Rightarrow> True)"
  by (auto simp: ensureActiveOperation_def listed_def split: if_splits option.splits)

lemma ends_refl: "posed i v \<Longrightarrow> ends i v v"
  by (simp add: ends_def)

lemma ends_cancel:
  assumes "posed i v"
  shows "ends i v (snd (cancelOperation now i g v))"
proof -
  obtain r v1 where run: "ensureActiveOperation i v = (r, v1)" by fastforce
  note st = ensureActive_state [OF run]
  show ?thesis
  proof (cases r)
    case (Inl e)
    with run st assms show ?thesis by (simp add: cancelOperation_def andThen_def ends_refl)
  next
    case (Inr x)
    let ?f = "\<lambda>x. x\<lparr>if_cancelRequested := True, if_reason := Some TUserCancelled, if_cancelGraceMs := coalesce (if_cancelGraceMs x) (Some g)\<rparr>"
    let ?g = "\<lambda>x. if if_stop x = StopNone then x\<lparr>if_stop := StopRequested\<rparr> else x"
    obtain q v2 where wait: "inDomain (\<lambda>_. cancelWait i) (setOp i ?f v) = (q, v2)" by fastforce
    have q: "\<exists>b. q = Inr b"
      using wait by (auto simp: inDomain_def cancelWait_def split: option.splits prod.splits)
    have idle: "idleStep (setOp i ?f v) v2" by (rule idle_step [OF free_cancelWait wait])
    have end': "snd (cancelOperation now i g v) = (if if_phase x = PhActive \<or> if_phase x = PhStopping
        then snd (handleStopPipeline now i TUserCancelled v2) else setOp i ?g v2)"
      using run st Inr wait q by (auto simp: cancelOperation_def andThen_def thenDo_def modify_def)
    from listed_phase [OF assms] st Inr have "engaged i v \<or> waiting i v \<and> if_phase x = PhWaiting" by auto
    then show ?thesis
    proof
      assume "engaged i v"
      then have "drives i v (setOp i ?f v)" by (intro drives_op drives_start) simp_all
      then have d: "drives i v v2" using idle by (rule idle_drives)
      show ?thesis unfolding end'
        by (auto intro!: drives_ends drives_op [OF d] preserves_snd [OF drives_pipeline d])
    next
      assume w: "waiting i v \<and> if_phase x = PhWaiting"
      then have "rests i v (setOp i ?f v)" by (intro rests_op) (simp_all add: rests_def)
      then have d: "rests i v v2" using idle by (rule idle_rests)
      show ?thesis unfolding end' using w rests_op [OF d, of ?g] by (simp add: rests_ends)
    qed
  qed
qed

lemma ends_supervision: "drives i v0 v \<Longrightarrow> ends i v0 (startSupervision now i x v)"
  unfolding startSupervision_def Let_def
  by (auto simp: underway_def intro!: drives_ends drives_setOp preserves_snd [OF drives_pipeline])

lemma drives_raced: "drives i v0 v \<Longrightarrow> drives i v0 (raced i outcome v)"
  unfolding raced_def by (rule drives_setOp) (simp_all add: underway_def)

text \<open>A pipeline that outlived its run.\<close>

lemma ends_late:
  assumes "posed i v"
  shows "ends i v (stopAnswered now i x answer v)"
proof -
  have iso: "ends i v v1" if run: "isolateUnstopped now i x stop v = (r, v1)" for stop r v1
  proof (cases "engaged i v")
    case True
    with drives_start preservesD [OF drives_isolate _ run] show ?thesis by (blast intro: drives_ends)
  next
    case no: False
    show ?thesis
    proof (cases "getOperation i (storeOf v) = None \<or> (\<exists>o'. getOperation i (storeOf v) = Some o' \<and> op_status o' = ODone)")
      case True
      then have "v1 = v" using run by (auto simp: isolateUnstopped_def)
      with assms show ?thesis by (simp add: ends_refl)
    next
      case False
      then obtain o' where o': "getOperation i (storeOf v) = Some o'" "op_status o' \<noteq> ODone" by auto
      have na: "i \<notin> set (sv_active v)" and bal: "balanced i (storeOf v)"
        using assms no o'(1) absent_row by (auto simp: posed_def waiting_def)
      have lv: "live i (storeOf v)"
        using bal o' by (auto simp: balanced_def absent_def closed_def getOperation_rows settledRow_def)
      let ?m = "finalizeOperation now i (indeterminateResult now (''Process '' @ pidText x @ '' could not be confirmed stopped: ''
                @ (case stp_errorDetails stop of Some e \<Rightarrow> e | None \<Rightarrow> ''undefined''))
              (if_startTime x) None None (if_reason x) (if_samplingError x)) [] False"
      obtain q d where d: "?m (ticketGone v) (sv_domain v) = (q, d)" by fastforce
      have "v1 = v\<lparr>sv_domain := d\<rparr>"
        using run o' d by (auto simp: isolateUnstopped_def inDomain_def thenDo_def andThen_def ret_def split: sum.splits)
      with finalize_ledger [OF d lv] na show ?thesis
        by (auto simp: ends_def acts_def posed_def)
    qed
  qed
  have op: "ends i v (setOp i (\<lambda>x. x\<lparr>if_stop := s\<rparr>) v1)" if e: "ends i v v1" for s v1
  proof -
    have "posed i (setOp i (\<lambda>x. x\<lparr>if_stop := s\<rparr>) v1) = posed i v1"
      by (auto simp: posed_def waiting_def engaged_def underway_def mapGet_setOp)
    with e acts_trans [OF _ acts_setOp] show ?thesis unfolding ends_def by blast
  qed
  show ?thesis
    unfolding stopAnswered_def by (auto simp: assms split: sum.split prod.split intro!: op ends_refl dest: iso)
qed

section \<open>The start of a run\<close>

text \<open>A run that waits has no ledger yet; what ends it there leaves none, or a settled one.\<close>

lemma ends_unheld:
  assumes "m (ticketGone v) (sv_domain v) = (r, d)" and "acts i v0 v"
    and "onlyOn i (storeOf v) (dm_store d)" and "absent i (dm_store d) \<or> closed i (dm_store d)"
  shows "ends i v0 (concludeBy i (inDomain m) v)"
proof -
  have "acts i v (v\<lparr>sv_domain := d\<rparr>)" using assms(3) by (simp add: acts_def)
  then have "leaves i v0 (v\<lparr>sv_domain := d\<rparr>)" using acts_trans [OF assms(2)] assms(4) by (auto simp: leaves_def)
  with assms(1) show ?thesis by (simp add: concludeBy_def inDomain_def finish_ends)
qed

lemma preIntent_cancelled:
  assumes run: "cancelBeforeSpawn k now i x gone d = (r, d')" and free: "absent i (dm_store d)"
  shows "onlyOn i (dm_store d) (dm_store d') \<and> (absent i (dm_store d') \<or> closed i (dm_store d'))"
proof -
  have none: "getOperation i (dm_store d) = None" by (rule absent_row [OF free])
  have "\<exists>op res. op_id op = i \<and> \<not> isIndeterminate res \<and> cancelBeforeSpawn k now i x gone d
      = thenDo (inStore (recordPreIntentCancelledOperation (ke_digest k) op (dm_domainId d) res))
        (thenDo (internalReleaseResources gone now i (resourcesOf x)) (ret res)) d"
    unfolding cancelBeforeSpawn_def Let_def using none
    by (simp only: if_True simp_thms) (rule exI, rule exI, rule conjI [OF _ conjI [OF _ refl]], simp_all)
  then obtain op res where op: "op_id op = i" "\<not> isIndeterminate res"
    and eq: "cancelBeforeSpawn k now i x gone d = thenDo (inStore (recordPreIntentCancelledOperation (ke_digest k) op (dm_domainId d) res))
        (thenDo (internalReleaseResources gone now i (resourcesOf x)) (ret res)) d" by blast
  obtain q s where q: "recordPreIntentCancelledOperation (ke_digest k) op (dm_domainId d) res (dm_store d) = (q, s)" by fastforce
  have abs: "absent (op_id op) (dm_store d)" using free op(1) by simp
  note led = preIntent_ledger [OF q abs op(2), unfolded op(1)]
  show ?thesis
  proof (cases q)
    case (Inl e)
    then have "d' = d\<lparr>dm_store := s\<rparr>" using run eq q by (simp add: thenDo_def andThen_def inStore_def)
    with led(1,3) Inl show ?thesis by simp
  next
    case (Inr u)
    obtain q2 d2 where q2: "internalReleaseResources gone now i (resourcesOf x) (d\<lparr>dm_store := s\<rparr>) = (q2, d2)" by fastforce
    have "d' = d2"
      using run eq q q2 Inr by (auto simp: thenDo_def andThen_def inStore_def ret_def split: sum.splits)
    with release_ledger [OF q2] led(1,2) Inr show ?thesis using onlyOn_trans by auto
  qed
qed

lemma ends_cancelled:
  assumes "waiting i v"
  shows "ends i v (cancelledEarly k now i x v)"
proof -
  let ?v = "setOp i (\<lambda>x. resolveStop stoppedDirectly (x\<lparr>if_phase := PhDone\<rparr>)) v"
  have free: "absent i (storeOf ?v)" using assms by (simp add: waiting_def)
  obtain r d where run: "cancelBeforeSpawn k now i x (ticketGone ?v) (sv_domain ?v) = (r, d)" by fastforce
  have a: "acts i v ?v" by (rule acts_setOp)
  show ?thesis
    unfolding cancelledEarly_def using preIntent_cancelled [OF run free]
    by (intro ends_unheld [where m = "cancelBeforeSpawn k now i x", OF run a]) simp_all
qed

text \<open>Spawning: the operation was not recorded before, and is now.\<close>

definition spawns :: "string \<Rightarrow> supervisor \<Rightarrow> supervisor \<Rightarrow> bool" where
  "spawns i v v' \<longleftrightarrow> rowsOf i (storeOf v) = []
     \<and> (\<exists>w. drives i v w \<and> v' = w\<lparr>sv_spawned := sv_spawned v @ [i]\<rparr>)"

lemma granted_step:
  assumes w: "waiting i v" and x: "mapGet (sv_ops v) i = Some x"
  shows "ends i v (resourcesGranted k now i x v) \<or> spawns i v (resourcesGranted k now i x v)"
proof (cases "if_cancelRequested x")
  case True
  then show ?thesis using ends_cancelled [OF w] by (simp add: resourcesGranted_def)
next
  case False
  have free: "absent i (storeOf v)" and op: "op_id (if_op x) = i" "op_status (if_op x) = OPending"
    using w x by (auto simp: waiting_def)
  let ?d = "sv_domain v"
  obtain q s where q: "registerOperationIntent (ke_digest k) now (if_op x) (dm_domainId ?d) (dm_store ?d) = (q, s)" by fastforce
  let ?m = "\<lambda>(_ :: nat \<Rightarrow> bool) d. inStore (registerOperationIntent (ke_digest k) now (if_op x) (dm_domainId d)) d"
  have in': "inDomain ?m v = (q, v\<lparr>sv_domain := ?d\<lparr>dm_store := s\<rparr>\<rparr>)"
    using q by (simp add: inDomain_def inStore_def)
  have abs: "absent (op_id (if_op x)) (dm_store ?d)" using free op(1) by simp
  note led = registerIntent_ledger [OF q abs, unfolded op(1)]
  show ?thesis
  proof (cases q)
    case (Inl e)
    let ?r = "\<lambda>gone. internalReleaseResources gone now i (resourcesOf x)"
    have s: "v\<lparr>sv_domain := ?d\<lparr>dm_store := s\<rparr>\<rparr> = v" using led(3) [OF Inl] by simp
    obtain q2 d where q2: "?r (ticketGone v) ?d = (q2, d)" by fastforce
    have rel: "onlyOn i (storeOf v) (dm_store d)" "absent i (dm_store d) \<or> closed i (dm_store d)"
      using release_ledger [OF q2] free by blast+
    have "\<exists>q3 :: KError + OperationResult. thenDo (inDomain ?r) (raise e) v = (q3, v\<lparr>sv_domain := d\<rparr>)"
      using q2 by (auto simp: thenDo_def andThen_def inDomain_def raise_def split: sum.split)
    then obtain q3 :: "KError + OperationResult" where q3: "thenDo (inDomain ?r) (raise e) v = (q3, v\<lparr>sv_domain := d\<rparr>)" ..
    have "acts i v (v\<lparr>sv_domain := d\<rparr>)" using rel(1) by (simp add: acts_def)
    then have "leaves i v (v\<lparr>sv_domain := d\<rparr>)" using rel(2) by (auto simp: leaves_def)
    then have "ends i v (finish i q3 (v\<lparr>sv_domain := d\<rparr>))" by (rule finish_ends)
    then show ?thesis using False in' Inl s q3 by (simp add: resourcesGranted_def concludeBy_def)
  next
    case (Inr u)
    let ?v1 = "v\<lparr>sv_domain := ?d\<lparr>dm_store := s\<rparr>\<rparr>"
    let ?f = "\<lambda>x. x\<lparr>if_phase := PhSpawning, if_stage := AwaitSpawn\<rparr>"
    have "acts i v ?v1" using led(1) by (simp add: acts_def)
    then have "acts i v (setOp i ?f ?v1)" using acts_setOp by (rule acts_trans)
    moreover have "engaged i (setOp i ?f ?v1)"
      using led(2) [OF Inr op(2)] w by (auto simp: engaged_def waiting_def mapGet_setOp underway_def)
    ultimately have d: "drives i v (setOp i ?f ?v1)" by (simp add: drives_def)
    have res: "resourcesGranted k now i x v = (setOp i ?f ?v1)\<lparr>sv_spawned := sv_spawned v @ [i]\<rparr>"
      using False in' Inr by (simp add: resourcesGranted_def Let_def)
    show ?thesis unfolding spawns_def using d free res by (intro disjI2 conjI exI) (auto simp: absent_def)
  qed
qed

lemma ends_start:
  assumes "i \<notin> set (sv_active v)" and "absent i (storeOf v)"
    and x: "if_phase x = PhWaiting" "if_handle x = None" "op_id (if_op x) = i" "op_status (if_op x) = OPending"
  shows "ends i v (startRun now x v)"
proof -
  let ?v = "v\<lparr>sv_ops := mapSet i x (sv_ops v), sv_active := setAdd i (sv_active v)\<rparr>"
  let ?m = "\<lambda>(_ :: nat \<Rightarrow> bool). allocateResourcesWithWait now (if_cancelRequested x) i (resourcesOf x)
           (orElse (xo_waitTimeoutMs (if_options x)) 0) (xo_resourceBudget (if_options x))"
  obtain q v1 where run: "inDomain ?m ?v = (q, v1)" by fastforce
  have idle: "idleStep ?v v1" by (rule idle_step [OF free_allocate run])
  have a: "acts i v ?v" by (simp add: acts_def)
  then have a1: "acts i v v1" using idle_acts [OF idle] by (rule acts_trans)
  have led: "sameLedger i (storeOf v) (storeOf v1)" using idle sameTables_ledger by (simp add: idleStep_def)
  have abs: "absent i (storeOf v1)" using assms(2) ledger_cong(1) [OF led] by simp
  have got: "mapGet (sv_ops v1) i = Some x" "i \<in> set (sv_active v1)" using idle by (simp_all add: idleStep_def)
  have "startRun now x v = (case q of Inl e \<Rightarrow> finish i (Inl e) v1 | Inr t \<Rightarrow> atStage i (AwaitResources t) v1)"
    using run x(3) by (simp add: startRun_def split: sum.split)
  moreover have "ends i v (finish i r v1)" for r
    by (rule finish_ends) (use a1 abs in \<open>auto simp: leaves_def\<close>)
  moreover have "ends i v (atStage i (AwaitResources t) v1)" for t
  proof -
    have "waiting i (atStage i (AwaitResources t) v1)"
      using got abs x by (simp add: waiting_def atStage_def mapGet_setOp)
    moreover have "acts i v (atStage i (AwaitResources t) v1)" unfolding atStage_def using a1 acts_setOp by (rule acts_trans)
    ultimately show ?thesis by (simp add: ends_def posed_def)
  qed
  ultimately show ?thesis by (simp split: sum.split)
qed

section \<open>The system\<close>

definition allPosed :: "supervisor \<Rightarrow> bool" where
  "allPosed v \<longleftrightarrow> (\<forall>i. posed i v)"

text \<open>Every ledger is in order, no row is lost, and at most one operation is spawned, that had no row.\<close>

definition advances :: "supervisor \<Rightarrow> supervisor \<Rightarrow> bool" where
  "advances v v' \<longleftrightarrow> allPosed v' \<and> (\<forall>j. rowsOf j (storeOf v) \<noteq> [] \<longrightarrow> rowsOf j (storeOf v') \<noteq> [])
     \<and> (sv_spawned v' = sv_spawned v
        \<or> (\<exists>i. rowsOf i (storeOf v) = [] \<and> rowsOf i (storeOf v') \<noteq> [] \<and> sv_spawned v' = sv_spawned v @ [i]))"

lemma acts_rows: "acts i v v' \<Longrightarrow> rowsOf j (storeOf v) \<noteq> [] \<Longrightarrow> rowsOf j (storeOf v') \<noteq> []"
  by (cases "j = i") (auto simp: acts_def onlyOn_def sameLedger_def)

lemma ends_advances: "ends i v v' \<Longrightarrow> allPosed v \<Longrightarrow> advances v v'"
  unfolding advances_def allPosed_def using ends_all acts_rows by (auto simp: ends_def acts_def)

lemma idle_advances: "idleStep v v' \<Longrightarrow> allPosed v \<Longrightarrow> advances v v'"
  unfolding advances_def allPosed_def using idle_posed acts_rows [OF idle_acts] by (auto simp: idleStep_def)

lemma spawns_advances: "spawns i v v' \<Longrightarrow> allPosed v \<Longrightarrow> advances v v'"
proof -
  assume s: "spawns i v v'" and v: "allPosed v"
  then obtain w where w: "drives i v w" "v' = w\<lparr>sv_spawned := sv_spawned v @ [i]\<rparr>" "rowsOf i (storeOf v) = []"
    by (auto simp: spawns_def)
  from ends_advances [OF drives_ends [OF w(1)] v] have a: "advances v w" .
  have "posed j v' = posed j w" for j by (simp add: w(2) posed_def waiting_def engaged_def)
  moreover have "rowsOf i (storeOf w) \<noteq> []" using w(1) by (auto simp: drives_def engaged_def live_def)
  ultimately show ?thesis using a w(2,3) by (auto simp: advances_def allPosed_def)
qed

text \<open>The request's checks touch no ledger; its run starts where nothing is recorded.\<close>

definition launches :: "supervisor \<Rightarrow> 'a supM \<Rightarrow> bool" where
  "launches v0 m \<longleftrightarrow> (allPosed v0 \<longrightarrow> (\<forall>v. idleStep v0 v \<longrightarrow> advances v0 (snd (m v))))"

lemma launches_idle: "preserves (idleStep v0) m \<Longrightarrow> launches v0 m"
  unfolding launches_def preserves_def using idle_advances by blast

lemma launches_andThen: "preserves (idleStep v0) m \<Longrightarrow> (\<And>x. launches v0 (f x)) \<Longrightarrow> launches v0 (andThen m f)"
  unfolding launches_def preserves_def andThen_def using idle_advances
  by (auto split: prod.split sum.split; metis snd_conv)

lemma launches_thenDo: "preserves (idleStep v0) m \<Longrightarrow> launches v0 n \<Longrightarrow> launches v0 (thenDo m n)"
  unfolding thenDo_def by (rule launches_andThen)

lemma launches_at: "(\<And>v. idleStep v0 v \<Longrightarrow> \<exists>n. m v = n v \<and> launches v0 n) \<Longrightarrow> launches v0 m"
  unfolding launches_def by metis

lemma idle_orRaise: "preserves (idleStep v0) (orRaise e)"
  unfolding orRaise_def by (intro pres_option pres_ret pres_raise)

lemma idle_lift: "preserves (idleStep v0) (liftSum r)"
  by (rule preservesI) (simp add: liftSum_def)

lemma launches_new:
  assumes "op_id (if_op x) = i" and "if_phase x = PhWaiting" and "op_status (if_op x) = OPending" and "if_handle x = None"
    and "idleStep v0 v" and "allPosed v0" and "assertIdAvailable i v = (Inr (), v')"
  shows "advances v0 (startRun now x v')"
proof -
  have v: "allPosed v" using assms(5,6) idle_posed by (simp add: allPosed_def)
  then have p: "posed i v" by (simp add: allPosed_def)
  have unlisted: "listed v i = None" and free: "inDomain (\<lambda>_. assertOperationIdAvailable i) v = (Inr (), v')"
    using assms(7) by (auto simp: assertIdAvailable_def listed_def split: option.splits if_splits)
  have idle: "idleStep v v'" by (rule idle_step [OF free_idAvailable free])
  have "getOperation i (storeOf v) = None"
  proof -
    obtain d where "assertOperationIdAvailable i (sv_domain v) = (Inr (), d)" using free by (auto simp: inDomain_run)
    then show ?thesis
      by (auto simp: assertOperationIdAvailable_def thenDo_def andThen_def dest: store_notFenced split: prod.splits sum.splits option.splits)
  qed
  then have "absent i (storeOf v)" and na: "i \<notin> set (sv_active v)"
    using p unlisted by (auto simp: posed_def waiting_def engaged_def listed_def balanced_def live_def closed_def getOperation_rows
        split: if_splits list.splits)
  then have abs: "absent i (storeOf v')" using idle sameTables_ledger ledger_cong(1) by (metis idleStep_def)
  have p0: "idleStep v0 v'" using assms(5) idle by (rule idle_trans)
  have v': "allPosed v'" using p0 assms(6) idle_posed by (simp add: allPosed_def)
  have "ends i v' (startRun now x v')"
    by (rule ends_start) (use na idle abs assms(1-4) in \<open>simp_all add: idleStep_def\<close>)
  then have a: "advances v' (startRun now x v')" using v' by (rule ends_advances)
  have "rowsOf j (storeOf v') = rowsOf j (storeOf v0)" for j
    using p0 sameTables_ledger by (auto simp: idleStep_def sameLedger_def)
  with a p0 show ?thesis by (simp add: advances_def idleStep_def)
qed

lemma launches_submit: "launches v0 (submit k now o' roots adm confinement command fp snapshot)"
  unfolding submit_def Let_def
proof (rule launches_at)
  fix v assume v: "idleStep v0 v"
  let ?i = "xo_opId o'"
  let ?x = "\<lambda>v. trackOperation o' (pendingOp k now o' roots fp (dm_domainId (sv_domain v)) snapshot) command confinement adm fp now"
  have new: "launches v0 (thenDo (assertIdAvailable ?i) (\<lambda>v. (Inr Started, startRun now (?x v) v)))"
    unfolding launches_def
  proof (intro impI allI)
    fix w assume p: "allPosed v0" and w: "idleStep v0 w"
    obtain r w' where run: "assertIdAvailable ?i w = (r, w')" by fastforce
    show "advances v0 (snd (thenDo (assertIdAvailable ?i) (\<lambda>v. (Inr Started, startRun now (?x v) v)) w))"
    proof (cases r)
      case (Inl e)
      have "idleStep w w'"
        using run idle_step [OF free_idAvailable] by (auto simp: assertIdAvailable_def split: option.splits)
      with w have "idleStep v0 w'" by (rule idle_trans)
      with Inl run p show ?thesis by (simp add: thenDo_def andThen_def idle_advances)
    next
      case (Inr u)
      have "advances v0 (startRun now (?x w') w')"
        by (rule launches_new [OF _ _ _ _ w p]) (use run Inr in \<open>simp_all add: trackOperation_def pendingOp_def\<close>)
      with Inr run show ?thesis by (simp add: thenDo_def andThen_def)
    qed
  qed
  show "\<exists>n. (case if ?i \<in> set (sv_active v) then mapGet (sv_ops v) ?i else None of
        None \<Rightarrow> andThen (inDomain (\<lambda>_. replayRecorded now o' fp)) (\<lambda>r. case r of
             None \<Rightarrow> thenDo (assertIdAvailable ?i) (\<lambda>v. (Inr Started, startRun now (?x v) v))
           | Some res \<Rightarrow> ret (Replayed res)) v
      | Some x \<Rightarrow> thenDo (inDomain (\<lambda>_. joinRunning now x o' fp)) (ret Joined) v) = n v \<and> launches v0 n"
  proof (cases "if ?i \<in> set (sv_active v) then mapGet (sv_ops v) ?i else None")
    case None
    have "launches v0 (andThen (inDomain (\<lambda>_. replayRecorded now o' fp)) (\<lambda>r. case r of
             None \<Rightarrow> thenDo (assertIdAvailable ?i) (\<lambda>v. (Inr Started, startRun now (?x v) v))
           | Some res \<Rightarrow> ret (Replayed res)))"
      by (intro launches_andThen free_idle free_replay) (simp add: new launches_idle pres_ret split: option.split)
    with None show ?thesis by auto
  next
    case (Some x)
    have "launches v0 (thenDo (inDomain (\<lambda>_. joinRunning now x o' fp)) (ret Joined))"
      by (intro launches_idle pres_thenDo pres_ret free_idle free_join)
    with Some show ?thesis by auto
  qed
qed

lemma launches_execute: "launches v0 (executeProcess k now o')"
  unfolding executeProcess_def Let_def split_beta
  by (intro launches_thenDo launches_andThen idle_orRaise idle_lift free_idle free_admit free_runOpen free_bind launches_submit)

lemma execute_advances: "allPosed v \<Longrightarrow> advances v (snd (executeProcess k now o' v))"
  using launches_execute idle_refl by (simp add: launches_def)

lemma onWait_Some: "onWait v i f = Some v' \<longleftrightarrow> (\<exists>x. listed v i = Some x \<and> f x (if_stage x) = Some v')"
  by (simp add: onWait_def split: option.split)

text \<open>Each answer to a run under way ends a segment of it.\<close>

lemma answered_advances:
  assumes "allPosed v" and "listed v i = Some x" and "underway x" and "\<And>v0. drives i v0 v \<Longrightarrow> ends i v0 v'"
  shows "advances v v'"
proof -
  have "engaged i v" using assms(1-3) listed_engaged by (simp add: allPosed_def)
  then have "ends i v v'" by (intro assms(4) drives_start)
  with assms(1) show ?thesis by (intro ends_advances)
qed

lemmas segment_ends = ends_spawned ends_aborted ends_supervision ends_outcome ends_rootWaited ends_drained ends_reaped
  ends_drainedAgain ends_heldPipes ends_tree ends_treeReaped ends_limits ends_verified ends_stopAwaited ends_finish ends_atStage
  drives_ends [OF drives_raced] drives_ends [OF drives_sampled] drives_ends [OF drives_hits] drives_ends [OF drives_output]

lemma settled_ends:
  assumes "drives i v0 v" and "listed v i = Some x" and "if_stage x = OutcomeKnown outcome"
  shows "ends i v0 (outcomeSettled now i (lastSample k a (sampleEnded k x)) outcome (setOp i (\<lambda>_. lastSample k a (sampleEnded k x)) v))"
proof (rule ends_outcome)
  let ?x = "lastSample k a (sampleEnded k x)"
  have "mapGet (sv_ops v) i = Some x" using assms(2) by (simp add: listed_def split: if_splits)
  then have "setOp i (\<lambda>_. ?x) v = setOp i (\<lambda>y. if if_stage y = if_stage x then ?x else y) v"
    by (simp add: setOp_def)
  then show "drives i v0 (setOp i (\<lambda>_. ?x) v)"
    using drives_op [OF assms(1), of "\<lambda>y. if if_stage y = if_stage x then ?x else y"] by simp
qed

lemma resources_advance:
  assumes p: "allPosed v" and run: "step k now (ResourcesReady i) v = Some v'"
  shows "advances v v'"
proof -
  from run [unfolded step.simps onWait_Some] have "\<exists>x t. listed v i = Some x \<and> if_stage x = AwaitResources t
      \<and> ((\<exists>e. v' = finish i (Inl e) v) \<or> v' = resourcesGranted k now i x v)"
    by (elim exE conjE) (auto split: Stage.split_asm option.split_asm)
  then obtain x t where x: "listed v i = Some x" "if_stage x = AwaitResources t"
    and v': "(\<exists>e. v' = finish i (Inl e) v) \<or> v' = resourcesGranted k now i x v"
    by blast
  from p have pi: "posed i v" by (simp add: allPosed_def)
  have w: "waiting i v" by (rule listed_waiting [OF pi x(1)]) (simp add: x(2))
  from v' show ?thesis
  proof
    assume "\<exists>e. v' = finish i (Inl e) v"
    moreover have "ends i v (finish i r v)" for r
      by (rule finish_ends) (use w in \<open>auto simp: leaves_def waiting_def\<close>)
    ultimately show ?thesis using p ends_advances by auto
  next
    assume "v' = resourcesGranted k now i x v"
    moreover have "mapGet (sv_ops v) i = Some x" using x(1) by (simp add: listed_def split: if_splits)
    ultimately show ?thesis
      using granted_step [OF w] ends_advances [OF _ p] spawns_advances [OF _ p] by metis
  qed
qed

lemma samplable_underway: "samplable (if_stage x) \<Longrightarrow> underway x"
  by (auto simp: underway_def elim: samplable.elims waitsForResources.elims)

lemma stopSeen_underway: "stopSeen (if_stage x) st = Some r \<Longrightarrow> underway x"
  by (auto simp: underway_def elim: stopSeen.elims waitsForResources.elims)

lemma onWait_advances:
  assumes "allPosed v" and run: "onWait v i f = Some v'"
    and seg: "\<And>x. listed v i = Some x \<Longrightarrow> f x (if_stage x) = Some v' \<Longrightarrow> underway x \<and> (\<forall>v0. drives i v0 v \<longrightarrow> ends i v0 v')"
  shows "advances v v'"
proof -
  from run obtain x where x: "listed v i = Some x" "f x (if_stage x) = Some v'" by (auto simp: onWait_Some)
  from seg [OF x] show ?thesis by (intro answered_advances [OF assms(1) x(1)]) simp_all
qed

lemmas wait_splits = Stage.split_asm option.split_asm if_split_asm sum.split_asm StopState.split_asm

lemma step_advances:
  assumes p: "allPosed v" and run: "step k now e v = Some v'"
  shows "advances v v'"
proof -
  have pi: "posed i v" for i using p by (simp add: allPosed_def)
  have free: "advances v (snd (inDomain m v))" if "ledgerFree m" for m :: "(nat \<Rightarrow> bool) \<Rightarrow> unit domM"
    by (rule idle_advances [OF preserves_snd [OF free_idle [OF that] idle_refl] p])
  show ?thesis
  proof (cases e)
    case (Execute o')
    with run execute_advances [OF p] show ?thesis by auto
  next
    case (Cancel i g)
    with run ends_advances [OF ends_cancel [OF pi] p] show ?thesis by auto
  next
    case (Heartbeat alive host)
    with run free [OF free_heartbeat] show ?thesis by auto
  next
    case (WaitExpired t)
    with run free [OF free_waitTimeout] show ?thesis by auto
  next
    case (ResourcesReady i)
    with run resources_advance [OF p] show ?thesis by simp
  next
    case (StopAnswer i answer)
    with run ends_advances [OF ends_late [OF pi] p] show ?thesis by (auto split: option.splits if_splits)
  next
    case (Sample i answer)
    with run show ?thesis
      by (auto intro!: onWait_advances [OF p] segment_ends samplable_underway split: option.splits if_splits)
  next
    case (SampleHits i answer)
    with run show ?thesis
      by (auto intro!: onWait_advances [OF p] segment_ends samplable_underway split: option.splits if_splits)
  next
    case (Output i b)
    with run show ?thesis
      by (auto intro!: onWait_advances [OF p] segment_ends dest: listed_phase [OF pi] split: option.splits if_splits)
  next
    case (SamplingOver i answer)
    show ?thesis
      by (rule onWait_advances [OF p run [unfolded SamplingOver step.simps]])
        (auto simp: underway_def Let_def settled_ends split: Stage.split_asm if_splits)
  next
    case (StopSeen i)
    show ?thesis
      by (rule onWait_advances [OF p run [unfolded StopSeen step.simps]])
       (auto dest: stopSeen_underway split: option.split_asm sum.split_asm intro!: segment_ends)
  next
    case (SpawnAnswer i a g)
    show ?thesis
      by (rule onWait_advances [OF p run [unfolded SpawnAnswer step.simps]])
       (auto simp: underway_def split: wait_splits intro!: segment_ends)
  next
    case (AbortAnswer i a)
    show ?thesis
      by (rule onWait_advances [OF p run [unfolded AbortAnswer step.simps]])
       (auto simp: underway_def split: wait_splits intro!: segment_ends)
  next
    case (Supervise i)
    show ?thesis
      by (rule onWait_advances [OF p run [unfolded Supervise step.simps]])
       (auto simp: underway_def split: wait_splits intro!: segment_ends)
  next
    case (RootExit i x)
    show ?thesis
      by (rule onWait_advances [OF p run [unfolded RootExit step.simps]])
       (auto simp: underway_def split: wait_splits intro!: segment_ends)
  next
    case (TimeUp i)
    show ?thesis
      by (rule onWait_advances [OF p run [unfolded TimeUp step.simps]])
       (auto simp: underway_def split: wait_splits intro!: segment_ends)
  next
    case (TimeoutStopped i)
    show ?thesis
      by (rule onWait_advances [OF p run [unfolded TimeoutStopped step.simps]])
       (auto simp: underway_def split: wait_splits intro!: segment_ends)
  next
    case (RootWait i x)
    show ?thesis
      by (rule onWait_advances [OF p run [unfolded RootWait step.simps]])
       (auto simp: underway_def split: wait_splits intro!: segment_ends)
  next
    case (DrainedIn i b)
    show ?thesis
      by (rule onWait_advances [OF p run [unfolded DrainedIn step.simps]])
       (auto simp: underway_def split: wait_splits intro!: segment_ends)
  next
    case (ReapAnswer i a)
    show ?thesis
      by (rule onWait_advances [OF p run [unfolded ReapAnswer step.simps]])
       (auto simp: underway_def split: wait_splits intro!: segment_ends)
  next
    case (DrainedAfter i b)
    show ?thesis
      by (rule onWait_advances [OF p run [unfolded DrainedAfter step.simps]])
       (auto simp: underway_def split: wait_splits intro!: segment_ends)
  next
    case (PipesGivenUp i)
    show ?thesis
      by (rule onWait_advances [OF p run [unfolded PipesGivenUp step.simps]])
       (auto simp: underway_def split: wait_splits intro!: segment_ends)
  next
    case (TreeAnswer i a)
    show ?thesis
      by (rule onWait_advances [OF p run [unfolded TreeAnswer step.simps]])
       (auto simp: underway_def split: wait_splits intro!: segment_ends)
  next
    case (TreeReapAnswer i a)
    show ?thesis
      by (rule onWait_advances [OF p run [unfolded TreeReapAnswer step.simps]])
       (auto simp: underway_def split: wait_splits intro!: segment_ends)
  next
    case (LimitsAnswer i a)
    show ?thesis
      by (rule onWait_advances [OF p run [unfolded LimitsAnswer step.simps]])
       (auto simp: underway_def split: wait_splits intro!: segment_ends)
  next
    case (IdentityAnswer i c a)
    show ?thesis
      by (rule onWait_advances [OF p run [unfolded IdentityAnswer step.simps]])
       (auto simp: underway_def split: wait_splits intro!: segment_ends)
  next
    case (StopAwaited i)
    show ?thesis
      by (rule onWait_advances [OF p run [unfolded StopAwaited step.simps]])
       (auto simp: underway_def split: wait_splits intro!: segment_ends)
  qed
qed

end
