(* ===== verification/SuccessLaws.thy ===== *)
theory SuccessLaws
  imports SupervisorLaws
begin

text \<open>
  Where a success comes from. \<open>accepted\<close> is what a trace's events really answered; a recorded
  success is \<open>witnessed\<close> there. An operation that was asked to stop, or hit a limit, is \<open>tainted\<close> and
  never ends as a success; for one that was not, \<open>stageOk\<close> says what was seen when its run stands at
  a given wait.
\<close>

section \<open>What was seen\<close>

fun accepted :: "kernelEnv \<Rightarrow> trace \<Rightarrow> supervisor \<Rightarrow> supEvent list" where
  "accepted k [] v = []"
| "accepted k ((now, e) # tr) v = (case step k now e v of None \<Rightarrow> accepted k tr v | Some v' \<Rightarrow> e # accepted k tr v')"

definition exitSeen :: "supEvent set \<Rightarrow> string \<Rightarrow> ExitFacts \<Rightarrow> bool" where
  "exitSeen L i e \<longleftrightarrow> RootExit i e \<in> L"

definition drainSeen :: "supEvent set \<Rightarrow> string \<Rightarrow> bool" where
  "drainSeen L i \<longleftrightarrow> DrainedIn i True \<in> L \<or> DrainedAfter i True \<in> L"

definition reapSeen :: "supEvent set \<Rightarrow> string \<Rightarrow> bool" where
  "reapSeen L i \<longleftrightarrow> (\<exists>stop. stp_stopped stop = StConfirmedStopped \<and> (ReapAnswer i (Inr stop) \<in> L \<or> TreeReapAnswer i (Inr stop) \<in> L))"

definition treeSeen :: "supEvent set \<Rightarrow> string \<Rightarrow> TreeSettlement option \<Rightarrow> bool" where
  "treeSeen L i t \<longleftrightarrow> (case t of None \<Rightarrow> False | Some TSEmpty \<Rightarrow> TreeAnswer i (Inr TreeEmpty) \<in> L
     | Some TSReaped \<Rightarrow> reapSeen L i | Some TSUnverified \<Rightarrow> True)"

definition witnessed :: "supEvent set \<Rightarrow> string \<Rightarrow> ProcessOperationResult \<Rightarrow> bool" where
  "witnessed L i r \<longleftrightarrow> pr_exitCode r = Some 0 \<and> pr_terminationReason r = Some TCompleted
     \<and> (\<exists>e. exitSeen L i e \<and> ef_exitCode e = Some 0) \<and> drainSeen L i \<and> treeSeen L i (pr_treeSettlement r)
     \<and> (\<exists>c. IdentityAnswer i c (Inr (pr_identityVerification r)) \<in> L)"

fun succeeds :: "OperationResult \<Rightarrow> bool" where
  "succeeds (ResProcess r) = (pr_status r = PSucceeded)"
| "succeeds _ = False"

definition honest :: "supEvent set \<Rightarrow> store \<Rightarrow> store \<Rightarrow> bool" where
  "honest L s t \<longleftrightarrow> (\<forall>o' \<in> set (db_operations t). \<forall>r. op_result o' = Some (ResProcess r) \<longrightarrow> pr_status r = PSucceeded \<longrightarrow>
     witnessed L (op_id o') r \<or> (\<exists>p \<in> set (db_operations s). op_id p = op_id o' \<and> op_result p = op_result o'))"

text \<open>A step that records no success.\<close>

definition unsung :: "store \<Rightarrow> store \<Rightarrow> bool" where
  "unsung s t \<longleftrightarrow> (\<forall>o' \<in> set (db_operations t). \<forall>r. op_result o' = Some r \<longrightarrow> succeeds r \<longrightarrow>
     (\<exists>p \<in> set (db_operations s). op_id p = op_id o' \<and> op_result p = op_result o'))"

lemma honest_unsung: "honest L s t \<Longrightarrow> unsung t u \<Longrightarrow> honest L s u"
  unfolding honest_def unsung_def by (metis succeeds.simps(1))

lemma unsung_refl [simp]: "unsung s s"
  by (auto simp: unsung_def)

lemma unsung_trans: "unsung s t \<Longrightarrow> unsung t u \<Longrightarrow> unsung s u"
  unfolding unsung_def by metis

lemma sameTables_unsung: "sameTables s t \<Longrightarrow> unsung s t"
  by (auto simp: sameTables_def unsung_def)

lemma unsung_same: "db_operations t = db_operations s \<Longrightarrow> unsung s t"
  by (auto simp: unsung_def)

lemma unsung_updRow:
  assumes "db_operations t = updRow op_id i f (db_operations s)"
    and "\<And>p. op_id (f p) = op_id p \<and> (op_result (f p) = op_result p \<or> (\<exists>r. op_result (f p) = Some r \<and> \<not> succeeds r))"
  shows "unsung s t"
proof -
  have "\<exists>p \<in> set (db_operations s). op_id p = op_id o' \<and> op_result p = op_result o'"
    if "o' \<in> set (updRow op_id i f (db_operations s))" "op_result o' = Some r" "succeeds r" for o' r
  proof -
    from that(1) obtain p where p: "p \<in> set (db_operations s)" "o' = f p \<or> o' = p" by (auto simp: updRow_def split: if_splits)
    with assms(2) [of p] that(2,3) show ?thesis by auto
  qed
  then show ?thesis by (simp add: unsung_def assms(1))
qed

lemma unsung_append:
  "db_operations t = db_operations s @ [row] \<Longrightarrow> (\<And>r. op_result row = Some r \<Longrightarrow> \<not> succeeds r) \<Longrightarrow> unsung s t"
  by (auto simp: unsung_def)

section \<open>The database and the domain\<close>

lemma touched_unsung: "touchedBy i s t \<Longrightarrow> unsung s t"
  unfolding touchedBy_def by (elim disjE exE conjE) (auto simp: touches_def intro!: unsung_updRow)

definition truthful :: "supEvent set \<Rightarrow> string \<Rightarrow> OperationResult \<Rightarrow> bool" where
  "truthful L i r \<longleftrightarrow> (\<forall>q. r = ResProcess q \<longrightarrow> pr_status q = PSucceeded \<longrightarrow> witnessed L i q)"

lemma recordResult_honest:
  assumes "recordOperationResult i res rel t = (r, u)" and "truthful L i res" and h: "honest L s t"
  shows "honest L s u"
proof (cases r)
  case (Inl e)
  with assms(1) h show ?thesis by (simp add: recordOperationResult_def atomically_Inl)
next
  case (Inr v)
  from recordResult_Inr [OF assms(1) [unfolded Inr]]
  have ops: "db_operations u = updRow op_id i (finishRow res) (db_operations t)" by auto
  show ?thesis
    unfolding honest_def ops
  proof (intro ballI allI impI)
    fix o' q assume o': "o' \<in> set (updRow op_id i (finishRow res) (db_operations t))" "op_result o' = Some (ResProcess q)"
      "pr_status q = PSucceeded"
    then obtain p where p: "p \<in> set (db_operations t)" "o' = (if op_id p = i then finishRow res p else p)"
      by (auto simp: updRow_def)
    show "witnessed L (op_id o') q \<or> (\<exists>p \<in> set (db_operations s). op_id p = op_id o' \<and> op_result p = op_result o')"
      using p o'(2,3) assms(2) h by (auto simp: truthful_def honest_def split: if_splits)
  qed
qed

lemma registerIntent_unsung:
  assumes "registerOperationIntent H now op d s = (r, t)" and "op_result op = None"
  shows "unsung s t"
proof (cases r)
  case (Inr u)
  from registerIntent_row(2) [OF assms(1) this] assms(2) show ?thesis by (auto intro: unsung_append)
qed (use registerIntent_row(1) [OF assms(1)] in simp)

lemma preIntent_unsung:
  assumes "recordPreIntentCancelledOperation H op d res s = (r, t)" and "\<not> succeeds res"
  shows "unsung s t"
proof (cases r)
  case (Inr u)
  from preIntent_row(2) [OF assms(1) this] assms(2) show ?thesis by (auto intro: unsung_append)
qed (use preIntent_row(1) [OF assms(1)] in simp)

lemma release_unsung:
  assumes "internalReleaseResources gone now i rs d = (r, d')"
  shows "unsung (dm_store d) (dm_store d')"
proof -
  have "sameRows (dm_store d) (dm_store d')"
    using preservesD [OF rows.release [of "dm_store d" "dm_domainId d" gone now i rs] _ assms] by (simp add: sameRows_def)
  then show ?thesis by (simp add: sameRows_def unsung_same)
qed

text \<open>A step on the domain that records no success but a witnessed one.\<close>

definition keepsHonest :: "supEvent set \<Rightarrow> store \<Rightarrow> ((nat \<Rightarrow> bool) \<Rightarrow> 'a domM) \<Rightarrow> bool" where
  "keepsHonest L s m \<longleftrightarrow> (\<forall>gone. preserves (\<lambda>d. honest L s (dm_store d)) (m gone))"

lemma keepsI: "(\<And>gone. preserves (\<lambda>d. honest L s (dm_store d)) (m gone)) \<Longrightarrow> keepsHonest L s m"
  and keepsD: "keepsHonest L s m \<Longrightarrow> preserves (\<lambda>d. honest L s (dm_store d)) (m gone)"
  by (simp_all add: keepsHonest_def)

lemma keeps_free: "ledgerFree m \<Longrightarrow> keepsHonest L s m"
proof (intro keepsI preservesI)
  fix gone and d :: domain assume m: "ledgerFree m" and d: "honest L s (dm_store d)"
  have "sameTables (dm_store d) (dm_store (snd (m gone d)))" by (rule preserves_snd [OF freeD [OF m]]) simp
  with d show "honest L s (dm_store (snd (m gone d)))" using sameTables_unsung honest_unsung by blast
qed

lemma pres_inStore_honest:
  "(\<And>d t r u. m d t = (r, u) \<Longrightarrow> honest L s t \<Longrightarrow> honest L s u) \<Longrightarrow> preserves (\<lambda>d. honest L s (dm_store d)) (\<lambda>d. inStore (m d) d)"
  by (rule preservesI) (auto simp: inStore_def split: prod.split)

lemma keeps_store: "(\<And>d t r u. m d t = (r, u) \<Longrightarrow> unsung t u) \<Longrightarrow> keepsHonest L s (\<lambda>_ d. inStore (m d) d)"
  by (intro keepsI pres_inStore_honest) (blast intro: honest_unsung)

lemma pres_release_honest: "preserves (\<lambda>d. honest L s (dm_store d)) (internalReleaseResources gone now i rs)"
  by (rule preservesI) (metis release_unsung honest_unsung prod.collapse)

lemma boundTo_cases: "boundTo o' (ResProcess q) = ResProcess p \<Longrightarrow> pr_status p = pr_status q \<and> witnessed L i p = witnessed L i q"
  by (auto simp: boundTo_def witnessed_def)

lemma boundTo_process: "boundTo o' r = ResProcess p \<Longrightarrow> \<exists>q. r = ResProcess q"
  by (cases r) (auto simp: boundTo_def)

lemma truthful_boundTo: "truthful L i r \<Longrightarrow> truthful L i (boundTo o' r)"
  unfolding truthful_def using boundTo_cases boundTo_process by metis

lemma runStatus_unsung: "updateRunStatus now i st reason at s = (r, t) \<Longrightarrow> unsung s t"
  using preservesD [OF tables_runStatus [of s] sameTables_refl] sameTables_unsung by blast

lemma keeps_finalize:
  assumes "truthful L i res"
  shows "keepsHonest L s (finalizeOperation now i res rs rel)"
proof (rule keepsI)
  fix gone
  have rec: "preserves (\<lambda>d. honest L s (dm_store d)) (inStore (recordOperationResult i r b))" if "truthful L i r" for r b
    by (rule pres_inStore_honest) (rule recordResult_honest [OF _ that])
  have run: "preserves (\<lambda>d. honest L s (dm_store d)) (\<lambda>d. case getOperation i (dm_store d) of None \<Rightarrow> (Inr (), d)
      | Some o' \<Rightarrow> inStore (updateRunStatus now (op_runId o') RIndeterminate reason None) d)" for reason
  proof (rule preservesI)
    fix d :: domain assume d: "honest L s (dm_store d)"
    have "preserves (\<lambda>d. honest L s (dm_store d)) (inStore (updateRunStatus now id' RIndeterminate reason None))" for id'
      by (rule pres_inStore_honest) (blast intro: honest_unsung runStatus_unsung)
    from preserves_snd [OF this d] d
    show "honest L s (dm_store (snd (case getOperation i (dm_store d) of None \<Rightarrow> (Inr (), d)
      | Some o' \<Rightarrow> inStore (updateRunStatus now (op_runId o') RIndeterminate reason None) d)))"
      by (auto split: option.split)
  qed
  show "preserves (\<lambda>d. honest L s (dm_store d)) (finalizeOperation now i res rs rel gone)"
    unfolding finalizeOperation_def Let_def
    by (rule preservesI) (auto simp: assms truthful_boundTo intro!: preserves_snd [of "\<lambda>d. honest L s (dm_store d)"] pres_thenDo rec run pres_ret
        pres_whenDo pres_release_honest split: option.split)
qed

lemma truthful_failure: "\<not> succeeds r \<Longrightarrow> truthful L i r"
  by (auto simp: truthful_def)

lemma fails_indeterminate [simp]: "\<not> succeeds (indeterminateResult now reason st c g t e)"
  by (simp add: indeterminateResult_def)

lemma truthful_indeterminate [simp]: "truthful L i (indeterminateResult now reason st c g t e)"
  by (rule truthful_failure) simp

lemma status_unstarted [simp]: "pr_status (unstarted now x st exit err failure) = st"
  by (simp add: unstarted_def processEnd_def)

lemma keeps_cancelBefore: "keepsHonest L s (cancelBeforeSpawn k now i x)"
proof (intro keepsI preservesI)
  fix gone and d :: domain assume d: "honest L s (dm_store d)"
  have pre: "preserves (\<lambda>d. honest L s (dm_store d)) (thenDo (inStore (recordPreIntentCancelledOperation H op dom r))
      (thenDo (internalReleaseResources gone now i rs) (ret r)))" if "\<not> succeeds r" for H op dom r rs
    by (intro pres_thenDo pres_release_honest pres_ret pres_inStore_honest) (rule honest_unsung [OF _ preIntent_unsung [OF _ that]])
  have fin: "preserves (\<lambda>d. honest L s (dm_store d)) (finalizeOperation now i r rs True gone)" if "\<not> succeeds r" for r rs
    by (rule keepsD [OF keeps_finalize [OF truthful_failure [OF that]]])
  show "honest L s (dm_store (snd (cancelBeforeSpawn k now i x gone d)))"
    unfolding cancelBeforeSpawn_def Let_def using d
    by (simp add: preserves_snd [OF pre] preserves_snd [OF fin])
qed

lemma keeps_intent: "op_result op = None \<Longrightarrow> keepsHonest L s (\<lambda>_ d. inStore (registerOperationIntent H now op (dm_domainId d)) d)"
  by (rule keeps_store) (rule registerIntent_unsung)

lemma keeps_status: "st \<noteq> ODone \<Longrightarrow> keepsHonest L s (\<lambda>_. inStore (updateOperationStatus now i st identity ref))"
  by (rule keeps_store) (rule touched_unsung [OF updateStatus_touched])

lemma keeps_evidence: "keepsHonest L s (\<lambda>_. inStore (updateRecoveryEvidence i p))"
  by (rule keeps_store) (rule touched_unsung [OF updateEvidence_touched])

lemma keeps_used: "keepsHonest L s (\<lambda>_. recordCapabilityUsed now o' c adm)"
  unfolding recordCapabilityUsed_def by (rule keeps_store) (rule sameTables_unsung [OF recordEvent_tables])

lemma keeps_release: "keepsHonest L s (\<lambda>gone. internalReleaseResources gone now i rs)"
  by (rule keepsI) (rule pres_release_honest)

section \<open>The operations in flight\<close>

definition tainted :: "inflight \<Rightarrow> bool" where
  "tainted x \<longleftrightarrow> if_cancelRequested x \<or> stoppedByLimit x"

fun stageOk :: "supEvent set \<Rightarrow> string \<Rightarrow> Stage \<Rightarrow> bool" where
  "stageOk L i (OutcomeKnown (RootExited e)) = exitSeen L i e"
| "stageOk L i (OutcomeKnown RootTimedOut) = True"
| "stageOk L i (OutcomeKnown (RootStopped _)) = False"
| "stageOk L i AwaitTimeoutStop = False"
| "stageOk L i (AwaitRootExit _) = False"
| "stageOk L i (Draining e natural) = (natural \<and> exitSeen L i e)"
| "stageOk L i (Reaping e) = exitSeen L i e"
| "stageOk L i (DrainingAgain e _) = (exitSeen L i e \<and> reapSeen L i)"
| "stageOk L i (SettlingTree e) = (exitSeen L i e \<and> drainSeen L i)"
| "stageOk L i (ReapingTree e) = (exitSeen L i e \<and> drainSeen L i)"
| "stageOk L i (ReadingHits f) = (exitSeen L i (df_exit f) \<and> drainSeen L i \<and> treeSeen L i (df_tree f))"
| "stageOk L i (Verifying f) = (exitSeen L i (df_exit f) \<and> drainSeen L i \<and> treeSeen L i (df_tree f))"
| "stageOk L i _ = True"

fun awaitsSuccess :: "Stage \<Rightarrow> bool" where
  "awaitsSuccess (AwaitStop r) = (pr_status r = PSucceeded)"
| "awaitsSuccess _ = False"

definition objOk :: "supEvent set \<Rightarrow> string \<Rightarrow> inflight \<Rightarrow> bool" where
  "objOk L i x \<longleftrightarrow> op_result (if_op x) = None \<and> \<not> awaitsSuccess (if_stage x)
     \<and> (tainted x \<or> (if_stop x = StopNone \<and> if_reason x = None \<and> stageOk L i (if_stage x)))"

definition clean :: "supEvent set \<Rightarrow> store \<Rightarrow> supervisor \<Rightarrow> bool" where
  "clean L s v \<longleftrightarrow> honest L s (storeOf v) \<and> (\<forall>i x. mapGet (sv_ops v) i = Some x \<longrightarrow> objOk L i x)"

text \<open>As \<open>clean\<close>, and the object of \<open>i\<close> satisfies \<open>Q\<close>.\<close>

definition spoiled :: "(inflight \<Rightarrow> bool) \<Rightarrow> supEvent set \<Rightarrow> store \<Rightarrow> string \<Rightarrow> supervisor \<Rightarrow> bool" where
  "spoiled Q L s i v \<longleftrightarrow> clean L s v \<and> (\<forall>x. mapGet (sv_ops v) i = Some x \<longrightarrow> Q x)"

lemma spoiled_clean: "spoiled Q L s i v \<Longrightarrow> clean L s v"
  by (simp add: spoiled_def)

lemma clean_setOp: "clean L s v \<Longrightarrow> (\<And>x. mapGet (sv_ops v) i = Some x \<Longrightarrow> objOk L i x \<Longrightarrow> objOk L i (f x)) \<Longrightarrow> clean L s (setOp i f v)"
  by (auto simp: clean_def mapGet_setOp)

lemma spoil:
  assumes "clean L s v" and "\<And>x. Q x \<Longrightarrow> tainted x"
    and "\<And>x. mapGet (sv_ops v) i = Some x \<Longrightarrow> if_op (f x) = if_op x \<and> Q (f x) \<and> (awaitsSuccess (if_stage (f x)) \<longrightarrow> awaitsSuccess (if_stage x))"
  shows "spoiled Q L s i (setOp i f v)"
  using assms by (auto simp: spoiled_def clean_def objOk_def mapGet_setOp)

lemma spoiled_setOp:
  assumes "spoiled Q L s i v" and "\<And>x. Q x \<Longrightarrow> tainted x"
    and "\<And>x. if_op (f x) = if_op x \<and> (Q x \<longrightarrow> Q (f x)) \<and> (awaitsSuccess (if_stage (f x)) \<longrightarrow> awaitsSuccess (if_stage x))"
  shows "spoiled Q L s i (setOp i f v)"
  by (rule spoil) (use assms in \<open>auto simp: spoiled_def\<close>)

lemma clean_inDomain: "keepsHonest L s m \<Longrightarrow> preserves (clean L s) (inDomain m)"
proof (rule preservesI)
  fix v assume m: "keepsHonest L s m" and v: "clean L s v"
  obtain r d where run: "m (ticketGone v) (sv_domain v) = (r, d)" by fastforce
  have "honest L s (dm_store d)" by (rule preservesD [OF keepsD [OF m] _ run]) (use v in \<open>simp add: clean_def\<close>)
  with v show "clean L s (snd (inDomain m v))"
    by (simp add: clean_def inDomain_def run)
qed

lemma spoiled_inDomain: "keepsHonest L s m \<Longrightarrow> preserves (spoiled Q L s i) (inDomain m)"
proof (rule preservesI)
  fix v assume m: "keepsHonest L s m" and v: "spoiled Q L s i v"
  have "sv_ops (snd (inDomain m v)) = sv_ops v" by (simp add: inDomain_def split: prod.split)
  with v preserves_snd [OF clean_inDomain [OF m], of v] show "spoiled Q L s i (snd (inDomain m v))"
    by (simp add: spoiled_def)
qed

text \<open>The end of a run that records no success.\<close>

lemma clean_finish: "clean L s v \<Longrightarrow> clean L s (finish i r v)"
proof -
  assume v: "clean L s v"
  have "clean L s (setOp i (\<lambda>x. resolveStop (stoppedDirectly\<lparr>stp_errorDetails :=
         (if if_phase x = PhDone then None else Some ''Operation terminated before process activation'')\<rparr>)
       (x\<lparr>if_stage := Finished, if_sampler := (if_sampler x)\<lparr>sm_stopped := True\<rparr>\<rparr>)) v)"
    by (rule clean_setOp [OF v]) (auto simp: objOk_def resolveStop_def tainted_def stoppedByLimit_def)
  then show ?thesis by (simp add: finish_def Let_def clean_def)
qed

lemma clean_conclude: "preserves (clean L s) m \<Longrightarrow> clean L s v \<Longrightarrow> clean L s (concludeBy i m v)"
  unfolding concludeBy_def by (auto intro: clean_finish preservesD split: prod.split)

lemma clean_stage:
  assumes "clean L s v" and "mapGet (sv_ops v) i = Some x" and "tainted x \<or> stageOk L i st" and "\<not> awaitsSuccess st"
  shows "clean L s (atStage i st v)"
  unfolding atStage_def by (rule clean_setOp [OF assms(1)]) (use assms(2-4) in \<open>auto simp: objOk_def tainted_def stoppedByLimit_def\<close>)

section \<open>Segments that record no success\<close>

lemma clean_object: "clean L s v \<Longrightarrow> mapGet (sv_ops v) i = Some x \<Longrightarrow> objOk L i x"
  by (simp add: clean_def)

text \<open>Fields the invariant looks at.\<close>

definition sameCore :: "inflight \<Rightarrow> inflight \<Rightarrow> bool" where
  "sameCore x y \<longleftrightarrow> if_op y = if_op x \<and> if_cancelRequested y = if_cancelRequested x \<and> if_timedOut y = if_timedOut x
     \<and> if_reason y = if_reason x \<and> if_stop y = if_stop x \<and> if_stage y = if_stage x"

lemma sameCore_ok: "sameCore x y \<Longrightarrow> tainted y = tainted x" "sameCore x y \<Longrightarrow> objOk L i y = objOk L i x"
  by (simp_all add: sameCore_def tainted_def stoppedByLimit_def objOk_def)

lemma clean_core: "clean L s v \<Longrightarrow> (\<And>x. sameCore x (f x)) \<Longrightarrow> clean L s (setOp i f v)"
  using sameCore_ok(2) by (blast intro: clean_setOp)

lemma objOk_resolve: "objOk L i x \<Longrightarrow> objOk L i (resolveStop r (x\<lparr>if_phase := p\<rparr>))"
  by (auto simp: objOk_def resolveStop_def tainted_def stoppedByLimit_def)

lemma clean_hold: "truthful L i r \<Longrightarrow> preserves (clean L s) (holdLeases now i x r)"
  unfolding holdLeases_def by (rule clean_inDomain [OF keeps_finalize])

lemma clean_known:
  assumes "\<And>v. (\<exists>r. m v = (r, v)) \<or> m v = holdLeases now i x r v" and "truthful L i r"
  shows "preserves (clean L s) m"
proof (rule preservesI)
  fix v assume v: "clean L s v"
  from assms(1) [of v] show "clean L s (snd (m v))"
    using v preserves_snd [OF clean_hold [OF assms(2)] v] by auto
qed

lemma clean_unconfirmed: "preserves (clean L s) (recordUnconfirmedStop now i x stop b)"
proof -
  have "preserves (clean L s) (\<lambda>v. case getOperation i (storeOf v) of
      Some o' \<Rightarrow> if op_status o' = ODone
         then (case op_result o' of
             Some r \<Rightarrow> if isProcessResult r then (Inr r, v) else (Inl (ReplayIncompatible i), v)
           | None \<Rightarrow> (Inl (ReplayIncompatible i), v))
         else holdLeases now i x res v
    | None \<Rightarrow> holdLeases now i x res v)" if "truthful L i res" for res
    by (rule clean_known [where now = now and x = x, OF _ that]) (simp split: option.split)
  from this [OF truthful_indeterminate] show ?thesis unfolding recordUnconfirmedStop_def Let_def .
qed

lemma clean_timeout: "preserves (clean L s) (timeoutUnconfirmed now i x stop)"
proof -
  have "preserves (clean L s) (\<lambda>v. case getOperation i (storeOf v) of
         Some o' \<Rightarrow> (case (op_status o' = ODone, op_result o') of
             (True, Some r) \<Rightarrow> if isIndeterminate r then (Inr r, v) else holdLeases now i x res v
           | _ \<Rightarrow> holdLeases now i x res v)
       | None \<Rightarrow> holdLeases now i x res v)" if "truthful L i res" for res
    by (rule clean_known [where now = now and x = x, OF _ that]) (simp split: option.split bool.split)
  from this [OF truthful_indeterminate] show ?thesis unfolding timeoutUnconfirmed_def Let_def .
qed

lemma clean_failSpawn: "clean L s v \<Longrightarrow> clean L s (failSpawn k now i x e v)"
  unfolding failSpawn_def
  by (intro clean_conclude clean_inDomain keeps_finalize clean_setOp objOk_resolve) (simp_all add: truthful_def)

lemma pres_clean_op: "(\<And>x. sameCore x (f x)) \<Longrightarrow> preserves (clean L s) (modify (setOp i f))"
  by (rule pres_modify) (rule clean_core)

lemma clean_activate: "preserves (clean L s) (activate k now i x identity gate)"
  unfolding activate_def
  by (intro pres_thenDo pres_clean_op clean_inDomain keeps_status)
     (auto simp: sameCore_def intro: pres_ret pres_raise clean_inDomain keeps_used split: option.split)

lemma clean_stageOk: "clean L s v \<Longrightarrow> stageOk L i st \<Longrightarrow> \<not> awaitsSuccess st \<Longrightarrow> clean L s (atStage i st v)"
  unfolding atStage_def by (rule clean_setOp) (auto simp: objOk_def tainted_def stoppedByLimit_def)

lemma clean_spawned: "clean L s v \<Longrightarrow> clean L s (spawned k now i x answer gate v)"
proof -
  assume v: "clean L s v"
  show ?thesis
  proof (cases answer)
    case (Inr identity)
    let ?v = "setOp i (\<lambda>x. x\<lparr>if_handle := Some identity\<rparr>) v"
    obtain r v1 where run: "activate k now i x identity gate ?v = (r, v1)" by fastforce
    have v1: "clean L s v1" by (rule preservesD [OF clean_activate _ run]) (rule clean_core [OF v], simp add: sameCore_def)
    have "clean L s (setOp i (\<lambda>x. x\<lparr>if_phase := PhStopping, if_stage := Aborting e\<rparr>) v1)" for e
      by (rule clean_setOp [OF v1]) (auto simp: objOk_def tainted_def stoppedByLimit_def)
    with v1 show ?thesis by (simp add: spawned_def Inr run clean_stageOk split: sum.split)
  qed (simp add: spawned_def clean_failSpawn v)
qed

lemma clean_aborted: "clean L s v \<Longrightarrow> clean L s (aborted k now i x e answer v)"
  by (auto simp: aborted_def Let_def intro!: truthful_failure split: sum.split
      intro!: clean_finish clean_conclude pres_thenDo pres_raise clean_inDomain keeps_finalize clean_setOp objOk_resolve)

section \<open>Stopping\<close>

definition lasting :: "(inflight \<Rightarrow> bool) \<Rightarrow> TerminationReason \<Rightarrow> bool" where
  "lasting Q reason \<longleftrightarrow> (\<forall>x. Q x \<longrightarrow> tainted x) \<and> (\<forall>x s. Q (x\<lparr>if_stop := s\<rparr>) = Q x)
     \<and> (\<forall>x b. Q x \<longrightarrow> Q (x\<lparr>if_phase := PhStopping, if_reason := Some reason, if_cancelRequested := (if_cancelRequested x \<or> b)\<rparr>) \<or> (reason = TUserCancelled \<and> \<not> b))"

definition limitReason :: "TerminationReason \<Rightarrow> bool" where
  "limitReason r \<longleftrightarrow> r \<in> {TMemoryExceeded, TCpuExceeded, TPidsExceeded, TOutputExceeded, TObservationFailed}"

lemma lasting_limit: "limitReason r \<or> r = TUserCancelled \<Longrightarrow> lasting tainted r"
  by (auto simp: lasting_def limitReason_def tainted_def stoppedByLimit_def)

lemma lasting_timedOut: "lasting if_timedOut TTimedOut"
  by (auto simp: lasting_def tainted_def stoppedByLimit_def)

lemma pipeline_spoiled:
  assumes Q: "lasting Q reason"
  shows "preserves (spoiled Q L s i) (handleStopPipeline now i reason)"
proof -
  have stop: "spoiled Q L s i (setOp i (\<lambda>x. x\<lparr>if_stop := st\<rparr>) v)" if "spoiled Q L s i v" for st v
    by (rule spoiled_setOp [OF that]) (use Q in \<open>simp_all add: lasting_def\<close>)
  have mark: "preserves (spoiled Q L s i) (modify (setOp i (\<lambda>x. x\<lparr>if_phase := PhStopping, if_reason := Some reason,
              if_cancelRequested := (if_cancelRequested x \<or> reason = TUserCancelled)\<rparr>)))"
    by (rule pres_modify, erule spoiled_setOp) (use Q in \<open>auto simp: lasting_def\<close>)
  have ensure: "preserves (spoiled Q L s i) (ensureActiveOperation i)"
    by (rule preservesI) (metis ensureActive_state prod.collapse)
  show ?thesis
    unfolding handleStopPipeline_def
  proof (intro pres_andThen ensure pres_if pres_ret pres_thenDo mark)
    fix x show "preserves (spoiled Q L s i) (\<lambda>v. if if_handle x = None
          then (Inr (), setOp i (\<lambda>x. x\<lparr>if_stop := StopSettled (Inr stoppedDirectly)\<rparr>) v)
          else (case inDomain (\<lambda>_. inStore (updateOperationStatus now i OStopping None None)) v of
              (Inl e, v1) \<Rightarrow> (Inr (), setOp i (\<lambda>x. x\<lparr>if_stop := StopSettled (Inl e)\<rparr>) v1)
            | (Inr _, v1) \<Rightarrow> (Inr (), setOp i (\<lambda>x. x\<lparr>if_stop := StopRunning\<rparr>) v1)))"
    proof (rule preservesI)
      fix v assume v: "spoiled Q L s i v"
      have "spoiled Q L s i (snd (inDomain (\<lambda>_. inStore (updateOperationStatus now i OStopping None None)) v))"
        by (rule preserves_snd [OF spoiled_inDomain [OF keeps_status] v]) simp
      with v show "spoiled Q L s i (snd (if if_handle x = None
          then (Inr (), setOp i (\<lambda>x. x\<lparr>if_stop := StopSettled (Inr stoppedDirectly)\<rparr>) v)
          else (case inDomain (\<lambda>_. inStore (updateOperationStatus now i OStopping None None)) v of
              (Inl e, v1) \<Rightarrow> (Inr (), setOp i (\<lambda>x. x\<lparr>if_stop := StopSettled (Inl e)\<rparr>) v1)
            | (Inr _, v1) \<Rightarrow> (Inr (), setOp i (\<lambda>x. x\<lparr>if_stop := StopRunning\<rparr>) v1))))"
        by (auto intro!: stop split: prod.split sum.split)
    qed
  qed
qed

lemma spoiled_isolate: "preserves (spoiled Q L s i) (isolateUnstopped now i x stop)"
proof (rule preservesI)
  fix v assume v: "spoiled Q L s i v"
  have f: "preserves (spoiled Q L s i) (thenDo (inDomain (finalizeOperation now i (indeterminateResult now reason st None None t e) [] False)) (ret ()))"
    for reason st t e
    by (intro pres_thenDo pres_ret spoiled_inDomain keeps_finalize) simp
  show "spoiled Q L s i (snd (isolateUnstopped now i x stop v))"
    using v preserves_snd [OF f v] by (simp add: isolateUnstopped_def split: option.split)
qed

lemma spoiled_stop: "spoiled tainted L s i v \<Longrightarrow> spoiled tainted L s i (setOp i (\<lambda>x. x\<lparr>if_stop := st\<rparr>) v)"
  by (rule spoiled_setOp) (auto simp: tainted_def stoppedByLimit_def)

lemma stopped_spoiled: "clean L s v \<Longrightarrow> mapGet (sv_ops v) i = Some x \<Longrightarrow> if_stop x \<noteq> StopNone \<Longrightarrow> spoiled tainted L s i v"
  using clean_object [of L s v i x] by (auto simp: spoiled_def objOk_def)

lemma clean_stopAnswered: "spoiled tainted L s i v \<Longrightarrow> clean L s (stopAnswered now i x answer v)"
proof -
  assume v: "spoiled tainted L s i v"
  have "spoiled tainted L s i v1" if "isolateUnstopped now i x stop v = (r, v1)" for stop r v1
    by (rule preservesD [OF spoiled_isolate v that])
  with v show ?thesis
    by (auto simp: stopAnswered_def intro!: spoiled_clean [OF spoiled_stop] split: sum.split prod.split)
qed

lemma spoil_cancel: "clean L s v \<Longrightarrow> spoiled tainted L s i (setOp i (\<lambda>x. x\<lparr>if_cancelRequested := True, if_reason := Some TUserCancelled,
     if_cancelGraceMs := coalesce (if_cancelGraceMs x) (Some g)\<rparr>) v)"
  by (rule spoil) (auto simp: tainted_def)

lemma modify_thenDo: "thenDo (modify f) n v = n (f v)"
  by (simp add: thenDo_def andThen_def modify_def)

lemma clean_cancel: "clean L s v \<Longrightarrow> clean L s (snd (cancelOperation now i g v))"
proof -
  assume v: "clean L s v"
  have wait: "preserves (spoiled tainted L s i) (inDomain (\<lambda>_. cancelWait i))"
    by (rule spoiled_inDomain [OF keeps_free [OF free_cancelWait]])
  have pipe: "preserves (spoiled tainted L s i) (handleStopPipeline now i TUserCancelled)"
    by (rule pipeline_spoiled [OF lasting_limit]) simp
  have req: "preserves (spoiled tainted L s i) (modify (setOp i (\<lambda>x. if if_stop x = StopNone then x\<lparr>if_stop := StopRequested\<rparr> else x)))"
    by (rule pres_modify, erule spoiled_setOp) (auto simp: tainted_def stoppedByLimit_def)
  have rest: "preserves (spoiled tainted L s i) (thenDo (inDomain (\<lambda>_. cancelWait i))
      (if if_phase x = PhActive \<or> if_phase x = PhStopping then handleStopPipeline now i TUserCancelled
      else modify (setOp i (\<lambda>x. if if_stop x = StopNone then x\<lparr>if_stop := StopRequested\<rparr> else x))))" for x
    by (intro pres_thenDo wait pres_if pipe req)
  obtain r v1 where run: "ensureActiveOperation i v = (r, v1)" by fastforce
  have "v1 = v" using ensureActive_state [OF run] by simp
  then have "snd (cancelOperation now i g v) = (case r of Inl e \<Rightarrow> v | Inr x \<Rightarrow> snd (thenDo (inDomain (\<lambda>_. cancelWait i))
      (if if_phase x = PhActive \<or> if_phase x = PhStopping then handleStopPipeline now i TUserCancelled
      else modify (setOp i (\<lambda>x. if if_stop x = StopNone then x\<lparr>if_stop := StopRequested\<rparr> else x)))
      (setOp i (\<lambda>x. x\<lparr>if_cancelRequested := True, if_reason := Some TUserCancelled,
         if_cancelGraceMs := coalesce (if_cancelGraceMs x) (Some g)\<rparr>) v)))"
    using run unfolding cancelOperation_def by (cases r) (simp_all only: andThen_def modify_thenDo prod.case sum.case snd_conv)
  then show ?thesis
    by (simp only: v spoiled_clean [OF preserves_snd [OF rest spoil_cancel [OF v]]] simp_thms split: sum.split)
qed

lemma clean_supervision:
  assumes v: "clean L s v" and x: "mapGet (sv_ops v) i = Some x"
  shows "clean L s (startSupervision now i x v)"
proof -
  have stage: "clean L s (setOp i (\<lambda>x. x\<lparr>if_stage := Racing (if_stop x \<noteq> StopNone)\<rparr>) w)" if "clean L s w" for w
    by (rule clean_setOp [OF that]) (auto simp: objOk_def tainted_def stoppedByLimit_def)
  have "clean L s (snd (handleStopPipeline now i TUserCancelled v))" if "if_cancelRequested x"
  proof -
    have "spoiled tainted L s i v" using v x that by (simp add: spoiled_def tainted_def)
    from preserves_snd [OF pipeline_spoiled [OF lasting_limit [OF disjI2 [OF refl]]] this] show ?thesis by (rule spoiled_clean)
  qed
  with v show ?thesis by (simp add: startSupervision_def Let_def stage)
qed

section \<open>The end of the root process\<close>

lemma clean_outcome:
  assumes v: "clean L s v" and x: "mapGet (sv_ops v) i = Some x" and ok: "tainted x \<or> stageOk L i (OutcomeKnown outcome)"
  shows "clean L s (outcomeSettled now i y outcome v)"
proof (cases outcome)
  case (RootExited e)
  with v x ok show ?thesis by (simp add: outcomeSettled_def clean_stage)
next
  case (RootStopped stop)
  with v x ok show ?thesis by (auto simp: outcomeSettled_def clean_stage clean_conclude clean_unconfirmed)
next
  case RootTimedOut
  let ?f = "\<lambda>x. x\<lparr>if_timedOut := True, if_reason := Some TTimedOut\<rparr>"
  have "spoiled if_timedOut L s i (setOp i ?f v)"
    by (rule spoil [OF v]) (auto simp: tainted_def stoppedByLimit_def)
  then have p: "spoiled if_timedOut L s i w" if "handleStopPipeline now i TTimedOut (setOp i ?f v) = (r, w)" for r w
    by (rule preservesD [OF pipeline_spoiled [OF lasting_timedOut] _ that])
  have "clean L s (atStage i AwaitTimeoutStop w)" if "spoiled if_timedOut L s i w" for w
    unfolding atStage_def
    by (rule spoiled_clean, rule spoiled_setOp [OF that]) (auto simp: tainted_def stoppedByLimit_def)
  then show ?thesis
    using p by (auto simp: outcomeSettled_def RootTimedOut intro: clean_finish [OF spoiled_clean] split: prod.split sum.split)
qed

lemma clean_raced:
  assumes "clean L s v" and "mapGet (sv_ops v) i = Some x" and "tainted x \<or> stageOk L i (OutcomeKnown outcome)"
  shows "clean L s (raced i outcome v)"
  unfolding raced_def by (rule clean_setOp [OF assms(1)]) (use assms(2,3) in \<open>auto simp: objOk_def tainted_def stoppedByLimit_def\<close>)

lemma clean_rootWaited:
  assumes "clean L s v" and "mapGet (sv_ops v) i = Some x" and "tainted x"
  shows "clean L s (rootWaited now i x timeout exit v)"
  using assms by (auto simp: rootWaited_def clean_stage clean_conclude clean_timeout split: option.split bool.split)

section \<open>Output and process tree\<close>

definition treeDone :: "supEvent set \<Rightarrow> string \<Rightarrow> DrainFacts \<Rightarrow> bool" where
  "treeDone L i f \<longleftrightarrow> exitSeen L i (df_exit f) \<and> drainSeen L i \<and> treeSeen L i (df_tree f)"

lemma clean_drainedWith:
  assumes v: "clean L s v" and x: "mapGet (sv_ops v) i = Some x" and ok: "tainted x \<or> treeDone L i f"
  shows "clean L s (drainedWith k now i x f v)"
proof -
  have p: "clean L s v1 \<and> mapGet (sv_ops v1) i = Some x"
    if run: "inDomain (\<lambda>_. inStore (updateRecoveryEvidence i p)) v = (r, v1)" for p r v1
  proof
    show "clean L s v1" by (rule preservesD [OF clean_inDomain [OF keeps_evidence] v run])
    show "mapGet (sv_ops v1) i = Some x" using run x by (auto simp: inDomain_run)
  qed
  show ?thesis
    unfolding drainedWith_def Let_def using ok
    by (auto split: prod.split sum.split dest!: p intro: clean_finish intro!: clean_stage simp: treeDone_def)
qed

lemma clean_heldPipes: "clean L s v \<Longrightarrow> clean L s (heldPipes now i x e v)"
  unfolding heldPipes_def by (rule clean_conclude [OF clean_hold]) simp_all

lemma clean_drained:
  assumes "clean L s v" and "mapGet (sv_ops v) i = Some x"
    and "tainted x \<or> (if_stop x = StopNone \<and> natural \<and> exitSeen L i e)" and "b \<Longrightarrow> drainSeen L i"
  shows "clean L s (drained k now i x e natural b v)"
  using assms by (auto simp: drained_def clean_drainedWith treeDone_def factsOf_def treeSeen_def intro!: clean_stage clean_drainedWith)

lemma clean_reaped:
  assumes "clean L s v" and "mapGet (sv_ops v) i = Some x" and "tainted x \<or> exitSeen L i e"
    and "\<And>stop. answer = Inr stop \<Longrightarrow> stp_stopped stop = StConfirmedStopped \<Longrightarrow> reapSeen L i"
  shows "clean L s (reaped now i x e answer v)"
  using assms by (auto simp: reaped_def clean_finish clean_conclude clean_hold split: sum.split intro!: clean_stage)

lemma clean_drainedAgain:
  assumes "clean L s v" and "mapGet (sv_ops v) i = Some x"
    and "tainted x \<or> (if_stop x = StopNone \<and> exitSeen L i e \<and> reapSeen L i)" and "b \<Longrightarrow> drainSeen L i"
  shows "clean L s (drainedAgain k now i x e pids b v)"
  using assms by (auto simp: drainedAgain_def treeDone_def factsOf_def treeSeen_def intro!: clean_stage clean_drainedWith)

lemma clean_treeAnswered:
  assumes "clean L s v" and "mapGet (sv_ops v) i = Some x" and "tainted x \<or> (exitSeen L i e \<and> drainSeen L i)"
    and "answer = Inr TreeEmpty \<Longrightarrow> TreeAnswer i (Inr TreeEmpty) \<in> L"
  shows "clean L s (treeAnswered k now i x e answer v)"
  using assms by (auto simp: treeAnswered_def treeDone_def factsOf_def treeSeen_def clean_finish
      split: sum.split TreeStatus.split intro!: clean_stage clean_drainedWith)

lemma clean_treeReaped:
  assumes "clean L s v" and "mapGet (sv_ops v) i = Some x" and "tainted x \<or> (exitSeen L i e \<and> drainSeen L i)"
    and "\<And>stop. answer = Inr stop \<Longrightarrow> stp_stopped stop = StConfirmedStopped \<Longrightarrow> reapSeen L i"
  shows "clean L s (treeReaped k now i x e answer v)"
  using assms by (auto simp: treeReaped_def treeDone_def factsOf_def treeSeen_def clean_finish clean_conclude clean_hold
      split: sum.split intro!: clean_drainedWith)

lemma spoiled_stage: "spoiled tainted L s i v \<Longrightarrow> \<not> awaitsSuccess st \<Longrightarrow> clean L s (atStage i st v)"
  unfolding atStage_def by (rule spoiled_clean, rule spoiled_setOp, assumption) (auto simp: tainted_def stoppedByLimit_def)

lemma clean_limits:
  assumes v: "clean L s v" and x: "mapGet (sv_ops v) i = Some x" and ok: "tainted x \<or> treeDone L i f"
  shows "clean L s (limitsRead i f answer v)"
proof -
  have stage: "clean L s (atStage i (Verifying f) v)"
    by (rule clean_stage [OF v x]) (use ok in \<open>simp_all add: treeDone_def\<close>)
  have "clean L s (atStage i (Verifying f) (setOp i (\<lambda>x. x\<lparr>if_reason := Some r\<rparr>) v))" if "limitReason r" for r
  proof -
    have "spoiled tainted L s i (setOp i (\<lambda>x. x\<lparr>if_reason := Some r\<rparr>) v)"
      by (rule spoil [OF v]) (use that in \<open>auto simp: limitReason_def tainted_def stoppedByLimit_def\<close>)
    then show ?thesis by (rule spoiled_stage) simp
  qed
  with stage v show ?thesis
    by (auto simp: limitsRead_def limitReason_def clean_finish split: sum.split option.split)
qed

section \<open>The result\<close>

lemma clean_record: "truthful L i (ResProcess r) \<Longrightarrow> clean L s v \<Longrightarrow> clean L s (recordResult now i x r v)"
  unfolding recordResult_def by (rule clean_conclude [OF clean_inDomain [OF keeps_finalize]])

lemma status_tainted: "tainted x \<Longrightarrow> statusOf x e \<noteq> PSucceeded"
  by (auto simp: tainted_def statusOf_def)

lemma build_truthful:
  assumes "objOk L i x" and "if_stage x = Verifying f" and "IdentityAnswer i c (Inr identity) \<in> L"
  shows "truthful L i (ResProcess (buildProcessResult now x c f identity))"
proof -
  have st: "pr_status (buildProcessResult now x c f identity) = statusOf x (df_exit f)"
    by (simp add: buildProcessResult_def Let_def)
  show ?thesis
  proof (cases "tainted x")
    case True
    with st show ?thesis by (simp add: truthful_def status_tainted)
  next
    case False
    with assms have ok: "if_reason x = None" "exitSeen L i (df_exit f)" "drainSeen L i" "treeSeen L i (df_tree f)"
      by (auto simp: objOk_def)
    show ?thesis
      unfolding truthful_def
    proof (intro allI impI)
      fix q assume q: "ResProcess (buildProcessResult now x c f identity) = ResProcess q" "pr_status q = PSucceeded"
      then have s: "statusOf x (df_exit f) = PSucceeded" using st by simp
      then have "ef_exitCode (df_exit f) = Some 0" by (auto simp: statusOf_def split: if_splits)
      with q(1) s ok assms(3) show "witnessed L i q"
        by (auto simp: buildProcessResult_def Let_def witnessed_def)
    qed
  qed
qed

lemma clean_verified:
  assumes "clean L s v" and "mapGet (sv_ops v) i = Some x" and "if_stage x = Verifying f"
    and "\<And>identity. answer = Inr identity \<Longrightarrow> IdentityAnswer i c (Inr identity) \<in> L"
  shows "clean L s (verified now i x f c answer v)"
proof -
  have ok: "objOk L i x" using assms(1,2) by (rule clean_object)
  have "\<not> awaitsSuccess (AwaitStop (buildProcessResult now x c f identity))" if "if_stop x \<noteq> StopNone" for identity
    using ok that status_tainted by (auto simp: objOk_def buildProcessResult_def Let_def)
  moreover have "tainted x" if "if_stop x \<noteq> StopNone" using ok that by (auto simp: objOk_def)
  ultimately show ?thesis
    using assms build_truthful [OF ok assms(3)] by (auto simp: verified_def Let_def clean_finish clean_record split: sum.split intro!: clean_stage)
qed

lemma clean_stopAwaited:
  assumes "clean L s v" and "mapGet (sv_ops v) i = Some x" and "if_stage x = AwaitStop r"
  shows "clean L s (stopAwaited now i x r answer v)"
proof -
  have "pr_status r \<noteq> PSucceeded" using clean_object [OF assms(1,2)] assms(3) by (simp add: objOk_def)
  with assms show ?thesis
    by (auto simp: stopAwaited_def clean_finish clean_conclude clean_unconfirmed truthful_def split: sum.split intro!: clean_record)
qed

section \<open>Samples and output chunks\<close>

lemma clean_stopFor: "limitReason reason \<Longrightarrow> preserves (clean L s) (stopFor now i reason)"
proof (rule preservesI)
  fix v assume r: "limitReason reason" and v: "clean L s v"
  let ?f = "\<lambda>x. x\<lparr>if_reason := Some reason, if_sampler := (if_sampler x)\<lparr>sm_stopped := True, sm_stopping := Some reason\<rparr>\<rparr>"
  have "spoiled tainted L s i (setOp i ?f v)"
    by (rule spoil [OF v]) (use r in \<open>auto simp: limitReason_def tainted_def stoppedByLimit_def\<close>)
  from spoiled_clean [OF preserves_snd [OF pipeline_spoiled [OF lasting_limit] this]] r
  show "clean L s (snd (stopFor now i reason v))" by (simp add: stopFor_def modify_thenDo)
qed

lemma stopFor_clean: "stopFor now i reason v = (r, w) \<Longrightarrow> limitReason reason \<Longrightarrow> clean L s v \<Longrightarrow> clean L s w"
  by (rule preservesD [OF clean_stopFor])

lemma core_failed [simp]: "sameCore x (samplingFailed t x)"
  by (simp add: sameCore_def samplingFailed_def Let_def)

lemma clean_sampleFailure: "clean L s v \<Longrightarrow> clean L s (sampleFailure k now i b e v)"
  unfolding sampleFailure_def Let_def samplingFailed_def
  by (auto split: option.split prod.split sum.split simp: limitReason_def sameCore_def intro!: clean_core elim!: stopFor_clean)

lemma clean_stopSample: "limitReason reason \<Longrightarrow> clean L s v \<Longrightarrow> clean L s (stopSample k now i b reason v)"
  unfolding stopSample_def
  by (auto split: prod.split sum.split simp: sameCore_def intro!: clean_sampleFailure clean_core elim!: stopFor_clean)

lemma clean_sampled: "clean L s v \<Longrightarrow> clean L s (sampled k now i x b answer v)"
  unfolding sampled_def Let_def
  by (auto split: sum.split option.split if_splits simp: sameCore_def softExcess_def limitReason_def
      intro!: clean_sampleFailure clean_stopSample clean_core)

lemma clean_hits: "clean L s v \<Longrightarrow> clean L s (sampledHits k now i b answer v)"
proof -
  assume v: "clean L s v"
  let ?v = "setOp i (\<lambda>x. x\<lparr>if_sampler := (if_sampler x)\<lparr>sm_readingHits := False\<rparr>\<rparr>) v"
  have c: "clean L s ?v" by (rule clean_core [OF v]) (simp add: sameCore_def)
  have "clean L s (setOp i (\<lambda>x. x\<lparr>if_reason := coalesce (if_reason x) (Some TMemoryExceeded)\<rparr>) ?v)"
    by (rule clean_setOp [OF c]) (auto simp: objOk_def tainted_def stoppedByLimit_def coalesce_def split: option.splits)
  with c show ?thesis
    by (auto simp: sampledHits_def Let_def limitReason_def split: sum.split option.split
        intro!: clean_sampleFailure clean_stopSample)
qed

lemma clean_output: "clean L s v \<Longrightarrow> clean L s (outputSeen now i x bytes v)"
proof -
  assume v: "clean L s v"
  let ?v = "setOp i (\<lambda>x. x\<lparr>if_outputBytes := if_outputBytes x + bytes\<rparr>) v"
  have c: "clean L s ?v" by (rule clean_core [OF v]) (simp add: sameCore_def)
  have "spoiled tainted L s i (setOp i (\<lambda>x. x\<lparr>if_reason := Some TOutputExceeded\<rparr>) ?v)"
    by (rule spoil [OF c]) (auto simp: tainted_def stoppedByLimit_def)
  from spoiled_clean [OF preserves_snd [OF pipeline_spoiled [OF lasting_limit] this]] c
  show ?thesis by (simp add: outputSeen_def Let_def limitReason_def split: option.split)
qed

lemma core_sample: "sameCore x (lastSample k a (sampleEnded k x))"
proof -
  have "sameCore x (sampleEnded k x)"
    by (auto simp: sampleEnded_def samplingFailed_def sameCore_def Let_def split: option.split StopState.split sum.split)
  moreover have "sameCore y (lastSample k a y)" for y
    by (auto simp: lastSample_def samplingFailed_def sameCore_def Let_def split: sum.split)
  ultimately show ?thesis by (simp add: sameCore_def)
qed

lemma clean_settled:
  assumes v: "clean L s v" and x: "mapGet (sv_ops v) i = Some x" and st: "if_stage x = OutcomeKnown outcome"
  shows "clean L s (outcomeSettled now i y outcome (setOp i (\<lambda>_. lastSample k a (sampleEnded k x)) v))"
proof (rule clean_outcome)
  let ?x = "lastSample k a (sampleEnded k x)"
  have ok: "objOk L i ?x" using clean_object [OF v x] sameCore_ok(2) [OF core_sample] by simp
  show "clean L s (setOp i (\<lambda>_. ?x) v)" by (rule clean_setOp [OF v]) (rule ok)
  show "mapGet (sv_ops (setOp i (\<lambda>_. ?x) v)) i = Some ?x" by (simp add: mapGet_setOp x)
  show "tainted ?x \<or> stageOk L i (OutcomeKnown outcome)" using ok st by (auto simp: objOk_def)
qed

section \<open>Requests\<close>

lemma clean_granted:
  assumes v: "clean L s v" and x: "mapGet (sv_ops v) i = Some x"
  shows "clean L s (resourcesGranted k now i x v)"
proof -
  have none: "op_result (if_op x) = None" using clean_object [OF v x] by (simp add: objOk_def)
  let ?m = "inDomain (\<lambda>_ d. inStore (registerOperationIntent (ke_digest k) now (if_op x) (dm_domainId d)) d)"
  have reg: "clean L s v1" if "?m v = (r, v1)" for r v1
    by (rule preservesD [OF clean_inDomain [OF keeps_intent [OF none]] v that])
  have early: "clean L s (cancelledEarly k now i x v)"
    unfolding cancelledEarly_def
    by (intro clean_conclude clean_inDomain keeps_cancelBefore clean_setOp [OF v] objOk_resolve)
  have go: "clean L s (setOp i (\<lambda>x. x\<lparr>if_phase := PhSpawning, if_stage := AwaitSpawn\<rparr>) w)" if "clean L s w" for w
    by (rule clean_setOp [OF that]) (auto simp: objOk_def tainted_def stoppedByLimit_def)
  have fail: "clean L s (concludeBy i (thenDo (inDomain (\<lambda>gone. internalReleaseResources gone now i (resourcesOf x))) (raise e)) w)"
    if "clean L s w" for e w
    by (intro clean_conclude [OF _ that] pres_thenDo pres_raise clean_inDomain keeps_release)
  have sp: "clean L s (w\<lparr>sv_spawned := xs\<rparr>)" if "clean L s w" for w xs
    using that by (simp add: clean_def)
  show ?thesis
    unfolding resourcesGranted_def Let_def by (auto intro: early fail sp go dest: reg split: prod.split sum.split)
qed

lemma clean_startRun:
  assumes v: "clean L s v" and x: "objOk L (op_id (if_op x)) x"
  shows "clean L s (startRun now x v)"
proof -
  let ?i = "op_id (if_op x)"
  let ?v = "v\<lparr>sv_ops := mapSet ?i x (sv_ops v), sv_active := setAdd ?i (sv_active v)\<rparr>"
  have c: "clean L s ?v" using v x by (auto simp: clean_def)
  have "clean L s v1" if "inDomain (\<lambda>_. allocateResourcesWithWait now g j rs w b) ?v = (r, v1)" for g j rs w b r v1
    by (rule preservesD [OF clean_inDomain [OF keeps_free [OF free_allocate]] c that])
  then show ?thesis
    unfolding startRun_def Let_def by (auto intro!: clean_finish clean_stageOk split: prod.split sum.split)
qed

lemma clean_execute: "preserves (clean L s) (executeProcess k now o')"
proof -
  have idAvailable: "preserves (clean L s) (assertIdAvailable i)" for i
    unfolding assertIdAvailable_def
    by (rule preservesI) (simp add: preserves_snd [OF clean_inDomain [OF keeps_free [OF free_idAvailable]]] split: option.split)
  have start: "preserves (clean L s) (\<lambda>v. (Inr Started, startRun now (trackOperation o' (pendingOp k now o' roots fp (dm_domainId (sv_domain v)) snapshot)
      command confinement adm fp now) v))" for o' roots fp snapshot command confinement adm
    by (rule preservesI) (auto intro!: clean_startRun simp: objOk_def trackOperation_def pendingOp_def)
  have sub: "preserves (clean L s) (submit k now o' roots adm confinement command fp snapshot)" for o' roots adm confinement command fp snapshot
  proof (rule preservesI)
    fix v assume v: "clean L s v"
    have new: "preserves (clean L s) (andThen (inDomain (\<lambda>_. replayRecorded now o' fp)) (\<lambda>r. case r of
         Some res \<Rightarrow> ret (Replayed res)
       | None \<Rightarrow> thenDo (assertIdAvailable (xo_opId o')) (\<lambda>v. (Inr Started,
           startRun now (trackOperation o' (pendingOp k now o' roots fp (dm_domainId (sv_domain v)) snapshot)
              command confinement adm fp now) v))))"
      by (intro pres_andThen clean_inDomain keeps_free free_replay pres_option pres_ret pres_thenDo idAvailable start)
    have join: "preserves (clean L s) (thenDo (inDomain (\<lambda>_. joinRunning now x o' fp)) (ret Joined))" for x
      by (intro pres_thenDo pres_ret clean_inDomain keeps_free free_join)
    show "clean L s (snd (submit k now o' roots adm confinement command fp snapshot v))"
      using preserves_snd [OF new v] preserves_snd [OF join v] unfolding submit_def Let_def by (simp split: option.split)
  qed
  have lift: "preserves (clean L s) (liftSum r)" for r :: "KError + 'a" by (rule preservesI) (simp add: liftSum_def)
  have orr: "preserves (clean L s) (orRaise e)" for e unfolding orRaise_def by (intro pres_option pres_ret pres_raise)
  show ?thesis
    unfolding executeProcess_def Let_def split_beta liftSum_def
    by (intro pres_thenDo pres_andThen orr clean_inDomain keeps_free free_admit free_runOpen free_bind sub) (rule preservesI, simp)+
qed

section \<open>The system\<close>

lemma seen_mono:
  assumes "L \<subseteq> M"
  shows "exitSeen L i e \<Longrightarrow> exitSeen M i e" "drainSeen L i \<Longrightarrow> drainSeen M i" "reapSeen L i \<Longrightarrow> reapSeen M i"
  using assms by (auto simp: exitSeen_def drainSeen_def reapSeen_def)

lemma treeSeen_mono: "L \<subseteq> M \<Longrightarrow> treeSeen L i t \<Longrightarrow> treeSeen M i t"
  by (auto simp: treeSeen_def seen_mono(3) split: option.splits TreeSettlement.splits)

lemma witnessed_mono: "L \<subseteq> M \<Longrightarrow> witnessed L i r \<Longrightarrow> witnessed M i r"
  using seen_mono(1,2) [of L M i] treeSeen_mono [of L M i] unfolding witnessed_def by auto

lemma stageOk_mono: "L \<subseteq> M \<Longrightarrow> stageOk L i st \<Longrightarrow> stageOk M i st"
  by (induction L i st rule: stageOk.induct) (auto intro: seen_mono treeSeen_mono)

lemma clean_mono: "L \<subseteq> M \<Longrightarrow> clean L s v \<Longrightarrow> clean M s v"
proof -
  assume sub: "L \<subseteq> M" and c: "clean L s v"
  have "honest M s (storeOf v)" using c witnessed_mono [OF sub] unfolding clean_def honest_def by blast
  moreover have "objOk M i x" if "objOk L i x" for i x
    using that stageOk_mono [OF sub] by (auto simp: objOk_def)
  ultimately show ?thesis using c by (simp add: clean_def)
qed

lemma onWait_clean:
  assumes "clean L s v" and run: "onWait v i f = Some v'"
    and seg: "\<And>x. mapGet (sv_ops v) i = Some x \<Longrightarrow> objOk L i x \<Longrightarrow> f x (if_stage x) = Some v' \<Longrightarrow> clean L s v'"
  shows "clean L s v'"
proof -
  from run obtain x where "listed v i = Some x" and f: "f x (if_stage x) = Some v'" by (auto simp: onWait_Some)
  then have x: "mapGet (sv_ops v) i = Some x" by (simp add: listed_def split: if_splits)
  show ?thesis by (rule seg [OF x clean_object [OF assms(1) x] f])
qed

lemma stopSeen_stop: "stopSeen st s = Some r \<Longrightarrow> s \<noteq> StopNone"
  by (auto elim: stopSeen.elims)

lemma step_clean_in:
  assumes v: "clean L s v" and e: "e \<in> L" and run: "step k now e v = Some v'"
  shows "clean L s v'"
proof (cases e)
  case (Execute o')
  with run preserves_snd [OF clean_execute v] show ?thesis by auto
next
  case (Cancel i g)
  with run clean_cancel [OF v] show ?thesis by auto
next
  case (Heartbeat alive host)
  with run preserves_snd [OF clean_inDomain [OF keeps_free [OF free_heartbeat]] v] show ?thesis by auto
next
  case (WaitExpired t)
  with run preserves_snd [OF clean_inDomain [OF keeps_free [OF free_waitTimeout]] v] show ?thesis by auto
next
  case (ResourcesReady i)
  show ?thesis
    by (rule onWait_clean [OF v run [unfolded ResourcesReady step.simps]])
      (auto split: wait_splits intro: clean_finish [OF v] clean_granted [OF v])
next
  case (SpawnAnswer i a g)
  show ?thesis
    by (rule onWait_clean [OF v run [unfolded SpawnAnswer step.simps]]) (auto split: wait_splits intro: clean_spawned [OF v])
next
  case (AbortAnswer i a)
  show ?thesis
    by (rule onWait_clean [OF v run [unfolded AbortAnswer step.simps]]) (auto split: wait_splits intro: clean_aborted [OF v])
next
  case (Supervise i)
  show ?thesis
    by (rule onWait_clean [OF v run [unfolded Supervise step.simps]]) (auto split: wait_splits intro: clean_supervision [OF v])
next
  case (RootExit i x)
  show ?thesis
    by (rule onWait_clean [OF v run [unfolded RootExit step.simps]])
      (use e in \<open>auto simp: RootExit exitSeen_def split: wait_splits intro: clean_raced [OF v]\<close>)
next
  case (TimeUp i)
  show ?thesis
    by (rule onWait_clean [OF v run [unfolded TimeUp step.simps]]) (auto split: wait_splits intro: clean_raced [OF v])
next
  case (StopSeen i)
  show ?thesis
    by (rule onWait_clean [OF v run [unfolded StopSeen step.simps]])
      (auto simp: objOk_def dest: stopSeen_stop split: option.split_asm sum.split_asm intro: clean_raced [OF v] clean_finish [OF v])
next
  case (SamplingOver i a)
  show ?thesis
    by (rule onWait_clean [OF v run [unfolded SamplingOver step.simps]])
      (auto simp: Let_def split: Stage.split_asm if_splits intro: clean_settled [OF v])
next
  case (StopAnswer i a)
  with run obtain x where x: "mapGet (sv_ops v) i = Some x" "if_stop x = StopRunning" "v' = stopAnswered now i x a v"
    by (auto split: option.split_asm if_split_asm)
  have "spoiled tainted L s i v" by (rule stopped_spoiled [OF v x(1)]) (simp add: x(2))
  then show ?thesis unfolding x(3) by (rule clean_stopAnswered)
next
  case (TimeoutStopped i)
  show ?thesis
    by (rule onWait_clean [OF v run [unfolded TimeoutStopped step.simps]])
      (auto simp: objOk_def split: wait_splits intro: clean_stage [OF v] clean_finish [OF v])
next
  case (RootWait i x)
  show ?thesis
    by (rule onWait_clean [OF v run [unfolded RootWait step.simps]])
      (auto simp: objOk_def split: wait_splits intro: clean_rootWaited [OF v])
next
  case (DrainedIn i b)
  show ?thesis
    by (rule onWait_clean [OF v run [unfolded DrainedIn step.simps]])
      (use e in \<open>auto simp: DrainedIn objOk_def drainSeen_def split: wait_splits intro!: clean_drained [OF v]\<close>)
next
  case (ReapAnswer i a)
  show ?thesis
    by (rule onWait_clean [OF v run [unfolded ReapAnswer step.simps]])
      (use e in \<open>auto simp: ReapAnswer objOk_def reapSeen_def split: wait_splits intro!: clean_reaped [OF v]\<close>)
next
  case (DrainedAfter i b)
  show ?thesis
    by (rule onWait_clean [OF v run [unfolded DrainedAfter step.simps]])
      (use e in \<open>auto simp: DrainedAfter objOk_def drainSeen_def split: wait_splits intro!: clean_drainedAgain [OF v]\<close>)
next
  case (PipesGivenUp i)
  show ?thesis
    by (rule onWait_clean [OF v run [unfolded PipesGivenUp step.simps]]) (auto split: wait_splits intro: clean_heldPipes [OF v])
next
  case (TreeAnswer i a)
  show ?thesis
    by (rule onWait_clean [OF v run [unfolded TreeAnswer step.simps]])
      (use e in \<open>auto simp: TreeAnswer objOk_def split: wait_splits intro!: clean_treeAnswered [OF v]\<close>)
next
  case (TreeReapAnswer i a)
  show ?thesis
    by (rule onWait_clean [OF v run [unfolded TreeReapAnswer step.simps]])
      (use e in \<open>auto simp: TreeReapAnswer objOk_def reapSeen_def split: wait_splits intro!: clean_treeReaped [OF v]\<close>)
next
  case (LimitsAnswer i a)
  show ?thesis
    by (rule onWait_clean [OF v run [unfolded LimitsAnswer step.simps]])
      (auto simp: objOk_def treeDone_def split: wait_splits intro!: clean_limits [OF v])
next
  case (IdentityAnswer i c a)
  show ?thesis
    by (rule onWait_clean [OF v run [unfolded IdentityAnswer step.simps]])
      (use e in \<open>auto simp: IdentityAnswer split: wait_splits intro!: clean_verified [OF v]\<close>)
next
  case (StopAwaited i)
  show ?thesis
    by (rule onWait_clean [OF v run [unfolded StopAwaited step.simps]])
      (auto split: wait_splits intro!: clean_stopAwaited [OF v])
next
  case (Sample i a)
  show ?thesis
    by (rule onWait_clean [OF v run [unfolded Sample step.simps]]) (auto split: wait_splits intro: clean_sampled [OF v])
next
  case (SampleHits i a)
  show ?thesis
    by (rule onWait_clean [OF v run [unfolded SampleHits step.simps]]) (auto split: wait_splits intro: clean_hits [OF v])
next
  case (Output i b)
  show ?thesis
    by (rule onWait_clean [OF v run [unfolded Output step.simps]]) (auto split: wait_splits intro: clean_output [OF v])
qed

lemma step_clean: "clean L s v \<Longrightarrow> step k now e v = Some v' \<Longrightarrow> clean (insert e L) s v'"
  by (rule step_clean_in [where e = e]) (auto intro: clean_mono)

lemma run_clean: "clean L s v \<Longrightarrow> clean (L \<union> set (accepted k tr v)) s (run k tr v)"
proof (induction tr arbitrary: L v)
  case (Cons p tr)
  obtain now e where p: "p = (now, e)" by (cases p)
  show ?case
  proof (cases "step k now e v")
    case (Some v')
    from Cons.IH [OF step_clean [OF Cons.prems Some]] show ?thesis by (simp add: p Some)
  qed (use Cons p in simp)
qed simp

lemma run_advances:
  "allPosed v \<Longrightarrow> allPosed (run k tr v) \<and> (\<forall>j. rowsOf j (storeOf v) \<noteq> [] \<longrightarrow> rowsOf j (storeOf (run k tr v)) \<noteq> [])"
proof (induction tr arbitrary: v)
  case (Cons p tr)
  obtain now e where p: "p = (now, e)" by (cases p)
  show ?case
  proof (cases "step k now e v")
    case (Some v')
    from step_advances [OF Cons.prems Some] Cons.IH [of v'] show ?thesis by (auto simp: p Some advances_def)
  qed (use Cons p in simp)
qed simp

text \<open>The operations spawned so far are distinct and recorded; those recorded before are not among the new ones.\<close>

definition spawnedOnce :: "supervisor \<Rightarrow> string list \<Rightarrow> bool" where
  "spawnedOnce v xs \<longleftrightarrow> distinct xs \<and> (\<forall>i \<in> set xs. rowsOf i (storeOf v) \<noteq> [])"

lemma step_spawned:
  assumes "advances v v'" and "sv_spawned v = old @ xs" and "spawnedOnce v xs" and "\<forall>i \<in> R. rowsOf i (storeOf v) \<noteq> []"
    and "set xs \<inter> R = {}"
  shows "\<exists>ys. sv_spawned v' = old @ ys \<and> spawnedOnce v' ys \<and> set ys \<inter> R = {}"
proof -
  from assms(1) have rows: "rowsOf j (storeOf v') \<noteq> []" if "rowsOf j (storeOf v) \<noteq> []" for j
    using that by (simp add: advances_def)
  from assms(1) show ?thesis
    unfolding advances_def
  proof (elim conjE disjE exE)
    assume "sv_spawned v' = sv_spawned v"
    then show ?thesis using assms rows by (intro exI [of _ xs]) (auto simp: spawnedOnce_def)
  next
    fix i assume i: "rowsOf i (storeOf v) = []" "rowsOf i (storeOf v') \<noteq> []" "sv_spawned v' = sv_spawned v @ [i]"
    then show ?thesis using assms rows by (intro exI [of _ "xs @ [i]"]) (auto simp: spawnedOnce_def)
  qed
qed

lemma run_spawned:
  "allPosed v \<Longrightarrow> sv_spawned v = old @ xs \<Longrightarrow> spawnedOnce v xs \<Longrightarrow> \<forall>i \<in> R. rowsOf i (storeOf v) \<noteq> [] \<Longrightarrow> set xs \<inter> R = {} \<Longrightarrow>
   \<exists>ys. sv_spawned (run k tr v) = old @ ys \<and> spawnedOnce (run k tr v) ys \<and> set ys \<inter> R = {}"
proof (induction tr arbitrary: v xs)
  case (Cons p tr)
  obtain now e where p: "p = (now, e)" by (cases p)
  show ?case
  proof (cases "step k now e v")
    case (Some v')
    note adv = step_advances [OF Cons.prems(1) Some]
    from step_spawned [OF adv Cons.prems(2-5)] obtain ys where "sv_spawned v' = old @ ys" "spawnedOnce v' ys" "set ys \<inter> R = {}" by blast
    with Cons.IH [of v' ys] adv Cons.prems(4) show ?thesis by (auto simp: p Some advances_def)
  qed (use Cons p in simp)
qed auto

end
