(* ===== verification/SupervisorProps.thy ===== *)
theory SupervisorProps
  imports SuccessLaws DomainProps
begin

text \<open>
  The properties of the supervisor, over every trace of requests, cancellations, timers, samples and
  answers from the driver: leases follow the operations, an operation is spawned at most once, a
  recorded request is replayed and not run again, and a recorded success was observed.
\<close>

section \<open>A process that succeeds\<close>

definition demoDriver :: PlatformDriver where
  "demoDriver = \<lparr>pd_name = ''node'', pd_recovery = \<lparr>rdc_processGroupKill = True, rdc_accurateStartTime = True,
      rdc_startTimeSource = None, rdc_descendantEnumeration = DEFull, rdc_gatedSpawn = Some True\<rparr>,
     pd_memoryHardLimit = False, pd_pidsLimit = False, pd_cpuLimit = False, pd_facts = [], pd_secretResolution = None,
     pd_sampleMetrics = True, pd_readLimitEvents = False, pd_settleTree = True\<rparr>"
definition demoEnv :: kernelEnv where
  "demoEnv = \<lparr>ke_fs = \<lparr>fs_cwd = ''/'', fs_realpath = Some, fs_exists = (\<lambda>_. True)\<rparr>, ke_digest = demoHash, ke_sha = id,
     ke_collate = strLess, ke_driver = demoDriver, ke_confinements = (\<lambda>_. None), ke_confinementDefault = None,
     ke_message = (\<lambda>_. ''error'')\<rparr>"
definition demoCommand :: StructuredCommand where
  "demoCommand = \<lparr>cmd_execPath = ''/bin/ls'', cmd_args = [], cmd_cwd = ''/'', cmd_stdin = None, cmd_stdinMode = None,
     cmd_envWhiteList = None, cmd_inheritEnv = None, cmd_secretEnv = None, cmd_hardLimits = None\<rparr>"
definition demoRequest :: ExecuteProcessOptions where
  "demoRequest = \<lparr>xo_runId = ''r'', xo_opId = ''op1'', xo_name = ''ls'', xo_command = demoCommand,
     xo_requiredResources = Some [''/w''], xo_mutationRoots = None, xo_capabilityId = None, xo_capabilityWorkspace = None,
     xo_capabilitySecretRefs = None, xo_capabilityPolicyVersion = None, xo_confinement = None, xo_confinementDriver = None,
     xo_timeoutMs = None, xo_inputFingerprint = Some ''f'', xo_maxOutputBytes = None, xo_drainTimeoutMs = None,
     xo_resourceBudget = None, xo_waitTimeoutMs = None, xo_artifactsDir = None, xo_aborted = None\<rparr>"
definition idle :: "domain \<Rightarrow> supervisor" where
  "idle d = \<lparr>sv_domain = d, sv_ops = [], sv_active = [], sv_spawned = [], sv_outcomes = []\<rparr>"
definition demoPid :: ProcessIdentity where
  "demoPid = \<lparr>pid = 42, pgid = Some 42, startTimeMonotonic = None, spawnTime = Iso 6, osStartTime = None,
    commandFingerprint = None, bootId = None, cgroupPath = None\<rparr>"
definition noOutput :: StreamResult where
  "noOutput = \<lparr>so_content = [], so_isTruncated = False, so_outputRef = None, so_bytesSeen = 0, so_outputHash = None, so_spillError = None\<rparr>"
definition demoRequests :: trace where
  "demoRequests = [(5, Execute demoRequest), (6, Execute demoRequest), (6, ResourcesReady ''op1''), (7, Cancel ''op1'' 100),
     (8, SpawnAnswer ''op1'' (Inr demoPid) None)]"

text \<open>The request's process, running, and the events that end it.\<close>

definition demoFlight :: inflight where
  "demoFlight = (trackOperation demoRequest demoOp demoCommand None None ''f'' 5)
     \<lparr>if_phase := PhActive, if_handle := Some demoPid, if_stage := Racing False\<rparr>"
definition demoRacing :: supervisor where
  "demoRacing = \<lparr>sv_domain = demoBusy, sv_ops = [(''op1'', demoFlight)], sv_active = [''op1''], sv_spawned = [''op1''], sv_outcomes = []\<rparr>"
definition demoEnd :: trace where
  "demoEnd = [(9, RootExit ''op1'' \<lparr>ef_exitCode = Some 0, ef_signal = None\<rparr>),
     (10, SamplingOver ''op1'' (Inr \<lparr>mt_rssBytes = 0, mt_pidsCount = 0, mt_cpuTimeMs = 0\<rparr>)), (11, DrainedIn ''op1'' True),
     (12, TreeAnswer ''op1'' (Inr TreeEmpty)),
     (13, IdentityAnswer ''op1'' \<lparr>oc_stdout = noOutput, oc_stderr = noOutput, oc_artifactsDirError = None, oc_callbackError = None\<rparr> (Inr NotOriginalProcess))]"
section \<open>Leases\<close>

lemma idle_posed_all: "sv_active v = [] \<Longrightarrow> (\<And>i. balanced i (storeOf v)) \<Longrightarrow> allPosed v"
  by (simp add: allPosed_def posed_def)

lemma posed_balanced: "posed i v \<Longrightarrow> balanced i (storeOf v)"
  by (auto simp: posed_def waiting_def engaged_def)

text \<open>C32: The leases of a domain follow its operations. Started with no process run in flight and all
  ledgers in order, every sequence of events leaves each operation id with no row and no lease, or with
  one row that is unfinished or indeterminate and a lease on each of its required resources, or with one
  settled row and no lease. This covers failed spawns, cancellations at any point, timeouts, budgets,
  fencing, unconfirmed stops and exceptions from the driver.\<close>

theorem leases_follow_operations:
  assumes "sv_active v = []" and "\<And>i. balanced i (storeOf v)"
  shows "balanced i (storeOf (run k tr v))"
  using run_advances [OF idle_posed_all [OF assms]] by (intro posed_balanced) (simp add: allPosed_def)

theorem leases_follow_operations_witness: "balanced ''op1'' (storeOf (run demoEnv demoRequests (idle demoDomain)))"
  by (rule leases_follow_operations) (simp_all add: idle_def demoDomain_def demo3_def balanced_def absent_def rowsOf_def leasesFor_def)

section \<open>Executions\<close>

text \<open>C33: At-most-once execution. However requests are repeated, cancelled and interleaved, the driver
  is asked to spawn an operation id at most once, only after its intent was recorded, and never for an
  operation the database already had when the supervisor started.\<close>

theorem spawned_at_most_once:
  assumes "sv_active v = []" and "\<And>i. balanced i (storeOf v)" and "sv_spawned v = []"
  shows "distinct (sv_spawned (run k tr v))
    \<and> (\<forall>i \<in> set (sv_spawned (run k tr v)). getOperation i (storeOf (run k tr v)) \<noteq> None \<and> getOperation i (storeOf v) = None)"
proof -
  let ?R = "{i. rowsOf i (storeOf v) \<noteq> []}"
  have "\<exists>ys. sv_spawned (run k tr v) = [] @ ys \<and> spawnedOnce (run k tr v) ys \<and> set ys \<inter> ?R = {}"
    by (rule run_spawned [where old = "[]" and xs = "[]", OF idle_posed_all [OF assms(1,2)]]) (simp_all add: assms(3) spawnedOnce_def)
  then show ?thesis by (auto simp: spawnedOnce_def getOperation_rows split: list.split)
qed

theorem spawned_at_most_once_witness: "distinct (sv_spawned (run demoEnv demoRequests (idle demoDomain)))"
proof -
  have "sv_active (idle demoDomain) = []" "sv_spawned (idle demoDomain) = []" by (simp_all add: idle_def)
  moreover have "balanced i (storeOf (idle demoDomain))" for i
    by (simp add: idle_def demoDomain_def demo3_def balanced_def absent_def rowsOf_def leasesFor_def)
  ultimately show ?thesis using spawned_at_most_once by blast
qed

section \<open>Replay\<close>

definition answers :: "supervisor \<Rightarrow> ('a \<Rightarrow> bool) \<Rightarrow> 'a supM \<Rightarrow> bool" where
  "answers v0 Q m \<longleftrightarrow> (\<forall>v r v'. idleStep v0 v \<longrightarrow> m v = (r, v') \<longrightarrow> idleStep v0 v' \<and> (\<forall>x. r = Inr x \<longrightarrow> Q x))"

lemma answers_andThen:
  assumes "answers v0 P m" and "\<And>x. P x \<Longrightarrow> answers v0 Q (f x)"
  shows "answers v0 Q (andThen m f)"
  unfolding answers_def
proof (intro allI impI)
  fix v r v' assume v: "idleStep v0 v" and run: "andThen m f v = (r, v')"
  obtain q w where m: "m v = (q, w)" by fastforce
  from assms(1) v m have w: "idleStep v0 w" "\<And>x. q = Inr x \<Longrightarrow> P x" by (auto simp: answers_def)
  show "idleStep v0 v' \<and> (\<forall>x. r = Inr x \<longrightarrow> Q x)"
  proof (cases q)
    case (Inr x)
    with run m have "f x w = (r, v')" by (simp add: andThen_def)
    with assms(2) [OF w(2) [OF Inr]] w(1) show ?thesis by (simp add: answers_def)
  qed (use run m w in \<open>auto simp: andThen_def\<close>)
qed

lemma answers_idle: "preserves (idleStep v0) m \<Longrightarrow> answers v0 (\<lambda>_. True) m"
  by (auto simp: answers_def dest: preservesD)

lemma answers_thenDo: "preserves (idleStep v0) m \<Longrightarrow> answers v0 Q n \<Longrightarrow> answers v0 Q (thenDo m n)"
  unfolding thenDo_def by (rule answers_andThen [OF answers_idle])

lemma answers_weaken: "answers v0 P m \<Longrightarrow> (\<And>x. P x \<Longrightarrow> Q x) \<Longrightarrow> answers v0 Q m"
  by (auto simp: answers_def)

text \<open>What a repeated request returns.\<close>

definition replayOf :: "Operation \<Rightarrow> ExecuteReply \<Rightarrow> bool" where
  "replayOf op reply \<longleftrightarrow> (\<exists>r. op_status op = ODone \<and> op_result op = Some r \<and> reply = Replayed (replayedAs (op_runId op) r))"

lemma replay_recorded:
  assumes "getOperation (xo_opId o') (dm_store d) = Some op" and "replayRecorded now o' fp d = (Inr q, d')"
  shows "\<exists>r. op_status op = ODone \<and> op_inputFingerprint op = fp \<and> op_result op = Some r \<and> q = Some (replayedAs (op_runId op) r)"
  using assms by (auto simp: replayRecorded_def thenDo_def andThen_def ret_def split: if_splits option.splits prod.splits sum.splits)

lemma submit_replays:
  assumes "xo_opId o' \<notin> set (sv_active v0)" and "getOperation (xo_opId o') (storeOf v0) = Some op"
  shows "answers v0 (\<lambda>reply. replayOf op reply \<and> op_inputFingerprint op = fp) (submit k now o' roots adm c command fp snapshot)"
  unfolding answers_def
proof (intro allI impI)
  fix v r v' assume v: "idleStep v0 v" and run: "submit k now o' roots adm c command fp snapshot v = (r, v')"
  have na: "xo_opId o' \<notin> set (sv_active v)" using v assms(1) by (simp add: idleStep_def)
  have op: "getOperation (xo_opId o') (storeOf v) = Some op"
    using v assms(2) by (simp add: idleStep_def sameTables_def getOperation_def)
  obtain q w where m: "inDomain (\<lambda>_. replayRecorded now o' fp) v = (q, w)" by fastforce
  have "idleStep v0 w" by (rule preservesD [OF free_idle [OF free_replay] v m])
  moreover have "\<exists>res. q = Inr (Some res) \<and> replayOf op (Replayed res) \<and> op_inputFingerprint op = fp" if "q = Inr p" for p
  proof -
    from m that obtain d where "replayRecorded now o' fp (sv_domain v) = (Inr p, d)" by (auto simp: inDomain_run)
    from replay_recorded [OF op this] that show ?thesis by (auto simp: replayOf_def)
  qed
  ultimately show "idleStep v0 v' \<and> (\<forall>x. r = Inr x \<longrightarrow> replayOf op x \<and> op_inputFingerprint op = fp)"
    using run na m by (cases q) (auto simp: submit_def Let_def andThen_def ret_def)
qed

lemma admit_keeps:
  "answers v0 (\<lambda>(o', _, _). xo_opId o' = xo_opId o0 \<and> xo_inputFingerprint o' = xo_inputFingerprint o0)
     (inDomain (\<lambda>_. admitProcessScope fs now o0))"
proof -
  have "case x of (o', _, _) \<Rightarrow> xo_opId o' = xo_opId o0 \<and> xo_inputFingerprint o' = xo_inputFingerprint o0"
    if "admitProcessScope fs now o0 d = (Inr x, d')" for x d d'
    using that by (auto simp: admitProcessScope_def Let_def andThen_def ret_def withCommandSecrets_def split: option.splits prod.splits sum.splits)
  then show ?thesis
    unfolding answers_def using preservesD [OF free_idle [OF free_admit]] by (fastforce simp: inDomain_run)
qed

lemma stated_fingerprint:
  "g = (case truthy a of Some f \<Rightarrow> f | None \<Rightarrow> z) \<Longrightarrow> \<forall>f. a = Some f \<and> f \<noteq> [] \<longrightarrow> g = f"
  by (auto simp: truthy_def neq_Nil_conv)

lemma execute_replays:
  assumes "xo_opId o' \<notin> set (sv_active v)" and "getOperation (xo_opId o') (storeOf v) = Some op"
  shows "answers v (\<lambda>reply. replayOf op reply \<and> (\<forall>f. xo_inputFingerprint o' = Some f \<and> f \<noteq> [] \<longrightarrow> op_inputFingerprint op = f))
     (executeProcess k now o')"
  unfolding executeProcess_def Let_def
  apply (intro answers_thenDo idle_orRaise answers_andThen [OF admit_keeps])
  apply (clarsimp)
  apply (intro answers_andThen [OF answers_idle [OF idle_lift]] answers_thenDo idle_orRaise free_idle free_runOpen free_bind
        answers_weaken [OF submit_replays])
    apply (simp add: assms)
   apply (simp add: assms)
  apply (erule conjE, rule conjI, assumption)
  apply (drule stated_fingerprint, simp)
  done

text \<open>C34: A request whose operation is recorded and not in flight starts nothing: the operations in
  flight, the spawned processes, the rows and the leases stay as they are. It either throws, or returns
  the recorded result of a finished operation, marked as replayed; when the request states its
  fingerprint, the recorded one is the same.\<close>

theorem recorded_request_replays:
  assumes "xo_opId o' \<notin> set (sv_active v)" and "getOperation (xo_opId o') (storeOf v) = Some op"
    and "executeProcess k now o' v = (r, v')"
  shows "sv_ops v' = sv_ops v \<and> sv_active v' = sv_active v \<and> sv_spawned v' = sv_spawned v
    \<and> db_operations (storeOf v') = db_operations (storeOf v) \<and> db_leases (storeOf v') = db_leases (storeOf v)
    \<and> (\<forall>reply. r = Inr reply \<longrightarrow> (\<exists>res. op_status op = ODone \<and> op_result op = Some res \<and> reply = Replayed (replayedAs (op_runId op) res)))
    \<and> (\<forall>f reply. r = Inr reply \<and> xo_inputFingerprint o' = Some f \<and> f \<noteq> [] \<longrightarrow> op_inputFingerprint op = f)"
proof -
  from execute_replays [OF assms(1,2)] assms(3)
  have "idleStep v v'" and ans: "\<And>x. r = Inr x \<Longrightarrow> replayOf op x \<and> (\<forall>f. xo_inputFingerprint o' = Some f \<and> f \<noteq> [] \<longrightarrow> op_inputFingerprint op = f)"
    unfolding answers_def using idle_refl by blast+
  then show ?thesis
    unfolding idleStep_def sameTables_def using ans unfolding replayOf_def by blast
qed

theorem recorded_request_replays_witness:
  "sv_spawned (snd (executeProcess demoEnv 20 demoRequest (idle (demoDomain\<lparr>dm_store := demo5\<rparr>)))) = []"
proof -
  let ?v = "idle (demoDomain\<lparr>dm_store := demo5\<rparr>)"
  obtain r v' where run: "executeProcess demoEnv 20 demoRequest ?v = (r, v')" by fastforce
  have "getOperation (xo_opId demoRequest) (storeOf ?v) = Some (demoOp\<lparr>op_status := ODone, op_result := Some demoResult\<rparr>)"
    by (simp add: idle_def demo5_def demoRequest_def getOperation_def rowOf_def demoOp_def)
  from recorded_request_replays [OF _ this run] run show ?thesis by (simp add: idle_def)
qed

section \<open>Success\<close>

text \<open>An operation whose process has not been seen to exit, and that nobody asked to stop.\<close>

fun beforeExit :: "Stage \<Rightarrow> bool" where
  "beforeExit (AwaitResources _) = True"
| "beforeExit AwaitSpawn = True"
| "beforeExit (Aborting _) = True"
| "beforeExit Activated = True"
| "beforeExit (Racing _) = True"
| "beforeExit _ = False"

definition undisturbed :: "inflight \<Rightarrow> bool" where
  "undisturbed x \<longleftrightarrow> beforeExit (if_stage x) \<and> if_stop x = StopNone \<and> if_reason x = None \<and> op_result (if_op x) = None"

lemma undisturbed_ok: "undisturbed x \<Longrightarrow> objOk L i x"
  by (cases "if_stage x") (simp_all add: undisturbed_def objOk_def)


lemma recorded_success: "(case op_result o' of Some (ResProcess r) \<Rightarrow> pr_status r = PSucceeded | _ \<Rightarrow> False) \<Longrightarrow>
    \<exists>r. op_result o' = Some (ResProcess r) \<and> pr_status r = PSucceeded"
  by (auto split: option.split_asm OperationResult.split_asm)

lemma demo_success: "\<exists>o' \<in> set (db_operations (storeOf (run demoEnv demoEnd demoRacing))). op_id o' = ''op1''
    \<and> (\<exists>r. op_result o' = Some (ResProcess r) \<and> pr_status r = PSucceeded)"
proof -
  have "list_ex (\<lambda>o'. op_id o' = ''op1'' \<and> (case op_result o' of Some (ResProcess r) \<Rightarrow> pr_status r = PSucceeded | _ \<Rightarrow> False))
      (db_operations (storeOf (run demoEnv demoEnd demoRacing)))"
    by code_simp
  then show ?thesis unfolding list_ex_iff using recorded_success by blast
qed


end
