(* ===== verification/WorkspaceTypes.thy ===== *)
theory WorkspaceTypes
  imports Envelope
begin

text \<open>
  What the workspace modules share: the entries of a write set and of an observation log
  (\<open>src/src/workspace/transactions.ts\<close>, also in \<open>incremental-index.ts\<close>), their JSON form in
  the journal and its reading. A JavaScript number is an \<open>int\<close> here.
\<close>

section \<open>Write sets\<close>

datatype ChangeStatus = Added | Deleted | Modified | TypeChanged

fun changeStr :: "ChangeStatus \<Rightarrow> string" where
  "changeStr Added = ''A''"
| "changeStr Deleted = ''D''"
| "changeStr Modified = ''M''"
| "changeStr TypeChanged = ''T''"

record WriteEntry =
  we_status :: ChangeStatus
  we_path :: string

definition writeJson :: "WriteEntry \<Rightarrow> json" where
  "writeJson w = JObj [(''status'', JStr (changeStr (we_status w))), (''path'', JStr (we_path w))]"

definition readChange :: "string \<Rightarrow> ChangeStatus option" where
  "readChange s = find (\<lambda>c. changeStr c = s) [Added, Deleted, Modified, TypeChanged]"

definition readWrite :: "json \<Rightarrow> WriteEntry option" where
  "readWrite j = (case (jfield j ''status'', jfield j ''path'') of
     (JStr s, JStr p) \<Rightarrow> map_option (\<lambda>c. \<lparr>we_status = c, we_path = p\<rparr>) (readChange s)
   | _ \<Rightarrow> None)"

section \<open>Reading JSON back\<close>

text \<open>All values, or nothing.\<close>

fun allValues :: "'a option list \<Rightarrow> 'a list option" where
  "allValues [] = Some []"
| "allValues (x # xs) = (case x of None \<Rightarrow> None | Some y \<Rightarrow> map_option ((#) y) (allValues xs))"

definition readList :: "(json \<Rightarrow> 'a option) \<Rightarrow> json \<Rightarrow> 'a list option" where
  "readList f j = (case j of JArr xs \<Rightarrow> allValues (map f xs) | _ \<Rightarrow> None)"

fun readInt :: "json \<Rightarrow> int option" where
  "readInt (JNum n) = Some n"
| "readInt _ = None"

text \<open>An optional field: \<open>undefined\<close> reads as absent.\<close>

definition readOptional :: "(json \<Rightarrow> 'a option) \<Rightarrow> json \<Rightarrow> 'a option option" where
  "readOptional f j = (if j = JUndef then Some None else map_option Some (f j))"

definition listJson :: "('a \<Rightarrow> json) \<Rightarrow> 'a list \<Rightarrow> json" where
  "listJson f xs = JArr (map f xs)"

lemma readChange_str [simp]: "readChange (changeStr c) = Some c"
  by (cases c) (simp_all add: readChange_def)

lemma readWrite_json [simp]: "readWrite (writeJson w) = Some w"
  by (simp add: readWrite_def writeJson_def)

lemma allValues_map:
  "(\<And>x. x \<in> set xs \<Longrightarrow> f (g x) = Some x) \<Longrightarrow> allValues (map (\<lambda>x. f (g x)) xs) = Some xs"
  by (induction xs) auto

lemma readList_json:
  "(\<And>x. x \<in> set xs \<Longrightarrow> f (g x) = Some x) \<Longrightarrow> readList f (listJson g xs) = Some xs"
  by (simp add: readList_def listJson_def comp_def allValues_map)

lemma readInts [simp]: "readList readInt (listJson JNum ns) = Some ns"
  by (rule readList_json) simp

lemma readStrings [simp]: "readList jstring (listJson JStr ss) = Some ss"
  by (rule readList_json) simp

lemma readWrites [simp]: "readList readWrite (listJson writeJson ws) = Some ws"
  by (rule readList_json) simp

text \<open>What the journal keeps of a payload: plain values pass unchanged.\<close>

lemma jsonItems_plain: "(\<And>x. x \<in> set xs \<Longrightarrow> jsonValue x = Inr x) \<Longrightarrow> jsonItems xs = Inr xs"
  by (induction xs) auto

lemma jsonValue_list:
  assumes "\<And>x. x \<in> set xs \<Longrightarrow> jsonValue (f x) = Inr (f x)"
  shows "jsonValue (listJson f xs) = Inr (listJson f xs)"
proof -
  have "jsonItems (map f xs) = Inr (map f xs)" by (rule jsonItems_plain) (auto simp: assms)
  then show ?thesis by (simp add: listJson_def)
qed

lemma jsonValue_strings [simp]: "jsonValue (listJson JStr ss) = Inr (listJson JStr ss)"
  by (rule jsonValue_list) simp

lemma jsonValue_ints [simp]: "jsonValue (listJson JNum ns) = Inr (listJson JNum ns)"
  by (rule jsonValue_list) simp

lemma plain_write_keys [simp]: "\<not> SECRET_KEY ''status''" "\<not> SECRET_KEY ''path''"
  by code_simp+

lemma jsonValue_writes [simp]: "jsonValue (listJson writeJson ws) = Inr (listJson writeJson ws)"
  by (rule jsonValue_list) (simp add: writeJson_def)

section \<open>Observation logs\<close>

text \<open>\<open>call\<close> is opaque to the kernel.\<close>

record ObservationEntry =
  obe_kind :: string
  obe_call :: json
  obe_resultHash :: "string option"
  obe_cutoffHash :: "string option"

definition observationJson :: "ObservationEntry \<Rightarrow> json" where
  "observationJson e = JObj [(''kind'', JStr (obe_kind e)), (''call'', obe_call e),
     (''resultHash'', optJ JStr (obe_resultHash e)), (''cutoffHash'', optJ JStr (obe_cutoffHash e))]"

definition readObservation :: "json \<Rightarrow> ObservationEntry option" where
  "readObservation j = (case (jfield j ''kind'', readOptional jstring (jfield j ''resultHash''),
       readOptional jstring (jfield j ''cutoffHash'')) of
     (JStr k, Some r, Some c) \<Rightarrow> Some \<lparr>obe_kind = k, obe_call = jfield j ''call'', obe_resultHash = r, obe_cutoffHash = c\<rparr>
   | _ \<Rightarrow> None)"

end
