(* ===== verification/CausalGraph.thy ===== *)
theory CausalGraph
  imports Store WorkspaceTypes
begin

text \<open>
  The causal graph of the work of agents: \<open>src/src/workspace/causal-graph.ts\<close>. A step is an
  event of the journal, with the sequence numbers of the steps it used; the graph is read from
  the journal on every call. Each method of \<open>WorkspaceCausalGraph\<close> is a function of the store:
  recording a step, the nodes up to a point in history, the ancestors of a node, the view of
  some heads, the plan of a recomputation (a single sweep in journal order) and its explanation
  (a breadth-first search from every changed node). JavaScript sets and maps are lists in
  insertion order; a read of a node that no step wrote is \<open>CausalMalformed\<close>.
\<close>

section \<open>Nodes\<close>

record CausalStep =
  cs_txId :: string
  cs_actorId :: string
  cs_observation :: ObservationEntry
  cs_dependsOn :: "int list"
  cs_writes :: "WriteEntry list option"

record CausalNode = CausalStep +
  cn_seq :: int
  cn_runId :: string
  cn_baseSnapshotId :: string

datatype CausalError =
    CausalInvalid string
  | CausalMalformed
  | CausalStore KError

definition MAX_SEQ :: int where
  "MAX_SEQ = 2 ^ 53 - 1"

definition isSafeInteger :: "int \<Rightarrow> bool" where
  "isSafeInteger n \<longleftrightarrow> \<bar>n\<bar> \<le> MAX_SEQ"

definition causalNodeJson :: "CausalNode \<Rightarrow> json" where
  "causalNodeJson n = JObj [(''txId'', JStr (cs_txId n)), (''actorId'', JStr (cs_actorId n)),
     (''observation'', observationJson (cs_observation n)),
     (''dependsOn'', listJson JNum (cs_dependsOn n)), (''writes'', optJ (listJson writeJson) (cs_writes n)),
     (''runId'', JStr (cn_runId n)), (''baseSnapshotId'', JStr (cn_baseSnapshotId n))]"

definition readNode :: "int \<Rightarrow> json \<Rightarrow> CausalNode option" where
  "readNode seq j =
     (case (jfield j ''txId'', jfield j ''actorId'', readObservation (jfield j ''observation''),
            readList readInt (jfield j ''dependsOn''), readOptional (readList readWrite) (jfield j ''writes''),
            jfield j ''runId'', jfield j ''baseSnapshotId'') of
        (JStr t, JStr a, Some obs, Some deps, Some ws, JStr r, JStr b) \<Rightarrow>
          Some \<lparr>cs_txId = t, cs_actorId = a, cs_observation = obs, cs_dependsOn = deps, cs_writes = ws,
                cn_seq = seq, cn_runId = r, cn_baseSnapshotId = b\<rparr>
      | _ \<Rightarrow> None)"

fun nodesOf :: "JournalEvent list \<Rightarrow> CausalError + CausalNode list" where
  "nodesOf [] = Inr []"
| "nodesOf (e # es) =
     (if jfield (ev_payload e) ''version'' \<noteq> JNum 1 then Inl (CausalInvalid ''Unsupported causal journal version'')
      else case readNode (ev_seq e) (jfield (ev_payload e) ''node'') of
          None \<Rightarrow> Inl CausalMalformed
        | Some n \<Rightarrow> (case nodesOf es of Inl f \<Rightarrow> Inl f | Inr ns \<Rightarrow> Inr (n # ns)))"

definition graphNodes :: "string \<Rightarrow> int \<Rightarrow> store \<Rightarrow> CausalError + CausalNode list" where
  "graphNodes domainId atSeq s =
     (if \<not> isSafeInteger atSeq \<or> atSeq < 0 then Inl (CausalInvalid ''Invalid causal history sequence'')
      else nodesOf (getJournalEvents domainId 0 (Some atSeq) (Some [''CAUSAL_STEP'']) s))"

section \<open>Recording a step\<close>

definition isBlank :: "string \<Rightarrow> bool" where
  "isBlank s \<longleftrightarrow> list_all (\<lambda>c. let n = of_char c :: nat in (9 \<le> n \<and> n \<le> 13) \<or> n = 32 \<or> n = 160) s"

text \<open>\<open>structuredClone\<close> throws on functions.\<close>

fun cloneable :: "json \<Rightarrow> bool" where
  "cloneable JOther = False"
| "cloneable (JArr xs) = list_all cloneable xs"
| "cloneable (JObj fs) = list_all (\<lambda>(k, v). cloneable v) fs"
| "cloneable _ = True"

definition txHistory :: "string \<Rightarrow> string \<Rightarrow> store \<Rightarrow> JournalEvent list" where
  "txHistory domainId txId s = filter (\<lambda>e. jfield (ev_payload e) ''txId'' = JStr txId)
     (getJournalEvents domainId 0 (Some MAX_SEQ)
       (Some [''TX_BEGUN'', ''TX_COMMITTING'', ''TX_COMMITTED'', ''TX_CONFLICTED'', ''TX_ABORTED'']) s)"

definition stepOpen :: "string \<Rightarrow> JournalEvent list \<Rightarrow> bool" where
  "stepOpen txId history \<longleftrightarrow>
     (startsWith txId ''gateway:'' \<and> history = [])
     \<or> (list_ex (\<lambda>e. ev_type e = ''TX_BEGUN'') history
        \<and> \<not> list_ex (\<lambda>e. ev_type e \<in> {''TX_COMMITTING'', ''TX_COMMITTED'', ''TX_CONFLICTED'', ''TX_ABORTED''}) history)"

definition nodeOf :: "CausalStep \<Rightarrow> JournalEvent list \<Rightarrow> CausalNode" where
  "nodeOf step history = (let begun = find (\<lambda>e. ev_type e = ''TX_BEGUN'') history in
     \<lparr>cs_txId = cs_txId step, cs_actorId = cs_actorId step, cs_observation = cs_observation step,
      cs_dependsOn = uniqueList (cs_dependsOn step), cs_writes = cs_writes step, cn_seq = 0,
      cn_runId = (case coalesce (Option.bind begun ev_runId) None of Some r \<Rightarrow> r
        | None \<Rightarrow> if startsWith (cs_txId step) ''gateway:'' \<and> history = []
                  then drop (length ''gateway:'') (cs_txId step) else cs_txId step),
      cn_baseSnapshotId = (case Option.bind begun (\<lambda>e. jstring (jfield (ev_payload e) ''baseSnapshotId'')) of
          Some b \<Rightarrow> b | None \<Rightarrow> ''gateway'')\<rparr>)"

definition asCausal :: "('s, KError, 'a) act \<Rightarrow> ('s, CausalError, 'a) act" where
  "asCausal m = (\<lambda>s. case m s of (Inl e, t) \<Rightarrow> (Inl (CausalStore e), t) | (Inr x, t) \<Rightarrow> (Inr x, t))"

definition stepEvent :: "string \<Rightarrow> millis \<Rightarrow> CausalNode \<Rightarrow> JournalEvent" where
  "stepEvent domainId now n = mkEvent domainId (Some (cn_runId n)) None ''CAUSAL_STEP''
     (JObj [(''version'', JNum 1), (''node'', causalNodeJson n)]) now"

definition recordStep :: "string \<Rightarrow> millis \<Rightarrow> CausalStep \<Rightarrow> (store, CausalError, CausalNode) act" where
  "recordStep domainId now step =
     thenDo (guardE (\<not> isBlank (cs_actorId step)
        \<and> (case obe_resultHash (cs_observation step) of None \<Rightarrow> False | Some h \<Rightarrow> \<not> isBlank h))
        (CausalInvalid ''Causal steps require an actor and a nonempty result hash''))
    (thenDo (guardE (obe_kind (cs_observation step) \<in> {''observe'', ''mutate''})
        (CausalInvalid ''Invalid causal observation kind''))
    (thenDo (guardE (\<not> (obe_kind (cs_observation step) = ''observe''
            \<and> (case cs_writes step of None \<Rightarrow> False | Some ws \<Rightarrow> ws \<noteq> [])))
        (CausalInvalid ''An observation cannot declare writes''))
    (\<lambda>s. let history = txHistory domainId (cs_txId step) s in
       if \<not> stepOpen (cs_txId step) history
       then (Inl (CausalInvalid ''Causal steps require an open workspace transaction''), s)
       else case graphNodes domainId MAX_SEQ s of
           Inl e \<Rightarrow> (Inl e, s)
         | Inr ns \<Rightarrow>
             if list_ex (\<lambda>q. \<not> isSafeInteger q \<or> q \<notin> cn_seq ` set ns) (cs_dependsOn step)
             then (Inl (CausalInvalid ''Causal dependencies must reference existing nodes in this domain''), s)
             else if \<not> cloneable (causalNodeJson (nodeOf step history))
             then (Inl (CausalInvalid ''DataCloneError''), s)
             else andThen (asCausal (recordEventAndTransitionState (stepEvent domainId now (nodeOf step history))))
                    (\<lambda>q. ret (nodeOf step history\<lparr>cn_seq := q\<rparr>)) s)))"

section \<open>Ancestors and views\<close>

text \<open>The walk over the nodes in reverse journal order.\<close>

fun collectNeeded :: "CausalNode list \<Rightarrow> int list \<Rightarrow> int list" where
  "collectNeeded [] needed = needed"
| "collectNeeded (n # ns) needed =
     collectNeeded ns (if cn_seq n \<in> set needed then fold setAdd (cs_dependsOn n) needed else needed)"

definition ancestors :: "string \<Rightarrow> int \<Rightarrow> store \<Rightarrow> CausalError + CausalNode list" where
  "ancestors domainId seq s = (case graphNodes domainId seq s of Inl e \<Rightarrow> Inl e
     | Inr ns \<Rightarrow> (case find (\<lambda>n. cn_seq n = seq) ns of
         None \<Rightarrow> Inl (CausalInvalid ''Unknown causal node'')
       | Some target \<Rightarrow>
           (let needed = collectNeeded (rev ns) (uniqueList (cs_dependsOn target))
            in Inr (filter (\<lambda>n. cn_seq n \<in> set needed) ns))))"

record CausalView =
  cv_heads :: "int list"
  cv_nodes :: "CausalNode list"

definition causalView :: "string \<Rightarrow> int list \<Rightarrow> int \<Rightarrow> store \<Rightarrow> CausalError + CausalView" where
  "causalView domainId heads atSeq s =
     (if \<not> isSafeInteger atSeq \<or> atSeq < 0 then Inl (CausalInvalid ''Invalid causal history sequence'')
      else if list_ex (\<lambda>q. \<not> isSafeInteger q \<or> q < 1 \<or> atSeq < q) heads
      then Inl (CausalInvalid ''Causal view heads are absent from this causal history'')
      else case graphNodes domainId (fold max heads 0) s of Inl e \<Rightarrow> Inl e
        | Inr ns \<Rightarrow>
            if list_ex (\<lambda>q. \<not> isSafeInteger q \<or> q \<notin> cn_seq ` set ns) heads
            then Inl (CausalInvalid ''Causal view heads are absent from this causal history'')
            else (let needed = collectNeeded (rev ns) (uniqueList heads)
                  in Inr \<lparr>cv_heads = uniqueList heads, cv_nodes = filter (\<lambda>n. cn_seq n \<in> set needed) ns\<rparr>))"

section \<open>Recomputation\<close>

text \<open>The sweep in journal order: what is invalid, and what is not.\<close>

fun sweep :: "CausalNode list \<Rightarrow> int list \<Rightarrow> CausalNode list \<times> CausalNode list" where
  "sweep [] invalid = ([], [])"
| "sweep (n # ns) invalid =
     (let invalid' = (if list_ex (\<lambda>d. d \<in> set invalid) (cs_dependsOn n) then setAdd (cn_seq n) invalid else invalid);
          rest = sweep ns invalid'
      in if cn_seq n \<in> set invalid' then (n # fst rest, snd rest) else (fst rest, n # snd rest))"

record RecomputationPlan =
  rp_invalidated :: "CausalNode list"
  rp_unaffected :: "CausalNode list"

definition planNodes :: "string \<Rightarrow> int \<Rightarrow> int list option \<Rightarrow> store \<Rightarrow> CausalError + CausalNode list" where
  "planNodes domainId atSeq heads s = (case heads of
     None \<Rightarrow> graphNodes domainId atSeq s
   | Some hs \<Rightarrow> (case causalView domainId hs atSeq s of Inl e \<Rightarrow> Inl e | Inr v \<Rightarrow> Inr (cv_nodes v)))"

definition planRecomputation ::
    "string \<Rightarrow> int list \<Rightarrow> int \<Rightarrow> int list option \<Rightarrow> store \<Rightarrow> CausalError + RecomputationPlan" where
  "planRecomputation domainId changed atSeq heads s = (case planNodes domainId atSeq heads s of Inl e \<Rightarrow> Inl e
     | Inr ns \<Rightarrow>
         if list_ex (\<lambda>q. q \<notin> cn_seq ` set ns) changed
         then Inl (CausalInvalid ''Changed evidence is absent from this causal history'')
         else (let r = sweep ns (uniqueList changed)
               in Inr \<lparr>rp_invalidated = fst r, rp_unaffected = snd r\<rparr>))"

section \<open>Explanations\<close>

text \<open>\<open>children.get(d) ?? []\<close> with the new dependent pushed.\<close>

definition addChild :: "int \<Rightarrow> int \<Rightarrow> (int, int list) jsmap \<Rightarrow> (int, int list) jsmap" where
  "addChild n d ch = mapSet d ((case mapGet ch d of None \<Rightarrow> [] | Some cs \<Rightarrow> cs) @ [n]) ch"

definition childMap :: "CausalNode list \<Rightarrow> (int, int list) jsmap" where
  "childMap ns = fold (\<lambda>n. fold (addChild (cn_seq n)) (cs_dependsOn n)) ns []"

definition childrenOf :: "(int, int list) jsmap \<Rightarrow> int \<Rightarrow> int list" where
  "childrenOf ch q = (case mapGet ch q of None \<Rightarrow> [] | Some cs \<Rightarrow> cs)"

text \<open>The chain of parents up to the seed, whose parent is \<open>null\<close>.\<close>

fun chain :: "nat \<Rightarrow> (int, int option) jsmap \<Rightarrow> int \<Rightarrow> int list" where
  "chain 0 parents q = []"
| "chain (Suc k) parents q = q # (case mapGet parents q of Some (Some p) \<Rightarrow> chain k parents p | _ \<Rightarrow> [])"

definition visitChild :: "int \<Rightarrow> int \<Rightarrow> (int, int option) jsmap \<times> int list \<Rightarrow> (int, int option) jsmap \<times> int list" where
  "visitChild q c st = (if mapGet (fst st) c \<noteq> None then st
     else (mapSet c (Some q) (fst st), snd st @ [c]))"

definition unseen :: "(int, int list) jsmap \<Rightarrow> (int, int option) jsmap \<Rightarrow> nat" where
  "unseen ch parents = card {c \<in> \<Union> (set ` snd ` set ch). mapGet parents c = None}"

lemma childrenOf_bound: "c \<in> set (childrenOf ch q) \<Longrightarrow> c \<in> \<Union> (set ` snd ` set ch)"
  by (cases "mapGet ch q") (auto simp: childrenOf_def dest: mapGet_Some_mem intro!: bexI [of _ "(q, _)"])

lemma visitChild_unseen:
  assumes "c \<in> \<Union> (set ` snd ` set ch)"
  shows "unseen ch (fst (visitChild q c st)) + length (snd (visitChild q c st))
       = unseen ch (fst st) + length (snd st)"
proof (cases "mapGet (fst st) c = None")
  case True
  let ?U = "{x \<in> \<Union> (set ` snd ` set ch). mapGet (fst st) x = None}"
  have fin: "finite ?U" by simp
  have mem: "c \<in> ?U" using assms True by simp
  have "{x \<in> \<Union> (set ` snd ` set ch). mapGet (mapSet c (Some q) (fst st)) x = None} = ?U - {c}" by auto
  then have "unseen ch (fst (visitChild q c st)) = card (?U - {c})"
    using True by (simp add: visitChild_def unseen_def)
  moreover have "card ?U = Suc (card (?U - {c}))" using fin mem by (rule card.remove)
  ultimately show ?thesis using True by (simp add: visitChild_def unseen_def)
qed (simp add: visitChild_def)

lemma visitChildren_unseen:
  assumes "set cs \<subseteq> \<Union> (set ` snd ` set ch)"
  shows "unseen ch (fst (fold (visitChild q) cs st)) + length (snd (fold (visitChild q) cs st))
       = unseen ch (fst st) + length (snd st)"
  using assms by (induction cs arbitrary: st) (simp_all add: visitChild_unseen)

text \<open>The queue from the loop index on; every visit reports the path from the seed.\<close>

function searchFrom :: "(int, int list) jsmap \<Rightarrow> (int, int option) jsmap \<Rightarrow> int list \<Rightarrow> (int \<times> int list) list" where
  "searchFrom ch parents [] = []"
| "searchFrom ch parents (q # queue) =
     (q, rev (chain (length parents) parents q))
     # (let st = fold (visitChild q) (childrenOf ch q) (parents, queue) in searchFrom ch (fst st) (snd st))"
  by pat_completeness auto
termination
proof (relation "measure (\<lambda>(ch, parents, queue). unseen ch parents + length queue)", goal_cases)
  case (2 ch parents q queue st)
  have "set (childrenOf ch q) \<subseteq> \<Union> (set ` snd ` set ch)" using childrenOf_bound by blast
  from visitChildren_unseen [OF this, of q "(parents, queue)"] show ?case
    using 2 by (cases "fold (visitChild q) (childrenOf ch q) (parents, queue)") simp
qed simp

declare searchFrom.simps [simp del]

record Cause =
  ca_changedSeq :: int
  ca_path :: "int list"

definition pushCause :: "int \<Rightarrow> int \<times> int list \<Rightarrow> (int, Cause list) jsmap \<Rightarrow> (int, Cause list) jsmap" where
  "pushCause seed v explained = (case mapGet explained (fst v) of None \<Rightarrow> explained
     | Some cs \<Rightarrow> mapSet (fst v) (cs @ [\<lparr>ca_changedSeq = seed, ca_path = snd v\<rparr>]) explained)"

definition explainSeed :: "(int, int list) jsmap \<Rightarrow> int \<Rightarrow> (int, Cause list) jsmap \<Rightarrow> (int, Cause list) jsmap" where
  "explainSeed ch seed = fold (pushCause seed) (searchFrom ch [(seed, None)] [seed])"

definition explainRecomputation ::
    "string \<Rightarrow> int list \<Rightarrow> int \<Rightarrow> int list option \<Rightarrow> store
      \<Rightarrow> CausalError + RecomputationPlan \<times> (int, Cause list) jsmap" where
  "explainRecomputation domainId changed atSeq heads s =
     (case planRecomputation domainId changed atSeq heads s of Inl e \<Rightarrow> Inl e
      | Inr plan \<Rightarrow> Inr (plan,
          fold (explainSeed (childMap (rp_invalidated plan))) (sort (uniqueList changed))
            (map (\<lambda>n. (cn_seq n, [])) (rp_invalidated plan))))"

definition observationLog :: "string \<Rightarrow> string \<Rightarrow> int \<Rightarrow> store \<Rightarrow> CausalError + ObservationEntry list" where
  "observationLog domainId txId atSeq s = (case graphNodes domainId atSeq s of Inl e \<Rightarrow> Inl e
     | Inr ns \<Rightarrow> Inr (map cs_observation (filter (\<lambda>n. cs_txId n = txId) ns)))"

end
