(* ===== verification/CausalSearch.thy ===== *)
theory CausalSearch
  imports CausalLaws
begin

text \<open>
  The breadth-first search behind \<open>explainRecomputation\<close>. The invariant \<open>searching\<close> has a depth
  for every node seen: the queue is sorted by depth, a processed node has all its children seen,
  at most one deeper, and the chain of parents of a node is a path of that length. So every path
  reported is a shortest one (\<open>search_shortest\<close>), and every reachable node is reported once.
\<close>

section \<open>The children\<close>

lemma addChild_children:
  "c \<in> set (childrenOf (addChild n d ch) q) \<longleftrightarrow> c \<in> set (childrenOf ch q) \<or> (c = n \<and> q = d)"
  by (auto simp: childrenOf_def addChild_def split: option.splits)

lemma addChildren_children:
  "c \<in> set (childrenOf (fold (addChild n) ds ch) q) \<longleftrightarrow> c \<in> set (childrenOf ch q) \<or> (c = n \<and> q \<in> set ds)"
  by (induction ds arbitrary: ch) (auto simp: addChild_children)

lemma childMap_children: "c \<in> set (childrenOf (childMap ns) q) \<longleftrightarrow> (c, q) \<in> dependencies ns"
proof -
  have "c \<in> set (childrenOf (fold (\<lambda>n. fold (addChild (cn_seq n)) (cs_dependsOn n)) ns ch) q)
      \<longleftrightarrow> c \<in> set (childrenOf ch q) \<or> (c, q) \<in> dependencies ns" for ch
    by (induction ns arbitrary: ch) (auto simp: addChildren_children edges_Cons)
  then show ?thesis by (simp add: childMap_def childrenOf_def)
qed

section \<open>Chains of parents\<close>

text \<open>\<open>d\<close> is a depth function of the parents, with the seed at depth 0.\<close>

definition rooted :: "(int, int list) jsmap \<Rightarrow> int \<Rightarrow> (int \<Rightarrow> nat) \<Rightarrow> (int, int option) jsmap \<Rightarrow> bool" where
  "rooted ch seed d ps \<longleftrightarrow> mapGet ps seed = Some None \<and> d seed = 0
     \<and> (\<forall>c. mapGet ps c = Some None \<longrightarrow> c = seed)
     \<and> (\<forall>c p. mapGet ps c = Some (Some p) \<longrightarrow>
          d c = Suc (d p) \<and> mapGet ps p \<noteq> None \<and> c \<in> set (childrenOf ch p))
     \<and> (\<forall>c. mapGet ps c \<noteq> None \<longrightarrow> d c < length ps)"

abbreviation childOf :: "(int, int list) jsmap \<Rightarrow> int \<Rightarrow> int \<Rightarrow> bool" where
  "childOf ch q c \<equiv> c \<in> set (childrenOf ch q)"

lemma chain_path:
  assumes "rooted ch seed d ps" and "mapGet ps q \<noteq> None" and "d q < k"
  shows "length (chain k ps q) = Suc (d q) \<and> last (chain k ps q) = seed
       \<and> hd (chain k ps q) = q \<and> successively (\<lambda>c p. childOf ch p c) (chain k ps q)"
  using assms(2,3)
proof (induction k arbitrary: q)
  case (Suc k)
  show ?case
  proof (cases "mapGet ps q")
    case (Some r)
    show ?thesis
    proof (cases r)
      case None
      then show ?thesis using Some assms(1) by (auto simp: rooted_def)
    next
      case (Some p)
      with \<open>mapGet ps q = Some r\<close> assms(1)
      have p: "d q = Suc (d p)" "mapGet ps p \<noteq> None" "childOf ch p q" by (auto simp: rooted_def)
      with Suc.prems have "d p < k" by simp
      from Suc.IH [OF p(2) this] obtain x xs where "chain k ps p = x # xs"
        by (cases "chain k ps p") auto
      then show ?thesis
        using Suc.IH [OF p(2) \<open>d p < k\<close>] Some \<open>mapGet ps q = Some r\<close> p by (auto simp: successively_Cons)
    qed
  qed (use Suc.prems in simp)
qed simp

lemma reported_path:
  assumes "rooted ch seed d ps" and "mapGet ps q \<noteq> None"
  defines "p \<equiv> rev (chain (length ps) ps q)"
  shows "length p = Suc (d q)" and "hd p = seed" and "last p = q" and "successively (childOf ch) p"
proof -
  have "d q < length ps" using assms by (simp add: rooted_def)
  from chain_path [OF assms(1,2) this]
  have c: "length (chain (length ps) ps q) = Suc (d q)" "last (chain (length ps) ps q) = seed"
    "hd (chain (length ps) ps q) = q" "successively (\<lambda>c p. childOf ch p c) (chain (length ps) ps q)"
    by auto
  then have "chain (length ps) ps q \<noteq> []" by auto
  with c show "length p = Suc (d q)" "hd p = seed" "last p = q" "successively (childOf ch) p"
    by (simp_all add: p_def hd_rev last_rev successively_rev)
qed

section \<open>The invariant\<close>

text \<open>
  \<open>dn\<close> are the processed nodes, \<open>qu\<close> those in the queue. While \<open>q\<close> is processed, \<open>cs\<close> are
  the children seen to already.
\<close>

definition searching ::
    "(int, int list) jsmap \<Rightarrow> int \<Rightarrow> (int \<Rightarrow> nat) \<Rightarrow> (int, int option) jsmap \<Rightarrow> int list \<Rightarrow> int list \<Rightarrow> bool" where
  "searching ch seed d ps dn qu \<longleftrightarrow> rooted ch seed d ps
     \<and> (\<forall>c. mapGet ps c \<noteq> None \<longleftrightarrow> c \<in> set (dn @ qu)) \<and> distinct (dn @ qu)
     \<and> sorted (map d (dn @ qu))
     \<and> (\<forall>x \<in> set dn. \<forall>c \<in> set (childrenOf ch x). mapGet ps c \<noteq> None \<and> d c \<le> Suc (d x))"

definition visiting ::
    "(int, int list) jsmap \<Rightarrow> int \<Rightarrow> (int \<Rightarrow> nat) \<Rightarrow> int list \<Rightarrow> int \<Rightarrow> int list
      \<Rightarrow> (int, int option) jsmap \<times> int list \<Rightarrow> bool" where
  "visiting ch seed d dn q cs st \<longleftrightarrow> rooted ch seed d (fst st)
     \<and> (\<forall>c. mapGet (fst st) c \<noteq> None \<longleftrightarrow> c \<in> set (dn @ [q] @ snd st)) \<and> distinct (dn @ [q] @ snd st)
     \<and> sorted (map d (dn @ [q] @ snd st)) \<and> (\<forall>c \<in> set (snd st). d c \<le> Suc (d q))
     \<and> (\<forall>x \<in> set dn. \<forall>c \<in> set (childrenOf ch x). mapGet (fst st) c \<noteq> None \<and> d c \<le> Suc (d x))
     \<and> (\<forall>c \<in> set cs. mapGet (fst st) c \<noteq> None \<and> d c \<le> Suc (d q))"

lemma length_mapSet_new: "mapGet m k = None \<Longrightarrow> length (mapSet k v m) = Suc (length m)"
  by (auto simp: mapSet_def mapGet_def map_of_eq_None_iff)

lemma rooted_add:
  assumes "rooted ch seed d ps" and "mapGet ps c = None" and "mapGet ps q \<noteq> None" and "childOf ch q c"
  shows "rooted ch seed (d(c := Suc (d q))) (mapSet c (Some q) ps)"
proof -
  define e where "e = d(c := Suc (d q))"
  define m where "m = mapSet c (Some q) ps"
  have seed: "mapGet ps seed = Some None" "d seed = 0" using assms(1) unfolding rooted_def by blast+
  then have ne: "c \<noteq> q" "c \<noteq> seed" using assms(2,3) by auto
  have bound: "d x < length ps" if "mapGet ps x \<noteq> None" for x
    using that assms(1) unfolding rooted_def by blast
  have len: "length m = Suc (length ps)" using assms(2) by (simp add: m_def length_mapSet_new)
  have get: "mapGet m x = (if x = c then Some (Some q) else mapGet ps x)" for x by (simp add: m_def)
  have low: "e x < length m" if "mapGet m x \<noteq> None" for x
    using that bound [OF assms(3)] bound [of x] by (simp add: get len e_def split: if_splits)
  have up: "e x = Suc (e p) \<and> mapGet m p \<noteq> None \<and> childOf ch p x" if "mapGet m x = Some (Some p)" for x p
  proof (cases "x = c")
    case True
    then show ?thesis using that ne assms(3,4) by (simp add: get e_def)
  next
    case False
    then have "mapGet ps x = Some (Some p)" using that by (simp add: get)
    with assms(1) have "d x = Suc (d p)" "mapGet ps p \<noteq> None" "childOf ch p x"
      unfolding rooted_def by blast+
    then show ?thesis using False assms(2) by (auto simp: get e_def)
  qed
  have top: "x = seed" if "mapGet m x = Some None" for x
    using that assms(1) unfolding rooted_def get by (metis option.distinct(1) option.inject)
  have start: "mapGet m seed = Some None" "e seed = 0" using ne seed by (simp_all add: get e_def)
  have "rooted ch seed e m"
    unfolding rooted_def by (intro conjI allI impI) (fact start | erule top up low up [THEN conjunct1]
      up [THEN conjunct2, THEN conjunct1] up [THEN conjunct2, THEN conjunct2])+
  then show ?thesis by (simp add: e_def m_def)
qed

lemma visit_step:
  assumes "visiting ch seed d dn q cs st" and "childOf ch q c"
  shows "\<exists>d'. visiting ch seed d' dn q (cs @ [c]) (visitChild q c st)
      \<and> (\<forall>x. mapGet (fst st) x \<noteq> None \<longrightarrow> d' x = d x)"
proof (cases "mapGet (fst st) c")
  case (Some r)
  have "c \<in> set (dn @ [q] @ snd st)" using assms(1) Some by (auto simp: visiting_def)
  then have "d c \<le> Suc (d q)" using assms(1) by (auto simp: visiting_def sorted_append)
  then have "visiting ch seed d dn q (cs @ [c]) (visitChild q c st)"
    using assms(1) Some by (auto simp: visiting_def visitChild_def)
  then show ?thesis by auto
next
  case None
  let ?d = "d(c := Suc (d q))"
  have seen: "mapGet (fst st) x \<noteq> None \<longleftrightarrow> x \<in> set (dn @ [q] @ snd st)" for x
    using assms(1) by (simp add: visiting_def)
  have fresh: "c \<notin> set (dn @ [q] @ snd st)" using None seen by blast
  have new: "\<not> childOf ch x c" if "x \<in> set dn" for x
    using that assms(1) None unfolding visiting_def by blast
  have same: "?d x = d x" if "x \<in> set (dn @ [q] @ snd st)" for x using that fresh by auto
  have deep: "d x \<le> Suc (d q)" if "x \<in> set (dn @ [q] @ snd st)" for x
    using that assms(1) by (auto simp: visiting_def sorted_append)
  have "map ?d (dn @ [q] @ snd st @ [c]) = map d (dn @ [q] @ snd st) @ [Suc (d q)]"
    using same by (auto intro!: map_cong)
  moreover have "sorted (map d (dn @ [q] @ snd st) @ [Suc (d q)])"
    using assms(1) deep by (auto simp: visiting_def sorted_append)
  ultimately have "sorted (map ?d (dn @ [q] @ snd st @ [c]))" by (simp only:)
  moreover have "rooted ch seed ?d (mapSet c (Some q) (fst st))"
    using assms None seen by (intro rooted_add) (auto simp: visiting_def)
  moreover have keep: "?d x = d x" if "mapGet (fst st) x \<noteq> None" for x using that seen same by blast
  ultimately have "visiting ch seed ?d dn q (cs @ [c]) (visitChild q c st)"
    using assms(1) None fresh new unfolding visiting_def visitChild_def by auto
  with keep show ?thesis by blast
qed

lemma visitChild_seen: "mapGet (fst st) x \<noteq> None \<Longrightarrow> mapGet (fst (visitChild q c st)) x \<noteq> None"
  by (simp add: visitChild_def)

lemma visits_seen: "mapGet (fst st) x \<noteq> None \<Longrightarrow> mapGet (fst (fold (visitChild q) cs st)) x \<noteq> None"
  by (induction cs arbitrary: st) (simp_all add: visitChild_seen del: not_None_eq)

lemma visit_all:
  assumes "visiting ch seed d dn q vs st" and "set cs \<subseteq> set (childrenOf ch q)"
  shows "\<exists>d'. visiting ch seed d' dn q (vs @ cs) (fold (visitChild q) cs st)
      \<and> (\<forall>x. mapGet (fst st) x \<noteq> None \<longrightarrow> d' x = d x)"
  using assms
proof (induction cs arbitrary: d vs st)
  case (Cons c cs)
  from Cons.prems(2) have "childOf ch q c" by simp
  from visit_step [OF Cons.prems(1) this] obtain d1 where
    d1: "visiting ch seed d1 dn q (vs @ [c]) (visitChild q c st)"
      "\<forall>x. mapGet (fst st) x \<noteq> None \<longrightarrow> d1 x = d x" by blast
  from Cons.IH [OF d1(1)] Cons.prems(2) obtain d2 where
    d2: "visiting ch seed d2 dn q (vs @ c # cs) (fold (visitChild q) (c # cs) st)"
      "\<forall>x. mapGet (fst (visitChild q c st)) x \<noteq> None \<longrightarrow> d2 x = d1 x" by auto
  with d1(2) visitChild_seen show ?case by metis
qed auto

text \<open>One turn of the loop.\<close>

lemma search_turn:
  assumes "searching ch seed d ps dn (q # qu)"
    and "\<forall>c \<in> set qu. d c \<le> Suc (d q)"
  defines "st \<equiv> fold (visitChild q) (childrenOf ch q) (ps, qu)"
  shows "\<exists>d'. searching ch seed d' (fst st) (dn @ [q]) (snd st)
      \<and> (\<forall>c \<in> set (snd st). d' c \<le> Suc (d' q)) \<and> (\<forall>x. mapGet ps x \<noteq> None \<longrightarrow> d' x = d x)"
proof -
  have "visiting ch seed d dn q [] (ps, qu)"
    using assms(1,2) unfolding searching_def visiting_def by simp blast
  from visit_all [OF this, of "childrenOf ch q"] obtain d' where
    v: "visiting ch seed d' dn q (childrenOf ch q) st" "\<forall>x. mapGet ps x \<noteq> None \<longrightarrow> d' x = d x"
    unfolding st_def by auto
  then have "searching ch seed d' (fst st) (dn @ [q]) (snd st)"
    unfolding visiting_def searching_def by auto
  moreover have "\<forall>c \<in> set (snd st). d' c \<le> Suc (d' q)" using v(1) by (simp add: visiting_def)
  ultimately show ?thesis using v(2) by blast
qed

text \<open>The first of the rest of the queue is as deep as \<open>q\<close> or one deeper, so the bound moves on.\<close>

lemma queue_bound:
  assumes "searching ch seed d ps dn (q # qu)" and "\<forall>c \<in> set (q # qu). d c \<le> Suc b" and "b \<le> d q"
  shows "\<forall>c \<in> set qu. d c \<le> Suc (d q)"
  using assms by fastforce

definition shortestReport ::
    "(int, int list) jsmap \<Rightarrow> int \<Rightarrow> (int \<Rightarrow> nat) \<Rightarrow> (int \<times> int list) list \<Rightarrow> bool" where
  "shortestReport ch seed d out \<longleftrightarrow> (\<forall>(v, p) \<in> set out. length p = Suc (d v) \<and> hd p = seed \<and> last p = v
     \<and> successively (childOf ch) p)"

lemma search_run:
  assumes "searching ch seed d ps dn qu" and "\<forall>c \<in> set qu. d c \<le> Suc b" and "\<forall>c \<in> set qu. b \<le> d c"
  shows "\<exists>d' ps'. searching ch seed d' ps' (dn @ map fst (searchFrom ch ps qu)) []
      \<and> (\<forall>x. mapGet ps x \<noteq> None \<longrightarrow> d' x = d x) \<and> shortestReport ch seed d' (searchFrom ch ps qu)"
  using assms
proof (induction ch ps qu arbitrary: d dn b rule: searchFrom.induct)
  case (1 ch ps)
  then show ?case by (auto simp: searchFrom.simps shortestReport_def)
next
  case (2 ch ps q qu)
  let ?st = "fold (visitChild q) (childrenOf ch q) (ps, qu)"
  have bound: "\<forall>c \<in> set qu. d c \<le> Suc (d q)" using queue_bound [OF 2(2) 2(3)] 2(4) by simp
  from search_turn [OF 2(2) bound] obtain d1 where
    t: "searching ch seed d1 (fst ?st) (dn @ [q]) (snd ?st)"
       "\<forall>c \<in> set (snd ?st). d1 c \<le> Suc (d1 q)" "\<forall>x. mapGet ps x \<noteq> None \<longrightarrow> d1 x = d x" by blast
  have ge: "\<forall>c \<in> set (snd ?st). d1 q \<le> d1 c" using t(1) by (auto simp: searching_def sorted_append)
  from "2.IH" [OF refl t(1,2) ge] obtain d2 ps' where
    r: "searching ch seed d2 ps' ((dn @ [q]) @ map fst (searchFrom ch (fst ?st) (snd ?st))) []"
       "\<forall>x. mapGet (fst ?st) x \<noteq> None \<longrightarrow> d2 x = d1 x"
       "shortestReport ch seed d2 (searchFrom ch (fst ?st) (snd ?st))" by blast
  have q: "rooted ch seed d ps" "mapGet ps q \<noteq> None" using 2(2) by (simp_all add: searching_def)
  have same: "d2 x = d x" if "mapGet ps x \<noteq> None" for x
    using that t(3) r(2) visits_seen [of "(ps, qu)" x q "childrenOf ch q"] by simp
  let ?p = "rev (chain (length ps) ps q)"
  have out: "searchFrom ch ps (q # qu) = (q, ?p) # searchFrom ch (fst ?st) (snd ?st)"
    by (simp add: searchFrom.simps Let_def)
  have "shortestReport ch seed d2 (searchFrom ch ps (q # qu))"
    using r(3) reported_path [OF q] same [OF q(2)] unfolding out shortestReport_def by simp
  moreover have "searching ch seed d2 ps' (dn @ map fst (searchFrom ch ps (q # qu))) []"
    using r(1) unfolding out by simp
  ultimately show ?case using same by blast
qed

text \<open>The whole search: every node reachable from the seed once, each with a shortest path.\<close>

lemma path_depth:
  assumes "successively (childOf ch) p" and "p \<noteq> []"
    and "\<And>x c. x \<in> D \<Longrightarrow> childOf ch x c \<Longrightarrow> c \<in> D \<and> d c \<le> Suc (d x)" and "hd p \<in> D"
  shows "last p \<in> D \<and> Suc (d (last p)) \<le> d (hd p) + length p"
  using assms(1,2,4)
proof (induction p)
  case (Cons x p)
  show ?case
  proof (cases p)
    case (Cons y ys)
    with Cons.prems assms(3) have "y \<in> D" "d y \<le> Suc (d x)" by auto
    with Cons.IH Cons.prems \<open>p = y # ys\<close> show ?thesis by force
  qed (use Cons.prems in simp)
qed simp

theorem search_shortest:
  fixes ch seed
  defines "out \<equiv> searchFrom ch [(seed, None)] [seed]"
  shows "distinct (map fst out)"
    and "(v, p) \<in> set out \<Longrightarrow> p \<noteq> [] \<and> hd p = seed \<and> last p = v \<and> successively (childOf ch) p"
    and "successively (childOf ch) p' \<Longrightarrow> p' \<noteq> [] \<Longrightarrow> hd p' = seed \<Longrightarrow> last p' \<in> fst ` set out"
    and "(v, p) \<in> set out \<Longrightarrow> successively (childOf ch) p' \<Longrightarrow> p' \<noteq> [] \<Longrightarrow> hd p' = seed \<Longrightarrow> last p' = v
          \<Longrightarrow> length p \<le> length p'"
proof -
  have "searching ch seed (\<lambda>_. 0) [(seed, None)] [] [seed]"
    by (auto simp: searching_def rooted_def mapGet_def)
  from search_run [OF this, of 0] obtain d ps' where
    s: "searching ch seed d ps' (map fst out) []" "d seed = 0" "shortestReport ch seed d out"
    unfolding out_def by (auto simp: mapGet_def)
  show "distinct (map fst out)" using s(1) by (simp add: searching_def)
  have step: "c \<in> fst ` set out \<and> d c \<le> Suc (d x)" if "x \<in> fst ` set out" "childOf ch x c" for x c
    using that s(1) unfolding searching_def set_map append_Nil2 by blast
  have start: "seed \<in> fst ` set out" by (simp add: out_def searchFrom.simps)
  have reach: "last q \<in> fst ` set out \<and> Suc (d (last q)) \<le> length q"
    if "successively (childOf ch) q" "q \<noteq> []" "hd q = seed" for q
    using path_depth [of ch q "fst ` set out" d] that step start s(2) by simp
  show "(v, p) \<in> set out \<Longrightarrow> p \<noteq> [] \<and> hd p = seed \<and> last p = v \<and> successively (childOf ch) p"
    using s(3) by (auto simp: shortestReport_def)
  show "successively (childOf ch) p' \<Longrightarrow> p' \<noteq> [] \<Longrightarrow> hd p' = seed \<Longrightarrow> last p' \<in> fst ` set out"
    using reach by blast
  show "(v, p) \<in> set out \<Longrightarrow> successively (childOf ch) p' \<Longrightarrow> p' \<noteq> [] \<Longrightarrow> hd p' = seed \<Longrightarrow> last p' = v
          \<Longrightarrow> length p \<le> length p'"
    using reach [of p'] s(3) by (auto simp: shortestReport_def)
qed

end
