(* ===== verification/CausalProps.thy ===== *)
theory CausalProps
  imports CausalSearch StoreLaws Demo
begin

text \<open>
  The causal graph over whole histories. \<open>causalHistory\<close> are the stores whose journal was built
  by recording steps and any other events; in each of them the nodes can be read back and their
  dependencies are earlier nodes, so the plan of a recomputation is exactly what can reach a
  changed node, and its explanations are shortest dependency paths.
\<close>

section \<open>Histories\<close>

inductive causalHistory :: "string \<Rightarrow> store \<Rightarrow> bool" for domainId where
  begins: "db_journal s = [] \<Longrightarrow> 0 \<le> db_seq s \<Longrightarrow> causalHistory domainId s"
| recorded: "causalHistory domainId s \<Longrightarrow> recordStep domainId now step s = (Inr n, t) \<Longrightarrow> causalHistory domainId t"
| other_event: "causalHistory domainId s \<Longrightarrow> evName e \<noteq> ''CAUSAL_STEP'' \<or> ev_domainId e \<noteq> domainId
    \<Longrightarrow> recordEventAndTransitionState e s = (Inr n, t) \<Longrightarrow> causalHistory domainId t"
| other_tables: "causalHistory domainId s \<Longrightarrow> db_journal t = db_journal s \<Longrightarrow> db_seq t = db_seq s
    \<Longrightarrow> causalHistory domainId t"

definition stepRow :: "string \<Rightarrow> JournalEvent \<Rightarrow> bool" where
  "stepRow domainId e \<longleftrightarrow> ev_domainId e = domainId \<and> ev_type e = ''CAUSAL_STEP''"

definition goodRow :: "(int \<Rightarrow> bool) \<Rightarrow> JournalEvent \<Rightarrow> bool" where
  "goodRow isNode e \<longleftrightarrow> jfield (ev_payload e) ''version'' = JNum 1
     \<and> (\<exists>n. readNode (ev_seq e) (jfield (ev_payload e) ''node'') = Some n
          \<and> (\<forall>d \<in> set (cs_dependsOn n). d < ev_seq e \<and> isNode d))"

definition nodeRow :: "string \<Rightarrow> JournalEvent list \<Rightarrow> int \<Rightarrow> bool" where
  "nodeRow domainId es d \<longleftrightarrow> (\<exists>e \<in> set es. stepRow domainId e \<and> ev_seq e = d)"

definition causalInv :: "string \<Rightarrow> store \<Rightarrow> bool" where
  "causalInv domainId s \<longleftrightarrow> sorted_wrt (<) (map ev_seq (db_journal s)) \<and> 0 \<le> db_seq s
     \<and> (\<forall>e \<in> set (db_journal s). 0 \<le> ev_seq e \<and> ev_seq e \<le> db_seq s)
     \<and> (\<forall>e \<in> set (db_journal s). stepRow domainId e \<longrightarrow> goodRow (nodeRow domainId (db_journal s)) e)"

lemma goodRow_mono: "goodRow P e \<Longrightarrow> (\<And>d. P d \<Longrightarrow> Q d) \<Longrightarrow> goodRow Q e"
  unfolding goodRow_def by blast

lemma nodeRow_append: "nodeRow domainId es d \<Longrightarrow> nodeRow domainId (es @ fs) d"
  by (auto simp: nodeRow_def)

lemma causalInv_append:
  assumes "causalInv domainId s" and "ev_seq e = db_seq s + 1"
    and "stepRow domainId e \<Longrightarrow> goodRow (nodeRow domainId (db_journal s)) e"
  shows "causalInv domainId (s\<lparr>db_journal := db_journal s @ [e], db_seq := db_seq s + 1\<rparr>)"
proof -
  have "goodRow (nodeRow domainId (db_journal s @ [e])) r"
    if "r \<in> set (db_journal s @ [e])" "stepRow domainId r" for r
  proof -
    have "goodRow (nodeRow domainId (db_journal s)) r"
      using that assms(1,3) by (auto simp: causalInv_def)
    then show ?thesis by (rule goodRow_mono) (rule nodeRow_append)
  qed
  then show ?thesis
    using assms(1,2) by (fastforce simp: causalInv_def sorted_wrt_append)
qed

section \<open>A recorded step reads back\<close>

lemma plain_keys [simp]:
  "\<not> SECRET_KEY ''version''" "\<not> SECRET_KEY ''node''" "\<not> SECRET_KEY ''txId''" "\<not> SECRET_KEY ''actorId''"
  "\<not> SECRET_KEY ''observation''" "\<not> SECRET_KEY ''dependsOn''" "\<not> SECRET_KEY ''writes''"
  "\<not> SECRET_KEY ''runId''" "\<not> SECRET_KEY ''baseSnapshotId''" "\<not> SECRET_KEY ''kind''"
  "\<not> SECRET_KEY ''call''" "\<not> SECRET_KEY ''resultHash''" "\<not> SECRET_KEY ''cutoffHash''"
  by code_simp+

text \<open>What the journal keeps of a call.\<close>

definition keptCall :: "json \<Rightarrow> json" where
  "keptCall c = (case jsonValue c of Inr c' \<Rightarrow> c' | Inl _ \<Rightarrow> JUndef)"

definition keptNode :: "CausalNode \<Rightarrow> CausalNode" where
  "keptNode n = n\<lparr>cs_observation := (cs_observation n)\<lparr>obe_call := keptCall (obe_call (cs_observation n))\<rparr>\<rparr>"

lemma observation_kept:
  assumes "jsonValue (observationJson e) = Inr j"
  shows "isRecord j \<and> readObservation j = Some (e\<lparr>obe_call := keptCall (obe_call e)\<rparr>)"
  using assms
  by (cases "obe_resultHash e"; cases "obe_cutoffHash e"; cases "obe_call e = JUndef")
    (auto simp: observationJson_def readObservation_def readOptional_def optJ_def keptCall_def split: sum.splits)

lemma listJson_defined [simp]: "listJson f xs \<noteq> JUndef" "observationJson e \<noteq> JUndef" "causalNodeJson n \<noteq> JUndef"
  by (simp_all add: listJson_def observationJson_def causalNodeJson_def)

lemma node_kept:
  assumes "jsonValue (causalNodeJson n) = Inr j"
  shows "readNode q j = Some (keptNode n\<lparr>cn_seq := q\<rparr>)"
proof -
  obtain ob where ob: "jsonValue (observationJson (cs_observation n)) = Inr ob"
    using assms by (auto simp: causalNodeJson_def split: sum.splits)
  note kept = observation_kept [OF ob]
  show ?thesis
    using assms kept
    by (cases "cs_writes n") (auto simp: causalNodeJson_def ob readNode_def keptNode_def optJ_def readOptional_def)
qed

lemma step_appended:
  assumes "recordStep domainId now step s = (Inr n, t)"
  obtains m ns v where
    "graphNodes domainId MAX_SEQ s = Inr ns" "set (cs_dependsOn m) \<subseteq> cn_seq ` set ns"
    "jfield (env_payload v) ''version'' = JNum 1"
    "\<And>q. readNode q (jfield (env_payload v) ''node'') = Some (keptNode m\<lparr>cn_seq := q\<rparr>)"
    "t = s\<lparr>db_journal := db_journal s @ [journalRow (db_seq s + 1) (stepEvent domainId now m) v],
           db_seq := db_seq s + 1\<rparr>"
    "n = m\<lparr>cn_seq := db_seq s + 1\<rparr>" "env_event v = ''CAUSAL_STEP''"
    "m = nodeOf step (txHistory domainId (cs_txId step) s)"
proof -
  define m where "m = nodeOf step (txHistory domainId (cs_txId step) s)"
  obtain ns where ns: "graphNodes domainId MAX_SEQ s = Inr ns"
    and deps: "\<not> list_ex (\<lambda>q. \<not> isSafeInteger q \<or> q \<notin> cn_seq ` set ns) (cs_dependsOn step)"
    and rec: "andThen (asCausal (recordEventAndTransitionState (stepEvent domainId now m)))
                (\<lambda>q. ret (m\<lparr>cn_seq := q\<rparr>)) s = (Inr n, t)"
    using assms by (auto simp: recordStep_def Let_def thenDo_def andThen_def m_def split: if_splits sum.splits)
  show ?thesis
  proof (cases rule: recordEvent_cases [of "stepEvent domainId now m" s])
    case (refused err)
    then show ?thesis using rec by (simp add: andThen_def asCausal_def)
  next
    case (appended v)
    have red: "redactEventPayload (ev_payload (stepEvent domainId now m)) (env_sensitivity v) = Inr (env_payload v)"
      and name: "env_event v = ''CAUSAL_STEP''"
      using createEventEnvelope_Inr [OF appended(2)]
      by (simp_all add: envelopeOf_def stepEvent_def mkEvent_def evName_def)
    have "env_sensitivity v = SensInternal"
      using appended(2) by (auto simp: createEventEnvelope_def envelopeOf_def stepEvent_def mkEvent_def Let_def
          split: if_splits sum.splits)
    then obtain j where j: "jsonValue (causalNodeJson m) = Inr j"
      and p: "env_payload v = JObj [(''version'', JNum 1), (''node'', j)]"
      using red by (auto simp: redactEventPayload_def stepEvent_def mkEvent_def split: sum.splits)
    show ?thesis
    proof (rule that [OF ns])
      show "set (cs_dependsOn m) \<subseteq> cn_seq ` set ns"
        using deps by (auto simp: m_def nodeOf_def Let_def list_ex_iff)
      show "t = s\<lparr>db_journal := db_journal s @ [journalRow (db_seq s + 1) (stepEvent domainId now m) v],
           db_seq := db_seq s + 1\<rparr>" and "n = m\<lparr>cn_seq := db_seq s + 1\<rparr>"
        using rec appended(4) by (auto simp: andThen_def asCausal_def)
    qed (use p node_kept [OF j] name m_def in simp_all)
  qed
qed

section \<open>Every history has a graph in journal order\<close>

lemma nodesOf_good:
  assumes "\<And>e. e \<in> set es \<Longrightarrow> goodRow P e"
  shows "\<exists>ns. nodesOf es = Inr ns \<and> map cn_seq ns = map ev_seq es
    \<and> (\<forall>n \<in> set ns. \<forall>d \<in> set (cs_dependsOn n). d < cn_seq n \<and> P d)"
  using assms
proof (induction es)
  case (Cons e es)
  then obtain ns where ns: "nodesOf es = Inr ns" "map cn_seq ns = map ev_seq es"
    "\<forall>n \<in> set ns. \<forall>d \<in> set (cs_dependsOn n). d < cn_seq n \<and> P d" by auto
  obtain n where n: "jfield (ev_payload e) ''version'' = JNum 1"
    "readNode (ev_seq e) (jfield (ev_payload e) ''node'') = Some n"
    "\<forall>d \<in> set (cs_dependsOn n). d < ev_seq e \<and> P d"
    using Cons.prems [of e] by (auto simp: goodRow_def)
  have "cn_seq n = ev_seq e"
    using n(2) by (auto simp: readNode_def split: json.splits option.splits)
  with n ns show ?case by auto
qed simp

lemma graphNodes_history:
  assumes inv: "causalInv domainId s" and "isSafeInteger atSeq" and "0 \<le> atSeq"
  shows "\<exists>ns. graphNodes domainId atSeq s = Inr ns \<and> inOrder ns
    \<and> cn_seq ` set ns = {q. nodeRow domainId (db_journal s) q \<and> q \<le> atSeq}"
proof -
  let ?es = "filter (\<lambda>e. stepRow domainId e \<and> 0 \<le> ev_seq e \<and> ev_seq e \<le> atSeq) (db_journal s)"
  have ev: "getJournalEvents domainId 0 (Some atSeq) (Some [''CAUSAL_STEP'']) s = map mapJournalEvent ?es"
    unfolding getJournalEvents_def stepRow_def by (rule arg_cong [where f = "map _"]) (rule filter_cong, auto)
  have keep: "ev_seq (mapJournalEvent e) = ev_seq e" "ev_payload (mapJournalEvent e) = ev_payload e" for e
    by (simp_all add: mapJournalEvent_def)
  have good: "goodRow (nodeRow domainId (db_journal s)) e" if "e \<in> set (map mapJournalEvent ?es)" for e
    using that inv by (auto simp: causalInv_def goodRow_def keep)
  from nodesOf_good [of "map mapJournalEvent ?es", OF good] obtain ns where
    ns: "nodesOf (map mapJournalEvent ?es) = Inr ns" "map cn_seq ns = map ev_seq ?es"
      "\<forall>n \<in> set ns. \<forall>d \<in> set (cs_dependsOn n). d < cn_seq n \<and> nodeRow domainId (db_journal s) d"
    by (auto simp: comp_def keep)
  have "sorted_wrt (<) (map ev_seq ?es)"
    using inv by (simp add: causalInv_def sorted_wrt_map sorted_wrt_filter)
  then have ord: "inOrder ns" using ns(2,3) by (simp add: inOrder_def backward_def)
  have "cn_seq ` set ns = ev_seq ` set ?es" using arg_cong [OF ns(2), of set] by simp
  also have "\<dots> = {q. nodeRow domainId (db_journal s) q \<and> q \<le> atSeq}"
    using inv by (auto simp: nodeRow_def causalInv_def)
  finally show ?thesis using ord ns(1) assms(2,3) ev by (simp add: graphNodes_def)
qed

lemma MAX_SEQ_safe [simp]: "isSafeInteger MAX_SEQ" "0 \<le> MAX_SEQ"
  by (simp_all add: isSafeInteger_def MAX_SEQ_def)

lemma history_inv: "causalHistory domainId s \<Longrightarrow> causalInv domainId s"
proof (induction rule: causalHistory.induct)
  case (begins s)
  then show ?case by (simp add: causalInv_def)
next
  case (recorded s now step n t)
  obtain m ns v where st:
    "graphNodes domainId MAX_SEQ s = Inr ns" "set (cs_dependsOn m) \<subseteq> cn_seq ` set ns"
    "jfield (env_payload v) ''version'' = JNum 1"
    "\<And>q. readNode q (jfield (env_payload v) ''node'') = Some (keptNode m\<lparr>cn_seq := q\<rparr>)"
    "t = s\<lparr>db_journal := db_journal s @ [journalRow (db_seq s + 1) (stepEvent domainId now m) v],
           db_seq := db_seq s + 1\<rparr>"
    "n = m\<lparr>cn_seq := db_seq s + 1\<rparr>" "env_event v = ''CAUSAL_STEP''"
    "m = nodeOf step (txHistory domainId (cs_txId step) s)"
    by (rule step_appended [OF recorded.hyps(2)]) (rule that)
  have "nodeRow domainId (db_journal s) d \<and> d < db_seq s + 1" if "d \<in> set (cs_dependsOn m)" for d
  proof -
    have "nodeRow domainId (db_journal s) d"
      using that st(1,2) graphNodes_history [OF recorded.IH MAX_SEQ_safe] by auto
    then show ?thesis using recorded.IH by (auto simp: nodeRow_def causalInv_def)
  qed
  then have "goodRow (nodeRow domainId (db_journal s)) (journalRow (db_seq s + 1) (stepEvent domainId now m) v)"
    using st(3,4) by (simp add: goodRow_def journalRow_def keptNode_def)
  then show ?case
    unfolding st(5) by (intro causalInv_append [OF recorded.IH]) (simp_all add: journalRow_def)
next
  case (other_event s e n t)
  show ?case
  proof (cases rule: recordEvent_cases [of e s])
    case (refused err)
    then show ?thesis using other_event.hyps(3) by simp
  next
    case (appended v)
    have "\<not> stepRow domainId (journalRow (db_seq s + 1) e v)"
      using other_event.hyps(2) createEventEnvelope_Inr(1) [OF appended(2)]
      by (auto simp: stepRow_def journalRow_def envelopeOf_def)
    then have "causalInv domainId
        (s\<lparr>db_journal := db_journal s @ [journalRow (db_seq s + 1) e v], db_seq := db_seq s + 1\<rparr>)"
      by (intro causalInv_append [OF other_event.IH]) (simp_all add: journalRow_def)
    moreover have "t = s\<lparr>db_journal := db_journal s @ [journalRow (db_seq s + 1) e v], db_seq := db_seq s + 1\<rparr>"
      using other_event.hyps(3) unfolding appended(4) by blast
    ultimately show ?thesis by (simp only:)
  qed
next
  case (other_tables s t)
  then show ?case by (simp add: causalInv_def)
qed

lemma inOrder_filter: "inOrder ns \<Longrightarrow> inOrder (filter P ns)"
  by (auto simp: inOrder_def backward_def sorted_wrt_map sorted_wrt_filter)

lemma graphNodes_inOrder: "causalHistory domainId s \<Longrightarrow> graphNodes domainId atSeq s = Inr ns \<Longrightarrow> inOrder ns"
  using graphNodes_history [OF history_inv, of domainId s atSeq] by (auto simp: graphNodes_def split: if_splits)

lemma planNodes_inOrder:
  assumes "causalHistory domainId s" and "planNodes domainId atSeq heads s = Inr ns"
  shows "inOrder ns"
  using assms graphNodes_inOrder [OF assms(1)]
  by (auto simp: planNodes_def causalView_def Let_def intro!: inOrder_filter split: option.splits sum.splits if_splits)

section \<open>Ancestors and views are closures\<close>

lemma ancestors_closure:
  assumes "causalHistory domainId s" and "graphNodes domainId seq s = Inr ns" and "seq \<in> cn_seq ` set ns"
  shows "ancestors domainId seq s = Inr (filter (\<lambda>n. (seq, cn_seq n) \<in> (dependencies ns)\<^sup>+) ns)"
proof -
  note ord = graphNodes_inOrder [OF assms(1,2)]
  obtain m where m: "find (\<lambda>n. cn_seq n = seq) ns = Some m" using assms(3) by (cases "find (\<lambda>n. cn_seq n = seq) ns") (auto simp: find_None_iff)
  then have mem: "m \<in> set ns" "cn_seq m = seq" by (auto simp: find_Some_iff)
  have "(dependencies ns)\<^sup>* `` set (cs_dependsOn m) = {x. (seq, x) \<in> (dependencies ns)\<^sup>+}"
  proof -
    have "(seq, d) \<in> dependencies ns \<longleftrightarrow> d \<in> set (cs_dependsOn m)" for d
      using mem ord strict_sorted_iff [of "map cn_seq ns"]
      by (auto simp: inOrder_def dependencies_def distinct_map dest: inj_onD)
    then show ?thesis by (auto simp: trancl_unfold_left intro: rtrancl_into_trancl2 dest: tranclD)
  qed
  then have "set (collectNeeded (rev ns) (uniqueList (cs_dependsOn m))) = {x. (seq, x) \<in> (dependencies ns)\<^sup>+}"
    using rev_walk [OF ord] by simp
  then show ?thesis using assms(2) m by (simp add: ancestors_def Let_def)
qed

lemma view_closure:
  assumes "causalHistory domainId s" and "causalView domainId heads atSeq s = Inr v"
    and "graphNodes domainId (fold max heads 0) s = Inr ns"
  shows "cv_nodes v = filter (\<lambda>n. \<exists>h \<in> set heads. (h, cn_seq n) \<in> (dependencies ns)\<^sup>*) ns"
  using assms(2,3) rev_walk [OF graphNodes_inOrder [OF assms(1,3)]]
  by (auto simp: causalView_def Let_def split: if_splits intro!: filter_cong)

section \<open>Plans\<close>

lemma plan_affected:
  assumes "causalHistory domainId s" and "planNodes domainId atSeq heads s = Inr ns"
    and "set changed \<subseteq> cn_seq ` set ns"
  shows "planRecomputation domainId changed atSeq heads s = Inr
      \<lparr>rp_invalidated = filter (\<lambda>n. cn_seq n \<in> affected ns (set changed)) ns,
       rp_unaffected = filter (\<lambda>n. cn_seq n \<notin> affected ns (set changed)) ns\<rparr>"
proof -
  have "\<not> list_ex (\<lambda>q. q \<notin> cn_seq ` set ns) changed" using assms(3) by (auto simp: list_ex_iff)
  then show ?thesis
    using assms(2) sweep_all [OF planNodes_inOrder [OF assms(1,2)], of "uniqueList changed"]
    by (simp add: planRecomputation_def Let_def)
qed

text \<open>C39: In every store whose journal was built by recording steps (and any other events), a plan
  of recomputation over the nodes of the history, or of the view of some heads, lists them in
  journal order, which is a topological order; the invalidated nodes are exactly those from which
  declared dependencies lead to a changed node, and the others are unaffected.\<close>

theorem recomputation_is_reachability:
  assumes "causalHistory domainId s" and "planNodes domainId atSeq heads s = Inr ns"
    and "set changed \<subseteq> cn_seq ` set ns"
  shows "inOrder ns \<and> planRecomputation domainId changed atSeq heads s = Inr
      \<lparr>rp_invalidated = filter (\<lambda>n. \<exists>c \<in> set changed. (cn_seq n, c) \<in> (dependencies ns)\<^sup>*) ns,
       rp_unaffected = filter (\<lambda>n. \<not> (\<exists>c \<in> set changed. (cn_seq n, c) \<in> (dependencies ns)\<^sup>*)) ns\<rparr>"
  using plan_affected [OF assms] planNodes_inOrder [OF assms(1,2)] by (simp add: affected_def)

section \<open>Explanations\<close>

lemma push_causes:
  assumes "distinct (map fst out)"
  shows "mapGet (fold (pushCause seed) out ex) v = (case mapGet ex v of None \<Rightarrow> None
     | Some cs \<Rightarrow> Some (cs @ (case map_of out v of None \<Rightarrow> [] | Some p \<Rightarrow> [\<lparr>ca_changedSeq = seed, ca_path = p\<rparr>])))"
  using assms
proof (induction out arbitrary: ex)
  case Nil
  then show ?case by (simp split: option.splits)
next
  case (Cons x out)
  have "map_of out (fst x) = None" using Cons.prems by (simp add: map_of_eq_None_iff)
  then show ?case
    using Cons.IH Cons.prems by (auto simp: pushCause_def split: option.splits)
qed

definition seedCauses :: "(int, int list) jsmap \<Rightarrow> int \<Rightarrow> int \<Rightarrow> Cause list" where
  "seedCauses ch v seed = (case map_of (searchFrom ch [(seed, None)] [seed]) v of None \<Rightarrow> []
     | Some p \<Rightarrow> [\<lparr>ca_changedSeq = seed, ca_path = p\<rparr>])"

lemma explain_causes:
  "mapGet (fold (explainSeed ch) seeds ex) v = map_option (\<lambda>cs. cs @ concat (map (seedCauses ch v) seeds)) (mapGet ex v)"
proof (induction seeds arbitrary: ex)
  case Nil
  then show ?case by (cases "mapGet ex v") simp_all
next
  case (Cons seed seeds)
  have "mapGet (explainSeed ch seed ex) v = map_option (\<lambda>cs. cs @ seedCauses ch v seed) (mapGet ex v)"
    unfolding explainSeed_def push_causes [OF search_shortest(1)] by (simp add: seedCauses_def split: option.splits)
  with Cons.IH show ?case by (simp add: option.map_comp comp_def)
qed

text \<open>A dependency path from a changed node stays among the invalidated nodes.\<close>

definition causePath :: "CausalNode list \<Rightarrow> int list \<Rightarrow> bool" where
  "causePath ns p \<longleftrightarrow> successively (\<lambda>x y. (y, x) \<in> dependencies ns) p"

lemma affected_edges:
  assumes "(y, x) \<in> dependencies ns" and "x \<in> affected ns C"
  shows "(y, x) \<in> dependencies (filter (\<lambda>n. cn_seq n \<in> affected ns C) ns)"
proof -
  have "y \<in> affected ns C" using assms by (subst affected_step) blast
  then show ?thesis using assms(1) by (auto simp: dependencies_def)
qed

lemma path_inside:
  assumes "causePath ns p" and "p \<noteq> []" and "hd p \<in> affected ns C"
  shows "causePath (filter (\<lambda>n. cn_seq n \<in> affected ns C) ns) p"
  using assms
proof (induction p)
  case (Cons x p)
  show ?case
  proof (cases p)
    case (Cons y ys)
    with Cons.prems have e: "(y, x) \<in> dependencies ns" "x \<in> affected ns C" by (auto simp: causePath_def)
    then have "y \<in> affected ns C" by (subst affected_step) blast
    with e affected_edges Cons.IH Cons.prems \<open>p = y # ys\<close> show ?thesis by (auto simp: causePath_def)
  qed (simp add: causePath_def)
qed simp

lemma path_reaches: "causePath ns p \<Longrightarrow> p \<noteq> [] \<Longrightarrow> (last p, hd p) \<in> (dependencies ns)\<^sup>*"
proof (induction p)
  case (Cons x p)
  then show ?case
    by (cases p) (auto simp: causePath_def intro: rtrancl_into_rtrancl)
qed simp

lemma reaches_path: "(v, c) \<in> (dependencies ns)\<^sup>* \<Longrightarrow> \<exists>p. causePath ns p \<and> p \<noteq> [] \<and> hd p = c \<and> last p = v"
proof (induction rule: converse_rtrancl_induct)
  case base
  show ?case by (intro exI [of _ "[c]"]) (simp add: causePath_def)
next
  case (step y z)
  then obtain p where p: "causePath ns p" "p \<noteq> []" "hd p = c" "last p = z" by blast
  then show ?case
    using step.hyps(1) by (intro exI [of _ "p @ [y]"]) (auto simp: causePath_def successively_append_iff)
qed

text \<open>The search from a changed node finds exactly what depends on it.\<close>

lemma seed_found:
  fixes ns
  assumes "c \<in> C"
  defines "out \<equiv> searchFrom (childMap (filter (\<lambda>n. cn_seq n \<in> affected ns C) ns)) [(c, None)] [c]"
  shows "map_of out v \<noteq> None \<longleftrightarrow> (v, c) \<in> (dependencies ns)\<^sup>*"
    and "map_of out v = Some p \<Longrightarrow> p \<noteq> [] \<and> hd p = c \<and> last p = v \<and> causePath ns p
           \<and> (\<forall>q. causePath ns q \<and> q \<noteq> [] \<and> hd q = c \<and> last q = v \<longrightarrow> length p \<le> length q)"
proof -
  let ?inv = "filter (\<lambda>n. cn_seq n \<in> affected ns C) ns"
  have ch: "childOf (childMap ?inv) x y \<longleftrightarrow> (y, x) \<in> dependencies ?inv" for x y by (rule childMap_children)
  have sub: "causePath ?inv p \<Longrightarrow> causePath ns p" for p
    by (induction p rule: induct_list012) (auto simp: causePath_def dependencies_def)
  have c: "c \<in> affected ns C" using assms(1) by (auto simp: affected_def)
  note S = search_shortest [where ch = "childMap ?inv" and seed = c, unfolded ch, folded causePath_def out_def]
  have found: "v \<in> fst ` set out \<longleftrightarrow> (v, c) \<in> (dependencies ns)\<^sup>*" for v
  proof
    assume "v \<in> fst ` set out"
    then obtain p where "(v, p) \<in> set out" by force
    from S(2) [OF this] sub path_reaches show "(v, c) \<in> (dependencies ns)\<^sup>*" by blast
  next
    assume "(v, c) \<in> (dependencies ns)\<^sup>*"
    then obtain p where p: "causePath ns p" "p \<noteq> []" "hd p = c" "last p = v" using reaches_path by blast
    from S(3) [OF path_inside [OF p(1,2)] p(2,3)] p c show "v \<in> fst ` set out" by simp
  qed
  then show "map_of out v \<noteq> None \<longleftrightarrow> (v, c) \<in> (dependencies ns)\<^sup>*" by (simp add: map_of_eq_None_iff)
  assume "map_of out v = Some p"
  then have m: "(v, p) \<in> set out" by (rule map_of_SomeD)
  then show "p \<noteq> [] \<and> hd p = c \<and> last p = v \<and> causePath ns p
           \<and> (\<forall>q. causePath ns q \<and> q \<noteq> [] \<and> hd q = c \<and> last q = v \<longrightarrow> length p \<le> length q)"
    using S(2,4) [OF m] sub path_inside c by blast
qed

lemma map_of_const: "v \<in> f ` set ns \<Longrightarrow> map_of (map (\<lambda>n. (f n, x)) ns) v = Some x"
  by (induction ns) auto

lemma keys_kept: "map fst (fold (explainSeed ch) seeds ex) = map fst ex"
proof -
  have push: "map fst (pushCause seed x e) = map fst e" for seed x and e :: "(int, Cause list) jsmap"
    by (auto simp: pushCause_def mapSet_def mapGet_def map_of_eq_None_iff dest: map_of_SomeD split: option.splits)
  have pushes: "map fst (fold (pushCause seed) xs e) = map fst e" for seed xs and e :: "(int, Cause list) jsmap"
    by (induction xs arbitrary: e) (simp_all add: push)
  show ?thesis by (induction seeds arbitrary: ex) (simp_all add: explainSeed_def pushes)
qed

text \<open>\<open>causes\<close> has a shortest dependency path to \<open>v\<close> for each seed that \<open>v\<close> depends on.\<close>

definition explainsNode :: "CausalNode list \<Rightarrow> int list \<Rightarrow> int \<Rightarrow> Cause list \<Rightarrow> bool" where
  "explainsNode ns seeds v causes \<longleftrightarrow>
     map ca_changedSeq causes = filter (\<lambda>c. (v, c) \<in> (dependencies ns)\<^sup>*) seeds
     \<and> (\<forall>a \<in> set causes. ca_path a \<noteq> [] \<and> hd (ca_path a) = ca_changedSeq a \<and> last (ca_path a) = v
          \<and> causePath ns (ca_path a)
          \<and> (\<forall>q. causePath ns q \<and> q \<noteq> [] \<and> hd q = ca_changedSeq a \<and> last q = v
                 \<longrightarrow> length (ca_path a) \<le> length q))"

lemma causes_of:
  fixes ns C
  defines "ch \<equiv> childMap (filter (\<lambda>n. cn_seq n \<in> affected ns C) ns)"
  assumes "set seeds \<subseteq> C"
  shows "explainsNode ns seeds v (concat (map (seedCauses ch v) seeds))"
  using assms(2)
proof (induction seeds)
  case (Cons c seeds)
  then have c: "c \<in> C" by simp
  note f = seed_found [OF c, where ns = ns and v = v, folded ch_def]
  show ?case
  proof (cases "map_of (searchFrom ch [(c, None)] [c]) v")
    case None
    then show ?thesis using f(1) Cons by (simp add: explainsNode_def seedCauses_def)
  next
    case (Some p)
    then show ?thesis using f(1) f(2) [OF Some] Cons by (simp add: explainsNode_def seedCauses_def)
  qed
qed (simp add: explainsNode_def)

text \<open>C40: The explanation of a recomputation gives, for each invalidated node and for each changed
  node it depends on (once, in increasing order), a path of declared dependencies from the changed
  node to it, and no dependency path between the two is shorter.\<close>

theorem explanations_are_shortest_paths:
  assumes "causalHistory domainId s" and "planNodes domainId atSeq heads s = Inr ns"
    and "set changed \<subseteq> cn_seq ` set ns"
  shows "\<exists>plan ex. explainRecomputation domainId changed atSeq heads s = Inr (plan, ex)
    \<and> map fst ex = map cn_seq (rp_invalidated plan)
    \<and> (\<forall>v \<in> set (map fst ex). \<exists>causes. mapGet ex v = Some causes
          \<and> explainsNode ns (sort (uniqueList changed)) v causes)"
proof -
  let ?inv = "filter (\<lambda>n. cn_seq n \<in> affected ns (set changed)) ns"
  let ?seeds = "sort (uniqueList changed)" and ?ch = "childMap ?inv"
  let ?ex = "fold (explainSeed ?ch) ?seeds (map (\<lambda>n. (cn_seq n, [])) ?inv)"
  have causes: "mapGet ?ex v = Some (concat (map (seedCauses ?ch v) ?seeds))" if "v \<in> set (map fst ?ex)" for v
  proof -
    have "v \<in> cn_seq ` set ?inv" using that by (simp only: keys_kept) auto
    then have "mapGet (map (\<lambda>n. (cn_seq n, [] :: Cause list)) ?inv) v = Some []"
      by (simp only: mapGet_def map_of_const)
    then show ?thesis by (simp add: explain_causes)
  qed
  have run: "explainRecomputation domainId changed atSeq heads s = Inr
      (\<lparr>rp_invalidated = ?inv, rp_unaffected = filter (\<lambda>n. cn_seq n \<notin> affected ns (set changed)) ns\<rparr>, ?ex)"
    using plan_affected [OF assms] by (simp add: explainRecomputation_def)
  have keys: "map fst ?ex = map cn_seq ?inv" by (simp only: keys_kept) (simp add: comp_def)
  have "set ?seeds \<subseteq> set changed" by simp
  from causes_of [OF this] have why: "\<exists>cs. mapGet ?ex v = Some cs \<and> explainsNode ns ?seeds v cs"
    if "v \<in> set (map fst ?ex)" for v using causes [OF that] by blast
  show ?thesis
    unfolding run
    by (intro exI conjI, rule refl) (simp_all only: keys RecomputationPlan.simps, use why keys in simp)
qed

section \<open>A concrete graph\<close>

lemma recordStep_history:
  assumes "causalHistory domainId s"
  shows "causalHistory domainId (snd (recordStep domainId now step s))"
proof (cases "recordStep domainId now step s")
  case (Pair r t)
  show ?thesis
  proof (cases r)
    case (Inl e)
    have "t = s"
    proof (cases rule: recordEvent_cases [of "stepEvent domainId now (nodeOf step (txHistory domainId (cs_txId step) s))" s])
      case (refused err)
      then show ?thesis
        using Pair Inl by (auto simp: recordStep_def Let_def thenDo_def andThen_def asCausal_def split: if_splits sum.splits)
    next
      case (appended v)
      then show ?thesis
        using Pair Inl by (auto simp: recordStep_def Let_def thenDo_def andThen_def asCausal_def split: if_splits sum.splits)
    qed
    then show ?thesis using Pair assms by simp
  next
    case (Inr n)
    then show ?thesis using Pair causalHistory.recorded [OF assms] by simp
  qed
qed

definition demoCausal :: "string \<Rightarrow> int list \<Rightarrow> CausalStep" where
  "demoCausal h deps = \<lparr>cs_txId = ''gateway:r'', cs_actorId = ''a'',
     cs_observation = \<lparr>obe_kind = ''observe'', obe_call = JObj [(''tool'', JStr ''read'')],
                       obe_resultHash = Some h, obe_cutoffHash = None\<rparr>,
     cs_dependsOn = deps, cs_writes = None\<rparr>"

text \<open>Step 4 uses 2 and 3, which use 1; step 5 uses 4 and 2; step 6 uses nothing.\<close>

definition demoGraph :: store where
  "demoGraph = fold (\<lambda>st s. snd (recordStep ''d'' 7 st s))
     [demoCausal ''a'' [], demoCausal ''b'' [1], demoCausal ''c'' [1], demoCausal ''e'' [2, 3],
      demoCausal ''f'' [4, 2], demoCausal ''g'' []] emptyStore"

lemma demoGraph_history: "causalHistory ''d'' demoGraph"
proof -
  have "causalHistory ''d'' emptyStore" by (rule causalHistory.begins) (simp_all add: emptyStore_def)
  then show ?thesis by (simp add: demoGraph_def recordStep_history)
qed

definition demoNode :: "int \<Rightarrow> string \<Rightarrow> int list \<Rightarrow> CausalNode" where
  "demoNode q h deps = CausalStep.extend (demoCausal h deps)
     \<lparr>cn_seq = q, cn_runId = ''r'', cn_baseSnapshotId = ''gateway''\<rparr>"

lemma demoGraph_nodes: "planNodes ''d'' 9 None demoGraph = Inr [demoNode 1 ''a'' [], demoNode 2 ''b'' [1],
    demoNode 3 ''c'' [1], demoNode 4 ''e'' [2, 3], demoNode 5 ''f'' [4, 2], demoNode 6 ''g'' []]"
  by code_simp

theorem recomputation_is_reachability_witness:
  "\<exists>ns. planNodes ''d'' 9 None demoGraph = Inr ns \<and> map cn_seq ns = [1, 2, 3, 4, 5, 6] \<and> inOrder ns
    \<and> planRecomputation ''d'' [2] 9 None demoGraph = Inr
      \<lparr>rp_invalidated = filter (\<lambda>n. \<exists>c \<in> set [2]. (cn_seq n, c) \<in> (dependencies ns)\<^sup>*) ns,
       rp_unaffected = filter (\<lambda>n. \<not> (\<exists>c \<in> set [2]. (cn_seq n, c) \<in> (dependencies ns)\<^sup>*)) ns\<rparr>"
  using recomputation_is_reachability [OF demoGraph_history demoGraph_nodes, of "[2]"] demoGraph_nodes
  by (intro exI conjI) (assumption | simp add: demoNode_def CausalStep.extend_def)+

theorem explanations_are_shortest_paths_witness:
  "\<exists>plan ex ns. planNodes ''d'' 9 None demoGraph = Inr ns
    \<and> explainRecomputation ''d'' [2, 1] 9 None demoGraph = Inr (plan, ex)
    \<and> (\<forall>v \<in> set (map fst ex). \<exists>causes. mapGet ex v = Some causes \<and> explainsNode ns [1, 2] v causes)"
proof -
  have "sort (uniqueList [2, 1]) = [1, 2 :: int]" by code_simp
  then show ?thesis
    using explanations_are_shortest_paths [OF demoGraph_history demoGraph_nodes, of "[2, 1]"] demoGraph_nodes
    by (simp add: demoNode_def CausalStep.extend_def) metis
qed

text \<open>What the search finds: node 5 depends on 2 directly, and on 1 over 2.\<close>

lemma demo_explained: "case explainRecomputation ''d'' [2, 1] 9 None demoGraph of Inl _ \<Rightarrow> False
    | Inr (plan, ex) \<Rightarrow> map cn_seq (rp_unaffected plan) = [6]
        \<and> mapGet ex 5 = Some [\<lparr>ca_changedSeq = 1, ca_path = [1, 2, 5]\<rparr>, \<lparr>ca_changedSeq = 2, ca_path = [2, 5]\<rparr>]"
  by code_simp

text \<open>
  The journal redacts payloads by the names of their keys, and \<open>content\<close> is one of them: the
  log that \<open>observationLog\<close> returns for replay has lost what a recorded step wrote.
\<close>

definition demoWrite :: ObservationEntry where
  "demoWrite = \<lparr>obe_kind = ''mutate'', obe_call = JObj [(''tool'', JStr ''write''),
     (''args'', JObj [(''path'', JStr ''f''), (''content'', JStr ''x'')])],
     obe_resultHash = Some ''h'', obe_cutoffHash = None\<rparr>"

lemma replay_loses_content:
  "observationLog ''d'' ''gateway:r'' 9 (snd (recordStep ''d'' 7 (demoCausal ''a'' []\<lparr>cs_observation := demoWrite\<rparr>) emptyStore))
     = Inr [demoWrite\<lparr>obe_call := JObj [(''tool'', JStr ''write''), (''args'', JObj [(''path'', JStr ''f'')])]\<rparr>]"
  by code_simp

end
