(* ===== verification/TxApply.thy ===== *)
theory TxApply
  imports Paths WorkspaceTypes
begin

text \<open>
  Applying a write set to the main workspace: \<open>apply\<close> and \<open>assertNoSymlinkedParent\<close> of
  \<open>src/src/workspace/transactions.ts\<close>, with the calls of \<open>node:fs\<close> they make. A disk maps
  absolute paths, as lists of segments, to files, directories and links; \<open>dk_times\<close> stands for
  the access times, which applying does not read. What \<open>realpath\<close> and \<open>exists\<close> answer on a disk
  is the parameter \<open>fsy\<close>. The main lemma (\<open>apply_completes\<close>) says that applying succeeds, with
  one result, from every disk an interrupted application can leave behind, if the write set does
  not replace a file by a directory or a directory by a file; the last section shows that those
  two cases do fail.
\<close>

section \<open>Disks\<close>

datatype fsnode = FileNode string nat | DirNode | LinkNode string

record disk =
  dk_nodes :: "string list \<Rightarrow> fsnode option"
  dk_times :: nat

datatype TxError =
    TxMessage string
  | TxRefused string
  | TxFs string "string list"
  | TxKernel KError
  | TxHost string
  | TxAggregate TxError TxError

type_synonym 'a diskM = "(disk, TxError, 'a) act"

definition putNode :: "string list \<Rightarrow> fsnode option \<Rightarrow> disk \<Rightarrow> disk" where
  "putNode p n d = d\<lparr>dk_nodes := (dk_nodes d)(p := n)\<rparr>"

fun isLink :: "fsnode option \<Rightarrow> bool" where
  "isLink (Some (LinkNode t)) = True"
| "isLink _ = False"

fun isDirOrNone :: "fsnode option \<Rightarrow> bool" where
  "isDirOrNone None = True"
| "isDirOrNone (Some DirNode) = True"
| "isDirOrNone _ = False"

text \<open>\<open>fs.rmSync(p, { force: true })\<close> refuses directories; so does a file above \<open>p\<close>.\<close>

definition rmForce :: "string list \<Rightarrow> unit diskM" where
  "rmForce p = (\<lambda>d.
     if list_ex (\<lambda>a. \<not> isDirOrNone (dk_nodes d a)) (prefixes (butlast p)) then (Inl (TxFs ''ENOTDIR'' p), d)
     else if dk_nodes d p = Some DirNode then (Inl (TxFs ''ERR_FS_EISDIR'' p), d)
     else (Inr (), putNode p None d))"

text \<open>\<open>fs.mkdirSync(p, { recursive: true })\<close>\<close>

definition mkdirRecursive :: "string list \<Rightarrow> unit diskM" where
  "mkdirRecursive p = (\<lambda>d.
     if list_ex (\<lambda>a. \<not> isDirOrNone (dk_nodes d a)) (prefixes p) then (Inl (TxFs ''ENOTDIR'' p), d)
     else (Inr (), d\<lparr>dk_nodes := (\<lambda>q. if prefix q p \<and> dk_nodes d q = None then Some DirNode else dk_nodes d q)\<rparr>))"

text \<open>\<open>symlinkSync\<close>, or \<open>copyFileSync\<close> and \<open>chmodSync\<close> with the low nine bits of the mode\<close>

fun writeCopy :: "string list \<Rightarrow> fsnode \<Rightarrow> unit diskM" where
  "writeCopy dst (LinkNode t) = modify (putNode dst (Some (LinkNode t)))"
| "writeCopy dst (FileNode c m) = modify (putNode dst (Some (FileNode c (m mod 512))))"
| "writeCopy dst DirNode = raise (TxFs ''EISDIR'' dst)"

function linkedParent :: "fsys \<Rightarrow> disk \<Rightarrow> string \<Rightarrow> string list \<Rightarrow> string list option" where
  "linkedParent fs d root dir =
     (if dir = [] \<or> joinPath dir = root \<or> \<not> isPathContained fs root (joinPath dir) then None
      else if fs_exists fs dir \<and> isLink (dk_nodes d dir) then Some dir
      else linkedParent fs d root (butlast dir))"
  by pat_completeness auto
termination by (relation "measure (\<lambda>(fs, d, root, dir). length dir)") auto

declare linkedParent.simps [simp del]

definition assertNoSymlinkedParent :: "(disk \<Rightarrow> fsys) \<Rightarrow> string \<Rightarrow> string list \<Rightarrow> unit diskM" where
  "assertNoSymlinkedParent fsy root target = (\<lambda>d. case linkedParent (fsy d) d root (butlast target) of
     None \<Rightarrow> (Inr (), d)
   | Some dir \<Rightarrow> (Inl (TxRefused (joinPath target)), d))"

definition applyEntry :: "(disk \<Rightarrow> fsys) \<Rightarrow> string \<Rightarrow> string \<Rightarrow> WriteEntry \<Rightarrow> unit diskM" where
  "applyEntry fsy root sourceRoot w =
     (let dst = resolvePath root (we_path w); src = resolvePath sourceRoot (we_path w) in
      thenDo (\<lambda>d. guardE (isPathContained (fsy d) root (joinPath dst)
                 \<and> isPathContained (fsy d) sourceRoot (joinPath src)) (TxRefused (we_path w)) d)
     (thenDo (assertNoSymlinkedParent fsy root dst)
      (if we_status w = Deleted then rmForce dst
       else thenDo (mkdirRecursive (butlast dst))
              (\<lambda>d. case dk_nodes d src of
                 None \<Rightarrow> (Inl (TxFs ''ENOENT'' src), d)
               | Some n \<Rightarrow> thenDo (rmForce dst) (writeCopy dst n) d))))"

definition applyWrites :: "(disk \<Rightarrow> fsys) \<Rightarrow> string \<Rightarrow> WriteEntry list \<Rightarrow> string \<Rightarrow> unit diskM" where
  "applyWrites fsy root writeSet sourceRoot = forEach writeSet (applyEntry fsy root sourceRoot)"

section \<open>What applying leaves\<close>

text \<open>A copy of a node of the fork.\<close>

fun copyOf :: "fsnode option \<Rightarrow> fsnode option" where
  "copyOf (Some (FileNode c m)) = Some (FileNode c (m mod 512))"
| "copyOf n = n"

definition dstOf :: "string \<Rightarrow> WriteEntry \<Rightarrow> string list" where
  "dstOf root e = resolvePath root (we_path e)"

text \<open>A directory some copied entry needs.\<close>

definition neededDir :: "string \<Rightarrow> WriteEntry list \<Rightarrow> string list \<Rightarrow> bool" where
  "neededDir root W q \<longleftrightarrow> (\<exists>e \<in> set W. we_status e \<noteq> Deleted \<and> strict_prefix q (dstOf root e))"

definition finalNodes :: "string \<Rightarrow> string \<Rightarrow> WriteEntry list \<Rightarrow> disk \<Rightarrow> string list \<Rightarrow> fsnode option" where
  "finalNodes root source W d q = (case find (\<lambda>e. dstOf root e = q) W of
     Some e \<Rightarrow> if we_status e = Deleted then None else copyOf (dk_nodes d (dstOf source e))
   | None \<Rightarrow> if dk_nodes d q = None \<and> neededDir root W q then Some DirNode else dk_nodes d q)"

text \<open>
  What an interrupted application, also one stopped between the removal and the copy of a file,
  can have done to the disk \<open>d\<close>.
\<close>

definition halfApplied :: "string \<Rightarrow> string \<Rightarrow> WriteEntry list \<Rightarrow> disk \<Rightarrow> disk \<Rightarrow> bool" where
  "halfApplied root source W d d' \<longleftrightarrow> (\<forall>q.
     dk_nodes d' q = dk_nodes d q \<or> dk_nodes d' q = finalNodes root source W d q
     \<or> (q \<in> dstOf root ` set W \<and> dk_nodes d' q = None))"

text \<open>
  The write sets that can be applied: the paths are distinct and stay inside the roots, none lies
  below another one, the fork has what is to be copied, and the main workspace has no directory
  where a file is to be written and no file or link where a directory is needed.
\<close>

definition applicable :: "(disk \<Rightarrow> fsys) \<Rightarrow> string \<Rightarrow> string \<Rightarrow> WriteEntry list \<Rightarrow> disk \<Rightarrow> bool" where
  "applicable fsy root source W d \<longleftrightarrow>
     distinct (map (dstOf root) W)
     \<and> (\<forall>e \<in> set W. \<forall>d'. halfApplied root source W d d' \<longrightarrow>
           isPathContained (fsy d') root (joinPath (dstOf root e))
           \<and> isPathContained (fsy d') source (joinPath (dstOf source e)))
     \<and> (\<forall>e \<in> set W. dstOf root e \<noteq> [] \<and> dk_nodes d (dstOf root e) \<noteq> Some DirNode
           \<and> (\<forall>q. strict_prefix q (dstOf root e) \<longrightarrow> isDirOrNone (dk_nodes d q) \<and> q \<notin> dstOf root ` set W)
           \<and> (we_status e \<noteq> Deleted \<longrightarrow> dk_nodes d (dstOf source e) \<notin> {None, Some DirNode}
                \<and> dstOf source e \<notin> dstOf root ` set W))"

section \<open>One entry\<close>

lemma isDirOrNone_iff: "isDirOrNone n \<longleftrightarrow> n = None \<or> n = Some DirNode"
  by (cases n rule: isDirOrNone.cases) auto

lemma linkedParent_none:
  assumes "\<And>q. prefix q dir \<Longrightarrow> \<not> isLink (dk_nodes d q)"
  shows "linkedParent fs d root dir = None"
  using assms
proof (induction fs d root dir rule: linkedParent.induct)
  case (1 fs d root dir)
  have "prefix (butlast dir) dir" by (cases dir rule: rev_cases) auto
  then have "\<not> isLink (dk_nodes d q)" if "prefix q (butlast dir)" for q
    using that 1(2) by (meson prefix_order.trans)
  with 1 show ?case by (subst linkedParent.simps) simp
qed

lemma strict_prefix_butlast: "strict_prefix q p \<longleftrightarrow> p \<noteq> [] \<and> prefix q (butlast p)"
  by (cases p rule: rev_cases) (auto simp: strict_prefix_def)

lemma final_dst:
  assumes "distinct (map (dstOf root) W)" and "e \<in> set W"
  shows "finalNodes root source W d (dstOf root e)
       = (if we_status e = Deleted then None else copyOf (dk_nodes d (dstOf source e)))"
proof -
  have "find (\<lambda>x. dstOf root x = dstOf root e) W = Some e"
    using assms by (induction W) auto
  then show ?thesis by (simp add: finalNodes_def)
qed

lemma final_other:
  assumes "q \<notin> dstOf root ` set W"
  shows "finalNodes root source W d q
     = (if dk_nodes d q = None \<and> neededDir root W q then Some DirNode else dk_nodes d q)"
proof -
  have "find (\<lambda>e. dstOf root e = q) W = None" using assms by (auto simp: find_None_iff)
  then show ?thesis by (simp add: finalNodes_def)
qed

text \<open>What applying one entry needs, on any disk between.\<close>

lemma between:
  assumes "applicable fsy root source W d" and "halfApplied root source W d d1" and "e \<in> set W"
  shows "dstOf root e \<noteq> []"
    and "strict_prefix q (dstOf root e) \<Longrightarrow> isDirOrNone (dk_nodes d1 q) \<and> q \<notin> dstOf root ` set W"
    and "dk_nodes d1 (dstOf root e) \<noteq> Some DirNode"
    and "we_status e \<noteq> Deleted \<Longrightarrow> dk_nodes d1 (dstOf source e) = dk_nodes d (dstOf source e)
          \<and> dk_nodes d (dstOf source e) \<notin> {None, Some DirNode} \<and> dstOf source e \<notin> dstOf root ` set W"
    and "isPathContained (fsy d1) root (joinPath (dstOf root e))
          \<and> isPathContained (fsy d1) source (joinPath (dstOf source e))"
proof -
  have A: "distinct (map (dstOf root) W)" "dstOf root e \<noteq> []" "dk_nodes d (dstOf root e) \<noteq> Some DirNode"
    "\<And>q. strict_prefix q (dstOf root e) \<Longrightarrow> isDirOrNone (dk_nodes d q) \<and> q \<notin> dstOf root ` set W"
    "we_status e \<noteq> Deleted \<Longrightarrow> dk_nodes d (dstOf source e) \<notin> {None, Some DirNode}
        \<and> dstOf source e \<notin> dstOf root ` set W"
    using assms(1,3) unfolding applicable_def by blast+
  have H: "dk_nodes d1 q = dk_nodes d q \<or> dk_nodes d1 q = finalNodes root source W d q
     \<or> (q \<in> dstOf root ` set W \<and> dk_nodes d1 q = None)" for q
    using assms(2) by (simp add: halfApplied_def)
  show "dstOf root e \<noteq> []" by (rule A)
  show "strict_prefix q (dstOf root e) \<Longrightarrow> isDirOrNone (dk_nodes d1 q) \<and> q \<notin> dstOf root ` set W"
    using A(4) [of q] H [of q] final_other [of q root W source d] by (auto simp: isDirOrNone_iff split: if_splits)
  have "copyOf (dk_nodes d (dstOf source e)) \<noteq> Some DirNode" if "we_status e \<noteq> Deleted"
    using A(5) [OF that] by (cases "dk_nodes d (dstOf source e)" rule: copyOf.cases) auto
  then show "dk_nodes d1 (dstOf root e) \<noteq> Some DirNode"
    using A(3) H [of "dstOf root e"] final_dst [OF A(1) assms(3), of source d] by (auto split: if_splits)
  show "dk_nodes d1 (dstOf source e) = dk_nodes d (dstOf source e)
          \<and> dk_nodes d (dstOf source e) \<notin> {None, Some DirNode} \<and> dstOf source e \<notin> dstOf root ` set W"
    if nd: "we_status e \<noteq> Deleted"
    using A(5) [OF nd] H [of "dstOf source e"] final_other [of "dstOf source e" root W source d] by auto
  show "isPathContained (fsy d1) root (joinPath (dstOf root e))
          \<and> isPathContained (fsy d1) source (joinPath (dstOf source e))"
    using assms unfolding applicable_def by blast
qed

lemma prefixes_butlast: "list_ex P (prefixes (butlast p)) \<longleftrightarrow> p \<noteq> [] \<and> (\<exists>q. strict_prefix q p \<and> P q) \<or> p = [] \<and> P []"
  by (auto simp: list_ex_iff strict_prefix_butlast)

lemma rm_runs:
  assumes "p \<noteq> []" and "\<And>q. strict_prefix q p \<Longrightarrow> isDirOrNone (dk_nodes d q)" and "dk_nodes d p \<noteq> Some DirNode"
  shows "rmForce p d = (Inr (), putNode p None d)"
  using assms by (auto simp: rmForce_def prefixes_butlast)

lemma mkdir_runs:
  assumes "p \<noteq> []" and "\<And>q. strict_prefix q p \<Longrightarrow> isDirOrNone (dk_nodes d q)"
  shows "mkdirRecursive (butlast p) d = (Inr (), d\<lparr>dk_nodes :=
    (\<lambda>q. if strict_prefix q p \<and> dk_nodes d q = None then Some DirNode else dk_nodes d q)\<rparr>)"
proof -
  have "\<not> list_ex (\<lambda>a. \<not> isDirOrNone (dk_nodes d a)) (prefixes (butlast p))"
    using assms by (auto simp: prefixes_butlast)
  then show ?thesis using assms(1) by (simp add: mkdirRecursive_def strict_prefix_butlast)
qed

definition entryNodes :: "string \<Rightarrow> string \<Rightarrow> WriteEntry \<Rightarrow> disk \<Rightarrow> string list \<Rightarrow> fsnode option" where
  "entryNodes root source e d q =
     (if q = dstOf root e then (if we_status e = Deleted then None else copyOf (dk_nodes d (dstOf source e)))
      else if we_status e \<noteq> Deleted \<and> strict_prefix q (dstOf root e) \<and> dk_nodes d q = None then Some DirNode
      else dk_nodes d q)"

lemma writeCopy_runs:
  assumes "n \<noteq> DirNode"
  shows "writeCopy p n d = (Inr (), putNode p (copyOf (Some n)) d)"
  using assms by (cases n) simp_all

lemma applyEntry_runs:
  assumes "applicable fsy root source W d" and "halfApplied root source W d d1" and "e \<in> set W"
  shows "\<exists>d2. applyEntry fsy root source e d1 = (Inr (), d2) \<and> dk_nodes d2 = entryNodes root source e d1"
proof -
  let ?p = "dstOf root e" and ?s = "dstOf source e"
  note B = between [OF assms]
  have nolink: "assertNoSymlinkedParent fsy root ?p d1 = (Inr (), d1)"
  proof -
    have "\<not> isLink (dk_nodes d1 q)" if "prefix q (butlast ?p)" for q
      using that B(1) B(2) [of q] by (auto simp: strict_prefix_butlast isDirOrNone_iff)
    from linkedParent_none [OF this] show ?thesis by (simp add: assertNoSymlinkedParent_def)
  qed
  have start: "applyEntry fsy root source e d1 = (if we_status e = Deleted then rmForce ?p d1
      else thenDo (mkdirRecursive (butlast ?p)) (\<lambda>d. case dk_nodes d ?s of
             None \<Rightarrow> (Inl (TxFs ''ENOENT'' ?s), d)
           | Some n \<Rightarrow> thenDo (rmForce ?p) (writeCopy ?p n) d) d1)"
    using B(5) nolink by (simp add: applyEntry_def Let_def thenDo_def andThen_def flip: dstOf_def)
  show ?thesis
  proof (cases "we_status e = Deleted")
    case True
    then show ?thesis
      using start rm_runs [OF B(1), of d1] B(2,3) by (auto simp: putNode_def entryNodes_def)
  next
    case False
    define m where "m = d1\<lparr>dk_nodes := (\<lambda>q. if strict_prefix q ?p \<and> dk_nodes d1 q = None then Some DirNode else dk_nodes d1 q)\<rparr>"
    obtain n where n: "dk_nodes d1 ?s = Some n" "n \<noteq> DirNode" using B(4) [OF False] by auto
    have mk: "mkdirRecursive (butlast ?p) d1 = (Inr (), m)"
      unfolding m_def using B(2) by (intro mkdir_runs [OF B(1)]) blast
    have src: "dk_nodes m ?s = Some n" using n by (simp add: m_def)
    have rm: "rmForce ?p m = (Inr (), putNode ?p None m)"
      using B(2,3) by (intro rm_runs [OF B(1)]) (auto simp: m_def)
    have "applyEntry fsy root source e d1 = (Inr (), putNode ?p (copyOf (Some n)) (putNode ?p None m))"
      using False start mk src rm writeCopy_runs [OF n(2)] by (simp add: thenDo_def andThen_def)
    moreover have "dk_nodes (putNode ?p (copyOf (Some n)) (putNode ?p None m)) = entryNodes root source e d1"
      using False n(1) by (auto simp: putNode_def m_def entryNodes_def)
    ultimately show ?thesis by blast
  qed
qed

section \<open>The whole write set\<close>

lemma entry_advances:
  assumes app: "applicable fsy root source W d" and half: "halfApplied root source W d d1" and e: "e \<in> set W"
    and d2: "dk_nodes d2 = entryNodes root source e d1"
  shows "halfApplied root source W d d2" and "dk_nodes d2 (dstOf root e) = finalNodes root source W d (dstOf root e)"
    and "dk_nodes d1 q = finalNodes root source W d q \<Longrightarrow> dk_nodes d2 q = finalNodes root source W d q"
    and "we_status e \<noteq> Deleted \<Longrightarrow> strict_prefix q (dstOf root e) \<Longrightarrow> dk_nodes d2 q \<noteq> None"
    and "q \<notin> dstOf root ` set W \<Longrightarrow> dk_nodes d1 q \<noteq> None \<Longrightarrow> dk_nodes d2 q \<noteq> None"
proof -
  note B = between [OF app half e]
  have dist: "distinct (map (dstOf root) W)" using app by (simp add: applicable_def)
  have H: "dk_nodes d1 q = dk_nodes d q \<or> dk_nodes d1 q = finalNodes root source W d q
     \<or> (q \<in> dstOf root ` set W \<and> dk_nodes d1 q = None)" for q
    using half by (simp add: halfApplied_def)
  show dst: "dk_nodes d2 (dstOf root e) = finalNodes root source W d (dstOf root e)"
    using B(4) final_dst [OF dist e, of source d] by (simp add: d2 entryNodes_def)
  have made: "finalNodes root source W d q = Some DirNode"
    if "we_status e \<noteq> Deleted" "strict_prefix q (dstOf root e)" "dk_nodes d1 q = None" for q
  proof -
    have q: "q \<notin> dstOf root ` set W" "neededDir root W q" using B(2) [OF that(2)] that(1,2) e by (auto simp: neededDir_def)
    have "dk_nodes d q = None" using H [of q] q that(3) final_other [OF q(1), of source d] by (auto split: if_splits)
    then show ?thesis using q by (simp add: final_other)
  qed
  show keep: "dk_nodes d1 q = finalNodes root source W d q \<Longrightarrow> dk_nodes d2 q = finalNodes root source W d q" for q
    using dst made [of q] by (auto simp: d2 entryNodes_def)
  show "halfApplied root source W d d2"
    unfolding halfApplied_def
  proof
    fix q
    consider "q = dstOf root e" | "dk_nodes d2 q = dk_nodes d1 q"
      | "we_status e \<noteq> Deleted" "strict_prefix q (dstOf root e)" "dk_nodes d1 q = None" "dk_nodes d2 q = Some DirNode"
      by (cases "q = dstOf root e";
          cases "we_status e \<noteq> Deleted \<and> strict_prefix q (dstOf root e) \<and> dk_nodes d1 q = None")
        (auto simp: d2 entryNodes_def)
    then show "dk_nodes d2 q = dk_nodes d q \<or> dk_nodes d2 q = finalNodes root source W d q
       \<or> (q \<in> dstOf root ` set W \<and> dk_nodes d2 q = None)"
      using dst made [of q] H [of q] by cases auto
  qed
  show "we_status e \<noteq> Deleted \<Longrightarrow> strict_prefix q (dstOf root e) \<Longrightarrow> dk_nodes d2 q \<noteq> None"
    by (auto simp: d2 entryNodes_def)
  show "q \<notin> dstOf root ` set W \<Longrightarrow> dk_nodes d1 q \<noteq> None \<Longrightarrow> dk_nodes d2 q \<noteq> None"
    using e by (auto simp: d2 entryNodes_def)
qed

lemma apply_from:
  assumes "applicable fsy root source W d" and "halfApplied root source W d d1" and "set V \<subseteq> set W"
  shows "\<exists>d2. applyWrites fsy root V source d1 = (Inr (), d2) \<and> halfApplied root source W d d2
    \<and> (\<forall>q. dk_nodes d1 q = finalNodes root source W d q \<longrightarrow> dk_nodes d2 q = finalNodes root source W d q)
    \<and> (\<forall>q. q \<notin> dstOf root ` set W \<and> dk_nodes d1 q \<noteq> None \<longrightarrow> dk_nodes d2 q \<noteq> None)
    \<and> (\<forall>e \<in> set V. dk_nodes d2 (dstOf root e) = finalNodes root source W d (dstOf root e)
          \<and> (we_status e \<noteq> Deleted \<longrightarrow> (\<forall>q. strict_prefix q (dstOf root e) \<longrightarrow> dk_nodes d2 q \<noteq> None)))"
  using assms(2,3)
proof (induction V arbitrary: d1)
  case Nil
  then show ?case by (auto simp: applyWrites_def)
next
  case (Cons e V)
  then have e: "e \<in> set W" by simp
  obtain dm where m: "applyEntry fsy root source e d1 = (Inr (), dm)" "dk_nodes dm = entryNodes root source e d1"
    using applyEntry_runs [OF assms(1) Cons.prems(1) e] by blast
  note A = entry_advances [OF assms(1) Cons.prems(1) e m(2)]
  have "set V \<subseteq> set W" using Cons.prems(2) by simp
  from Cons.IH [OF A(1) this] obtain d2 where d2:
    "applyWrites fsy root V source dm = (Inr (), d2)" "halfApplied root source W d d2"
    "\<forall>q. dk_nodes dm q = finalNodes root source W d q \<longrightarrow> dk_nodes d2 q = finalNodes root source W d q"
    "\<forall>q. q \<notin> dstOf root ` set W \<and> dk_nodes dm q \<noteq> None \<longrightarrow> dk_nodes d2 q \<noteq> None"
    "\<forall>e \<in> set V. dk_nodes d2 (dstOf root e) = finalNodes root source W d (dstOf root e)
       \<and> (we_status e \<noteq> Deleted \<longrightarrow> (\<forall>q. strict_prefix q (dstOf root e) \<longrightarrow> dk_nodes d2 q \<noteq> None))" by blast
  have run: "applyWrites fsy root (e # V) source d1 = (Inr (), d2)"
    using m(1) d2(1) by (simp add: applyWrites_def)
  have above: "dk_nodes d2 q \<noteq> None" if "we_status e \<noteq> Deleted" "strict_prefix q (dstOf root e)" for q
    using that A(4) d2(4) between(2) [OF assms(1) Cons.prems(1) e that(2)] by blast
  show ?case
    using run d2 A(2,3,5) above by (intro exI [of _ d2]) (simp del: not_None_eq)
qed

lemma apply_completes:
  assumes "applicable fsy root source W d" and "halfApplied root source W d d1"
  shows "\<exists>d2. applyWrites fsy root W source d1 = (Inr (), d2) \<and> dk_nodes d2 = finalNodes root source W d"
proof -
  from apply_from [OF assms subset_refl] obtain d2 where d2:
    "applyWrites fsy root W source d1 = (Inr (), d2)" "halfApplied root source W d d2"
    "\<forall>e \<in> set W. dk_nodes d2 (dstOf root e) = finalNodes root source W d (dstOf root e)
       \<and> (we_status e \<noteq> Deleted \<longrightarrow> (\<forall>q. strict_prefix q (dstOf root e) \<longrightarrow> dk_nodes d2 q \<noteq> None))" by blast
  have "dk_nodes d2 q = finalNodes root source W d q" for q
  proof (cases "q \<in> dstOf root ` set W")
    case False
    have "\<not> (neededDir root W q \<and> dk_nodes d2 q = None)" using d2(3) unfolding neededDir_def by blast
    then show ?thesis using False d2(2) final_other [OF False, of source d] unfolding halfApplied_def by metis
  qed (use d2(3) in auto)
  then show ?thesis using d2(1) by auto
qed

lemma half_refl: "halfApplied root source W d d"
  by (simp add: halfApplied_def)


section \<open>A concrete write set\<close>

definition plainFs :: "disk \<Rightarrow> fsys" where
  "plainFs d = \<lparr>fs_cwd = ''/'', fs_realpath = Some, fs_exists = (\<lambda>p. dk_nodes d p \<noteq> None)\<rparr>"

text \<open>The fork \<open>/f\<close> has changed \<open>x\<close>, deleted \<open>y\<close> and added \<open>s/z\<close>; the workspace is \<open>/w\<close>.\<close>

definition demoDisk :: disk where
  "demoDisk = \<lparr>dk_nodes = [[] \<mapsto> DirNode, [''w''] \<mapsto> DirNode, [''f''] \<mapsto> DirNode, [''f'', ''s''] \<mapsto> DirNode,
     [''w'', ''x''] \<mapsto> FileNode ''old'' 420, [''w'', ''y''] \<mapsto> FileNode ''y'' 420,
     [''f'', ''x''] \<mapsto> FileNode ''new'' 33261, [''f'', ''s'', ''z''] \<mapsto> LinkNode ''x''], dk_times = 0\<rparr>"

definition demoWrites :: "WriteEntry list" where
  "demoWrites = [\<lparr>we_status = Added, we_path = ''s/z''\<rparr>, \<lparr>we_status = Modified, we_path = ''x''\<rparr>,
     \<lparr>we_status = Deleted, we_path = ''y''\<rparr>]"

lemma demo_paths:
  "map (dstOf ''/w'') demoWrites = [[''w'', ''s'', ''z''], [''w'', ''x''], [''w'', ''y'']]"
  "map (dstOf ''/f'') demoWrites = [[''f'', ''s'', ''z''], [''f'', ''x''], [''f'', ''y'']]"
  by code_simp+

lemma demo_contained:
  "isPathContained (plainFs d) ''/w'' ''/w/s/z''" "isPathContained (plainFs d) ''/w'' ''/w/x''"
  "isPathContained (plainFs d) ''/w'' ''/w/y''" "isPathContained (plainFs d) ''/f'' ''/f/s/z''"
  "isPathContained (plainFs d) ''/f'' ''/f/x''" "isPathContained (plainFs d) ''/f'' ''/f/y''"
  by (simp_all add: isPathContained_def resolveRealPath_def realSegs_def plainFs_def resolvePath_def joinPath_def)

definition applicableNow :: "string \<Rightarrow> string \<Rightarrow> WriteEntry list \<Rightarrow> disk \<Rightarrow> bool" where
  "applicableNow root source W d \<longleftrightarrow> distinct (map (dstOf root) W)
     \<and> list_all (\<lambda>e. dstOf root e \<noteq> [] \<and> dk_nodes d (dstOf root e) \<noteq> Some DirNode
          \<and> list_all (\<lambda>q. isDirOrNone (dk_nodes d q) \<and> q \<notin> set (map (dstOf root) W)) (prefixes (butlast (dstOf root e)))
          \<and> (we_status e \<noteq> Deleted \<longrightarrow> dk_nodes d (dstOf source e) \<notin> {None, Some DirNode}
                \<and> dstOf source e \<notin> set (map (dstOf root) W))) W"

lemma applicable_now:
  assumes "applicableNow root source W d"
    and "\<And>e d'. e \<in> set W \<Longrightarrow> isPathContained (fsy d') root (joinPath (dstOf root e))
           \<and> isPathContained (fsy d') source (joinPath (dstOf source e))"
  shows "applicable fsy root source W d"
  using assms unfolding applicable_def applicableNow_def list_all_iff
  by (auto simp: strict_prefix_butlast)

lemma demo_applicable: "applicable plainFs ''/w'' ''/f'' demoWrites demoDisk"
proof (rule applicable_now)
  show "applicableNow ''/w'' ''/f'' demoWrites demoDisk" by code_simp
  have names: "joinPath [''w'', ''s'', ''z''] = ''/w/s/z''" "joinPath [''w'', ''x''] = ''/w/x''"
    "joinPath [''w'', ''y''] = ''/w/y''" "joinPath [''f'', ''s'', ''z''] = ''/f/s/z''"
    "joinPath [''f'', ''x''] = ''/f/x''" "joinPath [''f'', ''y''] = ''/f/y''" by code_simp+
  show "isPathContained (plainFs d') ''/w'' (joinPath (dstOf ''/w'' e))
      \<and> isPathContained (plainFs d') ''/f'' (joinPath (dstOf ''/f'' e))" if "e \<in> set demoWrites" for e d'
    using that demo_contained demo_paths unfolding demoWrites_def by (auto simp: names)
qed


section \<open>What cannot be applied\<close>

text \<open>
  A transaction that replaces a directory by a file cannot be applied at all: \<open>rmSync\<close> refuses
  the directory. One that replaces a file by a directory can be applied once and not again, so a
  crash after applying and before \<open>TX_COMMITTED\<close> leaves it uncommittable.
\<close>

definition swapDisk :: "fsnode \<Rightarrow> disk" where
  "swapDisk n = \<lparr>dk_nodes = [[] \<mapsto> DirNode, [''w''] \<mapsto> DirNode, [''f''] \<mapsto> DirNode,
     [''w'', ''a''] \<mapsto> n, [''w'', ''a'', ''b''] \<mapsto> FileNode ''1'' 420, [''f'', ''a''] \<mapsto> FileNode ''2'' 420], dk_times = 0\<rparr>"

lemma directory_by_file_fails:
  "fst (applyWrites plainFs ''/w'' [\<lparr>we_status = Added, we_path = ''a''\<rparr>, \<lparr>we_status = Deleted, we_path = ''a/b''\<rparr>]
      ''/f'' (swapDisk DirNode)) = Inl (TxFs ''ERR_FS_EISDIR'' [''w'', ''a''])"
  "fst (applyWrites plainFs ''/w'' [\<lparr>we_status = Deleted, we_path = ''a/b''\<rparr>, \<lparr>we_status = Added, we_path = ''a''\<rparr>]
      ''/f'' (swapDisk DirNode)) = Inl (TxFs ''ERR_FS_EISDIR'' [''w'', ''a''])"
  by code_simp+

definition splitDisk :: disk where
  "splitDisk = \<lparr>dk_nodes = [[] \<mapsto> DirNode, [''w''] \<mapsto> DirNode, [''f''] \<mapsto> DirNode,
     [''w'', ''a''] \<mapsto> FileNode ''1'' 420, [''f'', ''a''] \<mapsto> DirNode, [''f'', ''a'', ''b''] \<mapsto> FileNode ''2'' 420], dk_times = 0\<rparr>"

definition splitWrites :: "WriteEntry list" where
  "splitWrites = [\<lparr>we_status = Deleted, we_path = ''a''\<rparr>, \<lparr>we_status = Added, we_path = ''a/b''\<rparr>]"

lemma file_by_directory_once:
  "fst (applyWrites plainFs ''/w'' splitWrites ''/f'' splitDisk) = Inr ()"
  "fst (applyWrites plainFs ''/w'' splitWrites ''/f'' (snd (applyWrites plainFs ''/w'' splitWrites ''/f'' splitDisk)))
     = Inl (TxFs ''ERR_FS_EISDIR'' [''w'', ''a''])"
  by code_simp+

end
