(* ===== verification/WorkspaceIndex.thy ===== *)
theory WorkspaceIndex
  imports WorkspaceTypes
begin

text \<open>
  The evidence a workspace transaction keeps (\<open>src/src/workspace/incremental-index.ts\<close>) and
  the replay of an observation log (\<open>src/src/workspace/observation-replay.ts\<close>). SHA-256 of the
  JSON text of an index is a parameter; the host's replay and cutoff callbacks are parameters on
  a state they may change. An index passes through the journal and back unless one of its symbol
  keys is redacted there (\<open>index_roundtrip\<close>, \<open>redacted_symbol_refused\<close>).
\<close>

section \<open>The index\<close>

definition WORKSPACE_INDEX_SCHEMA_VERSION :: string where
  "WORKSPACE_INDEX_SCHEMA_VERSION = ''xio/workspace-index/1''"

datatype WorkspaceIndexCoverage = IcComplete | IcNonIgnored | IcDeclaredRoots | IcUnknown

fun coverageStr :: "WorkspaceIndexCoverage \<Rightarrow> string" where
  "coverageStr IcComplete = ''complete''"
| "coverageStr IcNonIgnored = ''non_ignored''"
| "coverageStr IcDeclaredRoots = ''declared_roots''"
| "coverageStr IcUnknown = ''unknown''"

record WorkspaceIncrementalIndex =
  wi_root :: string
  wi_readSet :: "string list option"
  wi_writeSet :: "WriteEntry list"
  wi_discoverySet :: "string list option"
  wi_symbolSlice :: "(string \<times> string) list option"
  wi_ignoredManifest :: "string option"
  wi_pathDependencies :: "string list option"
  wi_coverage :: WorkspaceIndexCoverage
  wi_coverageBasis :: "string list"
  wi_digest :: string

record WorkspaceIncrementalIndexInput =
  wx_root :: string
  wx_readSet :: "string list option"
  wx_writeSet :: "WriteEntry list"
  wx_discoverySet :: "string list option"
  wx_symbolSlice :: "(string \<times> string) list option"
  wx_ignoredManifest :: "string option"
  wx_pathDependencies :: "string list option"
  wx_coverageNotes :: "string list"

text \<open>\<open>x ?? null\<close> as JSON\<close>

definition nullJ :: "('a \<Rightarrow> json) \<Rightarrow> 'a option \<Rightarrow> json" where
  "nullJ f x = (case x of None \<Rightarrow> JNull | Some y \<Rightarrow> f y)"

definition sliceJson :: "(string \<times> string) list \<Rightarrow> json" where
  "sliceJson ss = JObj (map (\<lambda>(k, v). (k, JStr v)) ss)"

definition indexBody :: "WorkspaceIncrementalIndex \<Rightarrow> (string \<times> json) list" where
  "indexBody i = [(''schemaVersion'', JStr WORKSPACE_INDEX_SCHEMA_VERSION), (''root'', JStr (wi_root i)),
     (''readSet'', nullJ (listJson JStr) (wi_readSet i)),
     (''writeSet'', listJson writeJson (wi_writeSet i)),
     (''discoverySet'', nullJ (listJson JStr) (wi_discoverySet i)),
     (''symbolSlice'', nullJ sliceJson (wi_symbolSlice i)),
     (''ignoredManifest'', nullJ JStr (wi_ignoredManifest i)),
     (''pathDependencies'', nullJ (listJson JStr) (wi_pathDependencies i)),
     (''coverage'', JStr (coverageStr (wi_coverage i))),
     (''coverageBasis'', listJson JStr (wi_coverageBasis i))]"

definition indexJson :: "WorkspaceIncrementalIndex \<Rightarrow> json" where
  "indexJson i = JObj (indexBody i @ [(''digest'', JStr (wi_digest i))])"

definition workspaceIndexDigest :: "(json \<Rightarrow> string) \<Rightarrow> (string \<times> json) list \<Rightarrow> string" where
  "workspaceIndexDigest sha body = sha (JObj body)"

definition uniqueSorted :: "string list option \<Rightarrow> string list option" where
  "uniqueSorted xs = map_option (\<lambda>ys. sortBy id (uniqueList ys)) xs"

definition stableSymbolSlice :: "(string \<times> string) list option \<Rightarrow> (string \<times> string) list option" where
  "stableSymbolSlice s = map_option (sortBy fst) s"

definition normalizeWriteSet :: "WriteEntry list \<Rightarrow> WriteEntry list" where
  "normalizeWriteSet ws = sortBy we_path (sortBy (\<lambda>w. changeStr (we_status w)) ws)"

definition buildWorkspaceIncrementalIndex ::
    "(json \<Rightarrow> string) \<Rightarrow> WorkspaceIncrementalIndexInput \<Rightarrow> WorkspaceIncrementalIndex" where
  "buildWorkspaceIncrementalIndex sha x =
     (let readSet = uniqueSorted (wx_readSet x);
          discoverySet = uniqueSorted (wx_discoverySet x);
          pathDependencies = uniqueSorted (wx_pathDependencies x);
          symbolSlice = stableSymbolSlice (wx_symbolSlice x);
          missing = (if readSet = None then [''read_set_unobserved''] else [])
            @ (if discoverySet = None then [''discovery_set_unobserved''] else [])
            @ (if pathDependencies = None then [''path_dependencies_unobserved''] else []);
          captured = truthy (wx_ignoredManifest x) \<noteq> None;
          i = \<lparr>wi_root = wx_root x, wi_readSet = readSet, wi_writeSet = normalizeWriteSet (wx_writeSet x),
               wi_discoverySet = discoverySet, wi_symbolSlice = symbolSlice,
               wi_ignoredManifest = wx_ignoredManifest x, wi_pathDependencies = pathDependencies,
               wi_coverage = (if missing \<noteq> [] then IcUnknown else if captured then IcComplete else IcNonIgnored),
               wi_coverageBasis =
                 (if missing \<noteq> [] then missing
                  else [''read_set_observed'', ''discovery_set_scanned'', ''path_dependencies_scanned''])
                 @ (if captured then [''ignored_manifest_captured''] else [''ignored_manifest_not_captured''])
                 @ (if symbolSlice \<noteq> None then [''symbol_slice_declared''] else [''symbol_slice_not_declared''])
                 @ wx_coverageNotes x,
               wi_digest = []\<rparr>
      in i\<lparr>wi_digest := workspaceIndexDigest sha (indexBody i)\<rparr>)"

definition mergeNullableSets :: "string list option \<Rightarrow> string list option \<Rightarrow> string list option" where
  "mergeNullableSets a b = (case (a, b) of (Some xs, Some ys) \<Rightarrow> uniqueSorted (Some (xs @ ys)) | _ \<Rightarrow> None)"

definition mergeWorkspaceIncrementalIndex ::
    "(json \<Rightarrow> string) \<Rightarrow> WorkspaceIncrementalIndex option \<Rightarrow> WorkspaceIncrementalIndex \<Rightarrow> WorkspaceIncrementalIndex" where
  "mergeWorkspaceIncrementalIndex sha previous current = (case previous of None \<Rightarrow> current
     | Some p \<Rightarrow> buildWorkspaceIncrementalIndex sha
         \<lparr>wx_root = wi_root current, wx_readSet = mergeNullableSets (wi_readSet p) (wi_readSet current),
          wx_writeSet = wi_writeSet current,
          wx_discoverySet = mergeNullableSets (wi_discoverySet p) (wi_discoverySet current),
          wx_symbolSlice = coalesce (wi_symbolSlice p) (wi_symbolSlice current),
          wx_ignoredManifest = coalesce (wi_ignoredManifest p) (wi_ignoredManifest current),
          wx_pathDependencies = mergeNullableSets (wi_pathDependencies p) (wi_pathDependencies current),
          wx_coverageNotes = []\<rparr>)"

section \<open>Reading an index back\<close>

text \<open>\<open>T | null\<close>\<close>

definition readNullable :: "(json \<Rightarrow> 'a option) \<Rightarrow> json \<Rightarrow> 'a option option" where
  "readNullable f j = (if j = JNull then Some None else map_option Some (f j))"

definition readSlice :: "json \<Rightarrow> (string \<times> string) list option" where
  "readSlice j = (case j of
     JObj fs \<Rightarrow> allValues (map (\<lambda>(k, v). map_option (Pair k) (jstring v)) fs) | _ \<Rightarrow> None)"

definition readCoverage :: "json \<Rightarrow> WorkspaceIndexCoverage option" where
  "readCoverage j = find (\<lambda>c. j = JStr (coverageStr c)) [IcComplete, IcNonIgnored, IcDeclaredRoots, IcUnknown]"

definition readIndex :: "json \<Rightarrow> WorkspaceIncrementalIndex option" where
  "readIndex j = (case (jfield j ''root'', readNullable (readList jstring) (jfield j ''readSet''),
       readList readWrite (jfield j ''writeSet''), readNullable (readList jstring) (jfield j ''discoverySet''),
       readNullable readSlice (jfield j ''symbolSlice''), readNullable jstring (jfield j ''ignoredManifest''),
       readNullable (readList jstring) (jfield j ''pathDependencies''), readCoverage (jfield j ''coverage''),
       readList jstring (jfield j ''coverageBasis''), jfield j ''digest'') of
     (JStr r, Some rs, Some ws, Some ds, Some ss, Some im, Some pd, Some c, Some cb, JStr d) \<Rightarrow>
       Some \<lparr>wi_root = r, wi_readSet = rs, wi_writeSet = ws, wi_discoverySet = ds, wi_symbolSlice = ss,
             wi_ignoredManifest = im, wi_pathDependencies = pd, wi_coverage = c, wi_coverageBasis = cb,
             wi_digest = d\<rparr>
   | _ \<Rightarrow> None)"

text \<open>
  The checks of \<open>parseWorkspaceIncrementalIndex\<close>, then the cast of the value to an index: a value
  that carries its own digest and is not an index reads as \<open>None\<close> here.
\<close>

definition parseWorkspaceIncrementalIndex :: "(json \<Rightarrow> string) \<Rightarrow> json \<Rightarrow> WorkspaceIncrementalIndex option" where
  "parseWorkspaceIncrementalIndex sha v = (case v of
     JObj fs \<Rightarrow>
       (case (jfield v ''schemaVersion'' = JStr WORKSPACE_INDEX_SCHEMA_VERSION, jfield v ''digest'',
              jfield v ''root'', jfield v ''writeSet'') of
          (True, JStr digest, JStr _, JArr _) \<Rightarrow>
            if workspaceIndexDigest sha (filter (\<lambda>(k, _). k \<noteq> ''digest'') fs) \<noteq> digest then None
            else readIndex v
        | _ \<Rightarrow> None)
   | _ \<Rightarrow> None)"

section \<open>Replaying an observation log\<close>

record ObservationStepOutcome =
  so_resultHash :: "string option"
  so_cutoffHash :: "string option"
  so_cutoff :: "bool option"

text \<open>What a replay callback returns: a bare hash, nothing, or an outcome.\<close>

datatype RawOutcome = RawHash string | RawNothing | RawOutcome ObservationStepOutcome

record NormalOutcome =
  no_resultHash :: "string option"
  no_cutoffHash :: "string option"
  no_cutoff :: bool

fun normalizeStepOutcome :: "RawOutcome \<Rightarrow> NormalOutcome" where
  "normalizeStepOutcome (RawHash h) = \<lparr>no_resultHash = Some h, no_cutoffHash = None, no_cutoff = False\<rparr>"
| "normalizeStepOutcome RawNothing = \<lparr>no_resultHash = None, no_cutoffHash = None, no_cutoff = False\<rparr>"
| "normalizeStepOutcome (RawOutcome o') = \<lparr>no_resultHash = so_resultHash o', no_cutoffHash = so_cutoffHash o',
     no_cutoff = (so_cutoff o' = Some True)\<rparr>"

datatype DivergeReason = ObservationChanged | MutationNotApplicable

record ReplayDivergence =
  rd_at :: nat
  rd_reason :: DivergeReason
  rd_error :: "string option"

text \<open>The cutoff indices, and where the replay diverged (\<open>None\<close>: every step matched).\<close>

type_synonym ReplayOutcome = "nat list \<times> ReplayDivergence option"

text \<open>
  The host's callbacks: each may change the fork, the \<open>'w\<close>, and may throw a message.
\<close>

record 'w ObservationValidation =
  ov_log :: "ObservationEntry list"
  ov_replay :: "ObservationEntry \<Rightarrow> string \<Rightarrow> ('w, string, RawOutcome) act"
  ov_canCutoff :: "(ObservationEntry \<Rightarrow> NormalOutcome \<Rightarrow> nat \<Rightarrow> string \<Rightarrow> ('w, string, bool) act) option"

definition drifted :: "ObservationEntry \<Rightarrow> NormalOutcome \<Rightarrow> bool" where
  "drifted e n \<longleftrightarrow> (obe_kind e = ''observe'' \<or> obe_resultHash e \<noteq> None) \<and> no_resultHash n \<noteq> obe_resultHash e"

definition hashCutoff :: "ObservationEntry \<Rightarrow> NormalOutcome \<Rightarrow> bool" where
  "hashCutoff e n \<longleftrightarrow> obe_cutoffHash e \<noteq> None \<and> no_cutoffHash n = obe_cutoffHash e"

text \<open>One step: whether it matched as recorded, was cut off, or neither; a throw is a divergence.\<close>

datatype StepVerdict = StepSame | StepCutoff | StepChanged

definition replayStep ::
    "'w ObservationValidation \<Rightarrow> nat \<Rightarrow> ObservationEntry \<Rightarrow> string \<Rightarrow> ('w, string, StepVerdict) act" where
  "replayStep v i e root = andThen (ov_replay v e root) (\<lambda>raw.
     let n = normalizeStepOutcome raw
     in if \<not> drifted e n then ret StepSame
        else if no_cutoff n \<or> hashCutoff e n then ret StepCutoff
        else case ov_canCutoff v of None \<Rightarrow> ret StepChanged
          | Some f \<Rightarrow> andThen (f e n i root) (\<lambda>ok. ret (if ok then StepCutoff else StepChanged)))"

fun replayFrom ::
    "'w ObservationValidation \<Rightarrow> string \<Rightarrow> nat \<Rightarrow> nat list \<Rightarrow> ObservationEntry list \<Rightarrow> 'w \<Rightarrow> ReplayOutcome \<times> 'w" where
  "replayFrom v root i cuts [] w = ((cuts, None), w)"
| "replayFrom v root i cuts (e # es) w =
     (case replayStep v i e root w of
        (Inr StepSame, w') \<Rightarrow> replayFrom v root (Suc i) cuts es w'
      | (Inr StepCutoff, w') \<Rightarrow> replayFrom v root (Suc i) (cuts @ [i]) es w'
      | (Inr StepChanged, w') \<Rightarrow>
          ((cuts, Some \<lparr>rd_at = i, rd_reason = ObservationChanged, rd_error = None\<rparr>), w')
      | (Inl m, w') \<Rightarrow>
          ((cuts, Some \<lparr>rd_at = i,
              rd_reason = (if obe_kind e = ''mutate'' then MutationNotApplicable else ObservationChanged),
              rd_error = Some m\<rparr>), w'))"

definition replayObservationLog :: "'w ObservationValidation \<Rightarrow> string \<Rightarrow> 'w \<Rightarrow> ReplayOutcome \<times> 'w" where
  "replayObservationLog v root = replayFrom v root 0 [] (ov_log v)"

section \<open>Discovery output\<close>

fun splitLines :: "string \<Rightarrow> string list" where
  "splitLines [] = [[]]"
| "splitLines (c # s) = (if of_char c = (10 :: nat) then [] # splitLines s
     else (case splitLines s of [] \<Rightarrow> [[c]] | l # ls \<Rightarrow> (c # l) # ls))"

text \<open>\<open>trim\<close>: the white space of ISO 8859-1.\<close>

definition isSpace :: "char \<Rightarrow> bool" where
  "isSpace c = (let n = of_char c :: nat in (9 \<le> n \<and> n \<le> 13) \<or> n = 32 \<or> n = 160)"

definition trimLine :: "string \<Rightarrow> string" where
  "trimLine s = rev (dropWhile isSpace (rev (dropWhile isSpace s)))"

definition lineSet :: "string \<Rightarrow> string list" where
  "lineSet text = uniqueList (filter (\<lambda>l. l \<noteq> []) (map trimLine (splitLines text)))"

record DiscoveryCutoff =
  dc_isSuperset :: bool
  dc_unchanged :: "string list"
  dc_added :: "string list"
  dc_removed :: "string list"

definition computeDiscoverySetCutoff :: "string \<Rightarrow> string \<Rightarrow> DiscoveryCutoff" where
  "computeDiscoverySetCutoff recordedOutput currentOutput =
     (let recorded = lineSet recordedOutput; current = lineSet currentOutput;
          unchanged = sortBy id (filter (\<lambda>l. l \<in> set current) recorded);
          removed = sortBy id (filter (\<lambda>l. l \<notin> set current) recorded);
          added = sortBy id (filter (\<lambda>l. l \<notin> set recorded) current)
      in \<lparr>dc_isSuperset = (removed = [] \<and> length unchanged = length recorded),
          dc_unchanged = unchanged, dc_added = added, dc_removed = removed\<rparr>)"

section \<open>Comments\<close>

text \<open>
  \<open>stripCommentsPreservingStrings\<close>: the loop over the source, inside a string (with its quote),
  a line comment or a block comment. Characters 10, 34, 39, 42, 47, 92 and 96 are the newline,
  the quotes, the star, the slash, the backslash and the backtick.
\<close>

datatype ScanMode = InCode | InString char | InLine | InBlock

abbreviation charCode :: "char \<Rightarrow> nat" where
  "charCode c \<equiv> of_char c"

definition isQuote :: "char \<Rightarrow> bool" where
  "isQuote c \<longleftrightarrow> charCode c = 39 \<or> charCode c = 34 \<or> charCode c = 96"

fun stripFrom :: "ScanMode \<Rightarrow> string \<Rightarrow> string" where
  "stripFrom m [] = []"
| "stripFrom InCode (c # s) =
     (if isQuote c then c # stripFrom (InString c) s
      else if charCode c = 47 \<and> (case s of d # _ \<Rightarrow> charCode d = 47 | [] \<Rightarrow> False) then stripFrom InLine (tl s)
      else if charCode c = 47 \<and> (case s of d # _ \<Rightarrow> charCode d = 42 | [] \<Rightarrow> False) then stripFrom InBlock (tl s)
      else c # stripFrom InCode s)"
| "stripFrom (InString q) (c # s) =
     (if charCode c = 92 then (case s of [] \<Rightarrow> [c] | d # r \<Rightarrow> c # d # stripFrom (InString q) r)
      else if c = q then c # stripFrom InCode s
      else c # stripFrom (InString q) s)"
| "stripFrom InLine (c # s) = (if charCode c = 10 then c # stripFrom InCode s else stripFrom InLine s)"
| "stripFrom InBlock (c # s) =
     (if charCode c = 42 \<and> (case s of d # _ \<Rightarrow> charCode d = 47 | [] \<Rightarrow> False) then stripFrom InCode (tl s)
      else stripFrom InBlock s)"

definition stripCommentsPreservingStrings :: "string \<Rightarrow> string" where
  "stripCommentsPreservingStrings s = stripFrom InCode s"

section \<open>The symbol slice of a source\<close>

text \<open>\<open>/^\s*\d+\|/\<close> removed from a line\<close>

definition isDigitChar :: "char \<Rightarrow> bool" where
  "isDigitChar c \<longleftrightarrow> 48 \<le> charCode c \<and> charCode c \<le> 57"

definition dropLineNumber :: "string \<Rightarrow> string" where
  "dropLineNumber l = (let r = dropWhile isSpace l; t = dropWhile isDigitChar r
     in if length t < length r \<and> prefix ''|'' t then tl t else l)"

fun joinLines :: "string list \<Rightarrow> string" where
  "joinLines [] = []"
| "joinLines [l] = l"
| "joinLines (l # m # ls) = l @ CHR 0x0A # joinLines (m # ls)"

text \<open>\<open>\b\<close> between two positions, and \<open>\bname\b\<close> for an escaped symbol\<close>

definition isWordChar :: "char \<Rightarrow> bool" where
  "isWordChar c \<longleftrightarrow> isAlpha c \<or> isDigitChar c \<or> c = CHR ''_''"

definition boundary :: "string \<Rightarrow> nat \<Rightarrow> bool" where
  "boundary s i \<longleftrightarrow> (0 < i \<and> i \<le> length s \<and> isWordChar (s ! (i - 1))) \<noteq> (i < length s \<and> isWordChar (s ! i))"

definition matchesSymbol :: "string \<Rightarrow> string \<Rightarrow> bool" where
  "matchesSymbol line name = list_ex (\<lambda>i. boundary line i \<and> prefix name (drop i line)
     \<and> boundary line (i + length name)) [0..<Suc (length line)]"

fun collapseSpace :: "bool \<Rightarrow> string \<Rightarrow> string" where
  "collapseSpace inside [] = []"
| "collapseSpace inside (c # s) =
     (if isSpace c then (if inside then collapseSpace True s else CHR '' '' # collapseSpace True s)
      else c # collapseSpace False s)"

text \<open>The loop over the lines; \<open>block\<close> is the depth at which the captured block started.\<close>

fun sliceLines :: "string list \<Rightarrow> int \<Rightarrow> int option \<Rightarrow> string list \<Rightarrow> string list" where
  "sliceLines syms depth block [] = []"
| "sliceLines syms depth block (l # ls) =
     (let block1 = (if list_ex (matchesSymbol l) syms \<and> block = None then Some depth else block);
          depth' = depth + int (count_list l (CHR 0x7B)) - int (count_list l (CHR 0x7D));
          block2 = (case block1 of Some b \<Rightarrow> if depth' \<le> b then None else Some b | None \<Rightarrow> None)
      in (if block1 \<noteq> None then [collapseSpace False l] else []) @ sliceLines syms depth' block2 ls)"

definition computeSymbolSliceCutoffHash :: "(string \<Rightarrow> string) \<Rightarrow> string \<Rightarrow> string list option \<Rightarrow> string" where
  "computeSymbolSliceCutoffHash sha source symbols =
     (let unnumbered = joinLines (map dropLineNumber (splitLines source));
          lines = filter (\<lambda>l. l \<noteq> []) (map trimLine (splitLines (stripCommentsPreservingStrings unnumbered)))
      in case symbols of
           None \<Rightarrow> take 16 (sha (joinLines lines))
         | Some [] \<Rightarrow> take 16 (sha (joinLines lines))
         | Some (y # ys) \<Rightarrow> take 16 (sha (joinLines (sliceLines (y # ys) 0 None lines))))"

section \<open>Stripping comments twice\<close>

text \<open>The text kept never starts a comment that was not there, so stripping is idempotent.\<close>

lemma stripFrom_head:
  "\<not> isQuote c \<Longrightarrow> charCode c \<noteq> 47 \<Longrightarrow> stripFrom InCode (c # s) = c # stripFrom InCode s"
  by simp

lemma strip_idem:
  "(m = InLine \<or> m = InBlock \<longrightarrow> stripFrom InCode (stripFrom m s) = stripFrom m s)
   \<and> (m = InCode \<longrightarrow> stripFrom InCode (stripFrom m s) = stripFrom m s)
   \<and> (\<forall>q. m = InString q \<longrightarrow> stripFrom (InString q) (stripFrom m s) = stripFrom m s)"
proof (induction m s rule: stripFrom.induct)
  case (2 c s)
  show ?case
  proof (cases "isQuote c")
    case True
    then show ?thesis using 2 by simp
  next
    case False
    show ?thesis
    proof (cases s)
      case Nil
      then show ?thesis using 2 False by simp
    next
      case (Cons d r)
      have keep: "\<exists>t. stripFrom InCode (d # r) = d # t" if "charCode d \<noteq> 47"
        using that by simp
      show ?thesis
        using 2 False Cons keep by (auto split: if_splits)
    qed
  qed
qed (auto split: list.splits if_splits simp: isQuote_def)

lemma stripComments_idempotent:
  "stripCommentsPreservingStrings (stripCommentsPreservingStrings s) = stripCommentsPreservingStrings s"
  using strip_idem [of InCode s] by (simp add: stripCommentsPreservingStrings_def)

section \<open>The cutoff of a discovery\<close>

lemma set_insertBy [simp]: "set (insertBy key x ys) = insert x (set ys)"
  by (induction ys) auto

lemma set_sortBy [simp]: "set (sortBy key xs) = set xs"
  by (induction xs) (simp_all add: sortBy_def)

lemma length_insertBy [simp]: "length (insertBy key x ys) = Suc (length ys)"
  by (induction ys) auto

lemma length_sortBy [simp]: "length (sortBy key xs) = length xs"
  by (induction xs) (simp_all add: sortBy_def)

lemma sortBy_Nil_iff [simp]: "sortBy key xs = [] \<longleftrightarrow> xs = []"
  using length_sortBy [of key xs] by (metis length_0_conv)

lemma discovery_cutoff:
  fixes a b
  defines "r \<equiv> computeDiscoverySetCutoff a b"
  shows "dc_isSuperset r \<longleftrightarrow> set (lineSet a) \<subseteq> set (lineSet b)"
    and "set (lineSet a) = set (dc_unchanged r) \<union> set (dc_removed r)"
    and "set (lineSet b) = set (dc_unchanged r) \<union> set (dc_added r)"
proof -
  have all: "set (lineSet a) \<subseteq> set (lineSet b) \<Longrightarrow> filter (\<lambda>l. l \<in> set (lineSet b)) (lineSet a) = lineSet a"
    by (rule filter_True) auto
  show "dc_isSuperset r \<longleftrightarrow> set (lineSet a) \<subseteq> set (lineSet b)"
    using all by (auto simp: r_def computeDiscoverySetCutoff_def Let_def filter_empty_conv)
qed (auto simp: r_def computeDiscoverySetCutoff_def Let_def)

section \<open>An index in the journal\<close>

definition plainSlice :: "WorkspaceIncrementalIndex \<Rightarrow> bool" where
  "plainSlice i \<longleftrightarrow> (\<forall>ss. wi_symbolSlice i = Some ss \<longrightarrow> (\<forall>(k, v) \<in> set ss. \<not> SECRET_KEY k))"

lemma index_keys [simp]:
  "\<not> SECRET_KEY ''schemaVersion''" "\<not> SECRET_KEY ''root''" "\<not> SECRET_KEY ''readSet''"
  "\<not> SECRET_KEY ''writeSet''" "\<not> SECRET_KEY ''discoverySet''" "\<not> SECRET_KEY ''symbolSlice''"
  "\<not> SECRET_KEY ''ignoredManifest''" "\<not> SECRET_KEY ''pathDependencies''" "\<not> SECRET_KEY ''coverage''"
  "\<not> SECRET_KEY ''coverageBasis''" "\<not> SECRET_KEY ''digest''"
  by code_simp+

lemma jsonFields_slice:
  "jsonFields (map (\<lambda>(k, v). (k, JStr v)) ss)
     = Inr (map (\<lambda>(k, v). (k, JStr v)) (filter (\<lambda>(k, v). \<not> SECRET_KEY k) ss))"
  by (induction ss) auto

lemma jsonValue_nullable:
  "(\<And>y. x = Some y \<Longrightarrow> jsonValue (f y) = Inr (f y)) \<Longrightarrow> jsonValue (nullJ f x) = Inr (nullJ f x)"
  by (cases x) (simp_all add: nullJ_def)

lemma listJson_neq [simp]: "listJson f xs \<noteq> JUndef" "listJson f xs \<noteq> JNull" "sliceJson ss \<noteq> JNull"
  by (simp_all add: listJson_def sliceJson_def)

lemma nullJ_neq: "(\<And>y. f y \<noteq> JUndef) \<Longrightarrow> nullJ f x \<noteq> JUndef"
  by (cases x) (simp_all add: nullJ_def)

lemma nullJ_defined [simp]:
  "nullJ (listJson f) x \<noteq> JUndef" "nullJ sliceJson y \<noteq> JUndef" "nullJ JStr z \<noteq> JUndef"
  by (simp_all add: nullJ_neq sliceJson_def)

lemma index_stored:
  assumes "plainSlice i"
  shows "jsonValue (indexJson i) = Inr (indexJson i)"
proof -
  have "jsonValue (nullJ sliceJson (wi_symbolSlice i)) = Inr (nullJ sliceJson (wi_symbolSlice i))"
  proof (rule jsonValue_nullable)
    fix ss
    assume "wi_symbolSlice i = Some ss"
    then have "filter (\<lambda>(k, v). \<not> SECRET_KEY k) ss = ss"
      using assms by (intro filter_True) (auto simp: plainSlice_def)
    then show "jsonValue (sliceJson ss) = Inr (sliceJson ss)" by (simp add: sliceJson_def jsonFields_slice)
  qed
  then show ?thesis
    by (simp add: indexJson_def indexBody_def jsonValue_nullable)
qed

lemma readNullable_null [simp]:
  "(\<And>y. f (g y) = Some y) \<Longrightarrow> (\<And>y. g y \<noteq> JNull) \<Longrightarrow> readNullable f (nullJ g x) = Some x"
  by (cases x) (simp_all add: readNullable_def nullJ_def)

lemma readSlice_json [simp]: "readSlice (sliceJson ss) = Some ss"
proof -
  have "allValues (map (\<lambda>(k, v). map_option (Pair k) (jstring v)) (map (\<lambda>(k, v). (k, JStr v)) ss)) = Some ss"
    by (induction ss) auto
  then show ?thesis by (simp add: readSlice_def sliceJson_def)
qed

lemma readCoverage_str [simp]: "readCoverage (JStr (coverageStr c)) = Some c"
  by (cases c) (simp_all add: readCoverage_def)

lemma readIndex_json: "readIndex (indexJson i) = Some i"
  by (simp add: readIndex_def indexJson_def indexBody_def)

lemma index_fields:
  "jfield (indexJson i) ''schemaVersion'' = JStr WORKSPACE_INDEX_SCHEMA_VERSION"
  "jfield (indexJson i) ''digest'' = JStr (wi_digest i)" "jfield (indexJson i) ''root'' = JStr (wi_root i)"
  "jfield (indexJson i) ''writeSet'' = JArr (map writeJson (wi_writeSet i))"
  by (simp_all add: indexJson_def indexBody_def listJson_def)

lemma parse_index:
  "parseWorkspaceIncrementalIndex sha (indexJson i)
     = (if workspaceIndexDigest sha (indexBody i) \<noteq> wi_digest i then None else Some i)"
proof -
  have "filter (\<lambda>(k, _). k \<noteq> ''digest'') (indexBody i @ [(''digest'', JStr (wi_digest i))]) = indexBody i"
    by (simp add: indexBody_def)
  moreover obtain fs where "indexJson i = JObj fs" "fs = indexBody i @ [(''digest'', JStr (wi_digest i))]"
    by (simp add: indexJson_def)
  ultimately show ?thesis
    using index_fields [of i] readIndex_json [of i] by (simp add: parseWorkspaceIncrementalIndex_def)
qed

lemma parse_stored:
  "wi_digest i = workspaceIndexDigest sha (indexBody i) \<Longrightarrow> parseWorkspaceIncrementalIndex sha (indexJson i) = Some i"
  by (simp add: parse_index)

lemma indexBody_digest [simp]: "indexBody (i\<lparr>wi_digest := d\<rparr>) = indexBody i"
  by (simp add: indexBody_def)

lemma sealed: "wi_digest (i\<lparr>wi_digest := workspaceIndexDigest sha (indexBody i)\<rparr>)
    = workspaceIndexDigest sha (indexBody (i\<lparr>wi_digest := workspaceIndexDigest sha (indexBody i)\<rparr>))"
  by simp

lemma build_digest:
  "wi_digest (buildWorkspaceIncrementalIndex sha x)
     = workspaceIndexDigest sha (indexBody (buildWorkspaceIncrementalIndex sha x))"
  unfolding buildWorkspaceIncrementalIndex_def Let_def by (rule sealed)

text \<open>An index that \<open>buildWorkspaceIncrementalIndex\<close> made passes through the journal, which
  redacts payloads by their keys, and is accepted again with the same contents, provided that no
  key of its symbol slice is one that the journal redacts.\<close>

theorem index_roundtrip:
  assumes "plainSlice (buildWorkspaceIncrementalIndex sha x)"
  shows "\<exists>j. jsonValue (indexJson (buildWorkspaceIncrementalIndex sha x)) = Inr j
     \<and> parseWorkspaceIncrementalIndex sha j = Some (buildWorkspaceIncrementalIndex sha x)"
  using index_stored [OF assms] parse_stored [OF build_digest] by blast

definition demoIndexInput :: WorkspaceIncrementalIndexInput where
  "demoIndexInput = \<lparr>wx_root = ''/w'', wx_readSet = Some [''b'', ''a'', ''b''],
     wx_writeSet = [\<lparr>we_status = Modified, we_path = ''b''\<rparr>], wx_discoverySet = Some [''./''],
     wx_symbolSlice = Some [(''a#f'', ''1'')], wx_ignoredManifest = Some ''m'', wx_pathDependencies = Some [],
     wx_coverageNotes = []\<rparr>"

definition demoSha :: "json \<Rightarrow> string" where
  "demoSha j = (case jfield j ''symbolSlice'' of JObj ss \<Rightarrow> concat (map fst ss) | _ \<Rightarrow> ''none'')"

theorem index_roundtrip_witness:
  "\<exists>j. jsonValue (indexJson (buildWorkspaceIncrementalIndex demoSha demoIndexInput)) = Inr j
     \<and> parseWorkspaceIncrementalIndex demoSha j = Some (buildWorkspaceIncrementalIndex demoSha demoIndexInput)"
proof (rule index_roundtrip)
  have "wi_symbolSlice (buildWorkspaceIncrementalIndex demoSha demoIndexInput) = Some [(''a#f'', ''1'')]"
    by code_simp
  moreover have "\<not> SECRET_KEY ''a#f''" by code_simp
  ultimately show "plainSlice (buildWorkspaceIncrementalIndex demoSha demoIndexInput)"
    by (simp add: plainSlice_def)
qed

lemma demo_index: "wi_readSet (buildWorkspaceIncrementalIndex demoSha demoIndexInput) = Some [''a'', ''b'']
    \<and> wi_coverage (buildWorkspaceIncrementalIndex demoSha demoIndexInput) = IcComplete"
  by code_simp

text \<open>
  Without that proviso the journal drops the key, the digest no longer fits, and (unless SHA-256
  collides) the index is refused: a transaction then loses its accumulated evidence.
\<close>

lemma redacted_symbol_refused:
  assumes "inj sha" and "wi_digest i = workspaceIndexDigest sha (indexBody i)" and "\<not> plainSlice i"
    and "jsonValue (indexJson i) = Inr j"
  shows "parseWorkspaceIncrementalIndex sha j = None"
proof -
  obtain ss where ss: "wi_symbolSlice i = Some ss" "\<exists>(k, v) \<in> set ss. SECRET_KEY k"
    using assms(3) by (auto simp: plainSlice_def)
  define i' where "i' = i\<lparr>wi_symbolSlice := Some (filter (\<lambda>(k, v). \<not> SECRET_KEY k) ss)\<rparr>"
  have "filter (\<lambda>(k, v). \<not> SECRET_KEY k) ss \<noteq> ss" using ss(2) by (auto simp: filter_id_conv)
  then have "sliceJson (filter (\<lambda>(k, v). \<not> SECRET_KEY k) ss) \<noteq> sliceJson ss" by (metis option.inject readSlice_json)
  then have "indexBody i' \<noteq> indexBody i" using ss(1) by (simp add: i'_def indexBody_def nullJ_def)
  then have differs: "workspaceIndexDigest sha (indexBody i') \<noteq> wi_digest i'"
    using assms(1,2) by (simp add: i'_def workspaceIndexDigest_def inj_eq)
  have j: "j = indexJson i'"
    using assms(4) ss(1)
    by (simp add: indexJson_def indexBody_def i'_def jsonValue_nullable nullJ_def [where f = sliceJson]
        sliceJson_def jsonFields_slice)
  show ?thesis using differs unfolding j by (simp add: parse_index)
qed

end
