(* ===== verification/Transactions.thy ===== *)
theory Transactions
  imports Domain TxApply WorkspaceIndex Text
begin

text \<open>
  Workspace transactions: \<open>src/src/workspace/transactions.ts\<close>. The state is the domain (its store
  holds the journal, its lock table the write leases), the disk, and the transactions opened by
  this process. Every method of \<open>WorkspaceTransactions\<close> is a computation on that state; an
  \<open>await\<close> runs to its end, and commits and aborts are serialised by the manager's own queue, so a
  commit is one computation. Parameters (\<open>txHost\<close>): the host's snapshot operations and Git
  (\<open>fingerprint\<close>, \<open>diff-tree\<close>, the repository root), the scan of access times, \<open>fs.realpathSync\<close>
  and \<open>existsSync\<close>, SHA-256, and the host's replay callbacks.
\<close>

section \<open>State\<close>

datatype ReadTracking = TrackAtime | TrackUnobserved

fun trackingStr :: "ReadTracking \<Rightarrow> string" where
  "trackingStr TrackAtime = ''atime''"
| "trackingStr TrackUnobserved = ''unobserved''"

datatype TxStatus = TxOpen | TxCommitting | TxCommitted | TxConflicted

text \<open>The transaction with the fields of \<open>OpenTransaction\<close>.\<close>

record OpenTransaction =
  tx_txId :: string
  tx_runId :: string
  tx_root :: string
  tx_forkRoot :: string
  tx_forkPath :: string
  tx_repoRoot :: string
  tx_baseSnapshotId :: string
  tx_beginSeq :: int
  tx_readTracking :: ReadTracking
  tx_pathDependencies :: "string list option"
  tx_status :: TxStatus

text \<open>The variables of the running commit that its closures share; commits run one at a time.\<close>

record commitFlags =
  cf_held :: bool
  cf_durable :: bool
  cf_committed :: bool

record world =
  tw_domain :: domain
  tw_disk :: disk
  tw_open :: "(string, OpenTransaction) jsmap"
  tw_flags :: commitFlags

type_synonym 'a txM = "(world, TxError, 'a) act"

record txHost =
  th_now :: millis
  th_gone :: "nat \<Rightarrow> bool"
  th_sha :: "json \<Rightarrow> string"
  th_fsy :: "disk \<Rightarrow> fsys"
  th_driverName :: string
  th_repoRoot :: "disk \<Rightarrow> string \<Rightarrow> TxError + string"
  th_fingerprint :: "disk \<Rightarrow> string \<Rightarrow> SnapshotRef \<Rightarrow> TxError + string"
  th_diffTrees :: "string \<Rightarrow> string \<Rightarrow> string \<Rightarrow> TxError + WriteEntry list"
  th_scan :: "disk \<Rightarrow> string \<Rightarrow> (string list \<times> string list \<times> string list) option"
  th_normalize :: "disk \<Rightarrow> string \<Rightarrow> nat \<times> string list"
  th_probe :: "disk \<Rightarrow> string \<Rightarrow> ReadTracking"
  th_available :: "string \<Rightarrow> world \<Rightarrow> TxError + unit"
  th_capture :: "string \<Rightarrow> string \<Rightarrow> string \<Rightarrow> SnapshotRef txM"
  th_materialize :: "string \<Rightarrow> string \<Rightarrow> unit txM"
  th_dematerialize :: "string \<Rightarrow> string option \<Rightarrow> unit txM"
  th_prune :: "string \<Rightarrow> string \<Rightarrow> unit txM"

definition inDom :: "'a domM \<Rightarrow> 'a txM" where
  "inDom m = (\<lambda>w. case m (tw_domain w) of
     (Inl e, d) \<Rightarrow> (Inl (TxKernel e), w\<lparr>tw_domain := d\<rparr>) | (Inr x, d) \<Rightarrow> (Inr x, w\<lparr>tw_domain := d\<rparr>))"

definition onDisk :: "'a diskM \<Rightarrow> 'a txM" where
  "onDisk m = (\<lambda>w. case m (tw_disk w) of (r, d) \<Rightarrow> (r, w\<lparr>tw_disk := d\<rparr>))"

definition answer :: "TxError + 'a \<Rightarrow> 'a txM" where
  "answer r = (\<lambda>w. (r, w))"

abbreviation worldStore :: "world \<Rightarrow> store" where
  "worldStore w \<equiv> dm_store (tw_domain w)"

definition setTx :: "OpenTransaction \<Rightarrow> unit txM" where
  "setTx tx = modify (\<lambda>w. w\<lparr>tw_open := mapSet (tx_txId tx) tx (tw_open w)\<rparr>)"

definition dropTx :: "string \<Rightarrow> unit txM" where
  "dropTx txId = modify (\<lambda>w. w\<lparr>tw_open := mapDel txId (tw_open w)\<rparr>)"

section \<open>Paths\<close>

definition relSegs :: "string list \<Rightarrow> string list \<Rightarrow> string list" where
  "relSegs a b = (let c = longest_common_prefix a b
     in replicate (length a - length c) ''..'' @ drop (length c) b)"

fun joinSegs :: "string list \<Rightarrow> string" where
  "joinSegs [] = []"
| "joinSegs [s] = s"
| "joinSegs (s # t # ss) = s @ CHR ''/'' # joinSegs (t # ss)"

definition relativePath :: "string \<Rightarrow> string \<Rightarrow> string" where
  "relativePath a b = joinSegs (relSegs (resolvePath ''/'' a) (resolvePath ''/'' b))"

definition joinPaths :: "string \<Rightarrow> string \<Rightarrow> string" where
  "joinPaths a b = joinPath (resolvePath ''/'' (a @ ''/'' @ b))"

definition realPath :: "txHost \<Rightarrow> disk \<Rightarrow> string \<Rightarrow> TxError + string" where
  "realPath H d p = (case fs_realpath (th_fsy H d) (resolvePath (fs_cwd (th_fsy H d)) p) of
     None \<Rightarrow> Inl (TxFs ''ENOENT'' (resolvePath (fs_cwd (th_fsy H d)) p)) | Some q \<Rightarrow> Inr (joinPath q))"

definition existsPath :: "txHost \<Rightarrow> disk \<Rightarrow> string \<Rightarrow> bool" where
  "existsPath H d p = fs_exists (th_fsy H d) (resolvePath (fs_cwd (th_fsy H d)) p)"

definition replayForkPath :: "OpenTransaction \<Rightarrow> string" where
  "replayForkPath tx = tx_forkPath tx @ ''-replay''"

section \<open>The journal of a transaction\<close>

definition recordTx :: "txHost \<Rightarrow> string \<Rightarrow> string \<Rightarrow> json \<Rightarrow> int txM" where
  "recordTx H runId type payload = inDom (\<lambda>d. inStore (recordEventAndTransitionState
     (mkEvent (dm_domainId d) (Some runId) None type payload (th_now H))) d)"

definition txJournal :: "string \<Rightarrow> world \<Rightarrow> JournalEvent list" where
  "txJournal txId w = filter (\<lambda>e. startsWith (ev_type e) ''TX_'' \<and> jfield (ev_payload e) ''txId'' = JStr txId)
     (getJournalEvents (dm_domainId (tw_domain w)) 0 None None (worldStore w))"

definition readStr :: "json \<Rightarrow> string" where
  "readStr j = (case j of JStr s \<Rightarrow> s | _ \<Rightarrow> [])"

text \<open>\<open>x ?? null\<close> for a list of strings\<close>

definition readStrs :: "json \<Rightarrow> string list option" where
  "readStrs j = readList jstring j"

definition txIdValid :: "string \<Rightarrow> bool" where
  "txIdValid s \<longleftrightarrow> (case s of [] \<Rightarrow> False
     | c # cs \<Rightarrow> (isAlpha c \<or> isDigit c) \<and> list_all (\<lambda>x. isAlpha x \<or> isDigit x \<or> x \<in> set ''._-'') cs)"

text \<open>\<open>require\<close>: from memory, or rebuilt from the journal.\<close>

definition requireTx :: "txHost \<Rightarrow> string \<Rightarrow> OpenTransaction txM" where
  "requireTx H txId = (\<lambda>w. case mapGet (tw_open w) txId of
     Some tx \<Rightarrow> (Inr tx, w)
   | None \<Rightarrow>
      (let events = txJournal txId w in
       case find (\<lambda>e. ev_type e = ''TX_BEGUN'') events of
         None \<Rightarrow> (Inl (TxMessage ''does not exist''), w)
       | Some begun \<Rightarrow>
          if list_ex (\<lambda>e. ev_type e = ''TX_COMMITTED'' \<or> ev_type e = ''TX_ABORTED'') events
          then (Inl (TxMessage ''is already closed''), w)
          else (let p = ev_payload begun; forkRoot = readStr (jfield p ''forkRoot''); root = readStr (jfield p ''root'') in
            if \<not> existsPath H (tw_disk w) forkRoot then (Inl (TxMessage ''cannot resume: its fork is gone''), w)
            else andThen (answer (th_repoRoot H (tw_disk w) root)) (\<lambda>repoRoot.
              let tx = \<lparr>tx_txId = txId, tx_runId = (case ev_runId begun of Some r \<Rightarrow> r | None \<Rightarrow> []),
                   tx_root = root, tx_forkRoot = forkRoot, tx_forkPath = readStr (jfield p ''forkPath''),
                   tx_repoRoot = repoRoot, tx_baseSnapshotId = readStr (jfield p ''baseSnapshotId''),
                   tx_beginSeq = ev_seq begun,
                   tx_readTracking = (if jfield p ''readTracking'' = JStr ''atime'' then TrackAtime else TrackUnobserved),
                   tx_pathDependencies = readStrs (jfield p ''pathDependencies''),
                   tx_status = (if list_ex (\<lambda>e. ev_type e = ''TX_COMMITTING'') events then TxCommitting
                     else if list_ex (\<lambda>e. ev_type e = ''TX_CONFLICTED'') events then TxConflicted else TxOpen)\<rparr>
              in thenDo (setTx tx) (ret tx)) w)))"

section \<open>Beginning\<close>

record BeginOptions =
  bo_txId :: string
  bo_runId :: string
  bo_root :: string
  bo_forkPath :: string
  bo_baseSnapshotId :: "string option"

text \<open>The base snapshot given by the host, or a new one.\<close>

definition baseSnapshot :: "txHost \<Rightarrow> BeginOptions \<Rightarrow> string \<Rightarrow> SnapshotRef txM" where
  "baseSnapshot H o' root = (case bo_baseSnapshotId o' of
     None \<Rightarrow> th_capture H (bo_runId o') (bo_txId o' @ ''-base'') root
   | Some sid \<Rightarrow> (\<lambda>w. let d = tw_domain w in
       if \<not> (case getRun (bo_runId o') (worldStore w) of None \<Rightarrow> False
             | Some run \<Rightarrow> run_domainId run = dm_domainId d \<and> run_status run \<in> {RQueued, RStarting, RRunning})
       then (Inl (TxMessage ''A workspace transaction requires an active Run in its domain''), w)
       else (case getSnapshot sid (worldStore w) of
           None \<Rightarrow> (Inl (TxMessage ''Transaction base snapshot must cover the same root in this domain''), w)
         | Some saved \<Rightarrow>
             if snap_domainId saved \<noteq> dm_domainId d \<or> snap_driver saved \<noteq> th_driverName H
               \<or> length (snap_roots saved) \<noteq> 1
             then (Inl (TxMessage ''Transaction base snapshot must cover the same root in this domain''), w)
             else andThen (answer (realPath H (tw_disk w) (hd (snap_roots saved)))) (\<lambda>r.
               if r \<noteq> root then raise (TxMessage ''Transaction base snapshot must cover the same root in this domain'')
               else ret saved) w)))"

definition normalizeTimes :: "txHost \<Rightarrow> string \<Rightarrow> string list txM" where
  "normalizeTimes H root = (\<lambda>w. case th_normalize H (tw_disk w) root of (t, links) \<Rightarrow>
     (Inr links, w\<lparr>tw_disk := (tw_disk w)\<lparr>dk_times := t\<rparr>\<rparr>))"

definition forkLinks :: "txHost \<Rightarrow> ReadTracking \<Rightarrow> string \<Rightarrow> string list txM" where
  "forkLinks H tracking forkRoot = (if tracking = TrackAtime then normalizeTimes H forkRoot
     else (\<lambda>w. case th_scan H (tw_disk w) forkRoot of
         None \<Rightarrow> (Inl (TxFs ''scan'' []), w) | Some (_, _, links) \<Rightarrow> (Inr links, w)))"

definition beginTx :: "txHost \<Rightarrow> BeginOptions \<Rightarrow> OpenTransaction txM" where
  "beginTx H o' =
     thenDo (guardE (txIdValid (bo_txId o')) (TxMessage ''Invalid workspace transaction id''))
    (thenDo (\<lambda>w. guardE (mapGet (tw_open w) (bo_txId o') = None \<and> txJournal (bo_txId o') w = [])
               (TxMessage ''already exists'') w)
    (andThen (\<lambda>w. answer (realPath H (tw_disk w) (bo_root o')) w) (\<lambda>root.
     andThen (\<lambda>w. answer (th_repoRoot H (tw_disk w) root) w) (\<lambda>repoRoot.
     andThen (baseSnapshot H o' root) (\<lambda>base.
     andThen (\<lambda>w. ret (joinPath (resolvePath (fs_cwd (th_fsy H (tw_disk w))) (bo_forkPath o'))) w) (\<lambda>forkPath.
     thenDo (th_materialize H (snap_id base) forkPath)
    (andThen (\<lambda>w. answer (realPath H (tw_disk w) forkPath) w) (\<lambda>realFork.
     (let forkRoot = joinPaths realFork (relativePath repoRoot root) in
      andThen (\<lambda>w. ret (th_probe H (tw_disk w) (joinPath (butlast (resolvePath ''/'' forkPath)))) w) (\<lambda>tracking.
      andThen (forkLinks H tracking forkRoot) (\<lambda>links.
      andThen (recordTx H (bo_runId o') ''TX_BEGUN'' (JObj [(''txId'', JStr (bo_txId o')), (''root'', JStr root),
          (''forkPath'', JStr forkPath), (''forkRoot'', JStr forkRoot), (''baseSnapshotId'', JStr (snap_id base)),
          (''readTracking'', JStr (trackingStr tracking)), (''pathDependencies'', listJson JStr links)])) (\<lambda>beginSeq.
      (let tx = \<lparr>tx_txId = bo_txId o', tx_runId = bo_runId o', tx_root = root, tx_forkRoot = forkRoot,
                 tx_forkPath = forkPath, tx_repoRoot = repoRoot, tx_baseSnapshotId = snap_id base,
                 tx_beginSeq = beginSeq, tx_readTracking = tracking, tx_pathDependencies = Some links,
                 tx_status = TxOpen\<rparr>
       in thenDo (setTx tx) (ret tx))))))))))))))"

section \<open>Effects\<close>

record TransactionEffects =
  te_readTracking :: ReadTracking
  te_readSet :: "string list option"
  te_pathDependencies :: "string list option"
  te_writeSet :: "WriteEntry list"
  te_workspaceIndex :: WorkspaceIncrementalIndex

text \<open>Hints: an absent field is \<open>None\<close>, an explicit \<open>null\<close> is \<open>Some None\<close>.\<close>

record WorkspaceIndexHints =
  wh_discoverySet :: "string list option option"
  wh_symbolSlice :: "(string \<times> string) list option option"
  wh_ignoredManifest :: "string option option"

definition noHints :: WorkspaceIndexHints where
  "noHints = \<lparr>wh_discoverySet = None, wh_symbolSlice = None, wh_ignoredManifest = None\<rparr>"

text \<open>\<open>diffTrees\<close> below the transaction root, with paths relative to it\<close>

definition relativeDiff :: "txHost \<Rightarrow> string \<Rightarrow> string \<Rightarrow> string \<Rightarrow> TxError + WriteEntry list" where
  "relativeDiff H pre from to' =
     (case th_diffTrees H from to' (if pre = [] then ''.'' else pre) of Inl e \<Rightarrow> Inl e
      | Inr cs \<Rightarrow> Inr (map (\<lambda>c. if pre = [] then c else c\<lparr>we_path := relativePath pre (we_path c)\<rparr>) cs))"

text \<open>The reads recorded by earlier inspections: \<open>earlier.flatMap((e) => e.payload.x ?? [])\<close>\<close>

definition earlierSet :: "string \<Rightarrow> JournalEvent list \<Rightarrow> string list" where
  "earlierSet key es = concat (map (\<lambda>e. case readStrs (jfield (ev_payload e) key) of Some xs \<Rightarrow> xs | None \<Rightarrow> []) es)"

definition previousIndex :: "txHost \<Rightarrow> JournalEvent list \<Rightarrow> WorkspaceIncrementalIndex option" where
  "previousIndex H es = Option.bind (find (\<lambda>i. i \<noteq> None)
     (map (\<lambda>e. parseWorkspaceIncrementalIndex (th_sha H) (jfield (ev_payload e) ''workspaceIndex'')) (rev es))) id"

text \<open>The evidence of one inspection, as an index over the write set \<open>ws\<close>.\<close>

definition evidenceIndex ::
    "txHost \<Rightarrow> WorkspaceIndexHints \<Rightarrow> OpenTransaction \<Rightarrow> WorkspaceIncrementalIndex option \<Rightarrow> SnapshotRef
      \<Rightarrow> bool \<Rightarrow> string list \<Rightarrow> string list option \<Rightarrow> string list option \<Rightarrow> WriteEntry list \<Rightarrow> WorkspaceIncrementalIndex" where
  "evidenceIndex H hints tx previous base scanFailed discovered readSet pathDependencies ws =
     buildWorkspaceIncrementalIndex (th_sha H)
       \<lparr>wx_root = tx_root tx, wx_readSet = readSet, wx_writeSet = ws,
        wx_discoverySet = (if scanFailed then None else case wh_discoverySet hints of
            Some None \<Rightarrow> None | Some (Some ds) \<Rightarrow> Some (discovered @ ds) | None \<Rightarrow> Some discovered),
        wx_symbolSlice = (case wh_symbolSlice hints of Some s \<Rightarrow> s | None \<Rightarrow> Option.bind previous wi_symbolSlice),
        wx_ignoredManifest = (case wh_ignoredManifest hints of Some m \<Rightarrow> m
          | None \<Rightarrow> coalesce (snap_ignoredManifestDigest base) (Option.bind previous wi_ignoredManifest)),
        wx_pathDependencies = pathDependencies,
        wx_coverageNotes = (if scanFailed then [''workspace_scan_failed''] else [])\<rparr>"

text \<open>The reads are written to the journal before Git reads the fork for its write set.\<close>

definition gatherEffects ::
    "txHost \<Rightarrow> OpenTransaction \<Rightarrow> SnapshotRef \<Rightarrow> WorkspaceIncrementalIndex option \<Rightarrow> string list option
      \<Rightarrow> string list option \<Rightarrow> (WriteEntry list \<Rightarrow> WorkspaceIncrementalIndex) \<Rightarrow> TransactionEffects txM" where
  "gatherEffects H tx base previous readSet pathDependencies index =
     thenDo (recordTx H (tx_runId tx) ''TX_READS'' (JObj [(''txId'', JStr (tx_txId tx)),
         (''readSet'', nullJ (listJson JStr) readSet),
         (''pathDependencies'', nullJ (listJson JStr) pathDependencies),
         (''workspaceIndex'', indexJson (index []))]))
    (andThen (\<lambda>w. answer (th_fingerprint H (tw_disk w) (tx_forkRoot tx) base) w) (\<lambda>current.
     andThen (\<lambda>w. answer (th_repoRoot H (tw_disk w) (tx_forkRoot tx)) w) (\<lambda>forkRepo.
     andThen (answer (relativeDiff H (relativePath forkRepo (tx_forkRoot tx)) (snap_treeFingerprint base) current))
       (\<lambda>writeSet.
     thenDo (if tx_readTracking tx = TrackAtime
             then thenDo (normalizeTimes H (tx_forkRoot tx)) (ret ()) else ret ())
       (ret \<lparr>te_readTracking = tx_readTracking tx, te_readSet = readSet,
             te_pathDependencies = pathDependencies, te_writeSet = writeSet,
             te_workspaceIndex = mergeWorkspaceIncrementalIndex (th_sha H) previous (index writeSet)\<rparr>)))))"

definition effectsOf :: "txHost \<Rightarrow> WorkspaceIndexHints \<Rightarrow> OpenTransaction \<Rightarrow> TransactionEffects txM" where
  "effectsOf H hints tx = (\<lambda>w.
     let scan = th_scan H (tw_disk w) (tx_forkRoot tx);
         scanFailed = (scan = None);
         (reads, discovered, links) = (case scan of Some r \<Rightarrow> r | None \<Rightarrow> ([], [], []));
         earlier = filter (\<lambda>e. ev_type e = ''TX_READS'') (txJournal (tx_txId tx) w);
         previous = previousIndex H earlier;
         readSet = (if tx_readTracking tx = TrackAtime \<and> \<not> scanFailed
           then Some (sortBy id (uniqueList (earlierSet ''readSet'' earlier @ reads))) else None);
         pathDependencies = (case (scanFailed, tx_pathDependencies tx) of
             (False, Some own) \<Rightarrow>
               Some (sortBy id (uniqueList (own @ earlierSet ''pathDependencies'' earlier @ links)))
           | _ \<Rightarrow> None)
     in (case getSnapshot (tx_baseSnapshotId tx) (worldStore w) of
          None \<Rightarrow> (Inl (TxMessage ''base snapshot of transaction is missing''), w)
        | Some base \<Rightarrow> gatherEffects H tx base previous readSet pathDependencies
            (evidenceIndex H hints tx previous base scanFailed discovered readSet pathDependencies) w))"

section \<open>Validation\<close>

datatype ConflictKind = WriteWrite | ReadWrite | ExternalWrite

record TransactionConflict =
  tc_path :: string
  tc_kind :: ConflictKind
  tc_otherTxId :: "string option"

text \<open>\<open>path.posix.dirname\<close> of a relative path\<close>

definition dirKey :: "string \<Rightarrow> string" where
  "dirKey p = (let segs = filter (\<lambda>s. s \<noteq> []) (splitSlash p)
     in (if length segs \<le> 1 then ''.'' else joinSegs (butlast segs)) @ ''/'')"

definition conflictOf ::
    "TransactionEffects \<Rightarrow> ConflictKind \<Rightarrow> ConflictKind \<Rightarrow> string option \<Rightarrow> WriteEntry \<Rightarrow> TransactionConflict list" where
  "conflictOf mine writeKind readKind otherTxId w =
     (let myWrites = map we_path (te_writeSet mine);
          myReads = (case te_readSet mine of Some rs \<Rightarrow> rs | None \<Rightarrow> []);
          links = (case te_pathDependencies mine of Some ps \<Rightarrow> ps | None \<Rightarrow> [])
      in if we_path w \<in> set myWrites
         then [\<lparr>tc_path = we_path w, tc_kind = writeKind, tc_otherTxId = otherTxId\<rparr>]
         else if we_path w \<in> set myReads \<or> te_pathDependencies mine = None \<or> we_path w \<in> set links
         then [\<lparr>tc_path = we_path w, tc_kind = readKind, tc_otherTxId = otherTxId\<rparr>]
         else if we_status w = Added \<or> we_status w = Deleted
         then (if dirKey (we_path w) \<in> set myReads
               then [\<lparr>tc_path = dirKey (we_path w), tc_kind = readKind, tc_otherTxId = otherTxId\<rparr>] else [])
         else [])"

definition intersect ::
    "TransactionEffects \<Rightarrow> WriteEntry list \<Rightarrow> ConflictKind \<Rightarrow> ConflictKind \<Rightarrow> string option \<Rightarrow> TransactionConflict list" where
  "intersect mine others writeKind readKind otherTxId =
     concat (map (conflictOf mine writeKind readKind otherTxId) others)"

definition eventWrites :: "JournalEvent \<Rightarrow> WriteEntry list" where
  "eventWrites e = (case readList readWrite (jfield (ev_payload e) ''writeSet'') of Some ws \<Rightarrow> ws | None \<Rightarrow> [])"

text \<open>The transactions on the same root committed since this one began.\<close>

definition committedAfter :: "OpenTransaction \<Rightarrow> world \<Rightarrow> JournalEvent list" where
  "committedAfter tx w = filter (\<lambda>e. ev_type e = ''TX_COMMITTED''
       \<and> jfield (ev_payload e) ''root'' = JStr (tx_root tx) \<and> jfield (ev_payload e) ''txId'' \<noteq> JStr (tx_txId tx))
     (getJournalEvents (dm_domainId (tw_domain w)) (tx_beginSeq tx) None None (worldStore w))"

definition mainChangesSinceBase :: "txHost \<Rightarrow> OpenTransaction \<Rightarrow> WriteEntry list txM" where
  "mainChangesSinceBase H tx = (\<lambda>w. case getSnapshot (tx_baseSnapshotId tx) (worldStore w) of
     None \<Rightarrow> (Inl (TxMessage ''TypeError: base snapshot is undefined''), w)
   | Some base \<Rightarrow> andThen (answer (th_fingerprint H (tw_disk w) (tx_root tx) base)) (\<lambda>current.
       answer (relativeDiff H (relativePath (tx_repoRoot tx) (tx_root tx)) (snap_treeFingerprint base) current)) w)"

definition validateTx :: "txHost \<Rightarrow> OpenTransaction \<Rightarrow> TransactionEffects \<Rightarrow> TransactionConflict list txM" where
  "validateTx H tx effects = (\<lambda>w.
     let others = committedAfter tx w;
         explained = map we_path (concat (map eventWrites others));
         committed = concat (map (\<lambda>e. intersect effects (eventWrites e) WriteWrite ReadWrite
           (jstring (jfield (ev_payload e) ''txId''))) others)
     in andThen (mainChangesSinceBase H tx) (\<lambda>changes.
          ret (committed @ intersect effects (filter (\<lambda>c. we_path c \<notin> set explained) changes)
                 ExternalWrite ExternalWrite None)) w)"

definition unchangedSince :: "txHost \<Rightarrow> OpenTransaction \<Rightarrow> string \<Rightarrow> bool txM" where
  "unchangedSince H tx snapshotId = (\<lambda>w. case getSnapshot snapshotId (worldStore w) of
     None \<Rightarrow> (Inl (TxMessage ''TypeError: snapshot is undefined''), w)
   | Some s \<Rightarrow> andThen (answer (th_fingerprint H (tw_disk w) (tx_root tx) s))
       (\<lambda>fp. ret (fp = snap_treeFingerprint s)) w)"

section \<open>Inspecting and aborting\<close>

definition underLease :: "txHost \<Rightarrow> string \<Rightarrow> string list \<Rightarrow> 'a txM \<Rightarrow> 'a txM" where
  "underLease H owner resources body =
     thenDo (\<lambda>w. answer (th_available H owner w) w)
    (thenDo (inDom (allocateResources owner resources 0 None)) (\<lambda>w.
      let (r, w1) = body w in
      (case inDom (internalReleaseResources (th_gone H) (th_now H) owner []) w1 of
         (Inl e, w2) \<Rightarrow> (Inl e, w2) | (Inr _, w2) \<Rightarrow> (r, w2))))"

definition inspectTx :: "txHost \<Rightarrow> WorkspaceIndexHints \<Rightarrow> string \<Rightarrow> TransactionEffects txM" where
  "inspectTx H hints txId = andThen (requireTx H txId) (\<lambda>tx.
     underLease H (txId @ '':inspect'') [''workspace:write:'' @ tx_forkRoot tx] (effectsOf H hints tx))"

text \<open>The replay forks and snapshots left by earlier attempts.\<close>

definition discardReplayFork :: "txHost \<Rightarrow> OpenTransaction \<Rightarrow> unit txM" where
  "discardReplayFork H tx =
     thenDo (\<lambda>w. (if existsPath H (tw_disk w) (replayForkPath tx)
                 then th_dematerialize H (replayForkPath tx) None else ret ()) w)
       (\<lambda>w. forEach (filter (\<lambda>e. ev_type e = ''TX_REPLAY_STARTED'') (txJournal (tx_txId tx) w))
          (\<lambda>e w. let sid = readStr (jfield (ev_payload e) ''snapshotId'') in
             (if getSnapshot sid (worldStore w) \<noteq> None then th_prune H sid (tx_runId tx) else ret ()) w) w)"

definition abortTx :: "txHost \<Rightarrow> string \<Rightarrow> string \<Rightarrow> unit txM" where
  "abortTx H txId reason = andThen (requireTx H txId) (\<lambda>tx.
     thenDo (guardE (tx_status tx \<noteq> TxCommitting) (TxMessage ''is committing; call commit() again to finish applying it''))
       (underLease H (txId @ '':abort'') [''workspace:write:'' @ tx_forkRoot tx]
         (thenDo (th_dematerialize H (tx_forkPath tx) (Some (txId @ '':abort'')))
         (thenDo (discardReplayFork H tx)
         (thenDo (recordTx H (tx_runId tx) ''TX_ABORTED'' (JObj [(''txId'', JStr txId), (''reason'', JStr reason)]))
           (dropTx txId))))))"

section \<open>Committing\<close>

datatype CommitValidation = CvObservations | CvFiles | CvWriteOnly

fun validationStr :: "CommitValidation \<Rightarrow> string" where
  "validationStr CvObservations = ''observations''"
| "validationStr CvFiles = ''files''"
| "validationStr CvWriteOnly = ''write_only''"

datatype ObservationOutcome =
    NotAttempted string
  | DivergedAt nat DivergeReason
  | WorkspaceChanged

datatype CommitResult =
    Committed CommitValidation TransactionEffects
  | Conflict "TransactionConflict list" "ObservationOutcome option" TransactionEffects

record CommitPlan =
  cp_effects :: TransactionEffects
  cp_sourceRoot :: string
  cp_validation :: CommitValidation
  cp_replay :: "(string \<times> string) option"

record CommitOptions =
  co_observations :: "world ObservationValidation option"
  co_hints :: WorkspaceIndexHints

definition filesValidation :: "TransactionEffects \<Rightarrow> CommitValidation" where
  "filesValidation e = (if te_readSet e = None then CvWriteOnly else CvFiles)"

subsection \<open>JSON of plans\<close>

definition effectsJson :: "TransactionEffects \<Rightarrow> json" where
  "effectsJson e = JObj [(''readTracking'', JStr (trackingStr (te_readTracking e))),
     (''readSet'', nullJ (listJson JStr) (te_readSet e)),
     (''pathDependencies'', nullJ (listJson JStr) (te_pathDependencies e)),
     (''writeSet'', listJson writeJson (te_writeSet e)),
     (''workspaceIndex'', indexJson (te_workspaceIndex e))]"

definition planJson :: "OpenTransaction \<Rightarrow> CommitPlan \<Rightarrow> json" where
  "planJson tx p = JObj [(''txId'', JStr (tx_txId tx)), (''root'', JStr (tx_root tx)),
     (''effects'', effectsJson (cp_effects p)), (''sourceRoot'', JStr (cp_sourceRoot p)),
     (''validation'', JStr (validationStr (cp_validation p))),
     (''replay'', optJ (\<lambda>(f, s). JObj [(''forkPath'', JStr f), (''snapshotId'', JStr s)]) (cp_replay p)),
     (''isolationVersion'', JNum 1)]"

text \<open>The plan of a \<open>TX_COMMITTING\<close> event, with the defaults for what it lacks.\<close>

definition recoveredPlan :: "txHost \<Rightarrow> OpenTransaction \<Rightarrow> json \<Rightarrow> CommitPlan" where
  "recoveredPlan H tx p =
     (let e = jfield p ''effects'';
          readSet = readStrs (jfield e ''readSet'');
          pathDependencies = readStrs (jfield e ''pathDependencies'');
          writeSet = (case readList readWrite (jfield e ''writeSet'') of Some ws \<Rightarrow> ws | None \<Rightarrow> []);
          index = (case parseWorkspaceIncrementalIndex (th_sha H) (jfield e ''workspaceIndex'') of
              Some i \<Rightarrow> i
            | None \<Rightarrow> buildWorkspaceIncrementalIndex (th_sha H)
                \<lparr>wx_root = tx_root tx, wx_readSet = readSet, wx_writeSet = writeSet, wx_discoverySet = None,
                 wx_symbolSlice = None, wx_ignoredManifest = None, wx_pathDependencies = pathDependencies,
                 wx_coverageNotes = []\<rparr>);
          effects = \<lparr>te_readTracking = (if jfield e ''readTracking'' = JStr ''atime'' then TrackAtime else TrackUnobserved),
             te_readSet = readSet, te_pathDependencies = pathDependencies, te_writeSet = writeSet,
             te_workspaceIndex = index\<rparr>
      in \<lparr>cp_effects = effects,
          cp_sourceRoot = (case jfield p ''sourceRoot'' of JStr s \<Rightarrow> s | _ \<Rightarrow> tx_forkRoot tx),
          cp_validation = (case find (\<lambda>v. jfield p ''validation'' = JStr (validationStr v))
              [CvObservations, CvFiles, CvWriteOnly] of
            Some v \<Rightarrow> v | None \<Rightarrow> filesValidation effects),
          cp_replay = (case jfield p ''replay'' of
              JObj fs \<Rightarrow> Some (readStr (jfield (JObj fs) ''forkPath''), readStr (jfield (JObj fs) ''snapshotId''))
            | _ \<Rightarrow> None)\<rparr>)"

subsection \<open>Conflicts and observations\<close>

fun kindName :: "ConflictKind \<Rightarrow> string" where
  "kindName WriteWrite = ''write_write''"
| "kindName ReadWrite = ''read_write''"
| "kindName ExternalWrite = ''external_write''"

definition conflictJson :: "TransactionConflict \<Rightarrow> json" where
  "conflictJson c = JObj [(''path'', JStr (tc_path c)), (''kind'', JStr (kindName (tc_kind c))),
     (''otherTxId'', optJ JStr (tc_otherTxId c))]"

fun divergeStr :: "DivergeReason \<Rightarrow> string" where
  "divergeStr ObservationChanged = ''observation_changed''"
| "divergeStr MutationNotApplicable = ''mutation_not_applicable''"

fun outcomeJson :: "ObservationOutcome \<Rightarrow> json" where
  "outcomeJson (NotAttempted r) = JObj [(''attempted'', JBool False), (''reason'', JStr r)]"
| "outcomeJson (DivergedAt n r) =
     JObj [(''attempted'', JBool True), (''divergedAt'', JNum (int n)), (''reason'', JStr (divergeStr r))]"
| "outcomeJson WorkspaceChanged = JObj [(''attempted'', JBool True), (''reason'', JStr ''workspace_changed'')]"

definition conflicted ::
    "txHost \<Rightarrow> OpenTransaction \<Rightarrow> TransactionConflict list \<Rightarrow> TransactionEffects
      \<Rightarrow> ObservationOutcome option \<Rightarrow> CommitResult txM" where
  "conflicted H tx conflicts effects observation =
     thenDo (setTx (tx\<lparr>tx_status := TxConflicted\<rparr>))
    (thenDo (recordTx H (tx_runId tx) ''TX_CONFLICTED'' (JObj [(''txId'', JStr (tx_txId tx)),
        (''conflicts'', listJson conflictJson conflicts), (''readSet'', nullJ (listJson JStr) (te_readSet effects)),
        (''writeSet'', listJson writeJson (te_writeSet effects)),
        (''pathDependencies'', nullJ (listJson JStr) (te_pathDependencies effects)),
        (''workspaceIndex'', indexJson (te_workspaceIndex effects)),
        (''observation'', optJ outcomeJson observation)]))
      (ret (Conflict conflicts observation effects)))"

text \<open>An operation that ran a process in the fork since the transaction began.\<close>

definition processInFork :: "txHost \<Rightarrow> OpenTransaction \<Rightarrow> world \<Rightarrow> string option" where
  "processInFork H tx w =
     (let s = worldStore w; fsys = th_fsy H (tw_disk w);
          forks = tx_forkPath tx # (case realPath H (tw_disk w) (tx_forkPath tx) of Inr r \<Rightarrow> [r] | Inl _ \<Rightarrow> []);
          inFork = (\<lambda>p. list_ex (\<lambda>f. isPathContained fsys f p) forks);
          roots = (\<lambda>o'. (case op_mutationRoots o' of Some rs \<Rightarrow> rs | None \<Rightarrow> [])
            @ map (drop (length ''workspace:write:'')) (filter (\<lambda>r. startsWith r ''workspace:write:'') (op_requiredResources o')));
          ids = uniqueList (List.map_filter (\<lambda>e. truthy (ev_operationId e))
            (getJournalEvents (dm_domainId (tw_domain w)) (tx_beginSeq tx) None None s));
          ops = List.map_filter (\<lambda>i. getOperation i s) ids
      in map_option op_id (find (\<lambda>o'. op_kind o' \<in> {KProcess, KService} \<and> list_ex inFork (roots o')) ops))"

text \<open>What a matched replay commits: the difference between the workspace's snapshot and the fork.\<close>

definition replayedPlan ::
    "txHost \<Rightarrow> OpenTransaction \<Rightarrow> TransactionEffects \<Rightarrow> SnapshotRef \<Rightarrow> string \<Rightarrow> CommitPlan txM" where
  "replayedPlan H tx effects snapshot replayRoot =
     andThen (\<lambda>w. answer (th_fingerprint H (tw_disk w) replayRoot snapshot) w) (\<lambda>current.
     andThen (\<lambda>w. answer (th_repoRoot H (tw_disk w) replayRoot) w) (\<lambda>forkRepo.
     andThen (answer (relativeDiff H (relativePath forkRepo replayRoot) (snap_treeFingerprint snapshot) current))
       (\<lambda>writeSet. ret \<lparr>cp_effects = effects\<lparr>te_writeSet := writeSet\<rparr>, cp_sourceRoot = replayRoot,
          cp_validation = CvObservations, cp_replay = Some (replayForkPath tx, snap_id snapshot)\<rparr>)))"

definition replayOn ::
    "txHost \<Rightarrow> OpenTransaction \<Rightarrow> TransactionEffects \<Rightarrow> world ObservationValidation \<Rightarrow> (string \<Rightarrow> unit txM)
      \<Rightarrow> SnapshotRef \<Rightarrow> string \<Rightarrow> (ObservationOutcome + CommitPlan) txM" where
  "replayOn H tx effects v protect snapshot replayRoot = (\<lambda>w.
     case replayObservationLog v replayRoot w of
       ((_, Some dv), w') \<Rightarrow>
         thenDo (th_dematerialize H (replayForkPath tx) None)
        (thenDo (th_prune H (snap_id snapshot) (tx_runId tx))
          (ret (Inl (DivergedAt (rd_at dv) (rd_reason dv))))) w'
     | ((_, None), w') \<Rightarrow>
         thenDo (protect replayRoot)
           (andThen (replayedPlan H tx effects snapshot replayRoot) (\<lambda>p. ret (Inr p))) w')"

definition replayAttempt ::
    "txHost \<Rightarrow> OpenTransaction \<Rightarrow> TransactionEffects \<Rightarrow> world ObservationValidation \<Rightarrow> (string \<Rightarrow> unit txM)
      \<Rightarrow> (ObservationOutcome + CommitPlan) txM" where
  "replayAttempt H tx effects v protect = (\<lambda>w.
     let attempt = length (filter (\<lambda>e. ev_type e = ''TX_REPLAY_STARTED'') (txJournal (tx_txId tx) w)) + 1;
         snapshotId = tx_txId tx @ ''-replay-'' @ natText attempt
     in thenDo (recordTx H (tx_runId tx) ''TX_REPLAY_STARTED'' (JObj [(''txId'', JStr (tx_txId tx)),
            (''replayPath'', JStr (replayForkPath tx)), (''snapshotId'', JStr snapshotId)]))
       (andThen (th_capture H (tx_runId tx) snapshotId (tx_root tx)) (\<lambda>snapshot.
        thenDo (th_materialize H (snap_id snapshot) (replayForkPath tx))
       (andThen (\<lambda>w. answer (realPath H (tw_disk w) (replayForkPath tx)) w) (\<lambda>realReplay.
          replayOn H tx effects v protect snapshot
            (joinPaths realReplay (relativePath (tx_repoRoot tx) (tx_root tx))))))) w)"

text \<open>
  The second judgement, on a fork of the current workspace: a plan, or the outcome that says
  where it stopped. \<open>protect\<close> takes the write lease of the replay root.
\<close>

definition validateByObservations ::
    "txHost \<Rightarrow> OpenTransaction \<Rightarrow> TransactionEffects \<Rightarrow> TransactionConflict list \<Rightarrow> world ObservationValidation
      \<Rightarrow> (string \<Rightarrow> unit txM) \<Rightarrow> (ObservationOutcome + CommitPlan) txM" where
  "validateByObservations H tx effects conflicts v protect =
     (if list_ex (\<lambda>c. tc_kind c = WriteWrite \<or> tc_path c \<in> we_path ` set (te_writeSet effects)) conflicts
      then ret (Inl (NotAttempted ''write_conflict''))
      else andThen (\<lambda>w. answer (realPath H (tw_disk w) (tx_forkPath tx)) w) (\<lambda>_ w.
        (case processInFork H tx w of
           Some opId \<Rightarrow> thenDo (recordTx H (tx_runId tx) ''TX_VALIDATION_DOWNGRADED''
               (JObj [(''txId'', JStr (tx_txId tx)), (''reason'', JStr ''not_closed_world''), (''operationId'', JStr opId)]))
             (ret (Inl (NotAttempted ''not_closed_world'')))
         | None \<Rightarrow> thenDo (discardReplayFork H tx) (replayAttempt H tx effects v protect)) w))"

subsection \<open>The commit\<close>

definition setFlags :: "(commitFlags \<Rightarrow> commitFlags) \<Rightarrow> unit txM" where
  "setFlags f = modify (\<lambda>w. w\<lparr>tw_flags := f (tw_flags w)\<rparr>)"

text \<open>
  The closures \<open>acquire\<close> and \<open>release\<close>. The owner of the lease is \<open><tx>:apply\<close>; a commit that
  resumes from the journal re-enters the isolation that the domain rebuilt for it.
\<close>

definition acquireLease :: "txHost \<Rightarrow> string \<Rightarrow> bool \<Rightarrow> string list \<Rightarrow> unit txM" where
  "acquireLease H txId resuming roots = (\<lambda>w. let owner = txId @ '':apply'' in
     thenDo (if cf_held (tw_flags w) then ret ()
             else if resuming
             then guardE (getOperation owner (worldStore w) = None) (TxMessage ''Workspace commit owner belongs to a registered operation'')
             else answer (th_available H owner w))
    (thenDo (inDom (allocateResources owner (map (\<lambda>r. ''workspace:write:'' @ r) (uniqueList roots)) 0 None))
      (setFlags (\<lambda>f. f\<lparr>cf_held := True\<rparr>))) w)"

definition releaseLease :: "txHost \<Rightarrow> string \<Rightarrow> unit txM" where
  "releaseLease H txId = thenDo (inDom (internalReleaseResources (th_gone H) (th_now H) (txId @ '':apply'') []))
     (setFlags (\<lambda>f. f\<lparr>cf_held := False\<rparr>))"

text \<open>A resumed plan from the journal.\<close>

definition resumePlan :: "txHost \<Rightarrow> OpenTransaction \<Rightarrow> json \<Rightarrow> CommitPlan txM" where
  "resumePlan H tx p = (let plan = recoveredPlan H tx p in
     thenDo (acquireLease H (tx_txId tx) True [tx_root tx, cp_sourceRoot plan])
    (thenDo (guardE (jfield p ''isolationVersion'' = JNum 1) (TxMessage ''lacks continuous commit isolation evidence''))
    (thenDo (\<lambda>w. guardE (existsPath H (tw_disk w) (cp_sourceRoot plan)) (TxMessage ''cannot finish committing'') w)
      (ret plan))))"

text \<open>
  A new plan: validated by files, or, when that finds conflicts, by observations. \<open>Inl\<close> is the
  early return with a conflict; the plan comes with the conflicts it overrides.
\<close>

definition freshPlan ::
    "txHost \<Rightarrow> CommitOptions \<Rightarrow> OpenTransaction \<Rightarrow> (CommitResult + CommitPlan \<times> TransactionConflict list) txM" where
  "freshPlan H o' tx =
     thenDo (acquireLease H (tx_txId tx) False [tx_root tx, tx_forkRoot tx])
    (andThen (effectsOf H (co_hints o') tx) (\<lambda>effects.
     andThen (validateTx H tx effects) (\<lambda>conflicts.
     if conflicts = []
     then ret (Inr (\<lparr>cp_effects = effects, cp_sourceRoot = tx_forkRoot tx,
                    cp_validation = filesValidation effects, cp_replay = None\<rparr>, []))
     else thenDo (releaseLease H (tx_txId tx))
       (case co_observations o' of
          None \<Rightarrow> andThen (conflicted H tx conflicts effects None) (\<lambda>r. ret (Inl r))
        | Some v \<Rightarrow> andThen (validateByObservations H tx effects conflicts v
              (\<lambda>source. acquireLease H (tx_txId tx) False [source])) (\<lambda>r. case r of
             Inl outcome \<Rightarrow> andThen (conflicted H tx conflicts effects (Some outcome)) (\<lambda>r. ret (Inl r))
           | Inr plan \<Rightarrow> thenDo (acquireLease H (tx_txId tx) False [tx_root tx]) (ret (Inr (plan, conflicts))))))))"

text \<open>A replay speaks about the workspace as it was snapshot.\<close>

definition replayStillValid :: "txHost \<Rightarrow> OpenTransaction \<Rightarrow> CommitPlan \<Rightarrow> bool txM" where
  "replayStillValid H tx plan = (case cp_replay plan of None \<Rightarrow> ret True
     | Some (f, sid) \<Rightarrow> unchangedSince H tx sid)"

definition committedJson :: "OpenTransaction \<Rightarrow> CommitPlan \<Rightarrow> json" where
  "committedJson tx p = (let e = cp_effects p in JObj [(''txId'', JStr (tx_txId tx)), (''root'', JStr (tx_root tx)),
     (''writeSet'', listJson writeJson (te_writeSet e)), (''readSet'', nullJ (listJson JStr) (te_readSet e)),
     (''pathDependencies'', nullJ (listJson JStr) (te_pathDependencies e)),
     (''workspaceIndex'', indexJson (te_workspaceIndex e)), (''validation'', JStr (validationStr (cp_validation p)))])"

definition publish :: "txHost \<Rightarrow> OpenTransaction \<Rightarrow> CommitPlan \<Rightarrow> unit txM" where
  "publish H tx plan =
     thenDo (onDisk (applyWrites (th_fsy H) (tx_root tx) (te_writeSet (cp_effects plan)) (cp_sourceRoot plan)))
    (thenDo (recordTx H (tx_runId tx) ''TX_COMMITTED'' (committedJson tx plan))
    (thenDo (setFlags (\<lambda>f. f\<lparr>cf_committed := True\<rparr>))
      (dropTx (tx_txId tx))))"

text \<open>The intent is written before the workspace is touched.\<close>

definition markCommitting :: "txHost \<Rightarrow> OpenTransaction \<Rightarrow> CommitPlan \<Rightarrow> unit txM" where
  "markCommitting H tx plan =
     thenDo (recordTx H (tx_runId tx) ''TX_COMMITTING'' (planJson tx plan))
    (thenDo (setFlags (\<lambda>f. f\<lparr>cf_durable := True\<rparr>))
      (setTx (tx\<lparr>tx_status := TxCommitting\<rparr>)))"

definition commitBody ::
    "txHost \<Rightarrow> CommitOptions \<Rightarrow> OpenTransaction \<Rightarrow> json option \<Rightarrow> (CommitResult + CommitPlan) txM" where
  "commitBody H o' tx committing = (case committing of
     Some p \<Rightarrow> andThen (resumePlan H tx p) (\<lambda>plan. thenDo (publish H tx plan) (ret (Inr plan)))
   | None \<Rightarrow> andThen (freshPlan H o' tx) (\<lambda>r. case r of
        Inl result \<Rightarrow> ret (Inl result)
      | Inr (plan, fileConflicts) \<Rightarrow>
          andThen (replayStillValid H tx plan) (\<lambda>valid.
          if \<not> valid
          then thenDo (releaseLease H (tx_txId tx))
            (thenDo (discardReplayFork H tx)
            (andThen (inspectTx H noHints (tx_txId tx)) (\<lambda>now.
             andThen (conflicted H tx fileConflicts
                 ((cp_effects plan)\<lparr>te_writeSet := te_writeSet now\<rparr>) (Some WorkspaceChanged)) (\<lambda>r. ret (Inl r)))))
          else thenDo (markCommitting H tx plan) (thenDo (publish H tx plan) (ret (Inr plan))))))"

text \<open>The \<open>finally\<close> block: a durable commit that did not finish keeps its isolation.\<close>

definition commitFinally :: "txHost \<Rightarrow> string \<Rightarrow> (TxError + 'a) \<Rightarrow> 'a txM" where
  "commitFinally H txId r = (\<lambda>w. let f = tw_flags w in
     if cf_held f \<and> (\<not> cf_durable f \<or> cf_committed f)
     then (case releaseLease H txId w of
         (Inr _, w') \<Rightarrow> (r, w')
       | (Inl e, w') \<Rightarrow> (case r of Inl primary \<Rightarrow> (Inl (TxAggregate primary e), w') | Inr _ \<Rightarrow> (Inl e, w')))
     else (r, w))"

definition commitTx :: "txHost \<Rightarrow> CommitOptions \<Rightarrow> string \<Rightarrow> CommitResult txM" where
  "commitTx H o' txId = andThen (requireTx H txId) (\<lambda>tx w.
     if tx_status tx = TxConflicted then (Inl (TxMessage ''has conflicts; abort it and start again''), w)
     else (let committing = map_option ev_payload (find (\<lambda>e. ev_type e = ''TX_COMMITTING'') (txJournal txId w));
               w0 = w\<lparr>tw_flags := \<lparr>cf_held = False, cf_durable = committing \<noteq> None, cf_committed = False\<rparr>\<rparr>;
               (r, w1) = commitBody H o' tx committing w0
           in andThen (commitFinally H txId r) (\<lambda>out. case out of
                Inl result \<Rightarrow> ret result
              | Inr plan \<Rightarrow> thenDo (th_dematerialize H (tx_forkPath tx) None)
                 (thenDo (case cp_replay plan of None \<Rightarrow> ret ()
                          | Some (f, sid) \<Rightarrow> thenDo (th_dematerialize H f None) (th_prune H sid (tx_runId tx)))
                   (ret (Committed (cp_validation plan) (cp_effects plan))))) w1))"

text \<open>\<open>get\<close>: the transactions opened by this process.\<close>

definition getTx :: "string \<Rightarrow> world \<Rightarrow> OpenTransaction option" where
  "getTx txId w = mapGet (tw_open w) txId"

end
