(* ===== verification/TxLaws.thy ===== *)
theory TxLaws
  imports Transactions StoreLaws
begin

text \<open>
  Lemmas of the workspace transactions: what the evidence-gathering steps leave alone, what a
  clean validation has compared, and where a commit holds its lease.
\<close>

section \<open>Frames\<close>

text \<open>Nothing but the journal, the access times and the list of open transactions moved.\<close>

definition sameSystem :: "world \<Rightarrow> world \<Rightarrow> bool" where
  "sameSystem v w \<longleftrightarrow> dk_nodes (tw_disk w) = dk_nodes (tw_disk v)
     \<and> dm_locked (tw_domain w) = dm_locked (tw_domain v) \<and> dm_domainId (tw_domain w) = dm_domainId (tw_domain v)
     \<and> db_snapshots (worldStore w) = db_snapshots (worldStore v) \<and> tw_flags w = tw_flags v"

lemma same_refl [simp]: "sameSystem w w"
  by (simp add: sameSystem_def)

lemma same_trans: "sameSystem u v \<Longrightarrow> sameSystem v w \<Longrightarrow> sameSystem u w"
  by (simp add: sameSystem_def)

lemma answer_run [simp]: "answer r w = (r, w)"
  by (simp add: answer_def)

lemma pres_answer [pres]: "preserves I (answer r)"
  by (simp add: preserves_def)

lemma pres_answers [pres]: "preserves I (\<lambda>w. answer (f w) w)"
  by (simp add: preserves_def)

lemma pres_setTx [pres]: "preserves (sameSystem v) (setTx tx)"
  unfolding setTx_def by (rule pres_modify) (simp add: sameSystem_def)

lemma pres_dropTx [pres]: "preserves (sameSystem v) (dropTx txId)"
  unfolding dropTx_def by (rule pres_modify) (simp add: sameSystem_def)

lemma recordTx_cases:
  obtains (refused) e where "recordTx H runId type payload w = (Inl (TxKernel e), w)"
  | (appended) n row where "recordTx H runId type payload w = (Inr n, w\<lparr>tw_domain := (tw_domain w)\<lparr>dm_store :=
        (worldStore w)\<lparr>db_journal := db_journal (worldStore w) @ [row], db_seq := n\<rparr>\<rparr>\<rparr>)"
      "ev_type row = type" "ev_domainId row = dm_domainId (tw_domain w)"
proof -
  let ?e = "mkEvent (dm_domainId (tw_domain w)) (Some runId) None type payload (th_now H)"
  show ?thesis
  proof (cases rule: recordEvent_cases [of ?e "worldStore w"])
    case (refused err)
    then show ?thesis using that(1) by (simp add: recordTx_def inDom_def inStore_def)
  next
    case (appended v)
    let ?row = "journalRow (db_seq (worldStore w) + 1) ?e v"
    have "ev_type ?row = type" "ev_domainId ?row = dm_domainId (tw_domain w)"
      using createEventEnvelope_Inr(1) [OF appended(2)] by (simp_all add: journalRow_def envelopeOf_def evName_def mkEvent_def)
    then show ?thesis
      using appended(4) by (intro that(2) [of "db_seq (worldStore w) + 1" ?row]) (simp_all add: recordTx_def inDom_def inStore_def)
  qed
qed

lemma pres_recordTx [pres]: "preserves (sameSystem v) (recordTx H runId type payload)"
proof (rule preservesI)
  fix w
  assume "sameSystem v w"
  then show "sameSystem v (snd (recordTx H runId type payload w))"
    by (cases rule: recordTx_cases [of H runId type payload w]) (simp_all add: sameSystem_def)
qed

lemma pres_normalizeTimes [pres]: "preserves (sameSystem v) (normalizeTimes H root)"
  by (rule preservesI) (simp add: normalizeTimes_def sameSystem_def split: prod.splits)

lemma gather_same: "preserves (sameSystem v) (gatherEffects H tx base previous rs ps index)"
  unfolding gatherEffects_def by (intro pres)

lemma effects_same: "preserves (sameSystem v) (effectsOf H hints tx)"
proof (rule preservesI)
  fix w
  assume w: "sameSystem v w"
  show "sameSystem v (snd (effectsOf H hints tx w))"
  proof (cases "getSnapshot (tx_baseSnapshotId tx) (worldStore w)")
    case None
    then show ?thesis using w by (simp add: effectsOf_def Let_def split: prod.splits)
  next
    case (Some base)
    then show ?thesis
      using preserves_snd [OF gather_same w] by (simp add: effectsOf_def Let_def split: prod.split)
  qed
qed

text \<open>\<open>require\<close> answers from memory, refuses, or adds the transaction it read to memory.\<close>

lemma requireTx_cases:
  assumes "requireTx H txId w = (r, w')"
  shows "(\<exists>tx. mapGet (tw_open w) txId = Some tx \<and> r = Inr tx \<and> w' = w)
    \<or> (mapGet (tw_open w) txId = None \<and> (\<exists>e. r = Inl e) \<and> w' = w)
    \<or> (mapGet (tw_open w) txId = None \<and> (\<exists>tx. r = Inr tx \<and> tx_txId tx = txId
          \<and> w' = w\<lparr>tw_open := mapSet txId tx (tw_open w)\<rparr>))"
proof (cases "mapGet (tw_open w) txId")
  case (Some tx)
  then show ?thesis using assms by (simp add: requireTx_def)
next
  case None
  show ?thesis
  proof (cases "find (\<lambda>e. ev_type e = ''TX_BEGUN'') (txJournal txId w)")
    case None
    then show ?thesis using assms \<open>mapGet (tw_open w) txId = None\<close> by (auto simp: requireTx_def)
  next
    case (Some begun)
    then show ?thesis
      using assms None unfolding requireTx_def Let_def
      by (auto simp: andThen_def thenDo_def setTx_def split: if_splits sum.splits)
  qed
qed

lemma requireTx_same:
  assumes "requireTx H txId w = (r, w')"
  shows "sameSystem w w'" and "worldStore w' = worldStore w" and "tw_domain w' = tw_domain w"
    and "tw_disk w' = tw_disk w"
  using requireTx_cases [OF assms] by (auto simp: sameSystem_def)

section \<open>A clean validation\<close>

text \<open>What a change of the workspace must not touch.\<close>

definition untouched :: "TransactionEffects \<Rightarrow> string \<Rightarrow> bool" where
  "untouched e p \<longleftrightarrow> p \<notin> we_path ` set (te_writeSet e)
     \<and> (\<forall>rs. te_readSet e = Some rs \<longrightarrow> p \<notin> set rs)
     \<and> (\<exists>ps. te_pathDependencies e = Some ps \<and> p \<notin> set ps)"

definition unlisted :: "TransactionEffects \<Rightarrow> WriteEntry \<Rightarrow> bool" where
  "unlisted e c \<longleftrightarrow> (we_status c = Added \<or> we_status c = Deleted \<longrightarrow>
     (\<forall>rs. te_readSet e = Some rs \<longrightarrow> dirKey (we_path c) \<notin> set rs))"

lemma conflictOf_Nil: "conflictOf e wk rk o' c = [] \<longleftrightarrow> untouched e (we_path c) \<and> unlisted e c"
  by (auto simp: conflictOf_def untouched_def unlisted_def Let_def split: option.splits)

lemma intersect_Nil: "intersect e cs wk rk o' = [] \<longleftrightarrow> (\<forall>c \<in> set cs. untouched e (we_path c) \<and> unlisted e c)"
  by (auto simp: intersect_def conflictOf_Nil)

text \<open>The changes that no committed transaction accounts for.\<close>

definition explainedBy :: "JournalEvent list \<Rightarrow> WriteEntry \<Rightarrow> bool" where
  "explainedBy others c \<longleftrightarrow> (\<exists>e \<in> set others. \<exists>x \<in> set (eventWrites e). we_path x = we_path c)"

lemma mainChanges_inv:
  assumes "mainChangesSinceBase H tx w = (Inr cs, w')"
  obtains base cur where "getSnapshot (tx_baseSnapshotId tx) (worldStore w) = Some base"
    "th_fingerprint H (tw_disk w) (tx_root tx) base = Inr cur"
    "relativeDiff H (relativePath (tx_repoRoot tx) (tx_root tx)) (snap_treeFingerprint base) cur = Inr cs"
    "w' = w"
proof (cases "getSnapshot (tx_baseSnapshotId tx) (worldStore w)")
  case None
  then show ?thesis using assms by (simp add: mainChangesSinceBase_def)
next
  case (Some base)
  show ?thesis
  proof (cases "th_fingerprint H (tw_disk w) (tx_root tx) base")
    case (Inl e)
    then show ?thesis using assms Some by (simp add: mainChangesSinceBase_def andThen_def)
  next
    case (Inr cur)
    then have "relativeDiff H (relativePath (tx_repoRoot tx) (tx_root tx)) (snap_treeFingerprint base) cur = Inr cs \<and> w = w'"
      using assms Some by (simp add: mainChangesSinceBase_def andThen_def)
    then show ?thesis using that [OF Some Inr] by blast
  qed
qed

lemma validate_clean:
  assumes "validateTx H tx eff w = (Inr [], w')"
  shows "w' = w \<and> (\<exists>base cur changes. getSnapshot (tx_baseSnapshotId tx) (worldStore w) = Some base
    \<and> th_fingerprint H (tw_disk w) (tx_root tx) base = Inr cur
    \<and> relativeDiff H (relativePath (tx_repoRoot tx) (tx_root tx)) (snap_treeFingerprint base) cur = Inr changes
    \<and> (\<forall>c \<in> set changes. untouched eff (we_path c) \<and> (explainedBy (committedAfter tx w) c \<or> unlisted eff c))
    \<and> (\<forall>e \<in> set (committedAfter tx w). \<forall>x \<in> set (eventWrites e). untouched eff (we_path x) \<and> unlisted eff x))"
proof -
  let ?com = "concat (map (\<lambda>e. intersect eff (eventWrites e) WriteWrite ReadWrite
      (jstring (jfield (ev_payload e) ''txId''))) (committedAfter tx w))"
  let ?ext = "\<lambda>changes. intersect eff (filter (\<lambda>c. we_path c \<notin> set (map we_path
      (concat (map eventWrites (committedAfter tx w))))) changes) ExternalWrite ExternalWrite None"
  have "andThen (mainChangesSinceBase H tx) (\<lambda>changes. ret (?com @ ?ext changes)) w = (Inr [], w')"
    using assms unfolding validateTx_def Let_def .
  then obtain changes where m: "mainChangesSinceBase H tx w = (Inr changes, w')" and n: "?com @ ?ext changes = []"
    unfolding andThen_Inr ret_run prod.inject sum.inject by blast
  have ext: "\<forall>c \<in> set changes. we_path c \<notin> we_path ` set (concat (map eventWrites (committedAfter tx w)))
        \<longrightarrow> untouched eff (we_path c) \<and> unlisted eff c"
    using n unfolding append_is_Nil_conv intersect_Nil set_map set_filter by blast
  have com: "\<forall>e \<in> set (committedAfter tx w). \<forall>x \<in> set (eventWrites e). untouched eff (we_path x) \<and> unlisted eff x"
    using n unfolding append_is_Nil_conv concat_eq_Nil_conv set_map by (auto simp: intersect_Nil)
  obtain base cur where b: "getSnapshot (tx_baseSnapshotId tx) (worldStore w) = Some base"
    "th_fingerprint H (tw_disk w) (tx_root tx) base = Inr cur"
    "relativeDiff H (relativePath (tx_repoRoot tx) (tx_root tx)) (snap_treeFingerprint base) cur = Inr changes"
    and w: "w' = w"
    using m by (rule mainChanges_inv)
  have "untouched eff (we_path c) \<and> (explainedBy (committedAfter tx w) c \<or> unlisted eff c)" if "c \<in> set changes" for c
  proof (cases "explainedBy (committedAfter tx w) c")
    case True
    then obtain e x where "e \<in> set (committedAfter tx w)" "x \<in> set (eventWrites e)" "we_path x = we_path c"
      unfolding explainedBy_def by blast
    with com have "untouched eff (we_path c)" by metis
    with True show ?thesis by blast
  next
    case False
    have "we_path c \<notin> we_path ` set (concat (map eventWrites (committedAfter tx w)))"
    proof
      assume "we_path c \<in> we_path ` set (concat (map eventWrites (committedAfter tx w)))"
      then obtain e x where "e \<in> set (committedAfter tx w)" "x \<in> set (eventWrites e)" "we_path c = we_path x"
        by auto
      then have "explainedBy (committedAfter tx w) c" unfolding explainedBy_def by metis
      with False show False by blast
    qed
    then show ?thesis using ext that by blast
  qed
  with b w com show ?thesis by (intro conjI exI; assumption?) blast+
qed

section \<open>What a computation returns\<close>

lemma thenDo_unit: "thenDo (m :: ('s, 'e, unit) act) n s = (Inr y, t) \<longleftrightarrow> (\<exists>u. m s = (Inr (), u) \<and> n u = (Inr y, t))"
  by (simp add: thenDo_Inr)

definition yields :: "('a \<Rightarrow> bool) \<Rightarrow> ('s, 'e, 'a) act \<Rightarrow> bool" where
  "yields P m \<longleftrightarrow> (\<forall>s x t. m s = (Inr x, t) \<longrightarrow> P x)"

lemma yields_ret: "P x \<Longrightarrow> yields P (ret x)"
  by (simp add: yields_def)

lemma yields_andThen: "(\<And>x. yields P (f x)) \<Longrightarrow> yields P (andThen m f)"
  unfolding yields_def andThen_Inr by blast

lemma yields_thenDo: "yields P n \<Longrightarrow> yields P (thenDo m n)"
  unfolding thenDo_def by (rule yields_andThen)

lemma yieldsD: "yields P m \<Longrightarrow> m s = (Inr x, t) \<Longrightarrow> P x"
  unfolding yields_def by blast

lemmas yields_rules = yields_ret yields_andThen yields_thenDo

definition byObservation :: "ObservationOutcome + CommitPlan \<Rightarrow> bool" where
  "byObservation r \<longleftrightarrow> (\<forall>p. r = Inr p \<longrightarrow> cp_validation p = CvObservations)"

lemma observed_plan: "yields byObservation (validateByObservations H tx effects conflicts v protect)"
proof -
  have plan: "yields (\<lambda>p. cp_validation p = CvObservations) (replayedPlan H tx effects snapshot root)" for snapshot root
    unfolding replayedPlan_def by (intro yields_rules) simp
  have tail: "yields byObservation (andThen (replayedPlan H tx effects snapshot root) (\<lambda>p. ret (Inr p)))" for snapshot root
    unfolding yields_def andThen_Inr ret_run using yieldsD [OF plan] by (auto simp: byObservation_def)
  have on: "yields byObservation (replayOn H tx effects v protect snapshot root)" for snapshot root
  proof -
    have diverged: "yields byObservation (thenDo a (thenDo b (ret (Inl x))))" for a b :: "unit txM" and x
      by (intro yields_rules) (simp add: byObservation_def)
    have matched: "yields byObservation (thenDo a (andThen (replayedPlan H tx effects snapshot root) (\<lambda>p. ret (Inr p))))"
      for a :: "unit txM"
      using tail by (rule yields_thenDo)
    show ?thesis
      unfolding yields_def replayOn_def
      using yieldsD [OF diverged] yieldsD [OF matched] by (auto split: prod.splits option.splits)
  qed
  have attempt: "yields byObservation (replayAttempt H tx effects v protect)"
    unfolding replayAttempt_def yields_def Let_def
  proof (intro allI impI)
    fix s x t
    let ?n = "length (filter (\<lambda>e. ev_type e = ''TX_REPLAY_STARTED'') (txJournal (tx_txId tx) s)) + 1"
    assume run: "thenDo (recordTx H (tx_runId tx) ''TX_REPLAY_STARTED'' (JObj [(''txId'', JStr (tx_txId tx)),
            (''replayPath'', JStr (replayForkPath tx)), (''snapshotId'', JStr (tx_txId tx @ ''-replay-'' @ natText ?n))]))
       (andThen (th_capture H (tx_runId tx) (tx_txId tx @ ''-replay-'' @ natText ?n) (tx_root tx)) (\<lambda>snapshot.
        thenDo (th_materialize H (snap_id snapshot) (replayForkPath tx))
       (andThen (\<lambda>w. answer (realPath H (tw_disk w) (replayForkPath tx)) w) (\<lambda>realReplay.
          replayOn H tx effects v protect snapshot
            (joinPaths realReplay (relativePath (tx_repoRoot tx) (tx_root tx))))))) s = (Inr x, t)"
    show "byObservation x" by (rule yieldsD [rotated], rule run) (intro yields_thenDo yields_andThen on)
  qed
  have stop: "yields byObservation (thenDo a (ret (Inl x)))" for a :: "int txM" and x
    by (intro yields_rules) (simp add: byObservation_def)
  have go: "yields byObservation (thenDo h (replayAttempt H tx effects v protect))" for h :: "unit txM"
    using attempt by (rule yields_thenDo)
  have choice: "yields byObservation (\<lambda>w. (case f w of Some i \<Rightarrow> thenDo (g i) (ret (Inl (NotAttempted r)))
      | None \<Rightarrow> thenDo h (replayAttempt H tx effects v protect)) w)" for f and g :: "string \<Rightarrow> int txM" and h :: "unit txM" and r
    unfolding yields_def
  proof (intro allI impI)
    fix w x t
    assume run: "(case f w of Some i \<Rightarrow> thenDo (g i) (ret (Inl (NotAttempted r)))
      | None \<Rightarrow> thenDo h (replayAttempt H tx effects v protect)) w = (Inr x, t)"
    show "byObservation x"
    proof (cases "f w")
      case None
      then show ?thesis using run yieldsD [OF go] by simp
    next
      case (Some i)
      then show ?thesis using run yieldsD [OF stop] by simp
    qed
  qed
  show ?thesis
    unfolding validateByObservations_def
  proof (cases "list_ex (\<lambda>c. tc_kind c = WriteWrite \<or> tc_path c \<in> we_path ` set (te_writeSet effects)) conflicts")
    case True
    then show "yields byObservation (if list_ex (\<lambda>c. tc_kind c = WriteWrite \<or> tc_path c \<in> we_path ` set (te_writeSet effects)) conflicts
      then ret (Inl (NotAttempted ''write_conflict'')) else X)" for X
      by (simp add: yields_ret byObservation_def)
  next
    case False
    show "yields byObservation (if list_ex (\<lambda>c. tc_kind c = WriteWrite \<or> tc_path c \<in> we_path ` set (te_writeSet effects)) conflicts
      then ret (Inl (NotAttempted ''write_conflict''))
      else andThen (\<lambda>w. answer (realPath H (tw_disk w) (tx_forkPath tx)) w) (\<lambda>_ w.
        (case processInFork H tx w of
           Some opId \<Rightarrow> thenDo (recordTx H (tx_runId tx) ''TX_VALIDATION_DOWNGRADED''
               (JObj [(''txId'', JStr (tx_txId tx)), (''reason'', JStr ''not_closed_world''), (''operationId'', JStr opId)]))
             (ret (Inl (NotAttempted ''not_closed_world'')))
         | None \<Rightarrow> thenDo (discardReplayFork H tx) (replayAttempt H tx effects v protect)) w))"
      unfolding if_not_P [OF False] by (intro yields_andThen choice)
  qed
qed

end
