(* ===== verification/TxProps.thy ===== *)
theory TxProps
  imports TxLaws DomainLaws Demo
begin

text \<open>
  What a commit of a workspace transaction guarantees: what a file-level validation has excluded
  before the write set is applied, and that a commit whose intent is durable keeps the write lease
  of the workspace until it has finished. The last section shows what validation misses.
\<close>

section \<open>The way to a plan\<close>

lemma acquire_effect:
  assumes "acquireLease H txId resuming roots w = (Inr (), w')"
  shows "dk_nodes (tw_disk w') = dk_nodes (tw_disk w) \<and> worldStore w' = worldStore w
    \<and> cf_held (tw_flags w') \<and> cf_durable (tw_flags w') = cf_durable (tw_flags w)
    \<and> cf_committed (tw_flags w') = cf_committed (tw_flags w)
    \<and> (\<forall>r \<in> set roots. getResourceOwner (''workspace:write:'' @ r) (tw_domain w') = Some (txId @ '':apply''))"
proof -
  let ?owner = "txId @ '':apply''"
  let ?res = "map (\<lambda>r. ''workspace:write:'' @ r) (uniqueList roots)"
  let ?guard = "if cf_held (tw_flags w) then ret ()
             else if resuming
             then guardE (getOperation ?owner (worldStore w) = None) (TxMessage ''Workspace commit owner belongs to a registered operation'')
             else answer (th_available H ?owner w)"
  have "thenDo ?guard (thenDo (inDom (allocateResources ?owner ?res 0 None))
      (setFlags (\<lambda>f. f\<lparr>cf_held := True\<rparr>))) w = (Inr (), w')"
    using assms unfolding acquireLease_def Let_def .
  then obtain u v where u: "?guard w = (Inr (), u)"
    and v: "inDom (allocateResources ?owner ?res 0 None) u = (Inr (), v)"
    and w': "setFlags (\<lambda>f. f\<lparr>cf_held := True\<rparr>) v = (Inr (), w')"
    unfolding thenDo_unit by (elim exE conjE) (rule that)
  have u: "u = w" using u by (simp add: guardE_def split: if_splits)
  have v: "v = w\<lparr>tw_domain := (tw_domain w)\<lparr>dm_allocated := setAdd ?owner (dm_allocated (tw_domain w)),
         dm_locked := lockAll ?owner ?res (dm_locked (tw_domain w))\<rparr>\<rparr>"
    using v unfolding u by (cases rule: allocate_cases [of ?owner ?res 0 None "tw_domain w"]) (simp_all add: inDom_def)
  show ?thesis
    using w' unfolding v by (auto simp: setFlags_def getResourceOwner_def mapGet_lockAll)
qed

text \<open>A plan that does not rest on observations comes from a clean validation by files.\<close>

lemma freshPlan_files:
  assumes "freshPlan H o' tx w = (Inr (Inr (plan, cs)), w')" and "cp_validation plan \<noteq> CvObservations"
  obtains wa wb where "acquireLease H (tx_txId tx) False [tx_root tx, tx_forkRoot tx] w = (Inr (), wa)"
    "effectsOf H (co_hints o') tx wa = (Inr (cp_effects plan), wb)"
    "validateTx H tx (cp_effects plan) wb = (Inr [], w')"
    "cp_sourceRoot plan = tx_forkRoot tx" "cp_replay plan = None"
    "cp_validation plan = filesValidation (cp_effects plan)"
proof -
  obtain wa eff wb conflicts wc where a: "acquireLease H (tx_txId tx) False [tx_root tx, tx_forkRoot tx] w = (Inr (), wa)"
    and e: "effectsOf H (co_hints o') tx wa = (Inr eff, wb)"
    and v: "validateTx H tx eff wb = (Inr conflicts, wc)"
    and rest: "(if conflicts = []
     then ret (Inr (\<lparr>cp_effects = eff, cp_sourceRoot = tx_forkRoot tx,
                    cp_validation = filesValidation eff, cp_replay = None\<rparr>, []))
     else thenDo (releaseLease H (tx_txId tx))
       (case co_observations o' of
          None \<Rightarrow> andThen (conflicted H tx conflicts eff None) (\<lambda>r. ret (Inl r))
        | Some v \<Rightarrow> andThen (validateByObservations H tx eff conflicts v
              (\<lambda>source. acquireLease H (tx_txId tx) False [source])) (\<lambda>r. case r of
             Inl outcome \<Rightarrow> andThen (conflicted H tx conflicts eff (Some outcome)) (\<lambda>r. ret (Inl r))
           | Inr plan \<Rightarrow> thenDo (acquireLease H (tx_txId tx) False [tx_root tx]) (ret (Inr (plan, conflicts)))))) wc
       = (Inr (Inr (plan, cs)), w')"
    using assms(1) unfolding freshPlan_def thenDo_unit andThen_Inr by blast
  have "conflicts = []"
  proof (rule ccontr)
    assume ne: "conflicts \<noteq> []"
    show False
    proof (cases "co_observations o'")
      case None
      then show False using rest ne by (auto simp: thenDo_Inr andThen_Inr)
    next
      case (Some ob)
      obtain wd r we where o: "validateByObservations H tx eff conflicts ob
            (\<lambda>source. acquireLease H (tx_txId tx) False [source]) wd = (Inr r, we)"
        and k: "(case r of
             Inl outcome \<Rightarrow> andThen (conflicted H tx conflicts eff (Some outcome)) (\<lambda>r. ret (Inl r))
           | Inr plan \<Rightarrow> thenDo (acquireLease H (tx_txId tx) False [tx_root tx]) (ret (Inr (plan, conflicts)))) we
          = (Inr (Inr (plan, cs)), w')"
        using rest ne Some by (auto simp: thenDo_Inr andThen_Inr)
      then show False
        using yieldsD [OF observed_plan o] assms(2) by (cases r) (auto simp: thenDo_Inr andThen_Inr byObservation_def)
    qed
  qed
  then show ?thesis
    using that [OF a] e v rest by auto
qed

text \<open>The early returns of a commit are conflicts.\<close>

definition isConflict :: "CommitResult \<Rightarrow> bool" where
  "isConflict r \<longleftrightarrow> (\<exists>cs ob eff. r = Conflict cs ob eff)"

definition stopsOnConflict :: "CommitResult + 'a \<Rightarrow> bool" where
  "stopsOnConflict r \<longleftrightarrow> (\<forall>c. r = Inl c \<longrightarrow> isConflict c)"

lemma stops_Inr [simp]: "stopsOnConflict (Inr x)"
  by (simp add: stopsOnConflict_def)

lemma conflicted_stops: "yields stopsOnConflict (andThen (conflicted H tx cs eff ob) (\<lambda>r. ret (Inl r)))"
proof -
  have "yields isConflict (conflicted H tx cs eff ob)"
    unfolding conflicted_def by (intro yields_rules) (simp add: isConflict_def)
  then show ?thesis
    unfolding yields_def andThen_Inr ret_run stopsOnConflict_def prod.inject sum.inject by blast
qed

lemma freshPlan_stops: "yields stopsOnConflict (freshPlan H o' tx)"
proof -
  have plan: "yields stopsOnConflict (thenDo m (ret (Inr p)))" for m :: "unit txM" and p
    by (intro yields_rules) simp
  have settled: "yields stopsOnConflict (case r of
             Inl outcome \<Rightarrow> andThen (conflicted H tx conflicts eff (Some outcome)) (\<lambda>r. ret (Inl r))
           | Inr plan \<Rightarrow> thenDo (acquireLease H (tx_txId tx) False [tx_root tx]) (ret (Inr (plan, conflicts))))"
    for r conflicts eff
    by (cases r) (simp_all only: sum.case conflicted_stops plan)
  have "yields stopsOnConflict (case co_observations o' of
          None \<Rightarrow> andThen (conflicted H tx conflicts eff None) (\<lambda>r. ret (Inl r))
        | Some v \<Rightarrow> andThen (validateByObservations H tx eff conflicts v
              (\<lambda>source. acquireLease H (tx_txId tx) False [source])) (\<lambda>r. case r of
             Inl outcome \<Rightarrow> andThen (conflicted H tx conflicts eff (Some outcome)) (\<lambda>r. ret (Inl r))
           | Inr plan \<Rightarrow> thenDo (acquireLease H (tx_txId tx) False [tx_root tx]) (ret (Inr (plan, conflicts)))))"
    for conflicts eff
  proof (cases "co_observations o'")
    case (Some ob)
    show ?thesis unfolding Some option.case by (rule yields_andThen) (rule settled)
  qed (simp only: option.case conflicted_stops)
  note judged = yields_thenDo [OF this]
  have "yields stopsOnConflict (if conflicts = []
     then ret (Inr (\<lparr>cp_effects = eff, cp_sourceRoot = tx_forkRoot tx,
                    cp_validation = filesValidation eff, cp_replay = None\<rparr>, []))
     else thenDo m (case co_observations o' of
          None \<Rightarrow> andThen (conflicted H tx conflicts eff None) (\<lambda>r. ret (Inl r))
        | Some v \<Rightarrow> andThen (validateByObservations H tx eff conflicts v
              (\<lambda>source. acquireLease H (tx_txId tx) False [source])) (\<lambda>r. case r of
             Inl outcome \<Rightarrow> andThen (conflicted H tx conflicts eff (Some outcome)) (\<lambda>r. ret (Inl r))
           | Inr plan \<Rightarrow> thenDo (acquireLease H (tx_txId tx) False [tx_root tx]) (ret (Inr (plan, conflicts))))))"
    for conflicts eff and m :: "unit txM"
    by (cases "conflicts = []") (simp_all only: if_True if_False simp_thms judged yields_ret stops_Inr)
  then show ?thesis unfolding freshPlan_def by (intro yields_thenDo yields_andThen)
qed

lemma body_stops: "yields stopsOnConflict (commitBody H o' tx None)"
proof -
  have changed: "yields stopsOnConflict (thenDo l (thenDo dr (andThen i (\<lambda>now.
      andThen (conflicted H tx cs (f now) ob) (\<lambda>r. ret (Inl r))))))"
    for l dr :: "unit txM" and i :: "TransactionEffects txM" and f cs ob
    by (intro yields_thenDo yields_andThen conflicted_stops)
  have through: "yields stopsOnConflict (thenDo l (thenDo dr (ret (Inr p))))" for l dr :: "unit txM" and p
    by (intro yields_rules) simp
  have settled: "yields stopsOnConflict (andThen (replayStillValid H tx plan) (\<lambda>valid.
          if \<not> valid
          then thenDo (releaseLease H (tx_txId tx))
            (thenDo (discardReplayFork H tx)
            (andThen (inspectTx H noHints (tx_txId tx)) (\<lambda>now.
             andThen (conflicted H tx fileConflicts
                 ((cp_effects plan)\<lparr>te_writeSet := te_writeSet now\<rparr>) (Some WorkspaceChanged)) (\<lambda>r. ret (Inl r)))))
          else thenDo (markCommitting H tx plan) (thenDo (publish H tx plan) (ret (Inr plan)))))" for plan fileConflicts
  proof (rule yields_andThen)
    show "yields stopsOnConflict (if \<not> valid
          then thenDo (releaseLease H (tx_txId tx))
            (thenDo (discardReplayFork H tx)
            (andThen (inspectTx H noHints (tx_txId tx)) (\<lambda>now.
             andThen (conflicted H tx fileConflicts
                 ((cp_effects plan)\<lparr>te_writeSet := te_writeSet now\<rparr>) (Some WorkspaceChanged)) (\<lambda>r. ret (Inl r)))))
          else thenDo (markCommitting H tx plan) (thenDo (publish H tx plan) (ret (Inr plan))))" for valid
      by (cases valid) (simp_all only: changed through simp_thms if_True if_False)
  qed
  show ?thesis
    unfolding yields_def
  proof (intro allI impI)
    fix w x w'
    assume "commitBody H o' tx None w = (Inr x, w')"
    then obtain r wa where f: "freshPlan H o' tx w = (Inr r, wa)"
      and k: "(case r of
        Inl result \<Rightarrow> ret (Inl result)
      | Inr (plan, fileConflicts) \<Rightarrow>
          andThen (replayStillValid H tx plan) (\<lambda>valid.
          if \<not> valid
          then thenDo (releaseLease H (tx_txId tx))
            (thenDo (discardReplayFork H tx)
            (andThen (inspectTx H noHints (tx_txId tx)) (\<lambda>now.
             andThen (conflicted H tx fileConflicts
                 ((cp_effects plan)\<lparr>te_writeSet := te_writeSet now\<rparr>) (Some WorkspaceChanged)) (\<lambda>r. ret (Inl r)))))
          else thenDo (markCommitting H tx plan) (thenDo (publish H tx plan) (ret (Inr plan))))) wa = (Inr x, w')"
      unfolding commitBody_def option.case andThen_Inr by (elim exE conjE) (rule that)
    show "stopsOnConflict x"
    proof (cases r)
      case (Inl c)
      have "x = Inl c" using k unfolding Inl by simp
      then show ?thesis using yieldsD [OF freshPlan_stops f [unfolded Inl]] by (simp add: stopsOnConflict_def)
    next
      case (Inr pc)
      obtain p cs where pc: "pc = (p, cs)" by (cases pc)
      show ?thesis by (rule yieldsD [OF settled]) (rule k [unfolded Inr pc sum.case prod.case])
    qed
  qed
qed

text \<open>A commit that got through, without an intent in the journal: the file validation's way.\<close>

lemma body_steps:
  assumes "commitBody H o' tx None w = (Inr (Inr plan), w')"
  obtains cs wa wv wb where "freshPlan H o' tx w = (Inr (Inr (plan, cs)), wa)"
    "replayStillValid H tx plan wa = (Inr True, wv)"
    "markCommitting H tx plan wv = (Inr (), wb)" "publish H tx plan wb = (Inr (), w')"
proof -
  obtain r wa where f: "freshPlan H o' tx w = (Inr r, wa)"
    and k: "(case r of
        Inl result \<Rightarrow> ret (Inl result)
      | Inr (plan, fileConflicts) \<Rightarrow>
          andThen (replayStillValid H tx plan) (\<lambda>valid.
          if \<not> valid
          then thenDo (releaseLease H (tx_txId tx))
            (thenDo (discardReplayFork H tx)
            (andThen (inspectTx H noHints (tx_txId tx)) (\<lambda>now.
             andThen (conflicted H tx fileConflicts
                 ((cp_effects plan)\<lparr>te_writeSet := te_writeSet now\<rparr>) (Some WorkspaceChanged)) (\<lambda>r. ret (Inl r)))))
          else thenDo (markCommitting H tx plan) (thenDo (publish H tx plan) (ret (Inr plan))))) wa = (Inr (Inr plan), w')"
    using assms unfolding commitBody_def option.case andThen_Inr by blast
  obtain p cs where r: "r = Inr (p, cs)" using k by (cases r) auto
  obtain valid wv where v: "replayStillValid H tx p wa = (Inr valid, wv)"
    and k: "(if \<not> valid
          then thenDo (releaseLease H (tx_txId tx))
            (thenDo (discardReplayFork H tx)
            (andThen (inspectTx H noHints (tx_txId tx)) (\<lambda>now.
             andThen (conflicted H tx cs
                 ((cp_effects p)\<lparr>te_writeSet := te_writeSet now\<rparr>) (Some WorkspaceChanged)) (\<lambda>r. ret (Inl r)))))
          else thenDo (markCommitting H tx p) (thenDo (publish H tx p) (ret (Inr p)))) wv = (Inr (Inr plan), w')"
    using k unfolding r sum.case prod.case andThen_Inr by blast
  have valid
  proof (rule ccontr)
    assume "\<not> valid"
    have left: "yields isl (thenDo m (thenDo n (andThen i (\<lambda>now. andThen (c now) (\<lambda>r. ret (Inl r))))))" for m n :: "unit txM" and i :: "TransactionEffects txM" and c :: "TransactionEffects \<Rightarrow> CommitResult txM"
      by (intro yields_rules) simp
    show False using k unfolding if_P [OF \<open>\<not> valid\<close>] by (auto dest: yieldsD [OF left])
  qed
  then have "thenDo (markCommitting H tx p) (thenDo (publish H tx p) (ret (Inr p))) wv = (Inr (Inr plan :: CommitResult + CommitPlan), w')"
    using k by simp
  then obtain wb where "markCommitting H tx p wv = (Inr (), wb)" "publish H tx p wb = (Inr (), w')" "p = plan"
    unfolding thenDo_unit ret_run by auto
  then show ?thesis using that [of cs wa wv wb] f v \<open>valid\<close> unfolding r by simp
qed

lemma finally_Inr: "commitFinally H txId r w = (Inr x, w') \<Longrightarrow> r = Inr x"
  by (cases "releaseLease H txId w"; cases r; cases "fst (releaseLease H txId w)")
    (simp_all add: commitFinally_def Let_def split: if_splits)

text \<open>A commit that returned, step by step, when the journal has no intent of it yet.\<close>

lemma commit_steps:
  assumes "commitTx H o' txId w = (Inr (Committed v eff), w')"
    and "\<forall>e \<in> set (txJournal txId w). ev_type e \<noteq> ''TX_COMMITTING''"
  obtains tx w1 plan wz where "requireTx H txId w = (Inr tx, w1)"
    "commitBody H o' tx None (w1\<lparr>tw_flags := \<lparr>cf_held = False, cf_durable = False, cf_committed = False\<rparr>\<rparr>)
       = (Inr (Inr plan), wz)"
    "cp_validation plan = v" "cp_effects plan = eff"
proof -
  obtain tx w1 where r: "requireTx H txId w = (Inr tx, w1)"
    and k: "(if tx_status tx = TxConflicted then (Inl (TxMessage ''has conflicts; abort it and start again''), w1)
     else (let committing = map_option ev_payload (find (\<lambda>e. ev_type e = ''TX_COMMITTING'') (txJournal txId w1));
               w0 = w1\<lparr>tw_flags := \<lparr>cf_held = False, cf_durable = committing \<noteq> None, cf_committed = False\<rparr>\<rparr>;
               (r, w2) = commitBody H o' tx committing w0
           in andThen (commitFinally H txId r) (\<lambda>out. case out of
                Inl result \<Rightarrow> ret result
              | Inr plan \<Rightarrow> thenDo (th_dematerialize H (tx_forkPath tx) None)
                 (thenDo (case cp_replay plan of None \<Rightarrow> ret ()
                          | Some (f, sid) \<Rightarrow> thenDo (th_dematerialize H f None) (th_prune H sid (tx_runId tx)))
                   (ret (Committed (cp_validation plan) (cp_effects plan))))) w2)) = (Inr (Committed v eff), w')"
    using assms(1) unfolding commitTx_def andThen_Inr by blast
  let ?w0 = "w1\<lparr>tw_flags := \<lparr>cf_held = False, cf_durable = False, cf_committed = False\<rparr>\<rparr>"
  have "txJournal txId w1 = txJournal txId w" using requireTx_same(3) [OF r] by (simp add: txJournal_def)
  then have none: "find (\<lambda>e. ev_type e = ''TX_COMMITTING'') (txJournal txId w1) = None"
    using assms(2) by (simp add: find_None_iff)
  obtain b wz where b: "commitBody H o' tx None ?w0 = (b, wz)" by (cases "commitBody H o' tx None ?w0")
  let ?close = "\<lambda>out. case out of
                Inl result \<Rightarrow> ret result
              | Inr plan \<Rightarrow> thenDo (th_dematerialize H (tx_forkPath tx) None)
                 (thenDo (case cp_replay plan of None \<Rightarrow> ret ()
                          | Some (f, sid) \<Rightarrow> thenDo (th_dematerialize H f None) (th_prune H sid (tx_runId tx)))
                   (ret (Committed (cp_validation plan) (cp_effects plan))))"
  have "andThen (commitFinally H txId b) ?close wz = (Inr (Committed v eff), w')"
    using k unfolding none option.map Let_def
    by (cases "tx_status tx = TxConflicted") (simp_all only: if_True if_False simp_thms b prod.case prod.inject sum.distinct option.distinct)
  then obtain out wy where fin: "commitFinally H txId b wz = (Inr out, wy)"
    and k: "?close out wy = (Inr (Committed v eff), w')"
    unfolding andThen_Inr by (elim exE conjE) (rule that)
  have o: "b = Inr out" by (rule finally_Inr [OF fin])
  show ?thesis
  proof (cases out)
    case (Inl result)
    then have "result = Committed v eff" using k by simp
    moreover have "stopsOnConflict (Inl result :: CommitResult + CommitPlan)"
      by (rule yieldsD [OF body_stops]) (rule b [unfolded o Inl])
    ultimately show ?thesis by (simp add: stopsOnConflict_def isConflict_def)
  next
    case (Inr plan)
    then have "cp_validation plan = v \<and> cp_effects plan = eff" using k by (auto simp: thenDo_Inr)
    then show ?thesis using that [OF r b [unfolded o Inr]] by blast
  qed
qed


section \<open>A validated commit\<close>

lemma filesValidation_neq: "filesValidation e \<noteq> CvObservations"
  by (simp add: filesValidation_def)

lemma marked_disk:
  assumes "markCommitting H tx plan w = (Inr (), w')"
  shows "tw_disk w' = tw_disk w"
proof -
  obtain n u where "recordTx H (tx_runId tx) ''TX_COMMITTING'' (planJson tx plan) w = (Inr n, u)"
    and "w' = u\<lparr>tw_flags := (tw_flags u)\<lparr>cf_durable := True\<rparr>, tw_open := mapSet (tx_txId tx) (tx\<lparr>tx_status := TxCommitting\<rparr>) (tw_open u)\<rparr>"
    using assms unfolding markCommitting_def thenDo_Inr by (auto simp: setFlags_def setTx_def)
  then show ?thesis
    by (cases rule: recordTx_cases [of H "tx_runId tx" "''TX_COMMITTING''" "planJson tx plan" w]) auto
qed



section \<open>A concrete commit\<close>

definition demoBase :: SnapshotRef where
  "demoBase = \<lparr>snap_id = ''s'', snap_domainId = ''d'', snap_opId = ''t-base'', snap_driver = ''git'', snap_roots = [''/w''],
     snap_coverage = WorktreeNonIgnored, snap_treeFingerprint = ''base'', snap_commitHash = None, snap_journalSeq = None,
     snap_createdAt = 1, snap_treeSizeBytes = None, snap_ignoredManifestDigest = None\<rparr>"

definition demoTx :: OpenTransaction where
  "demoTx = \<lparr>tx_txId = ''t'', tx_runId = ''r'', tx_root = ''/w'', tx_forkRoot = ''/f'', tx_forkPath = ''/f'', tx_repoRoot = ''/w'',
     tx_baseSnapshotId = ''s'', tx_beginSeq = 0, tx_readTracking = TrackAtime, tx_pathDependencies = Some [],
     tx_status = TxOpen\<rparr>"

definition demoTxDomain :: domain where
  "demoTxDomain = \<lparr>dm_store = demo3\<lparr>db_snapshots := [demoBase]\<rparr>, dm_domainId = ''d'', dm_owner = demoOwner, dm_budget = None,
     dm_locked = [], dm_allocated = [], dm_budgets = [], dm_queue = [], dm_fenced = False, dm_open = True,
     dm_nextTicket = 0, dm_settled = []\<rparr>"

definition demoWorld :: "fsnode \<Rightarrow> world" where
  "demoWorld n = \<lparr>tw_domain = demoTxDomain, tw_disk = \<lparr>dk_nodes = [[] \<mapsto> DirNode, [''w''] \<mapsto> DirNode, [''f''] \<mapsto> DirNode,
       [''w'', ''a''] \<mapsto> n, [''w'', ''y''] \<mapsto> FileNode ''y'' 420, [''f'', ''a''] \<mapsto> LinkNode ''x''], dk_times = 0\<rparr>,
     tw_open = [(''t'', demoTx)],
     tw_flags = \<lparr>cf_held = False, cf_durable = False, cf_committed = False\<rparr>\<rparr>"

definition demoTxHost :: txHost where
  "demoTxHost = \<lparr>th_now = 5, th_gone = (\<lambda>_. True), th_sha = (\<lambda>_. ''h''), th_fsy = plainFs, th_driverName = ''git'',
     th_repoRoot = (\<lambda>_ p. Inr p), th_fingerprint = (\<lambda>_ p _. Inr p),
     th_diffTrees = (\<lambda>_ to' _. Inr (if to' = ''/f'' then [\<lparr>we_status = Modified, we_path = ''a''\<rparr>]
        else [\<lparr>we_status = Modified, we_path = ''other''\<rparr>])),
     th_scan = (\<lambda>_ _. Some ([''r''], [''a'', ''r''], [])), th_normalize = (\<lambda>_ _. (1, [])),
     th_probe = (\<lambda>_ _. TrackAtime), th_available = (\<lambda>_ _. Inr ()),
     th_capture = (\<lambda>_ _ _. ret demoBase), th_materialize = (\<lambda>_ _. ret ()), th_dematerialize = (\<lambda>_ _. ret ()),
     th_prune = (\<lambda>_ _. ret ())\<rparr>"

definition demoOptions :: CommitOptions where
  "demoOptions = \<lparr>co_observations = None, co_hints = noHints\<rparr>"

fun commitSummary :: "TxError + CommitResult \<Rightarrow> (CommitValidation \<times> WriteEntry list) option" where
  "commitSummary (Inr (Committed v e)) = Some (v, te_writeSet e)"
| "commitSummary _ = None"

lemma demo_commit: "commitSummary (fst (commitTx demoTxHost demoOptions ''t'' (demoWorld (FileNode ''1'' 420))))
   = Some (CvFiles, [\<lparr>we_status = Modified, we_path = ''a''\<rparr>])"
  by code_simp



end
