(* ===== verification/TxLease.thy ===== *)
theory TxLease
  imports TxProps
begin

text \<open>
  The write lease of a commit: what happens to it when a commit whose intent is durable fails.
  The flags of the running commit are local variables of \<open>commitExclusive\<close>, so the host's
  operations and the replay callbacks cannot change them (\<open>keepsFlags\<close>).
\<close>

definition keepsFlags :: "txHost \<Rightarrow> CommitOptions \<Rightarrow> bool" where
  "keepsFlags H o' \<longleftrightarrow>
     (\<forall>f a b c. preserves (\<lambda>w. tw_flags w = f) (th_capture H a b c))
     \<and> (\<forall>f a b. preserves (\<lambda>w. tw_flags w = f) (th_materialize H a b))
     \<and> (\<forall>f a b. preserves (\<lambda>w. tw_flags w = f) (th_dematerialize H a b))
     \<and> (\<forall>f a b. preserves (\<lambda>w. tw_flags w = f) (th_prune H a b))
     \<and> (\<forall>v. co_observations o' = Some v \<longrightarrow> (\<forall>f e r. preserves (\<lambda>w. tw_flags w = f) (ov_replay v e r))
          \<and> (\<forall>g f e n i r. ov_canCutoff v = Some g \<longrightarrow> preserves (\<lambda>w. tw_flags w = f) (g e n i r)))"

text \<open>The intent of the running commit is not written yet.\<close>

definition undecided :: "world \<Rightarrow> bool" where
  "undecided w \<longleftrightarrow> \<not> cf_durable (tw_flags w)"

lemma undecided_upd [simp]:
  "undecided (w\<lparr>tw_domain := d\<rparr>) = undecided w" "undecided (w\<lparr>tw_disk := k\<rparr>) = undecided w"
  "undecided (w\<lparr>tw_open := m\<rparr>) = undecided w"
  by (simp_all add: undecided_def)

lemma flags_pres:
  assumes "\<And>f. preserves (\<lambda>w. tw_flags w = f) m"
  shows "preserves (\<lambda>w. P (tw_flags w)) m"
  using assms unfolding preserves_def by metis

lemma flags_undecided: "(\<And>f. preserves (\<lambda>w. tw_flags w = f) m) \<Longrightarrow> preserves undecided m"
  unfolding undecided_def by (rule flags_pres)

lemma pres_reader: "(\<And>w. preserves I (m w)) \<Longrightarrow> preserves I (\<lambda>w. m w w)"
  by (simp add: preserves_def)

lemma und_inDom [pres]: "preserves undecided (inDom m)"
  by (rule preservesI) (auto simp: inDom_def split: prod.splits sum.splits)

lemma und_onDisk [pres]: "preserves undecided (onDisk m)"
  by (rule preservesI) (auto simp: onDisk_def split: prod.splits)

lemma und_setTx [pres]: "preserves undecided (setTx tx)" and und_dropTx [pres]: "preserves undecided (dropTx t)"
  and und_held [pres]: "preserves undecided (setFlags (\<lambda>f. f\<lparr>cf_held := b\<rparr>))"
  by (simp_all add: preserves_def setTx_def dropTx_def setFlags_def undecided_def)

lemma und_recordTx [pres]: "preserves undecided (recordTx H r t p)"
  unfolding recordTx_def by (rule und_inDom)

lemma und_normalize [pres]: "preserves undecided (normalizeTimes H r)"
  by (rule preservesI) (simp add: normalizeTimes_def split: prod.splits)

lemma same_undecided:
  assumes "\<And>v. preserves (sameSystem v) m"
  shows "preserves undecided m"
proof (rule preservesI)
  fix w
  have "sameSystem w (snd (m w))" using assms same_refl by (rule preserves_snd)
  moreover assume "undecided w"
  ultimately show "undecided (snd (m w))" by (simp add: undecided_def sameSystem_def)
qed

lemma und_effects [pres]: "preserves undecided (effectsOf H h tx)"
  by (rule same_undecided) (rule effects_same)

lemma und_requireTx [pres]: "preserves undecided (requireTx H t)"
proof (rule preservesI)
  fix w
  obtain r w' where run: "requireTx H t w = (r, w')" by (cases "requireTx H t w")
  assume "undecided w"
  then show "undecided (snd (requireTx H t w))"
    using requireTx_same(1) [OF run] by (simp add: run undecided_def sameSystem_def)
qed

lemma und_validate [pres]: "preserves undecided (validateTx H tx e)"
proof -
  have main: "preserves undecided (mainChangesSinceBase H tx)"
    by (rule preservesI) (auto simp: mainChangesSinceBase_def andThen_def split: option.splits sum.splits)
  show ?thesis unfolding validateTx_def Let_def by (rule pres_reader) (intro pres_andThen pres_ret main)
qed

lemma und_acquire [pres]: "preserves undecided (acquireLease H t b rs)"
  unfolding acquireLease_def Let_def by (rule pres_reader) (intro pres)

lemma und_release [pres]: "preserves undecided (releaseLease H t)"
  unfolding releaseLease_def by (intro pres)

lemma und_conflicted [pres]: "preserves undecided (conflicted H tx cs e ob)"
  unfolding conflicted_def by (intro pres)


lemma und_unchanged [pres]: "preserves undecided (unchangedSince H tx sid)"
  by (rule preservesI) (auto simp: unchangedSince_def andThen_def split: option.splits sum.splits)

section \<open>Before the intent\<close>

lemma und_host [pres]:
  assumes "keepsFlags H o'"
  shows "preserves undecided (th_capture H a b c)" "preserves undecided (th_materialize H a b)"
    "preserves undecided (th_dematerialize H a p)" "preserves undecided (th_prune H a b)"
  using assms unfolding keepsFlags_def by (auto intro: flags_undecided)

lemma und_underLease:
  assumes "preserves undecided body"
  shows "preserves undecided (underLease H owner rs body)"
proof -
  have "preserves undecided (\<lambda>w. let (r, w1) = body w in
      (case inDom (internalReleaseResources (th_gone H) (th_now H) owner []) w1 of
         (Inl e, w2) \<Rightarrow> (Inl e, w2) | (Inr _, w2) \<Rightarrow> (r, w2)))"
  proof (rule preservesI)
    fix w assume w: "undecided w"
    obtain r w1 where b: "body w = (r, w1)" by (cases "body w")
    obtain q w2 where c: "inDom (internalReleaseResources (th_gone H) (th_now H) owner []) w1 = (q, w2)"
      by (cases "inDom (internalReleaseResources (th_gone H) (th_now H) owner []) w1")
    have "undecided w1" using preserves_snd [OF assms w] b by simp
    then have "undecided w2" using preserves_snd [OF und_inDom] c by (metis snd_conv)
    then show "undecided (snd (let (r, w1) = body w in
      (case inDom (internalReleaseResources (th_gone H) (th_now H) owner []) w1 of
         (Inl e, w2) \<Rightarrow> (Inl e, w2) | (Inr _, w2) \<Rightarrow> (r, w2))))"
      by (cases q) (simp_all add: b c)
  qed
  then show ?thesis unfolding underLease_def by (intro pres_thenDo pres_answers und_inDom)
qed

lemma und_inspect: "preserves undecided (inspectTx H hints t)"
  unfolding inspectTx_def by (intro pres_andThen und_requireTx und_underLease und_effects)

lemma und_discard:
  assumes "keepsFlags H o'"
  shows "preserves undecided (discardReplayFork H tx)"
proof -
  have remove: "preserves undecided (\<lambda>w. (if existsPath H (tw_disk w) (replayForkPath tx)
                 then th_dematerialize H (replayForkPath tx) None else ret ()) w)"
    by (rule pres_reader) (intro pres_if und_host [OF assms] pres_ret)
  have each: "preserves undecided (\<lambda>w. let sid = readStr (jfield (ev_payload e) ''snapshotId'') in
             (if getSnapshot sid (worldStore w) \<noteq> None then th_prune H sid (tx_runId tx) else ret ()) w)" for e
    unfolding Let_def by (rule pres_reader) (intro pres_if und_host [OF assms] pres_ret)
  have prune: "preserves undecided (\<lambda>w. forEach (filter (\<lambda>e. ev_type e = ''TX_REPLAY_STARTED'') (txJournal (tx_txId tx) w))
          (\<lambda>e w. let sid = readStr (jfield (ev_payload e) ''snapshotId'') in
             (if getSnapshot sid (worldStore w) \<noteq> None then th_prune H sid (tx_runId tx) else ret ()) w) w)"
    by (rule pres_reader) (rule pres_forEach [OF each])
  show ?thesis unfolding discardReplayFork_def by (rule pres_thenDo [OF remove prune])
qed

lemma und_replayLog:
  assumes "\<And>e r. preserves undecided (ov_replay v e r)"
    and "\<And>g e n i r. ov_canCutoff v = Some g \<Longrightarrow> preserves undecided (g e n i r)"
    and "undecided w"
  shows "undecided (snd (replayFrom v root i cuts es w))"
  using assms(3)
proof (induction es arbitrary: i cuts w)
  case (Cons e es)
  have step: "preserves undecided (replayStep v i e root)"
    unfolding replayStep_def Let_def by (intro pres_andThen pres_if pres_option pres_ret assms(1,2))
  obtain r w1 where s: "replayStep v i e root w = (r, w1)" by (cases "replayStep v i e root w")
  have "undecided w1" using preserves_snd [OF step Cons.prems] s by simp
  with Cons.IH s show ?case by (auto split: sum.splits StepVerdict.splits)
qed simp

lemma keeps_replay:
  assumes "keepsFlags H o'" and "co_observations o' = Some v"
  shows "preserves undecided (ov_replay v e r)"
    and "ov_canCutoff v = Some g \<Longrightarrow> preserves undecided (g e n i r)"
  using assms unfolding keepsFlags_def by (auto intro: flags_undecided)

lemma und_replayOn:
  assumes "keepsFlags H o'" and "co_observations o' = Some v" and "\<And>r. preserves undecided (protect r)"
  shows "preserves undecided (replayOn H tx eff v protect snapshot root)"
proof (rule preservesI)
  have plan: "preserves undecided (replayedPlan H tx eff snapshot root)"
    unfolding replayedPlan_def by (intro pres_andThen pres_answers pres_answer pres_ret)
  have stop: "preserves undecided (thenDo (th_dematerialize H (replayForkPath tx) None)
        (thenDo (th_prune H (snap_id snapshot) (tx_runId tx)) (ret x)))" for x :: "ObservationOutcome + CommitPlan"
    by (intro pres_thenDo und_host [OF assms(1)] pres_ret)
  have go: "preserves undecided (thenDo (protect root)
           (andThen (replayedPlan H tx eff snapshot root) (\<lambda>p. ret (Inr p :: ObservationOutcome + CommitPlan))))"
    by (intro pres_thenDo pres_andThen plan assms(3) pres_ret)
  fix w assume w: "undecided w"
  obtain cs dv w' where l: "replayObservationLog v root w = ((cs, dv), w')"
    by (cases "replayObservationLog v root w") auto
  have "undecided (snd (replayObservationLog v root w))"
    unfolding replayObservationLog_def by (rule und_replayLog) (auto intro: keeps_replay [OF assms(1,2)] w)
  then have "undecided w'" by (simp add: l)
  then show "undecided (snd (replayOn H tx eff v protect snapshot root w))"
    using preserves_snd [OF stop] preserves_snd [OF go]
    by (cases dv) (simp_all add: replayOn_def l)
qed

lemma und_attempt:
  assumes "keepsFlags H o'" and "co_observations o' = Some v" and "\<And>r. preserves undecided (protect r)"
  shows "preserves undecided (replayAttempt H tx eff v protect)"
  unfolding replayAttempt_def Let_def
  by (rule pres_reader) (intro pres_thenDo pres_andThen und_recordTx und_host [OF assms(1)] pres_answers und_replayOn [OF assms])

lemma und_observe:
  assumes "keepsFlags H o'" and "co_observations o' = Some v" and "\<And>r. preserves undecided (protect r)"
  shows "preserves undecided (validateByObservations H tx eff cs v protect)"
proof -
  have judge: "preserves undecided (\<lambda>w. (case processInFork H tx w of
           Some opId \<Rightarrow> thenDo (recordTx H (tx_runId tx) ''TX_VALIDATION_DOWNGRADED''
               (JObj [(''txId'', JStr (tx_txId tx)), (''reason'', JStr ''not_closed_world''), (''operationId'', JStr opId)]))
             (ret (Inl (NotAttempted ''not_closed_world'')))
         | None \<Rightarrow> thenDo (discardReplayFork H tx) (replayAttempt H tx eff v protect)) w)"
    by (rule pres_reader) (intro pres_option pres_thenDo und_recordTx pres_ret und_discard [OF assms(1)] und_attempt [OF assms])
  show ?thesis unfolding validateByObservations_def by (intro pres_if pres_ret pres_andThen pres_answers judge)
qed

lemma pres_sum: "(\<And>a. r = Inl a \<Longrightarrow> preserves I (f a)) \<Longrightarrow> (\<And>b. r = Inr b \<Longrightarrow> preserves I (g b))
    \<Longrightarrow> preserves I (case r of Inl a \<Rightarrow> f a | Inr b \<Rightarrow> g b)"
  by (cases r) simp_all

lemma und_freshPlan:
  assumes "keepsFlags H o'"
  shows "preserves undecided (freshPlan H o' tx)"
  unfolding freshPlan_def
  by (intro pres_thenDo pres_andThen und_acquire und_effects und_validate pres_if pres_ret und_release
      pres_option und_conflicted und_observe [OF assms] pres_sum)

section \<open>The lease of a plan\<close>

abbreviation leased :: "OpenTransaction \<Rightarrow> world \<Rightarrow> bool" where
  "leased tx w \<equiv> getResourceOwner (''workspace:write:'' @ tx_root tx) (tw_domain w) = Some (tx_txId tx @ '':apply'')"

lemma same_leased: "sameSystem v w \<Longrightarrow> leased tx w = leased tx v"
  by (simp add: sameSystem_def getResourceOwner_def)

lemma fresh_leased:
  assumes "freshPlan H o' tx w = (Inr (Inr (plan, cs)), w')"
  shows "leased tx w'"
proof (cases "cp_validation plan = CvObservations")
  case False
  from freshPlan_files [OF assms False] obtain wa wb where
    l: "acquireLease H (tx_txId tx) False [tx_root tx, tx_forkRoot tx] w = (Inr (), wa)"
    and e: "effectsOf H (co_hints o') tx wa = (Inr (cp_effects plan), wb)"
    and va: "validateTx H tx (cp_effects plan) wb = (Inr [], w')" by metis
  have "sameSystem wa wb" using preserves_snd [OF effects_same same_refl, of wa] e by (metis snd_conv)
  then show ?thesis
    using acquire_effect [OF l] validate_clean [OF va] same_leased by auto
next
  case True
  obtain wa eff wb conflicts wc where
    rest: "(if conflicts = []
     then ret (Inr (\<lparr>cp_effects = eff, cp_sourceRoot = tx_forkRoot tx,
                    cp_validation = filesValidation eff, cp_replay = None\<rparr>, []))
     else thenDo (releaseLease H (tx_txId tx))
       (case co_observations o' of
          None \<Rightarrow> andThen (conflicted H tx conflicts eff None) (\<lambda>r. ret (Inl r))
        | Some v \<Rightarrow> andThen (validateByObservations H tx eff conflicts v
              (\<lambda>source. acquireLease H (tx_txId tx) False [source])) (\<lambda>r. case r of
             Inl outcome \<Rightarrow> andThen (conflicted H tx conflicts eff (Some outcome)) (\<lambda>r. ret (Inl r))
           | Inr plan \<Rightarrow> thenDo (acquireLease H (tx_txId tx) False [tx_root tx]) (ret (Inr (plan, conflicts)))))) wc
       = (Inr (Inr (plan, cs)), w')"
    using assms unfolding freshPlan_def thenDo_unit andThen_Inr by blast
  have ne: "conflicts \<noteq> []" using rest True filesValidation_neq by auto
  obtain ob where ob: "co_observations o' = Some ob"
    using rest ne by (cases "co_observations o'") (auto simp: thenDo_Inr andThen_Inr)
  obtain r we where "(case r of
             Inl outcome \<Rightarrow> andThen (conflicted H tx conflicts eff (Some outcome)) (\<lambda>r. ret (Inl r))
           | Inr plan \<Rightarrow> thenDo (acquireLease H (tx_txId tx) False [tx_root tx]) (ret (Inr (plan, conflicts)))) we
          = (Inr (Inr (plan, cs)), w')"
    using rest ne ob by (auto simp: thenDo_Inr andThen_Inr)
  then have "\<exists>wf. acquireLease H (tx_txId tx) False [tx_root tx] wf = (Inr (), w')"
    by (cases r) (auto simp: thenDo_Inr andThen_Inr)
  then show ?thesis using acquire_effect by fastforce
qed

section \<open>A commit that stops after its intent\<close>

definition marked :: "world \<Rightarrow> bool" where
  "marked w \<longleftrightarrow> (\<exists>e \<in> set (db_journal (worldStore w)). ev_type e = ''TX_COMMITTING'')"

text \<open>Neither the lease nor the intent is touched by what follows the intent.\<close>

lemma mark_result:
  assumes "markCommitting H tx plan w = (r, w')" and "undecided w"
  shows "(\<exists>e. r = Inl e \<and> undecided w') \<or> (r = Inr () \<and> marked w' \<and> leased tx w' = leased tx w)"
proof (cases rule: recordTx_cases [of H "tx_runId tx" "''TX_COMMITTING''" "planJson tx plan" w])
  case (refused e)
  then show ?thesis using assms by (auto simp: markCommitting_def thenDo_def andThen_def)
next
  case (appended n row)
  then show ?thesis
    using assms(1) by (auto simp: markCommitting_def thenDo_def andThen_def setFlags_def setTx_def marked_def getResourceOwner_def)
qed

lemma publish_fails:
  assumes "publish H tx plan w = (Inl e, w')"
  shows "marked w' = marked w \<and> leased tx w' = leased tx w"
proof -
  obtain r d where a: "applyWrites (th_fsy H) (tx_root tx) (te_writeSet (cp_effects plan)) (cp_sourceRoot plan) (tw_disk w) = (r, d)"
    by (cases "applyWrites (th_fsy H) (tx_root tx) (te_writeSet (cp_effects plan)) (cp_sourceRoot plan) (tw_disk w)")
  let ?w = "w\<lparr>tw_disk := d\<rparr>"
  show ?thesis
  proof (cases r)
    case (Inl x)
    then show ?thesis
      using assms a by (auto simp: publish_def thenDo_def andThen_def onDisk_def marked_def getResourceOwner_def)
  next
    case (Inr x)
    show ?thesis
      using assms a Inr
      by (cases rule: recordTx_cases [of H "tx_runId tx" "''TX_COMMITTED''" "committedJson tx plan" ?w])
        (auto simp: publish_def thenDo_def andThen_def onDisk_def setFlags_def dropTx_def marked_def getResourceOwner_def)
  qed
qed

lemma still_same: "snd (replayStillValid H tx plan w) = w"
  by (auto simp: replayStillValid_def unchangedSince_def andThen_def split: option.splits sum.splits)

lemma body_fails:
  assumes "commitBody H o' tx None w = (Inl e, w')" and "keepsFlags H o'" and "undecided w"
  shows "undecided w' \<or> (marked w' \<and> leased tx w')"
proof -
  let ?next = "\<lambda>plan cs valid. if \<not> valid
          then thenDo (releaseLease H (tx_txId tx))
            (thenDo (discardReplayFork H tx)
            (andThen (inspectTx H noHints (tx_txId tx)) (\<lambda>now.
             andThen (conflicted H tx cs
                 ((cp_effects plan)\<lparr>te_writeSet := te_writeSet now\<rparr>) (Some WorkspaceChanged)) (\<lambda>r. ret (Inl r)))))
          else thenDo (markCommitting H tx plan) (thenDo (publish H tx plan) (ret (Inr plan :: CommitResult + CommitPlan)))"
  let ?rest = "\<lambda>r. case r of
        Inl result \<Rightarrow> ret (Inl result)
      | Inr (plan, cs) \<Rightarrow> andThen (replayStillValid H tx plan) (?next plan cs)"
  have run: "andThen (freshPlan H o' tx) ?rest w = (Inl e, w')"
    using assms(1) unfolding commitBody_def option.case .
  obtain r wa where f: "freshPlan H o' tx w = (r, wa)" by (cases "freshPlan H o' tx w")
  have "undecided (snd (freshPlan H o' tx w))" by (rule preserves_snd [OF und_freshPlan [OF assms(2)] assms(3)])
  then have wa: "undecided wa" by (simp only: f snd_conv)
  show ?thesis
  proof (cases r)
    case (Inl x)
    then show ?thesis using run wa unfolding andThen_simps(1) [where m = "freshPlan H o' tx" and s = w, OF f [unfolded Inl]] by simp
  next
    case (Inr y)
    have k: "?rest y wa = (Inl e, w')" using run unfolding andThen_simps(2) [where m = "freshPlan H o' tx" and s = w, OF f [unfolded Inr]] .
    obtain plan cs where y: "y = Inr (plan, cs)"
    proof (cases y)
      case (Inl c)
      then show ?thesis using k by simp
    next
      case (Inr pc)
      then show ?thesis using that by (cases pc) simp
    qed
    have lease: "leased tx wa" by (rule fresh_leased [OF f [unfolded Inr y]])
    have k: "andThen (replayStillValid H tx plan) (?next plan cs) wa = (Inl e, w')"
      using k unfolding y sum.case prod.case .
    obtain vr where v: "replayStillValid H tx plan wa = (vr, wa)"
      using still_same [of H tx plan wa] by (cases "replayStillValid H tx plan wa") simp
    show ?thesis
    proof (cases vr)
      case (Inl x)
      then show ?thesis using k wa unfolding andThen_simps(1) [where m = "replayStillValid H tx plan" and s = wa, OF v [unfolded Inl]] by simp
    next
      case (Inr valid)
      have n: "?next plan cs valid wa = (Inl e, w')" using k unfolding andThen_simps(2) [where m = "replayStillValid H tx plan" and s = wa, OF v [unfolded Inr]] .
      show ?thesis
      proof (cases valid)
        case False
        have tail: "preserves undecided (?next plan cs valid)"
          by (intro pres_if pres_thenDo pres_andThen und_release und_discard [OF assms(2)]
              und_inspect und_conflicted pres_ret; simp only: False simp_thms)
        have "undecided (snd (?next plan cs valid wa))" by (rule preserves_snd [OF tail]) (rule wa)
        then show ?thesis unfolding n snd_conv by blast
      next
        case True
        have n: "thenDo (markCommitting H tx plan) (thenDo (publish H tx plan) (ret (Inr plan :: CommitResult + CommitPlan))) wa = (Inl e, w')"
          using n unfolding if_not_P [OF iffD2 [OF not_not True]] .
        obtain mr wb where m: "markCommitting H tx plan wa = (mr, wb)" by (cases "markCommitting H tx plan wa")
        show ?thesis
          using mark_result [OF m wa]
        proof (elim disjE exE conjE)
          fix x assume "mr = Inl x" "undecided wb"
          then show ?thesis using n m by simp
        next
          assume mr: "mr = Inr ()" and mk: "marked wb" and l: "leased tx wb = leased tx wa"
          obtain pr wc where p: "publish H tx plan wb = (pr, wc)" by (cases "publish H tx plan wb")
          have "pr = Inl e \<and> wc = w'"
            using n m mr p by (cases pr) simp_all
          then show ?thesis using publish_fails p mk l lease by blast
        qed
      qed
    qed
  qed
qed

lemma body_committed:
  assumes "commitBody H o' tx None w = (Inr (Inr plan), w')"
  shows "cf_committed (tw_flags w')"
proof -
  from body_steps [OF assms] obtain wb where "publish H tx plan wb = (Inr (), w')" by metis
  then obtain u v where "setFlags (\<lambda>f. f\<lparr>cf_committed := True\<rparr>) u = (Inr (), v)" "dropTx (tx_txId tx) v = (Inr (), w')"
    unfolding publish_def thenDo_Inr by auto
  then show ?thesis by (auto simp: setFlags_def dropTx_def)
qed

text \<open>Releasing the lease is only done when the commit is finished or has not begun.\<close>

definition halted :: "world \<Rightarrow> bool" where
  "halted w \<longleftrightarrow> cf_durable (tw_flags w) \<and> \<not> cf_committed (tw_flags w)"

lemma release_flags:
  "cf_durable (tw_flags (snd (releaseLease H t w))) = cf_durable (tw_flags w)"
  "cf_committed (tw_flags (snd (releaseLease H t w))) = cf_committed (tw_flags w)"
proof -
  obtain i x where i: "inDom (internalReleaseResources (th_gone H) (th_now H) (t @ '':apply'') []) w = (i, x)"
    by (cases "inDom (internalReleaseResources (th_gone H) (th_now H) (t @ '':apply'') []) w")
  have "tw_flags x = tw_flags w" using i by (auto simp: inDom_def split: prod.splits sum.splits)
  then show "cf_durable (tw_flags (snd (releaseLease H t w))) = cf_durable (tw_flags w)"
    "cf_committed (tw_flags (snd (releaseLease H t w))) = cf_committed (tw_flags w)"
    using i by (cases i; simp add: releaseLease_def setFlags_def)+
qed

lemma finally_cases:
  obtains (kept) "commitFinally H t r w = (r, w)"
  | (released) r' where "commitFinally H t r w = (r', snd (releaseLease H t w))"
      "\<not> cf_durable (tw_flags w) \<or> cf_committed (tw_flags w)"
proof (cases "cf_held (tw_flags w) \<and> (\<not> cf_durable (tw_flags w) \<or> cf_committed (tw_flags w))")
  case False
  then show ?thesis by (intro kept) (simp only: commitFinally_def Let_def if_False)
next
  case True
  obtain q u where rel: "releaseLease H t w = (q, u)" by (cases "releaseLease H t w")
  have "\<exists>r'. commitFinally H t r w = (r', u)"
    using True rel by (cases q; cases r) (simp_all add: commitFinally_def Let_def)
  with True show ?thesis using released by (metis rel snd_conv)
qed

lemma finally_unfinished:
  assumes "commitFinally H t r w = (r', w')" and "halted w'"
  shows "r' = r \<and> w' = w"
proof (cases rule: finally_cases [of H t r w])
  case kept
  then show ?thesis using assms(1) by simp
next
  case released
  then have "\<not> halted w'" using assms(1) release_flags [of H t w] by (auto simp: halted_def)
  then show ?thesis using assms(2) by blast
qed

lemma finally_committed: "preserves (\<lambda>w. cf_committed (tw_flags w)) (commitFinally H t r)"
proof (rule preservesI)
  fix w :: world assume "cf_committed (tw_flags w)"
  then show "cf_committed (tw_flags (snd (commitFinally H t r w)))"
    using release_flags(2) [of H t w] by (cases rule: finally_cases [of H t r w]) simp_all
qed

lemma tail_committed:
  assumes "keepsFlags H o'"
  shows "preserves (\<lambda>w. cf_committed (tw_flags w)) (thenDo (th_dematerialize H (tx_forkPath tx) None)
                 (thenDo (case cp_replay plan of None \<Rightarrow> ret ()
                          | Some (f, sid) \<Rightarrow> thenDo (th_dematerialize H f None) (th_prune H sid (tx_runId tx)))
                   (ret (Committed (cp_validation plan) (cp_effects plan)))))"
proof -
  have d: "preserves (\<lambda>w. cf_committed (tw_flags w)) (th_dematerialize H a p)" for a p
    by (rule flags_pres) (use assms in \<open>simp add: keepsFlags_def\<close>)
  have p: "preserves (\<lambda>w. cf_committed (tw_flags w)) (th_prune H a b)" for a b
    by (rule flags_pres) (use assms in \<open>simp add: keepsFlags_def\<close>)
  have r: "preserves (\<lambda>w. cf_committed (tw_flags w)) (case cp_replay plan of None \<Rightarrow> ret ()
                          | Some (f, sid) \<Rightarrow> thenDo (th_dematerialize H f None) (th_prune H sid (tx_runId tx)))"
    by (cases "cp_replay plan") (auto intro: pres_ret pres_thenDo d p)
  show ?thesis by (intro pres_thenDo pres_ret d r)
qed


text \<open>A transaction that replaces the directory \<open>/w/a\<close> by a link: its commit stops half way.\<close>

fun stopsUnfinished :: "(TxError + CommitResult) \<times> world \<Rightarrow> bool" where
  "stopsUnfinished (Inl e, w') = halted w'"
| "stopsUnfinished (Inr r, w') = False"

lemma demo_stops: "stopsUnfinished (commitTx demoTxHost demoOptions ''t'' (demoWorld DirNode))"
  by code_simp

lemma demo_keeps: "keepsFlags demoTxHost demoOptions"
  by (simp add: keepsFlags_def demoTxHost_def demoOptions_def pres_ret)


section \<open>What validation by files misses\<close>

text \<open>
  A change is explained by its path alone. When a committed transaction modified \<open>x\<close> and \<open>x\<close> was
  then deleted outside any transaction, the deletion counts as explained, and a transaction that
  listed the directory (\<open>./\<close> in its read set) commits without a conflict.
\<close>

definition gapHost :: txHost where
  "gapHost = demoTxHost\<lparr>th_diffTrees := (\<lambda>_ _ _. Inr [\<lparr>we_status = Deleted, we_path = ''x''\<rparr>])\<rparr>"

definition gapWorld :: world where
  "gapWorld = (demoWorld DirNode)\<lparr>tw_domain := demoTxDomain\<lparr>dm_store := demo3\<lparr>db_snapshots := [demoBase],
     db_seq := 1, db_journal := [(demoEvent 1 ''TX_COMMITTED'' (JObj [(''txId'', JStr ''other''), (''root'', JStr ''/w''),
       (''writeSet'', listJson writeJson [\<lparr>we_status = Modified, we_path = ''x''\<rparr>])]))]\<rparr>\<rparr>\<rparr>"

definition gapEffects :: TransactionEffects where
  "gapEffects = \<lparr>te_readTracking = TrackAtime, te_readSet = Some [''./''], te_pathDependencies = Some [],
     te_writeSet = [], te_workspaceIndex = buildWorkspaceIncrementalIndex (\<lambda>_. ''h'') demoIndexInput\<rparr>"

lemma listing_change_missed:
  "fst (mainChangesSinceBase gapHost demoTx gapWorld) = Inr [\<lparr>we_status = Deleted, we_path = ''x''\<rparr>]"
  "\<not> unlisted gapEffects \<lparr>we_status = Deleted, we_path = ''x''\<rparr>"
  "fst (validateTx gapHost demoTx gapEffects gapWorld) = Inr []"
proof -
  show "fst (mainChangesSinceBase gapHost demoTx gapWorld) = Inr [\<lparr>we_status = Deleted, we_path = ''x''\<rparr>]"
    by code_simp
  have "dirKey ''x'' = ''./''" by code_simp
  then show "\<not> unlisted gapEffects \<lparr>we_status = Deleted, we_path = ''x''\<rparr>"
    by (simp add: unlisted_def gapEffects_def)
  show "fst (validateTx gapHost demoTx gapEffects gapWorld) = Inr []"
    by code_simp
qed

end
