(* ===== verification/Spec2Isabelle.thy ===== *)
theory Spec2Isabelle
  imports LockSpec RecoveryProps CborProps DrainerProps PipelineProps SupervisorProps CausalProps TxLease
begin

text \<open>
  A verification development of the xioflow kernel (\<open>src/src\<close>): a runtime that executes
  the work of agents as journalled operations over isolated resources. A domain
  (\<open>domain.ts\<close>) owns a database (\<open>store/sqlite.ts\<close>), an isolation table and a queue of waiting
  requests; the supervisor (\<open>supervisor/\<close>) admits requests under capabilities (\<open>capability/\<close>),
  registers an intent, runs a process and records its result; recovery (\<open>recovery/engine.ts\<close>)
  settles what a crash left; the instruction set (\<open>isa/\<close>) is decoded, validated and executed by
  a pipeline; workspace transactions (\<open>workspace/\<close>) commit forks of the file system under
  optimistic concurrency control, with their provenance in a causal graph.

  \<^bold>\<open>Conventions.\<close> A method that mutates objects and may throw is a function from a state to an
  error or a value, and the state on both outcomes (\<open>Prelude\<close>); \<open>atomically\<close> is a SQLite
  transaction. Numbers are \<open>int\<close>, identifiers \<open>string\<close>, tables lists of rows in rowid order,
  JavaScript \<open>Map\<close>s association lists in insertion order. A record copied through JSON is the
  same record where its fields are plain data; the journal, which redacts, is modelled as JSON.
  Clocks, SHA-256, the file system, git, drivers and callbacks of the host are parameters, which may
  throw where the code expects it; what is assumed of one is a named hypothesis, met in the witness.

  \<^bold>\<open>Theories and sources.\<close>
  \<^item> \<open>KernelTypes\<close> (\<open>types.ts\<close>), \<open>Envelope\<close> (\<open>store/event-envelope.ts\<close>, \<open>config/snapshot.ts\<close>),
    \<open>Store\<close> (\<open>store/sqlite.ts\<close>, \<open>recovery/evidence.ts\<close>). \<open>StoreLaws\<close> has the well-formedness of a
    database and the order along which it evolves, \<open>StoreMethods\<close> that every method obeys
    them (locale \<open>store_method\<close>), \<open>StoreProps\<close> the properties: intents before results, an
    append-only and redacted journal, terminal runs that stay terminal, fencing of superseded owners.
  \<^item> \<open>Paths\<close>, \<open>Capability\<close> (\<open>capability/path-utils.ts\<close>, \<open>capability/check.ts\<close>); \<open>CapabilityProps\<close>:
    narrowing never widens, what is admitted is in scope and in limits, the walk over
    ancestors ends.
  \<^item> \<open>Domain\<close> (\<open>domain.ts\<close>); \<open>DomainLaws\<close> and \<open>DomainProps\<close>: the isolation barrier and its
    rebuilding (locale \<open>isolating\<close>); \<open>LockSpec\<close>: the domain refines an abstract lock manager;
    \<open>QueueProps\<close>: no overtaking and no lost wake-up.
  \<^item> \<open>Recovery\<close>, \<open>Coverage\<close> (\<open>recovery/engine.ts\<close>, \<open>supervisor/rollback.ts\<close>); \<open>RecoveryLaws\<close> and
    \<open>RecoveryProps\<close>: everything is settled, and only what is proved stopped is released.
  \<^item> \<open>Utf\<close>, \<open>Cbor\<close>, \<open>Registry\<close>, \<open>Validator\<close> (\<open>isa/codec.ts\<close>, \<open>isa/registry.generated.ts\<close>,
    \<open>isa/validator.ts\<close>); \<open>CborProps\<close> (locale \<open>wire\<close>): round trip, canonicity, refusal of truncated
    input; \<open>ValidatorProps\<close>: what an accepted program satisfies, and that the cycle check decides.
  \<^item> \<open>Pipeline\<close> (\<open>isa/pipeline.ts\<close>), a step relation over several programs and one coordinator;
    \<open>PipelineInv\<close>, \<open>PipelineSteps\<close>, \<open>PipelineLoop\<close> (its invariant), \<open>Progress\<close> and \<open>PipelineRank\<close>
    (locale \<open>progress\<close>: no deadlock and a decreasing measure), \<open>PipelineProps\<close>.
  \<^item> \<open>Drainer\<close> (\<open>supervisor/drainer.ts\<close>) and \<open>DrainerProps\<close>: the bounded capture of output does not
    depend on the chunks and never splits a character.
  \<^item> \<open>Admission\<close>, \<open>ProcessRun\<close>, \<open>Supervisor\<close> (\<open>supervisor/\<close>: \<open>supervisor.ts\<close>, \<open>input-validation.ts\<close>,
    \<open>admission.ts\<close>, \<open>fingerprint.ts\<close>, \<open>finalize.ts\<close>, \<open>replay.ts\<close>, \<open>process-run.ts\<close>,
    \<open>process-monitor.ts\<close>, \<open>process-output.ts\<close>); \<open>LedgerLaws\<close>, \<open>SupervisorLaws\<close> and \<open>SuccessLaws\<close>
    lead to \<open>SupervisorProps\<close>: leases follow operations, one spawn per operation, replays of
    recorded requests, and successes that were observed.
  \<^item> \<open>WorkspaceTypes\<close>, \<open>CausalGraph\<close> (\<open>workspace/causal-graph.ts\<close>); \<open>CausalLaws\<close>, \<open>CausalSearch\<close>,
    \<open>CausalProps\<close>: a recomputation is what can reach a change, explained by shortest paths.
  \<^item> \<open>WorkspaceIndex\<close> (\<open>workspace/incremental-index.ts\<close>, \<open>workspace/observation-replay.ts\<close>),
    \<open>TxApply\<close> and \<open>Transactions\<close> (\<open>workspace/transactions.ts\<close>); \<open>TxApply\<close> shows that applying a
    write set can be redone from every disk a crash leaves, \<open>TxLaws\<close> and \<open>TxProps\<close> what a
    validated commit has seen, \<open>TxLease\<close> that an unfinished commit keeps its lease, and what
    validation misses.

  \<^bold>\<open>Concurrency.\<close> The pipeline and the supervisor are cut at their \<open>await\<close>s into atomic pieces and
  any enabled piece may run next. The store and the domain are synchronous, so their methods are
  atomic. Recovery runs alone at start-up. Commits and aborts of transactions are queued by the code and each is one
  computation here; other writers of the workspace are kept out by the write lease, and what they do between two
  commits shows in the fingerprints, which are parameters.

  \<^bold>\<open>Fuel and bounds.\<close> The walk over capability ancestors has as much fuel as there are rows and one
  more; a longer walk repeats a row and is reported as \<open>LoopsForever\<close>, which is what the code does on
  a cycle of parents (\<open>admission_terminates\<close>). The cycle check of the validator has one unit per node
  and one more, the length of the longest branch of a depth-first search. The CBOR codec recurses
  over at most the depth limit of the code and one more. The chain of parents in an explanation is
  no longer than the map of parents. All other loops are structural or have a \<open>termination\<close> proof:
  the trimming of text by the bytes left, the causal search by the nodes not yet seen and the queue,
  path walks by the length of the path. A pipeline's run is bounded by \<open>sysRank\<close>.

  \<^bold>\<open>Not modelled.\<close> The gateway, the MCP server, telemetry, IPC, the command line and the drivers are
  input and output; confinement builds command lines of external sandboxes; the snapshot driver and
  read tracking walk the file system and call git, whose answers are the parameters of
  \<open>Transactions\<close> and \<open>Recovery\<close>; the agent runtime is a loop around a language model; the compiler and
  the kernel executor translate arguments between modelled parts. Of modelled parts: the texts
  of most messages, artifact pruning of the domain, the spill file of the drainer, requests that
  track reads and services of the supervisor, and the JSON text codec.
\<close>

end
